(* ===== verification/Py_Prelude.thy ===== *)
theory Py_Prelude
  imports Main "HOL-Library.AList" "HOL-Library.Char_ord" "HOL-Library.List_Lexorder"
    "HOL-Library.Option_ord" "HOL-Library.Product_Lexorder" "HOL-Library.Multiset"
begin

text \<open>
  What every component shares: the Python values the program passes around, the string and
  dictionary operations of the language it uses on them, and the list lemmas the component
  proofs rest on.

  A Python string is a \<^typ>\<open>string\<close> whose characters are the code points up to 255
  (Latin-1): \<open>strip\<close> and \<open>lower\<close> below treat exactly those the way Python does. A dictionary
  keeps its insertion order, so it is an association list with distinct keys:
  \<open>AList.update\<close> stores a key in place or at the end and \<open>AList.delete\<close> pops it.
\<close>

named_theorems dict_simps \<open>look-ups after stores and pops on association-list dictionaries\<close>
named_theorems keys_distinct \<open>operations keep the keys of a dictionary distinct\<close>

section \<open>Values\<close>

text \<open>
  The values of a JSON-shaped dictionary. A float is kept as its \<open>repr\<close> text, which determines
  it; nothing in the modelled code computes with a float that comes out of such a dictionary.
\<close>

datatype pyval =
    PNone
  | PBool bool
  | PInt int
  | PFloat string
  | PStr string
  | PList "pyval list"
  | PDict "(string \<times> pyval) list"

type_synonym pydict = "(string \<times> pyval) list"

text \<open>\<open>bool(v)\<close>\<close>

fun truthy :: "pyval \<Rightarrow> bool" where
  "truthy PNone = False"
| "truthy (PBool b) = b"
| "truthy (PInt i) = (i \<noteq> 0)"
| "truthy (PFloat t) = (t \<noteq> ''0.0'' \<and> t \<noteq> ''-0.0'')"
| "truthy (PStr s) = (s \<noteq> [])"
| "truthy (PList xs) = (xs \<noteq> [])"
| "truthy (PDict d) = (d \<noteq> [])"

section \<open>Strings\<close>

definition py_isspace :: "char \<Rightarrow> bool" where
  "py_isspace c =
     (let n = (of_char c :: nat)
      in (9 \<le> n \<and> n \<le> 13) \<or> (28 \<le> n \<and> n \<le> 32) \<or> n = 133 \<or> n = 160)"

text \<open>\<open>s.strip()\<close>\<close>

definition py_strip :: "string \<Rightarrow> string" where
  "py_strip s = rev (dropWhile py_isspace (rev (dropWhile py_isspace s)))"

definition py_lower_char :: "char \<Rightarrow> char" where
  "py_lower_char c =
     (let n = (of_char c :: nat)
      in if (65 \<le> n \<and> n \<le> 90) \<or> (192 \<le> n \<and> n \<le> 222 \<and> n \<noteq> 215) then char_of (n + 32) else c)"

text \<open>\<open>s.lower()\<close>\<close>

definition py_lower :: "string \<Rightarrow> string" where
  "py_lower s = map py_lower_char s"

text \<open>\<open>s.startswith(p)\<close>\<close>

fun starts_with :: "string \<Rightarrow> string \<Rightarrow> bool" where
  "starts_with s [] = True"
| "starts_with [] (p # ps) = False"
| "starts_with (c # s) (p # ps) = (c = p \<and> starts_with s ps)"

text \<open>\<open>s.endswith(p)\<close>\<close>

definition ends_with :: "string \<Rightarrow> string \<Rightarrow> bool" where
  "ends_with s p = starts_with (rev s) (rev p)"

text \<open>Whether \<open>pat\<close> occurs in \<open>s\<close>\<close>

fun contains :: "string \<Rightarrow> string \<Rightarrow> bool" where
  "contains [] pat = (pat = [])"
| "contains (c # s) pat = (starts_with (c # s) pat \<or> contains s pat)"

text \<open>\<open>s.replace(c, t)\<close> for a one-character \<open>c\<close>\<close>

definition replace_char :: "char \<Rightarrow> string \<Rightarrow> string \<Rightarrow> string" where
  "replace_char c t s = concat (map (\<lambda>x. if x = c then t else [x]) s)"

text \<open>\<open>s.split(c)\<close> for a one-character \<open>c\<close>: never the empty list\<close>

fun split_on :: "char \<Rightarrow> string \<Rightarrow> string list" where
  "split_on c [] = [[]]"
| "split_on c (x # xs) =
     (if x = c then [] # split_on c xs
      else (case split_on c xs of [] \<Rightarrow> [[x]] | w # ws \<Rightarrow> (x # w) # ws))"

lemma split_on_not_Nil [simp]: "split_on c s \<noteq> []"
  by (induction s) (auto split: list.splits)

text \<open>\<open>sep.join(parts)\<close>\<close>

fun join_with :: "string \<Rightarrow> string list \<Rightarrow> string" where
  "join_with sep [] = []"
| "join_with sep [w] = w"
| "join_with sep (w # ws) = w @ sep @ join_with sep ws"

text \<open>\<open>s.encode("utf-8")\<close> of a Latin-1 string, as the string of its bytes\<close>

definition utf8 :: "string \<Rightarrow> string" where
  "utf8 s = concat (map (\<lambda>c. let n = (of_char c :: nat)
     in if n < 128 then [c] else [char_of (192 + n div 64), char_of (128 + n mod 64)]) s)"

text \<open>Decimal numerals: \<open>str(n)\<close>\<close>

definition digit_char :: "nat \<Rightarrow> char" where
  "digit_char d = char_of (48 + d)"

fun nat_str :: "nat \<Rightarrow> string" where
  "nat_str n = (if n < 10 then [digit_char n] else nat_str (n div 10) @ [digit_char (n mod 10)])"

declare nat_str.simps [simp del]

definition int_str :: "int \<Rightarrow> string" where
  "int_str i = (if i < 0 then CHR ''-'' # nat_str (nat (- i)) else nat_str (nat i))"

text \<open>\<open>c.isdigit()\<close> on ASCII, and \<open>int(s)\<close> on a string of such digits\<close>

definition is_digit :: "char \<Rightarrow> bool" where
  "is_digit c = (let n = (of_char c :: nat) in 48 \<le> n \<and> n \<le> 57)"

definition digit_val :: "char \<Rightarrow> nat" where
  "digit_val c = of_char c - 48"

definition digits_val :: "string \<Rightarrow> nat" where
  "digits_val s = foldl (\<lambda>n c. 10 * n + digit_val c) 0 s"

text \<open>
  \<open>repr(v)\<close> and \<open>str(v)\<close>. A string's \<open>repr\<close> picks the quote that needs no escape where it can,
  and escapes the backslash, its own quote and the characters that do not print.
\<close>

definition hex_char :: "nat \<Rightarrow> char" where
  "hex_char d = (if d < 10 then char_of (48 + d) else char_of (87 + d))"

definition py_printable :: "char \<Rightarrow> bool" where
  "py_printable c =
     (let n = (of_char c :: nat) in 32 \<le> n \<and> \<not> (127 \<le> n \<and> n \<le> 160) \<and> n \<noteq> 173)"

definition repr_char :: "char \<Rightarrow> char \<Rightarrow> string" where
  "repr_char q c =
     (let n = (of_char c :: nat)
      in if c = q \<or> n = 92 then [char_of (92 :: nat), c]
         else if n = 10 then [char_of (92 :: nat), CHR ''n'']
         else if n = 13 then [char_of (92 :: nat), CHR ''r'']
         else if n = 9 then [char_of (92 :: nat), CHR ''t'']
         else if py_printable c then [c]
         else [char_of (92 :: nat), CHR ''x'', hex_char (n div 16), hex_char (n mod 16)])"

definition repr_str :: "string \<Rightarrow> string" where
  "repr_str s =
     (let sq = char_of (39 :: nat); dq = char_of (34 :: nat);
          q = (if sq \<in> set s \<and> dq \<notin> set s then dq else sq)
      in [q] @ concat (map (repr_char q) s) @ [q])"

fun py_repr :: "pyval \<Rightarrow> string" where
  "py_repr PNone = ''None''"
| "py_repr (PBool b) = (if b then ''True'' else ''False'')"
| "py_repr (PInt i) = int_str i"
| "py_repr (PFloat t) = t"
| "py_repr (PStr s) = repr_str s"
| "py_repr (PList xs) = ''['' @ join_with '', '' (map py_repr xs) @ '']''"
| "py_repr (PDict d) =
     ''{'' @ join_with '', '' (map (\<lambda>(k, r). repr_str k @ '': '' @ r)
        (map (map_prod id py_repr) d)) @ ''}''"

definition py_str :: "pyval \<Rightarrow> string" where
  "py_str v = (case v of PStr s \<Rightarrow> s | _ \<Rightarrow> py_repr v)"

lemma py_str_PStr [simp]: "py_str (PStr s) = s"
  by (simp add: py_str_def)

section \<open>Dictionaries\<close>

text \<open>\<open>d.get(k)\<close>: \<^const>\<open>PNone\<close> where the key is missing\<close>

definition dget :: "pydict \<Rightarrow> string \<Rightarrow> pyval" where
  "dget d k = (case map_of d k of None \<Rightarrow> PNone | Some v \<Rightarrow> v)"

text \<open>\<open>str(d.get(k) or "")\<close>\<close>

definition str_or_empty :: "pyval \<Rightarrow> string" where
  "str_or_empty v = (if truthy v then py_str v else [])"

abbreviation dset :: "string \<Rightarrow> 'v \<Rightarrow> (string \<times> 'v) list \<Rightarrow> (string \<times> 'v) list" where
  "dset \<equiv> AList.update"

abbreviation dpop :: "string \<Rightarrow> (string \<times> 'v) list \<Rightarrow> (string \<times> 'v) list" where
  "dpop \<equiv> AList.delete"

text \<open>\<open>d.update(changes)\<close>\<close>

definition dupdate :: "(string \<times> 'v) list \<Rightarrow> (string \<times> 'v) list \<Rightarrow> (string \<times> 'v) list" where
  "dupdate d changes = fold (\<lambda>(k, v) acc. dset k v acc) changes d"

text \<open>\<open>d.setdefault(k, v)\<close>\<close>

definition dsetdefault :: "string \<Rightarrow> 'v \<Rightarrow> (string \<times> 'v) list \<Rightarrow> (string \<times> 'v) list" where
  "dsetdefault k v d = (case map_of d k of None \<Rightarrow> dset k v d | Some _ \<Rightarrow> d)"

abbreviation wf_dict :: "(string \<times> 'v) list \<Rightarrow> bool" where
  "wf_dict d \<equiv> distinct (map fst d)"

lemma map_of_dset [simp, dict_simps]: "map_of (dset k v d) = (map_of d)(k \<mapsto> v)"
  by (rule update_conv')

lemma map_of_dpop [simp, dict_simps]: "map_of (dpop k d) = (map_of d)(k := None)"
  by (rule delete_conv')

lemma wf_dset [simp, intro, keys_distinct]: "wf_dict d \<Longrightarrow> wf_dict (dset k v d)"
  by (rule distinct_update)

lemma wf_dpop [simp, intro, keys_distinct]: "wf_dict d \<Longrightarrow> wf_dict (dpop k d)"
  by (rule distinct_delete)

lemma wf_dupdate [simp, intro, keys_distinct]: "wf_dict d \<Longrightarrow> wf_dict (dupdate d ch)"
  unfolding dupdate_def by (induction ch arbitrary: d) auto

lemma wf_dsetdefault [simp, intro, keys_distinct]: "wf_dict d \<Longrightarrow> wf_dict (dsetdefault k v d)"
  by (auto simp: dsetdefault_def split: option.splits)

lemma dget_dset [simp, dict_simps]: "dget (dset k v d) k' = (if k' = k then v else dget d k')"
  by (simp add: dget_def)

lemma dget_dsetdefault_other [simp, dict_simps]: "k' \<noteq> k \<Longrightarrow> dget (dsetdefault k v d) k' = dget d k'"
  by (simp add: dget_def dsetdefault_def split: option.splits)

lemma dupdate_Nil [simp]: "dupdate d [] = d"
  by (simp add: dupdate_def)

lemma dupdate_Cons [simp]: "dupdate d ((k, v) # ch) = dupdate (dset k v d) ch"
  by (simp add: dupdate_def)

lemma map_of_dupdate: "wf_dict ch \<Longrightarrow> map_of (dupdate d ch) = map_of d ++ map_of ch"
proof (induction ch arbitrary: d)
  case Nil
  then show ?case by simp
next
  case (Cons p ch)
  then show ?case
    by (cases p) (auto simp: map_add_def fun_eq_iff split: option.splits dest: map_of_SomeD
        intro: rev_image_eqI)
qed

lemma set_dset_subset: "set (dset k v d) \<subseteq> insert (k, v) (set d)"
  by (induction d) auto

lemma dpop_filter: "dpop k d = filter (\<lambda>p. fst p \<noteq> k) d"
  by (induction d) auto

lemma str_or_empty_PStr [simp]: "str_or_empty (PStr s) = s"
  by (simp add: str_or_empty_def)

lemma str_or_empty_PNone [simp]: "str_or_empty PNone = []"
  by (simp add: str_or_empty_def)

section \<open>Strings: stripping and splitting\<close>

lemma dropWhile_append_all: "list_all P xs \<Longrightarrow> dropWhile P (xs @ ys) = dropWhile P ys"
  by (induction xs) auto

lemma dropWhile_all: "list_all P xs \<Longrightarrow> dropWhile P xs = []"
  by (simp add: dropWhile_eq_Nil_conv list_all_iff)

lemma strip_split: "\<exists>l r. s = l @ py_strip s @ r \<and> list_all py_isspace l \<and> list_all py_isspace r"
proof -
  let ?l = "takeWhile py_isspace s" and ?m = "dropWhile py_isspace s"
  let ?r = "rev (takeWhile py_isspace (rev ?m))"
  have "?m = py_strip s @ ?r"
    unfolding py_strip_def by (metis rev_append rev_rev_ident takeWhile_dropWhile_id)
  then have "s = ?l @ py_strip s @ ?r" by (metis takeWhile_dropWhile_id)
  moreover have "list_all py_isspace ?l" "list_all py_isspace ?r"
    by (auto simp: list_all_iff dest: set_takeWhileD)
  ultimately show ?thesis by blast
qed

lemma py_strip_spaces_left: "list_all py_isspace l \<Longrightarrow> py_strip (l @ s) = py_strip s"
  by (simp add: py_strip_def dropWhile_append_all)

lemma py_strip_spaces_right: "list_all py_isspace r \<Longrightarrow> py_strip (s @ r) = py_strip s"
proof (cases "list_all py_isspace s")
  case True
  moreover assume "list_all py_isspace r"
  ultimately show ?thesis
    by (simp add: py_strip_def dropWhile_append_all dropWhile_all)
next
  case False
  assume r: "list_all py_isspace r"
  have "dropWhile py_isspace (s @ r) = dropWhile py_isspace s @ r"
    using False by (auto simp: list_all_iff dropWhile_append1)
  then show ?thesis using r by (simp add: py_strip_def dropWhile_append_all list_all_iff)
qed

lemma py_strip_idem [simp]: "py_strip (py_strip s) = py_strip s"
  by (metis py_strip_spaces_left py_strip_spaces_right strip_split)

lemma split_on_append:
  "split_on c (xs @ c # ys) = split_on c xs @ split_on c ys"
  by (induction xs) (auto split: list.splits)

lemma split_on_free: "c \<notin> set xs \<Longrightarrow> split_on c xs = [xs]"
  by (induction xs) auto

lemma split_on_prefix:
  "c \<notin> set l \<Longrightarrow> split_on c (l @ s) = (case split_on c s of w # ws \<Rightarrow> (l @ w) # ws)"
  by (induction l) (auto split: list.splits)

lemma split_on_suffix:
  "c \<notin> set r \<Longrightarrow> split_on c (s @ r) = butlast (split_on c s) @ [last (split_on c s) @ r]"
  by (induction s) (auto simp: split_on_free split: list.splits)

lemma split_on_join:
  "list_all (\<lambda>w. c \<notin> set w) ws \<Longrightarrow> ws \<noteq> [] \<Longrightarrow> split_on c (join_with [c] ws) = ws"
  by (induction "[c]" ws rule: join_with.induct) (auto simp: split_on_free split_on_append [of c, simplified])

lemma py_strip_Nil [simp]: "py_strip [] = []"
  by (simp add: py_strip_def)

lemma py_strip_plain: "list_all (\<lambda>c. \<not> py_isspace c) s \<Longrightarrow> py_strip s = s"
proof -
  assume a: "list_all (\<lambda>c. \<not> py_isspace c) s"
  then have d: "dropWhile py_isspace t = t" if "set t \<subseteq> set s" for t
    using that by (cases t) (auto simp: list_all_iff)
  show ?thesis unfolding py_strip_def by (simp add: d)
qed

lemma split_on_no_sep: "c \<notin> set xs \<Longrightarrow> split_on c (xs @ c # ys) = xs # split_on c ys"
  by (induction xs) auto

lemma replace_char_absent: "c \<notin> set s \<Longrightarrow> replace_char c t s = s"
  by (induction s) (auto simp: replace_char_def)

section \<open>Lists\<close>

text \<open>\<open>xs[-n:]\<close> for a positive \<open>n\<close>\<close>

definition last_n :: "nat \<Rightarrow> 'a list \<Rightarrow> 'a list" where
  "last_n n xs = drop (length xs - n) xs"

lemma length_last_n [simp]: "length (last_n n xs) = min n (length xs)"
  by (simp add: last_n_def)

lemma set_last_n: "set (last_n n xs) \<subseteq> set xs"
  by (simp add: last_n_def set_drop_subset)

lemma last_n_all: "length xs \<le> n \<Longrightarrow> last_n n xs = xs"
  by (simp add: last_n_def)

lemma last_n_snoc: "0 < n \<Longrightarrow> last (last_n n (xs @ [x])) = x"
  by (simp add: last_n_def Suc_diff_le)

text \<open>
  Popping the keys that satisfy a test, one after the other over a snapshot of the dictionary,
  is a filter.
\<close>

lemma fold_pop_filter:
  "fold (\<lambda>p acc. if P p then dpop (fst p) acc else acc) ps d =
     filter (\<lambda>q. \<not> (\<exists>p \<in> set ps. P p \<and> fst p = fst q)) d"
proof (induction ps arbitrary: d)
  case Nil
  then show ?case by simp
next
  case (Cons p ps)
  then show ?case
    by (auto simp: dpop_filter filter_filter intro: filter_cong)
qed

lemma fold_pop_self:
  assumes "wf_dict d"
  shows "fold (\<lambda>p acc. if P p then dpop (fst p) acc else acc) d d = filter (\<lambda>p. \<not> P p) d"
  unfolding fold_pop_filter
proof (rule filter_cong [OF refl])
  fix q assume "q \<in> set d"
  then show "(\<not> (\<exists>p \<in> set d. P p \<and> fst p = fst q)) = (\<not> P q)"
    using assms by (metis eq_key_imp_eq_value prod.collapse)
qed

lemma fold_dpop_keys: "fold dpop ks d = filter (\<lambda>q. fst q \<notin> set ks) d"
  by (induction ks arbitrary: d) (auto simp: dpop_filter filter_filter intro: filter_cong)

lemma wf_filter [simp, keys_distinct]: "wf_dict d \<Longrightarrow> wf_dict (filter P d)"
  by (rule distinct_map_filter)

lemma filter_key_inj:
  assumes "wf_dict d" and "p \<in> set d" and "q \<in> set d" and "fst p = fst q"
  shows "p = q"
  using assms by (metis eq_key_imp_eq_value prod.collapse)

lemma sorted_take_drop_le:
  assumes "sorted xs" and "x \<in> set (take n xs)" and "y \<in> set (drop n xs)"
  shows "x \<le> y"
  using assms by (metis append_take_drop_id sorted_append)

text \<open>
  Sorting by \<open>g\<close> and then, stably, by \<open>f\<close> orders by the pair: Python's two-pass sort.
\<close>

lemma sorted_wrt_insort_key:
  assumes "sorted_wrt (\<lambda>x y. f x < f y \<or> f x = f y \<and> g x \<le> g y) ys" and "\<forall>y \<in> set ys. g a \<le> g y"
  shows "sorted_wrt (\<lambda>x y. f x < f y \<or> f x = f y \<and> g x \<le> g y) (insort_key f a ys)"
  using assms by (induction ys) (auto simp: set_insort_key not_le)

lemma sorted_wrt_two_pass:
  fixes f :: "'a \<Rightarrow> 'b::linorder" and g :: "'a \<Rightarrow> 'c::linorder"
  shows "sorted_wrt (\<lambda>x y. f x < f y \<or> f x = f y \<and> g x \<le> g y) (sort_key f (sort_key g xs))"
proof -
  have "sorted (map g ys) \<Longrightarrow> sorted_wrt (\<lambda>x y. f x < f y \<or> f x = f y \<and> g x \<le> g y) (sort_key f ys)"
    for ys
    by (induction ys) (auto intro: sorted_wrt_insort_key)
  then show ?thesis by simp
qed

lemma length_filter_keys:
  assumes "wf_dict d" and "distinct ks" and "set ks \<subseteq> fst ` set d"
  shows "length (filter (\<lambda>p. fst p \<notin> set ks) d) = length d - length ks"
proof -
  have "set (map fst (filter (\<lambda>p. fst p \<in> set ks) d)) = set ks"
    using assms(3) by force
  moreover have "distinct (map fst (filter (\<lambda>p. fst p \<in> set ks) d))"
    using assms(1) by (rule wf_filter)
  ultimately have "length (filter (\<lambda>p. fst p \<in> set ks) d) = length ks"
    using assms(2) by (metis distinct_card length_map)
  then show ?thesis
    using sum_length_filter_compl [of "\<lambda>p. fst p \<in> set ks" d] by simp
qed

end
