(* ===== verification/Py_Datetime.thy ===== *)
theory Py_Datetime
  imports Py_Prelude
begin

text \<open>
  The part of Python's \<open>datetime\<close> the program uses. An instant is the number of microseconds
  since 0001-01-01T00:00:00, the least \<open>datetime\<close>; a value that carries a UTC offset is the
  local instant with the offset in microseconds, a naive one has no offset. The text formats
  (ISO 8601 and the decimal form of a float) are parameters, the record \<open>dt_text\<close>: every
  theorem holds for all of them, and what is assumed of them is a hypothesis where it is used.
\<close>

type_synonym pydt = "int \<times> int option"

record dt_text =
  fromisoformat :: "string \<Rightarrow> pydt option"
  isoformat :: "pydt \<Rightarrow> string"
  float_timestamp :: "string \<Rightarrow> int option"

definition us_per_second :: int where
  "us_per_second = 1000000"

text \<open>1970-01-01 and 9999-12-31T23:59:59.999999, in microseconds\<close>

definition epoch_us :: int where
  "epoch_us = 62135596800 * us_per_second"

definition max_datetime_us :: int where
  "max_datetime_us = 315537897600 * us_per_second - 1"

definition in_range :: "int \<Rightarrow> int option" where
  "in_range u = (if 0 \<le> u \<and> u \<le> max_datetime_us then Some u else None)"

text \<open>\<open>d.astimezone(UTC)\<close>, a naive value first marked as UTC; \<open>OverflowError\<close> is \<open>None\<close>\<close>

fun to_utc :: "pydt \<Rightarrow> int option" where
  "to_utc (l, None) = in_range l"
| "to_utc (l, Some off) = in_range (l - off)"

text \<open>\<open>datetime.fromtimestamp(n, UTC)\<close> for an integer number of seconds\<close>

definition from_timestamp :: "int \<Rightarrow> int option" where
  "from_timestamp n = in_range (n * us_per_second + epoch_us)"

lemma in_range_bounds: "in_range u = Some v \<Longrightarrow> 0 \<le> v \<and> v \<le> max_datetime_us"
  by (auto simp: in_range_def split: if_splits)

lemma to_utc_bounds: "to_utc d = Some v \<Longrightarrow> 0 \<le> v \<and> v \<le> max_datetime_us"
  by (cases d; cases "snd d") (auto dest: in_range_bounds)

end
