(* ===== verification/Task_Admission.thy ===== *)
theory Task_Admission
  imports Py_Datetime
begin

text \<open>
  \<open>backend/app/services/course/chaoxing/task_admission.py\<close>: which task statuses are active or
  terminal, the time a task record is dated by, the order records are listed in, and the
  in-memory retention rule that every task manager runs under its lock.

  A registry is the manager's dictionary from task ids to records. The managers keep more in a
  record than its public dictionary, so the operations take a function \<open>pub\<close> that reads the
  dictionary of a record.
\<close>

section \<open>Statuses\<close>

definition ACTIVE_TASK_STATUSES :: "string list" where
  "ACTIVE_TASK_STATUSES =
     [''running'', ''pending'', ''paused'', ''cancelling'', ''stopping'']"

definition TERMINAL_TASK_STATUSES :: "string list" where
  "TERMINAL_TASK_STATUSES = [''completed'', ''failed'', ''cancelled'', ''error'']"

definition MAX_ACTIVE_TASKS :: nat where
  "MAX_ACTIVE_TASKS = 64"

definition MAX_TASK_RECORDS :: int where
  "MAX_TASK_RECORDS = 256"

definition TASK_RECORD_TTL_SECONDS :: int where
  "TASK_RECORD_TTL_SECONDS = 2 * 60 * 60"

datatype admission_error = TaskAlreadyActiveError | TaskCapacityError

fun admission_status_code :: "admission_error \<Rightarrow> int" where
  "admission_status_code TaskAlreadyActiveError = 409"
| "admission_status_code TaskCapacityError = 429"

definition norm_status :: "pyval \<Rightarrow> string" where
  "norm_status status = py_lower (py_strip (str_or_empty status))"

definition is_active_status :: "pyval \<Rightarrow> bool" where
  "is_active_status status = (norm_status status \<in> set ACTIVE_TASK_STATUSES)"

definition is_terminal_status :: "pyval \<Rightarrow> bool" where
  "is_terminal_status status = (norm_status status \<in> set TERMINAL_TASK_STATUSES)"

definition task_active :: "('a \<Rightarrow> pydict) \<Rightarrow> 'a \<Rightarrow> bool" where
  "task_active pub t = is_active_status (dget (pub t) ''status'')"

definition count_active_tasks :: "('a \<Rightarrow> pydict) \<Rightarrow> (string \<times> 'a) list \<Rightarrow> nat" where
  "count_active_tasks pub tasks = length (filter (\<lambda>p. task_active pub (snd p)) tasks)"

lemma active_not_terminal: "is_active_status s \<Longrightarrow> \<not> is_terminal_status s"
  by (auto simp: is_active_status_def is_terminal_status_def ACTIVE_TASK_STATUSES_def
      TERMINAL_TASK_STATUSES_def)

section \<open>The time of a record\<close>

fun parse_datetime :: "dt_text \<Rightarrow> pyval \<Rightarrow> int option" where
  "parse_datetime dt (PBool b) = from_timestamp (if b then 1 else 0)"
| "parse_datetime dt (PInt n) = from_timestamp n"
| "parse_datetime dt (PFloat t) = (case float_timestamp dt t of None \<Rightarrow> None | Some u \<Rightarrow> in_range u)"
| "parse_datetime dt (PStr s) =
     (if py_strip s = [] then None
      else (case fromisoformat dt (replace_char (CHR ''Z'') ''+00:00'' (py_strip s)) of
              None \<Rightarrow> None
            | Some d \<Rightarrow> to_utc d))"
| "parse_datetime dt v = None"

definition MIN_UTC_DATETIME :: int where
  "MIN_UTC_DATETIME = 0"

fun first_datetime :: "dt_text \<Rightarrow> pydict \<Rightarrow> string list \<Rightarrow> int" where
  "first_datetime dt task [] = MIN_UTC_DATETIME"
| "first_datetime dt task (key # keys) =
     (case parse_datetime dt (dget task key) of
        Some parsed \<Rightarrow> parsed
      | None \<Rightarrow> first_datetime dt task keys)"

definition task_datetime :: "dt_text \<Rightarrow> pydict \<Rightarrow> int" where
  "task_datetime dt task =
     first_datetime dt task [''updated_at'', ''started_at'', ''created_at'', ''start_time'']"

definition task_sort_key :: "dt_text \<Rightarrow> pydict \<Rightarrow> int \<times> string" where
  "task_sort_key dt task = (task_datetime dt task, str_or_empty (dget task ''task_id''))"

text \<open>
  \<open>sorted(..., reverse=True)\<close> keeps the order of equal keys, so it is the stable sort by the
  negated time.
\<close>

definition sort_task_records :: "dt_text \<Rightarrow> pydict list \<Rightarrow> pydict list" where
  "sort_task_records dt tasks =
     (let by_task_id = sort_key (\<lambda>t. snd (task_sort_key dt t)) tasks
      in sort_key (\<lambda>t. - fst (task_sort_key dt t)) by_task_id)"

text \<open>The POSIX time of a record in microseconds, \<open>None\<close> where it has no usable time\<close>

definition task_timestamp :: "dt_text \<Rightarrow> pydict \<Rightarrow> int option" where
  "task_timestamp dt task =
     (let parsed = task_datetime dt task
      in if parsed = MIN_UTC_DATETIME then None else Some (parsed - epoch_us))"

section \<open>Retention\<close>

definition expired ::
  "dt_text \<Rightarrow> ('a \<Rightarrow> pydict) \<Rightarrow> int \<Rightarrow> string \<times> 'a \<Rightarrow> bool" where
  "expired dt pub cutoff p \<longleftrightarrow>
     is_terminal_status (dget (pub (snd p)) ''status'')
     \<and> (case task_timestamp dt (pub (snd p)) of None \<Rightarrow> False | Some ts \<Rightarrow> ts < cutoff)"

definition evict_key :: "dt_text \<Rightarrow> ('a \<Rightarrow> pydict) \<Rightarrow> string \<times> 'a \<Rightarrow> int option \<times> string" where
  "evict_key dt pub p = (task_timestamp dt (pub (snd p)), fst p)"

definition evictable ::
  "dt_text \<Rightarrow> ('a \<Rightarrow> pydict) \<Rightarrow> (string \<times> 'a) list \<Rightarrow> (int option \<times> string) list" where
  "evictable dt pub tasks =
     sort (map (evict_key dt pub) (filter (\<lambda>p. \<not> task_active pub (snd p)) tasks))"

text \<open>
  \<open>cleanup_task_records(tasks, now, ttl_seconds, max_records)\<close>. Times are in microseconds, and
  \<open>None\<close> (no time, the code's \<open>-inf\<close>) is the least key.
\<close>

definition drop_expired ::
  "dt_text \<Rightarrow> ('a \<Rightarrow> pydict) \<Rightarrow> int \<Rightarrow> (string \<times> 'a) list \<Rightarrow> (string \<times> 'a) list" where
  "drop_expired dt pub cutoff tasks =
     fold (\<lambda>p acc. if expired dt pub cutoff p then dpop (fst p) acc else acc) tasks tasks"

definition drop_overflow ::
  "dt_text \<Rightarrow> ('a \<Rightarrow> pydict) \<Rightarrow> int \<Rightarrow> (string \<times> 'a) list \<Rightarrow> (string \<times> 'a) list" where
  "drop_overflow dt pub max_records tasks =
     (let overflow = int (length tasks) - max 1 max_records
      in if overflow \<le> 0 then tasks
         else fold dpop (map snd (take (nat overflow) (evictable dt pub tasks))) tasks)"

definition cleanup_task_records ::
  "dt_text \<Rightarrow> ('a \<Rightarrow> pydict) \<Rightarrow> int \<Rightarrow> int \<Rightarrow> int \<Rightarrow> (string \<times> 'a) list \<Rightarrow> (string \<times> 'a) list"
  where
  "cleanup_task_records dt pub now ttl_seconds max_records tasks =
     (let cutoff = now - max 0 ttl_seconds * us_per_second
      in drop_overflow dt pub max_records (drop_expired dt pub cutoff tasks))"

section \<open>What retention does to a registry\<close>

lemma drop_expired_filter:
  "wf_dict tasks \<Longrightarrow> drop_expired dt pub cutoff tasks = filter (\<lambda>p. \<not> expired dt pub cutoff p) tasks"
  unfolding drop_expired_def by (rule fold_pop_self)

definition evicted ::
  "dt_text \<Rightarrow> ('a \<Rightarrow> pydict) \<Rightarrow> int \<Rightarrow> (string \<times> 'a) list \<Rightarrow> string list" where
  "evicted dt pub max_records tasks =
     map snd (take (nat (int (length tasks) - max 1 max_records)) (evictable dt pub tasks))"

lemma drop_overflow_filter:
  "drop_overflow dt pub mx tasks = filter (\<lambda>p. fst p \<notin> set (evicted dt pub mx tasks)) tasks"
  by (auto simp: drop_overflow_def evicted_def fold_dpop_keys Let_def)

lemma set_evictable:
  "set (evictable dt pub tasks) = evict_key dt pub ` {p \<in> set tasks. \<not> task_active pub (snd p)}"
  by (auto simp: evictable_def)

lemma length_evictable:
  "length (evictable dt pub tasks) = length tasks - count_active_tasks pub tasks"
  using sum_length_filter_compl [of "\<lambda>p. task_active pub (snd p)" tasks]
  by (simp add: evictable_def count_active_tasks_def)

lemma distinct_snd_evictable:
  assumes "wf_dict tasks"
  shows "distinct (map snd (evictable dt pub tasks))"
proof -
  let ?ps = "filter (\<lambda>p. \<not> task_active pub (snd p)) tasks"
  have "mset (map snd (evictable dt pub tasks)) = mset (map snd (map (evict_key dt pub) ?ps))"
    by (simp only: evictable_def mset_map mset_sort)
  also have "map snd (map (evict_key dt pub) ?ps) = map fst ?ps"
    by (simp add: evict_key_def)
  finally have "mset (map snd (evictable dt pub tasks)) = mset (map fst ?ps)" .
  moreover have "distinct (map fst ?ps)"
    using assms by (rule wf_filter)
  ultimately show ?thesis
    by (metis mset_eq_imp_distinct_iff)
qed

lemma evicted_inactive:
  assumes "wf_dict tasks" and "p \<in> set tasks" and "fst p \<in> set (evicted dt pub mx tasks)"
  shows "\<not> task_active pub (snd p)"
proof -
  from assms(3) obtain e where e: "e \<in> set (evictable dt pub tasks)" "snd e = fst p"
    by (auto simp: evicted_def dest: in_set_takeD)
  then obtain q where "q \<in> set tasks" "\<not> task_active pub (snd q)" "fst q = fst p"
    by (auto simp: set_evictable evict_key_def)
  with assms(1,2) show ?thesis by (metis filter_key_inj)
qed

lemma length_drop_overflow:
  assumes "wf_dict tasks"
  shows "length (drop_overflow dt pub mx tasks) =
    length tasks - min (nat (int (length tasks) - max 1 mx)) (length tasks - count_active_tasks pub tasks)"
proof -
  have "distinct (evicted dt pub mx tasks)"
    unfolding evicted_def using distinct_snd_evictable [OF assms, of dt pub]
    by (simp add: take_map [symmetric])
  moreover have "set (evicted dt pub mx tasks) \<subseteq> fst ` set tasks"
    by (auto simp: evicted_def set_evictable evict_key_def dest!: in_set_takeD)
  ultimately have "length (drop_overflow dt pub mx tasks) =
      length tasks - length (evicted dt pub mx tasks)"
    using assms by (simp add: drop_overflow_filter length_filter_keys)
  then show ?thesis
    by (simp add: evicted_def length_evictable min.commute)
qed

text \<open>The least recently dated finished records go first.\<close>

lemma evicted_oldest:
  assumes "wf_dict tasks" and p: "p \<in> set tasks" "fst p \<in> set (evicted dt pub mx tasks)"
    and q: "q \<in> set tasks" "fst q \<notin> set (evicted dt pub mx tasks)" "\<not> task_active pub (snd q)"
  shows "evict_key dt pub p \<le> evict_key dt pub q"
proof -
  let ?n = "nat (int (length tasks) - max 1 mx)"
  let ?es = "evictable dt pub tasks"
  from p(2) obtain e where e: "e \<in> set (take ?n ?es)" "snd e = fst p"
    by (auto simp: evicted_def)
  then obtain r where r: "r \<in> set tasks" "e = evict_key dt pub r"
    by (auto simp: set_evictable dest!: in_set_takeD)
  with e(2) p(1) assms(1) have "e = evict_key dt pub p"
    by (metis evict_key_def filter_key_inj snd_conv)
  moreover have "evict_key dt pub q \<in> set (drop ?n ?es)"
  proof -
    have "evict_key dt pub q \<in> set ?es" using q by (auto simp: set_evictable)
    moreover have "evict_key dt pub q \<notin> set (take ?n ?es)"
      using q(2) by (auto simp: evicted_def evict_key_def intro: rev_image_eqI)
    ultimately show ?thesis
      by (metis Un_iff append_take_drop_id set_append)
  qed
  moreover have "sorted ?es" by (simp add: evictable_def)
  ultimately show ?thesis
    using e(1) by (blast intro: sorted_take_drop_le)
qed

section \<open>The retention interface\<close>

text \<open>
  What a task manager relies on when it cleans its registry: the result is the old registry
  with some finished records left out. The lemmas that follow from it are proved once here.
\<close>

locale retention =
  fixes cleanup :: "(string \<times> 'a) list \<Rightarrow> (string \<times> 'a) list"
    and active :: "'a \<Rightarrow> bool"
  assumes cleanup_is_filter: "wf_dict ts \<Longrightarrow> \<exists>P. cleanup ts = filter P ts"
    and cleanup_keeps_active: "wf_dict ts \<Longrightarrow> p \<in> set ts \<Longrightarrow> active (snd p) \<Longrightarrow> p \<in> set (cleanup ts)"
begin

lemma cleanup_subset: "wf_dict ts \<Longrightarrow> set (cleanup ts) \<subseteq> set ts"
  using cleanup_is_filter by fastforce

lemma cleanup_wf: "wf_dict ts \<Longrightarrow> wf_dict (cleanup ts)"
  using cleanup_is_filter by (metis wf_filter)

lemma cleanup_lookup:
  "wf_dict ts \<Longrightarrow> map_of (cleanup ts) k = Some t \<Longrightarrow> map_of ts k = Some t"
  by (meson cleanup_subset map_of_SomeD map_of_is_SomeI subsetD)

lemma cleanup_lookup_active:
  assumes "wf_dict ts" and "map_of ts k = Some t" and "active t"
  shows "map_of (cleanup ts) k = Some t"
proof -
  from assms have "(k, t) \<in> set (cleanup ts)"
    by (auto intro!: cleanup_keeps_active dest: map_of_SomeD)
  then show ?thesis using cleanup_wf [OF assms(1)] by simp
qed

lemma cleanup_active_eq:
  assumes "wf_dict ts"
  shows "filter (\<lambda>p. active (snd p)) (cleanup ts) = filter (\<lambda>p. active (snd p)) ts"
proof -
  obtain P where P: "cleanup ts = filter P ts" using cleanup_is_filter [OF assms] by blast
  have "filter (\<lambda>p. active (snd p)) (filter P ts) = filter (\<lambda>p. active (snd p)) ts"
    unfolding filter_filter
    by (rule filter_cong) (use cleanup_keeps_active [OF assms] P in auto)
  with P show ?thesis by simp
qed

end

lemma cleanup_filter:
  assumes "wf_dict tasks"
  shows "\<exists>P. cleanup_task_records dt pub now ttl mx tasks = filter P tasks"
  unfolding cleanup_task_records_def Let_def drop_overflow_filter drop_expired_filter [OF assms]
    filter_filter by blast

lemma drop_expired_keeps_active:
  assumes "wf_dict tasks" and "p \<in> set tasks" and "task_active pub (snd p)"
  shows "p \<in> set (drop_expired dt pub cutoff tasks)"
  using assms active_not_terminal
  by (auto simp: drop_expired_filter expired_def task_active_def)

interpretation cleaned: retention "cleanup_task_records dt pub now ttl mx" "task_active pub"
  for dt and pub :: "'a \<Rightarrow> pydict" and now ttl mx
proof
  fix ts :: "(string \<times> 'a) list" assume "wf_dict ts"
  then show "\<exists>P. cleanup_task_records dt pub now ttl mx ts = filter P ts"
    by (rule cleanup_filter)
next
  fix ts and p :: "string \<times> 'a"
  assume wf: "wf_dict ts" and p: "p \<in> set ts" "task_active pub (snd p)"
  let ?ts = "drop_expired dt pub (now - max 0 ttl * us_per_second) ts"
  have "wf_dict ?ts" using wf by (simp add: drop_expired_filter)
  moreover have "p \<in> set ?ts" using wf p by (rule drop_expired_keeps_active)
  ultimately show "p \<in> set (cleanup_task_records dt pub now ttl mx ts)"
    unfolding cleanup_task_records_def Let_def drop_overflow_filter
    using p(2) evicted_inactive by fastforce
qed

lemma count_active_filter:
  "count_active_tasks pub ts = length (filter (\<lambda>p. task_active pub (snd p)) ts)"
  by (simp add: count_active_tasks_def)

lemma count_active_cleanup [simp]:
  "wf_dict ts \<Longrightarrow>
    count_active_tasks pub (cleanup_task_records dt pub now ttl mx ts) = count_active_tasks pub ts"
  by (simp add: count_active_filter cleaned.cleanup_active_eq)

lemma count_active_le_length: "count_active_tasks pub ts \<le> length ts"
  by (simp add: count_active_tasks_def)

lemma length_cleanup_le:
  assumes "wf_dict ts"
  shows "int (length (cleanup_task_records dt pub now ttl mx ts))
    \<le> max (max 1 mx) (int (count_active_tasks pub ts))"
proof -
  let ?ts = "drop_expired dt pub (now - max 0 ttl * us_per_second) ts"
  have wf: "wf_dict ?ts" using assms by (simp add: drop_expired_filter)
  have "filter (\<lambda>p. task_active pub (snd p)) ?ts = filter (\<lambda>p. task_active pub (snd p)) ts"
    unfolding drop_expired_filter [OF assms] filter_filter
    by (rule filter_cong) (auto simp: expired_def task_active_def dest: active_not_terminal)
  then have "count_active_tasks pub ?ts = count_active_tasks pub ts"
    by (simp add: count_active_filter)
  moreover have "int (length xs - min (nat (int (length xs) - m)) (length xs - c)) \<le> max m (int c)"
    if "c \<le> length xs" for m c and xs :: "(string \<times> 'a) list"
    using that by (simp add: min_def nat_le_iff of_nat_diff split: nat_diff_split)
  ultimately show ?thesis
    unfolding cleanup_task_records_def Let_def length_drop_overflow [OF wf]
    using count_active_le_length [of pub ?ts] by metis
qed

section \<open>The listing order\<close>

lemma mset_sort_task_records: "mset (sort_task_records dt tasks) = mset tasks"
  by (simp add: sort_task_records_def Let_def)

lemma sorted_sort_task_records:
  "sorted_wrt (\<lambda>s t. task_datetime dt t < task_datetime dt s \<or>
       task_datetime dt s = task_datetime dt t
       \<and> str_or_empty (dget s ''task_id'') \<le> str_or_empty (dget t ''task_id''))
     (sort_task_records dt tasks)"
  using sorted_wrt_two_pass [of "\<lambda>t. - task_datetime dt t" "\<lambda>t. str_or_empty (dget t ''task_id'')" tasks]
  by (simp add: sort_task_records_def task_sort_key_def)

section \<open>Properties\<close>

text \<open>A text library for closed examples: it reads no ISO text, and dates are integers.\<close>

definition no_text :: dt_text where
  "no_text = \<lparr>fromisoformat = (\<lambda>_. None), isoformat = (\<lambda>_. []), float_timestamp = (\<lambda>_. None)\<rparr>"

definition sample_task :: "string \<Rightarrow> int \<Rightarrow> pydict" where
  "sample_task status at = [(''status'', PStr status), (''updated_at'', PInt at)]"

definition sample_registry :: "(string \<times> pydict) list" where
  "sample_registry =
     [(''a'', sample_task ''running'' 10), (''b'', sample_task ''completed'' 40),
      (''c'', sample_task ''failed'' 20), (''d'', sample_task ''completed'' 5),
      (''e'', sample_task ''paused'' 60)]"

text \<open>
  cleaning the registry keeps every task that is still active, keeps the remaining records
  in their order (it is a filter of the registry), and leaves at most \<open>max_records\<close> records
  unless more than that many tasks are active.
\<close>

theorem cleanup_retention:
  assumes "wf_dict tasks"
  shows "(\<exists>P. cleanup_task_records dt pub now ttl mx tasks = filter P tasks)
    \<and> filter (\<lambda>p. task_active pub (snd p)) (cleanup_task_records dt pub now ttl mx tasks)
        = filter (\<lambda>p. task_active pub (snd p)) tasks
    \<and> int (length (cleanup_task_records dt pub now ttl mx tasks))
        \<le> max (max 1 mx) (int (count_active_tasks pub tasks))"
  using cleanup_filter [OF assms] cleaned.cleanup_active_eq [OF assms] length_cleanup_le [OF assms]
  by blast

theorem cleanup_retention_witness:
  "filter (\<lambda>p. task_active id (snd p)) (cleanup_task_records no_text id 50000000 20 2 sample_registry)
     = [(''a'', sample_task ''running'' 10), (''e'', sample_task ''paused'' 60)]
   \<and> int (length (cleanup_task_records no_text id 50000000 20 2 sample_registry)) \<le> 2"
proof -
  have wf: "wf_dict sample_registry" by (simp add: sample_registry_def)
  have act: "filter (\<lambda>p. task_active id (snd p)) sample_registry
      = [(''a'', sample_task ''running'' 10), (''e'', sample_task ''paused'' 60)]"
    by code_simp
  moreover have "count_active_tasks id sample_registry = 2"
    by (simp add: count_active_tasks_def act)
  ultimately show ?thesis
    using cleanup_retention [OF wf, of no_text id 50000000 20 2] by simp
qed

text \<open>
  the record bound evicts the least recently dated records first. A record that is dropped
  although its time to live has not passed is dated no later than every finished record that
  stays (a record with no usable time counts as oldest; ties go by task id).
\<close>

theorem cleanup_evicts_oldest:
  assumes wf: "wf_dict tasks"
    and p: "p \<in> set tasks" "\<not> expired dt pub (now - max 0 ttl * us_per_second) p"
      "p \<notin> set (cleanup_task_records dt pub now ttl mx tasks)"
    and q: "q \<in> set (cleanup_task_records dt pub now ttl mx tasks)" "\<not> task_active pub (snd q)"
  shows "evict_key dt pub p \<le> evict_key dt pub q"
proof -
  let ?ts = "drop_expired dt pub (now - max 0 ttl * us_per_second) tasks"
  have ts: "?ts = filter (\<lambda>p. \<not> expired dt pub (now - max 0 ttl * us_per_second) p) tasks"
    using wf by (rule drop_expired_filter)
  have c: "cleanup_task_records dt pub now ttl mx tasks
      = filter (\<lambda>p. fst p \<notin> set (evicted dt pub mx ?ts)) ?ts"
    by (simp add: cleanup_task_records_def drop_overflow_filter Let_def)
  have "wf_dict ?ts" using wf by (simp add: ts)
  moreover have "p \<in> set ?ts" using p(1,2) by (simp add: ts)
  moreover have "fst p \<in> set (evicted dt pub mx ?ts)"
    using p(3) \<open>p \<in> set ?ts\<close> by (simp add: c)
  moreover have "q \<in> set ?ts" "fst q \<notin> set (evicted dt pub mx ?ts)" using q(1) by (auto simp: c)
  ultimately show ?thesis using q(2) by (rule evicted_oldest)
qed

theorem cleanup_evicts_oldest_witness:
  "evict_key no_text id (''d'', sample_task ''completed'' 5)
     \<le> evict_key no_text id (''b'', sample_task ''completed'' 40)"
proof -
  have wf: "wf_dict sample_registry" by (simp add: sample_registry_def)
  have c: "cleanup_task_records no_text id 50000000 7200 4 sample_registry =
      [(''a'', sample_task ''running'' 10), (''b'', sample_task ''completed'' 40),
       (''c'', sample_task ''failed'' 20), (''e'', sample_task ''paused'' 60)]"
    by code_simp
  show ?thesis
  proof (rule cleanup_evicts_oldest [OF wf])
    show "(''d'', sample_task ''completed'' 5) \<in> set sample_registry"
      by (simp add: sample_registry_def)
    show "\<not> expired no_text id (50000000 - max 0 7200 * us_per_second) (''d'', sample_task ''completed'' 5)"
      by code_simp
    show "(''d'', sample_task ''completed'' 5)
        \<notin> set (cleanup_task_records no_text id 50000000 7200 4 sample_registry)"
      by (simp add: c)
    show "(''b'', sample_task ''completed'' 40)
        \<in> set (cleanup_task_records no_text id 50000000 7200 4 sample_registry)"
      by (simp add: c)
    show "\<not> task_active id (snd (''b'', sample_task ''completed'' 40))"
      by code_simp
  qed
qed

text \<open>
  listing sorts a copy of the records: the same records, newest first, and equally dated
  records by ascending task id.
\<close>

theorem sort_task_records_order:
  "mset (sort_task_records dt tasks) = mset tasks
   \<and> sorted_wrt (\<lambda>s t. task_datetime dt t < task_datetime dt s \<or>
        task_datetime dt s = task_datetime dt t
        \<and> str_or_empty (dget s ''task_id'') \<le> str_or_empty (dget t ''task_id''))
      (sort_task_records dt tasks)"
  by (rule conjI [OF mset_sort_task_records sorted_sort_task_records])

end
