(* ===== verification/Credential_Crypto.thy ===== *)
theory Credential_Crypto
  imports Py_Prelude
begin

text \<open>
  \<open>backend/app/core/credential_crypto.py\<close>: how third-party credentials are encrypted at rest.
  The Fernet primitive of the \<open>cryptography\<close> package is a parameter (\<open>fernet_lib\<close>): which
  keys it accepts, a token for a key, the randomness drawn and a plain text, and what a token
  decrypts to.
\<close>

definition PREFIX :: string where
  "PREFIX = ''fernet:''"

datatype crypto_error = CredentialCryptoError | UnicodeError

datatype fernet_result = FInvalidToken | FNotUtf8 | FPlain string

record fernet_lib =
  valid_key :: "string \<Rightarrow> bool"
  fernet_encrypt :: "string \<Rightarrow> nat \<Rightarrow> string \<Rightarrow> string"
  fernet_decrypt :: "string \<Rightarrow> string \<Rightarrow> fernet_result"

datatype cipher = NoopCipher | FernetCipher string

definition is_ascii :: "string \<Rightarrow> bool" where
  "is_ascii s = list_all (\<lambda>c. (of_char c :: nat) < 128) s"

section \<open>Building the cipher\<close>

text \<open>
  The process environment, the dotenv file and the legacy variable, in the order of precedence
  \<open>_is_production\<close> reads them.
\<close>

record crypto_env =
  env_ENV :: "string option"
  dotenv_ENV :: "string option"
  env_APP_ENV :: "string option"
  env_KEY :: "string option"

definition is_production :: "crypto_env \<Rightarrow> bool" where
  "is_production e =
     (let env = (case env_ENV e of
                   Some v \<Rightarrow> Some v
                 | None \<Rightarrow> (case dotenv_ENV e of Some v \<Rightarrow> Some v | None \<Rightarrow> env_APP_ENV e))
      in py_lower (py_strip (case env of None \<Rightarrow> [] | Some v \<Rightarrow> v)) \<in> {''prod'', ''production''})"

definition build_cipher :: "fernet_lib \<Rightarrow> crypto_env \<Rightarrow> crypto_error + cipher" where
  "build_cipher lib e =
     (case env_KEY e of
        None \<Rightarrow> (if is_production e then Inl CredentialCryptoError else Inr NoopCipher)
      | Some raw \<Rightarrow>
          (if raw = [] then (if is_production e then Inl CredentialCryptoError else Inr NoopCipher)
           else if is_ascii raw \<and> valid_key lib raw then Inr (FernetCipher raw)
           else if is_production e then Inl CredentialCryptoError
           else Inr NoopCipher))"

text \<open>\<open>_get_cipher\<close>: the module-level singleton, built on first use\<close>

definition get_cipher :: "fernet_lib \<Rightarrow> crypto_env \<Rightarrow> cipher option \<Rightarrow> (crypto_error + cipher) \<times> cipher option"
  where
  "get_cipher lib e cached =
     (case cached of
        Some c \<Rightarrow> (Inr c, cached)
      | None \<Rightarrow> (case build_cipher lib e of
                   Inl err \<Rightarrow> (Inl err, None)
                 | Inr c \<Rightarrow> (Inr c, Some c)))"

section \<open>Strings\<close>

fun cipher_encrypt :: "fernet_lib \<Rightarrow> cipher \<Rightarrow> nat \<Rightarrow> string \<Rightarrow> string" where
  "cipher_encrypt lib NoopCipher r plain = plain"
| "cipher_encrypt lib (FernetCipher key) r plain = PREFIX @ fernet_encrypt lib key r plain"

fun cipher_decrypt :: "fernet_lib \<Rightarrow> cipher \<Rightarrow> string \<Rightarrow> crypto_error + string" where
  "cipher_decrypt lib NoopCipher v = Inr v"
| "cipher_decrypt lib (FernetCipher key) v =
     (if \<not> starts_with v PREFIX then Inr v
      else (let token = drop (length PREFIX) v
            in if \<not> is_ascii token then Inl UnicodeError
               else (case fernet_decrypt lib key token of
                       FPlain p \<Rightarrow> Inr p
                     | FInvalidToken \<Rightarrow> Inl CredentialCryptoError
                     | FNotUtf8 \<Rightarrow> Inl UnicodeError)))"

text \<open>\<open>c\<close> is what \<open>_get_cipher()\<close> returns or raises at the call.\<close>

definition encrypt_str :: "fernet_lib \<Rightarrow> crypto_error + cipher \<Rightarrow> nat \<Rightarrow> string \<Rightarrow> crypto_error + string" where
  "encrypt_str lib c r plain =
     (if plain = [] then Inr plain
      else if starts_with plain PREFIX then Inr plain
      else (case c of Inl e \<Rightarrow> Inl e | Inr ci \<Rightarrow> Inr (cipher_encrypt lib ci r plain)))"

definition decrypt_str :: "fernet_lib \<Rightarrow> crypto_error + cipher \<Rightarrow> string \<Rightarrow> crypto_error + string" where
  "decrypt_str lib c v =
     (if v = [] then Inr v
      else if \<not> starts_with v PREFIX then Inr v
      else (case c of Inl e \<Rightarrow> Inl e | Inr ci \<Rightarrow> cipher_decrypt lib ci v))"

section \<open>Dictionaries\<close>

text \<open>\<open>rnd\<close> gives the randomness drawn when a field is encrypted.\<close>

fun encrypt_dict_fields ::
  "fernet_lib \<Rightarrow> crypto_error + cipher \<Rightarrow> (string \<Rightarrow> nat) \<Rightarrow> string list \<Rightarrow> pydict \<Rightarrow> crypto_error + pydict"
  where
  "encrypt_dict_fields lib c rnd [] out = Inr out"
| "encrypt_dict_fields lib c rnd (field # fs) out =
     (case dget out field of
        PStr v \<Rightarrow>
          (if v = [] then encrypt_dict_fields lib c rnd fs out
           else (case encrypt_str lib c (rnd field) v of
                   Inl e \<Rightarrow> Inl e
                 | Inr w \<Rightarrow> encrypt_dict_fields lib c rnd fs (dset field (PStr w) out)))
      | _ \<Rightarrow> encrypt_dict_fields lib c rnd fs out)"

fun decrypt_dict_fields ::
  "fernet_lib \<Rightarrow> crypto_error + cipher \<Rightarrow> string list \<Rightarrow> pydict \<Rightarrow> crypto_error + pydict"
  where
  "decrypt_dict_fields lib c [] out = Inr out"
| "decrypt_dict_fields lib c (field # fs) out =
     (case dget out field of
        PStr v \<Rightarrow>
          (if \<not> starts_with v PREFIX then decrypt_dict_fields lib c fs out
           else (case decrypt_str lib c v of
                   Inr w \<Rightarrow> decrypt_dict_fields lib c fs (dset field (PStr w) out)
                 | Inl CredentialCryptoError \<Rightarrow> decrypt_dict_fields lib c fs out
                 | Inl e \<Rightarrow> Inl e))
      | _ \<Rightarrow> decrypt_dict_fields lib c fs out)"

section \<open>The cipher interface\<close>

text \<open>
  What the credential code relies on: decrypting what was encrypted gives the plain text back.
\<close>

locale string_cipher =
  fixes enc :: "nat \<Rightarrow> string \<Rightarrow> string"
    and dec :: "string \<Rightarrow> crypto_error + string"
  assumes dec_enc: "p \<noteq> [] \<Longrightarrow> \<not> starts_with p PREFIX \<Longrightarrow> dec (enc r p) = Inr p"
begin

lemma enc_inj: "p \<noteq> [] \<Longrightarrow> q \<noteq> [] \<Longrightarrow> \<not> starts_with p PREFIX \<Longrightarrow> \<not> starts_with q PREFIX \<Longrightarrow>
    enc r p = enc r' q \<Longrightarrow> p = q"
  using dec_enc by (metis sum.inject(2))

end

text \<open>The documented behaviour of Fernet: tokens are ASCII and decrypt under their own key.\<close>

definition fernet_ok :: "fernet_lib \<Rightarrow> bool" where
  "fernet_ok lib \<longleftrightarrow> (\<forall>key r p. is_ascii (fernet_encrypt lib key r p)
     \<and> fernet_decrypt lib key (fernet_encrypt lib key r p) = FPlain p)"

lemma starts_with_append [simp]: "starts_with (p @ s) p"
  by (induction p) auto

lemma starts_with_iff: "starts_with s p \<longleftrightarrow> (\<exists>t. s = p @ t)"
  by (induction s p rule: starts_with.induct) auto

interpretation noop: string_cipher "cipher_encrypt lib NoopCipher" "cipher_decrypt lib NoopCipher" for lib
  by unfold_locales simp

lemma fernet_string_cipher:
  "fernet_ok lib \<Longrightarrow> string_cipher (cipher_encrypt lib (FernetCipher key)) (cipher_decrypt lib (FernetCipher key))"
  by unfold_locales (simp add: fernet_ok_def)

lemma cipher_round_trip:
  assumes "fernet_ok lib" and "p \<noteq> []" and "\<not> starts_with p PREFIX"
  shows "cipher_decrypt lib ci (cipher_encrypt lib ci r p) = Inr p"
  using assms noop.dec_enc string_cipher.dec_enc [OF fernet_string_cipher]
  by (cases ci) auto

lemma decrypt_encrypt_str:
  assumes "fernet_ok lib" and "\<not> starts_with p PREFIX"
    and "encrypt_str lib (Inr ci) r p = Inr w"
  shows "decrypt_str lib (Inr ci) w = Inr p"
proof (cases ci)
  case NoopCipher
  with assms show ?thesis by (auto simp: encrypt_str_def decrypt_str_def split: if_splits)
next
  case (FernetCipher key)
  with assms cipher_round_trip [OF assms(1) _ assms(2), of ci r] show ?thesis
    by (auto simp: encrypt_str_def decrypt_str_def PREFIX_def split: if_splits)
qed

lemma encrypt_str_protected:
  assumes "encrypt_str lib c r p = Inr w" and "p \<noteq> []"
  shows "starts_with w PREFIX \<or> c = Inr NoopCipher \<and> w = p"
proof (cases c)
  case (Inr ci)
  with assms show ?thesis by (cases ci) (auto simp: encrypt_str_def split: if_splits)
qed (use assms in \<open>auto simp: encrypt_str_def split: if_splits\<close>)

section \<open>Field-wise maps of a dictionary\<close>

definition map_fields :: "(string \<Rightarrow> pyval \<Rightarrow> pyval) \<Rightarrow> string list \<Rightarrow> pydict \<Rightarrow> pydict" where
  "map_fields g fs d = map (\<lambda>(k, v). (k, if k \<in> set fs then g k v else v)) d"

lemma keys_map_fields [simp]: "map fst (map_fields g fs d) = map fst d"
  by (simp add: map_fields_def comp_def case_prod_beta)

lemma map_of_map_fields:
  "map_of (map_fields g fs d) k = map_option (\<lambda>v. if k \<in> set fs then g k v else v) (map_of d k)"
  by (induction d) (auto simp: map_fields_def)

lemma dset_map_fields:
  "wf_dict d \<Longrightarrow> map_of d k = Some v \<Longrightarrow> g k v = w \<Longrightarrow> dset k w d = map_fields g [k] d"
proof (induction d)
  case (Cons p d)
  show ?case
  proof (cases "fst p = k")
    case True
    with Cons.prems(1) have "map_fields g [k] d = d"
      by (auto simp: map_fields_def rev_image_eqI intro!: map_idI)
    with True Cons.prems show ?thesis by (cases p) (simp add: map_fields_def)
  next
    case False
    with Cons show ?thesis by (cases p) (simp add: map_fields_def)
  qed
qed simp

lemma map_fields_idle:
  "wf_dict d \<Longrightarrow> (\<forall>v. map_of d k = Some v \<longrightarrow> g k v = v) \<Longrightarrow> map_fields g [k] d = d"
  by (auto simp: map_fields_def intro!: map_idI)

lemma map_fields_Cons:
  "k \<notin> set fs \<Longrightarrow> map_fields g fs (map_fields g [k] d) = map_fields g (k # fs) d"
  by (auto simp: map_fields_def comp_def case_prod_beta)

lemma map_fields_Nil [simp]: "map_fields g [] d = d"
  by (auto simp: map_fields_def intro!: map_idI)

lemma map_fields_inverse:
  "(\<forall>(k, v) \<in> set d. k \<in> set fs \<longrightarrow> h k (g k v) = v) \<Longrightarrow> map_fields h fs (map_fields g fs d) = d"
  by (fastforce simp: map_fields_def intro!: map_idI)

definition enc_field :: "fernet_lib \<Rightarrow> cipher \<Rightarrow> (string \<Rightarrow> nat) \<Rightarrow> string \<Rightarrow> pyval \<Rightarrow> pyval" where
  "enc_field lib ci rnd k v =
     (case v of
        PStr s \<Rightarrow> (if s = [] \<or> starts_with s PREFIX then v else PStr (cipher_encrypt lib ci (rnd k) s))
      | _ \<Rightarrow> v)"

definition dec_field :: "fernet_lib \<Rightarrow> cipher \<Rightarrow> string \<Rightarrow> pyval \<Rightarrow> pyval" where
  "dec_field lib ci k v =
     (case v of
        PStr s \<Rightarrow> (if starts_with s PREFIX
                  then (case cipher_decrypt lib ci s of Inr w \<Rightarrow> PStr w | Inl _ \<Rightarrow> v) else v)
      | _ \<Rightarrow> v)"

lemma dget_map_of: "dget d k = PStr s \<Longrightarrow> map_of d k = Some (PStr s)"
  by (auto simp: dget_def split: option.splits)

lemma encrypt_dict_fields_map:
  "wf_dict d \<Longrightarrow> distinct fs \<Longrightarrow>
     encrypt_dict_fields lib (Inr ci) rnd fs d = Inr (map_fields (enc_field lib ci rnd) fs d)"
proof (induction fs arbitrary: d)
  case Nil
  then show ?case by simp
next
  case (Cons f fs)
  let ?g = "enc_field lib ci rnd"
  have step: "encrypt_dict_fields lib (Inr ci) rnd (f # fs) d
      = encrypt_dict_fields lib (Inr ci) rnd fs (map_fields ?g [f] d)"
  proof (cases "\<exists>s. dget d f = PStr s \<and> s \<noteq> []")
    case True
    then obtain s where s: "dget d f = PStr s" "s \<noteq> []" by blast
    let ?w = "PStr (if starts_with s PREFIX then s else cipher_encrypt lib ci (rnd f) s)"
    have "dset f ?w d = map_fields ?g [f] d"
      using Cons.prems(1) dget_map_of [OF s(1)] s(2) by (intro dset_map_fields) (auto simp: enc_field_def)
    with s show ?thesis by (auto simp: encrypt_str_def)
  next
    case False
    then have "map_fields ?g [f] d = d"
      using Cons.prems(1)
      by (intro map_fields_idle) (auto simp: enc_field_def dget_def split: pyval.splits)
    with False show ?thesis by (auto split: pyval.splits)
  qed
  have "wf_dict (map_fields ?g [f] d)" using Cons.prems(1) by simp
  with Cons step show ?case by (simp add: map_fields_Cons)
qed

lemma decrypt_dict_fields_map:
  "wf_dict d \<Longrightarrow> distinct fs \<Longrightarrow>
     \<forall>f \<in> set fs. \<forall>s. dget d f = PStr s \<longrightarrow> starts_with s PREFIX \<longrightarrow> cipher_decrypt lib ci s \<noteq> Inl UnicodeError \<Longrightarrow>
     decrypt_dict_fields lib (Inr ci) fs d = Inr (map_fields (dec_field lib ci) fs d)"
proof (induction fs arbitrary: d)
  case Nil
  then show ?case by simp
next
  case (Cons f fs)
  let ?h = "dec_field lib ci"
  have step: "decrypt_dict_fields lib (Inr ci) (f # fs) d
      = decrypt_dict_fields lib (Inr ci) fs (map_fields ?h [f] d)"
  proof (cases "\<exists>s w. dget d f = PStr s \<and> starts_with s PREFIX \<and> cipher_decrypt lib ci s = Inr w")
    case True
    then obtain s w where s: "dget d f = PStr s" "starts_with s PREFIX" "cipher_decrypt lib ci s = Inr w"
      by blast
    have "dset f (PStr w) d = map_fields ?h [f] d"
      using Cons.prems(1) dget_map_of [OF s(1)] s by (intro dset_map_fields) (auto simp: dec_field_def)
    with s show ?thesis by (auto simp: decrypt_str_def PREFIX_def)
  next
    case False
    then have "map_fields ?h [f] d = d"
      using Cons.prems(1)
      by (intro map_fields_idle)
         (auto simp: dec_field_def dget_def split: pyval.splits sum.splits if_splits)
    moreover have "decrypt_dict_fields lib (Inr ci) (f # fs) d = decrypt_dict_fields lib (Inr ci) fs d"
    proof (cases "dget d f")
      case (PStr s)
      show ?thesis
      proof (cases "starts_with s PREFIX")
        case True
        with False PStr Cons.prems(3) have "cipher_decrypt lib ci s = Inl CredentialCryptoError"
          by (cases "cipher_decrypt lib ci s") (auto, metis crypto_error.exhaust)
        with PStr True show ?thesis by (auto simp: decrypt_str_def PREFIX_def)
      qed (simp add: PStr)
    qed simp_all
    ultimately show ?thesis by simp
  qed
  have "wf_dict (map_fields ?h [f] d)" using Cons.prems(1) by simp
  moreover have "\<forall>f' \<in> set fs. \<forall>s. dget (map_fields ?h [f] d) f' = PStr s \<longrightarrow> starts_with s PREFIX
      \<longrightarrow> cipher_decrypt lib ci s \<noteq> Inl UnicodeError"
    using Cons.prems(2,3) by (auto simp: dget_def map_of_map_fields split: option.splits)
  ultimately show ?case using Cons.prems(2) step Cons.IH [of "map_fields ?h [f] d"]
    by (simp add: map_fields_Cons)
qed

text \<open>No sensitive text of the dictionary looks like a token already.\<close>

definition plain_fields :: "string list \<Rightarrow> pydict \<Rightarrow> bool" where
  "plain_fields fs d \<longleftrightarrow> (\<forall>(k, v) \<in> set d. k \<in> set fs \<longrightarrow> (\<forall>s. v = PStr s \<longrightarrow> \<not> starts_with s PREFIX))"

lemma dec_enc_field:
  assumes "fernet_ok lib" and "\<forall>s. v = PStr s \<longrightarrow> \<not> starts_with s PREFIX"
  shows "dec_field lib ci k (enc_field lib ci rnd k v) = v"
proof (cases v)
  case (PStr s)
  show ?thesis
  proof (cases ci)
    case NoopCipher
    with PStr assms(2) show ?thesis by (simp add: enc_field_def dec_field_def)
  next
    case (FernetCipher key)
    with PStr assms cipher_round_trip [OF assms(1), of s ci "rnd k"] show ?thesis
      by (auto simp: enc_field_def dec_field_def)
  qed
qed (simp_all add: enc_field_def dec_field_def)

lemma enc_field_decrypts:
  assumes "fernet_ok lib" and "\<forall>s. v = PStr s \<longrightarrow> \<not> starts_with s PREFIX"
    and "enc_field lib ci rnd k v = PStr w" and "starts_with w PREFIX"
  shows "cipher_decrypt lib ci w \<noteq> Inl e"
proof (cases v)
  case (PStr s)
  with assms have "s \<noteq> []" "w = cipher_encrypt lib ci (rnd k) s" "\<not> starts_with s PREFIX"
    by (auto simp: enc_field_def PREFIX_def split: if_splits)
  with cipher_round_trip [OF assms(1), of s ci "rnd k"] show ?thesis by simp
qed (use assms(3) in \<open>simp_all add: enc_field_def\<close>)

lemma decrypt_encrypt_dict_fields:
  assumes "fernet_ok lib" and "wf_dict d" and "distinct fs" and "plain_fields fs d"
  shows "encrypt_dict_fields lib (Inr ci) rnd fs d = Inr (map_fields (enc_field lib ci rnd) fs d)"
    and "decrypt_dict_fields lib (Inr ci) fs (map_fields (enc_field lib ci rnd) fs d) = Inr d"
proof -
  let ?d = "map_fields (enc_field lib ci rnd) fs d"
  show "encrypt_dict_fields lib (Inr ci) rnd fs d = Inr ?d"
    using assms(2,3) by (rule encrypt_dict_fields_map)
  have "cipher_decrypt lib ci s \<noteq> Inl UnicodeError"
    if f: "f \<in> set fs" "dget ?d f = PStr s" "starts_with s PREFIX" for f s
  proof -
    from dget_map_of [OF f(2)] f(1) obtain v where "map_of d f = Some v" "enc_field lib ci rnd f v = PStr s"
      by (auto simp: map_of_map_fields)
    moreover from this assms(4) f(1) have "\<forall>t. v = PStr t \<longrightarrow> \<not> starts_with t PREFIX"
      by (auto simp: plain_fields_def dest!: map_of_SomeD)
    ultimately show ?thesis using assms(1) f(3) by (blast dest: enc_field_decrypts)
  qed
  then have "decrypt_dict_fields lib (Inr ci) fs ?d = Inr (map_fields (dec_field lib ci) fs ?d)"
    using assms(2,3) by (intro decrypt_dict_fields_map) auto
  moreover have "map_fields (dec_field lib ci) fs ?d = d"
    using assms(1,4) by (intro map_fields_inverse) (auto simp: plain_fields_def dec_enc_field)
  ultimately show "decrypt_dict_fields lib (Inr ci) fs ?d = Inr d" by simp
qed

text \<open>
  The strings an encryption leaves at the named fields are protected: tokens, or, under the
  no-op cipher only, plain texts.
\<close>

definition protected_fields :: "crypto_error + cipher \<Rightarrow> string list \<Rightarrow> pydict \<Rightarrow> bool" where
  "protected_fields c fs d \<longleftrightarrow>
     (\<forall>f \<in> set fs. \<forall>s. dget d f = PStr s \<longrightarrow> s \<noteq> [] \<longrightarrow> starts_with s PREFIX \<or> c = Inr NoopCipher)"

lemma encrypt_dict_fields_other:
  "encrypt_dict_fields lib c rnd fs d = Inr d' \<Longrightarrow> k \<notin> set fs \<Longrightarrow> dget d' k = dget d k"
  by (induction lib c rnd fs d rule: encrypt_dict_fields.induct)
     (auto split: pyval.splits if_splits sum.splits)

lemma encrypt_dict_fields_protects:
  "encrypt_dict_fields lib c rnd fs d = Inr d' \<Longrightarrow> distinct fs \<Longrightarrow> protected_fields c fs d'"
proof (induction lib c rnd fs d rule: encrypt_dict_fields.induct)
  case (1 lib c rnd out)
  then show ?case by (simp add: protected_fields_def)
next
  case (2 lib c rnd f fs out)
  have keep: "dget d' f = dget x f" if "encrypt_dict_fields lib c rnd fs x = Inr d'" for x
    using encrypt_dict_fields_other [OF that, of f] "2.prems"(2) by simp
  show ?case
  proof (cases "\<exists>s. dget out f = PStr s \<and> s \<noteq> []")
    case True
    then obtain s where s: "dget out f = PStr s" "s \<noteq> []" by blast
    with "2.prems"(1) obtain w where w: "encrypt_str lib c (rnd f) s = Inr w"
      "encrypt_dict_fields lib c rnd fs (dset f (PStr w) out) = Inr d'"
      by (auto split: sum.splits)
    have "protected_fields c fs d'" using "2.IH" s w "2.prems"(2) by auto
    moreover have "dget d' f = PStr w" using keep [OF w(2)] by simp
    ultimately show ?thesis
      using encrypt_str_protected [OF w(1) s(2)] by (auto simp: protected_fields_def)
  next
    case False
    then have rest: "encrypt_dict_fields lib c rnd fs out = Inr d'"
      using "2.prems"(1) by (auto split: pyval.splits)
    with False "2.IH" "2.prems"(2) have "protected_fields c fs d'" by (cases "dget out f") auto
    with False keep [OF rest] show ?thesis by (auto simp: protected_fields_def)
  qed
qed

end
