(* ===== verification/Storage_Base.thy ===== *)
theory Storage_Base
  imports Py_Datetime
begin

text \<open>
  \<open>backend/app/storage/base.py\<close> and what the two storage adapters share: the shaping helpers,
  the rows of the two tables, the statements the adapters run on them (the upsert, the
  look-up, the ordered listing, the history insert with its retention delete), and the
  interface \<open>TaskStoreProtocol\<close> the rest of the program is written against.

  A table is the list of its rows in insertion order. The type of a stored time is a
  parameter: SQLite keeps ISO text, Postgres keeps an instant.
\<close>

datatype storage_error = OverflowError

section \<open>Shaping helpers\<close>

text \<open>\<open>_normalize_json\<close>: these values survive \<open>json.dumps\<close> and \<open>json.loads\<close> unchanged\<close>

fun normalize_json :: "pyval \<Rightarrow> pydict" where
  "normalize_json (PDict d) = d"
| "normalize_json v = []"

fun base_parse_datetime :: "dt_text \<Rightarrow> pyval \<Rightarrow> pydt option" where
  "base_parse_datetime dt (PStr s) =
     (let text = py_strip s
      in if text = [] then None
         else (case fromisoformat dt (replace_char (CHR ''Z'') ''+00:00'' text) of
                 None \<Rightarrow> None
               | Some (l, None) \<Rightarrow> Some (l, Some 0)
               | Some (l, Some off) \<Rightarrow> Some (l, Some off)))"
| "base_parse_datetime dt v = None"

definition datetime_to_iso :: "dt_text \<Rightarrow> pydt option \<Rightarrow> storage_error + string" where
  "datetime_to_iso dt parsed =
     (case parsed of
        None \<Rightarrow> Inr []
      | Some d \<Rightarrow> (case to_utc d of None \<Rightarrow> Inl OverflowError | Some u \<Rightarrow> Inr (isoformat dt (u, Some 0))))"

section \<open>Rows\<close>

record 't task_row =
  row_task_id :: string
  row_user_id :: string
  row_task_kind :: string
  row_status :: string
  row_message :: string
  row_started_at :: "'t option"
  row_updated_at :: "'t option"
  row_payload :: pydict

record 't history_row =
  hist_id :: int
  hist_kind :: string
  hist_user_id :: string
  hist_status :: string
  hist_message :: string
  hist_event_time :: 't
  hist_payload :: pydict

definition row_key :: "'t task_row \<Rightarrow> string \<times> string" where
  "row_key r = (row_task_kind r, row_task_id r)"

definition wf_rows :: "'t task_row list \<Rightarrow> bool" where
  "wf_rows rows \<longleftrightarrow> distinct (map row_key rows)"

text \<open>The row the conflict clause writes: every column but \<open>started_at\<close> is replaced\<close>

definition conflict_update :: "'t task_row \<Rightarrow> 't task_row \<Rightarrow> 't task_row" where
  "conflict_update old new =
     new\<lparr>row_started_at :=
       (case row_started_at old of None \<Rightarrow> row_started_at new | Some t \<Rightarrow> Some t)\<rparr>"

fun insert_on_conflict :: "'t task_row \<Rightarrow> 't task_row list \<Rightarrow> 't task_row list" where
  "insert_on_conflict new [] = [new]"
| "insert_on_conflict new (r # rs) =
     (if row_key r = row_key new then conflict_update r new # rs
      else r # insert_on_conflict new rs)"

definition user_matches :: "string option \<Rightarrow> string \<Rightarrow> bool" where
  "user_matches user_id u =
     (case user_id of None \<Rightarrow> True | Some w \<Rightarrow> w = [] \<or> w = u)"

definition select_task ::
  "string \<Rightarrow> string \<Rightarrow> string option \<Rightarrow> 't task_row list \<Rightarrow> 't task_row option" where
  "select_task kind task_id user_id rows =
     find (\<lambda>r. row_task_kind r = kind \<and> row_task_id r = task_id
            \<and> user_matches user_id (row_user_id r)) rows"

text \<open>
  \<open>ORDER BY updated_at DESC NULLS LAST, task_id DESC LIMIT n\<close> within one task kind, where the
  task id is unique: the reverse of the ascending order in which a missing time comes first.
\<close>

definition select_tasks ::
  "string \<Rightarrow> string option \<Rightarrow> nat \<Rightarrow> ('t::linorder) task_row list \<Rightarrow> 't task_row list" where
  "select_tasks kind user_id limit rows =
     take limit (rev (sort_key (\<lambda>r. (row_updated_at r, row_task_id r))
       (filter (\<lambda>r. row_task_kind r = kind \<and> user_matches user_id (row_user_id r)) rows)))"

definition hist_order :: "('t::linorder) history_row list \<Rightarrow> 't history_row list" where
  "hist_order rows = rev (sort_key (\<lambda>h. (hist_event_time h, hist_id h)) rows)"

definition hist_of :: "string \<Rightarrow> string option \<Rightarrow> 't history_row \<Rightarrow> bool" where
  "hist_of kind user_id h = (hist_kind h = kind \<and> user_matches user_id (hist_user_id h))"

text \<open>The retention delete of \<open>append_history\<close>: only the newest \<open>keep\<close> rows of one user stay\<close>

definition trim_history ::
  "string \<Rightarrow> string \<Rightarrow> nat \<Rightarrow> ('t::linorder) history_row list \<Rightarrow> 't history_row list" where
  "trim_history kind user keep rows =
     (let own = (\<lambda>h. hist_kind h = kind \<and> hist_user_id h = user);
          kept = map hist_id (take keep (hist_order (filter own rows)))
      in filter (\<lambda>h. \<not> (own h \<and> hist_id h \<notin> set kept)) rows)"

definition select_history ::
  "string \<Rightarrow> string option \<Rightarrow> nat \<Rightarrow> ('t::linorder) history_row list \<Rightarrow> 't history_row list" where
  "select_history kind user_id limit rows =
     take limit (hist_order (filter (hist_of kind user_id) rows))"

text \<open>\<open>max(1, min(int(limit or default), cap))\<close>\<close>

definition safe_limit :: "int \<Rightarrow> int \<Rightarrow> int \<Rightarrow> nat" where
  "safe_limit default_limit cap limit =
     nat (max 1 (min (if limit = 0 then default_limit else limit) cap))"

section \<open>From a row to the dictionary the program sees\<close>

definition keep_or_text :: "string \<Rightarrow> string \<Rightarrow> pydict \<Rightarrow> pydict" where
  "keep_or_text key text item =
     (if text \<noteq> [] then dset key (PStr text) item
      else if dget item key \<noteq> PNone then dset key (PStr (py_str (dget item key))) item
      else item)"

definition column_or :: "string \<Rightarrow> pydict \<Rightarrow> string \<Rightarrow> pyval" where
  "column_or column item key = PStr (if column \<noteq> [] then column else str_or_empty (dget item key))"

definition shape_item ::
  "'t task_row \<Rightarrow> string \<Rightarrow> string \<Rightarrow> pydict" where
  "shape_item r started updated =
     (let item = row_payload r;
          item = dset ''task_id'' (column_or (row_task_id r) item ''task_id'') item;
          item = dset ''user_id'' (column_or (row_user_id r) item ''user_id'') item;
          item = dset ''status'' (column_or (row_status r) item ''status'') item;
          item = dset ''message'' (column_or (row_message r) item ''message'') item;
          item = keep_or_text ''started_at'' started item;
          item = keep_or_text ''updated_at'' updated item
      in item)"

fun sequence_sum :: "('e + 'a) list \<Rightarrow> 'e + 'a list" where
  "sequence_sum [] = Inr []"
| "sequence_sum (Inl e # xs) = Inl e"
| "sequence_sum (Inr x # xs) =
     (case sequence_sum xs of Inl e \<Rightarrow> Inl e | Inr ys \<Rightarrow> Inr (x # ys))"

section \<open>Columns of a task dictionary and of a history record\<close>

definition or_else :: "pyval \<Rightarrow> pyval \<Rightarrow> pyval" where
  "or_else v w = (if truthy v then v else w)"

definition opt_or :: "'a option \<Rightarrow> 'a option \<Rightarrow> 'a option" where
  "opt_or a b = (case a of Some x \<Rightarrow> Some x | None \<Rightarrow> b)"

definition task_started_at :: "dt_text \<Rightarrow> pydict \<Rightarrow> pydt option" where
  "task_started_at dt d =
     base_parse_datetime dt (or_else (dget d ''started_at'') (dget d ''created_at''))"

definition task_updated_at :: "dt_text \<Rightarrow> int \<Rightarrow> pydict \<Rightarrow> pydt option" where
  "task_updated_at dt now d =
     opt_or (opt_or (base_parse_datetime dt (dget d ''updated_at'')) (task_started_at dt d))
       (Some (now, Some 0))"

definition task_id_of :: "pydict \<Rightarrow> string" where
  "task_id_of d = py_strip (str_or_empty (dget d ''task_id''))"

definition user_id_of :: "pydict \<Rightarrow> string" where
  "user_id_of d = py_strip (str_or_empty (dget d ''user_id''))"

definition status_of :: "pydict \<Rightarrow> string" where
  "status_of d = py_str (or_else (dget d ''status'') (PStr ''pending''))"

definition message_of :: "pydict \<Rightarrow> string" where
  "message_of d = str_or_empty (dget d ''message'')"

text \<open>
  Rendering the event time of a record without a timestamp can overflow; the adapters do it
  outside their \<open>try\<close>, so the error reaches the caller.
\<close>

definition history_event_time :: "dt_text \<Rightarrow> int \<Rightarrow> pydict \<Rightarrow> pydt" where
  "history_event_time dt now payload =
     (case base_parse_datetime dt (dget payload ''timestamp'') of
        Some d \<Rightarrow> d
      | None \<Rightarrow> (case base_parse_datetime dt (dget payload ''updated_at'') of
                   Some d \<Rightarrow> d
                 | None \<Rightarrow> (now, Some 0)))"

definition stamp_history :: "dt_text \<Rightarrow> int \<Rightarrow> pydict \<Rightarrow> storage_error + pydict" where
  "stamp_history dt now payload =
     (if truthy (dget payload ''timestamp'') then Inr payload
      else (case datetime_to_iso dt (Some (history_event_time dt now payload)) of
              Inl e \<Rightarrow> Inl e
            | Inr text \<Rightarrow> Inr (dset ''timestamp'' (PStr text) payload)))"

definition history_item ::
  "dt_text \<Rightarrow> string option \<Rightarrow> pydt option \<Rightarrow> string \<Rightarrow> pydict \<Rightarrow> storage_error + pydict" where
  "history_item dt user_id event_time row_user payload =
     (case (if truthy (dget payload ''timestamp'') then Inr payload
            else (case datetime_to_iso dt event_time of
                    Inl e \<Rightarrow> Inl e
                  | Inr text \<Rightarrow> Inr (dset ''timestamp'' (PStr text) payload))) of
        Inl e \<Rightarrow> Inl e
      | Inr p \<Rightarrow> Inr (if user_id = None \<or> user_id = Some [] then dset ''user_id'' (PStr row_user) p else p))"

section \<open>The table as a map\<close>

text \<open>The abstract task table: the row stored under a kind and an id.\<close>

definition table_map :: "'t task_row list \<Rightarrow> string \<times> string \<rightharpoonup> 't task_row" where
  "table_map rows = map_of (map (\<lambda>r. (row_key r, r)) rows)"

lemma row_key_conflict_update [simp]: "row_key (conflict_update old new) = row_key new"
  by (simp add: conflict_update_def row_key_def)

lemma keys_insert_on_conflict:
  "row_key ` set (insert_on_conflict new rows) = insert (row_key new) (row_key ` set rows)"
  by (induction rows) (auto simp: image_iff)

lemma wf_insert_on_conflict: "wf_rows rows \<Longrightarrow> wf_rows (insert_on_conflict new rows)"
  by (induction rows) (simp_all add: wf_rows_def keys_insert_on_conflict, metis)

lemma table_map_Cons: "table_map (r # rs) key = (if key = row_key r then Some r else table_map rs key)"
  by (simp add: table_map_def)

text \<open>The upsert statement refines a map update.\<close>

lemma table_map_insert_on_conflict:
  "table_map (insert_on_conflict new rows) =
     (table_map rows)(row_key new \<mapsto>
       (case table_map rows (row_key new) of
          None \<Rightarrow> new | Some old \<Rightarrow> conflict_update old new))"
proof (rule ext)
  fix key
  show "table_map (insert_on_conflict new rows) key = ((table_map rows)(row_key new \<mapsto>
       (case table_map rows (row_key new) of None \<Rightarrow> new | Some old \<Rightarrow> conflict_update old new))) key"
  proof (induction rows)
    case Nil
    show ?case by (simp add: table_map_def)
  next
    case (Cons r rs)
    then show ?case by (auto simp: table_map_Cons)
  qed
qed

lemma select_task_absent:
  "(kind, task_id) \<notin> row_key ` set rows \<Longrightarrow> select_task kind task_id user_id rows = None"
  unfolding select_task_def find_None_iff by (auto simp: row_key_def)

lemma find_table_map:
  assumes "wf_rows rows"
  shows "select_task kind task_id user_id rows =
    (case table_map rows (kind, task_id) of
       None \<Rightarrow> None
     | Some r \<Rightarrow> if user_matches user_id (row_user_id r) then Some r else None)"
  using assms
proof (induction rows)
  case Nil
  show ?case by (simp add: select_task_def table_map_def)
next
  case (Cons r rs)
  show ?case
  proof (cases "row_key r = (kind, task_id)")
    case True
    with Cons.prems have "select_task kind task_id user_id rs = None"
      by (metis select_task_absent distinct.simps(2) list.set_map list.simps(9) wf_rows_def)
    with True show ?thesis
      by (auto simp: table_map_Cons select_task_def row_key_def)
  next
    case False
    with Cons show ?thesis
      by (auto simp: table_map_Cons select_task_def row_key_def wf_rows_def)
  qed
qed

lemma table_map_SomeD: "table_map rows key = Some r \<Longrightarrow> r \<in> set rows \<and> row_key r = key"
  by (auto simp: table_map_def dest: map_of_SomeD)

lemma set_select_tasks:
  "r \<in> set (select_tasks kind user_id limit rows) \<Longrightarrow>
     r \<in> set rows \<and> row_task_kind r = kind \<and> user_matches user_id (row_user_id r)"
  by (auto simp: select_tasks_def dest!: in_set_takeD)

lemma length_select_tasks: "length (select_tasks kind user_id limit rows) \<le> limit"
  by (simp add: select_tasks_def)

lemma sorted_wrt_rev_sort_key:
  fixes f :: "'a \<Rightarrow> 'k::linorder"
  shows "sorted_wrt (\<lambda>x y. f y \<le> f x) (take n (rev (sort_key f xs)))"
proof -
  have "sorted_wrt (\<lambda>x y. f x \<le> f y) (sort_key f xs)"
    using sorted_sort_key [of f xs] by (simp add: sorted_map)
  then have "sorted_wrt (\<lambda>x y. f y \<le> f x) (rev (sort_key f xs))"
    by (simp add: sorted_wrt_rev)
  then show ?thesis by (rule sorted_wrt_take)
qed

lemma sorted_select_tasks:
  "sorted_wrt (\<lambda>r s. (row_updated_at s, row_task_id s) \<le> (row_updated_at r, row_task_id r))
     (select_tasks kind user_id limit rows)"
  unfolding select_tasks_def by (rule sorted_wrt_rev_sort_key)

lemma dget_keep_or_text_other [simp]:
  "k \<noteq> key \<Longrightarrow> dget (keep_or_text key text item) k = dget item k"
  by (simp add: keep_or_text_def)

lemma dget_shape_item_other:
  "k \<notin> {''task_id'', ''user_id'', ''status'', ''message'', ''started_at'', ''updated_at''} \<Longrightarrow>
     dget (shape_item r started updated) k = dget (row_payload r) k"
  by (simp add: shape_item_def Let_def)

lemma dget_shape_item_columns:
  "dget (shape_item r started updated) ''task_id'' = column_or (row_task_id r) (row_payload r) ''task_id''"
  "dget (shape_item r started updated) ''user_id'' = column_or (row_user_id r) (row_payload r) ''user_id''"
  "dget (shape_item r started updated) ''status'' = column_or (row_status r) (row_payload r) ''status''"
  "dget (shape_item r started updated) ''message'' = column_or (row_message r) (row_payload r) ''message''"
  by (simp_all add: shape_item_def Let_def column_or_def)

lemma sequence_sum_Inr_set:
  "sequence_sum xs = Inr ys \<Longrightarrow> y \<in> set ys \<Longrightarrow> Inr y \<in> set xs"
  by (induction xs arbitrary: ys rule: sequence_sum.induct) (auto split: sum.splits)

lemma sequence_sum_length: "sequence_sum xs = Inr ys \<Longrightarrow> length ys = length xs"
  by (induction xs arbitrary: ys rule: sequence_sum.induct) (auto split: sum.splits)

lemma safe_limit_bounds: "1 \<le> cap \<Longrightarrow> 1 \<le> safe_limit d cap l \<and> int (safe_limit d cap l) \<le> cap"
  by (auto simp: safe_limit_def)

section \<open>History retention\<close>

definition own_history :: "string \<Rightarrow> string \<Rightarrow> 't history_row list \<Rightarrow> 't history_row list" where
  "own_history kind user rows = filter (\<lambda>h. hist_kind h = kind \<and> hist_user_id h = user) rows"

lemma mset_hist_order [simp]: "mset (hist_order rows) = mset rows"
  by (simp add: hist_order_def)

lemma set_hist_order [simp]: "set (hist_order rows) = set rows"
  by (metis mset_hist_order set_mset_mset)

lemma distinct_map_hist_order:
  "distinct (map f (hist_order rows)) = distinct (map f rows)"
  by (metis mset_hist_order mset_eq_imp_distinct_iff mset_map)

lemma own_trim_history:
  assumes "distinct (map hist_id rows)"
  shows "mset (own_history kind user (trim_history kind user keep rows))
    = mset (take keep (hist_order (own_history kind user rows)))"
proof -
  let ?own = "own_history kind user rows"
  let ?kept = "take keep (hist_order ?own)"
  have d: "distinct (map hist_id ?own)"
    unfolding own_history_def using assms by (rule distinct_map_filter)
  have "own_history kind user (trim_history kind user keep rows)
      = filter (\<lambda>h. hist_id h \<in> set (map hist_id ?kept)) ?own"
    unfolding trim_history_def own_history_def Let_def filter_filter
    by (rule filter_cong) auto
  moreover have "filter (\<lambda>h. hist_id h \<in> set (map hist_id ?kept)) ?own
      = filter (\<lambda>h. h \<in> set ?kept) ?own"
  proof (rule filter_cong [OF refl])
    fix h assume h: "h \<in> set ?own"
    have "set ?kept \<subseteq> set ?own" by (metis set_hist_order set_take_subset)
    with d h show "(hist_id h \<in> set (map hist_id ?kept)) = (h \<in> set ?kept)"
      by (auto simp: distinct_map dest: inj_onD)
  qed
  moreover have "mset (filter (\<lambda>h. h \<in> set ?kept) ?own) = mset ?kept"
  proof -
    have "distinct ?own" using d by (simp add: distinct_map)
    moreover have "distinct (hist_order ?own)"
      using d distinct_map_hist_order [of hist_id ?own] by (simp add: distinct_map)
    moreover have "set ?kept \<subseteq> set ?own" by (metis set_hist_order set_take_subset)
    ultimately show ?thesis
      by (intro set_eq_iff_mset_eq_distinct [THEN iffD1]) auto
  qed
  ultimately show ?thesis by simp
qed

lemma others_trim_history:
  "(kind', user') \<noteq> (kind, user) \<Longrightarrow>
     own_history kind' user' (trim_history kind user keep rows) = own_history kind' user' rows"
  unfolding trim_history_def own_history_def Let_def filter_filter
  by (rule filter_cong) auto

section \<open>The interface \<open>TaskStoreProtocol\<close>\<close>

text \<open>
  What the program relies on. The abstract store is a map from task kind and id to the owner
  and the dictionary last stored. A look-up returns the dictionary as it was stored, up to the
  keys in \<open>SHAPED_KEYS\<close>, which are rebuilt from columns: the owner is the stored one, and the
  status is the stored status as text (\<open>pending\<close> where there was none).
\<close>

definition SHAPED_KEYS :: "string list" where
  "SHAPED_KEYS = [''task_id'', ''user_id'', ''status'', ''message'', ''started_at'', ''updated_at'']"

definition item_of :: "string \<Rightarrow> pydict \<Rightarrow> pydict \<Rightarrow> bool" where
  "item_of owner d item \<longleftrightarrow>
     dget item ''user_id'' = PStr owner \<and> dget item ''status'' = PStr (status_of d)
     \<and> (\<forall>k. k \<notin> set SHAPED_KEYS \<longrightarrow> dget item k = dget d k)"

locale task_store_protocol =
  fixes upsert :: "string \<Rightarrow> pyval \<Rightarrow> 's \<Rightarrow> bool \<times> 's"
    and get :: "string \<Rightarrow> string \<Rightarrow> string option \<Rightarrow> 's \<Rightarrow> (storage_error + pydict option) \<times> 's"
    and lst :: "string \<Rightarrow> string option \<Rightarrow> int \<Rightarrow> 's \<Rightarrow> (storage_error + pydict list) \<times> 's"
    and stored :: "'s \<Rightarrow> string \<times> string \<rightharpoonup> string \<times> pydict"
    and inv :: "'s \<Rightarrow> bool"
  assumes upsert_inv: "inv s \<Longrightarrow> inv (snd (upsert kind v s))"
    and upsert_true: "inv s \<Longrightarrow> upsert kind v s = (True, s') \<Longrightarrow>
      \<exists>d. v = PDict d \<and> kind \<noteq> [] \<and> task_id_of d \<noteq> [] \<and> user_id_of d \<noteq> []
        \<and> stored s' = (stored s)((kind, task_id_of d) \<mapsto> (user_id_of d, d))"
    and upsert_false: "inv s \<Longrightarrow> upsert kind v s = (False, s') \<Longrightarrow> stored s' = stored s"
    and get_sound: "inv s \<Longrightarrow> fst (get kind task_id user_id s) = Inr (Some item) \<Longrightarrow>
      \<exists>owner d. stored s (kind, task_id) = Some (owner, d) \<and> user_matches user_id owner \<and> item_of owner d item"
    and get_frame: "inv s \<Longrightarrow> inv (snd (get kind task_id user_id s))
      \<and> stored (snd (get kind task_id user_id s)) = stored s"
    and list_sound: "inv s \<Longrightarrow> fst (lst kind user_id limit s) = Inr items \<Longrightarrow> item \<in> set items \<Longrightarrow>
      \<exists>task_id owner d. stored s (kind, task_id) = Some (owner, d) \<and> user_matches user_id owner
        \<and> item_of owner d item"
    and list_frame: "inv s \<Longrightarrow> inv (snd (lst kind user_id limit s))
      \<and> stored (snd (lst kind user_id limit s)) = stored s"
begin

lemma get_after_upsert:
  assumes "inv s" and up: "upsert kind (PDict d) s = (True, s')"
    and "fst (get kind (task_id_of d) user_id s') = Inr (Some item)"
  shows "item_of (user_id_of d) d item"
proof -
  have "inv s'" using upsert_inv [OF assms(1), of kind "PDict d"] up by simp
  from get_sound [OF this assms(3)] upsert_true [OF assms(1) up] show ?thesis by auto
qed

lemma get_isolated:
  assumes "inv s" and "w \<noteq> []" and "fst (get kind task_id (Some w) s) = Inr (Some item)"
  shows "dget item ''user_id'' = PStr w"
  using get_sound [OF assms(1,3)] assms(2) by (auto simp: user_matches_def item_of_def)

lemma list_isolated:
  assumes "inv s" and "w \<noteq> []" and "fst (lst kind (Some w) limit s) = Inr items" and "item \<in> set items"
  shows "dget item ''user_id'' = PStr w"
  using list_sound [OF assms(1,3,4)] assms(2) by (auto simp: user_matches_def item_of_def)

end

text \<open>A store that also answers: whatever is stored in a live store is found.\<close>

locale task_store_answering = task_store_protocol +
  fixes alive :: "'a \<Rightarrow> bool"
  assumes upsert_alive: "inv s \<Longrightarrow> upsert kind v s = (True, s') \<Longrightarrow> alive s'"
    and get_complete: "inv s \<Longrightarrow> alive s \<Longrightarrow> kind \<noteq> [] \<Longrightarrow> task_id \<noteq> [] \<Longrightarrow>
      stored s (kind, task_id) = Some (owner, d) \<Longrightarrow> user_matches user_id owner \<Longrightarrow>
      fst (get kind task_id user_id s) \<noteq> Inr None"
begin

lemma found_after_upsert:
  assumes "inv s" and up: "upsert kind (PDict d) s = (True, s')" and u: "user_matches user_id (user_id_of d)"
  shows "fst (get kind (task_id_of d) user_id s') \<noteq> Inr None"
proof -
  have "inv s'" using upsert_inv [OF assms(1), of kind "PDict d"] up by simp
  moreover have "stored s' (kind, task_id_of d) = Some (user_id_of d, d)" "kind \<noteq> []" "task_id_of d \<noteq> []"
    using upsert_true [OF assms(1) up] by auto
  ultimately show ?thesis using upsert_alive [OF assms(1) up] u by (blast dest: get_complete)
qed

end

lemma status_of_empty: "status_of d = [] \<Longrightarrow> str_or_empty (dget d ''status'') = []"
  by (simp add: status_of_def or_else_def str_or_empty_def split: if_splits)

lemma item_of_shape:
  "row_user_id r \<noteq> [] \<Longrightarrow> row_status r = status_of (row_payload r) \<Longrightarrow>
     item_of (row_user_id r) (row_payload r) (shape_item r started updated)"
  by (auto simp: item_of_def SHAPED_KEYS_def dget_shape_item_columns column_or_def status_of_empty
      intro!: dget_shape_item_other)

end
