(* ===== verification/Storage_Sqlite.thy ===== *)
theory Storage_Sqlite
  imports Storage_Base
begin

text \<open>
  \<open>backend/app/storage/sqlite.py\<close>: the adapter the desktop build uses. One shared connection
  that is disabled for good once a rollback fails or the store is closed; times are ISO text.

  Each operation takes the outcome of the database calls it makes (\<open>db_outcome\<close>, chosen by the
  environment) and returns the new store. The write lock makes an operation atomic, so the
  second look at \<open>_usable\<close> after the lock is taken reads the same value as the first.
\<close>

datatype db_outcome = DbOk | DbError | DbErrorNoRollback

record sqlite_store =
  usable :: bool
  initialized :: bool
  connection_closed :: bool
  task_rows :: "string task_row list"
  history_rows :: "string history_row list"

definition new_sqlite_store :: sqlite_store where
  "new_sqlite_store = \<lparr>usable = True, initialized = False, connection_closed = False,
     task_rows = [], history_rows = []\<rparr>"

definition close_connection_locked :: "sqlite_store \<Rightarrow> sqlite_store" where
  "close_connection_locked s =
     s\<lparr>usable := False, initialized := False, connection_closed := True\<rparr>"

definition sqlite_close :: "sqlite_store \<Rightarrow> sqlite_store" where
  "sqlite_close s = close_connection_locked s"

definition rollback_locked :: "db_outcome \<Rightarrow> sqlite_store \<Rightarrow> sqlite_store" where
  "rollback_locked io s = (if io = DbErrorNoRollback then close_connection_locked s else s)"

definition sqlite_ensure_tables :: "db_outcome \<Rightarrow> sqlite_store \<Rightarrow> bool \<times> sqlite_store" where
  "sqlite_ensure_tables io s =
     (if \<not> usable s then (False, s)
      else if initialized s then (True, s)
      else if io = DbOk then (True, s\<lparr>initialized := True\<rparr>)
      else (False, (rollback_locked io s)\<lparr>initialized := False\<rparr>))"

text \<open>\<open>_iso_or_none\<close>: the text keeps the offset the value was written with\<close>

definition iso_or_none :: "dt_text \<Rightarrow> pydt option \<Rightarrow> string option" where
  "iso_or_none dt value = map_option (isoformat dt) value"

definition sqlite_task_row :: "dt_text \<Rightarrow> int \<Rightarrow> string \<Rightarrow> pydict \<Rightarrow> string task_row" where
  "sqlite_task_row dt now kind d =
     \<lparr>row_task_id = task_id_of d, row_user_id = user_id_of d, row_task_kind = kind,
      row_status = status_of d, row_message = message_of d,
      row_started_at = iso_or_none dt (task_started_at dt d),
      row_updated_at = iso_or_none dt (task_updated_at dt now d),
      row_payload = normalize_json (PDict d)\<rparr>"

fun sqlite_upsert_task ::
  "dt_text \<Rightarrow> db_outcome \<Rightarrow> db_outcome \<Rightarrow> int \<Rightarrow> string \<Rightarrow> pyval \<Rightarrow> sqlite_store \<Rightarrow> bool \<times> sqlite_store"
  where
  "sqlite_upsert_task dt io_init io now kind (PDict d) s =
     (if \<not> usable s then (False, s)
      else if kind = [] then (False, s)
      else if task_id_of d = [] \<or> user_id_of d = [] then (False, s)
      else (case sqlite_ensure_tables io_init s of
              (False, s1) \<Rightarrow> (False, s1)
            | (True, s1) \<Rightarrow>
                (if io \<noteq> DbOk then (False, rollback_locked io s1)
                 else (True, s1\<lparr>task_rows :=
                        insert_on_conflict (sqlite_task_row dt now kind d) (task_rows s1)\<rparr>))))"
| "sqlite_upsert_task dt io_init io now kind v s = (False, s)"

text \<open>\<open>_row_to_task\<close>: the stored texts are read back and rendered in UTC\<close>

definition sqlite_row_to_task :: "dt_text \<Rightarrow> string task_row \<Rightarrow> storage_error + pydict" where
  "sqlite_row_to_task dt r =
     (case datetime_to_iso dt (Option.bind (row_started_at r) (\<lambda>t. base_parse_datetime dt (PStr t))) of
        Inl e \<Rightarrow> Inl e
      | Inr started \<Rightarrow>
          (case datetime_to_iso dt (Option.bind (row_updated_at r) (\<lambda>t. base_parse_datetime dt (PStr t))) of
             Inl e \<Rightarrow> Inl e
           | Inr updated \<Rightarrow> Inr (shape_item r started updated)))"

definition sqlite_get_task ::
  "dt_text \<Rightarrow> db_outcome \<Rightarrow> db_outcome \<Rightarrow> string \<Rightarrow> string \<Rightarrow> string option \<Rightarrow> sqlite_store
     \<Rightarrow> (storage_error + pydict option) \<times> sqlite_store" where
  "sqlite_get_task dt io_init io kind task_id user_id s =
     (if \<not> usable s then (Inr None, s)
      else if kind = [] \<or> task_id = [] then (Inr None, s)
      else (case sqlite_ensure_tables io_init s of
              (False, s1) \<Rightarrow> (Inr None, s1)
            | (True, s1) \<Rightarrow>
                (if io \<noteq> DbOk then (Inr None, s1)
                 else (case select_task kind task_id user_id (task_rows s1) of
                         None \<Rightarrow> (Inr None, s1)
                       | Some r \<Rightarrow> (map_sum id Some (sqlite_row_to_task dt r), s1)))))"

definition sqlite_list_tasks ::
  "dt_text \<Rightarrow> db_outcome \<Rightarrow> db_outcome \<Rightarrow> string \<Rightarrow> string option \<Rightarrow> int \<Rightarrow> sqlite_store
     \<Rightarrow> (storage_error + pydict list) \<times> sqlite_store" where
  "sqlite_list_tasks dt io_init io kind user_id limit s =
     (if \<not> usable s then (Inr [], s)
      else if kind = [] then (Inr [], s)
      else (case sqlite_ensure_tables io_init s of
              (False, s1) \<Rightarrow> (Inr [], s1)
            | (True, s1) \<Rightarrow>
                (if io \<noteq> DbOk then (Inr [], s1)
                 else (sequence_sum (map (sqlite_row_to_task dt)
                         (select_tasks kind user_id (safe_limit 50 2000 limit) (task_rows s1))), s1))))"

text \<open>\<open>append_history\<close>: the rowid of a new row is one more than the largest in the table.\<close>

definition next_rowid :: "'t history_row list \<Rightarrow> int" where
  "next_rowid rows = (if rows = [] then 1 else Max (set (map hist_id rows)) + 1)"

definition sqlite_history_row ::
  "dt_text \<Rightarrow> int \<Rightarrow> string \<Rightarrow> string \<Rightarrow> pydict \<Rightarrow> int \<Rightarrow> pydict \<Rightarrow> string history_row" where
  "sqlite_history_row dt now kind user record rowid payload =
     \<lparr>hist_id = rowid, hist_kind = kind, hist_user_id = user,
      hist_status = str_or_empty (dget payload ''status''),
      hist_message = str_or_empty (dget payload ''message''),
      hist_event_time = isoformat dt (history_event_time dt now record),
      hist_payload = payload\<rparr>"

fun sqlite_append_history ::
  "dt_text \<Rightarrow> db_outcome \<Rightarrow> db_outcome \<Rightarrow> int \<Rightarrow> string \<Rightarrow> string \<Rightarrow> pyval \<Rightarrow> int \<Rightarrow> sqlite_store
     \<Rightarrow> (storage_error + unit) \<times> sqlite_store" where
  "sqlite_append_history dt io_init io now kind user (PDict d) max_records s =
     (if \<not> usable s then (Inr (), s)
      else if kind = [] \<or> user = [] then (Inr (), s)
      else (case stamp_history dt now (normalize_json (PDict d)) of
              Inl e \<Rightarrow> (Inl e, s)
            | Inr payload \<Rightarrow>
                (case sqlite_ensure_tables io_init s of
                   (False, s1) \<Rightarrow> (Inr (), s1)
                 | (True, s1) \<Rightarrow>
                     (if io \<noteq> DbOk then (Inr (), rollback_locked io s1)
                      else (let row = sqlite_history_row dt now kind user (normalize_json (PDict d))
                                        (next_rowid (history_rows s1)) payload
                            in (Inr (), s1\<lparr>history_rows := trim_history kind user
                                   (safe_limit 500 5000 max_records) (history_rows s1 @ [row])\<rparr>))))))"
| "sqlite_append_history dt io_init io now kind user v max_records s = (Inr (), s)"

definition sqlite_list_history ::
  "dt_text \<Rightarrow> db_outcome \<Rightarrow> db_outcome \<Rightarrow> string \<Rightarrow> string option \<Rightarrow> int \<Rightarrow> sqlite_store
     \<Rightarrow> (storage_error + pydict list) \<times> sqlite_store" where
  "sqlite_list_history dt io_init io kind user_id limit s =
     (if \<not> usable s then (Inr [], s)
      else if kind = [] then (Inr [], s)
      else (case sqlite_ensure_tables io_init s of
              (False, s1) \<Rightarrow> (Inr [], s1)
            | (True, s1) \<Rightarrow>
                (if io \<noteq> DbOk then (Inr [], s1)
                 else (sequence_sum (map (\<lambda>h. history_item dt user_id
                           (base_parse_datetime dt (PStr (hist_event_time h))) (hist_user_id h) (hist_payload h))
                         (select_history kind user_id (safe_limit 500 5000 limit) (history_rows s1))), s1))))"

definition sqlite_ping :: "db_outcome \<Rightarrow> sqlite_store \<Rightarrow> bool" where
  "sqlite_ping io s = (usable s \<and> io = DbOk)"

section \<open>The store invariant\<close>

text \<open>
  The connection is closed exactly when the store is unusable, an initialized store is usable,
  every (kind, id) has one row with an owner and the status of its payload, and history ids are positive and unique.
\<close>

definition sqlite_inv :: "sqlite_store \<Rightarrow> bool" where
  "sqlite_inv s \<longleftrightarrow>
     (connection_closed s \<longleftrightarrow> \<not> usable s) \<and> (initialized s \<longrightarrow> usable s)
     \<and> wf_rows (task_rows s)
     \<and> (\<forall>r \<in> set (task_rows s). row_user_id r \<noteq> [] \<and> row_task_id r \<noteq> [] \<and> row_task_kind r \<noteq> []
          \<and> row_status r = status_of (row_payload r))
     \<and> distinct (map hist_id (history_rows s)) \<and> (\<forall>h \<in> set (history_rows s). 1 \<le> hist_id h)"

definition sqlite_stored :: "sqlite_store \<Rightarrow> string \<times> string \<rightharpoonup> string \<times> pydict" where
  "sqlite_stored s = map_option (\<lambda>r. (row_user_id r, row_payload r)) \<circ> table_map (task_rows s)"

lemma rollback_locked_rows [simp]:
  "task_rows (rollback_locked io s) = task_rows s"
  "history_rows (rollback_locked io s) = history_rows s"
  by (simp_all add: rollback_locked_def close_connection_locked_def)

lemma sqlite_inv_close: "sqlite_inv s \<Longrightarrow> sqlite_inv (close_connection_locked s)"
  by (simp add: sqlite_inv_def close_connection_locked_def)

lemma sqlite_inv_rollback: "sqlite_inv s \<Longrightarrow> sqlite_inv (rollback_locked io s)"
  by (simp add: rollback_locked_def sqlite_inv_close)

lemma sqlite_ensure_rows [simp]:
  "task_rows (snd (sqlite_ensure_tables io s)) = task_rows s"
  "history_rows (snd (sqlite_ensure_tables io s)) = history_rows s"
  by (simp_all add: sqlite_ensure_tables_def)

lemma sqlite_inv_ensure: "sqlite_inv s \<Longrightarrow> sqlite_inv (snd (sqlite_ensure_tables io s))"
  using sqlite_inv_rollback [of s io] by (auto simp: sqlite_ensure_tables_def sqlite_inv_def)

lemma sqlite_ensureD:
  assumes "sqlite_ensure_tables io s = (b, s1)" and "sqlite_inv s"
  shows "sqlite_inv s1 \<and> task_rows s1 = task_rows s \<and> history_rows s1 = history_rows s
    \<and> (b \<longrightarrow> usable s1 \<and> initialized s1)"
proof -
  have "sqlite_inv s1" using sqlite_inv_ensure [OF assms(2), of io] assms(1) by simp
  moreover have "task_rows s1 = task_rows s" "history_rows s1 = history_rows s"
    using sqlite_ensure_rows [of io s] assms(1) by simp_all
  moreover have "b \<longrightarrow> usable s1 \<and> initialized s1"
    using assms(1) by (auto simp: sqlite_ensure_tables_def split: if_splits)
  ultimately show ?thesis by blast
qed

lemma set_insert_on_conflict:
  "r \<in> set (insert_on_conflict new rows) \<Longrightarrow>
     r \<in> set rows \<or> r = new \<or> (\<exists>old \<in> set rows. r = conflict_update old new)"
  by (induction rows) (auto split: if_splits)

lemma conflict_update_sel [simp]:
  "row_user_id (conflict_update old new) = row_user_id new"
  "row_payload (conflict_update old new) = row_payload new"
  "row_task_id (conflict_update old new) = row_task_id new"
  "row_task_kind (conflict_update old new) = row_task_kind new"
  "row_status (conflict_update old new) = row_status new"
  by (simp_all add: conflict_update_def)

lemma sqlite_inv_insert:
  assumes "sqlite_inv s" and "task_rows s = rows"
    and "row_user_id r \<noteq> []" "row_task_id r \<noteq> []" "row_task_kind r \<noteq> []"
    and "row_status r = status_of (row_payload r)"
  shows "sqlite_inv (s\<lparr>task_rows := insert_on_conflict r rows\<rparr>)"
  using assms wf_insert_on_conflict [of "task_rows s" r]
  by (auto simp: sqlite_inv_def dest!: set_insert_on_conflict)

lemma sqlite_upsert_cases:
  assumes "sqlite_inv s" and "sqlite_upsert_task dt io_init io now kind v s = (b, s')"
  obtains (failed) "\<not> b" "sqlite_inv s'" "task_rows s' = task_rows s" "history_rows s' = history_rows s"
  | (stored) d s1 where "b" "v = PDict d" "kind \<noteq> []" "task_id_of d \<noteq> []" "user_id_of d \<noteq> []"
      "usable s'" "sqlite_inv s1" "task_rows s1 = task_rows s"
      "s' = s1\<lparr>task_rows := insert_on_conflict (sqlite_task_row dt now kind d) (task_rows s1)\<rparr>"
proof (cases v)
  case (PDict d)
  show ?thesis
  proof (cases "usable s \<and> kind \<noteq> [] \<and> task_id_of d \<noteq> [] \<and> user_id_of d \<noteq> []")
    case True
    obtain b1 s1 where e: "sqlite_ensure_tables io_init s = (b1, s1)" by fastforce
    note e' = sqlite_ensureD [OF e assms(1)]
    show ?thesis
    proof (cases "b1 \<and> io = DbOk")
      case ok: True
      with True e e' PDict assms(2) show ?thesis by (intro stored [of d s1]) auto
    next
      case False
      with True e e' PDict assms(2) show ?thesis
        by (intro failed) (auto simp: sqlite_inv_rollback split: if_splits bool.splits)
    qed
  next
    case False
    with PDict assms show ?thesis by (intro failed) (auto split: if_splits)
  qed
qed (use assms failed in auto)

lemma sqlite_task_row_sel [simp]:
  "row_task_id (sqlite_task_row dt now kind d) = task_id_of d"
  "row_user_id (sqlite_task_row dt now kind d) = user_id_of d"
  "row_task_kind (sqlite_task_row dt now kind d) = kind"
  "row_payload (sqlite_task_row dt now kind d) = d"
  "row_status (sqlite_task_row dt now kind d) = status_of d"
  by (simp_all add: sqlite_task_row_def)

lemma sqlite_upsert_inv:
  assumes "sqlite_inv s" shows "sqlite_inv (snd (sqlite_upsert_task dt io_init io now kind v s))"
proof -
  obtain b s' where up: "sqlite_upsert_task dt io_init io now kind v s = (b, s')" by fastforce
  from assms up have "sqlite_inv s'"
    by (cases rule: sqlite_upsert_cases) (auto intro!: sqlite_inv_insert)
  with up show ?thesis by (simp only: snd_conv)
qed

lemma sqlite_get_unfold:
  assumes "sqlite_inv s"
  shows "sqlite_inv (snd (sqlite_get_task dt io_init io kind task_id user_id s))
    \<and> task_rows (snd (sqlite_get_task dt io_init io kind task_id user_id s)) = task_rows s
    \<and> history_rows (snd (sqlite_get_task dt io_init io kind task_id user_id s)) = history_rows s
    \<and> (fst (sqlite_get_task dt io_init io kind task_id user_id s) = Inr None
       \<or> (\<exists>r. table_map (task_rows s) (kind, task_id) = Some r \<and> user_matches user_id (row_user_id r)
           \<and> fst (sqlite_get_task dt io_init io kind task_id user_id s)
               = map_sum id Some (sqlite_row_to_task dt r)))"
proof -
  obtain b1 s1 where e: "sqlite_ensure_tables io_init s = (b1, s1)" by fastforce
  note e' = sqlite_ensureD [OF e assms]
  from assms have wf: "wf_rows (task_rows s)" by (simp add: sqlite_inv_def)
  show ?thesis
    using e e' assms wf
    by (auto simp: sqlite_get_task_def find_table_map split: bool.splits option.splits if_splits)
qed

lemma sqlite_row_to_task_item:
  "sqlite_row_to_task dt r = Inr item \<Longrightarrow> row_user_id r \<noteq> [] \<Longrightarrow>
     row_status r = status_of (row_payload r) \<Longrightarrow> item_of (row_user_id r) (row_payload r) item"
  by (auto simp: sqlite_row_to_task_def item_of_shape split: sum.splits)

lemma map_sum_Some_Inr [simp]:
  "map_sum id Some x = Inr (Some y) \<longleftrightarrow> x = Inr y" "Inr (Some y) = map_sum id Some x \<longleftrightarrow> x = Inr y"
  by (cases x; auto)+

lemma map_sum_Some_not_None [simp]: "map_sum id Some x \<noteq> Inr None"
  by (cases x) auto

lemma sqlite_owner: "sqlite_inv s \<Longrightarrow> table_map (task_rows s) k = Some r \<Longrightarrow>
    row_user_id r \<noteq> [] \<and> row_status r = status_of (row_payload r)"
  using table_map_SomeD by (fastforce simp: sqlite_inv_def)

lemma table_map_member: "wf_rows rows \<Longrightarrow> r \<in> set rows \<Longrightarrow> table_map rows (row_key r) = Some r"
  unfolding wf_rows_def table_map_def by (intro map_of_is_SomeI) (auto simp: comp_def)

lemma sqlite_list_cases:
  assumes "sqlite_inv s"
  shows "sqlite_inv (snd (sqlite_list_tasks dt io_init io kind user_id limit s))
    \<and> task_rows (snd (sqlite_list_tasks dt io_init io kind user_id limit s)) = task_rows s
    \<and> (fst (sqlite_list_tasks dt io_init io kind user_id limit s) = Inr []
       \<or> fst (sqlite_list_tasks dt io_init io kind user_id limit s) = sequence_sum (map (sqlite_row_to_task dt)
           (select_tasks kind user_id (safe_limit 50 2000 limit) (task_rows s))))"
proof -
  obtain b1 s1 where e: "sqlite_ensure_tables io_init s = (b1, s1)" by fastforce
  from sqlite_ensureD [OF e assms] e assms show ?thesis
    by (auto simp: sqlite_list_tasks_def split: bool.splits)
qed

interpretation sqlite: task_store_protocol
  "sqlite_upsert_task dt io_init io now" "sqlite_get_task dt g_init g" "sqlite_list_tasks dt l_init l"
  sqlite_stored sqlite_inv
  for dt io_init io now g_init g l_init l
proof
  fix s kind v assume "sqlite_inv s"
  then show "sqlite_inv (snd (sqlite_upsert_task dt io_init io now kind v s))"
    by (rule sqlite_upsert_inv)
next
  fix s kind v s' assume s: "sqlite_inv s" and up: "sqlite_upsert_task dt io_init io now kind v s = (True, s')"
  show "\<exists>d. v = PDict d \<and> kind \<noteq> [] \<and> task_id_of d \<noteq> [] \<and> user_id_of d \<noteq> []
      \<and> sqlite_stored s' = (sqlite_stored s)((kind, task_id_of d) \<mapsto> (user_id_of d, d))"
    using s up
  proof (cases rule: sqlite_upsert_cases)
    case (stored d s1)
    then show ?thesis
      by (auto simp: sqlite_stored_def table_map_insert_on_conflict sqlite_task_row_def row_key_def
          fun_eq_iff split: option.splits)
  qed simp
next
  fix s kind v s' assume s: "sqlite_inv s" and up: "sqlite_upsert_task dt io_init io now kind v s = (False, s')"
  show "sqlite_stored s' = sqlite_stored s"
    using s up by (cases rule: sqlite_upsert_cases) (auto simp: sqlite_stored_def)
next
  fix s kind task_id user_id item
  assume s: "sqlite_inv s" and g: "fst (sqlite_get_task dt g_init g kind task_id user_id s) = Inr (Some item)"
  then show "\<exists>owner d. sqlite_stored s (kind, task_id) = Some (owner, d) \<and> user_matches user_id owner
      \<and> item_of owner d item"
    using sqlite_get_unfold [OF s, of dt g_init g kind task_id user_id] sqlite_owner [OF s]
    by (auto simp: sqlite_stored_def intro!: sqlite_row_to_task_item)
next
  fix s kind task_id user_id assume s: "sqlite_inv s"
  show "sqlite_inv (snd (sqlite_get_task dt g_init g kind task_id user_id s))
      \<and> sqlite_stored (snd (sqlite_get_task dt g_init g kind task_id user_id s)) = sqlite_stored s"
    using sqlite_get_unfold [OF s, of dt g_init g kind task_id user_id] by (simp add: sqlite_stored_def)
next
  fix s kind user_id limit items item
  assume s: "sqlite_inv s" and l: "fst (sqlite_list_tasks dt l_init l kind user_id limit s) = Inr items"
    and item: "item \<in> set items"
  from item sqlite_list_cases [OF s, of dt l_init l kind user_id limit] l
  have "sequence_sum (map (sqlite_row_to_task dt)
      (select_tasks kind user_id (safe_limit 50 2000 limit) (task_rows s))) = Inr items"
    by auto
  from sequence_sum_Inr_set [OF this item] obtain r where
    r: "r \<in> set (select_tasks kind user_id (safe_limit 50 2000 limit) (task_rows s))"
      "sqlite_row_to_task dt r = Inr item" by auto
  note r' = set_select_tasks [OF r(1)]
  with s have "table_map (task_rows s) (kind, row_task_id r) = Some r"
    using table_map_member [of "task_rows s" r] by (auto simp: sqlite_inv_def row_key_def)
  with r(2) r' sqlite_owner [OF s this]
  show "\<exists>task_id owner d. sqlite_stored s (kind, task_id) = Some (owner, d)
      \<and> user_matches user_id owner \<and> item_of owner d item"
    by (intro exI [of _ "row_task_id r"] exI [of _ "row_user_id r"] exI [of _ "row_payload r"])
       (auto simp: sqlite_stored_def intro: sqlite_row_to_task_item)
next
  fix s kind user_id limit assume s: "sqlite_inv s"
  show "sqlite_inv (snd (sqlite_list_tasks dt l_init l kind user_id limit s))
      \<and> sqlite_stored (snd (sqlite_list_tasks dt l_init l kind user_id limit s)) = sqlite_stored s"
    using sqlite_list_cases [OF s, of dt l_init l kind user_id limit] by (simp add: sqlite_stored_def)
qed

interpretation sqlite_live: task_store_answering
  "sqlite_upsert_task dt io_init io now" "sqlite_get_task dt DbOk DbOk" "sqlite_list_tasks dt l_init l"
  sqlite_stored sqlite_inv usable
  for dt io_init io now l_init l
proof
  fix s kind v s' assume s: "sqlite_inv s" and up: "sqlite_upsert_task dt io_init io now kind v s = (True, s')"
  show "usable s'" using s up by (cases rule: sqlite_upsert_cases) auto
next
  fix s kind task_id owner d user_id
  assume "sqlite_inv s" "usable s" "kind \<noteq> []" "task_id \<noteq> []"
    "sqlite_stored s (kind, task_id) = Some (owner, d)" "user_matches user_id owner"
  then show "fst (sqlite_get_task dt DbOk DbOk kind task_id user_id s) \<noteq> Inr None"
    by (auto simp: sqlite_get_task_def sqlite_ensure_tables_def sqlite_stored_def find_table_map sqlite_inv_def)
qed

section \<open>Runs of the store\<close>

datatype sqlite_op =
    OpEnsure db_outcome
  | OpUpsert db_outcome db_outcome int string pyval
  | OpGet db_outcome db_outcome string string "string option"
  | OpList db_outcome db_outcome string "string option" int
  | OpAppend db_outcome db_outcome int string string pyval int
  | OpListHistory db_outcome db_outcome string "string option" int
  | OpClose

fun sqlite_step :: "dt_text \<Rightarrow> sqlite_op \<Rightarrow> sqlite_store \<Rightarrow> sqlite_store" where
  "sqlite_step dt (OpEnsure io) s = snd (sqlite_ensure_tables io s)"
| "sqlite_step dt (OpUpsert i io now kind v) s = snd (sqlite_upsert_task dt i io now kind v s)"
| "sqlite_step dt (OpGet i io kind tid u) s = snd (sqlite_get_task dt i io kind tid u s)"
| "sqlite_step dt (OpList i io kind u limit) s = snd (sqlite_list_tasks dt i io kind u limit s)"
| "sqlite_step dt (OpAppend i io now kind u v keep) s = snd (sqlite_append_history dt i io now kind u v keep s)"
| "sqlite_step dt (OpListHistory i io kind u limit) s = snd (sqlite_list_history dt i io kind u limit s)"
| "sqlite_step dt OpClose s = sqlite_close s"

inductive sqlite_reachable :: "dt_text \<Rightarrow> sqlite_store \<Rightarrow> bool" for dt where
  start: "sqlite_reachable dt new_sqlite_store"
| step: "sqlite_reachable dt s \<Longrightarrow> sqlite_reachable dt (sqlite_step dt op s)"

lemma next_rowid_fresh:
  "h \<in> set rows \<Longrightarrow> hist_id h < next_rowid rows"
  by (auto simp: next_rowid_def intro!: le_imp_less_Suc zle_add1_eq_le [THEN iffD2] Max_ge)

lemma next_rowid_pos: "\<forall>h \<in> set rows. 1 \<le> hist_id h \<Longrightarrow> 1 \<le> next_rowid rows"
proof -
  assume "\<forall>h \<in> set rows. 1 \<le> hist_id h"
  then have "rows \<noteq> [] \<Longrightarrow> 1 \<le> Max (set (map hist_id rows))"
    by (subst Max_ge_iff) (auto simp: neq_Nil_conv)
  then show ?thesis by (auto simp: next_rowid_def)
qed

lemma sqlite_inv_history:
  assumes "sqlite_inv s" and "distinct (map hist_id rows)" and "\<forall>h \<in> set rows. 1 \<le> hist_id h"
  shows "sqlite_inv (s\<lparr>history_rows := filter P rows\<rparr>)"
  using assms by (auto simp: sqlite_inv_def distinct_map_filter)

lemma trim_history_filter: "\<exists>P. trim_history kind user keep rows = filter P rows"
  by (auto simp: trim_history_def Let_def)

lemma sqlite_append_cases:
  assumes "sqlite_inv s"
  obtains (unchanged) r s1 where "sqlite_append_history dt io_init io now kind user v mx s = (r, s1)"
      "sqlite_inv s1" "task_rows s1 = task_rows s" "history_rows s1 = history_rows s"
  | (appended) d payload s1 where "v = PDict d" "stamp_history dt now d = Inr payload"
      "usable s" "usable s1" "sqlite_inv s1" "task_rows s1 = task_rows s" "history_rows s1 = history_rows s"
      "sqlite_append_history dt io_init io now kind user v mx s = (Inr (),
         s1\<lparr>history_rows := trim_history kind user (safe_limit 500 5000 mx)
           (history_rows s1 @ [sqlite_history_row dt now kind user d (next_rowid (history_rows s1)) payload])\<rparr>)"
proof (cases v)
  case (PDict d)
  show ?thesis
  proof (cases "usable s \<and> kind \<noteq> [] \<and> user \<noteq> []")
    case True
    obtain b1 s1 where e: "sqlite_ensure_tables io_init s = (b1, s1)" by fastforce
    note e' = sqlite_ensureD [OF e assms]
    show ?thesis
    proof (cases "stamp_history dt now d")
      case (Inl err)
      with PDict True assms show ?thesis by (intro unchanged) auto
    next
      case (Inr payload)
      show ?thesis
      proof (cases "b1 \<and> io = DbOk")
        case ok: True
        with PDict True Inr e e' show ?thesis by (intro appended [of d payload s1]) (auto simp: Let_def)
      next
        case False
        then consider "\<not> b1" | "b1" "io \<noteq> DbOk" by blast
        then show ?thesis
        proof cases
          case 1
          with PDict True Inr e e' show ?thesis by (intro unchanged [of "Inr ()" s1]) auto
        next
          case 2
          with PDict True Inr e e' show ?thesis
            by (intro unchanged [of "Inr ()" "rollback_locked io s1"]) (auto simp: sqlite_inv_rollback)
        qed
      qed
    qed
  next
    case False
    with PDict assms show ?thesis by (intro unchanged [of "Inr ()" s]) auto
  qed
qed (use assms unchanged in auto)

declare sqlite_append_history.simps [simp del] sqlite_upsert_task.simps [simp del]

lemma sqlite_append_inv:
  assumes "sqlite_inv s"
  shows "sqlite_inv (snd (sqlite_append_history dt io_init io now kind user v mx s))"
  using assms
proof (cases rule: sqlite_append_cases [where dt = dt and ?io_init = io_init and io = io and now = now
      and kind = kind and user = user and v = v and mx = mx])
  case (unchanged r s1)
  then show ?thesis by simp
next
  case (appended d payload s1)
  let ?row = "sqlite_history_row dt now kind user d (next_rowid (history_rows s1)) payload"
  obtain P where P: "trim_history kind user (safe_limit 500 5000 mx) (history_rows s1 @ [?row])
      = filter P (history_rows s1 @ [?row])"
    using trim_history_filter by blast
  have "next_rowid (history_rows s1) \<notin> hist_id ` set (history_rows s1)"
    using next_rowid_fresh [of _ "history_rows s1"] by fastforce
  then have "distinct (map hist_id (history_rows s1 @ [?row]))" "\<forall>h \<in> set (history_rows s1 @ [?row]). 1 \<le> hist_id h"
    using appended(5) next_rowid_pos [of "history_rows s1"]
    by (auto simp: sqlite_inv_def sqlite_history_row_def)
  from sqlite_inv_history [OF appended(5) this] show ?thesis
    unfolding appended(8) snd_conv P by blast
qed

lemma sqlite_list_history_inv:
  "sqlite_inv s \<Longrightarrow> sqlite_inv (snd (sqlite_list_history dt io_init io kind user_id limit s))"
  using sqlite_inv_ensure [of s io_init]
  by (auto simp: sqlite_list_history_def split: prod.splits bool.splits)

lemma sqlite_step_inv: "sqlite_inv s \<Longrightarrow> sqlite_inv (sqlite_step dt op s)"
  by (cases op)
     (simp_all add: sqlite_inv_ensure sqlite_upsert_inv sqlite_get_unfold sqlite_list_cases
       sqlite_append_inv sqlite_list_history_inv sqlite_close_def sqlite_inv_close)

lemma sqlite_reachable_inv: "sqlite_reachable dt s \<Longrightarrow> sqlite_inv s"
proof (induction rule: sqlite_reachable.induct)
  case start
  show ?case by (simp add: sqlite_inv_def new_sqlite_store_def wf_rows_def)
next
  case (step s op)
  then show ?case by (blast intro: sqlite_step_inv)
qed

lemma sqlite_step_unusable:
  assumes "sqlite_inv s" and "\<not> usable s"
  shows "sqlite_step dt op s = s"
proof (cases op)
  case (OpUpsert i io now kind v)
  with assms(2) show ?thesis by (cases v) (simp_all add: sqlite_upsert_task.simps)
next
  case (OpAppend i io now kind u v keep)
  with assms(2) show ?thesis by (cases v) (simp_all add: sqlite_append_history.simps)
next
  case OpClose
  with assms show ?thesis by (simp add: sqlite_close_def close_connection_locked_def sqlite_inv_def)
qed (use assms(2) in \<open>simp_all add: sqlite_ensure_tables_def sqlite_get_task_def sqlite_list_tasks_def
      sqlite_list_history_def\<close>)

lemma sqlite_run_unusable:
  "sqlite_inv s \<Longrightarrow> \<not> usable s \<Longrightarrow> fold (sqlite_step dt) ops s = s"
  by (induction ops) (simp_all add: sqlite_step_unusable)

section \<open>Properties\<close>

text \<open>A text library for closed examples: every non-empty text is the same instant.\<close>

definition one_instant :: dt_text where
  "one_instant = \<lparr>fromisoformat = (\<lambda>_. Some (epoch_us, Some 0)), isoformat = (\<lambda>_. ''T''),
     float_timestamp = (\<lambda>_. None)\<rparr>"

definition sample_payload :: pydict where
  "sample_payload = [(''task_id'', PStr '' t1 ''), (''user_id'', PStr ''7''), (''status'', PStr ''running''),
     (''progress'', PInt 3)]"

definition sample_store :: sqlite_store where
  "sample_store = snd (sqlite_upsert_task one_instant DbOk DbOk 0 ''k'' (PDict sample_payload) new_sqlite_store)"

lemma new_sqlite_inv: "sqlite_inv new_sqlite_store"
  by (rule sqlite_reachable_inv [OF sqlite_reachable.start])

lemma sample_store_inv: "sqlite_inv sample_store"
  unfolding sample_store_def by (rule sqlite_upsert_inv [OF new_sqlite_inv])

text \<open>
  C17: a task that was upserted is found: looking it up by its id, without an owner or under its
  owner, never answers "not there", and the dictionary that comes back carries the stored owner
  and every stored field outside the six column-backed keys.
\<close>

theorem sqlite_get_after_upsert:
  assumes "sqlite_inv s"
    and "sqlite_upsert_task dt io_init io now kind (PDict d) s = (True, s')"
    and "user_matches user_id (user_id_of d)"
  shows "fst (sqlite_get_task dt DbOk DbOk kind (task_id_of d) user_id s') \<noteq> Inr None
    \<and> (\<forall>item. fst (sqlite_get_task dt DbOk DbOk kind (task_id_of d) user_id s') = Inr (Some item)
        \<longrightarrow> item_of (user_id_of d) d item)"
  using sqlite_live.found_after_upsert [OF assms] sqlite.get_after_upsert [OF assms(1,2)]
  by auto

theorem sqlite_get_after_upsert_witness:
  "item_of ''7'' sample_payload
     [(''task_id'', PStr ''t1''), (''user_id'', PStr ''7''), (''status'', PStr ''running''),
      (''progress'', PInt 3), (''message'', PStr []), (''updated_at'', PStr ''T'')]"
proof -
  have up: "sqlite_upsert_task one_instant DbOk DbOk 0 ''k'' (PDict sample_payload) new_sqlite_store
      = (True, sample_store)"
    by (simp add: sample_store_def prod_eq_iff) code_simp
  have t: "task_id_of sample_payload = ''t1''" "user_id_of sample_payload = ''7''"
    and u: "user_matches (Some ''7'') (user_id_of sample_payload)"
    by code_simp+
  have "fst (sqlite_get_task one_instant DbOk DbOk ''k'' ''t1'' (Some ''7'') sample_store)
      = Inr (Some [(''task_id'', PStr ''t1''), (''user_id'', PStr ''7''), (''status'', PStr ''running''),
          (''progress'', PInt 3), (''message'', PStr []), (''updated_at'', PStr ''T'')])"
    by code_simp
  with sqlite_get_after_upsert [OF new_sqlite_inv up u] t show ?thesis by simp
qed

text \<open>
  tenant isolation. A look-up or a listing on behalf of a user (a non-empty user id) only
  ever returns dictionaries whose owner field is that user.
\<close>

theorem sqlite_user_isolation:
  assumes "sqlite_inv s" and "w \<noteq> []"
  shows "(\<forall>item. fst (sqlite_get_task dt g_init g kind task_id (Some w) s) = Inr (Some item)
           \<longrightarrow> dget item ''user_id'' = PStr w)
    \<and> (\<forall>items item. fst (sqlite_list_tasks dt io_init io kind (Some w) limit s) = Inr items
           \<longrightarrow> item \<in> set items \<longrightarrow> dget item ''user_id'' = PStr w)"
  using sqlite.get_isolated [OF assms] sqlite.list_isolated [OF assms] by blast

theorem sqlite_user_isolation_witness:
  "fst (sqlite_list_tasks one_instant DbOk DbOk ''k'' (Some ''7'') 0 sample_store)
     = Inr [[(''task_id'', PStr ''t1''), (''user_id'', PStr ''7''), (''status'', PStr ''running''),
          (''progress'', PInt 3), (''message'', PStr []), (''updated_at'', PStr ''T'')]]
   \<and> dget [(''task_id'', PStr ''t1''), (''user_id'', PStr ''7''), (''status'', PStr ''running''),
          (''progress'', PInt 3), (''message'', PStr []), (''updated_at'', PStr ''T'')] ''user_id'' = PStr ''7''"
proof -
  have l: "fst (sqlite_list_tasks one_instant DbOk DbOk ''k'' (Some ''7'') 0 sample_store)
     = Inr [[(''task_id'', PStr ''t1''), (''user_id'', PStr ''7''), (''status'', PStr ''running''),
          (''progress'', PInt 3), (''message'', PStr []), (''updated_at'', PStr ''T'')]]"
    by code_simp
  moreover have "(''7'' :: string) \<noteq> []" by simp
  ultimately show ?thesis
    using sqlite_user_isolation [OF sample_store_inv, of "''7''"] by (metis list.set_intros(1))
qed

text \<open>
  history retention. Appending to a live store leaves, for that kind and user, exactly the
  newest \<open>keep\<close> of the old records and the new one (at least 1 and at most 5000), and does not
  touch the history of any other kind or user.
\<close>

theorem sqlite_history_retention:
  assumes "sqlite_inv s" and "usable s" and "kind \<noteq> []" and "user \<noteq> []"
    and "stamp_history dt now d = Inr payload"
  shows "\<exists>s' row. sqlite_append_history dt DbOk DbOk now kind user (PDict d) mx s = (Inr (), s')
      \<and> hist_payload row = payload
      \<and> mset (own_history kind user (history_rows s'))
          = mset (take (safe_limit 500 5000 mx) (hist_order (own_history kind user (history_rows s) @ [row])))
      \<and> length (own_history kind user (history_rows s')) \<le> 5000
      \<and> (\<forall>k u. (k, u) \<noteq> (kind, user) \<longrightarrow>
           own_history k u (history_rows s') = own_history k u (history_rows s))"
proof -
  obtain s1 where e: "sqlite_ensure_tables DbOk s = (True, s1)"
    using assms(2) by (cases "initialized s") (auto simp: sqlite_ensure_tables_def)
  note e' = sqlite_ensureD [OF e assms(1)]
  let ?row = "sqlite_history_row dt now kind user d (next_rowid (history_rows s)) payload"
  let ?keep = "safe_limit 500 5000 mx"
  let ?s' = "s1\<lparr>history_rows := trim_history kind user ?keep (history_rows s @ [?row])\<rparr>"
  have app: "sqlite_append_history dt DbOk DbOk now kind user (PDict d) mx s = (Inr (), ?s')"
    using assms e e' by (simp add: sqlite_append_history.simps Let_def)
  have row: "hist_kind ?row = kind" "hist_user_id ?row = user" "hist_id ?row = next_rowid (history_rows s)"
    "hist_payload ?row = payload"
    by (simp_all add: sqlite_history_row_def)
  have "next_rowid (history_rows s) \<notin> hist_id ` set (history_rows s)"
    using next_rowid_fresh [of _ "history_rows s"] by fastforce
  then have d: "distinct (map hist_id (history_rows s @ [?row]))"
    using assms(1) row by (simp add: sqlite_inv_def)
  have own: "own_history kind user (history_rows s @ [?row]) = own_history kind user (history_rows s) @ [?row]"
    using row by (simp add: own_history_def)
  have "mset (own_history kind user (history_rows ?s'))
      = mset (take ?keep (hist_order (own_history kind user (history_rows s) @ [?row])))"
    using own_trim_history [OF d, of kind user ?keep] by (simp add: own)
  moreover from this have "length (own_history kind user (history_rows ?s')) \<le> ?keep"
    by (metis length_take min.cobounded2 size_mset)
  moreover have "?keep \<le> 5000" using safe_limit_bounds [of 5000 500 mx] by simp
  moreover have "own_history k u (history_rows ?s') = own_history k u (history_rows s)"
    if "(k, u) \<noteq> (kind, user)" for k u
    using others_trim_history [OF that, of ?keep "history_rows s @ [?row]"] row that
    by (auto simp: own_history_def)
  ultimately show ?thesis using app row(4) by fastforce
qed

theorem sqlite_history_retention_witness:
  "\<exists>s'. sqlite_append_history one_instant DbOk DbOk 5 ''k'' ''7'' (PDict [(''timestamp'', PStr ''x'')]) 1 sample_store
      = (Inr (), s') \<and> length (own_history ''k'' ''7'' (history_rows s')) \<le> 5000"
proof -
  have "usable sample_store" by (simp add: sample_store_def) code_simp
  moreover have "stamp_history one_instant 5 [(''timestamp'', PStr ''x'')] = Inr [(''timestamp'', PStr ''x'')]"
    by code_simp
  ultimately show ?thesis
    using sqlite_history_retention [OF sample_store_inv, of "''k''" "''7''" one_instant 5
        "[(''timestamp'', PStr ''x'')]" "[(''timestamp'', PStr ''x'')]" 1] by auto
qed

text \<open>
  in every state a run of the store can reach, the connection is closed exactly when the
  store is unusable, each (kind, id) has one row, and history ids are unique; and once the store
  is unusable (a failed rollback or a close) it stays as it is whatever is called on it.
\<close>

theorem sqlite_poisoned_forever:
  assumes "sqlite_reachable dt s"
  shows "sqlite_inv s \<and> (\<not> usable s \<longrightarrow> (\<forall>ops. fold (sqlite_step dt) ops s = s))"
  using sqlite_reachable_inv [OF assms] sqlite_run_unusable by blast

theorem sqlite_poisoned_forever_witness:
  "fold (sqlite_step one_instant) [OpUpsert DbOk DbOk 0 ''k'' (PDict sample_payload), OpEnsure DbOk]
     (sqlite_close new_sqlite_store) = sqlite_close new_sqlite_store"
proof -
  have "sqlite_reachable one_instant (sqlite_step one_instant OpClose new_sqlite_store)"
    by (rule sqlite_reachable.intros)+
  moreover have "\<not> usable (sqlite_step one_instant OpClose new_sqlite_store)"
    by (simp add: sqlite_close_def close_connection_locked_def)
  ultimately show ?thesis using sqlite_poisoned_forever by fastforce
qed

end
