(* ===== verification/Task_Store.thy ===== *)
theory Task_Store
  imports Credential_Crypto Storage_Sqlite
begin

text \<open>
  \<open>backend/app/services/course/task_store.py\<close>: the facade the services call. It encrypts the
  sensitive fields of a payload on the way into the storage adapter (dropping what it cannot
  encrypt) and decrypts them on the way out. The adapter's operations are arguments, so the
  lemmas hold for every store that keeps the interface \<open>task_store_protocol\<close>.
\<close>

definition SENSITIVE_FIELDS :: "string list" where
  "SENSITIVE_FIELDS = [''password'', ''user_password'', ''third_party_password'']"

definition SENSITIVE_CONTAINERS :: "string list" where
  "SENSITIVE_CONTAINERS = [''credentials'']"

text \<open>Encrypting a dictionary, or dropping its sensitive fields where that fails\<close>

definition encrypt_or_drop ::
  "fernet_lib \<Rightarrow> crypto_error + cipher \<Rightarrow> (string \<Rightarrow> nat) \<Rightarrow> pydict \<Rightarrow> pydict" where
  "encrypt_or_drop lib c rnd d =
     (case encrypt_dict_fields lib c rnd SENSITIVE_FIELDS d of
        Inr e \<Rightarrow> e
      | Inl _ \<Rightarrow> fold dpop SENSITIVE_FIELDS d)"

definition encrypt_container ::
  "fernet_lib \<Rightarrow> crypto_error + cipher \<Rightarrow> (string \<Rightarrow> string \<Rightarrow> nat) \<Rightarrow> string \<Rightarrow> pydict \<Rightarrow> pydict" where
  "encrypt_container lib c rnd container d =
     (case dget d container of
        PDict nested \<Rightarrow> dset container (PDict (encrypt_or_drop lib c (rnd container) nested)) d
      | _ \<Rightarrow> d)"

definition encrypt_sensitive ::
  "fernet_lib \<Rightarrow> crypto_error + cipher \<Rightarrow> (string \<Rightarrow> string \<Rightarrow> nat) \<Rightarrow> pydict \<Rightarrow> pydict" where
  "encrypt_sensitive lib c rnd payload =
     fold (encrypt_container lib c rnd) SENSITIVE_CONTAINERS (encrypt_or_drop lib c (rnd []) payload)"

definition decrypt_or_keep :: "fernet_lib \<Rightarrow> crypto_error + cipher \<Rightarrow> pydict \<Rightarrow> pydict" where
  "decrypt_or_keep lib c d =
     (case decrypt_dict_fields lib c SENSITIVE_FIELDS d of Inr e \<Rightarrow> e | Inl _ \<Rightarrow> d)"

definition decrypt_container ::
  "fernet_lib \<Rightarrow> crypto_error + cipher \<Rightarrow> string \<Rightarrow> pydict \<Rightarrow> pydict" where
  "decrypt_container lib c container d =
     (case dget d container of
        PDict nested \<Rightarrow> dset container (PDict (decrypt_or_keep lib c nested)) d
      | _ \<Rightarrow> d)"

definition decrypt_sensitive :: "fernet_lib \<Rightarrow> crypto_error + cipher \<Rightarrow> pydict \<Rightarrow> pydict" where
  "decrypt_sensitive lib c payload =
     fold (decrypt_container lib c) SENSITIVE_CONTAINERS (decrypt_or_keep lib c payload)"

section \<open>The facade\<close>

definition ts_upsert_task ::
  "(string \<Rightarrow> pyval \<Rightarrow> 's \<Rightarrow> bool \<times> 's) \<Rightarrow> fernet_lib \<Rightarrow> crypto_error + cipher
     \<Rightarrow> (string \<Rightarrow> string \<Rightarrow> nat) \<Rightarrow> string \<Rightarrow> pyval \<Rightarrow> 's \<Rightarrow> bool \<times> 's" where
  "ts_upsert_task upsert lib c rnd kind v s =
     (case v of
        PDict d \<Rightarrow> (if kind = [] then (False, s)
                    else upsert kind (PDict (encrypt_sensitive lib c rnd d)) s)
      | _ \<Rightarrow> (False, s))"

definition ts_get_task ::
  "(string \<Rightarrow> string \<Rightarrow> string option \<Rightarrow> 's \<Rightarrow> (storage_error + pydict option) \<times> 's)
     \<Rightarrow> fernet_lib \<Rightarrow> crypto_error + cipher \<Rightarrow> string \<Rightarrow> string \<Rightarrow> string option \<Rightarrow> 's
     \<Rightarrow> (storage_error + pydict option) \<times> 's" where
  "ts_get_task get lib c kind task_id user_id s =
     map_prod (map_sum id (map_option (decrypt_sensitive lib c))) id (get kind task_id user_id s)"

definition ts_list_tasks ::
  "(string \<Rightarrow> string option \<Rightarrow> int \<Rightarrow> 's \<Rightarrow> (storage_error + pydict list) \<times> 's)
     \<Rightarrow> fernet_lib \<Rightarrow> crypto_error + cipher \<Rightarrow> string \<Rightarrow> string option \<Rightarrow> int \<Rightarrow> 's
     \<Rightarrow> (storage_error + pydict list) \<times> 's" where
  "ts_list_tasks lst lib c kind user_id limit s =
     map_prod (map_sum id (map (decrypt_sensitive lib c))) id (lst kind user_id limit s)"

definition ts_append_history ::
  "(string \<Rightarrow> string \<Rightarrow> pyval \<Rightarrow> int \<Rightarrow> 's \<Rightarrow> (storage_error + unit) \<times> 's) \<Rightarrow> fernet_lib
     \<Rightarrow> crypto_error + cipher \<Rightarrow> (string \<Rightarrow> string \<Rightarrow> nat) \<Rightarrow> string \<Rightarrow> string \<Rightarrow> pyval \<Rightarrow> int \<Rightarrow> 's
     \<Rightarrow> (storage_error + unit) \<times> 's" where
  "ts_append_history app lib c rnd kind user_id v max_records s =
     (case v of
        PDict d \<Rightarrow> (if kind = [] \<or> user_id = [] then (Inr (), s)
                    else app kind user_id (PDict (encrypt_sensitive lib c rnd d)) max_records s)
      | _ \<Rightarrow> (Inr (), s))"

definition ts_list_history ::
  "(string \<Rightarrow> string option \<Rightarrow> int \<Rightarrow> 's \<Rightarrow> (storage_error + pydict list) \<times> 's)
     \<Rightarrow> fernet_lib \<Rightarrow> crypto_error + cipher \<Rightarrow> string \<Rightarrow> string option \<Rightarrow> int \<Rightarrow> 's
     \<Rightarrow> (storage_error + pydict list) \<times> 's" where
  "ts_list_history lst lib c kind user_id limit s =
     map_prod (map_sum id (map (decrypt_sensitive lib c))) id (lst kind user_id limit s)"

section \<open>Protection at rest\<close>

lemma distinct_sensitive [simp]: "distinct SENSITIVE_FIELDS"
  by (simp add: SENSITIVE_FIELDS_def)

lemma credentials_not_sensitive [simp]: "''credentials'' \<notin> set SENSITIVE_FIELDS"
  by (simp add: SENSITIVE_FIELDS_def)

lemma dget_fold_dpop: "dget (fold dpop ks d) k = (if k \<in> set ks then PNone else dget d k)"
  by (induction ks arbitrary: d) (auto simp: dget_def)

lemma encrypt_or_drop_protects: "protected_fields c SENSITIVE_FIELDS (encrypt_or_drop lib c rnd d)"
  unfolding encrypt_or_drop_def
  by (auto simp: protected_fields_def [of _ _ "fold dpop _ _"] dget_fold_dpop
      dest: encrypt_dict_fields_protects split: sum.splits)

lemma encrypt_or_drop_other: "k \<notin> set SENSITIVE_FIELDS \<Longrightarrow> dget (encrypt_or_drop lib c rnd d) k = dget d k"
  by (auto simp: encrypt_or_drop_def dget_fold_dpop dest: encrypt_dict_fields_other split: sum.splits)

lemma dget_encrypt_container:
  "dget (encrypt_container lib c rnd container d) k =
     (if k = container then (case dget d k of
        PDict nested \<Rightarrow> PDict (encrypt_or_drop lib c (rnd container) nested) | v \<Rightarrow> v)
      else dget d k)"
  by (auto simp: encrypt_container_def split: pyval.splits)

lemma dget_encrypt_sensitive:
  "dget (encrypt_sensitive lib c rnd d) k =
     (if k = ''credentials'' then (case dget d k of
        PDict nested \<Rightarrow> PDict (encrypt_or_drop lib c (rnd k) nested) | v \<Rightarrow> v)
      else dget (encrypt_or_drop lib c (rnd []) d) k)"
  by (auto simp: encrypt_sensitive_def SENSITIVE_CONTAINERS_def dget_encrypt_container
      encrypt_or_drop_other split: pyval.splits)

definition protected_payload :: "crypto_error + cipher \<Rightarrow> pydict \<Rightarrow> bool" where
  "protected_payload c d \<longleftrightarrow> protected_fields c SENSITIVE_FIELDS d
     \<and> (\<forall>nested. dget d ''credentials'' = PDict nested \<longrightarrow> protected_fields c SENSITIVE_FIELDS nested)"

lemma encrypt_sensitive_protects: "protected_payload c (encrypt_sensitive lib c rnd d)"
proof -
  have "protected_fields c SENSITIVE_FIELDS (encrypt_sensitive lib c rnd d)"
    using encrypt_or_drop_protects [of c lib "rnd []" d]
    by (auto simp: protected_fields_def dget_encrypt_sensitive)
  then show ?thesis
    by (auto simp: protected_payload_def dget_encrypt_sensitive encrypt_or_drop_protects
        split: pyval.splits)
qed

section \<open>Round trip\<close>

text \<open>A payload whose secrets are plain texts: none of them already looks like a token.\<close>

definition plain_payload :: "pydict \<Rightarrow> bool" where
  "plain_payload d \<longleftrightarrow> wf_dict d \<and> plain_fields SENSITIVE_FIELDS d
     \<and> (\<forall>nested. dget d ''credentials'' = PDict nested \<longrightarrow>
          wf_dict nested \<and> plain_fields SENSITIVE_FIELDS nested)"

lemma decrypt_or_keep_encrypt_or_drop:
  "fernet_ok lib \<Longrightarrow> wf_dict d \<Longrightarrow> plain_fields SENSITIVE_FIELDS d \<Longrightarrow>
     decrypt_or_keep lib (Inr ci) (encrypt_or_drop lib (Inr ci) rnd d) = d"
  using decrypt_encrypt_dict_fields [of lib d SENSITIVE_FIELDS ci rnd]
  by (simp add: decrypt_or_keep_def encrypt_or_drop_def)

lemma decrypt_dict_fields_dget:
  "distinct fs \<Longrightarrow>
     \<forall>f \<in> set fs. \<forall>s. dget d f = PStr s \<longrightarrow> starts_with s PREFIX \<longrightarrow> cipher_decrypt lib ci s \<noteq> Inl UnicodeError \<Longrightarrow>
     \<exists>d'. decrypt_dict_fields lib (Inr ci) fs d = Inr d' \<and>
       (\<forall>k. dget d' k = (if k \<in> set fs then dec_field lib ci k (dget d k) else dget d k))"
proof (induction fs arbitrary: d)
  case Nil
  then show ?case by simp
next
  case (Cons f fs)
  show ?case
  proof (cases "\<exists>s w. dget d f = PStr s \<and> starts_with s PREFIX \<and> cipher_decrypt lib ci s = Inr w")
    case True
    then obtain s w where s: "dget d f = PStr s" "starts_with s PREFIX" "cipher_decrypt lib ci s = Inr w"
      by blast
    let ?d = "dset f (PStr w) d"
    have "\<forall>f' \<in> set fs. \<forall>s. dget ?d f' = PStr s \<longrightarrow> starts_with s PREFIX
        \<longrightarrow> cipher_decrypt lib ci s \<noteq> Inl UnicodeError"
      using Cons.prems by auto
    with Cons.prems(1) obtain d' where d': "decrypt_dict_fields lib (Inr ci) fs ?d = Inr d'"
      "\<forall>k. dget d' k = (if k \<in> set fs then dec_field lib ci k (dget ?d k) else dget ?d k)"
      using Cons.IH [of ?d] by auto
    have "decrypt_dict_fields lib (Inr ci) (f # fs) d = decrypt_dict_fields lib (Inr ci) fs ?d"
      using s by (auto simp: decrypt_str_def PREFIX_def)
    moreover have "dec_field lib ci f (dget d f) = PStr w" using s by (simp add: dec_field_def)
    ultimately show ?thesis using d' Cons.prems(1) by auto
  next
    case False
    have idle: "dec_field lib ci f (dget d f) = dget d f"
      using False by (auto simp: dec_field_def split: pyval.splits sum.splits)
    have "decrypt_dict_fields lib (Inr ci) (f # fs) d = decrypt_dict_fields lib (Inr ci) fs d"
    proof (cases "dget d f")
      case (PStr s)
      show ?thesis
      proof (cases "starts_with s PREFIX")
        case True
        with False PStr Cons.prems(2) have "cipher_decrypt lib ci s = Inl CredentialCryptoError"
          by (cases "cipher_decrypt lib ci s") (auto, metis crypto_error.exhaust)
        with PStr True show ?thesis by (auto simp: decrypt_str_def PREFIX_def)
      qed (simp add: PStr)
    qed simp_all
    with Cons.prems Cons.IH [of d] idle show ?thesis by auto
  qed
qed

lemma dget_map_fields_enc:
  "dget (map_fields (enc_field lib ci rnd) fs d) k =
     (if k \<in> set fs then enc_field lib ci rnd k (dget d k) else dget d k)"
  by (auto simp: dget_def map_of_map_fields enc_field_def split: option.splits)

lemma encrypt_or_drop_map:
  "wf_dict d \<Longrightarrow> encrypt_or_drop lib (Inr ci) rnd d = map_fields (enc_field lib ci rnd) SENSITIVE_FIELDS d"
  by (simp add: encrypt_or_drop_def encrypt_dict_fields_map)

lemma plain_fields_dget: "plain_fields fs d \<Longrightarrow> k \<in> set fs \<Longrightarrow> dget d k = PStr s \<Longrightarrow> \<not> starts_with s PREFIX"
  using dget_map_of by (fastforce simp: plain_fields_def dest: map_of_SomeD)

lemma dget_decrypt_sensitive:
  assumes "fernet_ok lib" and "plain_payload d"
    and same: "\<And>k. k \<notin> S \<Longrightarrow> dget item k = dget (encrypt_sensitive lib (Inr ci) rnd d) k"
    and S: "set SENSITIVE_FIELDS \<inter> S = {}" "''credentials'' \<notin> S" and k: "k \<notin> S"
  shows "dget (decrypt_sensitive lib (Inr ci) item) k = dget d k"
proof -
  from assms(2) have wf: "wf_dict d" and pf: "plain_fields SENSITIVE_FIELDS d"
    by (auto simp: plain_payload_def)
  have enc: "dget item f = enc_field lib ci (rnd []) f (dget d f)" if "f \<in> set SENSITIVE_FIELDS" for f
  proof -
    have "f \<notin> S" "f \<noteq> ''credentials''" using that S by auto
    then show ?thesis
      using that wf same [of f] by (simp add: dget_encrypt_sensitive encrypt_or_drop_map dget_map_fields_enc)
  qed
  have "cipher_decrypt lib ci s \<noteq> Inl UnicodeError"
    if "f \<in> set SENSITIVE_FIELDS" "dget item f = PStr s" "starts_with s PREFIX" for f s
    using that enc [OF that(1)] plain_fields_dget [OF pf that(1)]
    by (intro enc_field_decrypts [OF assms(1), of "dget d f" ci "rnd []" f s]) auto
  then obtain e where e: "decrypt_or_keep lib (Inr ci) item = e"
    "\<And>k. dget e k = (if k \<in> set SENSITIVE_FIELDS then dec_field lib ci k (dget item k) else dget item k)"
    using decrypt_dict_fields_dget [of SENSITIVE_FIELDS item lib ci] by (fastforce simp: decrypt_or_keep_def)
  have dec: "dget (decrypt_sensitive lib (Inr ci) item) k =
      (if k = ''credentials'' then (case dget item k of
         PDict nested \<Rightarrow> PDict (decrypt_or_keep lib (Inr ci) nested) | v \<Rightarrow> v)
       else dget e k)"
    by (auto simp: decrypt_sensitive_def SENSITIVE_CONTAINERS_def decrypt_container_def e
        split: pyval.splits)
  show ?thesis
  proof (cases "k = ''credentials''")
    case True
    with same [OF k] have "dget item k = (case dget d k of
        PDict nested \<Rightarrow> PDict (encrypt_or_drop lib (Inr ci) (rnd ''credentials'') nested) | v \<Rightarrow> v)"
      by (simp add: dget_encrypt_sensitive)
    with True dec assms(1,2) show ?thesis
      by (auto simp: plain_payload_def decrypt_or_keep_encrypt_or_drop split: pyval.splits)
  next
    case False
    show ?thesis
    proof (cases "k \<in> set SENSITIVE_FIELDS")
      case True
      with False dec e(2) enc [OF True] show ?thesis
        using dec_enc_field [OF assms(1), of "dget d k" ci k "rnd []"] plain_fields_dget [OF pf True] by auto
    next
      case other: False
      with False dec e(2) same [OF k] show ?thesis
        by (simp add: dget_encrypt_sensitive encrypt_or_drop_other)
    qed
  qed
qed

lemma task_id_of_encrypt [simp]: "task_id_of (encrypt_sensitive lib c rnd d) = task_id_of d"
  by (simp add: task_id_of_def dget_encrypt_sensitive encrypt_or_drop_other SENSITIVE_FIELDS_def)

lemma user_id_of_encrypt [simp]: "user_id_of (encrypt_sensitive lib c rnd d) = user_id_of d"
  by (simp add: user_id_of_def dget_encrypt_sensitive encrypt_or_drop_other SENSITIVE_FIELDS_def)

context task_store_protocol
begin

lemma ts_upsert_true:
  assumes "inv s" and "ts_upsert_task upsert lib c rnd kind v s = (True, s')"
  obtains d where "v = PDict d" "upsert kind (PDict (encrypt_sensitive lib c rnd d)) s = (True, s')"
    "stored s' = (stored s)((kind, task_id_of d) \<mapsto> (user_id_of d, encrypt_sensitive lib c rnd d))"
proof -
  from assms(2) obtain d where d: "v = PDict d"
    "upsert kind (PDict (encrypt_sensitive lib c rnd d)) s = (True, s')"
    by (auto simp: ts_upsert_task_def split: pyval.splits if_splits)
  from upsert_true [OF assms(1) d(2)]
  have "stored s' = (stored s)((kind, task_id_of d) \<mapsto> (user_id_of d, encrypt_sensitive lib c rnd d))"
    by auto
  with d that show thesis by blast
qed

lemma ts_stored_protected:
  assumes "inv s" and "ts_upsert_task upsert lib c rnd kind (PDict d) s = (True, s')"
    and "stored s' (kind, task_id_of d) = Some (owner, p)"
  shows "protected_payload c p"
  using assms(1,2) by (rule ts_upsert_true) (use assms(3) encrypt_sensitive_protects in auto)

lemma ts_round_trip:
  assumes "inv s" and "fernet_ok lib" and "plain_payload d"
    and "ts_upsert_task upsert lib (Inr ci) rnd kind (PDict d) s = (True, s')"
    and "fst (ts_get_task get lib (Inr ci) kind (task_id_of d) user_id s') = Inr (Some item)"
    and "k \<notin> set SHAPED_KEYS"
  shows "dget item k = dget d k"
proof -
  from assms(1,4) have up: "upsert kind (PDict (encrypt_sensitive lib (Inr ci) rnd d)) s = (True, s')"
    by (rule ts_upsert_true) simp
  from assms(5) obtain raw where raw: "fst (get kind (task_id_of d) user_id s') = Inr (Some raw)"
    "item = decrypt_sensitive lib (Inr ci) raw"
    by (cases "fst (get kind (task_id_of d) user_id s')") (auto simp: ts_get_task_def)
  have "item_of (user_id_of d) (encrypt_sensitive lib (Inr ci) rnd d) raw"
    using get_after_upsert [OF assms(1) up] raw(1) by simp
  then show ?thesis
    unfolding raw(2) using assms(2,3,6)
    by (intro dget_decrypt_sensitive [where S = "set SHAPED_KEYS" and rnd = rnd])
       (auto simp: item_of_def SHAPED_KEYS_def SENSITIVE_FIELDS_def)
qed

end

section \<open>A Fernet library for closed examples\<close>

text \<open>
  A stand-in that satisfies \<^const>\<open>fernet_ok\<close>: a token spells each character in unary, so it is
  ASCII for every text and can be read back.
\<close>

fun unary_enc :: "string \<Rightarrow> string" where
  "unary_enc [] = []"
| "unary_enc (c # cs) = replicate (of_char c) (CHR ''a'') @ CHR ''b'' # unary_enc cs"

fun unary_dec :: "nat \<Rightarrow> string \<Rightarrow> string" where
  "unary_dec n [] = []"
| "unary_dec n (c # cs) = (if c = CHR ''b'' then char_of n # unary_dec 0 cs else unary_dec (Suc n) cs)"

definition unary_fernet :: fernet_lib where
  "unary_fernet = \<lparr>valid_key = (\<lambda>_. True), fernet_encrypt = (\<lambda>_ _ p. unary_enc p),
     fernet_decrypt = (\<lambda>_ t. FPlain (unary_dec 0 t))\<rparr>"

lemma unary_dec_replicate:
  "unary_dec n (replicate k (CHR ''a'') @ CHR ''b'' # cs) = char_of (n + k) # unary_dec 0 cs"
  by (induction k arbitrary: n) auto

lemma unary_dec_enc: "unary_dec 0 (unary_enc p) = p"
  by (induction p) (simp_all add: unary_dec_replicate)

lemma is_ascii_unary: "is_ascii (unary_enc p)"
  by (induction p) (auto simp: is_ascii_def list_all_iff)

lemma unary_fernet_ok: "fernet_ok unary_fernet"
  by (simp add: fernet_ok_def unary_fernet_def unary_dec_enc is_ascii_unary)

definition sample_secret :: pydict where
  "sample_secret = [(''task_id'', PStr ''t1''), (''user_id'', PStr ''7''), (''password'', PStr ''ab''),
     (''credentials'', PDict [(''username'', PStr ''u''), (''password'', PStr ''c'')])]"

lemma sample_secret_plain: "plain_payload sample_secret"
proof -
  have "wf_dict sample_secret" "plain_fields SENSITIVE_FIELDS sample_secret"
    by (auto simp: sample_secret_def plain_fields_def PREFIX_def SENSITIVE_FIELDS_def)
  then show ?thesis
    by (auto simp: plain_payload_def sample_secret_def dget_def plain_fields_def PREFIX_def
        SENSITIVE_FIELDS_def)
qed

definition sample_secret_store :: sqlite_store where
  "sample_secret_store = snd (ts_upsert_task (sqlite_upsert_task one_instant DbOk DbOk 0) unary_fernet
     (Inr (FernetCipher ''k'')) (\<lambda>_ _. 0) ''kind'' (PDict sample_secret) new_sqlite_store)"

lemma sample_secret_upsert:
  "ts_upsert_task (sqlite_upsert_task one_instant DbOk DbOk 0) unary_fernet
     (Inr (FernetCipher ''k'')) (\<lambda>_ _. 0) ''kind'' (PDict sample_secret) new_sqlite_store = (True, sample_secret_store)"
  by (simp add: sample_secret_store_def prod_eq_iff) code_simp

section \<open>Properties\<close>



text \<open>
  C18: encryption is transparent. A payload with plain-text secrets that is stored and read back
  under the same cipher comes back with every field as it was, the secrets and the nested
  credentials included (the six column-backed keys aside).
\<close>

theorem credentials_round_trip:
  assumes "sqlite_inv s" and "fernet_ok lib" and "plain_payload d"
    and "ts_upsert_task (sqlite_upsert_task dt io_init io now) lib (Inr ci) rnd kind (PDict d) s = (True, s')"
    and "fst (ts_get_task (sqlite_get_task dt DbOk DbOk) lib (Inr ci) kind (task_id_of d) user_id s')
      = Inr (Some item)"
    and "k \<notin> set SHAPED_KEYS"
  shows "dget item k = dget d k"
  using assms by (rule sqlite.ts_round_trip)

theorem credentials_round_trip_witness:
  "dget [(''task_id'', PStr ''t1''), (''user_id'', PStr ''7''), (''password'', PStr ''ab''),
      (''credentials'', PDict [(''username'', PStr ''u''), (''password'', PStr ''c'')]),
      (''status'', PStr ''pending''), (''message'', PStr []), (''updated_at'', PStr ''T'')] ''password''
   = PStr ''ab''"
proof -
  have t: "task_id_of sample_secret = ''t1''" by code_simp
  have g: "fst (ts_get_task (sqlite_get_task one_instant DbOk DbOk) unary_fernet (Inr (FernetCipher ''k''))
      ''kind'' (task_id_of sample_secret) None sample_secret_store)
    = Inr (Some [(''task_id'', PStr ''t1''), (''user_id'', PStr ''7''), (''password'', PStr ''ab''),
      (''credentials'', PDict [(''username'', PStr ''u''), (''password'', PStr ''c'')]),
      (''status'', PStr ''pending''), (''message'', PStr []), (''updated_at'', PStr ''T'')])"
    by code_simp
  have "''password'' \<notin> set SHAPED_KEYS" by (simp add: SHAPED_KEYS_def)
  from credentials_round_trip [OF new_sqlite_inv unary_fernet_ok sample_secret_plain sample_secret_upsert g this]
  show ?thesis by (simp add: sample_secret_def dget_def)
qed

text \<open>
  a secret that happens to begin with the token prefix is taken for a token. It is written to
  the store as it is, in clear, under every cipher and on every failure of the cipher.
\<close>

theorem prefixed_secret_stored_in_clear:
  "encrypt_sensitive lib c rnd [(''password'', PStr (PREFIX @ p))] = [(''password'', PStr (PREFIX @ p))]"
  by (simp add: encrypt_sensitive_def encrypt_or_drop_def SENSITIVE_FIELDS_def SENSITIVE_CONTAINERS_def
      encrypt_container_def encrypt_str_def dget_def PREFIX_def)

end
