(* ===== verification/Status_Store.thy ===== *)
theory Status_Store
  imports Task_Admission Task_Store
begin

text \<open>
  The task store as the two task managers use it: the operations of the facade they call, and
  the contract \<open>status_store\<close> of one kind of task, which the facade keeps over every adapter with
  the protocol of \<open>Storage_Base\<close>.
\<close>

text \<open>The facade operations the manager calls\<close>

record 's store_ops =
  so_upsert :: "string \<Rightarrow> pyval \<Rightarrow> 's \<Rightarrow> bool \<times> 's"
  so_get :: "string \<Rightarrow> string \<Rightarrow> string option \<Rightarrow> 's \<Rightarrow> (storage_error + pydict option) \<times> 's"
  so_list :: "string \<Rightarrow> string option \<Rightarrow> int \<Rightarrow> 's \<Rightarrow> (storage_error + pydict list) \<times> 's"

section \<open>What a manager needs of the task store\<close>

text \<open>Of one kind of task: what was written with a known status is read with one.\<close>

definition known_status :: "pyval \<Rightarrow> bool" where
  "known_status v \<longleftrightarrow> v \<in> PStr ` (set ACTIVE_TASK_STATUSES \<union> set TERMINAL_TASK_STATUSES)"

locale status_store =
  fixes kind :: string
    and ops :: "'s store_ops"
    and sinv :: "'s \<Rightarrow> bool"
  assumes upsert_keeps: "sinv st \<Longrightarrow> known_status (dget d ''status'') \<Longrightarrow>
      sinv (snd (so_upsert ops kind (PDict d) st))"
    and get_keeps: "sinv st \<Longrightarrow> sinv (snd (so_get ops kind tid u st))"
    and get_known: "sinv st \<Longrightarrow> fst (so_get ops kind tid u st) = Inr (Some item) \<Longrightarrow>
      known_status (dget item ''status'')"
    and list_keeps: "sinv st \<Longrightarrow> sinv (snd (so_list ops kind u limit st))"
    and list_known: "sinv st \<Longrightarrow> fst (so_list ops kind u limit st) = Inr items \<Longrightarrow>
      item \<in> set items \<Longrightarrow> known_status (dget item ''status'')"

section \<open>The facade provides it\<close>

definition facade_ops ::
  "(string \<Rightarrow> pyval \<Rightarrow> 's \<Rightarrow> bool \<times> 's)
     \<Rightarrow> (string \<Rightarrow> string \<Rightarrow> string option \<Rightarrow> 's \<Rightarrow> (storage_error + pydict option) \<times> 's)
     \<Rightarrow> (string \<Rightarrow> string option \<Rightarrow> int \<Rightarrow> 's \<Rightarrow> (storage_error + pydict list) \<times> 's)
     \<Rightarrow> fernet_lib \<Rightarrow> crypto_error + cipher \<Rightarrow> (string \<Rightarrow> string \<Rightarrow> nat) \<Rightarrow> 's store_ops" where
  "facade_ops upsert get lst lib c rnd =
     \<lparr>so_upsert = ts_upsert_task upsert lib c rnd,
      so_get = ts_get_task get lib c,
      so_list = ts_list_tasks lst lib c\<rparr>"

definition known_rows :: "string \<Rightarrow> ('s \<Rightarrow> string \<times> string \<rightharpoonup> string \<times> pydict) \<Rightarrow> 's \<Rightarrow> bool" where
  "known_rows kind stored s \<longleftrightarrow> (\<forall>tid owner d. stored s (kind, tid) = Some (owner, d) \<longrightarrow>
     known_status (PStr (status_of d)))"

lemma decrypt_dict_fields_other:
  "decrypt_dict_fields lib c fs d = Inr e \<Longrightarrow> k \<notin> set fs \<Longrightarrow> dget e k = dget d k"
  by (induction lib c fs d rule: decrypt_dict_fields.induct)
     (auto split: pyval.splits if_splits sum.splits crypto_error.splits)

lemma decrypt_sensitive_other:
  assumes "k \<notin> set SENSITIVE_FIELDS" and "k \<notin> set SENSITIVE_CONTAINERS"
  shows "dget (decrypt_sensitive lib c d) k = dget d k"
proof -
  have keep: "dget (decrypt_or_keep lib c d) k = dget d k" for d
    using assms(1) by (auto simp: decrypt_or_keep_def dest: decrypt_dict_fields_other split: sum.splits)
  show ?thesis
    using assms(2) by (auto simp: decrypt_sensitive_def SENSITIVE_CONTAINERS_def decrypt_container_def keep
        split: pyval.splits)
qed

lemma status_of_encrypt [simp]: "status_of (encrypt_sensitive lib c rnd d) = status_of d"
  by (simp add: status_of_def dget_encrypt_sensitive encrypt_or_drop_other SENSITIVE_FIELDS_def)

lemma known_status_of: "known_status (dget d ''status'') \<Longrightarrow> known_status (PStr (status_of d))"
  by (auto simp: known_status_def status_of_def or_else_def ACTIVE_TASK_STATUSES_def TERMINAL_TASK_STATUSES_def)

context task_store_protocol
begin

lemma facade_status_store:
  assumes "kind \<noteq> []"
  shows "status_store kind (facade_ops upsert get lst lib c rnd) (\<lambda>s. inv s \<and> known_rows kind stored s)"
proof
  fix st d assume st: "inv st \<and> known_rows kind stored st" and k: "known_status (dget d ''status'')"
  obtain b st' where up: "ts_upsert_task upsert lib c rnd kind (PDict d) st = (b, st')" by fastforce
  then have raw: "upsert kind (PDict (encrypt_sensitive lib c rnd d)) st = (b, st')"
    by (simp add: ts_upsert_task_def assms)
  have "inv st'" using upsert_inv [of st kind "PDict (encrypt_sensitive lib c rnd d)"] st raw by simp
  moreover have "known_rows kind stored st'"
  proof (cases b)
    case True
    with st raw have up': "upsert kind (PDict (encrypt_sensitive lib c rnd d)) st = (True, st')"
      by simp
    obtain e where "encrypt_sensitive lib c rnd d = e"
      "stored st' = (stored st)((kind, task_id_of e) \<mapsto> (user_id_of e, e))"
      using upsert_true [OF _ up'] st by auto
    then show ?thesis
      using st known_status_of [OF k] status_of_encrypt [of lib c rnd d] by (auto simp: known_rows_def)
  next
    case False
    with upsert_false [of st kind "PDict (encrypt_sensitive lib c rnd d)" st'] st raw show ?thesis
      by (simp add: known_rows_def)
  qed
  ultimately show "inv (snd (so_upsert (facade_ops upsert get lst lib c rnd) kind (PDict d) st))
      \<and> known_rows kind stored (snd (so_upsert (facade_ops upsert get lst lib c rnd) kind (PDict d) st))"
    using up by (simp add: facade_ops_def)
next
  fix st tid u assume st: "inv st \<and> known_rows kind stored st"
  then show "inv (snd (so_get (facade_ops upsert get lst lib c rnd) kind tid u st))
      \<and> known_rows kind stored (snd (so_get (facade_ops upsert get lst lib c rnd) kind tid u st))"
    using get_frame [of st kind tid u] by (simp add: facade_ops_def ts_get_task_def known_rows_def)
next
  fix st tid u item assume st: "inv st \<and> known_rows kind stored st"
    and g: "fst (so_get (facade_ops upsert get lst lib c rnd) kind tid u st) = Inr (Some item)"
  then obtain raw where raw: "fst (get kind tid u st) = Inr (Some raw)"
    "item = decrypt_sensitive lib c raw"
    by (cases "fst (get kind tid u st)") (auto simp: facade_ops_def ts_get_task_def)
  from get_sound [OF _ raw(1)] st obtain owner d where
    "stored st (kind, tid) = Some (owner, d)" "item_of owner d raw" by auto
  with st show "known_status (dget item ''status'')"
    by (auto simp: raw(2) decrypt_sensitive_other SENSITIVE_FIELDS_def SENSITIVE_CONTAINERS_def item_of_def
        known_rows_def)
next
  fix st u limit assume st: "inv st \<and> known_rows kind stored st"
  then show "inv (snd (so_list (facade_ops upsert get lst lib c rnd) kind u limit st))
      \<and> known_rows kind stored (snd (so_list (facade_ops upsert get lst lib c rnd) kind u limit st))"
    using list_frame [of st kind u limit]
    by (simp add: facade_ops_def ts_list_tasks_def known_rows_def)
next
  fix st u limit items item assume st: "inv st \<and> known_rows kind stored st"
    and g: "fst (so_list (facade_ops upsert get lst lib c rnd) kind u limit st) = Inr items"
    and i: "item \<in> set items"
  then obtain raws raw where raws: "fst (lst kind u limit st) = Inr raws" "raw \<in> set raws"
    "item = decrypt_sensitive lib c raw"
    by (cases "fst (lst kind u limit st)") (auto simp: facade_ops_def ts_list_tasks_def)
  from list_sound [OF _ raws(1,2)] st obtain tid owner d where
    "stored st (kind, tid) = Some (owner, d)" "item_of owner d raw" by auto
  with st show "known_status (dget item ''status'')"
    by (auto simp: raws(3) decrypt_sensitive_other SENSITIVE_FIELDS_def SENSITIVE_CONTAINERS_def item_of_def
        known_rows_def)
qed

end

end
