(* ===== verification/Learning_State.thy ===== *)
theory Learning_State
  imports Status_Store
begin

text \<open>
  The state of \<open>ChaoxingLearningManager\<close> (\<open>backend/app/services/course/chaoxing/learning_manager.py\<close>)
  and the primitive operations that change one task: status updates, progress, logs, failures,
  and the snapshot each of them hands to the task store.

  A task is a dictionary in the code. Its public part (the keys that do not start with an
  underscore) is \<open>pub\<close>; the private keys are fields: the two events, the log cursor, the time
  of the last throttled write and the revision last reserved with the persist sequencer. Within
  one critical section the clock is read once. A persist request is carried out when its
  critical section ends; that concurrent requests of one task cannot overtake each other is
  the subject of the theory \<open>Persist_Sequencer\<close>.
\<close>

record lm_clock =
  clk_time :: int
  clk_mono :: int
  clk_iso :: string

record lm_task =
  pub :: pydict
  log_cursor :: int
  pause_set :: bool
  stop_set :: bool
  last_progress_ts :: int
  seq_reserved :: "nat option"

record 's lm_state =
  lm_tasks :: "(string \<times> lm_task) list"
  loaded_users :: "string list"
  lm_store :: 's

definition LEARNING_TASK_KIND :: string where
  "LEARNING_TASK_KIND = ''chaoxing_learning''"

definition INTERRUPTED_STATUSES :: "string list" where
  "INTERRUPTED_STATUSES = [''running'', ''pending'', ''paused'', ''cancelling'', ''stopping'']"

definition FINISHED_STATUSES :: "string list" where
  "FINISHED_STATUSES = [''completed'', ''failed'', ''error'', ''cancelled'']"

definition USER_TASK_LOAD_LIMIT :: int where
  "USER_TASK_LOAD_LIMIT = 2000"

definition PROGRESS_PERSIST_INTERVAL :: int where
  "PROGRESS_PERSIST_INTERVAL = 5 * us_per_second"

definition MAX_TASK_LOGS :: nat where
  "MAX_TASK_LOGS = 1000"

definition MAX_TASK_FAILURES :: nat where
  "MAX_TASK_FAILURES = 50"

definition RESTART_INTERRUPTED_MESSAGE :: string where
  "RESTART_INTERRUPTED_MESSAGE = ''Task interrupted due to service restart''"

definition THREAD_START_FAILURE_MESSAGE :: string where
  "THREAD_START_FAILURE_MESSAGE = ''Server cannot start a new background thread. Stop existing tasks and retry, or restart the service if the problem persists.''"

definition TASK_PERSIST_FAILURE_MESSAGE :: string where
  "TASK_PERSIST_FAILURE_MESSAGE = ''Failed to persist learning task state''"

definition UNEXPECTED_WORKER_ERROR_PREFIX :: string where
  "UNEXPECTED_WORKER_ERROR_PREFIX = ''Unexpected task failure''"

section \<open>Snapshots and persistence\<close>

definition lm_cleanup ::
  "dt_text \<Rightarrow> lm_clock \<Rightarrow> (string \<times> lm_task) list \<Rightarrow> (string \<times> lm_task) list" where
  "lm_cleanup dt clk tasks =
     cleanup_task_records dt pub (clk_time clk) TASK_RECORD_TTL_SECONDS MAX_TASK_RECORDS tasks"

definition default_progress :: pydict where
  "default_progress =
     [(''total'', PInt 0), (''completed'', PInt 0), (''failed'', PInt 0), (''current'', PInt 0),
      (''total_chapters'', PInt 0), (''completed_chapters'', PInt 0), (''current_course'', PStr []),
      (''current_chapter'', PStr []), (''video_progress'', PNone)]"

text \<open>
  \<open>_prepare_persist_locked\<close>: the snapshot to write, or nothing where a throttled write comes too
  soon. Reserving a revision with the task's sequencer (created on first use) orders the writes.
\<close>

definition prepare_persist_locked :: "bool \<Rightarrow> lm_clock \<Rightarrow> lm_task \<Rightarrow> pydict option \<times> lm_task" where
  "prepare_persist_locked force clk task =
     (if \<not> force \<and> clk_mono clk - last_progress_ts task < PROGRESS_PERSIST_INTERVAL then (None, task)
      else (let task1 = (if force then task else task\<lparr>last_progress_ts := clk_mono clk\<rparr>)
            in (Some (pub task1),
                task1\<lparr>seq_reserved := Some (Suc (case seq_reserved task1 of None \<Rightarrow> 0 | Some n \<Rightarrow> n))\<rparr>)))"

definition persist_task_state :: "'s store_ops \<Rightarrow> pydict \<Rightarrow> 's \<Rightarrow> bool \<times> 's" where
  "persist_task_state ops snapshot st = so_upsert ops LEARNING_TASK_KIND (PDict snapshot) st"

text \<open>\<open>if persist_request: self._persist_task_state(...)\<close>\<close>

definition persist_request :: "'s store_ops \<Rightarrow> pydict option \<Rightarrow> 's \<Rightarrow> 's" where
  "persist_request ops req st =
     (case req of None \<Rightarrow> st | Some snapshot \<Rightarrow> snd (persist_task_state ops snapshot st))"

text \<open>
  The shape all primitive updates share: find the task (a missing one is left alone), change it
  under the lock, prepare a snapshot, write it after the lock is released.
\<close>

definition modify_task ::
  "'s store_ops \<Rightarrow> lm_clock \<Rightarrow> bool \<Rightarrow> string \<Rightarrow> (lm_task \<Rightarrow> lm_task) \<Rightarrow> 's lm_state \<Rightarrow> 's lm_state" where
  "modify_task ops clk force task_id change m =
     (case map_of (lm_tasks m) task_id of
        None \<Rightarrow> m
      | Some task \<Rightarrow>
          (let (req, task1) = prepare_persist_locked force clk (change task)
           in m\<lparr>lm_tasks := dset task_id task1 (lm_tasks m),
                lm_store := persist_request ops req (lm_store m)\<rparr>))"

definition touch :: "lm_clock \<Rightarrow> pydict \<Rightarrow> pydict" where
  "touch clk d = dset ''updated_at'' (PStr (clk_iso clk)) d"

section \<open>The primitive operations\<close>

text \<open>\<open>_update_task\<close>: nothing happens, not even a write, if no field changes\<close>

definition no_change :: "pydict \<Rightarrow> pydict \<Rightarrow> bool" where
  "no_change d changes = list_all (\<lambda>(key, value). dget d key = value) changes"

definition update_task ::
  "'s store_ops \<Rightarrow> lm_clock \<Rightarrow> string \<Rightarrow> pydict \<Rightarrow> 's lm_state \<Rightarrow> 's lm_state" where
  "update_task ops clk task_id changes m =
     (case map_of (lm_tasks m) task_id of
        None \<Rightarrow> m
      | Some task \<Rightarrow>
          (if no_change (pub task) changes then m
           else modify_task ops clk True task_id
                  (\<lambda>t. t\<lparr>pub := touch clk (dupdate (pub t) changes)\<rparr>) m))"

text \<open>
  The fields \<open>logs\<close>, \<open>failures\<close> and \<open>progress\<close> of a task in memory are lists and a dictionary, and
  progress counters are integers: \<open>start_task\<close> creates them so and the merge from the store
  repairs what it reads. A missing field reads as empty.
\<close>

definition as_list :: "pyval \<Rightarrow> pyval list" where
  "as_list v = (case v of PList xs \<Rightarrow> xs | _ \<Rightarrow> [])"

definition as_dict :: "pyval \<Rightarrow> pydict" where
  "as_dict v = (case v of PDict d \<Rightarrow> d | _ \<Rightarrow> [])"

definition log_entry :: "lm_clock \<Rightarrow> string \<Rightarrow> string \<Rightarrow> pyval" where
  "log_entry clk message level =
     PDict [(''timestamp'', PStr (clk_iso clk)), (''message'', PStr message), (''level'', PStr level)]"

text \<open>\<open>task["logs"].append(entry)\<close>, and only the last 1000 entries are kept\<close>

definition add_log :: "pyval \<Rightarrow> pydict \<Rightarrow> pydict" where
  "add_log entry d =
     (let logs = as_list (dget d ''logs'') @ [entry];
          logs = (if MAX_TASK_LOGS < length logs then last_n MAX_TASK_LOGS logs else logs)
      in dset ''logs'' (PList logs) d)"

definition append_task_log ::
  "'s store_ops \<Rightarrow> lm_clock \<Rightarrow> string \<Rightarrow> string \<Rightarrow> string \<Rightarrow> 's lm_state \<Rightarrow> 's lm_state" where
  "append_task_log ops clk task_id message level m =
     modify_task ops clk True task_id
       (\<lambda>t. t\<lparr>pub := touch clk (add_log (log_entry clk message level) (pub t))\<rparr>) m"

definition update_progress ::
  "'s store_ops \<Rightarrow> lm_clock \<Rightarrow> string \<Rightarrow> pydict \<Rightarrow> 's lm_state \<Rightarrow> 's lm_state" where
  "update_progress ops clk task_id updates m =
     modify_task ops clk False task_id
       (\<lambda>t. t\<lparr>pub := touch clk (dset ''progress''
            (PDict (dupdate (as_dict (dget (pub t) ''progress'')) updates)) (pub t))\<rparr>) m"

definition as_count :: "pyval \<Rightarrow> int" where
  "as_count v = (case v of PInt i \<Rightarrow> i | PBool b \<Rightarrow> (if b then 1 else 0) | _ \<Rightarrow> 0)"

definition increase_progress ::
  "'s store_ops \<Rightarrow> lm_clock \<Rightarrow> string \<Rightarrow> string \<Rightarrow> int \<Rightarrow> 's lm_state \<Rightarrow> 's lm_state" where
  "increase_progress ops clk task_id key delta m =
     modify_task ops clk False task_id
       (\<lambda>t. let progress = as_dict (dget (pub t) ''progress'')
            in t\<lparr>pub := touch clk (dset ''progress''
                 (PDict (dset key (PInt (as_count (dget progress key) + delta)) progress)) (pub t))\<rparr>) m"

definition record_failure ::
  "'s store_ops \<Rightarrow> lm_clock \<Rightarrow> string \<Rightarrow> pydict \<Rightarrow> 's lm_state \<Rightarrow> 's lm_state" where
  "record_failure ops clk task_id failure m =
     modify_task ops clk True task_id
       (\<lambda>t. t\<lparr>pub := touch clk (dset ''failures''
            (PList (last_n MAX_TASK_FAILURES
               (as_list (dget (pub t) ''failures'') @
                 [PDict (dset ''timestamp'' (PStr (clk_iso clk)) failure)]))) (pub t))\<rparr>) m"

definition cancel_task ::
  "'s store_ops \<Rightarrow> lm_clock \<Rightarrow> string \<Rightarrow> string \<Rightarrow> 's lm_state \<Rightarrow> 's lm_state" where
  "cancel_task ops clk task_id message m =
     append_task_log ops clk task_id message ''warning''
       (update_task ops clk task_id
          [(''status'', PStr ''cancelled''), (''message'', PStr message), (''current_task'', PStr ''cancelled'')] m)"

definition fail_task ::
  "'s store_ops \<Rightarrow> lm_clock \<Rightarrow> string \<Rightarrow> string \<Rightarrow> 's lm_state \<Rightarrow> 's lm_state" where
  "fail_task ops clk task_id message m =
     append_task_log ops clk task_id message ''error''
       (update_task ops clk task_id
          [(''status'', PStr ''failed''), (''message'', PStr message), (''current_task'', PStr ''failed'')] m)"

definition record_admission_persist_failure ::
  "'s store_ops \<Rightarrow> lm_clock \<Rightarrow> string \<Rightarrow> 's lm_state \<Rightarrow> 's lm_state" where
  "record_admission_persist_failure ops clk task_id m =
     modify_task ops clk True task_id
       (\<lambda>t. t\<lparr>pub := add_log (log_entry clk TASK_PERSIST_FAILURE_MESSAGE ''error'')
            (touch clk (dupdate (pub t)
               [(''status'', PStr ''failed''), (''message'', PStr TASK_PERSIST_FAILURE_MESSAGE),
                (''current_task'', PStr ''failed'')]))\<rparr>) m"

section \<open>What a primitive operation does to the registry\<close>

definition status_of_task :: "lm_task \<Rightarrow> pyval" where
  "status_of_task t = dget (pub t) ''status''"

definition owner_of_task :: "lm_task \<Rightarrow> pyval" where
  "owner_of_task t = dget (pub t) ''user_id''"

lemma prepare_persist_pub [simp]: "pub (snd (prepare_persist_locked force clk t)) = pub t"
  by (simp add: prepare_persist_locked_def Let_def)

lemma prepare_persist_events [simp]:
  "stop_set (snd (prepare_persist_locked force clk t)) = stop_set t"
  "pause_set (snd (prepare_persist_locked force clk t)) = pause_set t"
  "log_cursor (snd (prepare_persist_locked force clk t)) = log_cursor t"
  by (simp_all add: prepare_persist_locked_def Let_def)

lemma prepare_persist_snapshot: "fst (prepare_persist_locked force clk t) = Some snap \<Longrightarrow> snap = pub t"
  by (auto simp: prepare_persist_locked_def Let_def split: if_splits)

text \<open>
  A task map sends tasks to tasks under the same ids; a primitive operation is one that changes
  at most the addressed task, by a change that keeps its events.
\<close>

lemma modify_task_other:
  "k \<noteq> task_id \<Longrightarrow> map_of (lm_tasks (modify_task ops clk force task_id f m)) k = map_of (lm_tasks m) k"
  by (simp add: modify_task_def case_prod_beta Let_def split: option.splits)

lemma modify_task_same:
  "map_of (lm_tasks (modify_task ops clk force task_id f m)) task_id =
     map_option (\<lambda>t. snd (prepare_persist_locked force clk (f t))) (map_of (lm_tasks m) task_id)"
  by (simp add: modify_task_def case_prod_beta Let_def split: option.splits)

lemma modify_task_wf [simp, intro]:
  "wf_dict (lm_tasks m) \<Longrightarrow> wf_dict (lm_tasks (modify_task ops clk force task_id f m))"
  by (auto simp: modify_task_def case_prod_beta Let_def split: option.splits)

lemma modify_task_loaded [simp]: "loaded_users (modify_task ops clk force task_id f m) = loaded_users m"
  by (simp add: modify_task_def case_prod_beta Let_def split: option.splits)

lemma keys_dset_present: "map_of d k = Some v \<Longrightarrow> map fst (dset k w d) = map fst d"
  by (induction d) auto

lemma modify_task_keys: "map fst (lm_tasks (modify_task ops clk force task_id f m)) = map fst (lm_tasks m)"
  by (simp add: modify_task_def case_prod_beta Let_def keys_dset_present split: option.splits)

lemma dget_touch [simp]: "k \<noteq> ''updated_at'' \<Longrightarrow> dget (touch clk d) k = dget d k"
  by (simp add: touch_def)

lemma dget_add_log [simp]: "k \<noteq> ''logs'' \<Longrightarrow> dget (add_log e d) k = dget d k"
  by (simp add: add_log_def Let_def)

lemma length_add_log: "length (as_list (dget (add_log e d) ''logs'')) \<le> MAX_TASK_LOGS"
  by (simp add: add_log_def as_list_def Let_def min_def)

lemma last_add_log: "last (as_list (dget (add_log e d) ''logs'')) = e"
  by (simp add: add_log_def as_list_def Let_def last_n_snoc MAX_TASK_LOGS_def)

lemma wf_touch [simp, intro]: "wf_dict d \<Longrightarrow> wf_dict (touch clk d)"
  by (simp add: touch_def)

lemma wf_add_log [simp, intro]: "wf_dict d \<Longrightarrow> wf_dict (add_log e d)"
  by (simp add: add_log_def Let_def)

text \<open>Status and owner of a task after each primitive operation\<close>

definition task_field :: "'s lm_state \<Rightarrow> string \<Rightarrow> string \<Rightarrow> pyval option" where
  "task_field m task_id key = map_option (\<lambda>t. dget (pub t) key) (map_of (lm_tasks m) task_id)"

lemma task_field_modify:
  "task_field (modify_task ops clk force task_id f m) k key =
     (if k = task_id then map_option (\<lambda>t. dget (pub (f t)) key) (map_of (lm_tasks m) k)
      else task_field m k key)"
  by (simp add: task_field_def modify_task_same modify_task_other option.map_comp comp_def)

lemma task_field_append_log:
  "key \<notin> {''logs'', ''updated_at''} \<Longrightarrow>
     task_field (append_task_log ops clk task_id msg lvl m) k key = task_field m k key"
  by (simp add: append_task_log_def task_field_modify) (simp add: task_field_def)

lemma task_field_update_progress:
  "key \<notin> {''progress'', ''updated_at''} \<Longrightarrow>
     task_field (update_progress ops clk task_id u m) k key = task_field m k key"
  by (simp add: update_progress_def task_field_modify) (simp add: task_field_def)

lemma task_field_increase_progress:
  "key \<notin> {''progress'', ''updated_at''} \<Longrightarrow>
     task_field (increase_progress ops clk task_id pk d m) k key = task_field m k key"
  by (simp add: increase_progress_def task_field_modify Let_def) (simp add: task_field_def)

lemma task_field_record_failure:
  "key \<notin> {''failures'', ''updated_at''} \<Longrightarrow>
     task_field (record_failure ops clk task_id f m) k key = task_field m k key"
  by (simp add: record_failure_def task_field_modify) (simp add: task_field_def)

lemma dget_dupdate_notin: "key \<notin> fst ` set ch \<Longrightarrow> dget (dupdate d ch) key = dget d key"
  by (induction ch arbitrary: d) auto

lemma dget_dupdate_in:
  "wf_dict ch \<Longrightarrow> (key, v) \<in> set ch \<Longrightarrow> dget (dupdate d ch) key = v"
  by (simp add: dget_def map_of_dupdate map_of_is_SomeI [of ch key v])

lemma no_change_dget: "no_change d ch \<Longrightarrow> (key, v) \<in> set ch \<Longrightarrow> dget d key = v"
  by (auto simp: no_change_def list_all_iff)

text \<open>
  After \<open>_update_task\<close> a present task has every field of the change, whether or not anything had
  to be written; all other fields but \<open>updated_at\<close> are as before.
\<close>

lemma task_field_update_task_set:
  assumes "wf_dict changes" and "(key, v) \<in> set changes" and "key \<noteq> ''updated_at''"
    and "map_of (lm_tasks m) task_id \<noteq> None"
  shows "task_field (update_task ops clk task_id changes m) task_id key = Some v"
  using assms
  by (auto simp: update_task_def task_field_modify dget_dupdate_in task_field_def [of m]
      dest: no_change_dget)

lemma task_field_update_task_other:
  "k \<noteq> task_id \<or> key \<notin> fst ` set changes \<and> key \<noteq> ''updated_at'' \<Longrightarrow>
     task_field (update_task ops clk task_id changes m) k key = task_field m k key"
  by (auto simp: update_task_def task_field_modify dget_dupdate_notin task_field_def [of m]
      split: option.splits)

end
