(* ===== verification/Learning_Manager.thy ===== *)
theory Learning_Manager
  imports Learning_State
begin

text \<open>
  The operations of \<open>ChaoxingLearningManager\<close> that its callers use: admission of a task
  (\<open>start_task\<close>), the controls (\<open>pause_task\<close>, \<open>resume_task\<close>, \<open>stop_task\<close>), the queries
  (\<open>get_task\<close>, \<open>list_tasks\<close>, \<open>get_task_logs\<close>) and the loading of stored tasks, with the
  invariant of the registry: at most one active task per user, and at most \<open>MAX_ACTIVE_TASKS\<close>
  in all.
\<close>

section \<open>Loading stored tasks\<close>

definition iso_val :: "lm_clock \<Rightarrow> pyval" where
  "iso_val clk = PStr (clk_iso clk)"

definition or_value :: "pyval \<Rightarrow> pyval \<Rightarrow> pyval" where
  "or_value v w = (if truthy v then v else w)"

definition is_interrupted :: "pydict \<Rightarrow> bool" where
  "is_interrupted d = (py_lower (str_or_empty (dget d ''status'')) \<in> set INTERRUPTED_STATUSES)"

text \<open>The public dictionary \<open>_merge_task_from_store\<close> builds from a stored item\<close>

definition merged_item :: "lm_clock \<Rightarrow> pydict \<Rightarrow> pydict" where
  "merged_item clk item =
     (let progress = dupdate default_progress (as_dict (dget item ''progress''));
          d = dset ''progress'' (PDict progress) item;
          d = dsetdefault ''platform'' (PStr ''chaoxing'') d;
          d = dsetdefault ''created_at'' (or_value (dget d ''started_at'') (iso_val clk)) d;
          d = dsetdefault ''started_at'' (or_value (dget d ''created_at'') (iso_val clk)) d;
          d = dsetdefault ''updated_at'' (or_value (dget d ''started_at'') (iso_val clk)) d;
          d = dset ''logs'' (PList (as_list (dget d ''logs''))) d
      in if is_interrupted d
         then add_log (log_entry clk RESTART_INTERRUPTED_MESSAGE ''warning'')
                (touch clk (dset ''current_task'' (PStr ''failed'')
                  (dset ''message'' (PStr RESTART_INTERRUPTED_MESSAGE)
                    (dset ''status'' (PStr ''failed'') d))))
         else d)"

definition merged_task :: "lm_clock \<Rightarrow> pydict \<Rightarrow> lm_task" where
  "merged_task clk item =
     \<lparr>pub = merged_item clk item, log_cursor = 0, pause_set = True, stop_set = False,
      last_progress_ts = 0, seq_reserved = None\<rparr>"

definition merge_task_from_store ::
  "'s store_ops \<Rightarrow> lm_clock \<Rightarrow> pydict \<Rightarrow> 's lm_state \<Rightarrow> bool \<times> 's lm_state" where
  "merge_task_from_store ops clk item m =
     (let task_id = py_strip (str_or_empty (dget item ''task_id''));
          user_id = py_strip (str_or_empty (dget item ''user_id''))
      in if task_id = [] \<or> user_id = [] then (False, m)
         else if map_of (lm_tasks m) task_id \<noteq> None then (False, m)
         else (let m1 = m\<lparr>lm_tasks := dset task_id (merged_task clk item) (lm_tasks m)\<rparr>
               in (True, if is_interrupted item then modify_task ops clk True task_id id m1 else m1)))"

definition load_task_from_store ::
  "'s store_ops \<Rightarrow> lm_clock \<Rightarrow> string \<Rightarrow> string \<Rightarrow> 's lm_state \<Rightarrow> 's lm_state" where
  "load_task_from_store ops clk user_id task_id m =
     (let nu = py_strip user_id; nt = py_strip task_id
      in if nu = [] \<or> nt = [] then m
         else (let (r, st) = so_get ops LEARNING_TASK_KIND nt (Some nu) (lm_store m);
                   m1 = m\<lparr>lm_store := st\<rparr>
               in (case r of
                     Inr (Some item) \<Rightarrow> if item = [] then m1 else snd (merge_task_from_store ops clk item m1)
                   | _ \<Rightarrow> m1)))"

definition merge_all :: "'s store_ops \<Rightarrow> lm_clock \<Rightarrow> storage_error + pydict list \<Rightarrow> 's lm_state \<Rightarrow> 's lm_state"
  where
  "merge_all ops clk r m =
     fold (\<lambda>item acc. snd (merge_task_from_store ops clk item acc))
       (case r of Inl _ \<Rightarrow> [] | Inr items \<Rightarrow> items) m"

definition load_tasks_from_store_for_user ::
  "'s store_ops \<Rightarrow> dt_text \<Rightarrow> lm_clock \<Rightarrow> string \<Rightarrow> 's lm_state \<Rightarrow> 's lm_state" where
  "load_tasks_from_store_for_user ops dt clk user_id m =
     (let nu = py_strip user_id
      in if nu = [] then m
         else (let (r, st) = so_list ops LEARNING_TASK_KIND (Some nu) USER_TASK_LOAD_LIMIT (lm_store m);
                   m1 = merge_all ops clk r (m\<lparr>lm_store := st\<rparr>)
               in m1\<lparr>lm_tasks := lm_cleanup dt clk (lm_tasks m1),
                     loaded_users := List.insert nu (loaded_users m1)\<rparr>))"

definition ensure_tasks_loaded_for_user ::
  "'s store_ops \<Rightarrow> dt_text \<Rightarrow> lm_clock \<Rightarrow> string \<Rightarrow> 's lm_state \<Rightarrow> 's lm_state" where
  "ensure_tasks_loaded_for_user ops dt clk user_id m =
     (let nu = py_strip user_id
      in if nu = [] then m
         else if nu \<in> set (loaded_users m) then m
         else load_tasks_from_store_for_user ops dt clk nu m)"

definition restore_tasks_from_store ::
  "'s store_ops \<Rightarrow> dt_text \<Rightarrow> lm_clock \<Rightarrow> 's lm_state \<Rightarrow> 's lm_state" where
  "restore_tasks_from_store ops dt clk m =
     (let (r, st) = so_list ops LEARNING_TASK_KIND None 300 (lm_store m);
          m1 = merge_all ops clk r (m\<lparr>lm_store := st\<rparr>)
      in m1\<lparr>lm_tasks := lm_cleanup dt clk (lm_tasks m1)\<rparr>)"

definition new_learning_manager :: "'s store_ops \<Rightarrow> dt_text \<Rightarrow> lm_clock \<Rightarrow> 's \<Rightarrow> 's lm_state" where
  "new_learning_manager ops dt clk st =
     restore_tasks_from_store ops dt clk \<lparr>lm_tasks = [], loaded_users = [], lm_store = st\<rparr>"

section \<open>Admission\<close>

datatype start_error =
    TikuConfigRejected
  | AdmissionRejected admission_error
  | TaskPersistFailure
  | ThreadStartFailure

definition new_task :: "lm_clock \<Rightarrow> string \<Rightarrow> string \<Rightarrow> lm_task" where
  "new_task clk task_id user_id =
     \<lparr>pub = [(''task_id'', PStr task_id), (''user_id'', PStr user_id), (''platform'', PStr ''chaoxing''),
             (''status'', PStr ''pending''), (''message'', PStr ''Task created''),
             (''current_task'', PStr ''preparing''), (''progress'', PDict default_progress),
             (''created_at'', iso_val clk), (''started_at'', iso_val clk), (''updated_at'', iso_val clk),
             (''logs'', PList [])],
      log_cursor = 0, pause_set = True, stop_set = False, last_progress_ts = 0, seq_reserved = None\<rparr>"

definition owns_active :: "string \<Rightarrow> lm_task \<Rightarrow> bool" where
  "owns_active nu t \<longleftrightarrow> py_strip (str_or_empty (owner_of_task t)) = nu \<and> is_active_status (status_of_task t)"

text \<open>
  The critical section of \<open>start_task\<close>: admit the task and prepare its first snapshot. \<open>fresh\<close> is
  the new \<open>uuid4\<close>.
\<close>

definition admit_task ::
  "dt_text \<Rightarrow> lm_clock \<Rightarrow> string \<Rightarrow> string \<Rightarrow> 's lm_state
     \<Rightarrow> (admission_error + pydict option) \<times> 's lm_state" where
  "admit_task dt clk fresh user_id m =
     (let nu = py_strip user_id;
          tasks = lm_cleanup dt clk (lm_tasks m);
          m0 = m\<lparr>lm_tasks := tasks\<rparr>
      in if list_ex (\<lambda>p. owns_active nu (snd p)) tasks then (Inl TaskAlreadyActiveError, m0)
         else if MAX_ACTIVE_TASKS \<le> count_active_tasks pub tasks then (Inl TaskCapacityError, m0)
         else (let (req, task) = prepare_persist_locked True clk (new_task clk fresh user_id)
               in (Inr req, m\<lparr>lm_tasks := lm_cleanup dt clk (dset fresh task tasks)\<rparr>)))"

text \<open>\<open>if persist_request: persisted = self._persist_task_state(...)\<close>\<close>

definition persist_first :: "'s store_ops \<Rightarrow> pydict option \<Rightarrow> 's \<Rightarrow> bool \<times> 's" where
  "persist_first ops req st =
     (case req of None \<Rightarrow> (True, st) | Some snapshot \<Rightarrow> persist_task_state ops snapshot st)"

text \<open>
  \<open>start_task\<close>. \<open>tiku_ok\<close> says whether the answer-provider configuration is accepted and
  \<open>thread_ok\<close> whether the worker thread could be started.
\<close>

definition start_task ::
  "'s store_ops \<Rightarrow> dt_text \<Rightarrow> lm_clock \<Rightarrow> bool \<Rightarrow> bool \<Rightarrow> string \<Rightarrow> string \<Rightarrow> 's lm_state
     \<Rightarrow> (start_error + string) \<times> 's lm_state" where
  "start_task ops dt clk tiku_ok thread_ok fresh user_id m =
     (if \<not> tiku_ok then (Inl TikuConfigRejected, m)
      else (case admit_task dt clk fresh user_id m of
              (Inl e, m1) \<Rightarrow> (Inl (AdmissionRejected e), m1)
            | (Inr req, m1) \<Rightarrow>
                (let (persisted, st) = persist_first ops req (lm_store m1);
                     m2 = m1\<lparr>lm_store := st\<rparr>
                 in if \<not> persisted
                    then (Inl TaskPersistFailure, record_admission_persist_failure ops clk fresh m2)
                    else if \<not> thread_ok
                    then (Inl ThreadStartFailure, fail_task ops clk fresh THREAD_START_FAILURE_MESSAGE m2)
                    else (Inr fresh, m2))))"

section \<open>Controls\<close>

definition owned_task :: "string \<Rightarrow> string \<Rightarrow> 's lm_state \<Rightarrow> lm_task option" where
  "owned_task nu nt m =
     (case map_of (lm_tasks m) nt of
        None \<Rightarrow> None
      | Some t \<Rightarrow> if py_str (owner_of_task t) = nu then Some t else None)"

definition load_unless_owned ::
  "'s store_ops \<Rightarrow> lm_clock \<Rightarrow> string \<Rightarrow> string \<Rightarrow> 's lm_state \<Rightarrow> 's lm_state" where
  "load_unless_owned ops clk nu nt m =
     (if owned_task nu nt m = None then load_task_from_store ops clk nu nt m else m)"

definition is_finished :: "lm_task \<Rightarrow> bool" where
  "is_finished t = (status_of_task t \<in> PStr ` set FINISHED_STATUSES)"

definition put_task :: "string \<Rightarrow> lm_task \<Rightarrow> 's lm_state \<Rightarrow> 's lm_state" where
  "put_task nt t m = m\<lparr>lm_tasks := dset nt t (lm_tasks m)\<rparr>"

type_synonym control_reply = "pyval \<times> string"

definition not_found :: control_reply where
  "not_found = (PStr ''error'', ''Task not found'')"

text \<open>
  Each control looks the task up (loading it if need be), changes it in one critical section,
  and logs the change in another; the boolean says whether there is a change to log.
\<close>

definition pause_locked :: "lm_clock \<Rightarrow> string \<Rightarrow> string \<Rightarrow> 's lm_state \<Rightarrow> (control_reply \<times> bool) \<times> 's lm_state" where
  "pause_locked clk nu nt m =
     (case owned_task nu nt m of
        None \<Rightarrow> ((not_found, False), m)
      | Some t \<Rightarrow>
          (if is_finished t then (((status_of_task t, ''Task already finished''), False), m)
           else (((PStr ''paused'', ''Task paused''), True),
                 put_task nt
                   (t\<lparr>pause_set := False,
                      pub := touch clk (dset ''message'' (PStr ''Task paused'')
                               (dset ''status'' (PStr ''paused'') (pub t)))\<rparr>) m)))"

definition pause_task ::
  "'s store_ops \<Rightarrow> lm_clock \<Rightarrow> string \<Rightarrow> string \<Rightarrow> 's lm_state \<Rightarrow> control_reply \<times> 's lm_state" where
  "pause_task ops clk user_id task_id m =
     (let nu = py_strip user_id; nt = py_strip task_id;
          ((reply, changed), m1) = pause_locked clk nu nt (load_unless_owned ops clk nu nt m)
      in (reply, if changed then append_task_log ops clk task_id ''Task paused'' ''warning'' m1 else m1))"

definition resume_locked :: "lm_clock \<Rightarrow> string \<Rightarrow> string \<Rightarrow> 's lm_state \<Rightarrow> (control_reply \<times> bool) \<times> 's lm_state" where
  "resume_locked clk nu nt m =
     (case owned_task nu nt m of
        None \<Rightarrow> ((not_found, False), m)
      | Some t \<Rightarrow>
          (if is_finished t then (((status_of_task t, ''Task already finished''), False), m)
           else (((PStr ''running'', ''Task resumed''), True),
                 put_task nt
                   (t\<lparr>pause_set := True,
                      pub := touch clk (dset ''message'' (PStr ''Task resumed'')
                               (dset ''status'' (PStr ''running'') (pub t)))\<rparr>) m)))"

definition resume_task ::
  "'s store_ops \<Rightarrow> lm_clock \<Rightarrow> string \<Rightarrow> string \<Rightarrow> 's lm_state \<Rightarrow> control_reply \<times> 's lm_state" where
  "resume_task ops clk user_id task_id m =
     (let nu = py_strip user_id; nt = py_strip task_id;
          ((reply, changed), m1) = resume_locked clk nu nt (load_unless_owned ops clk nu nt m)
      in (reply, if changed then append_task_log ops clk task_id ''Task resumed'' ''info'' m1 else m1))"

definition stop_locked :: "lm_clock \<Rightarrow> string \<Rightarrow> string \<Rightarrow> 's lm_state \<Rightarrow> (control_reply \<times> bool) \<times> 's lm_state" where
  "stop_locked clk nu nt m =
     (case owned_task nu nt m of
        None \<Rightarrow> ((not_found, False), m)
      | Some t \<Rightarrow>
          (let d = (if is_finished t then pub t
                    else dset ''message'' (PStr ''Task cancellation requested'')
                           (dset ''status'' (PStr ''cancelling'') (pub t)))
           in (((PStr ''cancelling'', ''Task cancellation requested''), True),
               put_task nt (t\<lparr>stop_set := True, pause_set := True, pub := touch clk d\<rparr>) m)))"

definition stop_task ::
  "'s store_ops \<Rightarrow> lm_clock \<Rightarrow> string \<Rightarrow> string \<Rightarrow> 's lm_state \<Rightarrow> control_reply \<times> 's lm_state" where
  "stop_task ops clk user_id task_id m =
     (let nu = py_strip user_id; nt = py_strip task_id;
          ((reply, changed), m1) = stop_locked clk nu nt (load_unless_owned ops clk nu nt m)
      in (reply, if changed
                 then append_task_log ops clk task_id ''Task cancellation requested'' ''warning'' m1 else m1))"

section \<open>Queries\<close>

definition get_task ::
  "'s store_ops \<Rightarrow> dt_text \<Rightarrow> lm_clock \<Rightarrow> string \<Rightarrow> string \<Rightarrow> 's lm_state \<Rightarrow> pydict option \<times> 's lm_state" where
  "get_task ops dt clk user_id task_id m =
     (let nu = py_strip user_id; nt = py_strip task_id;
          m1 = load_unless_owned ops clk nu nt (m\<lparr>lm_tasks := lm_cleanup dt clk (lm_tasks m)\<rparr>)
      in (map_option pub (owned_task nu nt m1), m1))"

definition list_entry :: "pydict \<Rightarrow> pydict" where
  "list_entry d =
     (let p = dpop ''user_id'' d;
          started_at = or_value (dget p ''started_at'') (or_value (dget p ''start_time'') (dget p ''created_at''));
          p = (if truthy started_at then dset ''started_at'' started_at p else p)
      in if \<not> truthy (dget p ''updated_at'') \<and> truthy started_at
         then dset ''updated_at'' started_at p else p)"

definition list_tasks ::
  "'s store_ops \<Rightarrow> dt_text \<Rightarrow> lm_clock \<Rightarrow> string \<Rightarrow> 's lm_state \<Rightarrow> pydict list \<times> 's lm_state" where
  "list_tasks ops dt clk user_id m =
     (let m1 = ensure_tasks_loaded_for_user ops dt clk user_id m;
          tasks = lm_cleanup dt clk (lm_tasks m1)
      in (sort_task_records dt
            (map (\<lambda>p. list_entry (pub (snd p)))
              (filter (\<lambda>p. py_str (owner_of_task (snd p)) = user_id) tasks)),
          m1\<lparr>lm_tasks := tasks\<rparr>))"

text \<open>\<open>xs[i:]\<close>\<close>

definition slice_from :: "int \<Rightarrow> 'a list \<Rightarrow> 'a list" where
  "slice_from i xs = drop (nat (if i < 0 then int (length xs) + i else i)) xs"

definition read_logs :: "int option \<Rightarrow> lm_task \<Rightarrow> (pyval list \<times> int) \<times> lm_task" where
  "read_logs cursor t =
     (let logs = as_list (dget (pub t) ''logs'');
          start = (case cursor of Some c \<Rightarrow> c | None \<Rightarrow> log_cursor t);
          next_cursor = int (length logs)
      in ((slice_from start logs, next_cursor),
          if cursor = None then t\<lparr>log_cursor := next_cursor\<rparr> else t))"

definition get_task_logs ::
  "'s store_ops \<Rightarrow> dt_text \<Rightarrow> lm_clock \<Rightarrow> string \<Rightarrow> string \<Rightarrow> int option \<Rightarrow> 's lm_state
     \<Rightarrow> (pyval list \<times> int) option \<times> 's lm_state" where
  "get_task_logs ops dt clk user_id task_id cursor m =
     (let nu = py_strip user_id; nt = py_strip task_id;
          m0 = m\<lparr>lm_tasks := lm_cleanup dt clk (lm_tasks m)\<rparr>;
          m1 = (if owned_task nu nt m0 = None
                then (let ml = load_task_from_store ops clk nu nt m0
                      in ml\<lparr>lm_tasks := lm_cleanup dt clk (lm_tasks ml)\<rparr>)
                else m0)
      in (case owned_task nu nt m1 of
            None \<Rightarrow> (None, m1)
          | Some t \<Rightarrow> (let (r, t1) = read_logs cursor t in (Some r, put_task nt t1 m1))))"

end
