(* ===== verification/Task_Registry.thy ===== *)
theory Task_Registry
  imports Status_Store
begin

text \<open>
  What the registries of the learning and the sign-in manager have in common: a dictionary of tasks,
  each with a record \<open>view\<close> that holds its status and its owner. The active tasks, who owns them, how
  cleaning, storing, admitting and finishing a task changes them; and which statuses are active or
  final.
\<close>

text \<open>Lookups stay lookups: they are not turned into membership of the association list.\<close>

declare map_of_eq_Some_iff [simp del]

section \<open>Statuses\<close>

lemma active_statuses:
  "s \<in> set ACTIVE_TASK_STATUSES \<Longrightarrow> is_active_status (PStr s)
     \<and> py_lower s \<in> {''running'', ''pending'', ''paused'', ''cancelling'', ''stopping''}"
  by (auto simp: ACTIVE_TASK_STATUSES_def is_active_status_def norm_status_def py_strip_def py_isspace_def
      py_lower_def py_lower_char_def)

lemma terminal_statuses:
  "s \<in> set TERMINAL_TASK_STATUSES \<Longrightarrow> \<not> is_active_status (PStr s) \<and> is_terminal_status (PStr s)
     \<and> py_lower s \<notin> {''running'', ''pending'', ''paused'', ''cancelling'', ''stopping''}
     \<and> s \<in> {''completed'', ''failed'', ''error'', ''cancelled''}"
  by (auto simp: TERMINAL_TASK_STATUSES_def ACTIVE_TASK_STATUSES_def is_active_status_def is_terminal_status_def
      norm_status_def py_strip_def py_isspace_def py_lower_def py_lower_char_def)

lemma known_simps [simp]:
  "known_status (PStr ''running'')" "known_status (PStr ''paused'')" "known_status (PStr ''pending'')"
  "known_status (PStr ''cancelling'')" "known_status (PStr ''failed'')" "known_status (PStr ''cancelled'')"
  "known_status (PStr ''completed'')" "known_status (PStr ''error'')"
  by (simp_all add: known_status_def ACTIVE_TASK_STATUSES_def TERMINAL_TASK_STATUSES_def)

lemma active_simps [simp]:
  "is_active_status (PStr ''running'')" "is_active_status (PStr ''paused'')"
  "is_active_status (PStr ''pending'')" "is_active_status (PStr ''cancelling'')"
  "\<not> is_active_status (PStr ''failed'')" "\<not> is_active_status (PStr ''cancelled'')"
  "\<not> is_active_status (PStr ''completed'')" "\<not> is_active_status (PStr ''error'')"
  using active_statuses terminal_statuses
  by (simp_all add: ACTIVE_TASK_STATUSES_def TERMINAL_TASK_STATUSES_def)

section \<open>The active tasks\<close>

definition owner_name :: "('a \<Rightarrow> pydict) \<Rightarrow> 'a \<Rightarrow> string" where
  "owner_name view t = py_strip (str_or_empty (dget (view t) ''user_id''))"

definition live_ids :: "('a \<Rightarrow> pydict) \<Rightarrow> (string \<times> 'a) list \<Rightarrow> string set" where
  "live_ids view ts = {k. \<exists>t. map_of ts k = Some t \<and> task_active view t}"

definition known_registry :: "('a \<Rightarrow> pydict) \<Rightarrow> (string \<times> 'a) list \<Rightarrow> bool" where
  "known_registry view ts \<longleftrightarrow> wf_dict ts
     \<and> (\<forall>k t. map_of ts k = Some t \<longrightarrow> known_status (dget (view t) ''status''))"

text \<open>A step that leaves the set of active tasks and their owners alone\<close>

definition same_live :: "('a \<Rightarrow> pydict) \<Rightarrow> (string \<times> 'a) list \<Rightarrow> (string \<times> 'a) list \<Rightarrow> bool" where
  "same_live view ts ts' \<longleftrightarrow> live_ids view ts' = live_ids view ts
     \<and> (\<forall>k t t'. map_of ts k = Some t \<longrightarrow> task_active view t \<longrightarrow> map_of ts' k = Some t' \<longrightarrow>
          owner_name view t' = owner_name view t)"

text \<open>
  A registry whose active tasks are among those of another, with the same owners, inherits that
  each user has at most one.
\<close>

definition fewer_live :: "('a \<Rightarrow> pydict) \<Rightarrow> (string \<times> 'a) list \<Rightarrow> (string \<times> 'a) list \<Rightarrow> bool" where
  "fewer_live view ts ts' \<longleftrightarrow> (\<forall>k t'. map_of ts' k = Some t' \<longrightarrow> task_active view t' \<longrightarrow>
     (\<exists>t. map_of ts k = Some t \<and> task_active view t \<and> owner_name view t' = owner_name view t))"

definition sole_live :: "('a \<Rightarrow> pydict) \<Rightarrow> (string \<times> 'a) list \<Rightarrow> bool" where
  "sole_live view ts \<longleftrightarrow> (\<forall>j k t u. map_of ts j = Some t \<longrightarrow> map_of ts k = Some u \<longrightarrow>
     task_active view t \<longrightarrow> task_active view u \<longrightarrow> owner_name view t = owner_name view u \<longrightarrow> j = k)"

lemma live_idsI: "map_of ts k = Some t \<Longrightarrow> task_active view t \<Longrightarrow> k \<in> live_ids view ts"
  by (auto simp: live_ids_def)

lemma live_idsE: "k \<in> live_ids view ts \<Longrightarrow> (\<And>t. map_of ts k = Some t \<Longrightarrow> task_active view t \<Longrightarrow> P) \<Longrightarrow> P"
  by (auto simp: live_ids_def)

lemma finite_live_ids [simp]: "finite (live_ids view ts)"
  by (rule finite_subset [of _ "dom (map_of ts)"]) (auto simp: live_ids_def finite_dom_map_of)

lemma same_live_refl [simp, intro]: "same_live view ts ts"
  by (auto simp: same_live_def)

lemma same_live_trans [trans]:
  assumes ab: "same_live view a b" and bc: "same_live view b c"
  shows "same_live view a c"
  unfolding same_live_def
proof (intro conjI allI impI)
  show "live_ids view c = live_ids view a" using ab bc by (simp add: same_live_def)
  fix k t t'
  assume t: "map_of a k = Some t" "task_active view t" and t': "map_of c k = Some t'"
  then have "k \<in> live_ids view b" using ab by (auto simp: same_live_def live_ids_def)
  then obtain u where "map_of b k = Some u" "task_active view u" by (auto simp: live_ids_def)
  with t t' ab bc show "owner_name view t' = owner_name view t" by (simp add: same_live_def)
qed

lemma sole_live_fewer:
  assumes "fewer_live view ts ts'" and one: "sole_live view ts" shows "sole_live view ts'"
  unfolding sole_live_def
proof (intro allI impI)
  fix j k t u
  assume "map_of ts' j = Some t" "map_of ts' k = Some u" "task_active view t" "task_active view u"
    and o: "owner_name view t = owner_name view u"
  with assms(1) obtain t0 u0 where "map_of ts j = Some t0" "task_active view t0" "owner_name view t = owner_name view t0"
    "map_of ts k = Some u0" "task_active view u0" "owner_name view u = owner_name view u0"
    unfolding fewer_live_def by metis
  with o one show "j = k" unfolding sole_live_def by metis
qed

lemma same_fewer_live: "same_live view ts ts' \<Longrightarrow> fewer_live view ts ts'"
  unfolding fewer_live_def
proof (intro allI impI)
  fix k t' assume s: "same_live view ts ts'" and t': "map_of ts' k = Some t'" "task_active view t'"
  then have "k \<in> live_ids view ts" by (auto simp: same_live_def live_ids_def)
  with s t' show "\<exists>t. map_of ts k = Some t \<and> task_active view t \<and> owner_name view t' = owner_name view t"
    by (auto simp: same_live_def elim!: live_idsE)
qed

lemma count_live_card:
  assumes "wf_dict ts"
  shows "count_active_tasks view ts = card (live_ids view ts)"
proof -
  let ?as = "filter (\<lambda>p. task_active view (snd p)) ts"
  have "live_ids view ts = fst ` set ?as"
    using assms by (force simp: live_ids_def dest: map_of_SomeD intro: map_of_is_SomeI)
  moreover have "card (fst ` set ?as) = length ?as"
    using wf_filter [OF assms, of "\<lambda>p. task_active view (snd p)"] by (metis distinct_card length_map list.set_map)
  ultimately show ?thesis by (simp add: count_active_tasks_def)
qed

lemma known_registry_wf: "known_registry view ts \<Longrightarrow> wf_dict ts"
  by (simp add: known_registry_def)

lemma lookup_dset: "map_of (dset k v d) j = (if j = k then Some v else map_of d j)"
  by simp

section \<open>Cleaning\<close>

lemma clean_same_live:
  assumes wf: "wf_dict ts" shows "same_live view ts (cleanup_task_records dt view now ttl mx ts)"
proof -
  have "map_of (cleanup_task_records dt view now ttl mx ts) k = Some t \<and> task_active view t
      \<longleftrightarrow> map_of ts k = Some t \<and> task_active view t" for k t
    using cleaned.cleanup_lookup [OF wf, of dt view now ttl mx k t]
      cleaned.cleanup_lookup_active [OF wf, of k t view dt now ttl mx] by blast
  moreover have "owner_name view t' = owner_name view t"
    if "map_of ts k = Some t" "map_of (cleanup_task_records dt view now ttl mx ts) k = Some t'" for k t t'
    using cleaned.cleanup_lookup [OF wf that(2)] that(1) by simp
  ultimately show ?thesis unfolding same_live_def live_ids_def by blast
qed

lemma clean_known:
  assumes "known_registry view ts" shows "known_registry view (cleanup_task_records dt view now ttl mx ts)"
  unfolding known_registry_def
proof (intro conjI allI impI)
  note wf = known_registry_wf [OF assms]
  show "wf_dict (cleanup_task_records dt view now ttl mx ts)" by (rule cleaned.cleanup_wf [OF wf])
  fix k t assume "map_of (cleanup_task_records dt view now ttl mx ts) k = Some t"
  then show "known_status (dget (view t) ''status'')"
    using assms cleaned.cleanup_lookup [OF wf] unfolding known_registry_def by fast
qed

section \<open>Storing a task\<close>

lemma dset_known:
  "known_registry view ts \<Longrightarrow> known_status (dget (view t) ''status'') \<Longrightarrow> known_registry view (dset k t ts)"
  by (simp add: known_registry_def lookup_dset)

text \<open>A task whose owner, and whose being active, is that of the one it replaces, if any\<close>

lemma dset_same_live:
  assumes "map_of ts k = Some t" and "task_active view t' = task_active view t" and "owner_name view t' = owner_name view t"
  shows "same_live view ts (dset k t' ts)"
proof -
  have "live_ids view (dset k t' ts) = live_ids view ts"
    using assms(1,2) by (auto simp: live_ids_def lookup_dset split: if_splits)
  with assms show ?thesis unfolding same_live_def by (simp add: lookup_dset)
qed

lemma live_ids_dset:
  "map_of ts k = None \<Longrightarrow>
     live_ids view (dset k t ts) = (if task_active view t then insert k (live_ids view ts) else live_ids view ts)"
  by (auto simp: live_ids_def lookup_dset split: if_splits)

lemma live_ids_dset_final: "\<not> task_active view t \<Longrightarrow> live_ids view (dset k t ts) = live_ids view ts - {k}"
  by (auto simp: live_ids_def lookup_dset split: if_splits)

lemma dset_new_same_live:
  "map_of ts k = None \<Longrightarrow> \<not> task_active view t \<Longrightarrow> same_live view ts (dset k t ts)"
  unfolding same_live_def by (simp add: lookup_dset live_ids_dset)

text \<open>The final status takes a task out of the active ones.\<close>

lemma dset_final_fewer: "\<not> task_active view t \<Longrightarrow> fewer_live view ts (dset k t ts)"
  unfolding fewer_live_def lookup_dset by auto

lemma sole_live_insert:
  assumes "sole_live view ts" and "map_of ts k = None"
    and "\<And>j u. map_of ts j = Some u \<Longrightarrow> task_active view u \<Longrightarrow> owner_name view u \<noteq> owner_name view t"
  shows "sole_live view (dset k t ts)"
  using assms unfolding sole_live_def lookup_dset by (metis option.inject)

section \<open>Admission\<close>

lemma list_ex_live:
  assumes "wf_dict ts" and "\<And>t. P t \<longleftrightarrow> owner_name view t = nu \<and> task_active view t"
  shows "list_ex (\<lambda>p. P (snd p)) ts \<longleftrightarrow> (\<exists>k t. map_of ts k = Some t \<and> task_active view t \<and> owner_name view t = nu)"
proof -
  have "list_ex (\<lambda>p. P (snd p)) ts \<longleftrightarrow> (\<exists>k t. (k, t) \<in> set ts \<and> P t)"
    by (simp add: list_ex_iff Bex_def split_paired_Ex)
  then show ?thesis using assms by (auto simp: map_of_eq_Some_iff)
qed

text \<open>Admitting a task between two cleanings makes it, and only it, active.\<close>

lemma admitted_live:
  assumes k: "known_registry view ts" and f: "map_of ts fresh = None"
    and v: "known_status (dget (view t) ''status'')" "task_active view t"
    and no: "\<not> (\<exists>k u. map_of ts k = Some u \<and> task_active view u \<and> owner_name view u = owner_name view t)"
    and ts': "ts' = cleanup_task_records dt view now ttl mx (dset fresh t (cleanup_task_records dt view now ttl mx ts))"
  shows "known_registry view ts'" "live_ids view ts' = insert fresh (live_ids view ts)" "fresh \<notin> live_ids view ts"
    "sole_live view ts \<Longrightarrow> sole_live view ts'"
proof -
  let ?c = "cleanup_task_records dt view now ttl mx ts"
  note wf = known_registry_wf [OF k]
  have same: "same_live view ts ?c" by (rule clean_same_live [OF wf])
  have fr: "map_of ?c fresh = None" using cleaned.cleanup_lookup [OF wf] f by (metis option.exhaust option.distinct(1))
  have k1: "known_registry view (dset fresh t ?c)" by (rule dset_known [OF clean_known [OF k] v(1)])
  have same1: "same_live view (dset fresh t ?c) ts'" unfolding ts' by (rule clean_same_live [OF known_registry_wf [OF k1]])
  show "known_registry view ts'" unfolding ts' by (rule clean_known [OF k1])
  show "fresh \<notin> live_ids view ts" using f by (auto simp: live_ids_def)
  show "live_ids view ts' = insert fresh (live_ids view ts)"
    using same same1 v fr by (simp add: same_live_def live_ids_dset)
  assume "sole_live view ts"
  then have "sole_live view ?c" by (rule sole_live_fewer [OF same_fewer_live [OF same]])
  moreover have "owner_name view u \<noteq> owner_name view t" if "map_of ?c j = Some u" "task_active view u" for j u
    using no cleaned.cleanup_lookup [OF wf that(1)] that(2) by blast
  ultimately have "sole_live view (dset fresh t ?c)" using fr by (intro sole_live_insert) blast
  then show "sole_live view ts'" by (rule sole_live_fewer [OF same_fewer_live [OF same1]])
qed

end
