(* ===== verification/Learning_Invariant.thy ===== *)
theory Learning_Invariant
  imports Learning_Manager Task_Registry
begin

text \<open>
  The registry invariant of the learning manager. A system state is the manager together with
  the ids of the tasks whose worker thread is still running; its steps are the manager's
  operations and the updates a worker makes. In every reachable state the active tasks are
  exactly the ones with a live worker, each user has at most one, and there are at most
  \<open>MAX_ACTIVE_TASKS\<close>; a terminal status is never left again.
\<close>

section \<open>What the manager needs of the task store\<close>

locale learning_store = status_store LEARNING_TASK_KIND ops sinv
  for ops :: "'s store_ops" and sinv :: "'s \<Rightarrow> bool"

section \<open>Statuses\<close>

lemma known_status_cases:
  assumes "known_status v"
  obtains (active) s where "v = PStr s" "s \<in> set ACTIVE_TASK_STATUSES" "is_active_status v"
  | (terminal) s where "v = PStr s" "s \<in> set TERMINAL_TASK_STATUSES" "\<not> is_active_status v"
      "is_terminal_status v" "v \<in> PStr ` set FINISHED_STATUSES"
  using assms active_statuses terminal_statuses unfolding known_status_def by (auto simp: FINISHED_STATUSES_def)

lemma finished_is_terminal:
  "v \<in> PStr ` set FINISHED_STATUSES \<Longrightarrow> known_status v \<and> \<not> is_active_status v \<and> is_terminal_status v"
  using terminal_statuses by (auto simp: known_status_def FINISHED_STATUSES_def TERMINAL_TASK_STATUSES_def)

section \<open>The active tasks of a registry\<close>

abbreviation active_task :: "lm_task \<Rightarrow> bool" where "active_task \<equiv> task_active pub"
abbreviation norm_owner :: "lm_task \<Rightarrow> string" where "norm_owner \<equiv> owner_name pub"
abbreviation active_ids :: "(string \<times> lm_task) list \<Rightarrow> string set" where "active_ids \<equiv> live_ids pub"
abbreviation statuses_known :: "(string \<times> lm_task) list \<Rightarrow> bool" where "statuses_known \<equiv> known_registry pub"
abbreviation one_per_user :: "(string \<times> lm_task) list \<Rightarrow> bool" where "one_per_user \<equiv> sole_live pub"

abbreviation same_active :: "(string \<times> lm_task) list \<Rightarrow> (string \<times> lm_task) list \<Rightarrow> bool" where
  "same_active \<equiv> same_live pub"

abbreviation fewer_active :: "(string \<times> lm_task) list \<Rightarrow> (string \<times> lm_task) list \<Rightarrow> bool" where
  "fewer_active \<equiv> fewer_live pub"

lemmas active_task_def = task_active_def [where pub = "pub :: lm_task \<Rightarrow> pydict", folded status_of_task_def]
lemmas norm_owner_def = owner_name_def [where view = "pub :: lm_task \<Rightarrow> pydict", folded owner_of_task_def]
lemmas statuses_known_def = known_registry_def [where view = "pub :: lm_task \<Rightarrow> pydict", folded status_of_task_def]
lemmas known_wf = known_registry_wf [where view = "pub :: lm_task \<Rightarrow> pydict"]
lemmas dset_known_status = dset_known [where view = "pub :: lm_task \<Rightarrow> pydict", folded status_of_task_def]

lemma lm_cleanup_lookup:
  "wf_dict ts \<Longrightarrow> map_of (lm_cleanup dt clk ts) k = Some t \<Longrightarrow> map_of ts k = Some t"
  unfolding lm_cleanup_def by (rule cleaned.cleanup_lookup)

lemma lm_cleanup_active:
  "wf_dict ts \<Longrightarrow> map_of ts k = Some t \<Longrightarrow> active_task t \<Longrightarrow> map_of (lm_cleanup dt clk ts) k = Some t"
  unfolding lm_cleanup_def by (rule cleaned.cleanup_lookup_active)

lemma wf_lm_cleanup: "wf_dict ts \<Longrightarrow> wf_dict (lm_cleanup dt clk ts)"
  unfolding lm_cleanup_def by (rule cleaned.cleanup_wf)

lemma cleanup_same_active: "wf_dict ts \<Longrightarrow> same_active ts (lm_cleanup dt clk ts)"
  unfolding lm_cleanup_def by (rule clean_same_live)

lemma cleanup_statuses_known: "statuses_known ts \<Longrightarrow> statuses_known (lm_cleanup dt clk ts)"
  unfolding lm_cleanup_def by (rule clean_known)

lemma merged_item_status:
  assumes "known_status (dget item ''status'')"
  shows "known_status (dget (merged_item clk item) ''status'')"
    and "\<not> is_active_status (dget (merged_item clk item) ''status'')"
proof -
  let ?d = "dset ''logs'' (PList (as_list (dget item ''logs'')))"
  have st: "dget (merged_item clk item) ''status'' =
      (if is_interrupted item then PStr ''failed'' else dget item ''status'')"
    by (simp add: merged_item_def Let_def is_interrupted_def touch_def add_log_def)
  from assms show "known_status (dget (merged_item clk item) ''status'')"
    by (simp add: st)
  from assms show "\<not> is_active_status (dget (merged_item clk item) ''status'')"
    by (cases rule: known_status_cases)
       (auto simp: st is_interrupted_def INTERRUPTED_STATUSES_def dest: active_statuses)
qed

lemma owned_task_lookup: "owned_task nu nt m = Some t \<Longrightarrow> map_of (lm_tasks m) nt = Some t"
  by (auto simp: owned_task_def split: option.splits if_splits)

context learning_store
begin

definition lm_ok :: "'s lm_state \<Rightarrow> bool" where
  "lm_ok m \<longleftrightarrow> statuses_known (lm_tasks m) \<and> sinv (lm_store m)"

definition keeps :: "'s lm_state \<Rightarrow> 's lm_state \<Rightarrow> bool" where
  "keeps m m' \<longleftrightarrow> lm_ok m' \<and> same_active (lm_tasks m) (lm_tasks m')"

lemma keeps_refl: "lm_ok m \<Longrightarrow> keeps m m"
  by (simp add: keeps_def)

lemma keeps_trans [trans]: "keeps a b \<Longrightarrow> keeps b c \<Longrightarrow> keeps a c"
  unfolding keeps_def by (blast intro: same_live_trans)

lemma keeps_ok: "keeps a b \<Longrightarrow> lm_ok b"
  by (simp add: keeps_def)

lemma sinv_persist_request:
  "sinv st \<Longrightarrow> (\<And>snap. req = Some snap \<Longrightarrow> known_status (dget snap ''status'')) \<Longrightarrow>
     sinv (persist_request ops req st)"
  by (auto simp: persist_request_def persist_task_state_def upsert_keeps split: option.splits)

lemma modify_keeps:
  assumes "lm_ok m"
    and f: "\<And>t. map_of (lm_tasks m) tid = Some t \<Longrightarrow> known_status (status_of_task (f t))
        \<and> active_task (f t) = active_task t \<and> norm_owner (f t) = norm_owner t"
  shows "keeps m (modify_task ops clk force tid f m)"
proof (cases "map_of (lm_tasks m) tid")
  case None
  with assms(1) show ?thesis by (simp add: modify_task_def keeps_refl)
next
  case (Some t)
  obtain req t1 where p: "prepare_persist_locked force clk (f t) = (req, t1)" by fastforce
  have pubs: "pub t1 = pub (f t)" using prepare_persist_pub [of force clk "f t"] p by simp
  then have v: "status_of_task t1 = status_of_task (f t)" "owner_of_task t1 = owner_of_task (f t)"
    by (simp_all add: status_of_task_def owner_of_task_def)
  have "statuses_known (dset tid t1 (lm_tasks m)) \<and> same_active (lm_tasks m) (dset tid t1 (lm_tasks m))"
    using assms(1) f [OF Some] Some
    by (intro conjI dset_known_status dset_same_live) (auto simp: lm_ok_def v active_task_def norm_owner_def)
  moreover have "sinv (persist_request ops req (lm_store m))"
  proof (rule sinv_persist_request)
    show "sinv (lm_store m)" using assms(1) by (simp add: lm_ok_def)
    fix snap assume "req = Some snap"
    then have "snap = pub (f t)" using prepare_persist_snapshot [of force clk "f t" snap] p by simp
    then show "known_status (dget snap ''status'')" using f [OF Some] by (simp add: status_of_task_def)
  qed
  ultimately show ?thesis using Some p by (simp add: keeps_def lm_ok_def modify_task_def)
qed

lemma ok_known: "lm_ok m \<Longrightarrow> map_of (lm_tasks m) tid = Some t \<Longrightarrow> known_status (status_of_task t)"
  by (simp add: lm_ok_def statuses_known_def)

lemma modify_keeps_view:
  assumes "lm_ok m"
    and "\<And>t. dget (pub (f t)) ''status'' = dget (pub t) ''status''"
    and "\<And>t. dget (pub (f t)) ''user_id'' = dget (pub t) ''user_id''"
  shows "keeps m (modify_task ops clk force tid f m)"
  using assms(1) ok_known [OF assms(1)]
  by (intro modify_keeps) (auto simp: active_task_def norm_owner_def status_of_task_def owner_of_task_def assms(2,3))

lemma append_log_keeps: "lm_ok m \<Longrightarrow> keeps m (append_task_log ops clk tid msg lvl m)"
  unfolding append_task_log_def by (rule modify_keeps_view) simp_all

lemma update_progress_keeps: "lm_ok m \<Longrightarrow> keeps m (update_progress ops clk tid u m)"
  unfolding update_progress_def by (rule modify_keeps_view) simp_all

lemma increase_progress_keeps: "lm_ok m \<Longrightarrow> keeps m (increase_progress ops clk tid key d m)"
  unfolding increase_progress_def by (rule modify_keeps_view) (simp_all add: Let_def)

lemma record_failure_keeps: "lm_ok m \<Longrightarrow> keeps m (record_failure ops clk tid f m)"
  unfolding record_failure_def by (rule modify_keeps_view) simp_all

text \<open>An update that sets an active status on an active task, or no status at all\<close>

lemma update_task_keeps:
  assumes "lm_ok m" and "wf_dict ch" and "''user_id'' \<notin> fst ` set ch"
    and "''status'' \<notin> fst ` set ch \<or> (\<exists>s. (''status'', PStr s) \<in> set ch \<and> known_status (PStr s)
       \<and> is_active_status (PStr s) \<and> tid \<in> active_ids (lm_tasks m))"
  shows "keeps m (update_task ops clk tid ch m)"
proof (cases "map_of (lm_tasks m) tid")
  case None
  with assms(1) show ?thesis by (simp add: update_task_def keeps_refl)
next
  case (Some t)
  have o: "dget (touch clk (dupdate (pub t) ch)) ''user_id'' = dget (pub t) ''user_id''"
    using assms(3) by (simp add: dget_dupdate_notin)
  have s: "known_status (dget (touch clk (dupdate (pub t) ch)) ''status'')
      \<and> is_active_status (dget (touch clk (dupdate (pub t) ch)) ''status'') = is_active_status (dget (pub t) ''status'')"
    using assms(4)
  proof
    assume "''status'' \<notin> fst ` set ch"
    then show ?thesis using ok_known [OF assms(1) Some] by (simp add: dget_dupdate_notin status_of_task_def)
  next
    assume "\<exists>s. (''status'', PStr s) \<in> set ch \<and> known_status (PStr s)
       \<and> is_active_status (PStr s) \<and> tid \<in> active_ids (lm_tasks m)"
    then obtain s where s: "(''status'', PStr s) \<in> set ch" "known_status (PStr s)"
      "is_active_status (PStr s)" "tid \<in> active_ids (lm_tasks m)" by blast
    with Some assms(2) show ?thesis
      by (auto simp: dget_dupdate_in live_ids_def active_task_def status_of_task_def)
  qed
  have "keeps m (modify_task ops clk True tid (\<lambda>t. t\<lparr>pub := touch clk (dupdate (pub t) ch)\<rparr>) m)"
    using assms(1) Some o s
    by (intro modify_keeps) (auto simp: active_task_def norm_owner_def status_of_task_def owner_of_task_def)
  then show ?thesis using Some assms(1) by (simp add: update_task_def keeps_refl)
qed

lemma put_keeps:
  assumes "lm_ok m" and "map_of (lm_tasks m) nt = Some t" and "known_status (status_of_task t')"
    and "active_task t' = active_task t" and "norm_owner t' = norm_owner t"
  shows "keeps m (put_task nt t' m)"
  using dset_same_live [of "lm_tasks m" nt t pub t'] dset_known_status [of "lm_tasks m" t' nt] assms
  by (simp add: keeps_def lm_ok_def put_task_def)

lemma merge_keeps:
  assumes "lm_ok m" and "known_status (dget item ''status'')"
  shows "keeps m (snd (merge_task_from_store ops clk item m))"
proof -
  let ?tid = "py_strip (str_or_empty (dget item ''task_id''))"
  let ?m1 = "m\<lparr>lm_tasks := dset ?tid (merged_task clk item) (lm_tasks m)\<rparr>"
  show ?thesis
  proof (cases "map_of (lm_tasks m) ?tid = None")
    case True
    have "keeps m ?m1"
      using assms(1) dset_new_same_live [OF True, of pub "merged_task clk item"] merged_item_status [OF assms(2)]
        dset_known [of pub "lm_tasks m" "merged_task clk item" ?tid]
      by (simp add: keeps_def lm_ok_def task_active_def merged_task_def)
    moreover from this have "keeps ?m1 (modify_task ops clk True ?tid id ?m1)"
      by (intro modify_keeps_view keeps_ok) simp_all
    ultimately show ?thesis
      using True assms(1) by (auto simp: merge_task_from_store_def Let_def keeps_refl intro: keeps_trans)
  qed (simp add: merge_task_from_store_def Let_def keeps_refl assms(1))
qed

lemma keeps_store: "lm_ok m \<Longrightarrow> sinv st \<Longrightarrow> keeps m (m\<lparr>lm_store := st\<rparr>)"
  by (simp add: keeps_def lm_ok_def)

lemma cleanup_keeps:
  assumes "lm_ok m" shows "keeps m (m\<lparr>lm_tasks := lm_cleanup dt clk (lm_tasks m)\<rparr>)"
  using assms cleanup_statuses_known cleanup_same_active [OF known_wf]
  by (simp add: keeps_def lm_ok_def)

lemma keeps_loaded: "keeps m (m'\<lparr>loaded_users := us\<rparr>) = keeps m m'"
  by (simp add: keeps_def lm_ok_def)

lemma load_task_keeps:
  assumes "lm_ok m" shows "keeps m (load_task_from_store ops clk u tid m)"
proof -
  obtain r st where g: "so_get ops LEARNING_TASK_KIND (py_strip tid) (Some (py_strip u)) (lm_store m) = (r, st)"
    by fastforce
  have s: "sinv (lm_store m)" using assms by (simp add: lm_ok_def)
  have k: "keeps m (m\<lparr>lm_store := st\<rparr>)"
    using get_keeps [OF s, of "py_strip tid" "Some (py_strip u)"] g assms by (simp add: keeps_store)
  have i: "r = Inr (Some item) \<Longrightarrow> known_status (dget item ''status'')" for item
    using get_known [OF s, of "py_strip tid" "Some (py_strip u)" item] g by simp
  show ?thesis
    using k i merge_keeps [OF keeps_ok [OF k]] g assms
    by (auto simp: load_task_from_store_def Let_def keeps_refl split: sum.splits option.splits intro: keeps_trans)
qed

lemma merge_fold_keeps:
  "lm_ok m \<Longrightarrow> \<forall>item \<in> set items. known_status (dget item ''status'') \<Longrightarrow>
     keeps m (fold (\<lambda>item acc. snd (merge_task_from_store ops clk item acc)) items m)"
proof (induction items arbitrary: m)
  case (Cons item items)
  then have "keeps m (snd (merge_task_from_store ops clk item m))" by (intro merge_keeps) auto
  with Cons show ?case by (auto intro: keeps_trans dest: keeps_ok)
qed (simp add: keeps_refl)

lemma merge_all_keeps:
  assumes "lm_ok m" and "so_list ops LEARNING_TASK_KIND u limit (lm_store m) = (r, st)"
  shows "keeps m (merge_all ops clk r (m\<lparr>lm_store := st\<rparr>))"
proof -
  have s: "sinv (lm_store m)" using assms(1) by (simp add: lm_ok_def)
  have k: "keeps m (m\<lparr>lm_store := st\<rparr>)"
    using list_keeps [OF s, of u limit] assms by (simp add: keeps_store)
  have "keeps (m\<lparr>lm_store := st\<rparr>) (merge_all ops clk r (m\<lparr>lm_store := st\<rparr>))"
    unfolding merge_all_def using list_known [OF s, of u limit] assms(2) keeps_ok [OF k]
    by (intro merge_fold_keeps) (auto split: sum.splits)
  with k show ?thesis by (rule keeps_trans)
qed

lemma load_user_keeps:
  assumes "lm_ok m" shows "keeps m (load_tasks_from_store_for_user ops dt clk u m)"
proof (cases "py_strip u = []")
  case True
  with assms show ?thesis by (simp add: load_tasks_from_store_for_user_def keeps_refl)
next
  case False
  obtain r st where l: "so_list ops LEARNING_TASK_KIND (Some (py_strip u)) USER_TASK_LOAD_LIMIT (lm_store m) = (r, st)"
    by fastforce
  note k = merge_all_keeps [OF assms l, of clk]
  from keeps_trans [OF k cleanup_keeps [OF keeps_ok [OF k]]] False l show ?thesis
    by (simp add: load_tasks_from_store_for_user_def Let_def keeps_def lm_ok_def)
qed

lemma ensure_loaded_keeps: "lm_ok m \<Longrightarrow> keeps m (ensure_tasks_loaded_for_user ops dt clk u m)"
  by (simp add: ensure_tasks_loaded_for_user_def Let_def keeps_refl load_user_keeps)

lemma load_unless_owned_keeps: "lm_ok m \<Longrightarrow> keeps m (load_unless_owned ops clk nu nt m)"
  by (simp add: load_unless_owned_def keeps_refl load_task_keeps)

lemma get_task_keeps: "lm_ok m \<Longrightarrow> keeps m (snd (get_task ops dt clk u tid m))"
  by (auto simp: get_task_def Let_def intro: keeps_trans cleanup_keeps load_unless_owned_keeps
      dest: keeps_ok [OF cleanup_keeps])

lemma list_tasks_keeps:
  assumes "lm_ok m" shows "keeps m (snd (list_tasks ops dt clk u m))"
proof -
  note k = ensure_loaded_keeps [OF assms, of dt clk u]
  from keeps_trans [OF k cleanup_keeps [OF keeps_ok [OF k]]] show ?thesis
    by (simp add: list_tasks_def Let_def)
qed

text \<open>The critical sections of the controls, and the log reader\<close>

lemma unfinished_active:
  "lm_ok m \<Longrightarrow> map_of (lm_tasks m) nt = Some t \<Longrightarrow> \<not> is_finished t \<Longrightarrow> active_task t"
  by (drule (1) ok_known) (auto simp: is_finished_def active_task_def elim!: known_status_cases)

lemma put_view_keeps:
  assumes "lm_ok m" and "map_of (lm_tasks m) nt = Some t"
    and "status_of_task t' = status_of_task t" and "owner_of_task t' = owner_of_task t"
  shows "keeps m (put_task nt t' m)"
  using assms ok_known [OF assms(1,2)] by (intro put_keeps) (auto simp: active_task_def norm_owner_def)

lemma put_active_keeps:
  assumes "lm_ok m" and "map_of (lm_tasks m) nt = Some t" and "\<not> is_finished t"
    and "known_status (status_of_task t')" "is_active_status (status_of_task t')"
    and "owner_of_task t' = owner_of_task t"
  shows "keeps m (put_task nt t' m)"
  using assms unfinished_active [OF assms(1,2,3)]
  by (intro put_keeps) (auto simp: active_task_def norm_owner_def)

lemma pause_locked_keeps: "lm_ok m \<Longrightarrow> keeps m (snd (pause_locked clk nu nt m))"
  by (auto simp: pause_locked_def keeps_refl status_of_task_def owner_of_task_def
      intro!: put_active_keeps dest: owned_task_lookup split: option.splits)

lemma resume_locked_keeps: "lm_ok m \<Longrightarrow> keeps m (snd (resume_locked clk nu nt m))"
  by (auto simp: resume_locked_def keeps_refl status_of_task_def owner_of_task_def
      intro!: put_active_keeps dest: owned_task_lookup split: option.splits)

lemma stop_locked_keeps: "lm_ok m \<Longrightarrow> keeps m (snd (stop_locked clk nu nt m))"
proof -
  assume ok: "lm_ok m"
  show ?thesis
  proof (cases "owned_task nu nt m")
    case None
    with ok show ?thesis by (simp add: stop_locked_def keeps_refl)
  next
    case (Some t)
    note t = owned_task_lookup [OF Some]
    show ?thesis
    proof (cases "is_finished t")
      case True
      with ok t Some show ?thesis
        by (auto simp: stop_locked_def status_of_task_def owner_of_task_def intro!: put_view_keeps [OF ok t])
    next
      case False
      with ok t Some show ?thesis
        by (auto simp: stop_locked_def status_of_task_def owner_of_task_def intro!: put_active_keeps [OF ok t])
    qed
  qed
qed

lemma read_logs_pub [simp]: "pub (snd (read_logs cursor t)) = pub t"
  by (simp add: read_logs_def Let_def)

lemma read_logs_keeps:
  "lm_ok m \<Longrightarrow> map_of (lm_tasks m) nt = Some t \<Longrightarrow> keeps m (put_task nt (snd (read_logs cursor t)) m)"
  by (rule put_view_keeps) (simp_all add: status_of_task_def owner_of_task_def)

text \<open>A manager that has just been built has no active task.\<close>

lemma new_manager_ok:
  assumes "sinv st"
  shows "lm_ok (new_learning_manager ops dt clk st)
    \<and> active_ids (lm_tasks (new_learning_manager ops dt clk st)) = {}"
proof -
  let ?m = "\<lparr>lm_tasks = [], loaded_users = [], lm_store = st\<rparr>"
  have ok: "lm_ok ?m" using assms by (simp add: lm_ok_def statuses_known_def)
  obtain r st' where l: "so_list ops LEARNING_TASK_KIND None 300 (lm_store ?m) = (r, st')" by fastforce
  note k = merge_all_keeps [OF ok l, of clk]
  from keeps_trans [OF k cleanup_keeps [OF keeps_ok [OF k]], of dt clk] l
  have "keeps ?m (new_learning_manager ops dt clk st)"
    by (simp add: new_learning_manager_def restore_tasks_from_store_def Let_def)
  then show ?thesis by (auto simp: keeps_def same_live_def live_ids_def)
qed

end

end
