(* ===== verification/Learning_System.thy ===== *)
theory Learning_System
  imports Learning_Invariant Task_Store
begin

text \<open>
  The learning service as a transition system. A state is the manager together with the ids of
  the tasks that have a worker (from admission until the worker, or a failed start, gives the
  task its final status). A step is one critical section of the manager, so that every
  interleaving of requests and workers is a run. Every operation of the manager is such a run,
  and the registry invariant holds in every reachable state: the active tasks are exactly those
  with a worker, each user has at most one, and there are at most \<open>MAX_ACTIVE_TASKS\<close>.
\<close>

section \<open>Steps\<close>

text \<open>
  What a worker may change with \<open>_update_task\<close>: any field but the owner, and the status only to
  \<open>running\<close> or \<open>paused\<close>.
\<close>

definition worker_change :: "bool \<Rightarrow> pydict \<Rightarrow> bool" where
  "worker_change live ch \<longleftrightarrow> wf_dict ch \<and> ''user_id'' \<notin> fst ` set ch
     \<and> (''status'' \<notin> fst ` set ch
        \<or> live \<and> ((''status'', PStr ''running'') \<in> set ch \<or> (''status'', PStr ''paused'') \<in> set ch))"

definition finish_change :: "string \<Rightarrow> string \<Rightarrow> string \<Rightarrow> pydict" where
  "finish_change status message current =
     [(''status'', PStr status), (''message'', PStr message), (''current_task'', PStr current)]"

definition WORKER_FINISHES :: "string list" where
  "WORKER_FINISHES = [''completed'', ''failed'', ''cancelled'']"

inductive lm_step ::
  "'s store_ops \<Rightarrow> dt_text \<Rightarrow> 's lm_state \<times> string set \<Rightarrow> 's lm_state \<times> string set \<Rightarrow> bool"
  for ops :: "'s store_ops" and dt :: dt_text
where
  cleaned: "lm_step ops dt (m, W) (m\<lparr>lm_tasks := lm_cleanup dt clk (lm_tasks m)\<rparr>, W)"
| loaded: "lm_step ops dt (m, W) (load_task_from_store ops clk u tid m, W)"
| loaded_user: "lm_step ops dt (m, W) (load_tasks_from_store_for_user ops dt clk u m, W)"
| rejected: "admit_task dt clk fresh u m = (Inl e, m') \<Longrightarrow> lm_step ops dt (m, W) (m', W)"
| admitted: "admit_task dt clk fresh u m = (Inr req, m') \<Longrightarrow> map_of (lm_tasks m) fresh = None \<Longrightarrow>
    lm_step ops dt (m, W) (m', insert fresh W)"
| wrote: "known_status (dget snap ''status'') \<Longrightarrow>
    lm_step ops dt (m, W) (m\<lparr>lm_store := snd (persist_task_state ops snap (lm_store m))\<rparr>, W)"
| start_failed: "tid \<in> W \<Longrightarrow>
    lm_step ops dt (m, W) (record_admission_persist_failure ops clk tid m, W - {tid})"
| paused: "lm_step ops dt (m, W) (snd (pause_locked clk nu nt m), W)"
| resumed: "lm_step ops dt (m, W) (snd (resume_locked clk nu nt m), W)"
| stopped: "lm_step ops dt (m, W) (snd (stop_locked clk nu nt m), W)"
| logs_read: "map_of (lm_tasks m) nt = Some t \<Longrightarrow>
    lm_step ops dt (m, W) (put_task nt (snd (read_logs cursor t)) m, W)"
| logged: "lm_step ops dt (m, W) (append_task_log ops clk tid msg lvl m, W)"
| progressed: "lm_step ops dt (m, W) (update_progress ops clk tid upd m, W)"
| increased: "lm_step ops dt (m, W) (increase_progress ops clk tid key delta m, W)"
| chapter_failed: "lm_step ops dt (m, W) (record_failure ops clk tid failure m, W)"
| updated: "worker_change (tid \<in> W) ch \<Longrightarrow> lm_step ops dt (m, W) (update_task ops clk tid ch m, W)"
| finished: "tid \<in> W \<Longrightarrow> status \<in> set WORKER_FINISHES \<Longrightarrow>
    lm_step ops dt (m, W) (update_task ops clk tid (finish_change status message current) m, W - {tid})"

inductive_cases lm_stepE: "lm_step ops dt (m, W) (m', W')"

text \<open>
  A run: each step is carried out by a store of the given set, whose members differ in what the
  environment does to the call (a failing database, the time, the randomness of a cipher). A
  restart builds a new manager on the store that is left; no worker survives it.
\<close>

inductive lm_reachable ::
  "'s store_ops set \<Rightarrow> dt_text \<Rightarrow> 's \<Rightarrow> 's lm_state \<times> string set \<Rightarrow> bool"
  for stores :: "'s store_ops set" and dt :: dt_text and st0 :: 's
where
  booted: "ops \<in> stores \<Longrightarrow> lm_reachable stores dt st0 (new_learning_manager ops dt clk st0, {})"
| stepped: "lm_reachable stores dt st0 x \<Longrightarrow> ops \<in> stores \<Longrightarrow> lm_step ops dt x y \<Longrightarrow>
    lm_reachable stores dt st0 y"
| restarted: "lm_reachable stores dt st0 (m, W) \<Longrightarrow> ops \<in> stores \<Longrightarrow>
    lm_reachable stores dt st0 (new_learning_manager ops dt clk (lm_store m), {})"

section \<open>Admission and the final status\<close>

lemma new_task_view [simp]:
  "status_of_task (new_task clk fresh u) = PStr ''pending''"
  "owner_of_task (new_task clk fresh u) = PStr u"
  by (simp_all add: new_task_def status_of_task_def owner_of_task_def dget_def)

lemma list_ex_owns:
  "wf_dict ts \<Longrightarrow> list_ex (\<lambda>p. owns_active nu (snd p)) ts \<longleftrightarrow>
    (\<exists>k t. map_of ts k = Some t \<and> active_task t \<and> norm_owner t = nu)"
  by (rule list_ex_live) (auto simp: owns_active_def active_task_def norm_owner_def)

lemma norm_owner_new [simp]: "norm_owner (new_task clk fresh u) = py_strip u"
  by (simp add: norm_owner_def str_or_empty_def)

text \<open>Admission adds exactly the new task, and only for a user without an active one\<close>

lemma admitted_registry:
  assumes k: "statuses_known (lm_tasks m)"
    and a: "admit_task dt clk fresh u m = (Inr req, m')"
    and f: "map_of (lm_tasks m) fresh = None"
  shows "statuses_known (lm_tasks m') \<and> active_ids (lm_tasks m') = insert fresh (active_ids (lm_tasks m))
    \<and> fresh \<notin> active_ids (lm_tasks m) \<and> card (active_ids (lm_tasks m)) < MAX_ACTIVE_TASKS
    \<and> (one_per_user (lm_tasks m) \<longrightarrow> one_per_user (lm_tasks m'))
    \<and> lm_store m' = lm_store m \<and> req = Some (pub (new_task clk fresh u))"
proof -
  let ?ts = "lm_cleanup dt clk (lm_tasks m)"
  obtain req0 t where p: "prepare_persist_locked True clk (new_task clk fresh u) = (req0, t)" by fastforce
  have pt: "pub t = pub (new_task clk fresh u)"
    using prepare_persist_pub [of True clk "new_task clk fresh u"] p by simp
  have view: "status_of_task t = PStr ''pending''" "norm_owner t = py_strip u"
    using new_task_view [of clk fresh u] norm_owner_new [of clk fresh u] pt
    unfolding status_of_task_def norm_owner_def owner_of_task_def by simp_all
  then have act: "active_task t" by (simp add: active_task_def)
  have wf: "wf_dict ?ts" by (rule wf_lm_cleanup [OF known_wf [OF k]])
  have same: "same_active (lm_tasks m) ?ts" by (rule cleanup_same_active [OF known_wf [OF k]])
  from a p have no: "\<not> list_ex (\<lambda>p. owns_active (py_strip u) (snd p)) ?ts"
    and cap: "count_active_tasks pub ?ts < MAX_ACTIVE_TASKS"
    and m': "m' = m\<lparr>lm_tasks := lm_cleanup dt clk (dset fresh t ?ts)\<rparr>" and r: "req = req0"
    by (auto simp: admit_task_def Let_def split: if_splits)
  have owner: "\<not> (\<exists>k v. map_of (lm_tasks m) k = Some v \<and> active_task v \<and> norm_owner v = norm_owner t)"
    using no lm_cleanup_active [OF known_wf [OF k]] unfolding list_ex_owns [OF wf] view(2) by blast
  have st: "known_status (dget (pub t) ''status'')" using view(1) by (simp add: status_of_task_def)
  note reg = admitted_live [OF k f st act owner, of "lm_tasks m'" dt "clk_time clk" TASK_RECORD_TTL_SECONDS MAX_TASK_RECORDS]
  have "req = Some (pub (new_task clk fresh u))"
    using p r by (auto simp: prepare_persist_locked_def Let_def)
  moreover have "card (active_ids (lm_tasks m)) < MAX_ACTIVE_TASKS"
    using same cap by (simp add: count_live_card [OF wf] same_live_def)
  ultimately show ?thesis using reg m' by (simp add: lm_cleanup_def)
qed

text \<open>The final status takes a task out of the active ones\<close>

lemma finished_registry:
  assumes k: "statuses_known ts" and "map_of ts tid = Some t"
    and "known_status (status_of_task t')" and "\<not> active_task t'"
  shows "statuses_known (dset tid t' ts) \<and> active_ids (dset tid t' ts) = active_ids ts - {tid}
    \<and> fewer_active ts (dset tid t' ts)"
  using dset_known_status [OF k assms(3)] dset_final_fewer [OF assms(4)] live_ids_dset_final [OF assms(4)] by blast

context learning_store
begin

lemma modify_finishes:
  assumes ok: "lm_ok m" and t: "map_of (lm_tasks m) tid = Some t"
    and f: "known_status (status_of_task (f t))" "\<not> active_task (f t)"
  shows "lm_ok (modify_task ops clk force tid f m)
    \<and> active_ids (lm_tasks (modify_task ops clk force tid f m)) = active_ids (lm_tasks m) - {tid}
    \<and> fewer_active (lm_tasks m) (lm_tasks (modify_task ops clk force tid f m))"
proof -
  obtain req t1 where p: "prepare_persist_locked force clk (f t) = (req, t1)" by fastforce
  have v: "pub t1 = pub (f t)" using prepare_persist_pub [of force clk "f t"] p by simp
  have "sinv (persist_request ops req (lm_store m))"
  proof (rule sinv_persist_request)
    show "sinv (lm_store m)" using ok by (simp add: lm_ok_def)
    fix snap assume "req = Some snap"
    then have "snap = pub (f t)" using prepare_persist_snapshot [of force clk "f t" snap] p by simp
    then show "known_status (dget snap ''status'')" using f by (simp add: status_of_task_def)
  qed
  moreover have "known_status (status_of_task t1)" "\<not> active_task t1"
    using f v by (simp_all add: status_of_task_def active_task_def)
  ultimately show ?thesis
    using finished_registry [of "lm_tasks m" tid t t1] ok t p by (simp add: lm_ok_def modify_task_def)
qed

lemma active_lookup:
  "tid \<in> active_ids (lm_tasks m) \<Longrightarrow> \<exists>t. map_of (lm_tasks m) tid = Some t \<and> active_task t"
  by (auto elim: live_idsE)

lemma finish_task:
  assumes ok: "lm_ok m" and "tid \<in> active_ids (lm_tasks m)" and st: "status \<in> set WORKER_FINISHES"
  shows "lm_ok (update_task ops clk tid (finish_change status msg cur) m)
    \<and> active_ids (lm_tasks (update_task ops clk tid (finish_change status msg cur) m)) = active_ids (lm_tasks m) - {tid}
    \<and> fewer_active (lm_tasks m) (lm_tasks (update_task ops clk tid (finish_change status msg cur) m))"
proof -
  from active_lookup [OF assms(2)] obtain t where t: "map_of (lm_tasks m) tid = Some t" "active_task t" by blast
  have fin: "known_status (PStr status)" "\<not> is_active_status (PStr status)"
    using st by (auto simp: WORKER_FINISHES_def)
  have "dget (pub t) ''status'' \<noteq> PStr status"
    using t fin by (auto simp: active_task_def status_of_task_def)
  then have change: "\<not> no_change (pub t) (finish_change status msg cur)"
    by (simp add: no_change_def finish_change_def)
  have "dget (dupdate (pub t) (finish_change status msg cur)) ''status'' = PStr status"
    by (rule dget_dupdate_in) (simp_all add: finish_change_def)
  with change t show ?thesis
    using modify_finishes [OF ok t(1), of "\<lambda>t. t\<lparr>pub := touch clk (dupdate (pub t) (finish_change status msg cur))\<rparr>" clk True] fin
    by (simp add: update_task_def status_of_task_def active_task_def)
qed

lemma failed_start:
  assumes ok: "lm_ok m" and "tid \<in> active_ids (lm_tasks m)"
  shows "lm_ok (record_admission_persist_failure ops clk tid m)
    \<and> active_ids (lm_tasks (record_admission_persist_failure ops clk tid m)) = active_ids (lm_tasks m) - {tid}
    \<and> fewer_active (lm_tasks m) (lm_tasks (record_admission_persist_failure ops clk tid m))"
proof -
  from active_lookup [OF assms(2)] obtain t where t: "map_of (lm_tasks m) tid = Some t" by blast
  show ?thesis
    unfolding record_admission_persist_failure_def
    by (rule modify_finishes [OF ok t]) (simp_all add: status_of_task_def active_task_def dget_dupdate_in)
qed

section \<open>The invariant of the service\<close>

definition service_ok :: "'s lm_state \<times> string set \<Rightarrow> bool" where
  "service_ok x \<longleftrightarrow> lm_ok (fst x) \<and> active_ids (lm_tasks (fst x)) = snd x
     \<and> one_per_user (lm_tasks (fst x)) \<and> card (snd x) \<le> MAX_ACTIVE_TASKS"

lemma service_keeps: "service_ok (m, W) \<Longrightarrow> keeps m m' \<Longrightarrow> service_ok (m', W)"
  using sole_live_fewer [OF same_fewer_live] by (auto simp: service_ok_def keeps_def same_live_def)

lemma service_finishes:
  assumes "service_ok (m, W)"
    and "lm_ok m' \<and> active_ids (lm_tasks m') = active_ids (lm_tasks m) - {tid} \<and> fewer_active (lm_tasks m) (lm_tasks m')"
  shows "service_ok (m', W - {tid})"
proof -
  have "finite W" using assms(1) finite_live_ids unfolding service_ok_def by (metis snd_conv)
  then have "card (W - {tid}) \<le> card W" by (simp add: card_mono)
  with assms show ?thesis by (auto simp: service_ok_def intro: sole_live_fewer)
qed

lemma service_admits:
  assumes "service_ok (m, W)" and a: "admit_task dt clk fresh u m = (Inr req, m')"
    and "map_of (lm_tasks m) fresh = None"
  shows "service_ok (m', insert fresh W)"
proof -
  have "statuses_known (lm_tasks m)" using assms(1) by (simp add: service_ok_def lm_ok_def)
  from admitted_registry [OF this a assms(3)] assms(1) show ?thesis
    by (auto simp: service_ok_def lm_ok_def card_insert_if)
qed

lemma rejected_keeps: "lm_ok m \<Longrightarrow> admit_task dt clk fresh u m = (Inl e, m') \<Longrightarrow> keeps m m'"
  using cleanup_keeps [of m dt clk] by (auto simp: admit_task_def Let_def split: if_splits prod.splits)

lemma wrote_keeps:
  "lm_ok m \<Longrightarrow> known_status (dget snap ''status'') \<Longrightarrow>
     keeps m (m\<lparr>lm_store := snd (persist_task_state ops snap (lm_store m))\<rparr>)"
  by (rule keeps_store) (simp_all add: persist_task_state_def upsert_keeps lm_ok_def)

lemma worker_change_keeps:
  assumes "service_ok (m, W)" and "worker_change (tid \<in> W) ch"
  shows "keeps m (update_task ops clk tid ch m)"
  using assms by (intro update_task_keeps) (auto simp: service_ok_def worker_change_def)

lemma step_service_ok:
  assumes "lm_step ops dt x y" and "service_ok x" shows "service_ok y"
proof -
  obtain m W where x: "x = (m, W)" by fastforce
  have inv: "service_ok (m, W)" using assms(2) x by simp
  then have ok: "lm_ok m" and ids: "active_ids (lm_tasks m) = W" by (auto simp: service_ok_def)
  from assms(1) have "lm_step ops dt (m, W) y" by (simp only: x)
  then show ?thesis
  proof (cases rule: lm_step.cases)
    case (admitted clk fresh u req m')
    from service_admits [OF inv admitted(2,3)] show ?thesis by (simp only: admitted(1))
  next
    case (start_failed tid clk)
    from service_finishes [OF inv failed_start [OF ok]] start_failed ids show ?thesis by blast
  next
    case (finished tid status clk msg cur)
    from service_finishes [OF inv finish_task [OF ok]] finished ids show ?thesis by blast
  next
    case (updated tid ch clk)
    from service_keeps [OF inv worker_change_keeps [OF inv updated(2)]] show ?thesis by (simp only: updated(1))
  qed (simp_all only: service_keeps [OF inv cleanup_keeps [OF ok]] service_keeps [OF inv load_task_keeps [OF ok]]
      service_keeps [OF inv load_user_keeps [OF ok]] service_keeps [OF inv rejected_keeps [OF ok]]
      service_keeps [OF inv wrote_keeps [OF ok]] service_keeps [OF inv pause_locked_keeps [OF ok]]
      service_keeps [OF inv resume_locked_keeps [OF ok]] service_keeps [OF inv stop_locked_keeps [OF ok]]
      service_keeps [OF inv read_logs_keeps [OF ok]] service_keeps [OF inv append_log_keeps [OF ok]]
      service_keeps [OF inv update_progress_keeps [OF ok]] service_keeps [OF inv increase_progress_keeps [OF ok]]
      service_keeps [OF inv record_failure_keeps [OF ok]])
qed

lemma new_service_ok: "sinv st \<Longrightarrow> service_ok (new_learning_manager ops dt clk st, {})"
  using new_manager_ok [of st dt clk] by (simp add: service_ok_def sole_live_def live_ids_def)

lemma service_ok_store: "service_ok (m, W) \<Longrightarrow> sinv (lm_store m)"
  by (simp add: service_ok_def lm_ok_def)

end

lemma reachable_service_ok:
  assumes stores: "\<And>ops. ops \<in> stores \<Longrightarrow> learning_store ops sinv"
    and "lm_reachable stores dt st0 x" and "sinv st0"
  shows "learning_store.service_ok sinv x"
  using assms(2)
proof induction
  case (booted ops clk)
  show ?case by (rule learning_store.new_service_ok [OF stores [OF booted] assms(3)])
next
  case (stepped x ops y)
  show ?case
    by (rule learning_store.step_service_ok [OF stores [OF stepped(2)] stepped(3,4)])
next
  case (restarted m W ops clk)
  note st = stores [OF restarted(2)]
  show ?case
    by (rule learning_store.new_service_ok [OF st learning_store.service_ok_store [OF st restarted(3)]])
qed

text \<open>A run of one manager, without restarts\<close>

definition lm_run ::
  "'s store_ops \<Rightarrow> dt_text \<Rightarrow> 's lm_state \<times> string set \<Rightarrow> 's lm_state \<times> string set \<Rightarrow> bool" where
  "lm_run ops dt = (lm_step ops dt)\<^sup>*\<^sup>*"

lemma lm_run_refl [intro]: "lm_run ops dt x x"
  by (simp add: lm_run_def)

lemma lm_run_step: "lm_step ops dt x y \<Longrightarrow> lm_run ops dt x y"
  by (simp add: lm_run_def)

lemma lm_run_trans [trans]: "lm_run ops dt x y \<Longrightarrow> lm_run ops dt y z \<Longrightarrow> lm_run ops dt x z"
  by (simp add: lm_run_def)

lemma lm_run_snoc: "lm_run ops dt x y \<Longrightarrow> lm_step ops dt y z \<Longrightarrow> lm_run ops dt x z"
  by (simp add: lm_run_def)

lemma run_reachable:
  assumes "lm_reachable stores dt st0 x" and "ops \<in> stores" and "lm_run ops dt x y"
  shows "lm_reachable stores dt st0 y"
  using assms(3,1) unfolding lm_run_def
  by (induction rule: rtranclp_induct) (auto intro: lm_reachable.stepped [OF _ assms(2)])

section \<open>The operations of the manager are runs\<close>

lemma load_unless_owned_run: "lm_run ops dt (m, W) (load_unless_owned ops clk nu nt m, W)"
  by (auto simp: load_unless_owned_def intro: lm_run_step lm_step.loaded)

lemma pause_task_run: "lm_run ops dt (m, W) (snd (pause_task ops clk u tid m), W)"
proof -
  let ?m1 = "load_unless_owned ops clk (py_strip u) (py_strip tid) m"
  have "lm_run ops dt (m, W) (snd (pause_locked clk (py_strip u) (py_strip tid) ?m1), W)"
    by (rule lm_run_snoc [OF load_unless_owned_run lm_step.paused])
  then show ?thesis
    by (auto simp: pause_task_def Let_def split: prod.splits intro: lm_run_snoc lm_step.logged)
qed

lemma resume_task_run: "lm_run ops dt (m, W) (snd (resume_task ops clk u tid m), W)"
proof -
  let ?m1 = "load_unless_owned ops clk (py_strip u) (py_strip tid) m"
  have "lm_run ops dt (m, W) (snd (resume_locked clk (py_strip u) (py_strip tid) ?m1), W)"
    by (rule lm_run_snoc [OF load_unless_owned_run lm_step.resumed])
  then show ?thesis
    by (auto simp: resume_task_def Let_def split: prod.splits intro: lm_run_snoc lm_step.logged)
qed

lemma stop_task_run: "lm_run ops dt (m, W) (snd (stop_task ops clk u tid m), W)"
proof -
  let ?m1 = "load_unless_owned ops clk (py_strip u) (py_strip tid) m"
  have "lm_run ops dt (m, W) (snd (stop_locked clk (py_strip u) (py_strip tid) ?m1), W)"
    by (rule lm_run_snoc [OF load_unless_owned_run lm_step.stopped])
  then show ?thesis
    by (auto simp: stop_task_def Let_def split: prod.splits intro: lm_run_snoc lm_step.logged)
qed

lemma get_task_run: "lm_run ops dt (m, W) (snd (get_task ops dt clk u tid m), W)"
  using lm_run_trans [OF lm_run_step [OF lm_step.cleaned] load_unless_owned_run]
  by (simp add: get_task_def Let_def)

lemma list_tasks_run: "lm_run ops dt (m, W) (snd (list_tasks ops dt clk u m), W)"
proof -
  have "lm_run ops dt (m, W) (ensure_tasks_loaded_for_user ops dt clk u m, W)"
    by (auto simp: ensure_tasks_loaded_for_user_def Let_def intro: lm_run_step lm_step.loaded_user)
  then show ?thesis by (auto simp: list_tasks_def Let_def intro: lm_run_snoc lm_step.cleaned)
qed

lemma get_task_logs_run: "lm_run ops dt (m, W) (snd (get_task_logs ops dt clk u tid cursor m), W)"
proof -
  let ?m0 = "m\<lparr>lm_tasks := lm_cleanup dt clk (lm_tasks m)\<rparr>"
  let ?ml = "load_task_from_store ops clk (py_strip u) (py_strip tid) ?m0"
  let ?m1 = "if owned_task (py_strip u) (py_strip tid) ?m0 = None
     then ?ml\<lparr>lm_tasks := lm_cleanup dt clk (lm_tasks ?ml)\<rparr> else ?m0"
  have m0: "lm_run ops dt (m, W) (?m0, W)" by (rule lm_run_step [OF lm_step.cleaned])
  then have run: "lm_run ops dt (m, W) (?m1, W)"
    by (auto intro: lm_run_snoc [OF lm_run_snoc [OF m0 lm_step.loaded] lm_step.cleaned])
  have shape: "get_task_logs ops dt clk u tid cursor m =
      (case owned_task (py_strip u) (py_strip tid) ?m1 of
         None \<Rightarrow> (None, ?m1)
       | Some t \<Rightarrow> (let (r, t1) = read_logs cursor t in (Some r, put_task (py_strip tid) t1 ?m1)))"
    by (simp only: get_task_logs_def Let_def)
  show ?thesis
  proof (cases "owned_task (py_strip u) (py_strip tid) ?m1")
    case None
    with run show ?thesis by (simp only: shape option.case snd_conv)
  next
    case (Some t)
    from lm_run_snoc [OF run lm_step.logs_read [OF owned_task_lookup [OF Some]]]
    have "lm_run ops dt (m, W) (put_task (py_strip tid) (snd (read_logs cursor t)) ?m1, W)" .
    then show ?thesis by (simp only: shape Some option.case Let_def case_prod_beta snd_conv)
  qed
qed

text \<open>\<open>start_task\<close> gives the new task a worker exactly when it succeeds.\<close>

lemma fail_task_run:
  "tid \<in> W \<Longrightarrow> lm_run ops dt (m, W) (fail_task ops clk tid msg m, W - {tid})"
  unfolding fail_task_def
  by (rule lm_run_snoc [OF lm_run_step lm_step.logged])
     (use lm_step.finished [of tid W "''failed''" ops dt m clk msg "''failed''"] in
       \<open>simp add: finish_change_def WORKER_FINISHES_def\<close>)

lemma cancel_task_run:
  "tid \<in> W \<Longrightarrow> lm_run ops dt (m, W) (cancel_task ops clk tid msg m, W - {tid})"
  unfolding cancel_task_def
  by (rule lm_run_snoc [OF lm_run_step lm_step.logged])
     (use lm_step.finished [of tid W "''cancelled''" ops dt m clk msg "''cancelled''"] in
       \<open>simp add: finish_change_def WORKER_FINISHES_def\<close>)

lemma admit_request:
  assumes "admit_task dt clk fresh u m = (Inr req, m')"
  shows "req = Some (pub (new_task clk fresh u))"
  using assms by (auto simp: admit_task_def Let_def prepare_persist_locked_def split: if_splits prod.splits)

lemma start_task_run:
  assumes "start_task ops dt clk tiku thr fresh u m = (r, m')" and f: "map_of (lm_tasks m) fresh = None"
    and W: "fresh \<notin> W"
  shows "lm_run ops dt (m, W) (m', case r of Inl _ \<Rightarrow> W | Inr tid \<Rightarrow> insert tid W)"
proof (cases "tiku")
  case False
  with assms(1) show ?thesis by (auto simp: start_task_def)
next
  case tiku: True
  obtain a m1 where a: "admit_task dt clk fresh u m = (a, m1)" by fastforce
  show ?thesis
  proof (cases a)
    case (Inl e)
    with a tiku assms(1) show ?thesis
      using lm_run_step [OF lm_step.rejected [OF a [unfolded Inl], of ops W]] by (auto simp: start_task_def)
  next
    case (Inr req)
    note adm = lm_step.admitted [OF a [unfolded Inr] f, of ops W]
    let ?snap = "pub (new_task clk fresh u)"
    have req: "req = Some ?snap" using admit_request a Inr by blast
    obtain ok st where p: "persist_task_state ops ?snap (lm_store m1) = (ok, st)" by fastforce
    have known: "known_status (dget ?snap ''status'')"
      using new_task_view(1) [of clk fresh u] by (simp add: status_of_task_def)
    from lm_run_snoc [OF lm_run_step [OF adm] lm_step.wrote [OF known, of ops dt m1 "insert fresh W"]]
    have run: "lm_run ops dt (m, W) (m1\<lparr>lm_store := st\<rparr>, insert fresh W)" using p by simp
    have W': "insert fresh W - {fresh} = W" using W by simp
    have s: "start_task ops dt clk tiku thr fresh u m =
        (if \<not> ok then (Inl TaskPersistFailure, record_admission_persist_failure ops clk fresh (m1\<lparr>lm_store := st\<rparr>))
         else if \<not> thr then (Inl ThreadStartFailure, fail_task ops clk fresh THREAD_START_FAILURE_MESSAGE (m1\<lparr>lm_store := st\<rparr>))
         else (Inr fresh, m1\<lparr>lm_store := st\<rparr>))"
      using tiku a Inr req p by (simp add: start_task_def persist_first_def)
    show ?thesis
      using run s assms(1) lm_run_snoc [OF run lm_step.start_failed [of fresh "insert fresh W" ops dt _ clk]]
        lm_run_trans [OF run fail_task_run [of fresh "insert fresh W" ops dt _ clk]] W'
      by (auto split: if_splits)
  qed
qed

section \<open>A final status stays\<close>

text \<open>Every task that is not active is still there, with the status it had\<close>

definition holds_status :: "'s lm_state \<Rightarrow> 's lm_state \<Rightarrow> bool" where
  "holds_status m m' \<longleftrightarrow> (\<forall>k t. map_of (lm_tasks m) k = Some t \<longrightarrow> \<not> active_task t \<longrightarrow>
     (\<exists>t'. map_of (lm_tasks m') k = Some t' \<and> status_of_task t' = status_of_task t))"

text \<open>Every task that is not active has the status it had, if it is still there\<close>

definition settled :: "'s lm_state \<Rightarrow> 's lm_state \<Rightarrow> bool" where
  "settled m m' \<longleftrightarrow> (\<forall>k t t'. map_of (lm_tasks m) k = Some t \<longrightarrow> \<not> active_task t \<longrightarrow>
     map_of (lm_tasks m') k = Some t' \<longrightarrow> status_of_task t' = status_of_task t)"

lemma holds_settled: "holds_status m m' \<Longrightarrow> settled m m'"
  unfolding holds_status_def settled_def by fastforce

lemma holds_refl [intro, simp]: "holds_status m m"
  by (simp add: holds_status_def)

lemma holds_trans [trans]: "holds_status a b \<Longrightarrow> holds_status b c \<Longrightarrow> holds_status a c"
  unfolding holds_status_def active_task_def by metis

lemma holds_tasks: "lm_tasks m' = lm_tasks m \<Longrightarrow> holds_status m m'"
  by (simp add: holds_status_def)

lemma settled_cleanup:
  assumes "holds_status m m1" and "wf_dict (lm_tasks m1)"
    and "lm_tasks m' = lm_cleanup dt clk (lm_tasks m1)"
  shows "settled m m'"
  unfolding settled_def assms(3)
proof (intro allI impI)
  fix k t t' assume "map_of (lm_tasks m) k = Some t" "\<not> active_task t"
    and t': "map_of (lm_cleanup dt clk (lm_tasks m1)) k = Some t'"
  then obtain u where "map_of (lm_tasks m1) k = Some u" "status_of_task u = status_of_task t"
    using assms(1) unfolding holds_status_def by blast
  with lm_cleanup_lookup [OF assms(2) t'] show "status_of_task t' = status_of_task t" by simp
qed

lemma holds_modify:
  assumes "\<And>t. map_of (lm_tasks m) tid = Some t \<Longrightarrow> \<not> active_task t \<Longrightarrow>
     status_of_task (f t) = status_of_task t"
  shows "holds_status m (modify_task ops clk force tid f m)"
  unfolding holds_status_def
proof (intro allI impI)
  fix k t assume t: "map_of (lm_tasks m) k = Some t" "\<not> active_task t"
  show "\<exists>t'. map_of (lm_tasks (modify_task ops clk force tid f m)) k = Some t' \<and> status_of_task t' = status_of_task t"
  proof (cases "k = tid")
    case True
    with t assms [of t] show ?thesis by (simp add: modify_task_same status_of_task_def)
  qed (simp add: t modify_task_other)
qed

lemma holds_put:
  assumes "map_of (lm_tasks m) nt = Some t" and "active_task t \<or> status_of_task t' = status_of_task t"
  shows "holds_status m (put_task nt t' m)"
  using assms by (auto simp: holds_status_def put_task_def lookup_dset)

lemma holds_reports:
  "holds_status m (append_task_log ops clk tid msg lvl m)"
  "holds_status m (update_progress ops clk tid upd m)"
  "holds_status m (increase_progress ops clk tid key delta m)"
  "holds_status m (record_failure ops clk tid failure m)"
  unfolding append_task_log_def update_progress_def increase_progress_def record_failure_def
  by (rule holds_modify; simp add: status_of_task_def Let_def)+

lemma holds_update:
  assumes "''status'' \<notin> fst ` set ch \<or> tid \<in> active_ids (lm_tasks m)"
  shows "holds_status m (update_task ops clk tid ch m)"
  using assms by (auto simp: update_task_def status_of_task_def dget_dupdate_notin elim!: live_idsE
      intro!: holds_modify split: option.splits)

lemma holds_merge: "holds_status m (snd (merge_task_from_store ops clk item m))"
proof -
  let ?tid = "py_strip (str_or_empty (dget item ''task_id''))"
  let ?m1 = "m\<lparr>lm_tasks := dset ?tid (merged_task clk item) (lm_tasks m)\<rparr>"
  have "holds_status m ?m1" if "map_of (lm_tasks m) ?tid = None"
    using that by (auto simp: holds_status_def lookup_dset)
  moreover have "holds_status ?m1 (modify_task ops clk True ?tid id ?m1)" by (rule holds_modify) simp
  ultimately show ?thesis
    by (auto simp: merge_task_from_store_def Let_def intro: holds_trans)
qed

lemma holds_load: "holds_status m (load_task_from_store ops clk u tid m)"
proof -
  have "holds_status m (snd (merge_task_from_store ops clk item (m\<lparr>lm_store := st\<rparr>)))" for item st
    by (rule holds_trans [OF holds_tasks holds_merge]) simp
  then show ?thesis
    by (auto simp: load_task_from_store_def Let_def holds_tasks split: prod.splits sum.splits option.splits)
qed

lemma holds_merge_all: "holds_status m (merge_all ops clk r m)"
proof -
  have "holds_status m (fold (\<lambda>item acc. snd (merge_task_from_store ops clk item acc)) items m)" for items
    by (induction items arbitrary: m) (auto intro: holds_trans holds_merge)
  then show ?thesis by (simp add: merge_all_def)
qed

context learning_store
begin

lemma settled_load_user:
  assumes "lm_ok m" shows "settled m (load_tasks_from_store_for_user ops dt clk u m)"
proof (cases "py_strip u = []")
  case True
  then show ?thesis by (simp add: load_tasks_from_store_for_user_def holds_settled)
next
  case False
  obtain r st where l: "so_list ops LEARNING_TASK_KIND (Some (py_strip u)) USER_TASK_LOAD_LIMIT (lm_store m) = (r, st)"
    by fastforce
  let ?m1 = "merge_all ops clk r (m\<lparr>lm_store := st\<rparr>)"
  have "wf_dict (lm_tasks ?m1)"
    using keeps_ok [OF merge_all_keeps [OF assms l, of clk]] by (simp add: lm_ok_def known_wf)
  moreover have "holds_status m ?m1" by (rule holds_trans [OF holds_tasks holds_merge_all]) simp
  ultimately show ?thesis
    using False l by (intro settled_cleanup [of m ?m1 _ dt clk]) (simp_all add: load_tasks_from_store_for_user_def Let_def)
qed

lemma holds_locked:
  assumes "lm_ok m"
  shows "holds_status m (snd (pause_locked clk nu nt m))"
    and "holds_status m (snd (resume_locked clk nu nt m))"
    and "holds_status m (snd (stop_locked clk nu nt m))"
  using unfinished_active [OF assms]
  by (auto simp: pause_locked_def resume_locked_def stop_locked_def status_of_task_def
      intro!: holds_put dest!: owned_task_lookup split: option.splits)

lemma settled_rejected:
  assumes "lm_ok m" and "admit_task dt clk fresh u m = (Inl e, m')" shows "settled m m'"
proof (rule settled_cleanup [OF holds_refl])
  show "wf_dict (lm_tasks m)" using assms(1) by (simp add: lm_ok_def known_wf)
  show "lm_tasks m' = lm_cleanup dt clk (lm_tasks m)"
    using assms(2) by (auto simp: admit_task_def Let_def split: if_splits prod.splits)
qed

lemma settled_admitted:
  assumes ok: "lm_ok m" and a: "admit_task dt clk fresh u m = (Inr req, m')"
    and f: "map_of (lm_tasks m) fresh = None"
  shows "settled m m'"
  unfolding settled_def
proof (intro allI impI)
  fix k t t' assume t: "map_of (lm_tasks m) k = Some t" and t': "map_of (lm_tasks m') k = Some t'"
  obtain task where m': "lm_tasks m' = lm_cleanup dt clk (dset fresh task (lm_cleanup dt clk (lm_tasks m)))"
    using a by (auto simp: admit_task_def Let_def split: if_splits prod.splits)
  have wf: "wf_dict (lm_tasks m)" using ok by (simp add: lm_ok_def known_wf)
  then have "wf_dict (dset fresh task (lm_cleanup dt clk (lm_tasks m)))" by (simp add: wf_lm_cleanup)
  from lm_cleanup_lookup [OF this] t' have "map_of (dset fresh task (lm_cleanup dt clk (lm_tasks m))) k = Some t'"
    unfolding m' by blast
  moreover have "k \<noteq> fresh" using t f by auto
  ultimately have "map_of (lm_cleanup dt clk (lm_tasks m)) k = Some t'" by (simp add: lookup_dset)
  from lm_cleanup_lookup [OF wf this] t show "status_of_task t' = status_of_task t" by simp
qed

lemma step_settled:
  assumes "lm_step ops dt (m, W) (m', W')" and inv: "service_ok (m, W)" shows "settled m m'"
proof -
  from inv have ok: "lm_ok m" and ids: "active_ids (lm_tasks m) = W" by (auto simp: service_ok_def)
  from assms(1) show ?thesis
  proof (cases rule: lm_step.cases)
    case (cleaned clk)
    from ok show ?thesis
      unfolding cleaned by (intro settled_cleanup [OF holds_refl]) (simp_all add: lm_ok_def known_wf)
  next
    case (updated tid ch clk)
    then show ?thesis using ids by (auto simp: worker_change_def intro!: holds_settled holds_update)
  next
    case (start_failed tid clk)
    then show ?thesis
      using ids by (auto simp: record_admission_persist_failure_def elim!: live_idsE intro!: holds_settled holds_modify)
  next
    case (loaded_user clk u)
    then show ?thesis by (simp add: settled_load_user [OF ok])
  next
    case (rejected clk fresh u e)
    then show ?thesis by (blast intro: settled_rejected [OF ok])
  next
    case (admitted clk fresh u req)
    then show ?thesis by (blast intro: settled_admitted [OF ok])
  next
    case (logs_read nt t cursor)
    then show ?thesis by (auto simp: status_of_task_def intro!: holds_settled holds_put)
  qed (use ids in \<open>auto intro!: holds_settled holds_load holds_tasks holds_locked [OF ok] holds_reports holds_update\<close>)
qed

end

end
