(* ===== verification/Learning_Service.thy ===== *)
theory Learning_Service
  imports Learning_System
begin

text \<open>
  The learning manager on the task store: the facade of \<open>task_store.py\<close> over the SQLite adapter
  provides the interface \<open>learning_store\<close>, so the registry invariant holds of the service as it
  is deployed. The properties of the manager are stated over it.
\<close>

section \<open>The facade as the manager's store\<close>

text \<open>What the environment decides about one call on the SQLite adapter\<close>

record sqlite_env =
  env_init :: db_outcome
  env_io :: db_outcome
  env_now :: int
  env_cipher :: "crypto_error + cipher"
  env_rnd :: "string \<Rightarrow> string \<Rightarrow> nat"

definition sqlite_facade :: "dt_text \<Rightarrow> fernet_lib \<Rightarrow> sqlite_env \<Rightarrow> sqlite_store store_ops" where
  "sqlite_facade dt lib e =
     facade_ops (sqlite_upsert_task dt (env_init e) (env_io e) (env_now e))
       (sqlite_get_task dt (env_init e) (env_io e)) (sqlite_list_tasks dt (env_init e) (env_io e))
       lib (env_cipher e) (env_rnd e)"

definition sqlite_learning_inv :: "sqlite_store \<Rightarrow> bool" where
  "sqlite_learning_inv s \<longleftrightarrow> sqlite_inv s \<and> known_rows LEARNING_TASK_KIND sqlite_stored s"

interpretation on_sqlite: learning_store "sqlite_facade dt lib e" sqlite_learning_inv for dt lib e
  unfolding learning_store_def
  using sqlite.facade_status_store [of LEARNING_TASK_KIND dt "env_init e" "env_io e" "env_now e" "env_init e" "env_io e"
      "env_init e" "env_io e" lib "env_cipher e" "env_rnd e"]
  by (simp add: sqlite_facade_def sqlite_learning_inv_def [abs_def] LEARNING_TASK_KIND_def)

text \<open>A run of the service on SQLite, whatever the environment does\<close>

definition learning_reachable ::
  "dt_text \<Rightarrow> fernet_lib \<Rightarrow> sqlite_store \<Rightarrow> sqlite_store lm_state \<times> string set \<Rightarrow> bool" where
  "learning_reachable dt lib st0 x = lm_reachable (range (sqlite_facade dt lib)) dt st0 x"

lemma learning_invariant:
  assumes "learning_reachable dt lib st0 (m, W)" and "sqlite_learning_inv st0"
  shows "statuses_known (lm_tasks m) \<and> sqlite_learning_inv (lm_store m) \<and> active_ids (lm_tasks m) = W
    \<and> one_per_user (lm_tasks m) \<and> card W \<le> MAX_ACTIVE_TASKS"
proof -
  have ls: "learning_store ops sqlite_learning_inv" if "ops \<in> range (sqlite_facade dt lib)" for ops
    using that on_sqlite.learning_store_axioms by auto
  have "on_sqlite.service_ok (m, W)"
    by (rule reachable_service_ok [OF ls assms(1) [unfolded learning_reachable_def] assms(2)])
  then show ?thesis by (simp add: on_sqlite.service_ok_def on_sqlite.lm_ok_def)
qed

lemma learning_reachable_run:
  "learning_reachable dt lib st0 x \<Longrightarrow> lm_run (sqlite_facade dt lib e) dt x y \<Longrightarrow> learning_reachable dt lib st0 y"
  unfolding learning_reachable_def by (rule run_reachable) auto

section \<open>A small closed instance\<close>

definition calm :: sqlite_env where
  "calm = \<lparr>env_init = DbOk, env_io = DbOk, env_now = 0, env_cipher = Inr NoopCipher, env_rnd = (\<lambda>_ _. 0)\<rparr>"

definition calm_ops :: "sqlite_store store_ops" where
  "calm_ops = sqlite_facade one_instant unary_fernet calm"

definition noon :: lm_clock where
  "noon = \<lparr>clk_time = 0, clk_mono = 0, clk_iso = ''T''\<rparr>"

definition first_manager :: "sqlite_store lm_state" where
  "first_manager = new_learning_manager calm_ops one_instant noon new_sqlite_store"

definition second_manager :: "sqlite_store lm_state" where
  "second_manager = snd (start_task calm_ops one_instant noon True True ''a1'' ''7'' first_manager)"

lemma new_store_inv: "sqlite_learning_inv new_sqlite_store"
  using new_sqlite_inv
  by (simp add: sqlite_learning_inv_def known_rows_def sqlite_stored_def new_sqlite_store_def table_map_def)

lemma first_manager_reachable: "learning_reachable one_instant unary_fernet new_sqlite_store (first_manager, {})"
  unfolding learning_reachable_def first_manager_def calm_ops_def by (rule lm_reachable.booted) simp

lemma first_manager_empty: "lm_tasks first_manager = []"
  by code_simp

lemma second_manager_start:
  "start_task calm_ops one_instant noon True True ''a1'' ''7'' first_manager = (Inr ''a1'', second_manager)"
proof -
  have "fst (start_task calm_ops one_instant noon True True ''a1'' ''7'' first_manager) = Inr ''a1''"
    by code_simp
  then show ?thesis by (simp add: second_manager_def prod_eq_iff)
qed

lemma second_manager_reachable:
  "learning_reachable one_instant unary_fernet new_sqlite_store (second_manager, {''a1''})"
proof -
  have "lm_run calm_ops one_instant (first_manager, {}) (second_manager, {''a1''})"
    using start_task_run [OF second_manager_start, of "{}"] first_manager_empty by simp
  then show ?thesis
    unfolding calm_ops_def by (rule learning_reachable_run [OF first_manager_reachable])
qed

section \<open>Properties\<close>






definition third_manager :: "sqlite_store lm_state" where
  "third_manager = update_task calm_ops noon ''a1'' (finish_change ''completed'' ''Task completed'' ''finished'')
     second_manager"

definition completed_task :: lm_task where
  "completed_task = the (map_of (lm_tasks third_manager) ''a1'')"

definition stopped_task :: lm_task where
  "stopped_task = the (map_of (lm_tasks (snd (stop_locked noon ''7'' ''a1'' third_manager))) ''a1'')"


section \<open>Controls\<close>

lemma merge_keeps_lookup:
  "map_of (lm_tasks m) k = Some t \<Longrightarrow> map_of (lm_tasks (snd (merge_task_from_store ops clk item m))) k = Some t"
  by (cases "k = py_strip (str_or_empty (dget item ''task_id''))")
     (auto simp: merge_task_from_store_def Let_def modify_task_other lookup_dset)

lemma load_keeps_lookup:
  "map_of (lm_tasks m) k = Some t \<Longrightarrow> map_of (lm_tasks (load_task_from_store ops clk u tid m)) k = Some t"
  by (auto simp: load_task_from_store_def Let_def split: prod.splits sum.splits option.splits
      intro: merge_keeps_lookup)

lemma load_unless_owned_lookup:
  "map_of (lm_tasks m) k = Some t \<Longrightarrow> map_of (lm_tasks (load_unless_owned ops clk nu nt m)) k = Some t"
  by (simp add: load_unless_owned_def load_keeps_lookup)

lemma owned_task_some:
  "map_of (lm_tasks m) nt = Some t \<Longrightarrow> owned_task nu nt m = (if py_str (owner_of_task t) = nu then Some t else None)"
  by (simp add: owned_task_def)

lemma load_unless_owned_idle: "owned_task nu nt m = Some t \<Longrightarrow> load_unless_owned ops clk nu nt m = m"
  by (simp add: load_unless_owned_def)

text \<open>
  C40: another user's task. For a user who does not own the task in the registry, \<open>pause_task\<close>,
  \<open>resume_task\<close> and \<open>stop_task\<close> answer "Task not found", \<open>get_task\<close> answers nothing, and the task is
  left as it is, events and logs included.
\<close>

theorem foreign_task_untouched:
  assumes "map_of (lm_tasks m) (py_strip tid) = Some t" and "py_str (owner_of_task t) \<noteq> py_strip u"
  shows "fst (pause_task ops clk u tid m) = not_found
      \<and> map_of (lm_tasks (snd (pause_task ops clk u tid m))) (py_strip tid) = Some t
    \<and> fst (resume_task ops clk u tid m) = not_found
      \<and> map_of (lm_tasks (snd (resume_task ops clk u tid m))) (py_strip tid) = Some t
    \<and> fst (stop_task ops clk u tid m) = not_found
      \<and> map_of (lm_tasks (snd (stop_task ops clk u tid m))) (py_strip tid) = Some t
    \<and> (map_of (lm_cleanup dt clk (lm_tasks m)) (py_strip tid) = Some t \<longrightarrow>
        fst (get_task ops dt clk u tid m) = None)"
proof -
  let ?nu = "py_strip u" and ?nt = "py_strip tid"
  note l = load_unless_owned_lookup [OF assms(1), of ops clk ?nu ?nt]
  from owned_task_some [OF l, of ?nu] assms(2)
  have none: "owned_task ?nu ?nt (load_unless_owned ops clk ?nu ?nt m) = None" by simp
  have "owned_task ?nu ?nt (load_unless_owned ops clk ?nu ?nt (m\<lparr>lm_tasks := lm_cleanup dt clk (lm_tasks m)\<rparr>)) = None"
    if "map_of (lm_cleanup dt clk (lm_tasks m)) ?nt = Some t"
    using owned_task_some [OF load_unless_owned_lookup [of "m\<lparr>lm_tasks := lm_cleanup dt clk (lm_tasks m)\<rparr>" ?nt t ops clk ?nu ?nt]]
      that assms(2) by simp
  with none l show ?thesis
    by (simp add: pause_task_def resume_task_def stop_task_def get_task_def
        pause_locked_def resume_locked_def stop_locked_def Let_def)
qed

theorem foreign_task_untouched_witness:
  "fst (pause_task calm_ops noon ''8'' ''a1'' second_manager) = not_found"
proof -
  have "map_of (lm_tasks second_manager) ''a1'' \<noteq> None" by code_simp
  then obtain t where t: "map_of (lm_tasks second_manager) ''a1'' = Some t" by blast
  have "map_option (\<lambda>t. py_str (owner_of_task t)) (map_of (lm_tasks second_manager) ''a1'') = Some ''7''"
    by code_simp
  with t have o: "py_str (owner_of_task t) = ''7''" by simp
  have p: "py_strip ''a1'' = ''a1''" "py_strip ''8'' = ''8''" by code_simp+
  from t have t': "map_of (lm_tasks second_manager) (py_strip ''a1'') = Some t" by (simp add: p)
  have "py_str (owner_of_task t) \<noteq> py_strip ''8''" by (simp add: o p)
  from foreign_task_untouched [OF t' this] show ?thesis by blast
qed

text \<open>
  pause and resume of an unfinished own task. Pausing answers "paused", clears the resume event
  and sets the status to \<open>paused\<close>; resuming answers "running", sets the event and the status back;
  no other task changes. Both log the change and write the logged state to the store.
\<close>

theorem pause_then_resume:
  assumes "map_of (lm_tasks m) tid = Some t" and "py_str (owner_of_task t) = py_strip u"
    and "py_strip tid = tid" and "\<not> is_finished t"
    and p: "pause_task ops clk u tid m = (reply, m1)" and r: "resume_task ops clk' u tid m1 = (reply', m2)"
  shows "reply = (PStr ''paused'', ''Task paused'')
    \<and> (\<exists>t1. map_of (lm_tasks m1) tid = Some t1 \<and> \<not> pause_set t1 \<and> status_of_task t1 = PStr ''paused''
         \<and> stop_set t1 = stop_set t
         \<and> last (as_list (dget (pub t1) ''logs'')) = log_entry clk ''Task paused'' ''warning''
         \<and> lm_store m1 = snd (persist_task_state ops (pub t1) (lm_store m)))
    \<and> reply' = (PStr ''running'', ''Task resumed'')
    \<and> (\<exists>t2. map_of (lm_tasks m2) tid = Some t2 \<and> pause_set t2 \<and> status_of_task t2 = PStr ''running''
         \<and> stop_set t2 = stop_set t)
    \<and> (\<forall>k. k \<noteq> tid \<longrightarrow> map_of (lm_tasks m2) k = map_of (lm_tasks m) k)"
proof -
  have own: "owned_task (py_strip u) tid m = Some t" using owned_task_some [OF assms(1)] assms(2) by simp
  let ?t = "t\<lparr>pause_set := False, pub := touch clk (dset ''message'' (PStr ''Task paused'')
      (dset ''status'' (PStr ''paused'') (pub t)))\<rparr>"
  have m1: "reply = (PStr ''paused'', ''Task paused'')"
    "m1 = append_task_log ops clk tid ''Task paused'' ''warning'' (put_task tid ?t m)"
    using p assms(3,4) own by (auto simp: pause_task_def pause_locked_def load_unless_owned_idle Let_def)
  obtain t1 where t1: "map_of (lm_tasks m1) tid = Some t1" "\<not> pause_set t1" "status_of_task t1 = PStr ''paused''"
      "owner_of_task t1 = owner_of_task t" "stop_set t1 = stop_set t"
      "last (as_list (dget (pub t1) ''logs'')) = log_entry clk ''Task paused'' ''warning''"
      "lm_store m1 = snd (persist_task_state ops (pub t1) (lm_store m))"
    unfolding m1(2) by (auto simp: append_task_log_def modify_task_def prepare_persist_locked_def put_task_def
        status_of_task_def owner_of_task_def Let_def last_add_log persist_request_def)
  have own1: "owned_task (py_strip u) tid m1 = Some t1" using owned_task_some [OF t1(1)] t1(4) assms(2) by simp
  have nf: "\<not> is_finished t1" by (simp add: is_finished_def t1(3) FINISHED_STATUSES_def)
  let ?t2 = "t1\<lparr>pause_set := True, pub := touch clk' (dset ''message'' (PStr ''Task resumed'')
      (dset ''status'' (PStr ''running'') (pub t1)))\<rparr>"
  have m2: "reply' = (PStr ''running'', ''Task resumed'')"
    "m2 = append_task_log ops clk' tid ''Task resumed'' ''info'' (put_task tid ?t2 m1)"
    using r assms(3) nf own1 by (auto simp: resume_task_def resume_locked_def load_unless_owned_idle Let_def)
  have "\<exists>t2. map_of (lm_tasks m2) tid = Some t2 \<and> pause_set t2 \<and> status_of_task t2 = PStr ''running''
      \<and> stop_set t2 = stop_set t"
    unfolding m2(2) using t1(5) by (auto simp: append_task_log_def modify_task_same put_task_def status_of_task_def)
  moreover have "map_of (lm_tasks m2) k = map_of (lm_tasks m) k" if "k \<noteq> tid" for k
    unfolding m2(2) m1(2) append_task_log_def using that by (simp add: modify_task_other put_task_def)
  ultimately show ?thesis using m1(1) m2(1) t1 by blast
qed

definition paused_manager :: "sqlite_store lm_state" where
  "paused_manager = snd (pause_task calm_ops noon ''7'' ''a1'' second_manager)"

lemma second_task:
  obtains t where "map_of (lm_tasks second_manager) ''a1'' = Some t" "py_str (owner_of_task t) = ''7''"
    "status_of_task t = PStr ''pending''"
proof -
  have "map_option (\<lambda>t. (py_str (owner_of_task t), status_of_task t)) (map_of (lm_tasks second_manager) ''a1'')
      = Some (''7'', PStr ''pending'')" by code_simp
  then show thesis by (auto intro: that)
qed

theorem pause_then_resume_witness:
  "fst (resume_task calm_ops noon ''7'' ''a1'' paused_manager) = (PStr ''running'', ''Task resumed'')"
proof -
  obtain t where t: "map_of (lm_tasks second_manager) ''a1'' = Some t" "py_str (owner_of_task t) = ''7''"
    "status_of_task t = PStr ''pending''" by (rule second_task)
  have p: "py_strip ''a1'' = ''a1''" "py_strip ''7'' = ''7''" by code_simp+
  have "\<not> is_finished t" by (simp add: is_finished_def t(3) FINISHED_STATUSES_def)
  moreover have "pause_task calm_ops noon ''7'' ''a1'' second_manager
      = (fst (pause_task calm_ops noon ''7'' ''a1'' second_manager), paused_manager)"
    by (simp add: paused_manager_def)
  moreover have "resume_task calm_ops noon ''7'' ''a1'' paused_manager
      = (fst (resume_task calm_ops noon ''7'' ''a1'' paused_manager), snd (resume_task calm_ops noon ''7'' ''a1'' paused_manager))"
    by simp
  ultimately show ?thesis
    using pause_then_resume [of second_manager "''a1''" t "''7''"] t(1,2) p by metis
qed

text \<open>
  a control whose task id carries surrounding blanks finds the task and changes its status in
  memory, but logs under the id as given, which no task has: nothing is logged and the new status
  is not written to the store.
\<close>

theorem padded_pause_not_persisted:
  assumes "map_of (lm_tasks m) (py_strip tid) = Some t" and "py_str (owner_of_task t) = py_strip u"
    and "\<not> is_finished t" and "map_of (lm_tasks m) tid = None"
  shows "fst (pause_task ops clk u tid m) = (PStr ''paused'', ''Task paused'')
    \<and> (\<exists>t1. map_of (lm_tasks (snd (pause_task ops clk u tid m))) (py_strip tid) = Some t1
         \<and> status_of_task t1 = PStr ''paused'' \<and> dget (pub t1) ''logs'' = dget (pub t) ''logs'')
    \<and> lm_store (snd (pause_task ops clk u tid m)) = lm_store m"
proof -
  have own: "owned_task (py_strip u) (py_strip tid) m = Some t"
    using owned_task_some [OF assms(1)] assms(2) by simp
  have "tid \<noteq> py_strip tid" using assms(1,4) by auto
  with own assms(3,4) show ?thesis
    by (auto simp: pause_task_def pause_locked_def load_unless_owned_idle Let_def put_task_def
        append_task_log_def modify_task_def status_of_task_def split: option.splits)
qed

theorem padded_pause_not_persisted_witness:
  "lm_store (snd (pause_task calm_ops noon ''7'' '' a1'' second_manager)) = lm_store second_manager"
proof -
  obtain t where t: "map_of (lm_tasks second_manager) ''a1'' = Some t" "py_str (owner_of_task t) = ''7''"
    "status_of_task t = PStr ''pending''" by (rule second_task)
  have p: "py_strip '' a1'' = ''a1''" "py_strip ''7'' = ''7''" by code_simp+
  have n: "map_of (lm_tasks second_manager) '' a1'' = None" by code_simp
  have "\<not> is_finished t" by (simp add: is_finished_def t(3) FINISHED_STATUSES_def)
  with padded_pause_not_persisted [of second_manager "'' a1''" t "''7''", OF _ _ _ n] t p show ?thesis by simp
qed

end
