(* ===== verification/Task_Input.thy ===== *)
theory Task_Input
  imports Py_Prelude "HOL-Library.Sublist"
begin

text \<open>
  What the learning service does with a request before it studies anything: the numbers it clamps,
  the course selectors and chapter limits it parses, the courses it selects
  (\<open>learning_manager.py\<close>) and the answer-provider configuration it normalises
  (\<open>payload_mapper.py\<close>).

  A float is its text; reading one and comparing two are the language's, and are parameters.
\<close>

record num_lib =
  to_float :: "pyval \<Rightarrow> string option"
  float_less :: "string \<Rightarrow> string \<Rightarrow> bool"
  to_int :: "pyval \<Rightarrow> int option"

section \<open>Numbers\<close>

text \<open>\<open>max(minimum, min(maximum, parsed))\<close>: \<open>min\<close> and \<open>max\<close> return their first argument unless the second is smaller (larger)\<close>

definition clamp_float :: "num_lib \<Rightarrow> string \<Rightarrow> string \<Rightarrow> string \<Rightarrow> string" where
  "clamp_float lib minimum maximum parsed =
     (let low = (if float_less lib parsed maximum then parsed else maximum)
      in if float_less lib minimum low then low else minimum)"

definition as_float :: "num_lib \<Rightarrow> pyval \<Rightarrow> string \<Rightarrow> string \<Rightarrow> string \<Rightarrow> string" where
  "as_float lib value default_value minimum maximum =
     (case to_float lib value of
        None \<Rightarrow> default_value
      | Some parsed \<Rightarrow> clamp_float lib minimum maximum parsed)"

definition as_int :: "num_lib \<Rightarrow> pyval \<Rightarrow> int \<Rightarrow> int \<Rightarrow> int \<Rightarrow> int" where
  "as_int lib value default_value minimum maximum =
     (case to_int lib value of
        None \<Rightarrow> default_value
      | Some parsed \<Rightarrow> max minimum (min maximum parsed))"

section \<open>Course selectors\<close>

type_synonym selector = "string \<times> string option \<times> string option"

text \<open>\<open>None\<close> is the \<open>IndexError\<close> of \<open>parts[0]\<close>: a text of underscores only has no part.\<close>

definition parse_course_selector :: "pyval \<Rightarrow> selector option" where
  "parse_course_selector raw =
     (let text = py_strip (str_or_empty raw)
      in if text = [] then Some ([], None, None)
         else (case filter (\<lambda>part. part \<noteq> []) (split_on (CHR ''_'') text) of
                 [] \<Rightarrow> None
               | [a] \<Rightarrow> Some (a, None, None)
               | [a, b] \<Rightarrow> Some (a, Some b, None)
               | a # b # c # _ \<Rightarrow> Some (a, Some b, Some c)))"

definition given :: "string option \<Rightarrow> bool" where
  "given t = (t \<noteq> None \<and> t \<noteq> Some [])"

fun course_matches_selector :: "pydict \<Rightarrow> selector \<Rightarrow> bool" where
  "course_matches_selector course (target_course, target_clazz, target_cpi) =
     (if target_course \<noteq> [] \<and> str_or_empty (dget course ''courseId'') \<noteq> target_course then False
      else if given target_clazz \<and> Some (str_or_empty (dget course ''clazzId'')) \<noteq> target_clazz then False
      else if given target_cpi \<and> Some (str_or_empty (dget course ''cpi'')) \<noteq> target_cpi then False
      else True)"

definition normalize_chapter_limits :: "pyval \<Rightarrow> (string \<times> string) list" where
  "normalize_chapter_limits raw =
     (case raw of
        PDict d \<Rightarrow>
          fold (\<lambda>(key, point_id) limits.
            let selector_text = py_strip key; point_text = py_strip (str_or_empty point_id)
            in if selector_text \<noteq> [] \<and> point_text \<noteq> [] then dset selector_text point_text limits else limits) d []
      | _ \<Rightarrow> [])"

fun specificity :: "selector \<Rightarrow> nat" where
  "specificity (a, b, c) =
     (if a \<noteq> [] then 1 else 0) + (if given b then 1 else 0) + (if given c then 1 else 0)"

text \<open>The loop of \<open>_chapter_limit_for\<close> over the limits, with the best match so far\<close>

fun best_limit ::
  "pydict \<Rightarrow> (string \<times> string) list \<Rightarrow> string option \<times> nat \<Rightarrow> (string option \<times> nat) option" where
  "best_limit course [] best = Some best"
| "best_limit course ((sel, point_id) # limits) (best_point, best_specificity) =
     (case parse_course_selector (PStr sel) of
        None \<Rightarrow> None
      | Some parsed \<Rightarrow>
          (if fst parsed = [] \<or> \<not> course_matches_selector course parsed
           then best_limit course limits (best_point, best_specificity)
           else if best_specificity < specificity parsed
           then best_limit course limits (Some point_id, specificity parsed)
           else best_limit course limits (best_point, best_specificity)))"

definition chapter_limit_for :: "pydict \<Rightarrow> (string \<times> string) list \<Rightarrow> string option option" where
  "chapter_limit_for course limits = map_option fst (best_limit course limits (None, 0))"

fun points_up_to :: "pydict list \<Rightarrow> string \<Rightarrow> pydict list option" where
  "points_up_to [] end_point_id = None"
| "points_up_to (point # points) end_point_id =
     (if str_or_empty (dget point ''id'') = end_point_id then Some [point]
      else map_option (Cons point) (points_up_to points end_point_id))"

definition dget_or :: "pydict \<Rightarrow> string \<Rightarrow> pyval \<Rightarrow> pyval" where
  "dget_or d k v = (case map_of d k of None \<Rightarrow> v | Some w \<Rightarrow> w)"

definition course_label :: "pydict \<Rightarrow> string" where
  "course_label course =
     (let title = py_strip (str_or_empty (dget course ''title''));
          name = py_strip (str_or_empty (dget course ''courseName''))
      in if title \<noteq> [] then title else if name \<noteq> [] then name
         else py_str (dget_or course ''courseId'' (PStr ''course'')))"

section \<open>Selecting courses\<close>

definition course_identity :: "pydict \<Rightarrow> string" where
  "course_identity course =
     str_or_empty (dget course ''courseId'') @ ''_'' @ str_or_empty (dget course ''clazzId'')
       @ ''_'' @ str_or_empty (dget course ''cpi'')"

fun select_loop :: "selector list \<Rightarrow> pydict list \<Rightarrow> string list \<Rightarrow> pydict list" where
  "select_loop parsed [] seen = []"
| "select_loop parsed (course # courses) seen =
     (if list_ex (course_matches_selector course) parsed \<and> course_identity course \<notin> set seen
      then course # select_loop parsed courses (course_identity course # seen)
      else select_loop parsed courses seen)"

text \<open>\<open>_select_courses\<close>; \<open>None\<close> where parsing a selector raises\<close>

definition select_courses :: "pydict list \<Rightarrow> string list \<Rightarrow> pydict list option" where
  "select_courses all_courses selectors =
     (if selectors = [] then Some all_courses
      else map_option (\<lambda>parsed. select_loop parsed all_courses [])
             (those (map (\<lambda>s. parse_course_selector (PStr s)) selectors)))"

section \<open>The answer-provider configuration\<close>

definition as_csv_text :: "pyval \<Rightarrow> string" where
  "as_csv_text value =
     (case value of
        PNone \<Rightarrow> []
      | PList xs \<Rightarrow> join_with '','' (filter (\<lambda>s. s \<noteq> []) (map (\<lambda>v. py_strip (py_str v)) xs))
      | v \<Rightarrow> py_strip (py_str v))"

definition py_or :: "pyval \<Rightarrow> pyval \<Rightarrow> pyval" where
  "py_or v w = (if truthy v then v else w)"

definition map_judgements :: "pydict \<Rightarrow> pydict" where
  "map_judgements config =
     (case dget config ''judge_mapping'' of
        PDict j \<Rightarrow>
          (let true_list = as_csv_text (dget j ''correct'');
               false_list = as_csv_text (dget j ''wrong'');
               config = (if true_list \<noteq> [] then dset ''true_list'' (PStr true_list) config else config)
           in if false_list \<noteq> [] then dset ''false_list'' (PStr false_list) config else config)
      | _ \<Rightarrow> config)"

definition map_submit_mode :: "pydict \<Rightarrow> pydict" where
  "map_submit_mode config =
     (let submit_mode = py_lower (py_strip (str_or_empty (dget config ''submit_mode'')))
      in if map_of config ''submit_mode'' \<noteq> None \<and> submit_mode \<noteq> []
         then dset ''submit'' (PStr (if submit_mode \<in> {''submit'', ''auto'', ''direct''} then ''true'' else ''false'')) config
         else config)"

definition TOKEN_REQUIRED_PROVIDERS :: "string list" where
  "TOKEN_REQUIRED_PROVIDERS = [''TikuYanxi'', ''TikuLike'']"

definition usable_providers :: "string \<Rightarrow> pydict \<Rightarrow> string list" where
  "usable_providers token_text config =
     (let providers = filter (\<lambda>name. name \<noteq> [])
            (map py_strip (split_on (CHR '','') (str_or_empty (dget config ''provider''))))
      in if token_text = [] then filter (\<lambda>name. name \<notin> set TOKEN_REQUIRED_PROVIDERS) providers
         else providers)"

definition normalize_tiku_config :: "num_lib \<Rightarrow> pyval \<Rightarrow> pydict" where
  "normalize_tiku_config lib raw_config =
     (case raw_config of
        PDict raw \<Rightarrow>
          (let config = raw;
               token_text = as_csv_text (py_or (dget config ''tokens'') (dget config ''token''));
               config = (if token_text \<noteq> [] then dset ''tokens'' (PStr token_text) config else config);
               cover_rate = dget_or config ''coverage_threshold'' (dget config ''cover_rate'');
               config = (if cover_rate \<notin> {PNone, PStr []}
                         then dset ''cover_rate'' (PFloat (as_float lib cover_rate ''0.8'' ''0.0'' ''1.0'')) config
                         else config);
               config = map_submit_mode (map_judgements config);
               providers = usable_providers token_text config
           in if providers \<noteq> [] then dset ''provider'' (PStr (join_with '','' providers)) config
              else dpop ''provider'' config)
      | _ \<Rightarrow> [])"

section \<open>Lemmas\<close>

lemma as_int_bounds:
  "minimum \<le> maximum \<Longrightarrow> minimum \<le> d \<Longrightarrow> d \<le> maximum \<Longrightarrow>
     minimum \<le> as_int lib v d minimum maximum \<and> as_int lib v d minimum maximum \<le> maximum"
  by (auto simp: as_int_def split: option.splits)

lemma clamp_float_cases:
  "clamp_float lib lo hi v \<in> {lo, hi} \<or> (float_less lib v hi \<and> float_less lib lo v \<and> clamp_float lib lo hi v = v)"
  by (auto simp: clamp_float_def Let_def)

lemma points_up_to_Some:
  "points_up_to points e = Some ps \<Longrightarrow>
     (\<exists>rest. points = ps @ rest) \<and> ps \<noteq> [] \<and> str_or_empty (dget (last ps) ''id'') = e
     \<and> (\<forall>p \<in> set (butlast ps). str_or_empty (dget p ''id'') \<noteq> e)"
  by (induction points arbitrary: ps) (auto split: if_splits)

lemma points_up_to_None: "points_up_to points e = None \<longleftrightarrow> (\<forall>p \<in> set points. str_or_empty (dget p ''id'') \<noteq> e)"
  by (induction points) auto

lemma select_loop_sublist: "subseq (select_loop parsed courses seen) courses"
  by (induction parsed courses seen rule: select_loop.induct) auto

lemma select_loop_distinct:
  "distinct (map course_identity (select_loop parsed courses seen))
     \<and> course_identity ` set (select_loop parsed courses seen) \<inter> set seen = {}"
proof (induction parsed courses seen rule: select_loop.induct)
  case (2 parsed course courses seen)
  then show ?case by (cases "list_ex (course_matches_selector course) parsed \<and> course_identity course \<notin> set seen") auto
qed simp

lemma those_Some: "those xs = Some ys \<longleftrightarrow> xs = map Some ys"
  by (induction xs arbitrary: ys) (auto split: option.splits)

lemma select_loop_matches:
  "c \<in> set (select_loop parsed courses seen) \<Longrightarrow> \<exists>s \<in> set parsed. course_matches_selector c s"
  by (induction parsed courses seen rule: select_loop.induct) (auto simp: list_ex_iff split: if_splits)

lemma select_loop_complete:
  "c \<in> set courses \<Longrightarrow> s \<in> set parsed \<Longrightarrow> course_matches_selector c s \<Longrightarrow> course_identity c \<notin> set seen \<Longrightarrow>
     \<exists>c' \<in> set (select_loop parsed courses seen). course_identity c' = course_identity c"
proof (induction parsed courses seen rule: select_loop.induct)
  case (2 parsed course courses seen)
  show ?case
  proof (cases "list_ex (course_matches_selector course) parsed \<and> course_identity course \<notin> set seen")
    case True
    then show ?thesis using 2 by (cases "course_identity c = course_identity course") auto
  next
    case False
    then have "c \<noteq> course" using 2(4-6) by (auto simp: list_ex_iff)
    with False 2 show ?thesis by auto
  qed
qed simp

text \<open>The limits that apply to a course, with how specific each is\<close>

definition applicable :: "pydict \<Rightarrow> (string \<times> string) list \<Rightarrow> (string \<times> nat) list" where
  "applicable course limits =
     List.map_filter (\<lambda>(sel, point_id). case parse_course_selector (PStr sel) of
        None \<Rightarrow> None
      | Some parsed \<Rightarrow> if fst parsed \<noteq> [] \<and> course_matches_selector course parsed
                      then Some (point_id, specificity parsed) else None) limits"

lemma applicable_Nil [simp]: "applicable course [] = []"
  by (simp add: applicable_def map_filter_simps)

lemma applicable_Cons:
  "applicable course ((sel, point_id) # limits) =
     (case parse_course_selector (PStr sel) of
        None \<Rightarrow> applicable course limits
      | Some parsed \<Rightarrow> if fst parsed \<noteq> [] \<and> course_matches_selector course parsed
                      then (point_id, specificity parsed) # applicable course limits
                      else applicable course limits)"
  by (auto simp: applicable_def map_filter_simps split: option.splits)

lemma best_limit_result:
  assumes "best_limit course limits (b, n) = Some (p, k)"
  shows "n \<le> k \<and> (\<forall>x \<in> set (applicable course limits). snd x \<le> k)
    \<and> (p = b \<and> k = n \<or> (\<exists>q. p = Some q \<and> (q, k) \<in> set (applicable course limits)))"
  using assms
proof (induction limits arbitrary: b n)
  case Nil
  then show ?case by auto
next
  case (Cons l limits)
  obtain sel pid where l: "l = (sel, pid)" by fastforce
  from Cons.prems l obtain parsed where p: "parse_course_selector (PStr sel) = Some parsed"
    by (auto split: option.splits)
  show ?case
  proof (cases "fst parsed = [] \<or> \<not> course_matches_selector course parsed")
    case True
    with Cons.prems l p have "best_limit course limits (b, n) = Some (p, k)" by simp
    from Cons.IH [OF this] True l p show ?thesis by (auto simp: applicable_Cons)
  next
    case False
    show ?thesis
    proof (cases "n < specificity parsed")
      case True
      with Cons.prems l p False have "best_limit course limits (Some pid, specificity parsed) = Some (p, k)" by simp
      from Cons.IH [OF this] True False l p show ?thesis by (auto simp: applicable_Cons)
    next
      case less: False
      with Cons.prems l p False have "best_limit course limits (b, n) = Some (p, k)" by simp
      from Cons.IH [OF this] less False l p show ?thesis by (auto simp: applicable_Cons)
    qed
  qed
qed

lemma specificity_pos: "fst parsed \<noteq> [] \<Longrightarrow> 0 < specificity parsed"
  by (cases parsed) auto

lemma applicable_pos: "x \<in> set (applicable course limits) \<Longrightarrow> 0 < snd x"
  by (induction limits) (auto simp: applicable_Cons specificity_pos split: option.splits if_splits)

lemma no_token_providers:
  "token_text = [] \<Longrightarrow> set (usable_providers token_text config) \<inter> set TOKEN_REQUIRED_PROVIDERS = {}"
  by (auto simp: usable_providers_def)

lemma underscores_have_no_part:
  "set t \<subseteq> {CHR ''_''} \<Longrightarrow> filter (\<lambda>part. part \<noteq> []) (split_on (CHR ''_'') t) = []"
  by (induction t) auto

section \<open>Properties\<close>

text \<open>
  course selection. With selectors, the selected courses are a subsequence of all courses with
  no two of the same course, class and cpi; each matches a selector; and every course that matches
  one is selected or has the same identity as one that is.
\<close>

theorem select_courses_correct:
  assumes "select_courses all_courses selectors = Some selected" and "selectors \<noteq> []"
  shows "subseq selected all_courses \<and> distinct (map course_identity selected)
    \<and> (\<forall>c \<in> set selected. \<exists>s \<in> set selectors. \<exists>p. parse_course_selector (PStr s) = Some p
          \<and> course_matches_selector c p)
    \<and> (\<forall>c \<in> set all_courses. \<forall>s \<in> set selectors. \<forall>p. parse_course_selector (PStr s) = Some p \<longrightarrow>
          course_matches_selector c p \<longrightarrow> (\<exists>c' \<in> set selected. course_identity c' = course_identity c))"
proof -
  obtain parsed where p: "those (map (\<lambda>s. parse_course_selector (PStr s)) selectors) = Some parsed"
    and sel: "selected = select_loop parsed all_courses []"
    using assms by (auto simp: select_courses_def)
  have m: "map (\<lambda>s. parse_course_selector (PStr s)) selectors = map Some parsed"
    using p by (simp add: those_Some)
  have in1: "\<exists>s \<in> set selectors. parse_course_selector (PStr s) = Some q" if "q \<in> set parsed" for q
  proof -
    have "Some q \<in> (\<lambda>s. parse_course_selector (PStr s)) ` set selectors"
      using that arg_cong [OF m, of set] by simp
    then show ?thesis by force
  qed
  have in2: "q \<in> set parsed" if "s \<in> set selectors" "parse_course_selector (PStr s) = Some q" for s q
  proof -
    have "Some q \<in> (\<lambda>s. parse_course_selector (PStr s)) ` set selectors" using that by force
    then show ?thesis using arg_cong [OF m, of set] by auto
  qed
  have d: "distinct (map course_identity (select_loop parsed all_courses []))"
    using select_loop_distinct [of parsed all_courses "[]"] by blast
  have m1: "\<exists>s \<in> set selectors. \<exists>p. parse_course_selector (PStr s) = Some p \<and> course_matches_selector c p"
    if "c \<in> set (select_loop parsed all_courses [])" for c
    using select_loop_matches [OF that] in1 by blast
  have m2: "\<exists>c' \<in> set (select_loop parsed all_courses []). course_identity c' = course_identity c"
    if "c \<in> set all_courses" "s \<in> set selectors" "parse_course_selector (PStr s) = Some p"
      "course_matches_selector c p" for c s p
    by (rule select_loop_complete [OF that(1) in2 [OF that(2,3)] that(4)]) simp
  show ?thesis
    unfolding sel using select_loop_sublist d m1 m2 by blast
qed

definition maths :: pydict where
  "maths = [(''courseId'', PStr ''100''), (''clazzId'', PStr ''5''), (''cpi'', PStr ''9'')]"

definition physics :: pydict where
  "physics = [(''courseId'', PStr ''200''), (''clazzId'', PStr ''6''), (''cpi'', PStr ''9'')]"

theorem select_courses_correct_witness:
  "subseq [maths] [physics, maths, maths]"
proof -
  have "select_courses [physics, maths, maths] [''100_5''] = Some [maths]" by code_simp
  then show ?thesis using select_courses_correct by blast
qed

text \<open>
  chapter limits. The limit that applies to a course is one of the most specific selectors that
  match it; there is none exactly when no selector matches.
\<close>

theorem chapter_limit_most_specific:
  assumes "chapter_limit_for course limits = Some r"
  shows "(case r of
      None \<Rightarrow> applicable course limits = []
    | Some p \<Rightarrow> \<exists>k. (p, k) \<in> set (applicable course limits) \<and> (\<forall>x \<in> set (applicable course limits). snd x \<le> k))"
proof -
  obtain k where b: "best_limit course limits (None, 0) = Some (r, k)"
    using assms by (auto simp: chapter_limit_for_def)
  note best = best_limit_result [OF b]
  show ?thesis
  proof (cases r)
    case None
    with best have "k = 0" by auto
    with best have no: "x \<notin> set (applicable course limits)" for x
      using applicable_pos [of x course limits] by auto
    show ?thesis
    proof (cases "applicable course limits")
      case (Cons x xs)
      with no [of x] show ?thesis by simp
    qed (simp add: None)
  next
    case (Some p)
    with best show ?thesis by auto
  qed
qed

theorem chapter_limit_most_specific_witness:
  "\<exists>k. (''b'', k) \<in> set (applicable maths [(''100'', ''a''), (''100_5_9'', ''b'')])
    \<and> (\<forall>x \<in> set (applicable maths [(''100'', ''a''), (''100_5_9'', ''b'')]). snd x \<le> k)"
proof -
  have "chapter_limit_for maths [(''100'', ''a''), (''100_5_9'', ''b'')] = Some (Some ''b'')" by code_simp
  from chapter_limit_most_specific [OF this] show ?thesis by simp
qed

text \<open>
  a selector that is nothing but underscores (between blanks) makes parsing raise
  (\<open>parts[0]\<close> of an empty list), and with it the selection of courses and the look-up of limits.
\<close>

theorem underscore_selector_raises:
  assumes "set (py_strip s) = {CHR ''_''}"
  shows "parse_course_selector (PStr s) = None
    \<and> select_courses all_courses (selectors1 @ s # selectors2) = None
    \<and> chapter_limit_for course ((s, p) # limits) = None"
proof -
  have "py_strip s \<noteq> []" using assms by force
  moreover have "filter (\<lambda>part. part \<noteq> []) (split_on (CHR ''_'') (py_strip s)) = []"
    by (rule underscores_have_no_part) (simp add: assms)
  ultimately have none: "parse_course_selector (PStr s) = None"
    by (simp add: parse_course_selector_def Let_def)
  then have "those (map (\<lambda>s. parse_course_selector (PStr s)) (selectors1 @ s # selectors2)) = None"
    by (induction selectors1) (auto split: option.splits)
  with none show ?thesis by (simp add: select_courses_def chapter_limit_for_def)
qed

theorem underscore_selector_raises_witness:
  "select_courses [maths] [''100'', '' __ ''] = None"
proof -
  have "py_strip '' __ '' = ''__''" by code_simp
  then have "set (py_strip '' __ '') = {CHR ''_''}" by simp
  from underscore_selector_raises [OF this, of "[maths]" "[''100'']" "[]"] show ?thesis by simp
qed

text \<open>
  the chapters studied under a limit are a non-empty prefix of the course that ends with the
  chosen chapter and meets it nowhere before; without that chapter there is nothing to study.
\<close>

theorem points_up_to_correct:
  "case points_up_to points e of
     None \<Rightarrow> \<forall>p \<in> set points. str_or_empty (dget p ''id'') \<noteq> e
   | Some ps \<Rightarrow> (\<exists>rest. points = ps @ rest) \<and> ps \<noteq> [] \<and> str_or_empty (dget (last ps) ''id'') = e
       \<and> (\<forall>p \<in> set (butlast ps). str_or_empty (dget p ''id'') \<noteq> e)"
  using points_up_to_Some [of points e] points_up_to_None [of points e] by (cases "points_up_to points e") auto

definition chapter_a :: pydict where "chapter_a = [(''id'', PInt 1)]"
definition chapter_b :: pydict where "chapter_b = [(''id'', PInt 2)]"

theorem points_up_to_correct_witness:
  "points_up_to [chapter_a, chapter_b, chapter_a] ''2'' = Some [chapter_a, chapter_b]
   \<and> (\<exists>rest. [chapter_a, chapter_b, chapter_a] = [chapter_a, chapter_b] @ rest)"
proof -
  have "points_up_to [chapter_a, chapter_b, chapter_a] ''2'' = Some [chapter_a, chapter_b]" by code_simp
  with points_up_to_correct [of "[chapter_a, chapter_b, chapter_a]" "''2''"] show ?thesis by simp
qed

end
