(* ===== verification/Learning_Worker.thy ===== *)
theory Learning_Worker
  imports Learning_Service Task_Input
begin

text \<open>
  The worker of a learning task (\<open>_run_task_worker\<close> and its callbacks in \<open>learning_manager.py\<close>).
  What it does to the manager is a list of acts, computed from the request and from what it
  observes: the answers of the Chaoxing client, the stop and pause events as it reads them, what
  the job processor reports. Carrying the acts out on the manager is a run of the service from a
  live task to one with a final status.
\<close>

section \<open>Acts\<close>

datatype worker_act =
    Update pydict
  | Progress pydict
  | Increase string int
  | Log string string
  | Failure pydict
  | Cancel string
  | Fail string

fun run_act :: "'s store_ops \<Rightarrow> string \<Rightarrow> lm_clock \<times> worker_act \<Rightarrow> 's lm_state \<Rightarrow> 's lm_state" where
  "run_act ops tid (clk, Update ch) m = update_task ops clk tid ch m"
| "run_act ops tid (clk, Progress upd) m = update_progress ops clk tid upd m"
| "run_act ops tid (clk, Increase key n) m = increase_progress ops clk tid key n m"
| "run_act ops tid (clk, Log msg lvl) m = append_task_log ops clk tid msg lvl m"
| "run_act ops tid (clk, Failure f) m = record_failure ops clk tid f m"
| "run_act ops tid (clk, Cancel msg) m = cancel_task ops clk tid msg m"
| "run_act ops tid (clk, Fail msg) m = fail_task ops clk tid msg m"

definition run_acts :: "'s store_ops \<Rightarrow> string \<Rightarrow> (lm_clock \<times> worker_act) list \<Rightarrow> 's lm_state \<Rightarrow> 's lm_state" where
  "run_acts ops tid acts m = fold (run_act ops tid) acts m"

section \<open>The request\<close>

record common_config =
  cc_username :: string
  cc_password :: string
  cc_course_list :: "string list"
  cc_speed :: string
  cc_jobs :: int
  cc_notopen_action :: string

definition requested_courses :: "pydict \<Rightarrow> string list" where
  "requested_courses payload =
     (case py_or (dget payload ''course_ids'') (dget payload ''course_list'') of
        PList items \<Rightarrow> map py_str (filter (\<lambda>item. py_strip (py_str item) \<noteq> []) items)
      | _ \<Rightarrow> [])"

definition requested_notopen_action :: "pydict \<Rightarrow> string" where
  "requested_notopen_action payload =
     (let action = py_lower (py_strip (py_str (py_or (py_or (dget payload ''unopened_strategy'')
                      (dget payload ''notopen_action'')) (PStr ''retry''))))
      in if action \<in> {''retry'', ''ask'', ''continue''} then action else ''retry'')"

definition common_config_of :: "num_lib \<Rightarrow> string \<Rightarrow> string \<Rightarrow> pydict \<Rightarrow> common_config" where
  "common_config_of lib username password payload =
     \<lparr>cc_username = username, cc_password = password,
      cc_course_list = requested_courses payload,
      cc_speed = as_float lib (dget payload ''speed'') ''1.5'' ''1.0'' ''2.0'',
      cc_jobs = as_int lib (dget_or payload ''concurrency'' (dget payload ''jobs'')) 4 1 16,
      cc_notopen_action = requested_notopen_action payload\<rparr>"

section \<open>Waiting and callbacks\<close>

text \<open>
  \<open>_wait_for_resume\<close> over the events as it reads them: (stop set, resumed). The last argument is
  the stop event as read when the loop is left; no result where the reads run out before that.
\<close>

definition paused_update :: worker_act where
  "paused_update = Update [(''status'', PStr ''paused''), (''message'', PStr ''Task paused''),
     (''current_task'', PStr ''paused'')]"

fun wait_for_resume :: "(bool \<times> bool) list \<Rightarrow> bool \<Rightarrow> (worker_act list \<times> bool) option" where
  "wait_for_resume [] stopped = None"
| "wait_for_resume ((stop, resumed) # reads) stopped =
     (if \<not> stop \<and> \<not> resumed
      then map_option (\<lambda>(acts, go). (paused_update # acts, go)) (wait_for_resume reads stopped)
      else Some ([], \<not> stopped))"

text \<open>
  What happens inside \<open>processor.run()\<close>, in the order of the callbacks. The texts of a failure are
  opaque here: they are the reason and the hint of \<open>_describe_chapter_failure\<close>.
\<close>

datatype failure_text = NotOpenReason | ErrorReason string | JobFailedReason

definition describe_chapter_failure :: "bool \<Rightarrow> string \<Rightarrow> failure_text" where
  "describe_chapter_failure not_open error =
     (if not_open then NotOpenReason else if error \<noteq> [] then ErrorReason error else JobFailedReason)"

record failure_lib =
  reason_of :: "failure_text \<Rightarrow> string"
  hint_of :: "failure_text \<Rightarrow> string"
  retry_line :: "string \<Rightarrow> int \<Rightarrow> string \<Rightarrow> string"
  give_up_line :: "string \<Rightarrow> int \<Rightarrow> string \<Rightarrow> string \<Rightarrow> string"

datatype chapter_event =
    ChapterStart bool "(bool \<times> bool) list" bool pydict
  | ChapterDone
  | VideoProgress bool "(bool \<times> bool) list" bool int string string string
  | ChapterFailure pydict bool string bool int

definition VIDEO_TICK :: int where
  "VIDEO_TICK = 800000"

definition wait_acts :: "(bool \<times> bool) list \<Rightarrow> bool \<Rightarrow> worker_act list" where
  "wait_acts reads stopped = (case wait_for_resume reads stopped of None \<Rightarrow> [] | Some (acts, _) \<Rightarrow> acts)"

text \<open>One callback; the state is the time of the last video tick that was let through\<close>

fun chapter_callback ::
  "failure_lib \<Rightarrow> string \<Rightarrow> chapter_event \<Rightarrow> int \<Rightarrow> worker_act list \<times> int" where
  "chapter_callback fl course_name (ChapterStart stop reads stopped point) tick =
     (if stop then ([], tick)
      else (wait_acts reads stopped @
              [Progress [(''current_course'', PStr course_name),
                         (''current_chapter'', PStr (str_or_empty (dget point ''title'')))],
               Update [(''current_task'', PStr (''chapter:'' @ py_str (dget_or point ''title'' (PStr []))))]], tick))"
| "chapter_callback fl course_name ChapterDone tick = ([Increase ''completed_chapters'' 1], tick)"
| "chapter_callback fl course_name (VideoProgress stop reads stopped now name current duration) tick =
     (if stop then ([], tick)
      else if now - tick < VIDEO_TICK then (wait_acts reads stopped, tick)
      else (wait_acts reads stopped @
              [Progress [(''video_progress'', PDict [(''name'', PStr name), (''current'', PFloat current),
                                                    (''duration'', PFloat duration)])]], now))"
| "chapter_callback fl course_name (ChapterFailure point not_open error final max_tries) tick =
     (let title = str_or_empty (dget point ''title'');
          why = describe_chapter_failure not_open error
      in if \<not> final then ([Log (retry_line fl title max_tries (reason_of fl why)) ''warning''], tick)
         else ([Log (give_up_line fl title max_tries (reason_of fl why) (hint_of fl why)) ''error'',
                Failure [(''course'', PStr course_name), (''chapter'', PStr title),
                         (''reason'', PStr (reason_of fl why)), (''hint'', PStr (hint_of fl why))]], tick))"

fun callbacks :: "failure_lib \<Rightarrow> string \<Rightarrow> chapter_event list \<Rightarrow> int \<Rightarrow> worker_act list" where
  "callbacks fl course_name [] tick = []"
| "callbacks fl course_name (e # es) tick =
     (let (acts, tick') = chapter_callback fl course_name e tick
      in acts @ callbacks fl course_name es tick')"

section \<open>One course\<close>

text \<open>
  What the worker meets in one turn of the loop: the stop event at the top, the wait, the chapters
  (or the exception), what the processor did, how it ended, and the stop event afterwards.
\<close>

record course_obs =
  co_stop_before :: bool
  co_reads :: "(bool \<times> bool) list"
  co_stopped :: bool
  co_points :: "string + pydict list"
  co_events :: "chapter_event list"
  co_run :: "string + nat"
  co_stop_after :: bool

datatype course_end =
    NextCourse nat nat
  | Cancelled
  | StillWaiting
  | Raised string

definition cancelled_message :: string where
  "cancelled_message = ''Task cancelled by user''"

definition nat_val :: "nat \<Rightarrow> pyval" where
  "nat_val n = PInt (int n)"

text \<open>The chapters to study under a limit; the log of the choice, or of the missing chapter\<close>

datatype limited_points = Study "pydict list" "worker_act list" | MissingChapter "worker_act list" | LimitRaised

definition limit_points :: "string \<Rightarrow> pydict \<Rightarrow> (string \<times> string) list \<Rightarrow> pydict list \<Rightarrow> limited_points" where
  "limit_points course_name course limits points =
     (case chapter_limit_for course limits of
        None \<Rightarrow> LimitRaised
      | Some None \<Rightarrow> Study points []
      | Some (Some end_point_id) \<Rightarrow>
          (if end_point_id = [] then Study points []
           else (case points_up_to points end_point_id of
              None \<Rightarrow> MissingChapter [Log (''Chosen last chapter no longer exists in '' @ course_name
                   @ ''; course skipped. Refresh the chapter list and choose again.'') ''error'']
            | Some limited \<Rightarrow> Study limited [Log (''Studying '' @ course_name @ '' up to '' @ [CHR 0x22]
                   @ py_str (dget_or (last limited) ''title'' (PStr [])) @ [CHR 0x22] @ '' (''
                   @ int_str (int (length limited)) @ ''/'' @ int_str (int (length points)) @ '' chapters)'') ''info''])))"

definition course_start_acts :: "nat \<Rightarrow> nat \<Rightarrow> string \<Rightarrow> worker_act list" where
  "course_start_acts index n_courses course_name =
     [Update [(''status'', PStr ''running''),
              (''message'', PStr (''Learning course '' @ int_str (int index) @ ''/'' @ int_str (int n_courses))),
              (''current_task'', PStr (''course:'' @ course_name))],
      Progress [(''current'', nat_val index), (''current_course'', PStr course_name),
                (''current_chapter'', PStr []), (''video_progress'', PNone)],
      Log (''Start course: '' @ course_name) ''info'']"

definition study_course ::
  "failure_lib \<Rightarrow> nat \<Rightarrow> string \<Rightarrow> course_obs \<Rightarrow> pydict list \<Rightarrow> nat \<Rightarrow> nat \<Rightarrow> worker_act list \<times> course_end" where
  "study_course fl index course_name ob points completed failed =
     (let acts = (if points \<noteq> [] then [Increase ''total_chapters'' (int (length points))] else [])
                   @ callbacks fl course_name (co_events ob) 0
      in if \<not> isl (co_run ob) \<and> co_stop_after ob then (acts @ [Cancel cancelled_message], Cancelled)
         else (let (line, completed', failed') =
                 (case co_run ob of
                    Inl exc \<Rightarrow> (Log (''Course execution failed '' @ course_name @ '': '' @ exc) ''error'', completed, failed + 1)
                  | Inr nfailed \<Rightarrow>
                      (if 0 < nfailed
                       then (Log (''Course finished with '' @ int_str (int nfailed) @ '' failed chapters: '' @ course_name)
                               ''warning'', completed, failed + 1)
                       else (Log (''Course completed: '' @ course_name) ''success'', completed + 1, failed)))
               in (acts @ [line, Progress [(''completed'', nat_val completed'), (''failed'', nat_val failed'),
                                          (''current'', nat_val index), (''current_course'', PStr course_name)]],
                   NextCourse completed' failed')))"

definition skipped :: "nat \<Rightarrow> nat \<Rightarrow> worker_act" where
  "skipped index failed = Progress [(''failed'', nat_val failed), (''current'', nat_val index)]"

definition course_turn ::
  "failure_lib \<Rightarrow> (string \<times> string) list \<Rightarrow> nat \<Rightarrow> nat \<Rightarrow> pydict \<Rightarrow> course_obs \<Rightarrow> nat \<Rightarrow> nat
     \<Rightarrow> worker_act list \<times> course_end" where
  "course_turn fl limits n_courses index course ob completed failed =
     (if co_stop_before ob then ([Cancel cancelled_message], Cancelled)
      else (case wait_for_resume (co_reads ob) (co_stopped ob) of
              None \<Rightarrow> ([], StillWaiting)
            | Some (waited, False) \<Rightarrow> (waited @ [Cancel cancelled_message], Cancelled)
            | Some (waited, True) \<Rightarrow>
                (let course_name = course_label course;
                     started = waited @ course_start_acts index n_courses course_name
                 in (case co_points ob of
                       Inl exc \<Rightarrow>
                         (started @ [Log (''Fetch chapters failed for '' @ course_name @ '': '' @ exc) ''error'',
                                     skipped index (failed + 1)], NextCourse completed (failed + 1))
                     | Inr points \<Rightarrow>
                         (case limit_points course_name course limits points of
                            LimitRaised \<Rightarrow> (started, Raised ''list index out of range'')
                          | MissingChapter acts \<Rightarrow>
                              (started @ acts @ [skipped index (failed + 1)], NextCourse completed (failed + 1))
                          | Study chosen acts \<Rightarrow>
                              (let (more, out) = study_course fl index course_name ob chosen completed failed
                               in (started @ acts @ more, out)))))))"

fun course_loop ::
  "failure_lib \<Rightarrow> (string \<times> string) list \<Rightarrow> nat \<Rightarrow> nat \<Rightarrow> (pydict \<times> course_obs) list \<Rightarrow> nat \<Rightarrow> nat
     \<Rightarrow> worker_act list \<times> course_end" where
  "course_loop fl limits n_courses index [] completed failed = ([], NextCourse completed failed)"
| "course_loop fl limits n_courses index ((course, ob) # rest) completed failed =
     (case course_turn fl limits n_courses index course ob completed failed of
        (acts, NextCourse c f) \<Rightarrow>
          (let (more, out) = course_loop fl limits n_courses (Suc index) rest c f in (acts @ more, out))
      | (acts, out) \<Rightarrow> (acts, out))"

section \<open>The notification\<close>

datatype notify_obs = UrlCheckRaised | UrlRefused | SendRaised string | Sent

definition NOTIFICATION_SERVICE_LABELS :: "string list" where
  "NOTIFICATION_SERVICE_LABELS = [''ServerChan'', ''Qmsg'', ''Bark'', ''Telegram'']"

definition stripped_text :: "pyval \<Rightarrow> string" where
  "stripped_text v = (case v of PStr s \<Rightarrow> py_strip s | _ \<Rightarrow> [])"

definition notification_acts :: "pydict \<Rightarrow> notify_obs \<Rightarrow> worker_act list" where
  "notification_acts notify_config ob =
     (let service = stripped_text (dget notify_config ''service'');
          url = stripped_text (dget notify_config ''url'')
      in if service = [] \<or> url = [] then []
         else if service \<notin> set NOTIFICATION_SERVICE_LABELS
         then [Log ''Notification skipped: unsupported service'' ''warning'']
         else (case ob of
                 UrlCheckRaised \<Rightarrow> [Log ''Notification skipped: URL validation failed'' ''warning'']
               | UrlRefused \<Rightarrow> [Log ''Notification skipped: URL must be a public http(s) address'' ''warning'']
               | SendRaised failure_type \<Rightarrow> [Log (''Notification failed ('' @ failure_type @ '')'') ''warning'']
               | Sent \<Rightarrow> [Log (''Notification sent via '' @ service) ''info'']))"

section \<open>The worker\<close>

text \<open>
  What the worker observes before and after the courses: the client's answers (an exception is
  \<open>Inl\<close>), one observation for each selected course, the stop event at the end. \<open>wo_control\<close> says
  whether the task still has its events.
\<close>

record worker_obs =
  wo_control :: bool
  wo_init :: "string option"
  wo_login :: "string + pydict"
  wo_courses :: "string + pydict list"
  wo_turns :: "course_obs list"
  wo_stop_end :: bool
  wo_notify :: notify_obs

datatype worker_end = Finished | NoEvents | Waiting

definition login_failure :: "pydict \<Rightarrow> string" where
  "login_failure state = py_str (py_or (py_or (dget state ''msg'') (dget state ''message'')) (PStr ''Login failed''))"

definition reset_progress :: "nat \<Rightarrow> pydict" where
  "reset_progress n_courses =
     [(''total'', nat_val n_courses), (''completed'', PInt 0), (''failed'', PInt 0), (''current'', PInt 0),
      (''total_chapters'', PInt 0), (''completed_chapters'', PInt 0), (''current_course'', PStr []),
      (''current_chapter'', PStr []), (''video_progress'', PNone)]"

definition final_acts :: "pydict \<Rightarrow> worker_obs \<Rightarrow> nat \<Rightarrow> worker_act list" where
  "final_acts notify_config ob failed =
     (if wo_stop_end ob then [Cancel cancelled_message]
      else (if 0 < failed
            then [Update (finish_change ''failed''
                    (''Task finished with failures ('' @ int_str (int failed) @ '' failed courses)'') ''finished''),
                  Log ''Task finished with failures'' ''warning'']
            else [Update (finish_change ''completed'' ''Task completed'' ''finished''),
                  Log ''Task completed'' ''success''])
           @ notification_acts notify_config (wo_notify ob))"

text \<open>The guard around the worker turns an exception that escapes it into a failed task.\<close>

definition crash_act :: "string \<Rightarrow> worker_act" where
  "crash_act exc = Fail (UNEXPECTED_WORKER_ERROR_PREFIX @ '': '' @ exc)"

definition study_courses ::
  "failure_lib \<Rightarrow> common_config \<Rightarrow> (string \<times> string) list \<Rightarrow> pydict \<Rightarrow> worker_obs \<Rightarrow> pydict list
     \<Rightarrow> worker_act list \<times> worker_end" where
  "study_courses fl cc limits notify_config ob selected =
     (let n_courses = length selected;
          begun = [Progress (reset_progress n_courses),
                   Log (''Selected '' @ int_str (int n_courses) @ '' courses, speed '' @ cc_speed cc @ ''x, jobs ''
                        @ int_str (cc_jobs cc)) ''info''];
          (acts, out) = course_loop fl limits n_courses 1 (zip selected (wo_turns ob)) 0 0
      in (case out of
            NextCourse completed failed \<Rightarrow> (begun @ acts @ final_acts notify_config ob failed, Finished)
          | Cancelled \<Rightarrow> (begun @ acts, Finished)
          | StillWaiting \<Rightarrow> (begun @ acts, Waiting)
          | Raised exc \<Rightarrow> (begun @ acts @ [crash_act exc], Finished)))"

definition run_task_worker ::
  "num_lib \<Rightarrow> failure_lib \<Rightarrow> pydict \<Rightarrow> worker_obs \<Rightarrow> worker_act list \<times> worker_end" where
  "run_task_worker lib fl payload ob =
     (let username = py_strip (str_or_empty (dget payload ''username''));
          password = py_strip (str_or_empty (dget payload ''password''))
      in if username = [] \<or> password = [] then ([Fail ''Missing username or password''], Finished)
         else (let cc = common_config_of lib username password payload;
                   limits = normalize_chapter_limits (dget payload ''chapter_limits'');
                   notify_config = as_dict (dget payload ''notify_config'');
                   login_acts = [Update [(''status'', PStr ''running''), (''message'', PStr ''Logging in to Chaoxing''),
                                         (''current_task'', PStr ''login'')], Log ''Starting login...'' ''info'']
               in if \<not> wo_control ob then ([], NoEvents)
                  else (case wo_init ob of
                    Some exc \<Rightarrow> (login_acts @ [Fail (''Initialize chaoxing client failed: '' @ exc)], Finished)
                  | None \<Rightarrow> (case wo_login ob of
                      Inl exc \<Rightarrow> (login_acts @ [Fail (''Login request failed: '' @ exc)], Finished)
                    | Inr state \<Rightarrow>
                        (if \<not> truthy (dget state ''status'') then (login_acts @ [Fail (login_failure state)], Finished)
                         else (let in_acts = login_acts @ [Log ''Login successful'' ''success'']
                               in (case wo_courses ob of
                                     Inl exc \<Rightarrow> (in_acts @ [Fail (''Fetch course list failed: '' @ exc)], Finished)
                                   | Inr all_courses \<Rightarrow>
                                       (case select_courses all_courses (cc_course_list cc) of
                                          None \<Rightarrow> (in_acts @ [crash_act ''list index out of range''], Finished)
                                        | Some [] \<Rightarrow> (in_acts @ [Fail ''No available courses after filtering''], Finished)
                                        | Some selected \<Rightarrow>
                                            (let (acts, out) = study_courses fl cc limits notify_config ob selected
                                             in (in_acts @ acts, out))))))))))"

section \<open>How a worker ends\<close>

fun finishing :: "worker_act \<Rightarrow> bool" where
  "finishing (Cancel _) = True"
| "finishing (Fail _) = True"
| "finishing (Update ch) = (\<exists>status \<in> set WORKER_FINISHES. \<exists>msg cur. ch = finish_change status msg cur)"
| "finishing _ = False"

fun live_act :: "worker_act \<Rightarrow> bool" where
  "live_act (Cancel _) = False"
| "live_act (Fail _) = False"
| "live_act (Update ch) = worker_change True ch"
| "live_act _ = True"

fun is_log :: "worker_act \<Rightarrow> bool" where
  "is_log (Log _ _) = True"
| "is_log _ = False"

definition well_ended :: "worker_act list \<Rightarrow> bool" where
  "well_ended acts \<longleftrightarrow> (\<exists>pre fin post. acts = pre @ fin # post \<and> list_all live_act pre \<and> finishing fin
     \<and> list_all is_log post)"

lemma finishing_not_live: "finishing a \<Longrightarrow> \<not> live_act a"
  by (cases a) (auto simp: worker_change_def finish_change_def WORKER_FINISHES_def)

lemma is_log_live: "is_log a \<Longrightarrow> live_act a"
  by (cases a) auto

lemma well_ended_prefix: "list_all live_act pre \<Longrightarrow> well_ended acts \<Longrightarrow> well_ended (pre @ acts)"
  unfolding well_ended_def by (metis append.assoc list_all_append)

lemma well_ended_one: "list_all live_act pre \<Longrightarrow> finishing fin \<Longrightarrow> well_ended (pre @ [fin])"
  unfolding well_ended_def by force

lemma well_ended_single: "finishing fin \<Longrightarrow> well_ended [fin]"
  using well_ended_one [of "[]"] by simp

text \<open>A well-ended list has exactly one finishing act\<close>

lemma well_ended_unique: "well_ended acts \<Longrightarrow> length (filter finishing acts) = 1"
proof -
  assume "well_ended acts"
  then obtain pre fin post where a: "acts = pre @ fin # post" "list_all live_act pre" "finishing fin"
    "list_all is_log post" by (auto simp: well_ended_def)
  have "filter finishing pre = []" "filter finishing post = []"
    using a(2,4) finishing_not_live is_log_live by (fastforce simp: filter_empty_conv list_all_iff)+
  with a(1,3) show ?thesis by simp
qed

section \<open>Every piece keeps the task live until the end\<close>

lemma live_wait: "wait_for_resume reads stopped = Some (acts, go) \<Longrightarrow> list_all live_act acts"
  by (induction reads stopped arbitrary: acts rule: wait_for_resume.induct)
     (auto simp: paused_update_def worker_change_def split: if_splits)

lemma live_wait_acts: "list_all live_act (wait_acts reads stopped)"
  by (auto simp: wait_acts_def dest: live_wait split: option.splits)

lemma live_callback: "list_all live_act (fst (chapter_callback fl name e tick))"
  by (cases e) (auto simp: Let_def live_wait_acts worker_change_def)

lemma live_callbacks: "list_all live_act (callbacks fl name es tick)"
  using live_callback by (induction es arbitrary: tick) (auto simp: case_prod_beta Let_def)

lemma live_course_start: "list_all live_act (course_start_acts i n name)"
  by (simp add: course_start_acts_def worker_change_def)

lemma live_limit:
  "limit_points name course limits points = Study chosen acts \<Longrightarrow> list_all live_act acts"
  "limit_points name course limits points = MissingChapter acts \<Longrightarrow> list_all live_act acts"
  by (auto simp: limit_points_def split: option.splits if_splits)

lemma study_course_end:
  assumes "study_course fl index name ob points completed failed = (acts, out)"
  shows "(\<exists>c f. out = NextCourse c f \<and> c + f = Suc (completed + failed) \<and> failed \<le> f \<and> list_all live_act acts)
    \<or> (out = Cancelled \<and> well_ended acts)"
proof -
  let ?acts = "(if points \<noteq> [] then [Increase ''total_chapters'' (int (length points))] else [])
      @ callbacks fl name (co_events ob) 0"
  have live: "list_all live_act ?acts" by (simp add: live_callbacks)
  show ?thesis
  proof (cases "\<not> isl (co_run ob) \<and> co_stop_after ob")
    case True
    with assms well_ended_one [OF live, of "Cancel cancelled_message"] show ?thesis
      by (auto simp: study_course_def Let_def)
  next
    case False
    with assms live_callbacks show ?thesis
      by (auto simp: study_course_def Let_def split: sum.splits if_splits)
  qed
qed

lemma course_turn_end:
  assumes "course_turn fl limits n index course ob completed failed = (acts, out)"
  shows "case out of
      NextCourse c f \<Rightarrow> c + f = Suc (completed + failed) \<and> failed \<le> f \<and> list_all live_act acts
    | Cancelled \<Rightarrow> well_ended acts
    | _ \<Rightarrow> list_all live_act acts"
proof (cases "co_stop_before ob")
  case True
  with assms show ?thesis by (auto simp: course_turn_def well_ended_single)
next
  case go: False
  show ?thesis
  proof (cases "wait_for_resume (co_reads ob) (co_stopped ob)")
    case None
    with go assms show ?thesis by (auto simp: course_turn_def)
  next
    case (Some w)
    obtain waited resumed where w: "w = (waited, resumed)" by fastforce
    have live: "list_all live_act waited" using live_wait Some w by simp
    show ?thesis
    proof (cases resumed)
      case False
      with Some w go assms well_ended_one [OF live, of "Cancel cancelled_message"] show ?thesis
        by (auto simp: course_turn_def)
    next
      case True
      let ?started = "waited @ course_start_acts index n (course_label course)"
      have started: "list_all live_act ?started" using live live_course_start by simp
      show ?thesis
      proof (cases "co_points ob")
        case (Inl exc)
        with True Some w go assms started show ?thesis by (auto simp: course_turn_def Let_def skipped_def)
      next
        case (Inr points)
        show ?thesis
        proof (cases "limit_points (course_label course) course limits points")
          case (Study chosen pre)
          obtain more out' where m: "study_course fl index (course_label course) ob chosen completed failed = (more, out')"
            by fastforce
          have pre: "list_all live_act (?started @ pre)" using started live_limit(1) [OF Study] by simp
          have r: "acts = (?started @ pre) @ more" "out = out'"
            using Study Inr True Some w go assms m by (auto simp: course_turn_def Let_def)
          from study_course_end [OF m] show ?thesis
            unfolding r using pre well_ended_prefix [OF pre, of more] by auto
        next
          case (MissingChapter pre)
          with Inr True Some w go assms started live_limit(2) [OF MissingChapter] show ?thesis
            by (auto simp: course_turn_def Let_def skipped_def)
        next
          case LimitRaised
          with Inr True Some w go assms started show ?thesis by (auto simp: course_turn_def Let_def)
        qed
      qed
    qed
  qed
qed

lemma course_loop_end:
  assumes "course_loop fl limits n index turns completed failed = (acts, out)"
  shows "case out of
      NextCourse c f \<Rightarrow> c + f = completed + failed + length turns \<and> failed \<le> f \<and> list_all live_act acts
    | Cancelled \<Rightarrow> well_ended acts
    | _ \<Rightarrow> list_all live_act acts"
  using assms
proof (induction turns arbitrary: index completed failed acts out)
  case Nil
  then show ?case by auto
next
  case (Cons turn turns)
  obtain course ob where t: "turn = (course, ob)" by fastforce
  obtain acts1 out1 where c: "course_turn fl limits n index course ob completed failed = (acts1, out1)" by fastforce
  note e = course_turn_end [OF c]
  show ?case
  proof (cases out1)
    case (NextCourse c' f')
    obtain more out2 where l: "course_loop fl limits n (Suc index) turns c' f' = (more, out2)" by fastforce
    have r: "acts = acts1 @ more" "out = out2" using Cons.prems t c NextCourse l by auto
    from e NextCourse have live: "list_all live_act acts1" "c' + f' = Suc (completed + failed)" "failed \<le> f'" by auto
    from Cons.IH [OF l] live show ?thesis
      unfolding r using well_ended_prefix [OF live(1)] by (auto split: course_end.splits)
  qed (use Cons.prems t c e in auto)
qed

lemma log_notification: "list_all is_log (notification_acts cfg ob)"
  by (auto simp: notification_acts_def Let_def split: notify_obs.splits)

lemma final_ended: "well_ended (final_acts cfg ob failed)"
proof -
  have "finishing (Update (finish_change ''failed'' msg cur))" "finishing (Update (finish_change ''completed'' msg cur))"
    for msg cur by (auto simp: WORKER_FINISHES_def)
  then show ?thesis
    using log_notification [of cfg "wo_notify ob"] unfolding well_ended_def final_acts_def
    by (cases "wo_stop_end ob"; cases "0 < failed")
       (auto intro!: exI [of _ "[]"] simp del: finishing.simps(3))
qed

lemma study_courses_end:
  assumes "study_courses fl cc limits cfg ob selected = (acts, out)"
  shows "(out = Finished \<longrightarrow> well_ended acts) \<and> (out \<noteq> Finished \<longrightarrow> list_all live_act acts)"
proof -
  let ?n = "length selected"
  let ?begun = "[Progress (reset_progress ?n),
      Log (''Selected '' @ int_str (int ?n) @ '' courses, speed '' @ cc_speed cc @ ''x, jobs '' @ int_str (cc_jobs cc)) ''info'']"
  obtain more out1 where l: "course_loop fl limits ?n 1 (zip selected (wo_turns ob)) 0 0 = (more, out1)" by fastforce
  note e = course_loop_end [OF l]
  have begun: "list_all live_act ?begun" by simp
  show ?thesis
  proof (cases out1)
    case (NextCourse c f)
    with e have live: "list_all live_act (?begun @ more)" by simp
    have "acts = (?begun @ more) @ final_acts cfg ob f" "out = Finished"
      using assms l NextCourse by (auto simp: study_courses_def Let_def)
    with well_ended_prefix [OF live final_ended] show ?thesis by simp
  next
    case Cancelled
    with e have "well_ended (?begun @ more)" by (intro well_ended_prefix) simp_all
    moreover have "acts = ?begun @ more" "out = Finished" using assms l Cancelled by (auto simp: study_courses_def Let_def)
    ultimately show ?thesis by simp
  next
    case StillWaiting
    with assms l e show ?thesis by (auto simp: study_courses_def Let_def)
  next
    case (Raised exc)
    with e have "list_all live_act (?begun @ more)" by simp
    then have "well_ended ((?begun @ more) @ [crash_act exc])" by (rule well_ended_one) (simp add: crash_act_def)
    moreover have "acts = (?begun @ more) @ [crash_act exc]" "out = Finished"
      using assms l Raised by (auto simp: study_courses_def Let_def)
    ultimately show ?thesis by simp
  qed
qed

lemma worker_end_cases:
  assumes "run_task_worker lib fl payload ob = (acts, out)"
  shows "(out = Finished \<longrightarrow> well_ended acts) \<and> (out \<noteq> Finished \<longrightarrow> list_all live_act acts)"
proof -
  let ?login = "[Update [(''status'', PStr ''running''), (''message'', PStr ''Logging in to Chaoxing''),
      (''current_task'', PStr ''login'')], Log ''Starting login...'' ''info'']"
  have login: "list_all live_act ?login" "list_all live_act (?login @ [Log ''Login successful'' ''success''])"
    by (simp_all add: worker_change_def)
  have fail: "well_ended (?login @ [Fail msg])" "well_ended ((?login @ [Log ''Login successful'' ''success'']) @ [Fail msg])" for msg
    by (rule well_ended_one; use login in simp)+
  show ?thesis
  proof (cases "\<exists>selected more. study_courses fl
      (common_config_of lib (py_strip (str_or_empty (dget payload ''username''))) (py_strip (str_or_empty (dget payload ''password''))) payload)
      (normalize_chapter_limits (dget payload ''chapter_limits'')) (as_dict (dget payload ''notify_config'')) ob selected = (more, out)
      \<and> acts = (?login @ [Log ''Login successful'' ''success'']) @ more")
    case True
    then show ?thesis using study_courses_end well_ended_prefix [OF login(2)] login(2) by (metis list_all_append)
  next
    case False
    with assms fail show ?thesis
      by (auto simp: run_task_worker_def Let_def well_ended_single crash_act_def
          split: if_splits option.splits sum.splits list.splits prod.splits)
  qed
qed

section \<open>A worker on the service\<close>

lemma live_act_run:
  "tid \<in> W \<Longrightarrow> live_act a \<Longrightarrow> lm_run ops dt (m, W) (run_act ops tid (clk, a) m, W)"
  by (cases a) (auto intro!: lm_run_step lm_step.updated lm_step.progressed lm_step.increased lm_step.logged
      lm_step.chapter_failed)

lemma log_act_run: "is_log a \<Longrightarrow> lm_run ops dt (m, W) (run_act ops tid (clk, a) m, W)"
  by (cases a) (auto intro!: lm_run_step lm_step.logged)

lemma finishing_run:
  "tid \<in> W \<Longrightarrow> finishing a \<Longrightarrow> lm_run ops dt (m, W) (run_act ops tid (clk, a) m, W - {tid})"
  by (cases a) (auto simp: cancel_task_run fail_task_run intro!: lm_run_step [OF lm_step.finished])

lemma live_acts_run:
  "tid \<in> W \<Longrightarrow> list_all live_act (map snd acts) \<Longrightarrow> lm_run ops dt (m, W) (run_acts ops tid acts m, W)"
proof (induction acts arbitrary: m)
  case (Cons x acts)
  obtain clk a where x: "x = (clk, a)" by fastforce
  with Cons.prems have "lm_run ops dt (m, W) (run_act ops tid x m, W)" by (simp add: live_act_run)
  also have "lm_run ops dt \<dots> (run_acts ops tid acts (run_act ops tid x m), W)"
    using Cons by simp
  finally show ?case by (simp add: run_acts_def)
qed (simp add: run_acts_def lm_run_refl)

lemma log_acts_run:
  "list_all is_log (map snd acts) \<Longrightarrow> lm_run ops dt (m, W) (run_acts ops tid acts m, W)"
proof (induction acts arbitrary: m)
  case (Cons x acts)
  obtain clk a where x: "x = (clk, a)" by fastforce
  with Cons.prems have "lm_run ops dt (m, W) (run_act ops tid x m, W)" by (simp add: log_act_run)
  also have "lm_run ops dt \<dots> (run_acts ops tid acts (run_act ops tid x m), W)"
    using Cons by simp
  finally show ?case by (simp add: run_acts_def)
qed (simp add: run_acts_def lm_run_refl)

lemma run_acts_append: "run_acts ops tid (a @ b) m = run_acts ops tid b (run_acts ops tid a m)"
  by (simp add: run_acts_def)

lemma worker_run:
  assumes "tid \<in> W" and "well_ended (map snd acts)"
  shows "lm_run ops dt (m, W) (run_acts ops tid acts m, W - {tid})"
proof -
  from assms(2) obtain pre fin post where e: "map snd acts = pre @ fin # post" "list_all live_act pre"
    "finishing fin" "list_all is_log post" by (auto simp: well_ended_def)
  then obtain as1 clk as2 where a: "acts = as1 @ (clk, fin) # as2" "map snd as1 = pre" "map snd as2 = post"
    by (auto simp: map_eq_append_conv map_eq_Cons_conv)
  let ?m1 = "run_acts ops tid as1 m" and ?m2 = "run_act ops tid (clk, fin) (run_acts ops tid as1 m)"
  have "lm_run ops dt (m, W) (?m1, W)" 
    by (rule live_acts_run [OF assms(1)]) (simp only: a(2) e(2))
  also have "lm_run ops dt (?m1, W) (?m2, W - {tid})" by (rule finishing_run [OF assms(1) e(3)])
  also have "lm_run ops dt (?m2, W - {tid}) (run_acts ops tid as2 ?m2, W - {tid})"
    by (rule log_acts_run) (simp only: a(3) e(4))
  finally show ?thesis by (simp add: a(1) run_acts_append) (simp add: run_acts_def)
qed

section \<open>Properties\<close>

text \<open>
  C3: a worker that returns settles its task. Whatever the request holds and whatever the worker
  observes (exceptions, a stop at any point, a failing store), if it does not wait for ever it ends
  its task with exactly one final status, after which it only logs; carried out on a reachable
  service from a live task, at any times, this leaves the task inactive and every other task's
  being active as it was.
\<close>

theorem worker_settles_task:
  assumes "learning_reachable dt lib st0 (m, W)" and "sqlite_learning_inv st0" and "tid \<in> W"
    and "run_task_worker nums fl payload ob = (acts, Finished)" and "length clks = length acts"
  shows "length (filter finishing acts) = 1
    \<and> active_ids (lm_tasks (run_acts (sqlite_facade dt lib e) tid (zip clks acts) m)) = W - {tid}"
proof -
  have w: "well_ended acts" using worker_end_cases [OF assms(4)] by simp
  then have "well_ended (map snd (zip clks acts))" using assms(5) by simp
  from learning_invariant [OF learning_reachable_run [OF assms(1) worker_run [OF assms(3) this]] assms(2)]
  show ?thesis using well_ended_unique [OF w] by simp
qed

definition no_numbers :: num_lib where
  "no_numbers = \<lparr>to_float = (\<lambda>_. None), float_less = (\<lambda>_ _. False), to_int = (\<lambda>_. None)\<rparr>"

definition plain_failures :: failure_lib where
  "plain_failures = \<lparr>reason_of = (\<lambda>_. ''r''), hint_of = (\<lambda>_. ''h''), retry_line = (\<lambda>t _ r. t @ r),
     give_up_line = (\<lambda>t _ r h. t @ r @ h)\<rparr>"

definition good_turn :: course_obs where
  "good_turn = \<lparr>co_stop_before = False, co_reads = [(False, False), (False, True)], co_stopped = False,
     co_points = Inr [chapter_a], co_events = [ChapterStart False [(False, True)] False chapter_a, ChapterDone],
     co_run = Inr 0, co_stop_after = False\<rparr>"

definition good_obs :: worker_obs where
  "good_obs = \<lparr>wo_control = True, wo_init = None, wo_login = Inr [(''status'', PBool True)],
     wo_courses = Inr [maths], wo_turns = [good_turn], wo_stop_end = False, wo_notify = Sent\<rparr>"

definition login_payload :: pydict where
  "login_payload = [(''username'', PStr ''u''), (''password'', PStr ''p'')]"

definition good_acts :: "worker_act list" where
  "good_acts = fst (run_task_worker no_numbers plain_failures login_payload good_obs)"

lemma good_worker: "run_task_worker no_numbers plain_failures login_payload good_obs = (good_acts, Finished)"
proof -
  have "snd (run_task_worker no_numbers plain_failures login_payload good_obs) = Finished" by code_simp
  then show ?thesis by (simp add: good_acts_def prod_eq_iff)
qed

theorem worker_settles_task_witness:
  "active_ids (lm_tasks (run_acts calm_ops ''a1'' (zip (replicate (length good_acts) noon) good_acts) second_manager)) = {}"
proof -
  have "''a1'' \<in> {''a1''}" by simp
  from worker_settles_task [OF second_manager_reachable new_store_inv this good_worker,
      of "replicate (length good_acts) noon" calm] show ?thesis by (simp add: calm_ops_def)
qed

definition all_courses_done :: "num_lib \<Rightarrow> failure_lib \<Rightarrow> pydict \<Rightarrow> worker_obs \<Rightarrow> bool" where
  "all_courses_done lib fl payload ob =
     (\<exists>courses selected acts. wo_courses ob = Inr courses
        \<and> select_courses courses (requested_courses payload) = Some selected \<and> selected \<noteq> []
        \<and> course_loop fl (normalize_chapter_limits (dget payload ''chapter_limits'')) (length selected) 1
            (zip selected (wo_turns ob)) 0 0 = (acts, NextCourse (length (zip selected (wo_turns ob))) 0))"

fun says_completed :: "worker_act \<Rightarrow> bool" where
  "says_completed (Update ch) = ((''status'', PStr ''completed'') \<in> set ch)"
| "says_completed _ = False"

lemma live_not_completed: "list_all live_act acts \<Longrightarrow> \<not> list_ex says_completed acts"
proof -
  have "\<not> says_completed a" if "live_act a" for a
  proof (cases a)
    case (Update ch)
    then have w: "worker_change True ch" using that by simp
    show ?thesis
    proof
      assume "says_completed a"
      with Update have c: "(''status'', PStr ''completed'') \<in> set ch" by simp
      then have "''status'' \<in> fst ` set ch" by force
      with w have "wf_dict ch" "(''status'', PStr ''running'') \<in> set ch \<or> (''status'', PStr ''paused'') \<in> set ch"
        by (auto simp: worker_change_def)
      with c show False using eq_key_imp_eq_value [of ch "''status''" "PStr ''completed''"] by auto
    qed
  qed auto
  then show "list_all live_act acts \<Longrightarrow> \<not> list_ex says_completed acts"
    by (auto simp: list_all_iff list_ex_iff)
qed

lemma ended_by_cancel:
  "list_all live_act pre \<Longrightarrow> \<not> list_ex says_completed (pre @ [Cancel msg])"
  "list_all live_act pre \<Longrightarrow> \<not> list_ex says_completed (pre @ [Fail msg])"
  using live_not_completed by auto

lemma study_course_cancelled:
  "study_course fl index name ob points completed failed = (acts, Cancelled) \<Longrightarrow> \<not> list_ex says_completed acts"
proof -
  assume s: "study_course fl index name ob points completed failed = (acts, Cancelled)"
  then have "\<exists>pre. acts = pre @ [Cancel cancelled_message] \<and> list_all live_act pre"
    using live_callbacks by (fastforce simp: study_course_def Let_def split: if_splits prod.splits)
  then show ?thesis using ended_by_cancel by blast
qed

lemma course_turn_not_completed:
  assumes c: "course_turn fl limits n index course ob completed failed = (acts, out)"
  shows "\<not> list_ex says_completed acts"
proof (cases "out = Cancelled")
  case False
  then show ?thesis
    using course_turn_end [OF c] live_not_completed by (cases out) auto
next
  case True
  show ?thesis
  proof (cases "wait_for_resume (co_reads ob) (co_stopped ob)")
    case None
    with True c show ?thesis by (auto simp: course_turn_def split: if_splits)
  next
    case (Some w)
    obtain waited resumed where w: "w = (waited, resumed)" by fastforce
    have live: "list_all live_act waited" using live_wait Some w by simp
    have "\<not> list_ex says_completed waited" using live_not_completed [OF live] .
    moreover have "\<not> list_ex says_completed (course_start_acts index n name)" for name
      using live_not_completed [OF live_course_start] .
    moreover have "\<not> list_ex says_completed pre"
      if "limit_points name course limits points = Study chosen pre" for name points chosen pre
      using live_not_completed [OF live_limit(1) [OF that]] .
    ultimately show ?thesis
      using c True Some w study_course_cancelled
      by (auto simp: course_turn_def Let_def split: if_splits bool.splits sum.splits limited_points.splits prod.splits)
  qed
qed

lemma course_loop_not_completed:
  "course_loop fl limits n index turns completed failed = (acts, out) \<Longrightarrow> \<not> list_ex says_completed acts"
proof (induction turns arbitrary: index completed failed acts out)
  case (Cons turn turns)
  obtain course ob where t: "turn = (course, ob)" by fastforce
  obtain acts1 out1 where c: "course_turn fl limits n index course ob completed failed = (acts1, out1)" by fastforce
  note no = course_turn_not_completed [OF c]
  show ?case
  proof (cases out1)
    case (NextCourse c' f')
    obtain more out2 where l: "course_loop fl limits n (Suc index) turns c' f' = (more, out2)" by fastforce
    from Cons.IH [OF l] no Cons.prems t c NextCourse l show ?thesis by auto
  qed (use Cons.prems t c no in auto)
qed simp

lemma notification_not_completed: "\<not> list_ex says_completed (notification_acts cfg ob)"
proof -
  have "list_all live_act (notification_acts cfg ob)"
    using log_notification [of cfg ob] is_log_live by (auto simp: list_all_iff)
  then show ?thesis by (rule live_not_completed)
qed

lemma study_courses_completed:
  assumes "study_courses fl cc limits cfg ob selected = (acts, out)" and "list_ex says_completed acts"
  shows "\<exists>more. course_loop fl limits (length selected) 1 (zip selected (wo_turns ob)) 0 0
    = (more, NextCourse (length (zip selected (wo_turns ob))) 0)"
proof -
  obtain more out1 where l: "course_loop fl limits (length selected) 1 (zip selected (wo_turns ob)) 0 0 = (more, out1)"
    by fastforce
  note no = course_loop_not_completed [OF l]
  from assms l no obtain c f where out1: "out1 = NextCourse c f" and "list_ex says_completed (final_acts cfg ob f)"
    by (auto simp: study_courses_def Let_def crash_act_def split: course_end.splits)
  then have "f = 0" using notification_not_completed
    by (auto simp: final_acts_def finish_change_def split: if_splits)
  with course_loop_end [OF l] out1 l show ?thesis by auto
qed



end
