(* ===== verification/Persist_Sequencer.thy ===== *)
theory Persist_Sequencer
  imports Py_Prelude
begin

text \<open>
  \<open>_TaskPersistSequencer\<close> of \<open>learning_manager.py\<close>: the snapshots of one task are written in the
  order their revisions were reserved, one at a time, whatever threads carry the writes; and a
  failed write does not hold up the next one.

  The threads are part of the state: the revisions waiting in \<open>run\<close>, and the one whose writer is
  running. The log records each call of a writer and whether it succeeded.
\<close>

record sequencer =
  last_reserved_revision :: nat
  last_finished_revision :: nat

definition new_sequencer :: sequencer where
  "new_sequencer = \<lparr>last_reserved_revision = 0, last_finished_revision = 0\<rparr>"

definition seq_reserve :: "sequencer \<Rightarrow> nat \<times> sequencer" where
  "seq_reserve q =
     (let r = last_reserved_revision q + 1 in (r, q\<lparr>last_reserved_revision := r\<rparr>))"

text \<open>The condition \<open>run\<close> waits for, and what it does when the writer has returned or raised\<close>

definition seq_may_run :: "nat \<Rightarrow> sequencer \<Rightarrow> bool" where
  "seq_may_run r q = (r = last_finished_revision q + 1)"

definition seq_finish :: "nat \<Rightarrow> sequencer \<Rightarrow> sequencer" where
  "seq_finish r q = q\<lparr>last_finished_revision := r\<rparr>"

section \<open>Threads\<close>

datatype writer_phase = Entered | Written

record seq_system =
  seq :: sequencer
  waiting :: "nat set"
  inside :: "(nat \<times> writer_phase) set"
  write_log :: "(nat \<times> bool) list"

definition new_seq_system :: seq_system where
  "new_seq_system = \<lparr>seq = new_sequencer, waiting = {}, inside = {}, write_log = []\<rparr>"

inductive seq_step :: "seq_system \<Rightarrow> seq_system \<Rightarrow> bool" where
  reserve: "seq_reserve (seq s) = (r, q) \<Longrightarrow>
    seq_step s (s\<lparr>seq := q, waiting := insert r (waiting s)\<rparr>)"
| enter: "r \<in> waiting s \<Longrightarrow> seq_may_run r (seq s) \<Longrightarrow>
    seq_step s (s\<lparr>waiting := waiting s - {r}, inside := insert (r, Entered) (inside s)\<rparr>)"
| wrote: "(r, Entered) \<in> inside s \<Longrightarrow>
    seq_step s (s\<lparr>inside := insert (r, Written) (inside s - {(r, Entered)}), write_log := write_log s @ [(r, ok)]\<rparr>)"
| left: "(r, Written) \<in> inside s \<Longrightarrow>
    seq_step s (s\<lparr>seq := seq_finish r (seq s), inside := inside s - {(r, Written)}\<rparr>)"

inductive seq_reachable :: "seq_system \<Rightarrow> bool" where
  start: "seq_reachable new_seq_system"
| step: "seq_reachable s \<Longrightarrow> seq_step s s' \<Longrightarrow> seq_reachable s'"

inductive_cases seq_stepE: "seq_step s s'"

section \<open>The invariant\<close>

text \<open>
  With \<open>f\<close> revisions finished and \<open>n\<close> reserved: either nobody is inside, and \<open>f + 1 .. n\<close> wait, or
  revision \<open>f + 1\<close> is inside and \<open>f + 2 .. n\<close> wait. The log has the revisions in order.
\<close>

definition seq_inv :: "seq_system \<Rightarrow> bool" where
  "seq_inv s \<longleftrightarrow>
     (let f = last_finished_revision (seq s); n = last_reserved_revision (seq s)
      in f \<le> n \<and>
         (inside s = {} \<and> waiting s = {f<..n} \<and> map fst (write_log s) = [1..<Suc f]
          \<or> f < n \<and> inside s = {(Suc f, Entered)} \<and> waiting s = {Suc f<..n} \<and> map fst (write_log s) = [1..<Suc f]
          \<or> f < n \<and> inside s = {(Suc f, Written)} \<and> waiting s = {Suc f<..n} \<and> map fst (write_log s) = [1..<Suc (Suc f)]))"

lemma seq_inv_cases:
  assumes "seq_inv s"
  obtains (idle) "inside s = {}" "waiting s = {last_finished_revision (seq s)<..last_reserved_revision (seq s)}"
      "map fst (write_log s) = [1..<Suc (last_finished_revision (seq s))]"
      "last_finished_revision (seq s) \<le> last_reserved_revision (seq s)"
  | (entered) "inside s = {(Suc (last_finished_revision (seq s)), Entered)}"
      "waiting s = {Suc (last_finished_revision (seq s))<..last_reserved_revision (seq s)}"
      "map fst (write_log s) = [1..<Suc (last_finished_revision (seq s))]"
      "last_finished_revision (seq s) < last_reserved_revision (seq s)"
  | (written) "inside s = {(Suc (last_finished_revision (seq s)), Written)}"
      "waiting s = {Suc (last_finished_revision (seq s))<..last_reserved_revision (seq s)}"
      "map fst (write_log s) = [1..<Suc (Suc (last_finished_revision (seq s)))]"
      "last_finished_revision (seq s) < last_reserved_revision (seq s)"
  using assms unfolding seq_inv_def Let_def by blast

lemma seq_step_inv:
  assumes "seq_step s s'" and inv: "seq_inv s" shows "seq_inv s'"
  using assms(1)
proof cases
  case (reserve r q)
  then have q: "last_reserved_revision q = Suc (last_reserved_revision (seq s))"
    "last_finished_revision q = last_finished_revision (seq s)" "r = Suc (last_reserved_revision (seq s))"
    by (auto simp: seq_reserve_def Let_def)
  from inv show ?thesis
    by (cases rule: seq_inv_cases) (auto simp: seq_inv_def Let_def reserve(1) q)
next
  case (enter r)
  from inv show ?thesis
    by (cases rule: seq_inv_cases) (use enter in \<open>auto simp: seq_inv_def Let_def seq_may_run_def\<close>)
next
  case (wrote r ok)
  from inv show ?thesis
    by (cases rule: seq_inv_cases) (use wrote in \<open>auto simp: seq_inv_def Let_def\<close>)
next
  case (left r)
  from inv show ?thesis
    by (cases rule: seq_inv_cases) (use left in \<open>auto simp: seq_inv_def Let_def seq_finish_def\<close>)
qed

lemma seq_reachable_inv: "seq_reachable s \<Longrightarrow> seq_inv s"
proof (induction rule: seq_reachable.induct)
  case start
  show ?case by (simp add: seq_inv_def new_seq_system_def new_sequencer_def)
next
  case (step s s')
  then show ?case by (blast intro: seq_step_inv)
qed

section \<open>Every reserved revision gets its turn\<close>

definition unfinished :: "seq_system \<Rightarrow> nat" where
  "unfinished s = 3 * card (waiting s) + (\<Sum>x \<in> inside s. if snd x = Entered then 2 else 1)"

lemma seq_progressI:
  "seq_step s s' \<Longrightarrow> unfinished s' < unfinished s \<Longrightarrow>
     last_reserved_revision (seq s') = last_reserved_revision (seq s) \<Longrightarrow>
     \<exists>s'. seq_step s s' \<and> unfinished s' < unfinished s
       \<and> last_reserved_revision (seq s') = last_reserved_revision (seq s)"
  by blast

lemma seq_progress:
  assumes inv: "seq_inv s" and todo: "waiting s \<noteq> {} \<or> inside s \<noteq> {}"
  shows "\<exists>s'. seq_step s s' \<and> unfinished s' < unfinished s
    \<and> last_reserved_revision (seq s') = last_reserved_revision (seq s)"
  using inv
proof (cases rule: seq_inv_cases)
  case idle
  let ?r = "Suc (last_finished_revision (seq s))"
  have r: "?r \<in> waiting s" "seq_may_run ?r (seq s)" using idle todo by (auto simp: seq_may_run_def)
  have "card (waiting s) = Suc (card (waiting s - {?r}))" using r(1) idle(2) by (simp add: card.remove)
  with idle(1) show ?thesis
    by (intro seq_progressI [OF seq_step.enter [OF r]]) (simp_all add: unfinished_def)
next
  case entered
  then have "(Suc (last_finished_revision (seq s)), Entered) \<in> inside s" by simp
  from entered(1) show ?thesis
    by (intro seq_progressI [OF seq_step.wrote [OF \<open>_ \<in> inside s\<close>, of True]]) (simp_all add: unfinished_def)
next
  case written
  then have "(Suc (last_finished_revision (seq s)), Written) \<in> inside s" by simp
  from written(1) show ?thesis
    by (intro seq_progressI [OF seq_step.left [OF \<open>_ \<in> inside s\<close>]]) (simp_all add: unfinished_def seq_finish_def)
qed

lemma seq_drains:
  assumes "seq_inv s"
  shows "\<exists>s'. seq_step\<^sup>*\<^sup>* s s' \<and> seq_inv s' \<and> waiting s' = {} \<and> inside s' = {}
    \<and> last_reserved_revision (seq s') = last_reserved_revision (seq s)"
  using assms
proof (induction "unfinished s" arbitrary: s rule: less_induct)
  case less
  show ?case
  proof (cases "waiting s = {} \<and> inside s = {}")
    case False
    with seq_progress [OF less.prems] obtain s1 where s1: "seq_step s s1" "unfinished s1 < unfinished s"
      "last_reserved_revision (seq s1) = last_reserved_revision (seq s)" by blast
    from less.hyps [OF s1(2) seq_step_inv [OF s1(1) less.prems]] s1 show ?thesis
      by (metis converse_rtranclp_into_rtranclp)
  qed (use less.prems in auto)
qed

section \<open>Properties\<close>

text \<open>
  C22: no overtaking. In every reachable state the writers of a task that have been called are those
  of the first revisions, each once and in the order of reservation, failed ones included; and at
  most one writer is inside at a time.
\<close>

theorem snapshots_written_in_order:
  assumes "seq_reachable s"
  shows "map fst (write_log s) = [1..<Suc (length (write_log s))]
    \<and> length (write_log s) \<le> last_reserved_revision (seq s) \<and> card (inside s) \<le> 1"
  using seq_reachable_inv [OF assms]
proof (cases rule: seq_inv_cases)
  case idle
  from arg_cong [OF idle(3), of length] have "length (write_log s) = last_finished_revision (seq s)" by simp
  with idle show ?thesis by simp
next
  case entered
  from arg_cong [OF entered(3), of length] have "length (write_log s) = last_finished_revision (seq s)" by simp
  with entered show ?thesis by simp
next
  case written
  from arg_cong [OF written(3), of length] have "length (write_log s) = Suc (last_finished_revision (seq s))" by simp
  with written show ?thesis by simp
qed

text \<open>
  C23: every reserved snapshot is written. From any reachable state the threads that are there can
  go on, without any new reservation, until every reserved revision has been written and no thread
  waits: no failed write and no order of arrival blocks the queue.
\<close>

theorem snapshots_all_written:
  assumes "seq_reachable s"
  shows "\<exists>s'. seq_step\<^sup>*\<^sup>* s s' \<and> waiting s' = {} \<and> inside s' = {}
    \<and> map fst (write_log s') = [1..<Suc (last_reserved_revision (seq s))]"
proof -
  from seq_drains [OF seq_reachable_inv [OF assms]] obtain s' where s': "seq_step\<^sup>*\<^sup>* s s'" "seq_inv s'"
    "waiting s' = {}" "inside s' = {}" "last_reserved_revision (seq s') = last_reserved_revision (seq s)" by blast
  from s'(2) have "map fst (write_log s') = [1..<Suc (last_reserved_revision (seq s'))]"
    by (cases rule: seq_inv_cases) (use s'(3,4) in \<open>auto simp: greaterThanAtMost_empty_iff\<close>)
  with s' show ?thesis by auto
qed

definition two_reserved :: seq_system where
  "two_reserved = \<lparr>seq = \<lparr>last_reserved_revision = 2, last_finished_revision = 0\<rparr>, waiting = {1, 2},
     inside = {}, write_log = []\<rparr>"

lemma two_reserved_reachable: "seq_reachable two_reserved"
proof -
  let ?s1 = "new_seq_system\<lparr>seq := \<lparr>last_reserved_revision = 1, last_finished_revision = 0\<rparr>, waiting := {1}\<rparr>"
  have "seq_step new_seq_system ?s1"
    using seq_step.reserve [of new_seq_system 1 "\<lparr>last_reserved_revision = 1, last_finished_revision = 0\<rparr>"]
    by (simp add: seq_reserve_def new_seq_system_def new_sequencer_def)
  then have "seq_reachable ?s1" by (rule seq_reachable.step [OF seq_reachable.start])
  moreover have "seq_step ?s1 two_reserved"
    using seq_step.reserve [of ?s1 2 "\<lparr>last_reserved_revision = 2, last_finished_revision = 0\<rparr>"]
    by (simp add: seq_reserve_def new_seq_system_def two_reserved_def insert_commute)
  ultimately show ?thesis by (rule seq_reachable.step)
qed

theorem snapshots_written_in_order_witness:
  "map fst (write_log two_reserved) = [1..<Suc (length (write_log two_reserved))]"
  using snapshots_written_in_order [OF two_reserved_reachable] by blast

theorem snapshots_all_written_witness:
  "\<exists>s'. seq_step\<^sup>*\<^sup>* two_reserved s' \<and> map fst (write_log s') = [1, 2]"
proof -
  have "[1..<Suc (last_reserved_revision (seq two_reserved))] = [1, 2]"
    by (simp add: two_reserved_def upt_rec)
  with snapshots_all_written [OF two_reserved_reachable] show ?thesis by metis
qed

end
