(* ===== verification/Chapter_Job.thy ===== *)
theory Chapter_Job
  imports Py_Prelude
begin

text \<open>
  One task point and one chapter (\<open>process_job\<close>, \<open>_process_jobs_inline\<close>, \<open>process_chapter\<close> of
  \<open>learning.py\<close>, \<open>StudyResult\<close> of \<open>constants.py\<close>), and the small helpers of \<open>learning.py\<close>. What
  the Chaoxing client answers, when the stop callback says so and the order in which the pool's
  jobs finish are observations; a Python exception that leaves a function is \<open>Inl\<close>.
\<close>

datatype study_result = SR_SUCCESS | SR_FORBIDDEN | SR_ERROR | SR_TIMEOUT | SR_CANCELLED

definition is_failure :: "study_result \<Rightarrow> bool" where
  "is_failure r = (r \<in> {SR_FORBIDDEN, SR_ERROR, SR_TIMEOUT})"

datatype chapter_result = CR_SUCCESS | CR_ERROR | CR_NOT_OPEN | CR_PENDING | CR_CANCELLED

datatype py_exc = KeyError string | Exc string string

section \<open>A task point\<close>

text \<open>
  The client's answers for one job: the stop callback at the start, the study of a video as video
  and as audio, of a document, a quiz, a reading; for a live stream the exception of its
  preparation, or its result (none if the thread died) and the stop callback afterwards.
\<close>

record job_obs =
  jo_stop :: bool
  jo_video :: "py_exc + study_result"
  jo_audio :: "py_exc + study_result"
  jo_document :: "py_exc + study_result"
  jo_work :: "py_exc + study_result"
  jo_read :: "py_exc + study_result"
  jo_live :: "py_exc + bool option"
  jo_stop_after :: bool

text \<open>\<open>d[k]\<close> for its possible \<open>KeyError\<close>: the first missing key of the ones read\<close>

fun first_missing :: "(pydict \<times> string) list \<Rightarrow> py_exc option" where
  "first_missing [] = None"
| "first_missing ((d, k) # reads) =
     (if map_of d k = None then Some (KeyError k) else first_missing reads)"

definition reading :: "(pydict \<times> string) list \<Rightarrow> py_exc + 'a \<Rightarrow> py_exc + 'a" where
  "reading reads r = (case first_missing reads of None \<Rightarrow> r | Some e \<Rightarrow> Inl e)"

definition study_media :: "pydict \<Rightarrow> pydict \<Rightarrow> job_obs \<Rightarrow> py_exc + study_result" where
  "study_media course job ob =
     (case jo_video ob of
        Inl e \<Rightarrow> Inl e
      | Inr r \<Rightarrow> (if is_failure r
                 then (case jo_audio ob of
                         Inl e \<Rightarrow> Inl e
                       | Inr r' \<Rightarrow> (if is_failure r' then reading [(course, ''title''), (job, ''jobid'')] (Inr r')
                                   else Inr r'))
                 else Inr r))"

definition study_live :: "job_obs \<Rightarrow> study_result" where
  "study_live ob =
     (case jo_live ob of
        Inl _ \<Rightarrow> SR_ERROR
      | Inr result \<Rightarrow> (if result = Some False \<and> jo_stop_after ob then SR_CANCELLED
                      else if result = Some True then SR_SUCCESS else SR_ERROR))"

definition process_job :: "pydict \<Rightarrow> pydict \<Rightarrow> job_obs \<Rightarrow> py_exc + study_result" where
  "process_job course job ob =
     (if jo_stop ob then Inr SR_CANCELLED
      else reading [(job, ''type'')]
        (let kind = dget job ''type''
         in if kind = PStr ''video''
            then reading [(course, ''title''), (job, ''jobid'')] (study_media course job ob)
            else if kind = PStr ''document''
            then reading [(course, ''title''), (job, ''jobid'')] (jo_document ob)
            else if kind = PStr ''workid'' then reading [(course, ''title'')] (jo_work ob)
            else if kind = PStr ''read'' then reading [(course, ''title'')] (jo_read ob)
            else if kind = PStr ''live''
            then reading [(course, ''title''), (job, ''jobid'')] (Inr (study_live ob))
            else Inr SR_ERROR))"

section \<open>A chapter\<close>

text \<open>\<open>_process_jobs_inline\<close>: each job with the stop callback before it; \<open>None\<close> if all went through\<close>

fun process_jobs_inline :: "pydict \<Rightarrow> (pydict \<times> bool \<times> job_obs) list \<Rightarrow> py_exc + chapter_result option" where
  "process_jobs_inline course [] = Inr None"
| "process_jobs_inline course ((job, stop, ob) # jobs) =
     (if stop then Inr (Some CR_CANCELLED)
      else (case process_job course job ob of
              Inl e \<Rightarrow> Inl e
            | Inr r \<Rightarrow> (if r = SR_CANCELLED then Inr (Some CR_CANCELLED)
                       else if is_failure r then Inr (Some CR_ERROR)
                       else process_jobs_inline course jobs)))"

text \<open>The results of one \<open>wait\<close> round, in the order they are read\<close>

datatype round_end = RoundOk | RoundRaised py_exc | RoundReturns chapter_result

fun read_done :: "(py_exc + study_result) list \<Rightarrow> round_end" where
  "read_done [] = RoundOk"
| "read_done (Inl e # done_jobs) = RoundRaised e"
| "read_done (Inr r # done_jobs) =
     (if r = SR_CANCELLED then RoundReturns CR_CANCELLED
      else if is_failure r then RoundReturns CR_ERROR
      else read_done done_jobs)"

text \<open>
  The pool loop: per round the stop callback and the jobs that finished (none on a time-out);
  \<open>None\<close> where the rounds end before the jobs do, so that the loop is still waiting.
\<close>

fun pool_loop :: "nat \<Rightarrow> (bool \<times> (py_exc + study_result) list) list \<Rightarrow> (py_exc + chapter_result option) option" where
  "pool_loop 0 rounds = Some (Inr None)"
| "pool_loop (Suc n) [] = None"
| "pool_loop (Suc n) ((stop, finished) # rounds) =
     (if stop then Some (Inr (Some CR_CANCELLED))
      else (case read_done finished of
              RoundRaised e \<Rightarrow> Some (Inl e)
            | RoundReturns r \<Rightarrow> Some (Inr (Some r))
            | RoundOk \<Rightarrow> pool_loop (Suc n - length finished) rounds))"

datatype pool_start = PoolStarted | PoolNoThread | PoolRaised py_exc

record chapter_obs =
  cx_job_list :: "py_exc + pydict list \<times> pydict"
  cx_stop :: bool
  cx_pool :: pool_start
  cx_inline :: "(bool \<times> job_obs) list"
  cx_rounds :: "(bool \<times> (py_exc + study_result) list) list"

text \<open>\<open>process_chapter\<close>: its result, and whether \<open>chapter_done_callback\<close> was called\<close>

definition study_chapter :: "pydict \<Rightarrow> chapter_obs \<Rightarrow> ((py_exc + chapter_result) \<times> bool) option" where
  "study_chapter course ob =
     (case cx_job_list ob of
        Inl e \<Rightarrow> Some (Inl e, False)
      | Inr (jobs, job_info) \<Rightarrow>
          (if cx_stop ob then Some (Inr CR_CANCELLED, False)
           else if job_info \<noteq> [] \<and> truthy (dget job_info ''notOpen'') then Some (Inr CR_NOT_OPEN, False)
           else if job_info = [] \<and> jobs = [] then Some (Inr CR_ERROR, False)
           else (case (case cx_pool ob of
                         PoolRaised e \<Rightarrow> Some (Inl e)
                       | PoolNoThread \<Rightarrow> Some (process_jobs_inline course (zip jobs (cx_inline ob)))
                       | PoolStarted \<Rightarrow> pool_loop (length jobs) (cx_rounds ob)) of
                   None \<Rightarrow> None
                 | Some (Inl e) \<Rightarrow> Some (Inl e, False)
                 | Some (Inr (Some r)) \<Rightarrow> Some (Inr r, False)
                 | Some (Inr None) \<Rightarrow> Some (Inr CR_SUCCESS, True))))"

definition process_chapter :: "pydict \<Rightarrow> pydict \<Rightarrow> chapter_obs \<Rightarrow> ((py_exc + chapter_result) \<times> bool) option" where
  "process_chapter course point ob =
     (case first_missing [(point, ''title''), (point, ''has_finished'')] of
        Some e \<Rightarrow> Some (Inl e, False)
      | None \<Rightarrow>
          (if truthy (dget point ''has_finished'') then Some (Inr CR_SUCCESS, True)
           else study_chapter course ob))"

section \<open>Helpers\<close>

text \<open>
  \<open>_validate_jobs\<close>: \<open>parse\<close> is \<open>int(text)\<close>. \<open>operator.index\<close> takes integers and booleans only.
\<close>

definition validate_jobs :: "(string \<Rightarrow> int option) \<Rightarrow> pyval \<Rightarrow> string + int" where
  "validate_jobs parse value =
     (case (case value of
              PStr s \<Rightarrow> parse s
            | PInt i \<Rightarrow> Some i
            | PBool b \<Rightarrow> Some (if b then 1 else 0)
            | _ \<Rightarrow> None) of
        None \<Rightarrow> Inl ''jobs must be a positive integer''
      | Some jobs \<Rightarrow> (if jobs \<le> 0 then Inl ''jobs must be greater than 0'' else Inr jobs))"

definition str_to_bool :: "pyval \<Rightarrow> bool" where
  "str_to_bool value =
     (case value of
        PBool b \<Rightarrow> b
      | v \<Rightarrow> py_lower (py_strip (py_str v)) \<in> {''1'', ''true'', ''yes'', ''y'', ''on''})"

text \<open>The loop of \<open>filter_courses\<close>; all courses where none is selected\<close>

fun pick_courses :: "pydict list \<Rightarrow> pyval list \<Rightarrow> pyval list \<Rightarrow> pydict list" where
  "pick_courses [] course_list course_ids = []"
| "pick_courses (course # courses) course_list course_ids =
     (let cid = dget course ''courseId''
      in if cid \<in> set course_list \<and> cid \<notin> set course_ids
         then course # pick_courses courses course_list (cid # course_ids)
         else pick_courses courses course_list course_ids)"

definition filter_courses :: "pydict list \<Rightarrow> pyval list \<Rightarrow> pydict list" where
  "filter_courses all_course course_list =
     (let course_task = pick_courses all_course course_list []
      in if course_task = [] then all_course else course_task)"

text \<open>\<open>format_time\<close> of a whole number of seconds; \<open>{:02d}\<close> pads on the left\<close>

definition pad2 :: "int \<Rightarrow> string" where
  "pad2 i = (let s = int_str i in if length s < 2 then ''0'' @ s else s)"

definition format_time :: "int \<Rightarrow> string" where
  "format_time total_time =
     (let sec = total_time mod 60; mins = (total_time mod 3600) div 60; hrs = total_time div 3600
      in if 0 < hrs then pad2 hrs @ '':'' @ pad2 mins @ '':'' @ pad2 sec
         else pad2 mins @ '':'' @ pad2 sec)"

section \<open>Lemmas\<close>

lemma read_done_ok: "read_done finished = RoundOk \<longleftrightarrow> (\<forall>x \<in> set finished. x = Inr SR_SUCCESS)"
proof (induction finished rule: read_done.induct)
  case (3 r done_jobs)
  then show ?case by (cases r) (auto simp: is_failure_def)
qed auto

lemma read_done_not_success: "read_done finished \<noteq> RoundReturns CR_SUCCESS"
  by (induction finished rule: read_done.induct) auto

text \<open>The pool loop gets to its end only when every job has succeeded\<close>

lemma pool_loop_done:
  "pool_loop n rounds = Some (Inr None) \<Longrightarrow>
     \<exists>used rest. rounds = used @ rest \<and> n \<le> length (concat (map snd used))
       \<and> (\<forall>x \<in> set (concat (map snd used)). x = Inr SR_SUCCESS) \<and> (\<forall>r \<in> set used. \<not> fst r)"
proof (induction n rounds rule: pool_loop.induct)
  case (1 rounds)
  show ?case by (intro exI [of _ "[]"] exI [of _ rounds]) simp
next
  case (3 n stop finished rounds)
  from 3(2) have no_stop: "\<not> stop" and ok: "read_done finished = RoundOk"
    and rec: "pool_loop (Suc n - length finished) rounds = Some (Inr None)"
    by (auto split: if_splits round_end.splits)
  from 3(1) [OF no_stop ok rec] obtain used rest where
    u: "rounds = used @ rest" "Suc n - length finished \<le> length (concat (map snd used))"
      "\<forall>x \<in> set (concat (map snd used)). x = Inr SR_SUCCESS" "\<forall>r \<in> set used. \<not> fst r" by blast
  show ?case
    by (intro exI [of _ "(stop, finished) # used"] exI [of _ rest])
       (use u no_stop ok in \<open>auto simp: read_done_ok\<close>)
qed simp

lemma pool_loop_not_success: "pool_loop n rounds \<noteq> Some (Inr (Some CR_SUCCESS))"
proof (induction n rounds rule: pool_loop.induct)
  case (3 n stop finished rounds)
  then show ?case using read_done_not_success by (auto split: round_end.splits)
qed auto

lemma inline_not_success: "process_jobs_inline course jobs \<noteq> Inr (Some CR_SUCCESS)"
  by (induction course jobs rule: process_jobs_inline.induct) (auto split: sum.splits)

lemma inline_done:
  "process_jobs_inline course jobs = Inr None \<longleftrightarrow>
     (\<forall>(job, stop, ob) \<in> set jobs. \<not> stop \<and> process_job course job ob = Inr SR_SUCCESS)"
proof (induction course jobs rule: process_jobs_inline.induct)
  case (2 course job stop ob jobs)
  show ?case
  proof (cases "process_job course job ob")
    case (Inr r)
    with 2 show ?thesis by (cases r) (auto simp: is_failure_def)
  qed auto
qed simp

lemma validate_jobs_positive: "validate_jobs parse v = Inr n \<Longrightarrow> 0 < n"
  by (auto simp: validate_jobs_def split: option.splits if_splits)

lemma pick_courses_distinct:
  "distinct (map (\<lambda>c. dget c ''courseId'') (pick_courses courses cl ids))
     \<and> (\<lambda>c. dget c ''courseId'') ` set (pick_courses courses cl ids) \<inter> set ids = {}"
proof (induction courses cl ids rule: pick_courses.induct)
  case (2 course courses cl ids)
  then show ?case by (cases "dget course ''courseId'' \<in> set cl \<and> dget course ''courseId'' \<notin> set ids")
      (auto simp: Let_def)
qed simp

section \<open>Properties\<close>

text \<open>
  a chapter counts as done exactly when it succeeds. Whenever \<open>process_chapter\<close> returns, the
  done callback has been called if and only if the result is \<open>SUCCESS\<close>; an exception never calls it.
\<close>

theorem chapter_done_iff_success:
  assumes "process_chapter course point ob = Some (r, done_called)"
  shows "done_called \<longleftrightarrow> r = Inr CR_SUCCESS"
  using assms pool_loop_not_success inline_not_success
  by (auto simp: process_chapter_def study_chapter_def
      split: option.splits if_splits sum.splits pool_start.splits prod.splits)

definition plain_point :: pydict where
  "plain_point = [(''title'', PStr ''t''), (''has_finished'', PBool False)]"

definition two_jobs_obs :: chapter_obs where
  "two_jobs_obs = \<lparr>cx_job_list = Inr ([[(''type'', PStr ''video'')], [(''type'', PStr ''read'')]], [(''k'', PInt 1)]),
     cx_stop = False, cx_pool = PoolStarted, cx_inline = [],
     cx_rounds = [(False, [Inr SR_SUCCESS]), (False, []), (False, [Inr SR_SUCCESS])]\<rparr>"

theorem chapter_done_iff_success_witness:
  "process_chapter [] plain_point two_jobs_obs = Some (Inr CR_SUCCESS, True) \<and> True = (Inr CR_SUCCESS = (Inr CR_SUCCESS :: py_exc + chapter_result))"
proof -
  have p: "process_chapter [] plain_point two_jobs_obs = Some (Inr CR_SUCCESS, True)" by code_simp
  with chapter_done_iff_success [OF p] show ?thesis by simp
qed

text \<open>
  no false success. An unfinished chapter that \<open>process_chapter\<close> reports as \<open>SUCCESS\<close> had its
  task list fetched (jobs, or a non-empty job info), was open, was not stopped, and every job of it
  succeeded: in the pool at least as many jobs as there are finished, all of them with \<open>SUCCESS\<close>;
  inline, each one did.
\<close>

theorem chapter_success_sound:
  assumes "process_chapter course point ob = Some (Inr CR_SUCCESS, d)"
    and "\<not> truthy (dget point ''has_finished'')"
  shows "\<exists>jobs job_info. cx_job_list ob = Inr (jobs, job_info) \<and> (jobs \<noteq> [] \<or> job_info \<noteq> [])
    \<and> \<not> truthy (dget job_info ''notOpen'') \<and> \<not> cx_stop ob
    \<and> (cx_pool ob = PoolStarted \<and> (\<exists>used rest. cx_rounds ob = used @ rest
           \<and> length jobs \<le> length (concat (map snd used))
           \<and> (\<forall>x \<in> set (concat (map snd used)). x = Inr SR_SUCCESS))
       \<or> cx_pool ob = PoolNoThread
           \<and> (\<forall>(job, stop, jo) \<in> set (zip jobs (cx_inline ob)). \<not> stop \<and> process_job course job jo = Inr SR_SUCCESS))"
proof -
  obtain jobs job_info where j: "cx_job_list ob = Inr (jobs, job_info)" "jobs \<noteq> [] \<or> job_info \<noteq> []"
    "\<not> cx_stop ob" "\<not> (job_info \<noteq> [] \<and> truthy (dget job_info ''notOpen''))"
    and e: "cx_pool ob = PoolStarted \<and> pool_loop (length jobs) (cx_rounds ob) = Some (Inr None)
      \<or> cx_pool ob = PoolNoThread \<and> process_jobs_inline course (zip jobs (cx_inline ob)) = Inr None"
    using assms pool_loop_not_success [of _ "cx_rounds ob"] inline_not_success [of course]
    by (auto simp: process_chapter_def study_chapter_def
        split: option.splits if_splits sum.splits pool_start.splits prod.splits)
  have "\<not> truthy (dget job_info ''notOpen'')" using j(4) by (cases "job_info = []") (auto simp: dget_def)
  moreover have "cx_pool ob = PoolStarted \<and> (\<exists>used rest. cx_rounds ob = used @ rest
           \<and> length jobs \<le> length (concat (map snd used)) \<and> (\<forall>x \<in> set (concat (map snd used)). x = Inr SR_SUCCESS))
       \<or> cx_pool ob = PoolNoThread
           \<and> (\<forall>(job, stop, jo) \<in> set (zip jobs (cx_inline ob)). \<not> stop \<and> process_job course job jo = Inr SR_SUCCESS)"
    using e
  proof
    assume p: "cx_pool ob = PoolStarted \<and> pool_loop (length jobs) (cx_rounds ob) = Some (Inr None)"
    then show ?thesis using pool_loop_done [of "length jobs" "cx_rounds ob"] by blast
  next
    assume "cx_pool ob = PoolNoThread \<and> process_jobs_inline course (zip jobs (cx_inline ob)) = Inr None"
    then show ?thesis using inline_done by blast
  qed
  ultimately show ?thesis using j(1-3) by blast
qed

theorem chapter_success_sound_witness:
  "\<exists>jobs job_info. cx_job_list two_jobs_obs = Inr (jobs, job_info) \<and> (jobs \<noteq> [] \<or> job_info \<noteq> [])"
proof -
  have p: "process_chapter [] plain_point two_jobs_obs = Some (Inr CR_SUCCESS, True)" by code_simp
  have "\<not> truthy (dget plain_point ''has_finished'')" by code_simp
  from chapter_success_sound [OF p this] show ?thesis by blast
qed

end
