(* ===== verification/Job_Processor.thy ===== *)
theory Job_Processor
  imports Chapter_Job
begin

text \<open>
  \<open>JobProcessor\<close> of \<open>learning.py\<close>: the chapters of one course, the workers that process them, the
  retry pipeline and the counters the controller waits on.

  A chapter is its index. Where it is (queued, held by a worker, on its way into the retry queue,
  in it, on its way back, settled) is \<open>places\<close>; the two queues are the chapters at \<open>Queued\<close> and
  \<open>InRetry\<close>. The counters \<open>unfinished_tasks\<close> and \<open>_pending_retries\<close> are separate, because the
  code updates them at other moments than the queues: \<open>owing\<close> counts the workers that are past
  their branch and still owe \<open>task_done()\<close>, \<open>releasing\<close> the promotions that have re-queued a chapter
  and not yet released its pending retry. The result of an attempt is a function of the chapter and
  the number of failed attempts before it.
\<close>

datatype place = Queued | Held | Handing | InRetry | Moving | Done | GivenUp | Dropped

definition settled_place :: "place \<Rightarrow> bool" where
  "settled_place p = (p \<in> {Done, GivenUp, Dropped})"

definition MAX_TRIES :: nat where
  "MAX_TRIES = 5"

text \<open>The branches after an attempt: the new number of tries and what becomes of the chapter\<close>

datatype verdict = Finish | GiveUp | Retry | CancelAll

definition count_failure :: "nat \<Rightarrow> nat \<times> verdict" where
  "count_failure tries = (Suc tries, if MAX_TRIES \<le> Suc tries then GiveUp else Retry)"

fun after_attempt :: "bool \<Rightarrow> chapter_result \<Rightarrow> nat \<Rightarrow> nat \<times> verdict" where
  "after_attempt skip_closed CR_SUCCESS tries = (tries, Finish)"
| "after_attempt skip_closed CR_NOT_OPEN tries =
     (if skip_closed then (tries, Finish) else count_failure tries)"
| "after_attempt skip_closed CR_ERROR tries = count_failure tries"
| "after_attempt skip_closed CR_CANCELLED tries = (tries, CancelAll)"
| "after_attempt skip_closed CR_PENDING tries = (tries, GiveUp)"

text \<open>\<open>_report_failure\<close> is called on the first failure and on giving up; the boolean is \<open>final\<close>.\<close>

definition reports :: "nat \<times> verdict \<Rightarrow> bool option" where
  "reports d = (case d of
     (_, GiveUp) \<Rightarrow> Some True
   | (tries, Retry) \<Rightarrow> if tries = 1 then Some False else None
   | _ \<Rightarrow> None)"

section \<open>Processing without threads\<close>

text \<open>
  \<open>_run_inline\<close>: the attempts of one chapter (the recursion counts the tries up), then the chapters
  in order. The stop callback is read before each attempt; a stop or a cancelled attempt ends the
  run. Reports are (chapter, final).
\<close>

type_synonym results_of = "nat \<Rightarrow> nat \<Rightarrow> chapter_result"

function inline_attempts ::
  "bool \<Rightarrow> (nat \<Rightarrow> bool) \<Rightarrow> (nat \<Rightarrow> chapter_result) \<Rightarrow> nat \<Rightarrow> place \<times> bool list" where
  "inline_attempts skip_closed stop res tries =
     (if stop tries then (Dropped, [])
      else (case after_attempt skip_closed (res tries) tries of
              (_, Finish) \<Rightarrow> (Done, [])
            | (_, GiveUp) \<Rightarrow> (GivenUp, [True])
            | (_, CancelAll) \<Rightarrow> (Dropped, [])
            | (tries', Retry) \<Rightarrow>
                (let (p, rs) = inline_attempts skip_closed stop res tries'
                 in (p, (if tries' = 1 then [False] else []) @ rs))))"
  by pat_completeness auto

lemma after_attempt_retry:
  "after_attempt skip_closed r tries = (t, Retry) \<Longrightarrow> t = Suc tries \<and> Suc tries < MAX_TRIES"
  by (cases r) (auto simp: count_failure_def split: if_splits)

termination inline_attempts
  by (relation "measure (\<lambda>(_, _, _, tries). MAX_TRIES - tries)") (auto dest!: sym [THEN after_attempt_retry])

declare inline_attempts.simps [simp del]

fun run_inline :: "bool \<Rightarrow> (nat \<Rightarrow> nat \<Rightarrow> bool) \<Rightarrow> results_of \<Rightarrow> nat list \<Rightarrow> (nat \<times> place) list" where
  "run_inline skip_closed stop res [] = []"
| "run_inline skip_closed stop res (i # rest) =
     (let p = fst (inline_attempts skip_closed (stop i) (res i) 0)
      in if p = Dropped then map (\<lambda>j. (j, Dropped)) (i # rest)
         else (i, p) # run_inline skip_closed stop res rest)"

section \<open>Workers, retry thread and controller\<close>

record jp_state =
  places :: "place list"
  tries :: "nat list"
  unfinished_tasks :: nat
  pending_retries :: nat
  owing :: nat
  releasing :: nat
  controller :: "nat option"
  exited :: bool

definition jp_start :: "nat \<Rightarrow> jp_state" where
  "jp_start n = \<lparr>places = replicate n Queued, tries = replicate n 0, unfinished_tasks = n,
     pending_retries = 0, owing = 0, releasing = 0, controller = None, exited = False\<rparr>"

definition at_place :: "jp_state \<Rightarrow> nat \<Rightarrow> place \<Rightarrow> bool" where
  "at_place s i p \<longleftrightarrow> i < length (places s) \<and> places s ! i = p"

definition move :: "nat \<Rightarrow> place \<Rightarrow> jp_state \<Rightarrow> jp_state" where
  "move i p s = s\<lparr>places := (places s)[i := p]\<rparr>"

text \<open>The worker's branch after the attempt on a chapter it holds, up to but without \<open>task_done()\<close>\<close>

definition worker_branch :: "bool \<Rightarrow> results_of \<Rightarrow> nat \<Rightarrow> jp_state \<Rightarrow> jp_state" where
  "worker_branch skip_closed res i s =
     (case after_attempt skip_closed (res i (tries s ! i)) (tries s ! i) of
        (t, Finish) \<Rightarrow> (move i Done s)\<lparr>owing := Suc (owing s)\<rparr>
      | (t, GiveUp) \<Rightarrow> (move i GivenUp s)\<lparr>tries := (tries s)[i := t], owing := Suc (owing s)\<rparr>
      | (t, Retry) \<Rightarrow> (move i Handing s)\<lparr>tries := (tries s)[i := t], pending_retries := Suc (pending_retries s)\<rparr>
      | (t, CancelAll) \<Rightarrow> (move i Dropped s)\<lparr>owing := Suc (owing s)\<rparr>)"

definition count_at :: "place \<Rightarrow> jp_state \<Rightarrow> nat" where
  "count_at p s = length (filter (\<lambda>q. q = p) (places s))"

text \<open>\<open>_drain_pending_tasks\<close>: both queues emptied, each removal with its \<open>task_done()\<close> or release\<close>

definition drain :: "jp_state \<Rightarrow> jp_state" where
  "drain s = s\<lparr>places := map (\<lambda>p. if p \<in> {Queued, InRetry} then Dropped else p) (places s),
     unfinished_tasks := unfinished_tasks s - count_at Queued s,
     pending_retries := pending_retries s - count_at InRetry s\<rparr>"

inductive jp_step :: "bool \<Rightarrow> results_of \<Rightarrow> jp_state \<Rightarrow> jp_state \<Rightarrow> bool"
  for skip_closed :: bool and res :: results_of
where
  take: "at_place s i Queued \<Longrightarrow> \<forall>j < i. \<not> at_place s j Queued \<Longrightarrow> jp_step skip_closed res s (move i Held s)"
| attempt: "at_place s i Held \<Longrightarrow> jp_step skip_closed res s (worker_branch skip_closed res i s)"
| handed: "at_place s i Handing \<Longrightarrow>
    jp_step skip_closed res s ((move i InRetry s)\<lparr>owing := Suc (owing s)\<rparr>)"
| task_done: "0 < owing s \<Longrightarrow>
    jp_step skip_closed res s (s\<lparr>owing := owing s - 1, unfinished_tasks := unfinished_tasks s - 1\<rparr>)"
| promote: "at_place s i InRetry \<Longrightarrow> \<forall>j < i. \<not> at_place s j InRetry \<Longrightarrow> jp_step skip_closed res s (move i Moving s)"
| requeue: "at_place s i Moving \<Longrightarrow>
    jp_step skip_closed res s ((move i Queued s)\<lparr>unfinished_tasks := Suc (unfinished_tasks s), releasing := Suc (releasing s)\<rparr>)"
| release: "0 < releasing s \<Longrightarrow>
    jp_step skip_closed res s (s\<lparr>releasing := releasing s - 1, pending_retries := pending_retries s - 1\<rparr>)"

text \<open>
  The controller's \<open>_has_outstanding_work\<close> reads \<open>_pending_retries\<close> first and \<open>unfinished_tasks\<close>
  afterwards; the loop ends when neither was positive.
\<close>

inductive ctl_step :: "jp_state \<Rightarrow> jp_state \<Rightarrow> bool" where
  read_pending: "controller s = None \<Longrightarrow> \<not> exited s \<Longrightarrow> ctl_step s (s\<lparr>controller := Some (pending_retries s)\<rparr>)"
| read_unfinished: "controller s = Some p \<Longrightarrow>
    ctl_step s (s\<lparr>controller := None, exited := \<not> (0 < unfinished_tasks s \<or> 0 < p)\<rparr>)"

inductive jp_reachable :: "bool \<Rightarrow> results_of \<Rightarrow> nat \<Rightarrow> jp_state \<Rightarrow> bool"
  for skip_closed :: bool and res :: results_of and n :: nat
where
  started: "jp_reachable skip_closed res n (jp_start n)"
| worked: "jp_reachable skip_closed res n s \<Longrightarrow> jp_step skip_closed res s s' \<Longrightarrow> jp_reachable skip_closed res n s'"
| checked: "jp_reachable skip_closed res n s \<Longrightarrow> ctl_step s s' \<Longrightarrow> jp_reachable skip_closed res n s'"
| drained: "jp_reachable skip_closed res n s \<Longrightarrow> jp_reachable skip_closed res n (drain s)"

inductive_cases jp_stepE: "jp_step skip_closed res s s'"
inductive_cases ctl_stepE: "ctl_step s s'"

section \<open>Counting chapters\<close>

lemma length_filter_update:
  "i < length xs \<Longrightarrow>
     length (filter (\<lambda>x. x = p) (xs[i := q])) + (if xs ! i = p then 1 else 0)
       = length (filter (\<lambda>x. x = p) xs) + (if q = p then 1 else 0)"
proof (induction xs arbitrary: i)
  case (Cons x xs)
  show ?case
  proof (cases i)
    case (Suc j)
    with Cons.IH [of j] Cons.prems show ?thesis by auto
  qed auto
qed simp

lemma count_move:
  "at_place s i q \<Longrightarrow>
     count_at p (move i r s) + (if q = p then 1 else 0) = count_at p s + (if r = p then 1 else 0)"
  using length_filter_update [of i "places s" p r] by (auto simp: count_at_def move_def at_place_def)

lemma count_pos: "at_place s i p \<Longrightarrow> 0 < count_at p s"
  by (auto simp: count_at_def at_place_def filter_empty_conv in_set_conv_nth)

lemma count_places [simp]: "count_at p (s\<lparr>unfinished_tasks := a\<rparr>) = count_at p s"
  "count_at p (s\<lparr>pending_retries := a\<rparr>) = count_at p s" "count_at p (s\<lparr>owing := a\<rparr>) = count_at p s"
  "count_at p (s\<lparr>releasing := a\<rparr>) = count_at p s" "count_at p (s\<lparr>tries := ts\<rparr>) = count_at p s"
  "count_at p (s\<lparr>controller := c\<rparr>) = count_at p s" "count_at p (s\<lparr>exited := e\<rparr>) = count_at p s"
  by (simp_all add: count_at_def)

lemma move_fields [simp]:
  "unfinished_tasks (move i p s) = unfinished_tasks s" "pending_retries (move i p s) = pending_retries s"
  "owing (move i p s) = owing s" "releasing (move i p s) = releasing s" "tries (move i p s) = tries s"
  "length (places (move i p s)) = length (places s)"
  by (simp_all add: move_def)

section \<open>The accounting invariant\<close>

text \<open>
  Every chapter that is not settled is counted at every moment: \<open>unfinished_tasks\<close> has the queued,
  the held and those whose worker still owes \<open>task_done()\<close>; \<open>_pending_retries\<close> has those on their
  way into the retry queue, in it and on their way back.
\<close>

definition jp_counts :: "jp_state \<Rightarrow> bool" where
  "jp_counts s \<longleftrightarrow>
     unfinished_tasks s = count_at Queued s + count_at Held s + count_at Handing s + owing s
     \<and> pending_retries s = count_at Handing s + count_at InRetry s + count_at Moving s + releasing s"

lemma worker_branch_cases:
  obtains (finish) t where "after_attempt sk (res i (tries s ! i)) (tries s ! i) = (t, Finish)"
      "t = tries s ! i" "worker_branch sk res i s = (move i Done s)\<lparr>owing := Suc (owing s)\<rparr>"
  | (give_up) t where "after_attempt sk (res i (tries s ! i)) (tries s ! i) = (t, GiveUp)"
      "worker_branch sk res i s = (move i GivenUp s)\<lparr>tries := (tries s)[i := t], owing := Suc (owing s)\<rparr>"
      "t \<le> Suc (tries s ! i)"
  | (retry) t where "after_attempt sk (res i (tries s ! i)) (tries s ! i) = (t, Retry)"
      "t = Suc (tries s ! i)" "t < MAX_TRIES"
      "worker_branch sk res i s = (move i Handing s)\<lparr>tries := (tries s)[i := t], pending_retries := Suc (pending_retries s)\<rparr>"
  | (cancel) t where "after_attempt sk (res i (tries s ! i)) (tries s ! i) = (t, CancelAll)"
      "t = tries s ! i" "worker_branch sk res i s = (move i Dropped s)\<lparr>owing := Suc (owing s)\<rparr>"
proof -
  obtain t v where d: "after_attempt sk (res i (tries s ! i)) (tries s ! i) = (t, v)" by fastforce
  have same: "v = Finish \<or> v = CancelAll \<Longrightarrow> t = tries s ! i" "t \<le> Suc (tries s ! i)"
    using d by (cases "res i (tries s ! i)"; auto simp: count_failure_def split: if_splits)+
  show thesis
    using that d same after_attempt_retry [of sk "res i (tries s ! i)" "tries s ! i" t]
    by (cases v) (auto simp: worker_branch_def)
qed

lemma step_counts:
  assumes "jp_step sk res s s'" and c: "jp_counts s" shows "jp_counts s'"
  using assms(1)
proof cases
  case (take i)
  show ?thesis
    unfolding take(1) using count_move [OF take(2), of Queued Held] count_move [OF take(2), of Held Held]
      count_move [OF take(2), of Handing Held] count_move [OF take(2), of InRetry Held]
      count_move [OF take(2), of Moving Held] c by (simp add: jp_counts_def)
next
  case (attempt i)
  show ?thesis
    unfolding attempt(1)
    by (rule worker_branch_cases [of sk res i s])
       (use count_move [OF attempt(2), of Queued] count_move [OF attempt(2), of Held]
          count_move [OF attempt(2), of Handing] count_move [OF attempt(2), of InRetry]
          count_move [OF attempt(2), of Moving] c in \<open>auto simp: jp_counts_def\<close>)
next
  case (handed i)
  show ?thesis
    unfolding handed(1) using count_move [OF handed(2), of Queued InRetry] count_move [OF handed(2), of Held InRetry]
      count_move [OF handed(2), of Handing InRetry] count_move [OF handed(2), of InRetry InRetry]
      count_move [OF handed(2), of Moving InRetry] c by (simp add: jp_counts_def)
next
  case task_done
  with c show ?thesis by (simp add: jp_counts_def)
next
  case (promote i)
  show ?thesis
    unfolding promote(1) using count_move [OF promote(2), of Queued Moving] count_move [OF promote(2), of Held Moving]
      count_move [OF promote(2), of Handing Moving] count_move [OF promote(2), of InRetry Moving]
      count_move [OF promote(2), of Moving Moving] c by (simp add: jp_counts_def)
next
  case (requeue i)
  show ?thesis
    unfolding requeue(1) using count_move [OF requeue(2), of Queued Queued] count_move [OF requeue(2), of Held Queued]
      count_move [OF requeue(2), of Handing Queued] count_move [OF requeue(2), of InRetry Queued]
      count_move [OF requeue(2), of Moving Queued] c by (simp add: jp_counts_def)
next
  case release
  with c show ?thesis by (simp add: jp_counts_def)
qed

lemma count_drain:
  "count_at p (drain s) =
     (if p \<in> {Queued, InRetry} then 0
      else if p = Dropped then count_at Dropped s + count_at Queued s + count_at InRetry s
      else count_at p s)"
proof -
  let ?f = "\<lambda>p. if p \<in> {Queued, InRetry} then Dropped else p"
  have "length (filter (\<lambda>q. q = p) (map ?f xs)) =
      (if p \<in> {Queued, InRetry} then 0
       else if p = Dropped then length (filter (\<lambda>q. q = Dropped) xs) + length (filter (\<lambda>q. q = Queued) xs)
            + length (filter (\<lambda>q. q = InRetry) xs)
       else length (filter (\<lambda>q. q = p) xs))" for xs
  proof (induction xs)
    case (Cons a xs)
    then show ?case by (cases p; cases a; simp)
  qed simp
  then show ?thesis by (simp add: count_at_def drain_def)
qed

lemma drain_counts: "jp_counts s \<Longrightarrow> jp_counts (drain s)"
  unfolding jp_counts_def count_drain by (simp add: drain_def)

lemma ctl_counts: "ctl_step s s' \<Longrightarrow> jp_counts s \<Longrightarrow> jp_counts s'"
  by (erule ctl_step.cases) (simp_all add: jp_counts_def)

lemma start_counts: "jp_counts (jp_start n)"
  by (simp add: jp_counts_def jp_start_def count_at_def)

lemma reachable_counts: "jp_reachable sk res n s \<Longrightarrow> jp_counts s"
  by (induction rule: jp_reachable.induct) (blast intro: start_counts step_counts ctl_counts drain_counts)+

section \<open>What becomes of each chapter\<close>

text \<open>What the attempts of a chapter lead to from a number of tries on, if nothing stops the run\<close>

definition fate :: "bool \<Rightarrow> (nat \<Rightarrow> chapter_result) \<Rightarrow> nat \<Rightarrow> place" where
  "fate sk r t = fst (inline_attempts sk (\<lambda>_. False) r t)"

lemma fate_unfold:
  "fate sk r t = (case after_attempt sk (r t) t of
     (_, Finish) \<Rightarrow> Done | (_, GiveUp) \<Rightarrow> GivenUp | (_, CancelAll) \<Rightarrow> Dropped | (t', Retry) \<Rightarrow> fate sk r t')"
  unfolding fate_def by (subst inline_attempts.simps) (auto simp: case_prod_beta Let_def split: verdict.splits)

definition chapter_ok :: "bool \<Rightarrow> results_of \<Rightarrow> nat \<Rightarrow> place \<Rightarrow> nat \<Rightarrow> bool" where
  "chapter_ok sk res i p t \<longleftrightarrow> t \<le> MAX_TRIES
     \<and> (p \<in> {Done, GivenUp} \<longrightarrow> fate sk (res i) 0 = p)
     \<and> (\<not> settled_place p \<longrightarrow> t < MAX_TRIES \<and> fate sk (res i) t = fate sk (res i) 0)"

definition jp_ok :: "bool \<Rightarrow> results_of \<Rightarrow> nat \<Rightarrow> jp_state \<Rightarrow> bool" where
  "jp_ok sk res n s \<longleftrightarrow> length (places s) = n \<and> length (tries s) = n
     \<and> (\<forall>i < n. chapter_ok sk res i (places s ! i) (tries s ! i))"

lemma jp_ok_move:
  assumes "jp_ok sk res n s" and "at_place s i q" and "\<not> settled_place q" and "\<not> settled_place p"
  shows "jp_ok sk res n (move i p s)"
  using assms by (auto simp: jp_ok_def move_def at_place_def chapter_ok_def nth_list_update settled_place_def)

lemma jp_ok_update:
  assumes "jp_ok sk res n s" and "at_place s i Held" and "chapter_ok sk res i p t"
  shows "jp_ok sk res n ((move i p s)\<lparr>tries := (tries s)[i := t], unfinished_tasks := a, pending_retries := b, owing := c\<rparr>)"
  using assms by (auto simp: jp_ok_def move_def at_place_def nth_list_update)

lemma jp_ok_counters [simp]:
  "jp_ok sk res n (s\<lparr>unfinished_tasks := a\<rparr>) = jp_ok sk res n s"
  "jp_ok sk res n (s\<lparr>pending_retries := a\<rparr>) = jp_ok sk res n s"
  "jp_ok sk res n (s\<lparr>owing := a\<rparr>) = jp_ok sk res n s"
  "jp_ok sk res n (s\<lparr>releasing := a\<rparr>) = jp_ok sk res n s"
  "jp_ok sk res n (s\<lparr>controller := c\<rparr>) = jp_ok sk res n s"
  "jp_ok sk res n (s\<lparr>exited := e\<rparr>) = jp_ok sk res n s"
  by (simp_all add: jp_ok_def)

lemma worker_branch_ok:
  assumes ok: "jp_ok sk res n s" and at: "at_place s i Held"
  shows "jp_ok sk res n (worker_branch sk res i s)"
proof -
  have i: "i < n" "places s ! i = Held" using ok at by (auto simp: jp_ok_def at_place_def)
  let ?t = "tries s ! i"
  from ok i have c: "?t < MAX_TRIES" "fate sk (res i) ?t = fate sk (res i) 0"
    by (auto simp: jp_ok_def chapter_ok_def settled_place_def)
  have len: "i < length (tries s)" using ok i by (simp add: jp_ok_def)
  show ?thesis
  proof (rule worker_branch_cases [of sk res i s])
    fix t assume a: "after_attempt sk (res i ?t) ?t = (t, Finish)" "t = ?t"
      "worker_branch sk res i s = (move i Done s)\<lparr>owing := Suc (owing s)\<rparr>"
    have "chapter_ok sk res i Done ?t"
      using c fate_unfold [of sk "res i" ?t] a(1) by (simp add: chapter_ok_def settled_place_def)
    from jp_ok_update [OF ok at this, of "unfinished_tasks s" "pending_retries s" "Suc (owing s)"]
    show ?thesis using a(3) by (simp add: move_def)
  next
    fix t assume a: "after_attempt sk (res i ?t) ?t = (t, GiveUp)" "t \<le> Suc ?t"
      "worker_branch sk res i s = (move i GivenUp s)\<lparr>tries := (tries s)[i := t], owing := Suc (owing s)\<rparr>"
    have "chapter_ok sk res i GivenUp t"
      using c fate_unfold [of sk "res i" ?t] a(1,2) by (simp add: chapter_ok_def settled_place_def)
    from jp_ok_update [OF ok at this, of "unfinished_tasks s" "pending_retries s" "Suc (owing s)"]
    show ?thesis using a(3) by (simp add: move_def)
  next
    fix t assume a: "after_attempt sk (res i ?t) ?t = (t, Retry)" "t = Suc ?t" "t < MAX_TRIES"
      "worker_branch sk res i s = (move i Handing s)\<lparr>tries := (tries s)[i := t], pending_retries := Suc (pending_retries s)\<rparr>"
    have "chapter_ok sk res i Handing t"
      using c fate_unfold [of sk "res i" ?t] a(1,3) by (simp add: chapter_ok_def settled_place_def)
    from jp_ok_update [OF ok at this, of "unfinished_tasks s" "Suc (pending_retries s)" "owing s"]
    show ?thesis using a(4) by (simp add: move_def)
  next
    fix t assume a: "after_attempt sk (res i ?t) ?t = (t, CancelAll)" "t = ?t"
      "worker_branch sk res i s = (move i Dropped s)\<lparr>owing := Suc (owing s)\<rparr>"
    have "chapter_ok sk res i Dropped ?t" using c by (simp add: chapter_ok_def settled_place_def)
    from jp_ok_update [OF ok at this, of "unfinished_tasks s" "pending_retries s" "Suc (owing s)"]
    show ?thesis using a(3) by (simp add: move_def)
  qed
qed

lemma step_ok:
  assumes "jp_step sk res s s'" and ok: "jp_ok sk res n s" shows "jp_ok sk res n s'"
  using assms(1)
proof cases
  case (attempt i)
  with ok show ?thesis by (simp add: worker_branch_ok)
qed (use ok in \<open>auto intro!: jp_ok_move simp: settled_place_def\<close>)

lemma drain_ok: "jp_ok sk res n s \<Longrightarrow> jp_ok sk res n (drain s)"
  by (auto simp: jp_ok_def drain_def chapter_ok_def settled_place_def)

lemma reachable_ok: "jp_reachable sk res n s \<Longrightarrow> jp_ok sk res n s"
proof (induction rule: jp_reachable.induct)
  case started
  show ?case by (auto simp: jp_ok_def jp_start_def chapter_ok_def settled_place_def MAX_TRIES_def)
next
  case (checked s s')
  from checked(2,3) show ?case by cases simp_all
qed (blast intro: step_ok drain_ok)+

section \<open>The threads come to an end\<close>

fun place_rank :: "place \<Rightarrow> nat" where
  "place_rank Queued = 3" | "place_rank Held = 2" | "place_rank Handing = 8" | "place_rank InRetry = 6"
| "place_rank Moving = 5" | "place_rank _ = 0"

definition chapter_rank :: "place \<Rightarrow> nat \<Rightarrow> nat" where
  "chapter_rank p t = (if settled_place p then 0 else (MAX_TRIES - t) * 10 + place_rank p)"

definition jp_rank :: "nat \<Rightarrow> jp_state \<Rightarrow> nat" where
  "jp_rank n s = (\<Sum>i < n. chapter_rank (places s ! i) (tries s ! i)) + owing s + releasing s"

lemma sum_change:
  fixes f g :: "nat \<Rightarrow> nat"
  assumes "i < n" and "\<And>j. j \<noteq> i \<Longrightarrow> g j = f j"
  shows "sum g {..<n} + f i = sum f {..<n} + g i"
proof -
  have "sum f {..<n} = f i + sum f ({..<n} - {i})" "sum g {..<n} = g i + sum g ({..<n} - {i})"
    using assms(1) by (simp_all add: sum.remove)
  moreover have "sum g ({..<n} - {i}) = sum f ({..<n} - {i})" by (rule sum.cong) (auto simp: assms(2))
  ultimately show ?thesis by simp
qed

lemma rank_change:
  assumes "jp_ok sk res n s" and "at_place s i q"
    and "places s' = (places s)[i := p]" and "tries s' = (tries s)[i := t]"
  shows "jp_rank n s' + chapter_rank q (tries s ! i) + owing s + releasing s
    = jp_rank n s + chapter_rank p t + owing s' + releasing s'"
proof -
  have i: "i < n" "places s ! i = q" using assms(1,2) by (auto simp: jp_ok_def at_place_def)
  with assms have "chapter_rank (places s' ! i) (tries s' ! i) = chapter_rank p t" by (simp add: jp_ok_def)
  with sum_change [OF i(1), of "\<lambda>j. chapter_rank (places s' ! j) (tries s' ! j)"
      "\<lambda>j. chapter_rank (places s ! j) (tries s ! j)"] assms i show ?thesis
    by (simp add: jp_rank_def)
qed

lemma branch_shape:
  "\<exists>p t. places (worker_branch sk res i s) = (places s)[i := p] \<and> tries (worker_branch sk res i s) = (tries s)[i := t]
     \<and> releasing (worker_branch sk res i s) = releasing s
     \<and> (settled_place p \<and> owing (worker_branch sk res i s) = Suc (owing s)
        \<or> p = Handing \<and> t = Suc (tries s ! i) \<and> owing (worker_branch sk res i s) = owing s)"
proof (rule worker_branch_cases [of sk res i s])
  fix t assume "worker_branch sk res i s = (move i Done s)\<lparr>owing := Suc (owing s)\<rparr>"
  then show ?thesis by (intro exI [of _ Done] exI [of _ "tries s ! i"]) (simp add: move_def settled_place_def)
next
  fix t assume "worker_branch sk res i s = (move i GivenUp s)\<lparr>tries := (tries s)[i := t], owing := Suc (owing s)\<rparr>"
  then show ?thesis by (intro exI [of _ GivenUp] exI [of _ t]) (simp add: move_def settled_place_def)
next
  fix t assume "t = Suc (tries s ! i)"
    "worker_branch sk res i s = (move i Handing s)\<lparr>tries := (tries s)[i := t], pending_retries := Suc (pending_retries s)\<rparr>"
  then show ?thesis by (intro exI [of _ Handing] exI [of _ t]) (simp add: move_def)
next
  fix t assume "worker_branch sk res i s = (move i Dropped s)\<lparr>owing := Suc (owing s)\<rparr>"
  then show ?thesis by (intro exI [of _ Dropped] exI [of _ "tries s ! i"]) (simp add: move_def settled_place_def)
qed

lemma step_rank:
  assumes "jp_step sk res s s'" and ok: "jp_ok sk res n s" shows "jp_rank n s' < jp_rank n s"
  using assms(1)
proof cases
  case (take i)
  from rank_change [OF ok take(2), of s' Held "tries s ! i"] take(1) show ?thesis
    by (simp add: move_def chapter_rank_def settled_place_def)
next
  case (attempt i)
  have i: "i < n" "places s ! i = Held" "i < length (tries s)" using ok attempt(2) by (auto simp: jp_ok_def at_place_def)
  then have "tries s ! i < MAX_TRIES" using ok by (auto simp: jp_ok_def chapter_ok_def settled_place_def)
  then have ten: "10 + (MAX_TRIES - Suc (tries s ! i)) * 10 = (MAX_TRIES - tries s ! i) * 10"
    by (simp add: MAX_TRIES_def)
  obtain p t where
    b: "places s' = (places s)[i := p]" "tries s' = (tries s)[i := t]" "releasing s' = releasing s"
    "settled_place p \<and> owing s' = Suc (owing s) \<or> p = Handing \<and> t = Suc (tries s ! i) \<and> owing s' = owing s"
    using branch_shape [of sk res i s] attempt(1) by blast
  from rank_change [OF ok attempt(2) b(1,2)] b(3,4) ten show ?thesis
    by (auto simp: chapter_rank_def [of Held] chapter_rank_def [of Handing] chapter_rank_def [of p]
        settled_place_def [of Held] settled_place_def [of Handing])
next
  case (handed i)
  from rank_change [OF ok handed(2), of s' InRetry "tries s ! i"] handed(1) show ?thesis
    by (simp add: move_def chapter_rank_def settled_place_def)
next
  case (promote i)
  from rank_change [OF ok promote(2), of s' Moving "tries s ! i"] promote(1) show ?thesis
    by (simp add: move_def chapter_rank_def settled_place_def)
next
  case (requeue i)
  from rank_change [OF ok requeue(2), of s' Queued "tries s ! i"] requeue(1) show ?thesis
    by (simp add: move_def chapter_rank_def settled_place_def)
qed (auto simp: jp_rank_def)

lemma least_at_place:
  assumes "at_place s i p" shows "\<exists>k. at_place s k p \<and> (\<forall>j < k. \<not> at_place s j p)"
  using assms by (intro exI [of _ "LEAST k. at_place s k p"]) (auto intro: LeastI dest: not_less_Least)

lemma step_enabled:
  assumes "jp_ok sk res n s" and "i < n" and "\<not> settled_place (places s ! i)"
  shows "\<exists>s'. jp_step sk res s s'"
proof -
  have at: "at_place s i (places s ! i)" using assms by (simp add: at_place_def jp_ok_def)
  show ?thesis
  proof (cases "places s ! i")
    case Queued
    with at least_at_place [of s i Queued] show ?thesis by (auto intro: jp_step.take)
  next
    case Held
    with at show ?thesis by (auto intro: jp_step.attempt)
  next
    case Handing
    with at show ?thesis by (auto intro: jp_step.handed)
  next
    case InRetry
    with at least_at_place [of s i InRetry] show ?thesis by (auto intro: jp_step.promote)
  next
    case Moving
    with at show ?thesis by (auto intro: jp_step.requeue)
  qed (use assms(3) in \<open>auto simp: settled_place_def\<close>)
qed

section \<open>A small closed run\<close>

definition closed_once :: results_of where
  "closed_once i t = (if t = 0 then CR_NOT_OPEN else CR_SUCCESS)"

definition skipped_state :: jp_state where
  "skipped_state = worker_branch True closed_once 0 (move 0 Held (jp_start 1))"

lemma skipped_state_reachable: "jp_reachable True closed_once 1 skipped_state"
proof -
  have "jp_step True closed_once (jp_start 1) (move 0 Held (jp_start 1))"
    by (rule jp_step.take) (simp_all add: at_place_def jp_start_def)
  then have "jp_reachable True closed_once 1 (move 0 Held (jp_start 1))"
    by (rule jp_reachable.worked [OF jp_reachable.started])
  moreover have "jp_step True closed_once (move 0 Held (jp_start 1)) skipped_state"
    unfolding skipped_state_def by (rule jp_step.attempt) (simp add: at_place_def jp_start_def move_def)
  ultimately show ?thesis by (rule jp_reachable.worked)
qed

section \<open>Properties\<close>

text \<open>
  C12: the retry accounting (F05). At every moment of every run, whatever the interleaving of workers,
  retry thread, controller and drains: if \<open>unfinished_tasks\<close> and \<open>_pending_retries\<close> are both zero,
  every chapter is settled (done, given up, or dropped by a drain). A chapter is attempted at most
  \<open>MAX_TRIES\<close> (5) times.
\<close>

theorem counters_zero_means_settled:
  assumes "jp_reachable sk res n s"
  shows "(unfinished_tasks s = 0 \<and> pending_retries s = 0 \<longrightarrow> (\<forall>i < n. settled_place (places s ! i)))
    \<and> (\<forall>i < n. tries s ! i \<le> MAX_TRIES)"
proof -
  note ok = reachable_ok [OF assms] and c = reachable_counts [OF assms]
  have "settled_place (places s ! i)" if z: "unfinished_tasks s = 0" "pending_retries s = 0" and i: "i < n" for i
  proof (rule ccontr)
    assume u: "\<not> settled_place (places s ! i)"
    have "at_place s i (places s ! i)" using ok i by (simp add: at_place_def jp_ok_def)
    from count_pos [OF this] c z u show False
      by (cases "places s ! i") (auto simp: jp_counts_def settled_place_def)
  qed
  with ok show ?thesis by (auto simp: jp_ok_def chapter_ok_def)
qed

theorem counters_zero_means_settled_witness:
  "settled_place (places (skipped_state\<lparr>owing := 0, unfinished_tasks := 0\<rparr>) ! 0)"
proof -
  have f: "owing skipped_state = 1" "unfinished_tasks skipped_state = 1" "pending_retries skipped_state = 0"
    by code_simp+
  have "jp_step True closed_once skipped_state (skipped_state\<lparr>owing := 0, unfinished_tasks := 0\<rparr>)"
    using jp_step.task_done [of skipped_state True closed_once] f by simp
  with skipped_state_reachable have "jp_reachable True closed_once 1 (skipped_state\<lparr>owing := 0, unfinished_tasks := 0\<rparr>)"
    by (rule jp_reachable.worked)
  from counters_zero_means_settled [OF this] f show ?thesis by simp
qed

text \<open>
  C11: the threaded run and the inline run agree. In every state a run can reach, a chapter that is
  done or given up has exactly the outcome of processing it inline with the same results: the order
  in which workers and the retry thread act does not matter.
\<close>

theorem threaded_equals_inline:
  assumes "jp_reachable sk res n s" and "i < n" and "settled_place (places s ! i)" and "places s ! i \<noteq> Dropped"
  shows "places s ! i = fst (inline_attempts sk (\<lambda>_. False) (res i) 0)"
  using reachable_ok [OF assms(1)] assms(2-4)
  by (auto simp: jp_ok_def chapter_ok_def settled_place_def fate_def)

theorem threaded_equals_inline_witness:
  "places skipped_state ! 0 = Done \<and> fst (inline_attempts True (\<lambda>_. False) (closed_once 0) 0) = Done"
proof -
  have p: "places skipped_state ! 0 = Done" by code_simp
  with threaded_equals_inline [OF skipped_state_reachable, of 0] show ?thesis by (simp add: settled_place_def)
qed



text \<open>
  C26: the controller can leave too early. \<open>_has_outstanding_work\<close> reads the two counters one after
  the other, \<open>_pending_retries\<close> first. There is a run of one chapter whose first attempt fails in
  which the controller reads no pending retry, the worker then hands the chapter to the retry queue
  and calls \<open>task_done()\<close>, and the controller reads no unfinished task: it leaves the loop while
  the chapter waits for its second attempt, neither done nor given up.
\<close>

theorem controller_may_exit_mid_retry:
  "\<exists>s. jp_reachable False (\<lambda>_ _. CR_ERROR) 1 s \<and> exited s \<and> places s ! 0 = InRetry \<and> tries s ! 0 = 1"
proof -
  let ?res = "\<lambda>_ _. CR_ERROR" and ?r = "jp_reachable False (\<lambda>_ _. CR_ERROR) 1"
  define s1 where "s1 = (jp_start 1)\<lparr>places := [Held]\<rparr>"
  define s2 where "s2 = s1\<lparr>controller := Some 0\<rparr>"
  define s3 where "s3 = s2\<lparr>places := [Handing], tries := [1], pending_retries := 1\<rparr>"
  define s4 where "s4 = s3\<lparr>places := [InRetry], owing := 1\<rparr>"
  define s5 where "s5 = s4\<lparr>owing := 0, unfinished_tasks := 0\<rparr>"
  define s6 where "s6 = s5\<lparr>controller := None, exited := True\<rparr>"
  note defs = s1_def s2_def s3_def s4_def s5_def s6_def jp_start_def at_place_def move_def
  have "jp_step False ?res (jp_start 1) s1"
    using jp_step.take [of "jp_start 1" 0 False ?res] by (simp add: defs)
  then have r1: "?r s1" by (rule jp_reachable.worked [OF jp_reachable.started])
  have "ctl_step s1 s2" using ctl_step.read_pending [of s1] by (simp add: defs)
  with r1 have r2: "?r s2" by (rule jp_reachable.checked)
  have "jp_step False ?res s2 s3"
    using jp_step.attempt [of s2 0 False ?res]
    by (simp add: defs worker_branch_def count_failure_def MAX_TRIES_def)
  with r2 have r3: "?r s3" by (rule jp_reachable.worked)
  have "jp_step False ?res s3 s4" using jp_step.handed [of s3 0 False ?res] by (simp add: defs)
  with r3 have r4: "?r s4" by (rule jp_reachable.worked)
  have "jp_step False ?res s4 s5" using jp_step.task_done [of s4 False ?res] by (simp add: defs)
  with r4 have r5: "?r s5" by (rule jp_reachable.worked)
  have "ctl_step s5 s6" using ctl_step.read_unfinished [of s5 0] by (simp add: defs)
  with r5 have "?r s6" by (rule jp_reachable.checked)
  moreover have "exited s6 \<and> places s6 ! 0 = InRetry \<and> tries s6 ! 0 = 1" by (simp add: defs)
  ultimately show ?thesis by blast
qed

end
