(* ===== verification/Db_Session.thy ===== *)
theory Db_Session
  imports Py_Prelude
begin

text \<open>
  Database sessions (\<open>db/session.py\<close>): the name check in front of every tenant database, the LRU
  map of connection pools with its reference counts, and the session context manager.

  A pool is an identity. Threads interleave between the critical sections of \<open>_tenant_lock\<close>: the
  step relation \<open>pool_step\<close> has one step per critical section and per pool call between them. What
  \<open>psycopg2\<close> answers (a pool is built or not, a connection is got or not) is the environment's
  choice.
\<close>

section \<open>Tenant names\<close>

definition name_char :: "char \<Rightarrow> bool" where
  "name_char c = (let n = (of_char c :: nat) in (97 \<le> n \<and> n \<le> 122) \<or> (48 \<le> n \<and> n \<le> 57))"

text \<open>\<open>re.compile(r"^P[a-z0-9]+$").match(s)\<close>: the dollar also matches before a final line feed\<close>

definition matches_name :: "string \<Rightarrow> string \<Rightarrow> bool" where
  "matches_name p s =
     (let body = drop (length p) s;
          body = (if body \<noteq> [] \<and> last body = char_of (10 :: nat) then butlast body else body)
      in starts_with s p \<and> body \<noteq> [] \<and> list_all name_char body)"

definition reserved_tenant_db_names :: "string list" where
  "reserved_tenant_db_names = [''tenant_template'']"

definition validate_tenant_db_name :: "string \<Rightarrow> bool" where
  "validate_tenant_db_name name =
     (matches_name ''tenant_'' name \<and> name \<notin> set reserved_tenant_db_names)"

lemma validate_accepts_final_newline:
  "validate_tenant_db_name (''tenant_template'' @ [char_of (10 :: nat)])"
  by code_simp

section \<open>The pool map\<close>

record pool_entry =
  pool_id :: nat
  in_use :: nat

type_synonym tenant_pools = "(string \<times> pool_entry) list"

definition max_tenant_pools :: nat where "max_tenant_pools = 100"

text \<open>\<open>_evict_if_idle_locked\<close>: the oldest idle entry leaves the map and its pool is closed\<close>

fun evict_if_idle :: "tenant_pools \<Rightarrow> (nat \<times> tenant_pools) option" where
  "evict_if_idle [] = None"
| "evict_if_idle ((name, e) # m) =
     (if in_use e = 0 then Some (pool_id e, m)
      else map_option (map_prod id ((#) (name, e))) (evict_if_idle m))"

lemma evict_if_idle_length: "evict_if_idle m = Some (p, m') \<Longrightarrow> length m = Suc (length m')"
  by (induction m arbitrary: m') (auto split: if_splits)

text \<open>The loop of \<open>_checkout_tenant\<close>: the pools it closed and the map it leaves\<close>

function make_room :: "tenant_pools \<Rightarrow> nat list \<times> tenant_pools" where
  "make_room m =
     (if length m \<ge> max_tenant_pools
      then (case evict_if_idle m of
              None \<Rightarrow> ([], m)
            | Some (p, m') \<Rightarrow> map_prod ((#) p) id (make_room m'))
      else ([], m))"
  by auto
termination
  by (relation "measure length") (auto dest: evict_if_idle_length)

declare make_room.simps [simp del]

definition move_to_end :: "string \<Rightarrow> tenant_pools \<Rightarrow> tenant_pools" where
  "move_to_end name m =
     (case map_of m name of None \<Rightarrow> m | Some e \<Rightarrow> dpop name m @ [(name, e)])"

record pools =
  tenants :: tenant_pools
  next_pool :: nat
  closed_pools :: "nat list"

definition no_pools :: pools where
  "no_pools = \<lparr>tenants = [], next_pool = 0, closed_pools = []\<rparr>"

text \<open>
  The locked part of \<open>_checkout_tenant\<close>. \<open>built\<close> tells whether a pool that is needed can be
  built; where it cannot, the evictions made for it stay.
\<close>

definition ref_entry :: "string \<Rightarrow> tenant_pools \<Rightarrow> tenant_pools" where
  "ref_entry name m = map (\<lambda>(n, e). if n = name then (n, e\<lparr>in_use := in_use e + 1\<rparr>) else (n, e)) m"

definition checkout_locked :: "bool \<Rightarrow> string \<Rightarrow> pools \<Rightarrow> nat option \<times> pools" where
  "checkout_locked built name st =
     (case map_of (tenants st) name of
        Some e \<Rightarrow>
          (Some (pool_id e), st\<lparr>tenants := ref_entry name (move_to_end name (tenants st))\<rparr>)
      | None \<Rightarrow>
          (let (gone, m) = make_room (tenants st);
               st = st\<lparr>tenants := m, closed_pools := gone @ closed_pools st\<rparr>
           in if built
              then (Some (next_pool st),
                    st\<lparr>tenants := ref_entry name (m @ [(name, \<lparr>pool_id = next_pool st, in_use = 0\<rparr>)]),
                       next_pool := next_pool st + 1\<rparr>)
              else (None, st)))"

text \<open>\<open>current is entry\<close>, and the count floored at zero\<close>

definition unref :: "string \<Rightarrow> nat \<Rightarrow> pools \<Rightarrow> pools" where
  "unref name p st =
     st\<lparr>tenants := map (\<lambda>(n, e). if n = name \<and> pool_id e = p then (n, e\<lparr>in_use := in_use e - 1\<rparr>)
                                else (n, e)) (tenants st)\<rparr>"

text \<open>The entry \<open>_release_tenant\<close> reads before it returns the connection\<close>

definition release_entry :: "string \<Rightarrow> pools \<Rightarrow> nat option" where
  "release_entry name st = map_option pool_id (map_of (tenants st) name)"

section \<open>Threads\<close>

datatype phase = Connecting | Using | Returning nat

text \<open>A thread that holds a reference: the tenant, the pool it was given, and how far it is\<close>

type_synonym holders = "(nat \<times> (string \<times> nat \<times> phase)) list"

inductive pool_step :: "pools \<times> holders \<Rightarrow> pools \<times> holders \<Rightarrow> bool" where
  checked_out:
    "map_of hs t = None \<Longrightarrow> validate_tenant_db_name name \<Longrightarrow> checkout_locked built name st = (Some p, st') \<Longrightarrow>
       pool_step (st, hs) (st', (t, name, p, Connecting) # hs)"
| not_built:
    "map_of hs t = None \<Longrightarrow> validate_tenant_db_name name \<Longrightarrow> checkout_locked built name st = (None, st') \<Longrightarrow>
       pool_step (st, hs) (st', hs)"
| got_connection:
    "map_of hs t = Some (name, p, Connecting) \<Longrightarrow>
       pool_step (st, hs) (st, AList.update t (name, p, Using) hs)"
| getconn_failed:
    "map_of hs t = Some (name, p, Connecting) \<Longrightarrow>
       pool_step (st, hs) (unref name p st, AList.delete t hs)"
| release_begins:
    "map_of hs t = Some (name, p, Using) \<Longrightarrow> release_entry name st = Some q \<Longrightarrow>
       pool_step (st, hs) (st, AList.update t (name, p, Returning q) hs)"
| release_unknown:
    "map_of hs t = Some (name, p, Using) \<Longrightarrow> release_entry name st = None \<Longrightarrow>
       pool_step (st, hs) (st, AList.delete t hs)"
| released:
    "map_of hs t = Some (name, p, Returning q) \<Longrightarrow>
       pool_step (st, hs) (unref name q st, AList.delete t hs)"

inductive pool_reachable :: "pools \<times> holders \<Rightarrow> bool" where
  start: "pool_reachable (no_pools, [])"
| step: "pool_reachable s \<Longrightarrow> pool_step s s' \<Longrightarrow> pool_reachable s'"

section \<open>Sessions\<close>

text \<open>
  What a \<open>with get_db_session()\<close> block comes to for the statements in it: committed, rolled back,
  or committed without the client learning of it (the commit's acknowledgement is lost and the
  block raises).
\<close>

datatype db_fate = Committed | Rolled_back | Unacknowledged

datatype session_act = Checkout | Commit | Rollback | Return bool

text \<open>
  The environment of one session: whether the two checkouts succeed, whether a connection comes
  back closed, whether the body raises (and whether its error is a connection error), and what the
  commit does.
\<close>

datatype body_end = Body_ok | Body_raises

record session_env =
  checkout_ok :: bool
  checkout_closed :: bool
  checkout2_ok :: bool
  body_end :: body_end
  commit_ok :: bool
  commit_applied :: bool
  connection_error :: bool
  closed_at_end :: bool

text \<open>The rest of the session once a connection is there; the fate is \<open>None\<close> where nothing ran\<close>

definition session_body :: "session_env \<Rightarrow> db_fate \<times> session_act list" where
  "session_body env =
     (let broken = (connection_error env \<or> closed_at_end env)
      in if body_end env = Body_ok
         then (if commit_ok env then (Committed, [Commit, Return False])
               else (if commit_applied env then Unacknowledged else Rolled_back,
                     [Commit, Rollback, Return broken]))
         else (Rolled_back, [Rollback, Return broken]))"

definition get_db_session :: "string option \<Rightarrow> session_env \<Rightarrow> db_fate option \<times> session_act list" where
  "get_db_session db_name env =
     (if (case db_name of None \<Rightarrow> False | Some n \<Rightarrow> n \<noteq> [] \<and> \<not> validate_tenant_db_name n) then (None, [])
      else if \<not> checkout_ok env then (None, [])
      else if \<not> checkout_closed env then map_prod Some ((#) Checkout) (session_body env)
      else if \<not> checkout2_ok env then (None, [Checkout, Return True])
      else map_prod Some ((@) [Checkout, Return True, Checkout]) (session_body env))"

text \<open>Every connection a session checks out is returned, and at most two are.\<close>

lemma session_balanced:
  "length (filter (\<lambda>a. a = Checkout) (snd (get_db_session db_name env)))
     = length (filter (\<lambda>a. \<exists>c. a = Return c) (snd (get_db_session db_name env)))
   \<and> length (filter (\<lambda>a. a = Checkout) (snd (get_db_session db_name env))) \<le> 2"
  by (auto simp: get_db_session_def session_body_def Let_def)

lemma session_committed:
  "fst (get_db_session db_name env) = Some Committed \<Longrightarrow>
     body_end env = Body_ok \<and> Commit \<in> set (snd (get_db_session db_name env))
     \<and> Rollback \<notin> set (snd (get_db_session db_name env))"
  by (auto simp: get_db_session_def session_body_def Let_def split: if_splits option.splits)

section \<open>No pool in use is ever closed\<close>

definition users :: "holders \<Rightarrow> string \<Rightarrow> nat \<Rightarrow> nat" where
  "users hs name p = length (filter (\<lambda>(_, n, q, _). n = name \<and> q = p) hs)"

definition pools_ok :: "pools \<Rightarrow> bool" where
  "pools_ok st \<longleftrightarrow>
     wf_dict (tenants st) \<and> distinct (map (\<lambda>x. pool_id (snd x)) (tenants st))
     \<and> (\<forall>x \<in> set (tenants st). pool_id (snd x) < next_pool st \<and> pool_id (snd x) \<notin> set (closed_pools st))
     \<and> (\<forall>p \<in> set (closed_pools st). p < next_pool st)"

definition holders_ok :: "pools \<times> holders \<Rightarrow> bool" where
  "holders_ok s \<longleftrightarrow>
     distinct (map fst (snd s))
     \<and> (\<forall>(name, e) \<in> set (tenants (fst s)). in_use e = users (snd s) name (pool_id e))
     \<and> (\<forall>(t, name, p, ph) \<in> set (snd s).
          (\<exists>e. (name, e) \<in> set (tenants (fst s)) \<and> pool_id e = p) \<and> (\<forall>q. ph = Returning q \<longrightarrow> q = p))"

lemma evict_if_idle_split:
  "evict_if_idle m = Some (p, m') \<Longrightarrow>
     \<exists>xs name e ys. m = xs @ (name, e) # ys \<and> m' = xs @ ys \<and> in_use e = 0 \<and> p = pool_id e"
proof (induction m arbitrary: m')
  case (Cons x m)
  obtain name e where x: "x = (name, e)" by fastforce
  show ?case
  proof (cases "in_use e = 0")
    case True
    then have "x # m = [] @ (name, e) # m \<and> m' = [] @ m \<and> in_use e = 0 \<and> p = pool_id e"
      using Cons.prems x by simp
    then show ?thesis by blast
  next
    case False
    then obtain m1 where "evict_if_idle m = Some (p, m1)" "m' = x # m1" using Cons.prems x by auto
    then obtain xs n e' ys where "m = xs @ (n, e') # ys \<and> m1 = xs @ ys \<and> in_use e' = 0 \<and> p = pool_id e'"
      using Cons.IH by blast
    then have "x # m = (x # xs) @ (n, e') # ys \<and> m' = (x # xs) @ ys \<and> in_use e' = 0 \<and> p = pool_id e'"
      using \<open>m' = x # m1\<close> by simp
    then show ?thesis by blast
  qed
qed simp

lemma evict_if_idle_None: "evict_if_idle m = None \<longleftrightarrow> (\<forall>x \<in> set m. in_use (snd x) \<noteq> 0)"
  by (induction m) (auto split: if_splits)

text \<open>Making room closes exactly the pools that leave the map, all of them idle\<close>

lemma make_room_idle:
  assumes "make_room m = (gone, m')" and "wf_dict m" and "distinct (map (\<lambda>x. pool_id (snd x)) m)"
  shows "wf_dict m' \<and> distinct (map (\<lambda>x. pool_id (snd x)) m') \<and> set m' \<subseteq> set m
     \<and> (\<forall>x \<in> set m. x \<in> set m' \<or> in_use (snd x) = 0)
     \<and> set gone = (\<lambda>x. pool_id (snd x)) ` (set m - set m')"
  using assms
proof (induction m arbitrary: gone m' rule: make_room.induct)
  case (1 m)
  show ?case
  proof (cases "length m \<ge> max_tenant_pools \<and> evict_if_idle m \<noteq> None")
    case False
    then have "make_room m = ([], m)" by (subst make_room.simps) (auto split: option.splits)
    then show ?thesis using "1.prems" by simp
  next
    case True
    then obtain p m1 where e: "evict_if_idle m = Some (p, m1)" by fastforce
    obtain gone1 where g: "make_room m1 = (gone1, m')" "gone = p # gone1"
      using "1.prems"(1) True e by (subst (asm) make_room.simps) (auto simp: map_prod_def split: prod.splits)
    obtain xs name en ys where m: "m = xs @ (name, en) # ys" "m1 = xs @ ys" "in_use en = 0" "p = pool_id en"
      using evict_if_idle_split [OF e] by blast
    have d: "wf_dict m1" "distinct (map (\<lambda>x. pool_id (snd x)) m1)" using "1.prems"(2,3) m by auto
    note IH = "1.IH" [OF _ e refl g(1) d]
    have ih: "wf_dict m' \<and> distinct (map (\<lambda>x. pool_id (snd x)) m') \<and> set m' \<subseteq> set m1
        \<and> (\<forall>x \<in> set m1. x \<in> set m' \<or> in_use (snd x) = 0) \<and> set gone1 = (\<lambda>x. pool_id (snd x)) ` (set m1 - set m')"
      using IH True by simp
    have "(name, en) \<notin> set m1" using "1.prems"(2) m by (auto simp: rev_image_eqI)
    then have "set m - set m' = insert (name, en) (set m1 - set m')" using ih m by auto
    then show ?thesis using ih m g(2) by auto
  qed
qed

lemma make_room_full:
  assumes "make_room m = (gone, m')"
  shows "length m' < max_tenant_pools \<or> (\<forall>x \<in> set m'. in_use (snd x) \<noteq> 0)"
  using assms
proof (induction m arbitrary: gone m' rule: make_room.induct)
  case (1 m)
  show ?case
  proof (cases "length m \<ge> max_tenant_pools \<and> evict_if_idle m \<noteq> None")
    case False
    then have "make_room m = ([], m)" by (subst make_room.simps) (auto split: option.splits)
    then show ?thesis using "1.prems" False evict_if_idle_None [of m] by auto
  next
    case True
    then obtain p m1 where e: "evict_if_idle m = Some (p, m1)" by fastforce
    then obtain gone1 where "make_room m1 = (gone1, m')"
      using "1.prems" True by (subst (asm) make_room.simps) (auto simp: map_prod_def split: prod.splits)
    then show ?thesis using "1.IH" [OF _ e refl] True by blast
  qed
qed

text \<open>Reference counts of the threads\<close>

lemma users_Cons:
  "users ((t, n, q, ph) # hs) name p = (if n = name \<and> q = p then 1 else 0) + users hs name p"
  by (simp add: users_def)

lemma users_positive: "(t, name, p, ph) \<in> set hs \<Longrightarrow> 0 < users hs name p"
  by (force simp: users_def filter_empty_conv)

lemma delete_fresh: "t \<notin> fst ` set hs \<Longrightarrow> AList.delete t hs = hs"
  by (induction hs) auto

lemma users_delete:
  assumes "distinct (map fst hs)" and "map_of hs t = Some (n, q, ph)"
  shows "users hs name p = users (AList.delete t hs) name p + (if n = name \<and> q = p then 1 else 0)"
  using assms
proof (induction hs)
  case (Cons h hs)
  obtain t' n' q' ph' where h: "h = (t', n', q', ph')" by (cases h)
  show ?case
  proof (cases "t' = t")
    case True
    then have "AList.delete t hs = hs" using Cons.prems(1) h by (intro delete_fresh) auto
    then show ?thesis using Cons.prems(2) h True by (simp add: users_Cons)
  next
    case False
    then show ?thesis using Cons h by (simp add: users_Cons)
  qed
qed simp

lemma users_update:
  assumes "distinct (map fst hs)" and "map_of hs t = Some (n, q, ph)"
  shows "users (AList.update t (n, q, ph') hs) name p = users hs name p"
  using assms
proof (induction hs)
  case (Cons h hs)
  obtain t' n' q' ph1 where h: "h = (t', n', q', ph1)" by (cases h)
  then show ?case using Cons by (cases "t' = t") (simp_all add: users_Cons)
qed simp

lemma set_update_holders:
  assumes "distinct (map fst hs)"
  shows "set (AList.update t v hs) \<subseteq> insert (t, v) (set hs)"
  by (induction hs) auto

lemma set_delete_holders: "set (AList.delete t hs) \<subseteq> set hs"
  by (induction hs) auto

text \<open>Counting up or down changes neither the names nor the pools of the map\<close>

definition recount :: "(string \<Rightarrow> pool_entry \<Rightarrow> nat) \<Rightarrow> tenant_pools \<Rightarrow> tenant_pools" where
  "recount f m = map (\<lambda>(n, e). (n, e\<lparr>in_use := f n e\<rparr>)) m"

lemma recount_keys [simp]:
  "map fst (recount f m) = map fst m" "map (\<lambda>x. pool_id (snd x)) (recount f m) = map (\<lambda>x. pool_id (snd x)) m"
  by (simp_all add: recount_def comp_def case_prod_beta)

lemma ref_entry_recount: "ref_entry name m = recount (\<lambda>n e. if n = name then in_use e + 1 else in_use e) m"
  by (simp add: ref_entry_def recount_def case_prod_beta)

lemma unref_recount:
  "unref name p st = st\<lparr>tenants := recount (\<lambda>n e. if n = name \<and> pool_id e = p then in_use e - 1 else in_use e) (tenants st)\<rparr>"
proof -
  have "(\<lambda>(n :: string, e :: pool_entry). if n = name \<and> pool_id e = p then (n, e\<lparr>in_use := in_use e - 1\<rparr>) else (n, e)) =
      (\<lambda>(n, e). (n, e\<lparr>in_use := if n = name \<and> pool_id e = p then in_use e - 1 else in_use e\<rparr>))"
    by (auto simp: fun_eq_iff)
  then show ?thesis by (simp only: unref_def recount_def)
qed

lemma set_recount: "(n, e) \<in> set (recount f m) \<longleftrightarrow> (\<exists>e0. (n, e0) \<in> set m \<and> e = e0\<lparr>in_use := f n e0\<rparr>)"
  by (auto simp: recount_def)

lemma recount_in: "(n, e0) \<in> set m \<Longrightarrow> \<exists>e. (n, e) \<in> set (recount f m) \<and> pool_id e = pool_id e0"
  by (rule exI [of _ "e0\<lparr>in_use := f n e0\<rparr>"]) (auto simp: set_recount)

lemma pools_ok_recount: "pools_ok st \<Longrightarrow> pools_ok (st\<lparr>tenants := recount f (tenants st)\<rparr>)"
  by (auto simp: pools_ok_def recount_def case_prod_beta comp_def)

lemma entry_unique:
  assumes "pools_ok st" and "(name, e) \<in> set (tenants st)" and "(name, e') \<in> set (tenants st)"
  shows "e = e'"
  using assms by (metis eq_key_imp_eq_value pools_ok_def)

lemma move_to_end_set: "wf_dict m \<Longrightarrow> map_of m name = Some e \<Longrightarrow>
    set (move_to_end name m) = set m \<and> wf_dict (move_to_end name m)
    \<and> mset (move_to_end name m) = mset m"
proof -
  assume wf: "wf_dict m" and e: "map_of m name = Some e"
  have "mset (dpop name m @ [(name, e)]) = mset m"
    using wf e
  proof (induction m)
    case (Cons x m)
    show ?case
    proof (cases "fst x = name")
      case True
      then have "name \<notin> fst ` set m" using Cons.prems(1) by auto
      then have "dpop name m = m" by (induction m) auto
      then show ?thesis using True Cons.prems(2) by (cases x) auto
    next
      case False
      then show ?thesis using Cons by (cases x) auto
    qed
  qed simp
  then have ms: "mset (move_to_end name m) = mset m" using e by (simp add: move_to_end_def)
  then have "set (move_to_end name m) = set m" by (metis set_mset_mset)
  moreover have "wf_dict (move_to_end name m)"
    using ms wf by (metis mset_eq_imp_distinct_iff mset_map)
  ultimately show ?thesis using ms by blast
qed

lemma checkout_locked_ok:
  assumes "pools_ok st" and "checkout_locked built name st = (r, st')"
  shows "pools_ok st'
    \<and> (r = None \<longrightarrow> set (tenants st') \<subseteq> set (tenants st)
         \<and> (\<forall>x \<in> set (tenants st). x \<in> set (tenants st') \<or> in_use (snd x) = 0))
    \<and> (\<forall>p. r = Some p \<longrightarrow>
         (\<exists>m e. (name, e) \<in> set m \<and> pool_id e = p
            \<and> (in_use e = 0 \<or> (name, e) \<in> set (tenants st))
            \<and> tenants st' = ref_entry name m \<and> set m \<subseteq> insert (name, e) (set (tenants st))
            \<and> (\<forall>x \<in> set (tenants st). x \<in> set m \<or> in_use (snd x) = 0)
            \<and> ((name, e) \<notin> set (tenants st) \<longrightarrow> p = next_pool st \<and> name \<notin> fst ` set (tenants st))))"
proof (cases "map_of (tenants st) name")
  case (Some e)
  note m = move_to_end_set [OF _ Some]
  have wf: "wf_dict (tenants st)" using assms(1) by (simp add: pools_ok_def)
  have st': "r = Some (pool_id e)" "st' = st\<lparr>tenants := ref_entry name (move_to_end name (tenants st))\<rparr>"
    using assms(2) Some by (auto simp: checkout_locked_def)
  have "pools_ok (st\<lparr>tenants := move_to_end name (tenants st)\<rparr>)"
    using assms(1) m [OF wf] mset_eq_imp_distinct_iff [of "map (\<lambda>x. pool_id (snd x)) (move_to_end name (tenants st))"
        "map (\<lambda>x. pool_id (snd x)) (tenants st)"]
    by (simp add: pools_ok_def)
  from pools_ok_recount [OF this] have "pools_ok st'" by (simp add: st' ref_entry_recount)
  then show ?thesis
    using st' m [OF wf] map_of_SomeD [OF Some]
    by (auto intro!: exI [of _ "move_to_end name (tenants st)"] exI [of _ e])
next
  case None
  obtain gone m where g: "make_room (tenants st) = (gone, m)" by fastforce
  have ok: "wf_dict (tenants st)" "distinct (map (\<lambda>x. pool_id (snd x)) (tenants st))"
    using assms(1) by (simp_all add: pools_ok_def)
  note room = make_room_idle [OF g ok]
  have fresh: "name \<notin> fst ` set (tenants st)" using None by (simp add: map_of_eq_None_iff)
  have p1: "pools_ok (st\<lparr>tenants := m, closed_pools := gone @ closed_pools st\<rparr>)"
  proof -
    have "pool_id (snd x) \<notin> set gone" if "x \<in> set m" for x
      using that room ok(2) by (auto simp: distinct_map dest: inj_onD)
    moreover have "q < next_pool st" if "q \<in> set gone" for q
      using that room assms(1) by (auto simp: pools_ok_def)
    ultimately show ?thesis using room assms(1) by (auto simp: pools_ok_def)
  qed
  show ?thesis
  proof (cases built)
    case False
    then show ?thesis using assms(2) None g room p1 by (auto simp: checkout_locked_def Let_def)
  next
    case True
    let ?e = "\<lparr>pool_id = next_pool st, in_use = 0\<rparr>"
    have st': "r = Some (next_pool st)"
        "st' = st\<lparr>tenants := ref_entry name (m @ [(name, ?e)]), closed_pools := gone @ closed_pools st,
           next_pool := next_pool st + 1\<rparr>"
      using assms(2) None g True by (auto simp: checkout_locked_def Let_def)
    have "name \<notin> fst ` set m" using fresh room by blast
    then have "pools_ok (st\<lparr>tenants := m @ [(name, ?e)], closed_pools := gone @ closed_pools st,
        next_pool := next_pool st + 1\<rparr>)"
      using p1 assms(1) by (auto simp: pools_ok_def less_Suc_eq)
    from pools_ok_recount [OF this] have "pools_ok st'"
      by (cases st) (simp add: st' ref_entry_recount)
    moreover have "set (m @ [(name, ?e)]) \<subseteq> insert (name, ?e) (set (tenants st))"
      "\<forall>x \<in> set (tenants st). x \<in> set (m @ [(name, ?e)]) \<or> in_use (snd x) = 0"
      using room by auto
    ultimately show ?thesis using st' fresh
      by (auto intro!: exI [of _ "m @ [(name, ?e)]"] exI [of _ ?e])
  qed
qed

lemma holders_okI:
  assumes "distinct (map fst hs)"
    and "\<And>name e. (name, e) \<in> set (tenants st) \<Longrightarrow> in_use e = users hs name (pool_id e)"
    and "\<And>t name p ph. (t, name, p, ph) \<in> set hs \<Longrightarrow>
           (\<exists>e. (name, e) \<in> set (tenants st) \<and> pool_id e = p) \<and> (\<forall>q. ph = Returning q \<longrightarrow> q = p)"
  shows "holders_ok (st, hs)"
  using assms unfolding holders_ok_def by fastforce

lemma holders_okD:
  assumes "holders_ok (st, hs)"
  shows "distinct (map fst hs)"
    and "(name, e) \<in> set (tenants st) \<Longrightarrow> in_use e = users hs name (pool_id e)"
    and "(t, name, p, ph) \<in> set hs \<Longrightarrow>
           (\<exists>e. (name, e) \<in> set (tenants st) \<and> pool_id e = p) \<and> (\<forall>q. ph = Returning q \<longrightarrow> q = p)"
  using assms unfolding holders_ok_def by fastforce+

text \<open>A thread lets go of its reference\<close>

lemma holders_unref:
  assumes ok: "holders_ok (st, hs)" and p: "pools_ok st" and t: "map_of hs t = Some (name, q, ph)"
  shows "holders_ok (unref name q st, AList.delete t hs)"
proof (rule holders_okI)
  note h = holders_okD [OF ok]
  show "distinct (map fst (AList.delete t hs))" using h(1) by (rule distinct_delete)
  note down = users_delete [OF h(1) t]
  show "in_use e = users (AList.delete t hs) n (pool_id e)"
    if mem: "(n, e) \<in> set (tenants (unref name q st))" for n e
  proof -
    obtain e0 where e0: "(n, e0) \<in> set (tenants st)"
        "e = e0\<lparr>in_use := if n = name \<and> pool_id e0 = q then in_use e0 - 1 else in_use e0\<rparr>"
      using mem by (auto simp: unref_recount set_recount)
    then show ?thesis using h(2) [OF e0(1)] down [of n "pool_id e0"] by (auto split: if_splits)
  qed
  show "(\<exists>e. (n, e) \<in> set (tenants (unref name q st)) \<and> pool_id e = p') \<and> (\<forall>r. ph' = Returning r \<longrightarrow> r = p')"
    if "(t', n, p', ph') \<in> set (AList.delete t hs)" for t' n p' ph'
  proof -
    have "(t', n, p', ph') \<in> set hs" using that set_delete_holders by fast
    from h(3) [OF this] show ?thesis by (auto simp: unref_recount dest: recount_in)
  qed
qed

text \<open>A thread gets a reference\<close>

lemma holders_checkout:
  assumes ok: "holders_ok (st, hs)" and p: "pools_ok st" and t: "map_of hs t = None"
    and co: "checkout_locked built name st = (Some q, st')"
  shows "holders_ok (st', (t, name, q, Connecting) # hs)"
proof (rule holders_okI)
  note h = holders_okD [OF ok]
  obtain m e where m: "(name, e) \<in> set m" "pool_id e = q"
      "in_use e = 0 \<or> (name, e) \<in> set (tenants st)" "tenants st' = ref_entry name m"
      "set m \<subseteq> insert (name, e) (set (tenants st))"
      "\<forall>x \<in> set (tenants st). x \<in> set m \<or> in_use (snd x) = 0"
      "(name, e) \<notin> set (tenants st) \<longrightarrow> q = next_pool st \<and> name \<notin> fst ` set (tenants st)"
    using checkout_locked_ok [OF p co] by blast
  have p': "pools_ok st'" using checkout_locked_ok [OF p co] by blast
  show "distinct (map fst ((t, name, q, Connecting) # hs))"
    using h(1) t by (simp add: map_of_eq_None_iff)
  have new: "users hs name (pool_id e) = in_use e"
  proof (cases "(name, e) \<in> set (tenants st)")
    case True
    then show ?thesis using h(2) by simp
  next
    case False
    then have fresh: "name \<notin> fst ` set (tenants st)" using m(7) by blast
    have "name' \<noteq> name" if "(t', name', q', ph') \<in> set hs" for t' name' q' ph'
      using h(3) [OF that] fresh by force
    then have "users hs name q = 0" by (auto simp: users_def filter_empty_conv)
    then show ?thesis using False m(2,3) by simp
  qed
  show "in_use e' = users ((t, name, q, Connecting) # hs) n (pool_id e')"
    if mem: "(n, e') \<in> set (tenants st')" for n e'
  proof -
    obtain e0 where e0: "(n, e0) \<in> set m" "e' = e0\<lparr>in_use := if n = name then in_use e0 + 1 else in_use e0\<rparr>"
      using mem m(4) by (auto simp: ref_entry_recount set_recount)
    have "n = name \<Longrightarrow> e0 = e"
    proof -
      assume "n = name"
      then have "(name, e0\<lparr>in_use := in_use e0 + 1\<rparr>) \<in> set (tenants st')"
          "(name, e\<lparr>in_use := in_use e + 1\<rparr>) \<in> set (tenants st')"
        using e0(1) m(1,4) by (auto simp: ref_entry_recount set_recount)
      then have eq: "e0\<lparr>in_use := in_use e0 + 1\<rparr> = e\<lparr>in_use := in_use e + 1\<rparr>" by (rule entry_unique [OF p'])
      then show "e0 = e" by (cases e0; cases e) simp
    qed
    then show ?thesis
      using e0 m(2,5) new h(2) [of n e0] by (cases "n = name") (auto simp: users_Cons)
  qed
  show "(\<exists>e. (n, e) \<in> set (tenants st') \<and> pool_id e = p') \<and> (\<forall>r. ph' = Returning r \<longrightarrow> r = p')"
    if "(t', n, p', ph') \<in> set ((t, name, q, Connecting) # hs)" for t' n p' ph'
  proof (cases "(t', n, p', ph') \<in> set hs")
    case True
    obtain e0 where e0: "(n, e0) \<in> set (tenants st)" "pool_id e0 = p'" using h(3) [OF True] by blast
    have "in_use e0 \<noteq> 0" using users_positive [OF True] h(2) [OF e0(1)] e0(2) by simp
    then have "(n, e0) \<in> set m" using m(6) e0(1) by auto
    then show ?thesis using h(3) [OF True] e0(2) m(4) recount_in [of n e0 m]
      by (auto simp: ref_entry_recount)
  next
    case False
    then show ?thesis using that m(2,4) recount_in [OF m(1)] by (auto simp: ref_entry_recount)
  qed
qed

lemma holders_phase:
  assumes ok: "holders_ok (st, hs)" and t: "map_of hs t = Some (name, q, ph)"
    and ph': "\<forall>r. ph' = Returning r \<longrightarrow> r = q"
  shows "holders_ok (st, AList.update t (name, q, ph') hs)"
proof (rule holders_okI)
  note h = holders_okD [OF ok]
  show "distinct (map fst (AList.update t (name, q, ph') hs))" using h(1) by (rule distinct_update)
  show "in_use e = users (AList.update t (name, q, ph') hs) n (pool_id e)" if "(n, e) \<in> set (tenants st)" for n e
    using h(2) [OF that] users_update [OF h(1) t] by simp
  show "(\<exists>e. (n, e) \<in> set (tenants st) \<and> pool_id e = p') \<and> (\<forall>r. ph1 = Returning r \<longrightarrow> r = p')"
    if "(t', n, p', ph1) \<in> set (AList.update t (name, q, ph') hs)" for t' n p' ph1
    using that set_update_holders [OF h(1), of t "(name, q, ph')"] h(3) h(3) [OF map_of_SomeD [OF t]] ph'
    by blast
qed

lemma holders_not_built:
  assumes ok: "holders_ok (st, hs)" and p: "pools_ok st" and co: "checkout_locked built name st = (None, st')"
  shows "holders_ok (st', hs)"
proof (rule holders_okI)
  note h = holders_okD [OF ok]
  have sub: "set (tenants st') \<subseteq> set (tenants st)"
      "\<forall>x \<in> set (tenants st). x \<in> set (tenants st') \<or> in_use (snd x) = 0"
    using checkout_locked_ok [OF p co] by auto
  show "distinct (map fst hs)" by (rule h(1))
  show "in_use e = users hs n (pool_id e)" if "(n, e) \<in> set (tenants st')" for n e
    using that sub(1) h(2) by blast
  show "(\<exists>e. (n, e) \<in> set (tenants st') \<and> pool_id e = p') \<and> (\<forall>r. ph = Returning r \<longrightarrow> r = p')"
    if mem: "(t, n, p', ph) \<in> set hs" for t n p' ph
  proof -
    obtain e where e: "(n, e) \<in> set (tenants st)" "pool_id e = p'" using h(3) [OF mem] by blast
    have "in_use e \<noteq> 0" using users_positive [OF mem] h(2) [OF e(1)] e(2) by simp
    then show ?thesis using sub(2) e h(3) [OF mem] by auto
  qed
qed

lemma pools_ok_unref: "pools_ok st \<Longrightarrow> pools_ok (unref name p st)"
  by (simp add: unref_recount pools_ok_recount)

lemma holder_release_entry:
  assumes "holders_ok (st, hs)" and "pools_ok st" and "map_of hs t = Some (name, p, ph)"
  shows "release_entry name st = Some p"
proof -
  obtain e where "(name, e) \<in> set (tenants st)" "pool_id e = p"
    using holders_okD(3) [OF assms(1) map_of_SomeD [OF assms(3)]] by blast
  then show ?thesis using assms(2) by (simp add: release_entry_def pools_ok_def)
qed

lemma pool_reachable_ok: "pool_reachable s \<Longrightarrow> pools_ok (fst s) \<and> holders_ok s"
proof (induction rule: pool_reachable.induct)
  case start
  show ?case by (simp add: pools_ok_def no_pools_def holders_ok_def)
next
  case (step s s')
  from step(2,3) show ?case
  proof cases
    case (checked_out hs t name built st p st')
    then show ?thesis using step holders_checkout checkout_locked_ok by fastforce
  next
    case (not_built hs t name built st st')
    then show ?thesis using step holders_not_built checkout_locked_ok by fastforce
  next
    case (got_connection hs t name p st)
    then show ?thesis using step holders_phase [of st hs t name p Connecting Using] by simp
  next
    case (getconn_failed hs t name p st)
    then show ?thesis using step holders_unref pools_ok_unref by simp
  next
    case (release_begins hs t name p st q)
    then show ?thesis
      using step holders_phase [of st hs t name p Using "Returning q"] holder_release_entry [of st hs t name p Using]
      by simp
  next
    case (release_unknown hs t name p st)
    then show ?thesis using step holder_release_entry [of st hs t name p Using] by simp
  next
    case (released hs t name p q st)
    then show ?thesis
      using step holders_unref [of st hs t name p "Returning q"] pools_ok_unref
        holders_okD(3) [of st hs, OF _ map_of_SomeD [of hs t "(name, p, Returning q)"]]
      by auto
  qed
qed

text \<open>
  C9: A tenant's connection pool is never closed under a thread that uses it. In every state the
  threads can reach, whatever connects and fails in between: each thread that holds a reference
  (while it connects, works or returns its connection) finds its own pool under its tenant's name,
  open; the reference counts are exactly the numbers of those threads; and no pool is in the map
  twice. So a release always reaches the pool the connection came from.
\<close>

theorem tenant_pool_never_closed_in_use:
  assumes "pool_reachable (st, hs)"
  shows "(map_of hs t = Some (name, p, ph) \<longrightarrow>
            release_entry name st = Some p \<and> p \<notin> set (closed_pools st)
            \<and> (\<forall>q. ph = Returning q \<longrightarrow> q = p))
       \<and> (\<forall>(n, e) \<in> set (tenants st). in_use e = users hs n (pool_id e))
       \<and> distinct (map (\<lambda>x. pool_id (snd x)) (tenants st))"
proof -
  note ok = pool_reachable_ok [OF assms, simplified]
  have "release_entry name st = Some p \<and> p \<notin> set (closed_pools st) \<and> (\<forall>q. ph = Returning q \<longrightarrow> q = p)"
    if t: "map_of hs t = Some (name, p, ph)"
  proof -
    note h = holders_okD(3) [OF conjunct2 [OF ok] map_of_SomeD [OF t]]
    then obtain e where "(name, e) \<in> set (tenants st)" "pool_id e = p" by blast
    then have "p \<notin> set (closed_pools st)" using ok by (auto simp: pools_ok_def)
    then show ?thesis using h holder_release_entry [OF conjunct2 [OF ok] conjunct1 [OF ok] t] by blast
  qed
  moreover have "\<forall>(n, e) \<in> set (tenants st). in_use e = users hs n (pool_id e)"
    using holders_okD(2) [OF conjunct2 [OF ok]] by blast
  ultimately show ?thesis using ok by (simp add: pools_ok_def)
qed

definition one_pool :: pools where
  "one_pool = snd (checkout_locked True ''tenant_a'' no_pools)"

lemma tenant_pool_never_closed_in_use_witness:
  "release_entry ''tenant_a'' one_pool = Some 0 \<and> 0 \<notin> set (closed_pools one_pool)"
proof -
  have "checkout_locked True ''tenant_a'' no_pools = (Some 0, one_pool)"
    unfolding one_pool_def prod_eq_iff by code_simp
  moreover have "validate_tenant_db_name ''tenant_a''" by code_simp
  ultimately have "pool_step (no_pools, []) (one_pool, [(7, ''tenant_a'', 0, Connecting)])"
    by (intro pool_step.checked_out) simp_all
  with pool_reachable.start have "pool_reachable (one_pool, [(7, ''tenant_a'', 0, Connecting)])"
    by (rule pool_reachable.step)
  from tenant_pool_never_closed_in_use [OF this, of 7 "''tenant_a''" 0 Connecting] show ?thesis by simp
qed

end
