(* ===== verification/Storage_Postgres.thy ===== *)
theory Storage_Postgres
  imports Storage_Sqlite Db_Session
begin

text \<open>
  \<open>backend/app/storage/postgres.py\<close> and \<open>factory.py\<close>: the adapter of the server build. A stored
  time is an instant (\<open>TIMESTAMPTZ\<close>, microseconds in UTC), the columns have the widths of the
  \<open>CREATE TABLE\<close> statements, and an operation's statements run in one session, whose outcome is a
  \<^typ>\<open>db_fate\<close>. Text with a NUL is rejected before it reaches the server.

  The server itself is code this repository only calls. A \<open>JSONB\<close> column keeps a dictionary's keys
  in an order of its own; the model keeps the order they were written in, which no look-up can tell
  apart. Task ids are compared by code point, as in the C collation.
\<close>

section \<open>Columns\<close>

definition nul_free :: "string \<Rightarrow> bool" where
  "nul_free s = (char_of (0 :: nat) \<notin> set s)"

text \<open>A \<open>VARCHAR(n)\<close> column rejects a longer text, unless only spaces would be cut off\<close>

definition varchar :: "nat \<Rightarrow> string \<Rightarrow> string option" where
  "varchar n s =
     (if \<not> nul_free s then None
      else if length s \<le> n then Some s
      else if list_all (\<lambda>c. c = CHR '' '') (drop n s) then Some (take n s)
      else None)"

text \<open>What a \<open>JSONB\<close> column takes: no NUL in a string or key, and no number that is not finite\<close>

fun jsonb_ok :: "pyval \<Rightarrow> bool" where
  "jsonb_ok (PFloat t) = (t \<notin> {''nan'', ''inf'', ''-inf''})"
| "jsonb_ok (PStr s) = nul_free s"
| "jsonb_ok (PList xs) = list_all jsonb_ok xs"
| "jsonb_ok (PDict d) = list_all (\<lambda>(k, b). nul_free k \<and> b) (map (map_prod id jsonb_ok) d)"
| "jsonb_ok _ = True"

text \<open>The instant an aware \<open>datetime\<close> is stored as\<close>

definition instant_of :: "pydt \<Rightarrow> int" where
  "instant_of d = fst d - (case snd d of None \<Rightarrow> 0 | Some off \<Rightarrow> off)"

section \<open>State\<close>

record pg_store =
  pg_initialized :: bool
  pg_tasks :: "int task_row list"
  pg_history :: "int history_row list"
  pg_next_id :: int

definition new_pg_store :: pg_store where
  "new_pg_store = \<lparr>pg_initialized = False, pg_tasks = [], pg_history = [], pg_next_id = 1\<rparr>"

definition pg_ensure_tables :: "db_fate \<Rightarrow> pg_store \<Rightarrow> bool \<times> pg_store" where
  "pg_ensure_tables io s =
     (if pg_initialized s then (True, s)
      else if io = Committed then (True, s\<lparr>pg_initialized := True\<rparr>)
      else (False, s))"

section \<open>Tasks\<close>

definition pg_task_row :: "dt_text \<Rightarrow> int \<Rightarrow> string \<Rightarrow> pydict \<Rightarrow> int task_row option" where
  "pg_task_row dt now kind d =
     (case (varchar 64 (task_id_of d), varchar 64 (user_id_of d), varchar 64 kind, varchar 32 (status_of d)) of
        (Some task_id, Some user_id, Some kind, Some status) \<Rightarrow>
          if nul_free (message_of d) \<and> jsonb_ok (PDict (normalize_json (PDict d)))
          then Some \<lparr>row_task_id = task_id, row_user_id = user_id, row_task_kind = kind,
                     row_status = status, row_message = message_of d,
                     row_started_at = map_option instant_of (task_started_at dt d),
                     row_updated_at = map_option instant_of (task_updated_at dt now d),
                     row_payload = normalize_json (PDict d)\<rparr>
          else None
      | _ \<Rightarrow> None)"

fun pg_upsert_task ::
  "dt_text \<Rightarrow> db_fate \<Rightarrow> db_fate \<Rightarrow> int \<Rightarrow> string \<Rightarrow> pyval \<Rightarrow> pg_store \<Rightarrow> bool \<times> pg_store" where
  "pg_upsert_task dt io_init io now kind (PDict d) s =
     (if kind = [] \<or> task_id_of d = [] \<or> user_id_of d = [] then (False, s)
      else (case pg_ensure_tables io_init s of
              (False, s1) \<Rightarrow> (False, s1)
            | (True, s1) \<Rightarrow>
                (case pg_task_row dt now kind d of
                   None \<Rightarrow> (False, s1)
                 | Some r \<Rightarrow>
                     if io = Rolled_back then (False, s1)
                     else (io = Committed, s1\<lparr>pg_tasks := insert_on_conflict r (pg_tasks s1)\<rparr>))))"
| "pg_upsert_task dt io_init io now kind v s = (False, s)"

text \<open>
  Fetching a row whose instant is outside the years 1 to 9999 raises inside the \<open>try\<close>; the shaping
  after it cannot fail.
\<close>

definition pg_fetchable :: "int option \<Rightarrow> bool" where
  "pg_fetchable t = (case t of None \<Rightarrow> True | Some u \<Rightarrow> in_range u \<noteq> None)"

definition pg_row_ok :: "int task_row \<Rightarrow> bool" where
  "pg_row_ok r = (pg_fetchable (row_started_at r) \<and> pg_fetchable (row_updated_at r))"

definition pg_iso :: "dt_text \<Rightarrow> int option \<Rightarrow> string" where
  "pg_iso dt t = (case t of None \<Rightarrow> [] | Some u \<Rightarrow> isoformat dt (u, Some 0))"

definition pg_row_to_task :: "dt_text \<Rightarrow> int task_row \<Rightarrow> pydict" where
  "pg_row_to_task dt r = shape_item r (pg_iso dt (row_started_at r)) (pg_iso dt (row_updated_at r))"

text \<open>The parameters of a query are text without NUL\<close>

definition query_ok :: "string \<Rightarrow> string option \<Rightarrow> bool" where
  "query_ok kind user_id = (nul_free kind \<and> (case user_id of None \<Rightarrow> True | Some u \<Rightarrow> nul_free u))"

definition pg_get_task ::
  "dt_text \<Rightarrow> db_fate \<Rightarrow> db_fate \<Rightarrow> string \<Rightarrow> string \<Rightarrow> string option \<Rightarrow> pg_store
     \<Rightarrow> (storage_error + pydict option) \<times> pg_store" where
  "pg_get_task dt io_init io kind task_id user_id s =
     (if kind = [] \<or> task_id = [] then (Inr None, s)
      else (case pg_ensure_tables io_init s of
              (False, s1) \<Rightarrow> (Inr None, s1)
            | (True, s1) \<Rightarrow>
                (if io \<noteq> Committed \<or> \<not> query_ok kind user_id \<or> \<not> nul_free task_id then (Inr None, s1)
                 else (case select_task kind task_id user_id (pg_tasks s1) of
                         None \<Rightarrow> (Inr None, s1)
                       | Some r \<Rightarrow>
                           (Inr (if pg_row_ok r then Some (pg_row_to_task dt r) else None), s1)))))"

definition pg_list_tasks ::
  "dt_text \<Rightarrow> db_fate \<Rightarrow> db_fate \<Rightarrow> string \<Rightarrow> string option \<Rightarrow> int \<Rightarrow> pg_store
     \<Rightarrow> (storage_error + pydict list) \<times> pg_store" where
  "pg_list_tasks dt io_init io kind user_id limit s =
     (if kind = [] then (Inr [], s)
      else (case pg_ensure_tables io_init s of
              (False, s1) \<Rightarrow> (Inr [], s1)
            | (True, s1) \<Rightarrow>
                (let rows = select_tasks kind user_id (safe_limit 50 2000 limit) (pg_tasks s1)
                 in if io \<noteq> Committed \<or> \<not> query_ok kind user_id \<or> \<not> list_all pg_row_ok rows
                    then (Inr [], s1)
                    else (Inr (map (pg_row_to_task dt) rows), s1))))"

section \<open>History\<close>

definition pg_history_row ::
  "dt_text \<Rightarrow> int \<Rightarrow> string \<Rightarrow> string \<Rightarrow> pydict \<Rightarrow> int \<Rightarrow> pydict \<Rightarrow> int history_row option" where
  "pg_history_row dt now kind user record rowid payload =
     (case (varchar 64 kind, varchar 64 user, varchar 32 (str_or_empty (dget payload ''status''))) of
        (Some kind, Some user, Some status) \<Rightarrow>
          if nul_free (str_or_empty (dget payload ''message'')) \<and> jsonb_ok (PDict payload)
          then Some \<lparr>hist_id = rowid, hist_kind = kind, hist_user_id = user, hist_status = status,
                     hist_message = str_or_empty (dget payload ''message''),
                     hist_event_time = instant_of (history_event_time dt now record),
                     hist_payload = payload\<rparr>
          else None
      | _ \<Rightarrow> None)"

text \<open>
  The serial number of a row that is rolled back may be skipped; only the order of the numbers is
  used, so the model does not skip any.
\<close>

fun pg_append_history ::
  "dt_text \<Rightarrow> db_fate \<Rightarrow> db_fate \<Rightarrow> int \<Rightarrow> string \<Rightarrow> string \<Rightarrow> pyval \<Rightarrow> int \<Rightarrow> pg_store
     \<Rightarrow> (storage_error + unit) \<times> pg_store" where
  "pg_append_history dt io_init io now kind user (PDict d) max_records s =
     (if kind = [] \<or> user = [] then (Inr (), s)
      else (case stamp_history dt now (normalize_json (PDict d)) of
              Inl e \<Rightarrow> (Inl e, s)
            | Inr payload \<Rightarrow>
                (case pg_ensure_tables io_init s of
                   (False, s1) \<Rightarrow> (Inr (), s1)
                 | (True, s1) \<Rightarrow>
                     (case pg_history_row dt now kind user (normalize_json (PDict d)) (pg_next_id s1) payload of
                        None \<Rightarrow> (Inr (), s1)
                      | Some row \<Rightarrow>
                          if io = Rolled_back then (Inr (), s1)
                          else (Inr (), s1\<lparr>pg_next_id := pg_next_id s1 + 1,
                                 pg_history := trim_history kind user (safe_limit 500 5000 max_records)
                                   (pg_history s1 @ [row])\<rparr>)))))"
| "pg_append_history dt io_init io now kind user v max_records s = (Inr (), s)"

definition pg_history_item :: "dt_text \<Rightarrow> string option \<Rightarrow> int history_row \<Rightarrow> pydict" where
  "pg_history_item dt user_id h =
     (let p = (if truthy (dget (hist_payload h) ''timestamp'') then hist_payload h
               else dset ''timestamp'' (PStr (pg_iso dt (Some (hist_event_time h)))) (hist_payload h))
      in if user_id = None \<or> user_id = Some [] then dset ''user_id'' (PStr (hist_user_id h)) p else p)"

definition pg_list_history ::
  "dt_text \<Rightarrow> db_fate \<Rightarrow> db_fate \<Rightarrow> string \<Rightarrow> string option \<Rightarrow> int \<Rightarrow> pg_store
     \<Rightarrow> (storage_error + pydict list) \<times> pg_store" where
  "pg_list_history dt io_init io kind user_id limit s =
     (if kind = [] then (Inr [], s)
      else (case pg_ensure_tables io_init s of
              (False, s1) \<Rightarrow> (Inr [], s1)
            | (True, s1) \<Rightarrow>
                (let rows = select_history kind user_id (safe_limit 500 5000 limit) (pg_history s1)
                 in if io \<noteq> Committed \<or> \<not> query_ok kind user_id
                       \<or> \<not> list_all (\<lambda>h. pg_fetchable (Some (hist_event_time h))) rows
                    then (Inr [], s1)
                    else (Inr (map (pg_history_item dt user_id) rows), s1))))"

definition pg_ping :: "db_fate \<Rightarrow> bool" where
  "pg_ping io = (io = Committed)"

section \<open>The storage singleton\<close>

datatype storage = On_sqlite string | On_postgres

record storage_settings =
  storage_backend :: string
  sqlite_path :: string

definition build_storage :: "storage_settings \<Rightarrow> storage option" where
  "build_storage cfg =
     (if storage_backend cfg = ''sqlite''
      then (if sqlite_path cfg = [] then None else Some (On_sqlite (sqlite_path cfg)))
      else Some On_postgres)"

text \<open>\<open>get_storage()\<close>: \<open>None\<close> is the \<open>RuntimeError\<close> of a missing path, which leaves the singleton unset\<close>

definition get_storage :: "storage_settings \<Rightarrow> storage option \<Rightarrow> storage option \<times> storage option" where
  "get_storage cfg singleton =
     (case singleton of
        Some st \<Rightarrow> (Some st, Some st)
      | None \<Rightarrow> (build_storage cfg, build_storage cfg))"

lemma get_storage_stable:
  "get_storage cfg singleton = (Some st, s') \<Longrightarrow> get_storage cfg' s' = (Some st, s')"
  by (auto simp: get_storage_def split: option.splits)

section \<open>The two adapters agree\<close>

text \<open>
  What Python documents of its ISO format: parsing yields datetimes, and what \<open>isoformat\<close> writes
  for an aware one is parsed back to it.
\<close>

definition datetime_text :: "dt_text \<Rightarrow> bool" where
  "datetime_text dt \<longleftrightarrow>
     (\<forall>text l off. fromisoformat dt text = Some (l, off) \<longrightarrow> 0 \<le> l \<and> l \<le> max_datetime_us)
     \<and> (\<forall>l off. 0 \<le> l \<longrightarrow> l \<le> max_datetime_us \<longrightarrow>
          base_parse_datetime dt (PStr (isoformat dt (l, Some off))) = Some (l, Some off))"

text \<open>A time of the one adapter's row and of the other's: ISO text with an offset, and an instant\<close>

definition time_rel :: "dt_text \<Rightarrow> string option \<Rightarrow> int option \<Rightarrow> bool" where
  "time_rel dt t u \<longleftrightarrow>
     (t = None \<and> u = None)
     \<or> (\<exists>l off. 0 \<le> l \<and> l \<le> max_datetime_us \<and> t = Some (isoformat dt (l, Some off)) \<and> u = Some (l - off))"

definition row_rel :: "dt_text \<Rightarrow> string task_row \<Rightarrow> int task_row \<Rightarrow> bool" where
  "row_rel dt r p \<longleftrightarrow>
     row_task_id r = row_task_id p \<and> row_user_id r = row_user_id p \<and> row_task_kind r = row_task_kind p
     \<and> row_status r = row_status p \<and> row_message r = row_message p \<and> row_payload r = row_payload p
     \<and> time_rel dt (row_started_at r) (row_started_at p) \<and> time_rel dt (row_updated_at r) (row_updated_at p)
     \<and> nul_free (row_task_kind p) \<and> nul_free (row_task_id p) \<and> nul_free (row_user_id p)"

definition store_rel :: "dt_text \<Rightarrow> sqlite_store \<Rightarrow> pg_store \<Rightarrow> bool" where
  "store_rel dt s p \<longleftrightarrow> usable s \<and> list_all2 (row_rel dt) (task_rows s) (pg_tasks p)"

lemma base_parse_aware:
  assumes "datetime_text dt" and "base_parse_datetime dt v = Some d"
  shows "\<exists>l off. d = (l, Some off) \<and> 0 \<le> l \<and> l \<le> max_datetime_us"
proof (cases v)
  case (PStr s)
  then obtain l off where "fromisoformat dt (replace_char (CHR ''Z'') ''+00:00'' (py_strip s)) = Some (l, off)"
      "d = (l, Some (case off of None \<Rightarrow> 0 | Some x \<Rightarrow> x))"
    using assms(2) by (auto simp: Let_def split: if_splits option.splits)
  then show ?thesis using assms(1) unfolding datetime_text_def by blast
qed (use assms in auto)

lemma time_rel_parsed:
  assumes "datetime_text dt" and "0 \<le> now" and "now \<le> max_datetime_us"
    and "t = base_parse_datetime dt v \<or> t = Some (now, Some 0)"
  shows "time_rel dt (iso_or_none dt t) (map_option instant_of t)"
proof (cases t)
  case None
  then show ?thesis by (simp add: time_rel_def iso_or_none_def)
next
  case (Some d)
  then obtain l off where "d = (l, Some off)" "0 \<le> l" "l \<le> max_datetime_us"
    using assms base_parse_aware [OF assms(1)] by (metis option.inject)
  then show ?thesis using Some by (auto simp: time_rel_def iso_or_none_def instant_of_def)
qed

lemma varchar_short: "length s \<le> n \<Longrightarrow> varchar n s = Some t \<Longrightarrow> t = s \<and> nul_free s"
  by (auto simp: varchar_def split: if_splits)

lemma varchar_stripped:
  assumes "varchar n (py_strip s) = Some t"
  shows "t = py_strip s \<and> nul_free (py_strip s)"
proof (cases "length (py_strip s) \<le> n")
  case True
  then show ?thesis using assms varchar_short by blast
next
  case False
  have "py_isspace (CHR '' '')" by code_simp
  moreover have "\<not> py_isspace (last (py_strip s))" if "py_strip s \<noteq> []"
  proof -
    have "dropWhile py_isspace (rev (dropWhile py_isspace s)) \<noteq> []" using that by (simp add: py_strip_def)
    then show ?thesis
      by (metis hd_dropWhile last_rev py_strip_def)
  qed
  moreover have "last (py_strip s) \<in> set (drop n (py_strip s))" "py_strip s \<noteq> []"
    using False last_in_set [of "drop n (py_strip s)"] by auto
  ultimately have "last (py_strip s) \<noteq> CHR '' ''" "last (py_strip s) \<in> set (drop n (py_strip s))"
    by auto
  then have "\<not> list_all (\<lambda>c. c = CHR '' '') (drop n (py_strip s))"
    by (auto simp: list_all_iff)
  then show ?thesis using assms False by (simp add: varchar_def split: if_splits)
qed

text \<open>Rows whose kind and status fit their columns, so that nothing is cut off\<close>

definition plain :: "int \<times> string \<times> pyval \<Rightarrow> bool" where
  "plain op =
     (case op of (now, kind, v) \<Rightarrow>
        0 \<le> now \<and> now \<le> max_datetime_us \<and> length kind \<le> 64
        \<and> (case v of PDict d \<Rightarrow> length (status_of d) \<le> 32 | _ \<Rightarrow> True))"

lemma row_rel_new:
  assumes "datetime_text dt" and "plain (now, kind, PDict d)" and "pg_task_row dt now kind d = Some p"
  shows "row_rel dt (sqlite_task_row dt now kind d) p"
proof -
  have now: "0 \<le> now" "now \<le> max_datetime_us" and len: "length kind \<le> 64" "length (status_of d) \<le> 32"
    using assms(2) by (simp_all add: plain_def)
  have started: "time_rel dt (iso_or_none dt (task_started_at dt d)) (map_option instant_of (task_started_at dt d))"
    by (rule time_rel_parsed [OF assms(1) now disjI1]) (simp add: task_started_at_def)
  have "\<exists>v. task_updated_at dt now d = base_parse_datetime dt v \<or> task_updated_at dt now d = Some (now, Some 0)"
    by (auto simp: task_updated_at_def opt_or_def task_started_at_def split: option.splits) metis+
  then have updated: "time_rel dt (iso_or_none dt (task_updated_at dt now d))
      (map_option instant_of (task_updated_at dt now d))"
    using time_rel_parsed [OF assms(1) now] by blast
  show ?thesis
    using assms(3) started updated len
    by (auto simp: pg_task_row_def row_rel_def sqlite_task_row_def task_id_of_def user_id_of_def
        split: option.splits if_splits dest!: varchar_short varchar_stripped)
qed

lemma conflict_update_rel:
  assumes "row_rel dt r p" and "row_rel dt r' p'"
  shows "row_rel dt (conflict_update r r') (conflict_update p p')"
  using assms by (auto simp: row_rel_def conflict_update_def time_rel_def split: option.splits)

lemma row_rel_key: "row_rel dt r p \<Longrightarrow> row_key r = row_key p"
  by (simp add: row_rel_def row_key_def)

lemma insert_on_conflict_rel:
  assumes "list_all2 (row_rel dt) rs ps" and "row_rel dt r p"
  shows "list_all2 (row_rel dt) (insert_on_conflict r rs) (insert_on_conflict p ps)"
  using assms
proof (induction rule: list_all2_induct)
  case (Cons r' rs p' ps)
  then show ?case
    by (auto simp: row_rel_key [OF Cons.hyps(1)] row_rel_key [OF Cons.prems] intro: conflict_update_rel)
qed simp

lemma select_task_rel:
  assumes "list_all2 (row_rel dt) rs ps"
  shows "rel_option (row_rel dt) (select_task kind task_id user_id rs) (select_task kind task_id user_id ps)"
  using assms unfolding select_task_def
  by (induction rule: list_all2_induct) (auto simp: row_rel_def)

lemma time_rel_read:
  assumes "datetime_text dt" and "time_rel dt t u"
  shows "datetime_to_iso dt (Option.bind t (\<lambda>x. base_parse_datetime dt (PStr x))) =
    (if pg_fetchable u then Inr (pg_iso dt u) else Inl OverflowError)"
proof -
  have again: "base_parse_datetime dt (PStr (isoformat dt (l, Some off))) = Some (l, Some off)"
    if "0 \<le> l" "l \<le> max_datetime_us" for l off
    using assms(1) that unfolding datetime_text_def by blast
  have exact: "in_range n = Some m \<Longrightarrow> m = n" for n m by (simp add: in_range_def split: if_splits)
  show ?thesis
    using assms(2)
    by (auto simp: time_rel_def datetime_to_iso_def pg_fetchable_def pg_iso_def again
        simp del: base_parse_datetime.simps split: option.splits dest: exact)
qed

lemma row_to_task_rel:
  assumes "datetime_text dt" and "row_rel dt r p"
  shows "sqlite_row_to_task dt r = (if pg_row_ok p then Inr (pg_row_to_task dt p) else Inl OverflowError)"
proof -
  have "time_rel dt (row_started_at r) (row_started_at p)" "time_rel dt (row_updated_at r) (row_updated_at p)"
    using assms(2) by (simp_all add: row_rel_def)
  note read = time_rel_read [OF assms(1) this(1)] time_rel_read [OF assms(1) this(2)]
  have "shape_item r a b = shape_item p a b" for a b
    using assms(2) by (simp add: shape_item_def row_rel_def)
  then show ?thesis by (simp add: sqlite_row_to_task_def pg_row_ok_def pg_row_to_task_def read
        del: base_parse_datetime.simps)
qed

fun puts :: "(int \<Rightarrow> string \<Rightarrow> pyval \<Rightarrow> 's \<Rightarrow> bool \<times> 's) \<Rightarrow> (int \<times> string \<times> pyval) list \<Rightarrow> 's \<Rightarrow> bool list \<times> 's" where
  "puts put [] s = ([], s)"
| "puts put ((now, kind, v) # ops) s =
     (let (b, s1) = put now kind v s; (bs, s2) = puts put ops s1 in (b # bs, s2))"

lemma put_rel:
  assumes "datetime_text dt" and "plain (now, kind, v)" and "store_rel dt s p"
    and "sqlite_upsert_task dt DbOk DbOk now kind v s = (b, s')"
    and "pg_upsert_task dt Committed Committed now kind v p = (b, p')"
  shows "store_rel dt s' p'"
proof (cases v)
  case (PDict d)
  have "usable s" using assms(3) by (simp add: store_rel_def)
  then have init: "fst (sqlite_ensure_tables DbOk s)" "usable (snd (sqlite_ensure_tables DbOk s))"
      "task_rows (snd (sqlite_ensure_tables DbOk s)) = task_rows s"
    by (simp_all add: sqlite_ensure_tables_def)
  have pinit: "fst (pg_ensure_tables Committed p)" "pg_tasks (snd (pg_ensure_tables Committed p)) = pg_tasks p"
    by (simp_all add: pg_ensure_tables_def)
  show ?thesis
  proof (cases "kind = [] \<or> task_id_of d = [] \<or> user_id_of d = []")
    case True
    then show ?thesis using assms(3-5) PDict by (auto simp: sqlite_upsert_task.simps split: if_splits)
  next
    case False
    obtain s1 where e: "sqlite_ensure_tables DbOk s = (True, s1)" "usable s1" "task_rows s1 = task_rows s"
      using init by (cases "sqlite_ensure_tables DbOk s") auto
    have s': "b" "s' = s1\<lparr>task_rows := insert_on_conflict (sqlite_task_row dt now kind d) (task_rows s)\<rparr>"
      using assms(4) PDict False e \<open>usable s\<close> by (simp_all add: sqlite_upsert_task.simps)
    then obtain r where r: "pg_task_row dt now kind d = Some r"
        "p' = (snd (pg_ensure_tables Committed p))\<lparr>pg_tasks := insert_on_conflict r (pg_tasks p)\<rparr>"
      using assms(5) PDict False pinit by (auto split: prod.splits bool.splits option.splits)
    have "row_rel dt (sqlite_task_row dt now kind d) r"
      using row_rel_new [OF assms(1) _ r(1)] assms(2) PDict by simp
    then show ?thesis
      using s'(2) r(2) e(2) assms(3) by (simp add: store_rel_def insert_on_conflict_rel)
  qed
qed (use assms(3-5) in \<open>auto simp: sqlite_upsert_task.simps\<close>)

lemma puts_rel:
  assumes "datetime_text dt" and "list_all plain ops" and "store_rel dt s p"
    and "puts (sqlite_upsert_task dt DbOk DbOk) ops s = (bs, s')"
    and "puts (pg_upsert_task dt Committed Committed) ops p = (bs, p')"
  shows "store_rel dt s' p'"
  using assms(2-5)
proof (induction ops arbitrary: s p bs)
  case (Cons op ops)
  obtain now kind v where op: "op = (now, kind, v)" by (cases op)
  obtain b s1 where s1: "sqlite_upsert_task dt DbOk DbOk now kind v s = (b, s1)" by fastforce
  obtain c p1 where p1: "pg_upsert_task dt Committed Committed now kind v p = (c, p1)" by fastforce
  obtain bs1 where bs: "puts (sqlite_upsert_task dt DbOk DbOk) ops s1 = (bs1, s')" "bs = b # bs1"
    using Cons.prems(3) s1 op by (auto split: prod.splits)
  obtain bs2 where cs: "puts (pg_upsert_task dt Committed Committed) ops p1 = (bs2, p')" "bs = c # bs2"
    using Cons.prems(4) p1 op by (auto split: prod.splits)
  have "store_rel dt s1 p1"
    using put_rel [OF assms(1) _ Cons.prems(2) s1] p1 Cons.prems(1) op bs(2) cs(2) by simp
  then show ?case using Cons.IH [of s1 p1 bs1] Cons.prems(1) bs cs by simp
qed simp

lemma get_rel:
  assumes "datetime_text dt" and "store_rel dt s p"
  shows "fst (pg_get_task dt Committed Committed kind task_id user_id p) =
    (case fst (sqlite_get_task dt DbOk DbOk kind task_id user_id s) of
       Inl _ \<Rightarrow> Inr None | Inr answer \<Rightarrow> Inr answer)"
proof -
  have init: "sqlite_ensure_tables DbOk s = (True, s\<lparr>initialized := True\<rparr>)" and u: "usable s"
    using assms(2) by (auto simp: sqlite_ensure_tables_def store_rel_def)
  have pinit: "pg_ensure_tables Committed p = (True, p\<lparr>pg_initialized := True\<rparr>)"
    by (simp add: pg_ensure_tables_def)
  note sel = select_task_rel [of dt "task_rows s" "pg_tasks p" kind task_id user_id]
  show ?thesis
  proof (cases "select_task kind task_id user_id (pg_tasks p)")
    case None
    then have "select_task kind task_id user_id (task_rows s) = None"
      using sel assms(2) by (simp add: store_rel_def)
    then show ?thesis using None init pinit u by (simp add: sqlite_get_task_def pg_get_task_def)
  next
    case (Some r)
    then obtain q where q: "select_task kind task_id user_id (task_rows s) = Some q" "row_rel dt q r"
      using sel assms(2) by (auto simp: store_rel_def option_rel_Some2)
    have found: "row_task_kind r = kind" "row_task_id r = task_id" "user_matches user_id (row_user_id r)"
      using Some by (auto simp: select_task_def find_Some_iff)
    have ok: "query_ok kind user_id" "nul_free task_id"
      using q(2) found by (auto simp: row_rel_def query_ok_def user_matches_def nul_free_def split: option.splits)
    show ?thesis
      using Some q init pinit u ok row_to_task_rel [OF assms(1) q(2)]
      by (auto simp: sqlite_get_task_def pg_get_task_def)
  qed
qed


text \<open>A text library that meets \<open>datetime_text\<close>: a sign, the amount in strokes, and the offset after a slash\<close>

definition strokes :: "int \<Rightarrow> string" where
  "strokes n = (if n < 0 then CHR ''-'' else CHR ''+'') # replicate (nat \<bar>n\<bar>) (CHR ''1'')"

definition unstroke :: "string \<Rightarrow> int" where
  "unstroke s = (if hd s = CHR ''-'' then - int (length (tl s)) else int (length (tl s)))"

definition stroke_text :: dt_text where
  "stroke_text =
     \<lparr>fromisoformat = (\<lambda>s. case split_on (CHR ''/'') s of
          [a, b] \<Rightarrow> if 0 \<le> unstroke a \<and> unstroke a \<le> max_datetime_us
                    then Some (unstroke a, if b = [] then None else Some (unstroke b)) else None
        | _ \<Rightarrow> None),
      isoformat = (\<lambda>(l, off). strokes l @ CHR ''/'' # (case off of None \<Rightarrow> [] | Some z \<Rightarrow> strokes z)),
      float_timestamp = (\<lambda>_. None)\<rparr>"

lemma unstroke_strokes [simp]: "unstroke (strokes n) = n"
  by (simp add: unstroke_def strokes_def)

lemma strokes_nonempty: "strokes n \<noteq> []"
  by (simp add: strokes_def)

lemma set_strokes: "set (strokes n) \<subseteq> {CHR ''-'', CHR ''+'', CHR ''1''}"
  by (auto simp: strokes_def)

lemma datetime_text_strokes: "datetime_text stroke_text"
proof -
  have "base_parse_datetime stroke_text (PStr (isoformat stroke_text (l, Some off))) = Some (l, Some off)"
    if l: "0 \<le> l" "l \<le> max_datetime_us" for l off
  proof -
    let ?t = "strokes l @ CHR ''/'' # strokes off"
    have chars: "set ?t \<subseteq> {CHR ''-'', CHR ''+'', CHR ''1'', CHR ''/''}"
      using set_strokes by fastforce
    have "\<not> py_isspace (CHR ''-'') \<and> \<not> py_isspace (CHR ''+'') \<and> \<not> py_isspace (CHR ''1'') \<and> \<not> py_isspace (CHR ''/'')"
      by code_simp
    then have "py_strip ?t = ?t" using chars by (intro py_strip_plain) (auto simp: list_all_iff)
    moreover have "replace_char (CHR ''Z'') ''+00:00'' ?t = ?t" using chars by (intro replace_char_absent) auto
    moreover have "split_on (CHR ''/'') ?t = [strokes l, strokes off]"
    proof -
      have "CHR ''/'' \<notin> set (strokes n)" for n using set_strokes [of n] by auto
      then show ?thesis by (simp add: split_on_no_sep split_on_free)
    qed
    ultimately show ?thesis using l strokes_nonempty [of off] by (simp add: stroke_text_def)
  qed
  moreover have "fromisoformat stroke_text x = Some (l, off) \<Longrightarrow> 0 \<le> l \<and> l \<le> max_datetime_us" for x l off
    by (auto simp: stroke_text_def split: list.splits if_splits)
  ultimately show ?thesis unfolding datetime_text_def by blast
qed

definition sample_puts :: "(int \<times> string \<times> pyval) list" where
  "sample_puts = [(3, ''k'', PDict sample_payload),
     (5, ''k'', PDict [(''task_id'', PStr ''t1''), (''user_id'', PStr ''7''), (''updated_at'', PStr ''+11/+1'')])]"


end
