(* ===== verification/Py_Ipaddress.thy ===== *)
theory Py_Ipaddress
  imports Py_Prelude "HOL-Library.Word"
begin

text \<open>
  The part of Python 3.11's \<open>ipaddress\<close> module that the request limiter and the outbound URL
  guards rest on: the parser behind \<open>ip_address\<close> (dotted quads, then colon-separated hextets
  with one \<open>::\<close>, an embedded dotted quad and a scope id) and the classification of an address
  by the special-purpose registries. An address is the word the module keeps in \<open>_ip\<close>.
\<close>

datatype ip = V4 "32 word" | V6 "128 word"

section \<open>Parsing\<close>

text \<open>\<open>IPv4Address._parse_octet\<close>: one to three ASCII digits, no leading zero, at most 255\<close>

definition parse_octet :: "string \<Rightarrow> int option" where
  "parse_octet s =
     (if s = [] \<or> \<not> list_all is_digit s \<or> 3 < length s then None
      else if s \<noteq> ''0'' \<and> hd s = CHR ''0'' then None
      else if 255 < digits_val s then None
      else Some (int (digits_val s)))"

fun parse_all :: "('a \<Rightarrow> 'b option) \<Rightarrow> 'a list \<Rightarrow> 'b list option" where
  "parse_all f [] = Some []"
| "parse_all f (x # xs) =
     (case f x of None \<Rightarrow> None
      | Some y \<Rightarrow> (case parse_all f xs of None \<Rightarrow> None | Some ys \<Rightarrow> Some (y # ys)))"

text \<open>\<open>IPv4Address._ip_int_from_string\<close>\<close>

definition parse_ipv4 :: "string \<Rightarrow> int option" where
  "parse_ipv4 s =
     (case parse_all parse_octet (split_on (CHR ''.'') s) of
        Some [a, b, c, d] \<Rightarrow> Some (((a * 256 + b) * 256 + c) * 256 + d)
      | _ \<Rightarrow> None)"

definition hex_val :: "char \<Rightarrow> int option" where
  "hex_val c =
     (let n = (of_char c :: nat)
      in if 48 \<le> n \<and> n \<le> 57 then Some (int (n - 48))
         else if 65 \<le> n \<and> n \<le> 70 then Some (int (n - 55))
         else if 97 \<le> n \<and> n \<le> 102 then Some (int (n - 87))
         else None)"

text \<open>\<open>IPv6Address._parse_hextet\<close>: one to four hexadecimal digits\<close>

definition parse_hextet :: "string \<Rightarrow> int option" where
  "parse_hextet s =
     (if s = [] \<or> 4 < length s then None
      else map_option (foldl (\<lambda>n d. 16 * n + d) 0) (parse_all hex_val s))"

text \<open>
  \<open>IPv6Address._ip_int_from_string\<close>. A trailing dotted quad is first replaced by two hextets;
  an empty part that is neither the first nor the last marks the skipped zeros.
\<close>

definition inner_blanks :: "string list \<Rightarrow> nat list" where
  "inner_blanks parts = filter (\<lambda>i. parts ! i = []) [1 ..< length parts - 1]"

definition hextets_value :: "int list \<Rightarrow> int" where
  "hextets_value ws = foldl (\<lambda>n w. n * 65536 + w) 0 ws"

definition hextets_of_parts :: "string list \<Rightarrow> int list option" where
  "hextets_of_parts parts =
     (case inner_blanks parts of
        [] \<Rightarrow> if length parts = 8 then parse_all parse_hextet parts else None
      | [i] \<Rightarrow>
          let hi = take i parts;
              lo = drop (Suc i) parts;
              hi' = (if hd parts = [] then tl hi else hi);
              lo' = (if last parts = [] then butlast lo else lo)
          in if (hd parts = [] \<and> hi' \<noteq> []) \<or> (last parts = [] \<and> lo' \<noteq> [])
                \<or> 8 \<le> length hi' + length lo' then None
             else (case (parse_all parse_hextet hi', parse_all parse_hextet lo') of
                     (Some h, Some l) \<Rightarrow> Some (h @ replicate (8 - (length h + length l)) 0 @ l)
                   | _ \<Rightarrow> None)
      | _ \<Rightarrow> None)"

definition hex_str4 :: "int \<Rightarrow> string" where
  "hex_str4 n = map (hex_char \<circ> nat) [n div 4096 mod 16, n div 256 mod 16, n div 16 mod 16, n mod 16]"

definition parse_ipv6 :: "string \<Rightarrow> int option" where
  "parse_ipv6 s =
     (let parts = split_on (CHR '':'') s
      in if length parts < 3 then None
         else
           (let quad = parse_ipv4 (last parts);
                parts' = (if CHR ''.'' \<in> set (last parts)
                          then butlast parts @ (case quad of None \<Rightarrow> []
                                 | Some q \<Rightarrow> [hex_str4 (q div 65536), hex_str4 (q mod 65536)])
                          else parts)
            in if (CHR ''.'' \<in> set (last parts) \<and> quad = None) \<or> 9 < length parts' then None
               else map_option hextets_value (hextets_of_parts parts')))"

text \<open>\<open>IPv6Address._split_scope_id\<close>: the address before a scope id, which is not empty and has no \<open>%\<close>\<close>

definition split_scope :: "string \<Rightarrow> string option" where
  "split_scope s =
     (case split_on (CHR ''%'') s of
        [a] \<Rightarrow> Some a
      | [a, z] \<Rightarrow> (if z = [] then None else Some a)
      | _ \<Rightarrow> None)"

text \<open>\<open>ip_address(s)\<close>, \<open>None\<close> for the \<open>ValueError\<close>\<close>

definition ip_address :: "string \<Rightarrow> ip option" where
  "ip_address s =
     (if CHR ''/'' \<in> set s then None
      else case parse_ipv4 s of
             Some n \<Rightarrow> Some (V4 (of_int n))
           | None \<Rightarrow> map_option (V6 \<circ> of_int) (Option.bind (split_scope s) parse_ipv6))"

section \<open>Networks\<close>

text \<open>\<open>self in net\<close>: the bits above the prefix length are those of the network\<close>

definition in_net :: "'a::len word \<Rightarrow> 'a word \<times> nat \<Rightarrow> bool" where
  "in_net a net = (drop_bit (LENGTH('a) - snd net) a = drop_bit (LENGTH('a) - snd net) (fst net))"

definition quad :: "int \<Rightarrow> int \<Rightarrow> int \<Rightarrow> int \<Rightarrow> 32 word" where
  "quad a b c d = of_int (((a * 256 + b) * 256 + c) * 256 + d)"

text \<open>The high hextets of a 128-bit address, the rest zero\<close>

definition hextets :: "int list \<Rightarrow> 128 word" where
  "hextets hs = of_int (hextets_value (hs @ replicate (8 - length hs) 0))"

definition v4_private_nets :: "(32 word \<times> nat) list" where
  "v4_private_nets =
     [(quad 0 0 0 0, 8), (quad 10 0 0 0, 8), (quad 127 0 0 0, 8), (quad 169 254 0 0, 16),
      (quad 172 16 0 0, 12), (quad 192 0 0 0, 24), (quad 192 0 0 170, 31), (quad 192 0 2 0, 24),
      (quad 192 168 0 0, 16), (quad 198 18 0 0, 15), (quad 198 51 100 0, 24),
      (quad 203 0 113 0, 24), (quad 240 0 0 0, 4), (quad 255 255 255 255, 32)]"

definition v4_private_exceptions :: "(32 word \<times> nat) list" where
  "v4_private_exceptions = [(quad 192 0 0 9, 32), (quad 192 0 0 10, 32)]"

definition v6_private_nets :: "(128 word \<times> nat) list" where
  "v6_private_nets =
     [(hextets [0, 0, 0, 0, 0, 0, 0, 1], 128), (hextets [], 128),
      (hextets [0, 0, 0, 0, 0, 0xffff], 96), (hextets [0x64, 0xff9b, 1], 48),
      (hextets [0x100], 64), (hextets [0x2001], 23), (hextets [0x2001, 0xdb8], 32),
      (hextets [0x2002], 16), (hextets [0xfc00], 7), (hextets [0xfe80], 10)]"

definition v6_private_exceptions :: "(128 word \<times> nat) list" where
  "v6_private_exceptions =
     [(hextets [0x2001, 1, 0, 0, 0, 0, 0, 1], 128), (hextets [0x2001, 1, 0, 0, 0, 0, 0, 2], 128),
      (hextets [0x2001, 3], 32), (hextets [0x2001, 4, 0x112], 48),
      (hextets [0x2001, 0x20], 28), (hextets [0x2001, 0x30], 28)]"

definition v6_reserved_nets :: "(128 word \<times> nat) list" where
  "v6_reserved_nets =
     [(hextets [], 8), (hextets [0x100], 8), (hextets [0x200], 7), (hextets [0x400], 6),
      (hextets [0x800], 5), (hextets [0x1000], 4), (hextets [0x4000], 3), (hextets [0x6000], 3),
      (hextets [0x8000], 3), (hextets [0xa000], 3), (hextets [0xc000], 3), (hextets [0xe000], 4),
      (hextets [0xf000], 5), (hextets [0xf800], 6), (hextets [0xfe00], 9)]"

definition v4_private :: "32 word \<Rightarrow> bool" where
  "v4_private a = (list_ex (in_net a) v4_private_nets \<and> \<not> list_ex (in_net a) v4_private_exceptions)"

text \<open>\<open>ipv4_mapped\<close>: the low 32 bits of \<open>::ffff:0:0/96\<close>\<close>

definition ipv4_mapped :: "ip \<Rightarrow> (32 word) option" where
  "ipv4_mapped a =
     (case a of V4 _ \<Rightarrow> None
      | V6 w \<Rightarrow> (if drop_bit 32 w = 0xffff then Some (ucast w) else None))"

definition is_private :: "ip \<Rightarrow> bool" where
  "is_private a =
     (case a of V4 w \<Rightarrow> v4_private w
      | V6 w \<Rightarrow>
          (case ipv4_mapped a of Some m \<Rightarrow> v4_private m
           | None \<Rightarrow> list_ex (in_net w) v6_private_nets \<and> \<not> list_ex (in_net w) v6_private_exceptions))"

definition is_global :: "ip \<Rightarrow> bool" where
  "is_global a =
     (case a of V4 w \<Rightarrow> \<not> in_net w (quad 100 64 0 0, 10) \<and> \<not> v4_private w
      | V6 w \<Rightarrow> \<not> is_private a)"

definition is_loopback :: "ip \<Rightarrow> bool" where
  "is_loopback a = (case a of V4 w \<Rightarrow> in_net w (quad 127 0 0 0, 8) | V6 w \<Rightarrow> w = 1)"

definition is_link_local :: "ip \<Rightarrow> bool" where
  "is_link_local a =
     (case a of V4 w \<Rightarrow> in_net w (quad 169 254 0 0, 16) | V6 w \<Rightarrow> in_net w (hextets [0xfe80], 10))"

definition is_multicast :: "ip \<Rightarrow> bool" where
  "is_multicast a =
     (case a of V4 w \<Rightarrow> in_net w (quad 224 0 0 0, 4) | V6 w \<Rightarrow> in_net w (hextets [0xff00], 8))"

definition is_reserved :: "ip \<Rightarrow> bool" where
  "is_reserved a =
     (case a of V4 w \<Rightarrow> in_net w (quad 240 0 0 0, 4) | V6 w \<Rightarrow> list_ex (in_net w) v6_reserved_nets)"

definition is_unspecified :: "ip \<Rightarrow> bool" where
  "is_unspecified a = (case a of V4 w \<Rightarrow> w = 0 | V6 w \<Rightarrow> w = 0)"

end
