(* ===== verification/Rate_Limiter.thy ===== *)
theory Rate_Limiter
  imports Py_Ipaddress Py_Datetime Db_Session
begin

text \<open>
  The request limiter (\<open>middleware/rate_limiter.py\<close>): which client a request counts against,
  the shared counters table of the database path, and the in-memory fallback with its sweep of
  expired entries and its eviction of the oldest ones.

  A call reads the clock up to three times; its readings, and the fate of its database
  transaction, are the fields of \<open>rl_call\<close>. The database is the counters table itself: a
  transaction that fails leaves it as it was, one whose commit is not acknowledged has been
  applied although the call falls back to memory (the fates of \<open>Db_Session\<close>).
\<close>

section \<open>The client a request counts against\<close>

record http_request =
  peer_host :: "string option"
  forwarded_header :: "string option"
  real_ip_header :: "string option"

definition is_trusted_proxy :: "string \<Rightarrow> bool" where
  "is_trusted_proxy host =
     (let candidate = py_strip host
      in if candidate = [] then False
         else if py_lower candidate = ''localhost'' then True
         else (case ip_address candidate of
                 None \<Rightarrow> False
               | Some parsed \<Rightarrow> is_private parsed \<or> is_loopback parsed \<or> is_link_local parsed))"

fun rightmost_untrusted :: "string list \<Rightarrow> string option" where
  "rightmost_untrusted [] = None"
| "rightmost_untrusted (part # parts) =
     (let candidate = py_strip part
      in if candidate = [] then rightmost_untrusted parts
         else if is_trusted_proxy candidate then rightmost_untrusted parts
         else Some candidate)"

definition header_text :: "string option \<Rightarrow> string" where
  "header_text h = py_strip (case h of None \<Rightarrow> [] | Some s \<Rightarrow> s)"

definition get_forwarded_client_id :: "http_request \<Rightarrow> string option" where
  "get_forwarded_client_id req =
     (let forwarded_for = header_text (forwarded_header req);
          hop = (if forwarded_for = [] then None
                 else rightmost_untrusted (rev (split_on (CHR '','') forwarded_for)));
          real_ip = header_text (real_ip_header req)
      in case hop of
           Some candidate \<Rightarrow> Some candidate
         | None \<Rightarrow> if real_ip = [] then None else Some real_ip)"

definition get_client_id :: "http_request \<Rightarrow> string" where
  "get_client_id req =
     (let client_host = (case peer_host req of None \<Rightarrow> [] | Some h \<Rightarrow> h);
          own = (if client_host = [] then ''unknown'' else client_host)
      in if is_trusted_proxy client_host
         then (case get_forwarded_client_id req of None \<Rightarrow> own | Some c \<Rightarrow> c)
         else own)"

section \<open>State\<close>

record rl_conf =
  rl_requests :: int
  rl_window :: int

record rl_state =
  rl_cache :: "(string \<times> (int \<times> int)) list"
  rl_count :: int

definition max_cache_size :: nat where "max_cache_size = 10000"
definition cleanup_interval :: int where "cleanup_interval = 100"
definition db_cleanup_interval :: int where "db_cleanup_interval = 500"

definition rl_init :: rl_state where
  "rl_init = \<lparr>rl_cache = [], rl_count = 0\<rparr>"

definition window_us :: "rl_conf \<Rightarrow> int" where
  "window_us conf = rl_window conf * us_per_second"

definition cleanup_expired :: "rl_conf \<Rightarrow> int \<Rightarrow> rl_state \<Rightarrow> rl_state" where
  "cleanup_expired conf now st =
     st\<lparr>rl_cache := filter (\<lambda>(key, (_, start)). \<not> now - start > window_us conf) (rl_cache st)\<rparr>"

definition evict_oldest :: "rl_state \<Rightarrow> rl_state" where
  "evict_oldest st =
     (let cache = rl_cache st
      in if length cache \<le> max_cache_size then st
         else (let sorted_keys = map fst (sort_key (\<lambda>(_, (_, start)). start) cache);
                   evict_count = length cache - max_cache_size
               in st\<lparr>rl_cache := filter (\<lambda>(key, _). key \<notin> set (take evict_count sorted_keys)) cache\<rparr>))"

definition maybe_cleanup :: "rl_conf \<Rightarrow> int \<Rightarrow> rl_state \<Rightarrow> rl_state" where
  "maybe_cleanup conf now st =
     (let st = st\<lparr>rl_count := rl_count st + 1\<rparr>
      in if rl_count st mod cleanup_interval = 0 then evict_oldest (cleanup_expired conf now st)
         else st)"

definition rl_reset :: "rl_state \<Rightarrow> rl_state" where
  "rl_reset st = st\<lparr>rl_cache := []\<rparr>"

section \<open>The database path\<close>

type_synonym counters = "((string \<times> int) \<times> int) list"

text \<open>\<open>int(t)\<close> for the seconds of an instant: truncation towards the epoch\<close>

definition whole_seconds :: "int \<Rightarrow> int" where
  "whole_seconds us =
     (let d = us - epoch_us in if 0 \<le> d then d div us_per_second else - (- d div us_per_second))"

text \<open>The window's start, \<open>None\<close> for the error of a zero window or of an instant out of range\<close>

definition current_window_start :: "rl_conf \<Rightarrow> int \<Rightarrow> int option" where
  "current_window_start conf now =
     (if rl_window conf = 0 then None
      else from_timestamp (whole_seconds now div rl_window conf * rl_window conf))"

definition bump_counter :: "string \<Rightarrow> int \<Rightarrow> counters \<Rightarrow> int \<times> counters" where
  "bump_counter client start tab =
     (let new_count = (case map_of tab (client, start) of None \<Rightarrow> 1 | Some n \<Rightarrow> n + 1)
      in (new_count, AList.update (client, start) new_count tab))"

definition sweep_counters :: "int \<Rightarrow> counters \<Rightarrow> counters" where
  "sweep_counters limit tab = filter (\<lambda>((_, start), _). \<not> start < limit) tab"

text \<open>
  The answer is \<open>None\<close> where the caller has to fall back to memory. The cut-off of the sweep is
  computed inside the transaction: where it is no instant the transaction fails.
\<close>

definition check_via_db ::
    "rl_conf \<Rightarrow> db_fate \<Rightarrow> int \<Rightarrow> string \<Rightarrow> int \<Rightarrow> counters \<Rightarrow> bool option \<times> counters" where
  "check_via_db conf fate seen client start tab =
     (let (new_count, tab') = bump_counter client start tab;
          limit = start - 2 * window_us conf;
          sweeping = (seen mod db_cleanup_interval = 0);
          tab'' = (if sweeping then sweep_counters limit tab' else tab')
      in if fate = Rolled_back \<or> (sweeping \<and> in_range limit = None) then (None, tab)
         else if fate = Unacknowledged then (None, tab'')
         else (Some (new_count \<le> rl_requests conf), tab''))"

section \<open>The in-memory path\<close>

text \<open>
  \<open>self._cache\<close> is a \<open>defaultdict\<close>: reading a missing client stores the count zero under the
  clock's reading \<open>later\<close>.
\<close>

definition cache_fetch :: "string \<Rightarrow> int \<Rightarrow> rl_state \<Rightarrow> (int \<times> int) \<times> rl_state" where
  "cache_fetch client later st =
     (case map_of (rl_cache st) client of
        Some e \<Rightarrow> (e, st)
      | None \<Rightarrow> ((0, later), st\<lparr>rl_cache := dset client (0, later) (rl_cache st)\<rparr>))"

definition check_in_memory :: "rl_conf \<Rightarrow> string \<Rightarrow> int \<Rightarrow> int \<Rightarrow> rl_state \<Rightarrow> bool \<times> rl_state" where
  "check_in_memory conf client now later st =
     (let ((count, start), st) = cache_fetch client later st
      in if now - start > window_us conf
         then (True, st\<lparr>rl_cache := dset client (1, now) (rl_cache st)\<rparr>)
         else if count \<ge> rl_requests conf then (False, st)
         else (True, st\<lparr>rl_cache := dset client (count + 1, start) (rl_cache st)\<rparr>))"

section \<open>One request\<close>

record rl_call =
  call_request :: http_request
  clock_sweep :: int
  clock_now :: int
  clock_later :: int
  call_fate :: db_fate

datatype rl_answer = Allowed_by_db | Allowed_in_memory | Too_many_requests | Window_error

definition check_rate_limit ::
    "rl_conf \<Rightarrow> rl_call \<Rightarrow> rl_state \<times> counters \<Rightarrow> rl_answer \<times> (rl_state \<times> counters)" where
  "check_rate_limit conf call s =
     (let st = maybe_cleanup conf (clock_sweep call) (fst s);
          client = get_client_id (call_request call);
          now = clock_now call
      in case current_window_start conf now of
           None \<Rightarrow> (Window_error, (st, snd s))
         | Some start \<Rightarrow>
             (case check_via_db conf (call_fate call) (rl_count st) client start (snd s) of
                (Some ok, tab) \<Rightarrow> (if ok then Allowed_by_db else Too_many_requests, (st, tab))
              | (None, tab) \<Rightarrow>
                  (let (ok, st) = check_in_memory conf client now (clock_later call) st
                   in (if ok then Allowed_in_memory else Too_many_requests, (st, tab)))))"

text \<open>The answers to a sequence of requests\<close>

fun rl_run :: "rl_conf \<Rightarrow> rl_call list \<Rightarrow> rl_state \<times> counters \<Rightarrow> rl_answer list \<times> (rl_state \<times> counters)" where
  "rl_run conf [] s = ([], s)"
| "rl_run conf (call # calls) s =
     (let (a, s1) = check_rate_limit conf call s; (as, s2) = rl_run conf calls s1
      in (a # as, s2))"

section \<open>The client cannot choose whom its request counts against\<close>

lemma comma_not_space: "list_all py_isspace l \<Longrightarrow> CHR '','' \<notin> set l"
  by (auto simp: list_all_iff py_isspace_def)

lemma split_strip_parts:
  "map py_strip (split_on (CHR '','') (py_strip s)) = map py_strip (split_on (CHR '','') s)"
proof -
  obtain l r where s: "s = l @ py_strip s @ r" and l: "list_all py_isspace l" and r: "list_all py_isspace r"
    using strip_split by blast
  let ?m = "py_strip s" and ?S = "\<lambda>t. map py_strip (split_on (CHR '','') t)"
  have "?S (?m @ r) = ?S ?m"
    using r by (simp add: split_on_suffix comma_not_space py_strip_spaces_right map_butlast)
      (metis append_butlast_last_id list.map_disc_iff last_map map_butlast split_on_not_Nil)
  moreover have "?S (l @ t) = ?S t" for t
    using l by (cases "split_on (CHR '','') t")
      (simp_all add: split_on_prefix comma_not_space py_strip_spaces_left)
  ultimately show ?thesis using s by metis
qed

lemma rightmost_untrusted_strip: "rightmost_untrusted (map py_strip parts) = rightmost_untrusted parts"
  by (induction parts) (auto simp: Let_def)

lemma rightmost_untrusted_skip:
  assumes "list_all (\<lambda>h. py_strip h = [] \<or> is_trusted_proxy (py_strip h)) hops"
  shows "rightmost_untrusted (hops @ parts) = rightmost_untrusted parts"
  using assms by (induction hops) (auto simp: Let_def)

lemma forwarded_chain:
  assumes "CHR '','' \<notin> set real" and "py_strip real \<noteq> []" and "\<not> is_trusted_proxy (py_strip real)"
    and "list_all (\<lambda>h. CHR '','' \<notin> set h) hops"
    and "list_all (\<lambda>h. py_strip h = [] \<or> is_trusted_proxy (py_strip h)) hops"
  shows "rightmost_untrusted (rev (split_on (CHR '','')
      (spoof @ CHR '','' # join_with '','' (real # hops)))) = Some (py_strip real)"
proof -
  have "split_on (CHR '','') (spoof @ CHR '','' # join_with '','' (real # hops)) =
      split_on (CHR '','') spoof @ real # hops"
    using assms(1,4) by (simp add: split_on_append split_on_join del: join_with.simps)
  then have "rightmost_untrusted (rev (split_on (CHR '','')
        (spoof @ CHR '','' # join_with '','' (real # hops)))) =
      rightmost_untrusted (rev hops @ real # rev (split_on (CHR '','') spoof))"
    by (simp del: join_with.simps)
  also have "\<dots> = Some (py_strip real)"
    using assms(2,3,5) by (subst rightmost_untrusted_skip) (auto simp: Let_def)
  finally show ?thesis .
qed

lemma rightmost_untrusted_header:
  "rightmost_untrusted (rev (split_on (CHR '','') (py_strip h))) =
     rightmost_untrusted (rev (split_on (CHR '','') h))"
  by (metis rev_map rightmost_untrusted_strip split_strip_parts)

lemma forwarded_hop:
  assumes "rightmost_untrusted (rev (split_on (CHR '','') h)) = Some c"
  shows "get_forwarded_client_id \<lparr>peer_host = p, forwarded_header = Some h, real_ip_header = x\<rparr> = Some c"
proof -
  have hop: "rightmost_untrusted (rev (split_on (CHR '','') (py_strip h))) = Some c"
    using assms by (simp only: rightmost_untrusted_header)
  then have "py_strip h \<noteq> []" by auto
  then show ?thesis using hop by (simp add: get_forwarded_client_id_def header_text_def)
qed



section \<open>The state stays small\<close>

definition rl_ok :: "rl_state \<Rightarrow> bool" where
  "rl_ok st =
     (wf_dict (rl_cache st) \<and> 0 \<le> rl_count st
      \<and> int (length (rl_cache st)) \<le> int max_cache_size + 1 + rl_count st mod cleanup_interval)"

lemma length_dset: "length (dset k v d) = (if map_of d k = None then Suc (length d) else length d)"
  by (induction d) auto

lemma length_drop_keys:
  assumes "wf_dict d" and "distinct ks" and "set ks = fst ` set d" and "n \<le> length d"
  shows "length (filter (\<lambda>(k, _). k \<notin> set (take n ks)) d) = length d - n"
proof -
  have "length ks = length d"
    using assms(1-3) by (metis distinct_card length_map list.set_map)
  moreover have "set (take n ks) \<subseteq> fst ` set d"
    using assms(3) set_take_subset by metis
  ultimately show ?thesis
    using length_filter_keys [OF assms(1), of "take n ks"] assms(2,4) by (simp add: case_prod_unfold)
qed

lemma evict_oldest_length:
  assumes "wf_dict (rl_cache st)"
  shows "length (rl_cache (evict_oldest st)) \<le> max_cache_size"
proof (cases "length (rl_cache st) \<le> max_cache_size")
  case True
  then show ?thesis by (simp add: evict_oldest_def)
next
  case False
  let ?c = "rl_cache st"
  let ?ks = "map fst (sort_key (\<lambda>(_, (_, start)). start) ?c)"
  let ?K = "set (take (length ?c - max_cache_size) ?ks)"
  have "distinct ?ks" and "set ?ks = fst ` set ?c"
    using assms by (simp_all add: distinct_map)
  then have "length (filter (\<lambda>(k, _). k \<notin> ?K) ?c) = length ?c - (length ?c - max_cache_size)"
    by (rule length_drop_keys [OF assms]) simp
  moreover have "rl_cache (evict_oldest st) = filter (\<lambda>(k, _). k \<notin> ?K) ?c"
    using False by (simp add: evict_oldest_def Let_def)
  ultimately show ?thesis by simp
qed

lemma wf_cleanup:
  "wf_dict (rl_cache st) \<Longrightarrow> wf_dict (rl_cache (cleanup_expired conf now st))"
  "wf_dict (rl_cache st) \<Longrightarrow> wf_dict (rl_cache (evict_oldest st))"
  by (simp_all add: cleanup_expired_def evict_oldest_def Let_def)

lemma maybe_cleanup_count: "rl_count (maybe_cleanup conf now st) = rl_count st + 1"
  by (simp add: maybe_cleanup_def cleanup_expired_def evict_oldest_def Let_def)

definition swept :: "rl_state \<Rightarrow> bool" where
  "swept st =
     (wf_dict (rl_cache st) \<and> 0 \<le> rl_count st
      \<and> int (length (rl_cache st)) \<le> int max_cache_size + rl_count st mod cleanup_interval)"

lemma succ_mod_interval:
  "(n + 1) mod cleanup_interval \<noteq> 0 \<Longrightarrow> (n + 1) mod cleanup_interval = n mod cleanup_interval + 1"
proof -
  assume nz: "(n + 1) mod cleanup_interval \<noteq> 0"
  let ?m = "n mod 100"
  have m: "0 \<le> ?m" "?m < 100" by simp_all
  have "(n + 1) mod 100 = (?m + 1) mod 100" by (simp add: mod_add_left_eq)
  moreover have "?m + 1 \<noteq> 100"
    using nz calculation by (auto simp: cleanup_interval_def)
  ultimately show ?thesis
    using m by (simp add: cleanup_interval_def)
qed

lemma evicted_swept:
  assumes "wf_dict (rl_cache st)" and "0 \<le> rl_count st"
  shows "swept (evict_oldest (cleanup_expired conf now st))"
proof -
  let ?st = "evict_oldest (cleanup_expired conf now st)"
  have c: "rl_count ?st = rl_count st"
    by (simp add: cleanup_expired_def evict_oldest_def Let_def)
  have "length (rl_cache ?st) \<le> max_cache_size"
    by (rule evict_oldest_length [OF wf_cleanup(1) [OF assms(1)]])
  moreover have "0 \<le> rl_count ?st mod cleanup_interval"
    by (simp add: cleanup_interval_def)
  ultimately show ?thesis
    using wf_cleanup(2) [OF wf_cleanup(1) [OF assms(1)]] assms(2) c by (simp add: swept_def)
qed

lemma maybe_cleanup_swept:
  assumes "rl_ok st"
  shows "swept (maybe_cleanup conf now st)"
proof (cases "(rl_count st + 1) mod cleanup_interval = 0")
  case True
  then have "maybe_cleanup conf now st = evict_oldest (cleanup_expired conf now (st\<lparr>rl_count := rl_count st + 1\<rparr>))"
    by (simp add: maybe_cleanup_def)
  then show ?thesis
    using assms evicted_swept [of "st\<lparr>rl_count := rl_count st + 1\<rparr>"] by (simp add: rl_ok_def)
next
  case False
  then have "maybe_cleanup conf now st = st\<lparr>rl_count := rl_count st + 1\<rparr>"
    by (simp add: maybe_cleanup_def)
  then show ?thesis
    using assms succ_mod_interval [OF False] by (simp add: swept_def rl_ok_def)
qed

lemma check_in_memory_ok:
  assumes "swept st"
  shows "rl_ok (snd (check_in_memory conf client now later st))"
proof -
  obtain e st1 where f: "cache_fetch client later st = (e, st1)" by fastforce
  have "wf_dict (rl_cache st1) \<and> rl_count st1 = rl_count st \<and> map_of (rl_cache st1) client \<noteq> None
      \<and> length (rl_cache st1) \<le> Suc (length (rl_cache st))"
    using f assms by (auto simp: cache_fetch_def swept_def length_dset split: option.splits)
  then show ?thesis
    using f assms
    by (auto simp: check_in_memory_def rl_ok_def swept_def length_dset split: prod.splits)
qed

lemma swept_ok: "swept st \<Longrightarrow> rl_ok st"
  by (simp add: swept_def rl_ok_def)

lemma check_rate_limit_state:
  "fst (snd (check_rate_limit conf call s)) =
     (let st = maybe_cleanup conf (clock_sweep call) (fst s);
          client = get_client_id (call_request call)
      in case current_window_start conf (clock_now call) of
           None \<Rightarrow> st
         | Some start \<Rightarrow>
             (case fst (check_via_db conf (call_fate call) (rl_count st) client start (snd s)) of
                Some ok \<Rightarrow> st
              | None \<Rightarrow> snd (check_in_memory conf client (clock_now call) (clock_later call) st)))"
  by (auto simp: check_rate_limit_def Let_def split: option.splits prod.splits)

lemma check_rate_limit_ok:
  assumes "rl_ok (fst s)"
  shows "rl_ok (fst (snd (check_rate_limit conf call s)))"
proof -
  note sw = maybe_cleanup_swept [OF assms, of conf "clock_sweep call"]
  show ?thesis
    unfolding check_rate_limit_state Let_def
    by (auto split: option.splits intro: swept_ok [OF sw] check_in_memory_ok [OF sw])
qed

lemma rl_run_Cons:
  "fst (rl_run conf (call # calls) s) =
     fst (check_rate_limit conf call s) # fst (rl_run conf calls (snd (check_rate_limit conf call s)))"
  "snd (rl_run conf (call # calls) s) = snd (rl_run conf calls (snd (check_rate_limit conf call s)))"
  by (simp_all split: prod.splits)

declare rl_run.simps(2) [simp del]

lemma rl_run_ok: "rl_ok (fst s) \<Longrightarrow> rl_ok (fst (snd (rl_run conf calls s)))"
  by (induction calls arbitrary: s) (simp_all add: rl_run_Cons check_rate_limit_ok)

lemma rl_ok_bound:
  assumes "rl_ok st"
  shows "length (rl_cache st) \<le> 10100 \<and> wf_dict (rl_cache st)"
proof -
  have "rl_count st mod 100 < 100" by simp
  moreover have "int (length (rl_cache st)) \<le> 10001 + rl_count st mod 100"
    using assms by (simp add: rl_ok_def max_cache_size_def cleanup_interval_def)
  ultimately show ?thesis using assms by (auto simp: rl_ok_def)
qed

text \<open>
  The limiter's memory is bounded whatever the requests are: starting from the empty cache,
  after any sequence of requests (from any number of clients, with any clock readings and any
  outcome of the database transactions) the cache holds at most
  \<open>MAX_CACHE_SIZE + CLEANUP_INTERVAL\<close> entries, one per client.
\<close>

theorem rate_limiter_cache_bound:
  "length (rl_cache (fst (snd (rl_run conf calls (rl_init, tab))))) \<le> 10100
   \<and> wf_dict (rl_cache (fst (snd (rl_run conf calls (rl_init, tab)))))"
proof -
  have "rl_ok (fst (rl_init, tab))" by (simp add: rl_ok_def rl_init_def max_cache_size_def cleanup_interval_def)
  then show ?thesis using rl_run_ok rl_ok_bound by blast
qed

section \<open>How many requests get through\<close>

subsection \<open>In memory\<close>

text \<open>
  \<open>headroom R w a T e\<close>: how many requests an entry \<open>e\<close> can still let through in memory within
  the interval from \<open>a\<close> to \<open>a + w\<close>, when the clock reads at least \<open>T\<close>. Windows that open in the
  interval do so more than \<open>w\<close> apart, so one window reaches into it and at most one opens in it.
\<close>

definition headroom :: "int \<Rightarrow> int \<Rightarrow> int \<Rightarrow> int \<Rightarrow> (int \<times> int) option \<Rightarrow> int" where
  "headroom R w a T e =
     (if T > a + w then 0
      else case e of
             None \<Rightarrow> if T \<ge> a then R else 2 * R
           | Some (c, st) \<Rightarrow> if st \<ge> a then R - c else if st + w \<ge> a then 2 * R - c else 2 * R)"

definition entry_ok :: "int \<Rightarrow> int \<Rightarrow> (int \<times> int) option \<Rightarrow> bool" where
  "entry_ok R T e = (case e of None \<Rightarrow> True | Some (c, st) \<Rightarrow> 0 \<le> c \<and> c \<le> R \<and> st \<le> T)"

definition in_interval :: "int \<Rightarrow> int \<Rightarrow> int \<Rightarrow> int" where
  "in_interval w a n = (if a \<le> n \<and> n \<le> a + w then 1 else 0)"

lemmas headroom_defs = headroom_def entry_ok_def in_interval_def

lemma headroom_nonneg: "0 < R \<Longrightarrow> entry_ok R T e \<Longrightarrow> 0 \<le> headroom R w a T' e"
  by (auto simp: headroom_defs split: option.splits)

lemma headroom_later:
  "0 < R \<Longrightarrow> entry_ok R T e \<Longrightarrow> T \<le> T' \<Longrightarrow> headroom R w a T' e \<le> headroom R w a T e"
  by (auto simp: headroom_defs split: option.splits)

lemma entry_ok_later: "entry_ok R T e \<Longrightarrow> T \<le> T' \<Longrightarrow> entry_ok R T' e"
  by (auto simp: entry_ok_def split: option.splits)

lemma headroom_swept:
  "0 < R \<Longrightarrow> entry_ok R T (Some (c, st)) \<Longrightarrow> n - st > w \<Longrightarrow> T \<le> n \<Longrightarrow> 0 \<le> w \<Longrightarrow>
     headroom R w a n None \<le> headroom R w a T (Some (c, st))"
  by (auto simp: headroom_defs)

lemma headroom_new:
  "0 < R \<Longrightarrow> T \<le> n \<Longrightarrow> n \<le> l \<Longrightarrow> 0 \<le> w \<Longrightarrow>
     in_interval w a n + headroom R w a l (Some (1, l)) \<le> headroom R w a T None"
  by (auto simp: headroom_defs)

lemma headroom_reopened:
  "0 < R \<Longrightarrow> entry_ok R T (Some (c, st)) \<Longrightarrow> n - st > w \<Longrightarrow> T \<le> n \<Longrightarrow> n \<le> l \<Longrightarrow> 0 \<le> w \<Longrightarrow>
     in_interval w a n + headroom R w a l (Some (1, n)) \<le> headroom R w a T (Some (c, st))"
  by (auto simp: headroom_defs)

lemma headroom_counted:
  "0 < R \<Longrightarrow> entry_ok R T (Some (c, st)) \<Longrightarrow> \<not> n - st > w \<Longrightarrow> c < R \<Longrightarrow> T \<le> n \<Longrightarrow> n \<le> l \<Longrightarrow>
     in_interval w a n + headroom R w a l (Some (c + 1, st)) \<le> headroom R w a T (Some (c, st))"
  by (auto simp: headroom_defs)

abbreviation entry :: "string \<Rightarrow> rl_state \<Rightarrow> (int \<times> int) option" where
  "entry client st \<equiv> map_of (rl_cache st) client"

lemma map_of_filter_wf:
  "wf_dict d \<Longrightarrow> map_of (filter (\<lambda>(k, v). P v) d) k =
     (case map_of d k of None \<Rightarrow> None | Some v \<Rightarrow> if P v then Some v else None)"
  by (induction d) (auto split: option.splits dest: map_of_SomeD intro: rev_image_eqI)

lemma cleanup_expired_entry:
  assumes "wf_dict (rl_cache st)"
  shows "entry client (cleanup_expired conf n st) =
     (case entry client st of None \<Rightarrow> None
      | Some (c, s) \<Rightarrow> if n - s > window_us conf then None else Some (c, s))"
proof -
  have "(\<lambda>(key, (_, start)). \<not> n - start > window_us conf) =
      (\<lambda>(key::string, e::int \<times> int). \<not> n - snd e > window_us conf)" by auto
  then show ?thesis
    using map_of_filter_wf [OF assms, of "\<lambda>e. \<not> n - snd e > window_us conf" client]
    by (auto simp: cleanup_expired_def split: option.splits)
qed

lemma maybe_cleanup_entry:
  assumes "wf_dict (rl_cache st)" and "length (rl_cache st) \<le> max_cache_size"
  shows "entry client (maybe_cleanup conf n st) = entry client st
     \<or> (entry client (maybe_cleanup conf n st) = None
         \<and> (\<exists>c s. entry client st = Some (c, s) \<and> n - s > window_us conf))"
proof (cases "(rl_count st + 1) mod cleanup_interval = 0")
  case True
  let ?st = "st\<lparr>rl_count := rl_count st + 1\<rparr>"
  have wf: "wf_dict (rl_cache ?st)" using assms(1) by simp
  have "length (rl_cache (cleanup_expired conf n ?st)) \<le> max_cache_size"
    using assms(2) le_trans [OF length_filter_le] by (simp add: cleanup_expired_def)
  then have "maybe_cleanup conf n st = cleanup_expired conf n ?st"
    using True by (simp add: maybe_cleanup_def evict_oldest_def)
  then show ?thesis
    using cleanup_expired_entry [OF wf, of conf n client] by (auto split: option.splits)
next
  case False
  then show ?thesis by (simp add: maybe_cleanup_def)
qed

lemma maybe_cleanup_headroom:
  assumes "wf_dict (rl_cache st)" and "length (rl_cache st) \<le> max_cache_size"
    and "0 < R" and "entry_ok R T (entry client st)" and "T \<le> n" and "0 \<le> window_us conf"
  shows "headroom R (window_us conf) a n (entry client (maybe_cleanup conf n st)) \<le>
           headroom R (window_us conf) a T (entry client st)
         \<and> entry_ok R n (entry client (maybe_cleanup conf n st))"
  using maybe_cleanup_entry [OF assms(1,2), of conf n client]
proof (elim disjE conjE exE)
  assume "entry client (maybe_cleanup conf n st) = entry client st"
  then show ?thesis using headroom_later [OF assms(3,4,5)] entry_ok_later [OF assms(4,5)] by simp
next
  fix c s
  assume "entry client (maybe_cleanup conf n st) = None" "entry client st = Some (c, s)"
    "n - s > window_us conf"
  then show ?thesis
    using headroom_swept [OF assms(3), of T c s "window_us conf" n a] assms(4-6)
    by (simp add: entry_ok_def)
qed

lemma check_in_memory_headroom:
  assumes "0 < rl_requests conf" and "entry_ok (rl_requests conf) T (entry client st)"
    and "T \<le> n" and "n \<le> l" and "0 \<le> window_us conf"
  shows "(if fst (check_in_memory conf client n l st) then in_interval (window_us conf) a n else 0)
           + headroom (rl_requests conf) (window_us conf) a l (entry client (snd (check_in_memory conf client n l st)))
         \<le> headroom (rl_requests conf) (window_us conf) a T (entry client st)
         \<and> entry_ok (rl_requests conf) l (entry client (snd (check_in_memory conf client n l st)))"
proof (cases "entry client st")
  case None
  then show ?thesis
    using assms headroom_new [OF assms(1,3,4,5), of a]
    by (auto simp: check_in_memory_def cache_fetch_def entry_ok_def)
next
  case (Some e)
  obtain c s where e: "e = (c, s)" by fastforce
  have ok: "entry_ok (rl_requests conf) T (Some (c, s))" using assms(2) Some e by simp
  show ?thesis
    using assms(1,3,4,5) Some e ok headroom_reopened [OF assms(1) ok _ assms(3,4,5), of a]
      headroom_counted [OF assms(1) ok _ _ assms(3,4), of "window_us conf" a]
      headroom_later [OF assms(1) ok, of l "window_us conf" a]
    by (auto simp: check_in_memory_def cache_fetch_def entry_ok_def)
qed

lemma check_in_memory_other:
  "client' \<noteq> client \<Longrightarrow> entry client (snd (check_in_memory conf client' n l st)) = entry client st"
  by (auto simp: check_in_memory_def cache_fetch_def split: option.splits prod.splits)

lemma check_in_memory_keys:
  "fst ` set (rl_cache (snd (check_in_memory conf client n l st))) \<subseteq> insert client (fst ` set (rl_cache st))"
  by (auto simp: check_in_memory_def cache_fetch_def dom_update split: option.splits prod.splits)

lemma check_in_memory_wf:
  "wf_dict (rl_cache st) \<Longrightarrow> wf_dict (rl_cache (snd (check_in_memory conf client n l st)))"
  by (auto simp: check_in_memory_def cache_fetch_def split: option.splits prod.splits)

lemma maybe_cleanup_keys:
  "fst ` set (rl_cache (maybe_cleanup conf n st)) \<subseteq> fst ` set (rl_cache st)"
  by (auto simp: maybe_cleanup_def cleanup_expired_def evict_oldest_def Let_def)

lemma maybe_cleanup_wf:
  "wf_dict (rl_cache st) \<Longrightarrow> wf_dict (rl_cache (maybe_cleanup conf n st))"
  by (simp add: maybe_cleanup_def Let_def wf_cleanup)

definition call_client :: "rl_call \<Rightarrow> string" where
  "call_client call = get_client_id (call_request call)"

definition call_clocks :: "rl_call \<Rightarrow> int list" where
  "call_clocks call = [clock_sweep call, clock_now call, clock_later call]"

definition passed_in_memory :: "rl_conf \<Rightarrow> string \<Rightarrow> int \<Rightarrow> rl_call \<times> rl_answer \<Rightarrow> bool" where
  "passed_in_memory conf client a ev =
     (snd ev = Allowed_in_memory \<and> call_client (fst ev) = client
      \<and> a \<le> clock_now (fst ev) \<and> clock_now (fst ev) \<le> a + window_us conf)"

definition passed_by_db :: "rl_conf \<Rightarrow> string \<Rightarrow> int \<Rightarrow> rl_call \<times> rl_answer \<Rightarrow> bool" where
  "passed_by_db conf client b ev =
     (snd ev = Allowed_by_db \<and> call_client (fst ev) = client
      \<and> current_window_start conf (clock_now (fst ev)) = Some b)"

text \<open>The memory is sound at time \<open>T\<close> for the clients \<open>C\<close>: no eviction can be due among them\<close>

definition memory_ok :: "rl_conf \<Rightarrow> string set \<Rightarrow> string \<Rightarrow> int \<Rightarrow> rl_state \<Rightarrow> bool" where
  "memory_ok conf C client T st =
     (wf_dict (rl_cache st) \<and> fst ` set (rl_cache st) \<subseteq> C \<and> entry_ok (rl_requests conf) T (entry client st))"

lemma memory_ok_length:
  assumes "memory_ok conf C client T st" and "finite C" and "card C \<le> max_cache_size"
  shows "length (rl_cache st) \<le> max_cache_size"
proof -
  have "length (rl_cache st) = card (fst ` set (rl_cache st))"
    using assms(1) by (metis distinct_card length_map list.set_map memory_ok_def)
  also have "\<dots> \<le> card C" using assms(1,2) by (simp add: card_mono memory_ok_def)
  finally show ?thesis using assms(3) by simp
qed

lemma check_rate_limit_cases:
  "(fst (snd (check_rate_limit conf call s)) = maybe_cleanup conf (clock_sweep call) (fst s)
      \<and> fst (check_rate_limit conf call s) \<noteq> Allowed_in_memory)
   \<or> (fst (snd (check_rate_limit conf call s)) =
        snd (check_in_memory conf (call_client call) (clock_now call) (clock_later call)
          (maybe_cleanup conf (clock_sweep call) (fst s)))
      \<and> fst (check_rate_limit conf call s) =
        (if fst (check_in_memory conf (call_client call) (clock_now call) (clock_later call)
          (maybe_cleanup conf (clock_sweep call) (fst s))) then Allowed_in_memory else Too_many_requests))"
  unfolding check_rate_limit_def Let_def call_client_def
  by (auto split: option.splits prod.splits)

lemma check_rate_limit_memory:
  assumes ok: "memory_ok conf C client T (fst s)" and C: "finite C" "card C \<le> max_cache_size"
    and mem: "call_client call \<in> C"
    and R: "0 < rl_requests conf" and w: "0 \<le> window_us conf"
    and clocks: "T \<le> clock_sweep call" "clock_sweep call \<le> clock_now call" "clock_now call \<le> clock_later call"
  shows "(if passed_in_memory conf client a (call, fst (check_rate_limit conf call s)) then 1 else 0)
           + headroom (rl_requests conf) (window_us conf) a (clock_later call)
               (entry client (fst (snd (check_rate_limit conf call s))))
         \<le> headroom (rl_requests conf) (window_us conf) a T (entry client (fst s))
         \<and> memory_ok conf C client (clock_later call) (fst (snd (check_rate_limit conf call s)))"
proof -
  let ?R = "rl_requests conf" and ?w = "window_us conf" and ?c = "call_client call"
  let ?st = "maybe_cleanup conf (clock_sweep call) (fst s)"
  let ?m = "check_in_memory conf ?c (clock_now call) (clock_later call) ?st"
  note wf = ok [unfolded memory_ok_def]
  have wf1: "wf_dict (rl_cache ?st)"
    by (rule maybe_cleanup_wf) (use wf in simp)
  have keys1: "fst ` set (rl_cache ?st) \<subseteq> C"
    by (rule subset_trans [OF maybe_cleanup_keys]) (use wf in simp)
  have swept: "headroom ?R ?w a (clock_sweep call) (entry client ?st) \<le> headroom ?R ?w a T (entry client (fst s))
      \<and> entry_ok ?R (clock_sweep call) (entry client ?st)"
    by (rule maybe_cleanup_headroom [OF _ memory_ok_length [OF ok C] R _ clocks(1) w]) (use wf in simp_all)
  then have ok1: "entry_ok ?R (clock_sweep call) (entry client ?st)" by (rule conjunct2)
  have le: "clock_sweep call \<le> clock_later call" using clocks(2,3) by (rule order_trans)
  have still: "headroom ?R ?w a (clock_later call) (entry client ?st) \<le> headroom ?R ?w a T (entry client (fst s))"
    using headroom_later [OF R ok1 le, of ?w a] swept by (rule order_trans [OF _ conjunct1])
  have ok2: "entry_ok ?R (clock_later call) (entry client ?st)"
    by (rule entry_ok_later [OF ok1 le])
  have step: "(if client = ?c \<and> fst ?m then in_interval ?w a (clock_now call) else 0)
      + headroom ?R ?w a (clock_later call) (entry client (snd ?m)) \<le> headroom ?R ?w a T (entry client (fst s))
      \<and> entry_ok ?R (clock_later call) (entry client (snd ?m))"
  proof (cases "client = ?c")
    case True
    then show ?thesis
      using check_in_memory_headroom [OF R ok1 clocks(2,3) w, of a] swept by simp
  next
    case False
    then have "entry client (snd ?m) = entry client ?st" by (intro check_in_memory_other) simp
    then show ?thesis using False still ok2 by simp
  qed
  have "insert ?c (fst ` set (rl_cache ?st)) \<subseteq> C" using keys1 mem by simp
  then have m2: "wf_dict (rl_cache (snd ?m)) \<and> fst ` set (rl_cache (snd ?m)) \<subseteq> C"
    by (intro conjI check_in_memory_wf [OF wf1] subset_trans [OF check_in_memory_keys])
  show ?thesis
    using check_rate_limit_cases [of conf call s]
  proof (elim disjE conjE)
    assume "fst (snd (check_rate_limit conf call s)) = ?st"
      and "fst (check_rate_limit conf call s) \<noteq> Allowed_in_memory"
    then show ?thesis using still ok2 wf1 keys1 by (simp add: passed_in_memory_def memory_ok_def)
  next
    assume st2: "fst (snd (check_rate_limit conf call s)) = snd ?m"
      and ans: "fst (check_rate_limit conf call s) = (if fst ?m then Allowed_in_memory else Too_many_requests)"
    have "(if passed_in_memory conf client a (call, fst (check_rate_limit conf call s)) then 1 else 0) =
        (if client = ?c \<and> fst ?m then in_interval ?w a (clock_now call) else 0)"
      using ans by (auto simp: passed_in_memory_def in_interval_def)
    then show ?thesis using st2 step m2 by (simp add: memory_ok_def)
  qed
qed

subsection \<open>By the database\<close>

text \<open>
  \<open>rows_left R b S e\<close>: how often the row of the window \<open>b\<close> can still let its client through,
  when the windows to come start at \<open>S\<close> or later.
\<close>

definition rows_left :: "int \<Rightarrow> int \<Rightarrow> int \<Rightarrow> int option \<Rightarrow> int" where
  "rows_left R b S e =
     (if S > b then 0 else case e of None \<Rightarrow> R | Some n \<Rightarrow> if n \<le> R then R - n else 0)"

lemma rows_left_nonneg: "0 \<le> R \<Longrightarrow> 0 \<le> rows_left R b S e"
  by (simp add: rows_left_def split: option.splits)

lemma rows_left_later: "0 \<le> R \<Longrightarrow> S \<le> S' \<Longrightarrow> rows_left R b S' e \<le> rows_left R b S e"
  by (simp add: rows_left_def split: option.splits)

lemma check_via_db_table:
  "snd (check_via_db conf fate seen client start tab) \<in>
     {tab, snd (bump_counter client start tab),
      sweep_counters (start - 2 * window_us conf) (snd (bump_counter client start tab))}"
  by (simp add: check_via_db_def Let_def split: prod.splits)

lemma map_of_sweep:
  "map_of (sweep_counters limit tab) (c, b) = (if b < limit then None else map_of tab (c, b))"
  by (induction tab) (auto simp: sweep_counters_def)

lemma map_of_bump:
  "map_of (snd (bump_counter client start tab)) k =
     (if k = (client, start)
      then Some (case map_of tab (client, start) of None \<Rightarrow> 1 | Some n \<Rightarrow> n + 1)
      else map_of tab k)"
  by (simp add: bump_counter_def Let_def update_conv')

lemma check_via_db_rows:
  assumes "0 < rl_requests conf" and "0 \<le> window_us conf" and "S \<le> start"
  shows "(if fst (check_via_db conf fate seen client' start tab) = Some True \<and> client' = client \<and> start = b
          then 1 else 0)
         + rows_left (rl_requests conf) b start (map_of (snd (check_via_db conf fate seen client' start tab)) (client, b))
       \<le> rows_left (rl_requests conf) b S (map_of tab (client, b))"
proof -
  let ?k = "map_of tab (client, b)" and ?R = "rl_requests conf"
  let ?new = "case map_of tab (client', start) of None \<Rightarrow> 1 | Some n \<Rightarrow> n + 1"
  note later = rows_left_later [OF less_imp_le [OF assms(1)] assms(3), of b]
  show ?thesis
  proof (cases "client' = client \<and> start = b")
    case True
    have bumped: "map_of (snd (check_via_db conf fate seen client' start tab)) (client, b) \<in> {?k, Some ?new}"
      using check_via_db_table [of conf fate seen client' start tab] assms(2) True
      by (auto simp: map_of_bump map_of_sweep)
    have passed: "fst (check_via_db conf fate seen client' start tab) = Some True \<Longrightarrow>
        ?new \<le> ?R \<and> map_of (snd (check_via_db conf fate seen client' start tab)) (client, b) = Some ?new"
      using assms(2) True
      by (auto simp: check_via_db_def Let_def bump_counter_def map_of_sweep update_conv'
          split: if_splits option.splits)
    show ?thesis
      using bumped passed later [of ?k] True assms(1,3)
      by (auto simp: rows_left_def split: option.splits if_splits)
  next
    case False
    then have other: "map_of (snd (bump_counter client' start tab)) (client, b) = ?k"
      by (auto simp: map_of_bump)
    have "rows_left ?R b start (map_of (snd (check_via_db conf fate seen client' start tab)) (client, b))
        \<le> rows_left ?R b start ?k"
      using check_via_db_table [of conf fate seen client' start tab] assms(2) other
      by (auto simp: map_of_sweep rows_left_def)
    then show ?thesis using False later [of ?k] by auto
  qed
qed

lemma whole_seconds_mono: "u \<le> v \<Longrightarrow> whole_seconds u \<le> whole_seconds v"
proof -
  assume uv: "u \<le> v"
  have "- (- d div us_per_second) \<le> 0" if "d < 0" for d
    using that by (simp add: us_per_second_def pos_imp_zdiv_nonneg_iff)
  moreover have "0 \<le> d div us_per_second" if "0 \<le> d" for d
    using that by (simp add: us_per_second_def pos_imp_zdiv_nonneg_iff)
  moreover have "d div us_per_second \<le> e div us_per_second" if "d \<le> e" for d e :: int
    using that by (simp add: us_per_second_def zdiv_mono1)
  ultimately show ?thesis
    using uv unfolding whole_seconds_def Let_def by (smt (verit))
qed

lemma current_window_start_mono:
  assumes "0 < rl_window conf" and "u \<le> v"
    and "current_window_start conf u = Some a" and "current_window_start conf v = Some b"
  shows "a \<le> b"
proof -
  have "whole_seconds u div rl_window conf \<le> whole_seconds v div rl_window conf"
    using assms(1,2) by (simp add: whole_seconds_mono zdiv_mono1)
  then have "whole_seconds u div rl_window conf * rl_window conf \<le> whole_seconds v div rl_window conf * rl_window conf"
    using assms(1) by (simp add: mult_right_mono)
  then show ?thesis
    using assms by (auto simp: current_window_start_def from_timestamp_def in_range_def us_per_second_def
        split: if_splits)
qed

lemma check_rate_limit_table:
  "snd (snd (check_rate_limit conf call s)) =
     (case current_window_start conf (clock_now call) of
        None \<Rightarrow> snd s
      | Some start \<Rightarrow>
          snd (check_via_db conf (call_fate call) (rl_count (maybe_cleanup conf (clock_sweep call) (fst s)))
            (call_client call) start (snd s)))"
  "passed_by_db conf client b (call, fst (check_rate_limit conf call s)) =
     (case current_window_start conf (clock_now call) of
        None \<Rightarrow> False
      | Some start \<Rightarrow>
          fst (check_via_db conf (call_fate call) (rl_count (maybe_cleanup conf (clock_sweep call) (fst s)))
            (call_client call) start (snd s)) = Some True \<and> call_client call = client \<and> start = b)"
  unfolding check_rate_limit_def Let_def call_client_def [symmetric] passed_by_db_def
  by (auto split: option.splits prod.splits bool.splits)

lemma check_rate_limit_db:
  assumes "0 < rl_requests conf" and "0 \<le> window_us conf"
    and "\<And>start. current_window_start conf (clock_now call) = Some start \<Longrightarrow> S \<le> start \<and> start = S'"
    and "current_window_start conf (clock_now call) = None \<Longrightarrow> S' = S"
  shows "(if passed_by_db conf client b (call, fst (check_rate_limit conf call s)) then 1 else 0)
       + rows_left (rl_requests conf) b S' (map_of (snd (snd (check_rate_limit conf call s))) (client, b))
     \<le> rows_left (rl_requests conf) b S (map_of (snd s) (client, b))"
proof (cases "current_window_start conf (clock_now call)")
  case None
  then show ?thesis using assms(4) by (simp add: check_rate_limit_table)
next
  case (Some start)
  then show ?thesis
    using check_via_db_rows [OF assms(1,2), of S start] assms(3) [OF Some]
    by (simp add: check_rate_limit_table)
qed

subsection \<open>Over a sequence of requests\<close>

lemma rl_run_memory:
  assumes "0 < rl_requests conf" and "0 \<le> window_us conf" and "finite C" and "card C \<le> max_cache_size"
  shows "memory_ok conf C client T (fst s) \<Longrightarrow> sorted (T # concat (map call_clocks calls)) \<Longrightarrow>
     call_client ` set calls \<subseteq> C \<Longrightarrow>
     int (length (filter (passed_in_memory conf client a) (zip calls (fst (rl_run conf calls s)))))
       \<le> headroom (rl_requests conf) (window_us conf) a T (entry client (fst s))"
proof (induction calls arbitrary: s T)
  case Nil
  then have "entry_ok (rl_requests conf) T (entry client (fst s))" by (simp add: memory_ok_def)
  then show ?case using headroom_nonneg [OF assms(1)] by simp
next
  case (Cons call calls)
  have clocks: "T \<le> clock_sweep call" "clock_sweep call \<le> clock_now call" "clock_now call \<le> clock_later call"
    "sorted (clock_later call # concat (map call_clocks calls))"
    using Cons.prems(2) by (simp_all add: call_clocks_def [of call])
  note step = check_rate_limit_memory [OF Cons.prems(1) assms(3,4) _ assms(1,2) clocks(1-3), of a]
  have "call_client call \<in> C" "call_client ` set calls \<subseteq> C" using Cons.prems(3) by auto
  then show ?case
    using Cons.IH [OF conjunct2 [OF step] clocks(4)] conjunct1 [OF step]
    by (auto simp: rl_run_Cons split: if_splits)
qed

lemma rl_run_db:
  assumes "0 < rl_requests conf" and "0 < rl_window conf"
  shows "sorted (T # concat (map call_clocks calls)) \<Longrightarrow>
     (\<And>v start. T \<le> v \<Longrightarrow> current_window_start conf v = Some start \<Longrightarrow> S \<le> start) \<Longrightarrow>
     int (length (filter (passed_by_db conf client b) (zip calls (fst (rl_run conf calls s)))))
       \<le> rows_left (rl_requests conf) b S (map_of (snd s) (client, b))"
proof (induction calls arbitrary: s T S)
  case Nil
  then show ?case using assms(1) by (simp add: rows_left_nonneg)
next
  case (Cons call calls)
  let ?now = "clock_now call"
  let ?S = "case current_window_start conf ?now of None \<Rightarrow> S | Some start \<Rightarrow> start"
  have now: "T \<le> ?now" "?now \<le> clock_later call" "sorted (clock_later call # concat (map call_clocks calls))"
    using Cons.prems(1) by (simp_all add: call_clocks_def [of call])
  have w: "0 \<le> window_us conf" using assms(2) by (simp add: window_us_def us_per_second_def)
  have later: "?S \<le> start" if "clock_later call \<le> v" "current_window_start conf v = Some start" for v start
    using that now Cons.prems(2) [of v start] current_window_start_mono [OF assms(2), of ?now v _ start]
    by (simp split: option.splits)
  have "(if passed_by_db conf client b (call, fst (check_rate_limit conf call s)) then 1 else 0)
       + rows_left (rl_requests conf) b ?S (map_of (snd (snd (check_rate_limit conf call s))) (client, b))
     \<le> rows_left (rl_requests conf) b S (map_of (snd s) (client, b))"
    by (rule check_rate_limit_db [OF assms(1) w]) (use Cons.prems(2) now(1) in simp_all)
  then show ?case
    using Cons.IH [OF now(3), of ?S "snd (check_rate_limit conf call s)"] later
    by (auto simp: rl_run_Cons split: if_splits)
qed

text \<open>
  C10: How many requests of one client get through, whatever happens to the database. Over any
  sequence of requests whose clock readings do not go back, from no more clients than the cache
  holds: the database path lets at most \<open>requests\<close> of them through in each of its windows, and the
  in-memory fallback at most twice \<open>requests\<close> in any interval of one window's length (a window that
  is running when the interval begins, and one that opens in it).
\<close>

theorem rate_limit_bound:
  assumes "0 < rl_requests conf" and "0 < rl_window conf"
    and "sorted (concat (map call_clocks calls))"
    and "card (set (map call_client calls)) \<le> max_cache_size"
  shows "int (length (filter (passed_by_db conf client b) (zip calls (fst (rl_run conf calls (rl_init, []))))))
           \<le> rl_requests conf
       \<and> int (length (filter (passed_in_memory conf client a) (zip calls (fst (rl_run conf calls (rl_init, []))))))
           \<le> 2 * rl_requests conf"
proof
  define T where "T = (case calls of [] \<Rightarrow> 0 | c # _ \<Rightarrow> clock_sweep c)"
  have T: "sorted (T # concat (map call_clocks calls))"
    using assms(3) by (cases calls) (auto simp: T_def call_clocks_def [of "hd calls"] call_clocks_def)
  have start: "0 \<le> st" if "current_window_start conf v = Some st" for v st
    using that by (auto simp: current_window_start_def from_timestamp_def split: if_splits
        dest: in_range_bounds)
  show "int (length (filter (passed_by_db conf client b) (zip calls (fst (rl_run conf calls (rl_init, []))))))
      \<le> rl_requests conf"
    using rl_run_db [OF assms(1,2) T, of 0 client b "(rl_init, [])"] start assms(1)
    by (simp add: rows_left_def split: if_splits)
  have w: "0 \<le> window_us conf" using assms(2) by (simp add: window_us_def us_per_second_def)
  have "memory_ok conf (call_client ` set calls) client T (fst (rl_init, []))"
    by (simp add: memory_ok_def rl_init_def entry_ok_def)
  then show "int (length (filter (passed_in_memory conf client a) (zip calls (fst (rl_run conf calls (rl_init, []))))))
      \<le> 2 * rl_requests conf"
    using rl_run_memory [OF assms(1) w _ _ _ T, of "call_client ` set calls" client "(rl_init, [])" a] assms(1,4)
    by (simp add: rl_init_def headroom_def split: if_splits)
qed

definition burst_call :: "int \<Rightarrow> db_fate \<Rightarrow> rl_call" where
  "burst_call t fate =
     \<lparr>call_request = \<lparr>peer_host = Some ''8.8.8.8'', forwarded_header = None, real_ip_header = None\<rparr>,
      clock_sweep = t, clock_now = t + 1, clock_later = t + 2, call_fate = fate\<rparr>"

definition burst :: "rl_call list" where
  "burst = [burst_call 63000000000000000 Committed, burst_call 63000000000000010 Rolled_back,
            burst_call 63000000000000020 Rolled_back, burst_call 63000000000000030 Committed]"

lemma rate_limit_bound_witness:
  "int (length (filter (passed_by_db \<lparr>rl_requests = 1, rl_window = 60\<rparr> ''8.8.8.8'' 63000000000000000)
       (zip burst (fst (rl_run \<lparr>rl_requests = 1, rl_window = 60\<rparr> burst (rl_init, [])))))) \<le> 1
   \<and> fst (rl_run \<lparr>rl_requests = 1, rl_window = 60\<rparr> burst (rl_init, [])) =
       [Allowed_by_db, Allowed_in_memory, Too_many_requests, Too_many_requests]"
proof
  have "sorted (concat (map call_clocks burst))" by code_simp
  moreover have "card (set (map call_client burst)) \<le> max_cache_size"
    using card_length [of "map call_client burst"] by (simp add: burst_def max_cache_size_def)
  ultimately show "int (length (filter (passed_by_db \<lparr>rl_requests = 1, rl_window = 60\<rparr> ''8.8.8.8'' 63000000000000000)
       (zip burst (fst (rl_run \<lparr>rl_requests = 1, rl_window = 60\<rparr> burst (rl_init, [])))))) \<le> 1"
    using rate_limit_bound [of "\<lparr>rl_requests = 1, rl_window = 60\<rparr>" burst "''8.8.8.8''" 63000000000000000]
    by simp
  show "fst (rl_run \<lparr>rl_requests = 1, rl_window = 60\<rparr> burst (rl_init, [])) =
       [Allowed_by_db, Allowed_in_memory, Too_many_requests, Too_many_requests]"
    by code_simp
qed

end
