(* ===== verification/Py_Urlsplit.thy ===== *)
theory Py_Urlsplit
  imports Py_Ipaddress
begin

text \<open>
  The part of Python 3.11's \<open>urllib.parse\<close> the URL guards rest on: \<open>urlsplit\<close> down to the scheme
  and the authority, and the properties \<open>username\<close>, \<open>hostname\<close> and \<open>port\<close> of its result. The
  NFKC check of the authority never fires on the Latin-1 strings of the model: none of their
  compatibility decompositions contains a delimiter.
\<close>

record split_url =
  url_scheme :: string
  url_netloc :: string

text \<open>\<open>s.partition(c)\<close>: the text before and after the first \<open>c\<close>\<close>

definition before_char :: "char \<Rightarrow> string \<Rightarrow> string" where
  "before_char c s = takeWhile (\<lambda>x. x \<noteq> c) s"

definition after_char :: "char \<Rightarrow> string \<Rightarrow> string" where
  "after_char c s = tl (dropWhile (\<lambda>x. x \<noteq> c) s)"

definition after_last_char :: "char \<Rightarrow> string \<Rightarrow> string" where
  "after_last_char c s = rev (takeWhile (\<lambda>x. x \<noteq> c) (rev s))"

definition is_ascii_alpha :: "char \<Rightarrow> bool" where
  "is_ascii_alpha c =
     (let n = (of_char c :: nat) in (65 \<le> n \<and> n \<le> 90) \<or> (97 \<le> n \<and> n \<le> 122))"

definition scheme_char :: "char \<Rightarrow> bool" where
  "scheme_char c = (is_ascii_alpha c \<or> is_digit c \<or> c \<in> {CHR ''+'', CHR ''-'', CHR ''.''})"

text \<open>The scheme and what follows it, where the text before the first colon is a scheme\<close>

definition split_scheme :: "string \<Rightarrow> string \<times> string" where
  "split_scheme url =
     (let pre = before_char (CHR '':'') url
      in if CHR '':'' \<in> set url \<and> pre \<noteq> [] \<and> is_ascii_alpha (hd pre) \<and> list_all scheme_char pre
         then (py_lower pre, after_char (CHR '':'') url)
         else ([], url))"

text \<open>\<open>_check_bracketed_host\<close>: an IPvFuture literal or an IPv6 address\<close>

definition ipv_future :: "string \<Rightarrow> bool" where
  "ipv_future s =
     (let hex = takeWhile (\<lambda>c. hex_val c \<noteq> None) (tl s); rest = dropWhile (\<lambda>c. hex_val c \<noteq> None) (tl s)
      in s \<noteq> [] \<and> hd s = CHR ''v'' \<and> hex \<noteq> [] \<and> rest \<noteq> [] \<and> hd rest = CHR ''.''
         \<and> tl rest \<noteq> [] \<and> char_of (10 :: nat) \<notin> set (tl rest))"

definition bracketed_host_ok :: "string \<Rightarrow> bool" where
  "bracketed_host_ok h =
     (if starts_with h ''v'' then ipv_future h
      else (case ip_address h of Some (V6 _) \<Rightarrow> True | _ \<Rightarrow> False))"

definition brackets_ok :: "string \<Rightarrow> bool" where
  "brackets_ok netloc =
     (if CHR ''['' \<in> set netloc \<and> CHR '']'' \<in> set netloc
      then bracketed_host_ok (before_char (CHR '']'') (after_char (CHR ''['') netloc))
      else CHR ''['' \<notin> set netloc \<and> CHR '']'' \<notin> set netloc)"

definition urlsplit :: "string \<Rightarrow> split_url option" where
  "urlsplit url =
     (let url = dropWhile (\<lambda>c. (of_char c :: nat) \<le> 32) url;
          url = filter (\<lambda>c. (of_char c :: nat) \<notin> {9, 10, 13}) url;
          (scheme, rest) = split_scheme url;
          netloc = (if starts_with rest ''//''
                    then takeWhile (\<lambda>c. c \<notin> {CHR ''/'', CHR ''?'', CHR ''#''}) (drop 2 rest)
                    else [])
      in if brackets_ok netloc then Some \<lparr>url_scheme = scheme, url_netloc = netloc\<rparr> else None)"

text \<open>\<open>urlparse(url).query\<close>: between the first question mark and the fragment; \<open>None\<close> where it raises\<close>

definition url_query :: "string \<Rightarrow> string option" where
  "url_query url0 =
     (case urlsplit url0 of
        None \<Rightarrow> None
      | Some _ \<Rightarrow>
          (let url = filter (\<lambda>c. (of_char c :: nat) \<notin> {9, 10, 13}) (dropWhile (\<lambda>c. (of_char c :: nat) \<le> 32) url0);
               after_scheme = snd (split_scheme url);
               path = (if starts_with after_scheme ''//''
                       then dropWhile (\<lambda>c. c \<notin> {CHR ''/'', CHR ''?'', CHR ''#''}) (drop 2 after_scheme)
                       else after_scheme)
           in Some (after_char (CHR ''?'') (before_char (CHR ''#'') path))))"

section \<open>The properties of the result\<close>

definition has_userinfo :: "split_url \<Rightarrow> bool" where
  "has_userinfo u = (CHR ''@'' \<in> set (url_netloc u))"

definition hostinfo :: "split_url \<Rightarrow> string \<times> string" where
  "hostinfo u =
     (let h = after_last_char (CHR ''@'') (url_netloc u)
      in if CHR ''['' \<in> set h
         then (let b = after_char (CHR ''['') h
               in (before_char (CHR '']'') b, after_char (CHR '':'') (after_char (CHR '']'') b)))
         else (before_char (CHR '':'') h, after_char (CHR '':'') h))"

text \<open>\<open>hostname\<close>: lower-cased up to a zone id, \<open>None\<close> where it is empty\<close>

definition url_hostname :: "split_url \<Rightarrow> string option" where
  "url_hostname u =
     (let h = fst (hostinfo u)
      in if h = [] then None
         else Some (py_lower (before_char (CHR ''%'') h) @ drop (length (before_char (CHR ''%'') h)) h))"

text \<open>\<open>port\<close>: \<open>None\<close> is the \<open>ValueError\<close>\<close>

definition url_port :: "split_url \<Rightarrow> int option option" where
  "url_port u =
     (let p = snd (hostinfo u)
      in if p = [] then Some None
         else if list_all is_digit p \<and> int (digits_val p) \<le> 65535 then Some (Some (int (digits_val p)))
         else None)"

end
