(* ===== verification/Endpoint_Guard.thy ===== *)
theory Endpoint_Guard
  imports Py_Urlsplit
begin

text \<open>
  The guards in front of every outbound request to an address a user configured:
  \<open>services/course/chaoxing/endpoint_security.py\<close> for answer providers, whose rejection is the
  one exception \<open>UnsafeEndpointError\<close> (here \<open>None\<close>), and \<open>validate_notification_url\<close> of
  \<open>services/notification/providers.py\<close> for webhooks, whose rejection is \<open>False\<close>.

  Name resolution is a parameter: what \<open>getaddrinfo\<close> answers for a host, \<open>None\<close> where it raises,
  with \<open>None\<close> for an entry that carries no address text.
\<close>

type_synonym resolver = "string \<Rightarrow> string option list option"

definition backslash :: char where "backslash = char_of (92 :: nat)"

definition blocked_hostnames :: "string list" where
  "blocked_hostnames =
     [''localhost'', ''metadata'', ''metadata.google.internal'', ''metadata.azure.com'',
      ''instance-data.ec2.internal'']"

definition rstrip_dots :: "string \<Rightarrow> string" where
  "rstrip_dots s = rev (dropWhile (\<lambda>c. c = CHR ''.'') (rev s))"

section \<open>Answer-provider endpoints\<close>

definition is_public_ip :: "ip \<Rightarrow> bool" where
  "is_public_ip a =
     (if ipv4_mapped a \<noteq> None then False
      else is_global a \<and> \<not> is_loopback a \<and> \<not> is_private a \<and> \<not> is_link_local a
           \<and> \<not> is_multicast a \<and> \<not> is_unspecified a \<and> \<not> is_reserved a)"

definition resolved_addresses :: "resolver \<Rightarrow> string \<Rightarrow> ip list option" where
  "resolved_addresses resolve host =
     (case resolve host of
        None \<Rightarrow> None
      | Some infos \<Rightarrow>
          (case parse_all (\<lambda>info. Option.bind info ip_address) infos of
             None \<Rightarrow> None
           | Some addresses \<Rightarrow> if addresses = [] then None else Some addresses))"

definition endpoint_addresses :: "resolver \<Rightarrow> string \<Rightarrow> ip list option" where
  "endpoint_addresses resolve host =
     (case ip_address host of Some literal \<Rightarrow> Some [literal] | None \<Rightarrow> resolved_addresses resolve host)"

definition assert_public_endpoint :: "resolver \<Rightarrow> pyval \<Rightarrow> string option" where
  "assert_public_endpoint resolve url =
     (case url of
        PStr s \<Rightarrow>
          (let normalized = py_strip s
           in if normalized = [] \<or> backslash \<in> set normalized then None
              else (case urlsplit normalized of
                      None \<Rightarrow> None
                    | Some parsed \<Rightarrow>
                        if url_port parsed = None \<or> has_userinfo parsed then None
                        else (case url_hostname parsed of
                                None \<Rightarrow> None
                              | Some hostname \<Rightarrow>
                                  (let host = py_lower (rstrip_dots hostname)
                                   in if py_lower (url_scheme parsed) \<notin> {''http'', ''https''}
                                         \<or> host = [] \<or> host \<in> set blocked_hostnames then None
                                      else (case endpoint_addresses resolve host of
                                              None \<Rightarrow> None
                                            | Some addresses \<Rightarrow>
                                                if list_all is_public_ip addresses then Some normalized
                                                else None)))))
      | _ \<Rightarrow> None)"

definition is_public_endpoint :: "resolver \<Rightarrow> pyval \<Rightarrow> bool" where
  "is_public_endpoint resolve url = (assert_public_endpoint resolve url \<noteq> None)"

text \<open>\<open>_configured_value\<close>: \<open>None\<close> is the rejection, \<open>Some None\<close> an absent or blank value\<close>

definition configured_value :: "pydict \<Rightarrow> string \<Rightarrow> string option option" where
  "configured_value config key =
     (case dget config key of
        PNone \<Rightarrow> Some None
      | PStr s \<Rightarrow> if py_strip s = [] then Some None else Some (Some s)
      | _ \<Rightarrow> None)"

text \<open>A URL that has to be there, and one that may be\<close>

definition required_url :: "resolver \<Rightarrow> pydict \<Rightarrow> string \<Rightarrow> bool" where
  "required_url resolve config key =
     (case configured_value config key of
        Some (Some s) \<Rightarrow> is_public_endpoint resolve (PStr s)
      | _ \<Rightarrow> False)"

definition optional_url :: "resolver \<Rightarrow> pydict \<Rightarrow> string \<Rightarrow> bool" where
  "optional_url resolve config key =
     (case configured_value config key of
        None \<Rightarrow> False
      | Some None \<Rightarrow> True
      | Some (Some s) \<Rightarrow> is_public_endpoint resolve (PStr s))"

definition provider_names :: "pydict \<Rightarrow> string list" where
  "provider_names config =
     filter (\<lambda>n. n \<noteq> []) (map py_strip (split_on (CHR '','') (str_or_empty (dget config ''provider''))))"

definition validate_tiku_config :: "resolver \<Rightarrow> pyval \<Rightarrow> bool" where
  "validate_tiku_config resolve config =
     (case config of
        PNone \<Rightarrow> True
      | PDict d \<Rightarrow>
          (let providers = provider_names d
           in (if ''TikuAdapter'' \<in> set providers then required_url resolve d ''url''
               else optional_url resolve d ''url'')
              \<and> (if ''AI'' \<in> set providers then required_url resolve d ''endpoint''
                 else optional_url resolve d ''endpoint'')
              \<and> (map_of d ''siliconflow_endpoint'' \<noteq> None \<longrightarrow> required_url resolve d ''siliconflow_endpoint'')
              \<and> optional_url resolve d ''http_proxy'')
      | _ \<Rightarrow> False)"

section \<open>Notification webhooks\<close>

definition is_blocked_ip :: "ip \<Rightarrow> bool" where
  "is_blocked_ip a =
     (if ipv4_mapped a \<noteq> None then True
      else \<not> is_global a \<or> is_private a \<or> is_loopback a \<or> is_link_local a \<or> is_reserved a
           \<or> is_multicast a \<or> is_unspecified a)"

text \<open>
  The checks on the URL as text. The decoded authority needs no clause of its own: an authority
  with a percent sign is rejected, and one without is its own decoding.
\<close>

definition notification_authority_ok :: "split_url \<Rightarrow> bool" where
  "notification_authority_ok parsed =
     (let authority = url_netloc parsed
      in \<not> ends_with authority '':''
         \<and> CHR ''@'' \<notin> set authority \<and> backslash \<notin> set authority \<and> CHR ''%'' \<notin> set authority
         \<and> (case url_port parsed of None \<Rightarrow> False | Some None \<Rightarrow> True | Some (Some p) \<Rightarrow> 1 \<le> p \<and> p \<le> 65535))"

definition notification_host_ok :: "resolver \<Rightarrow> split_url \<Rightarrow> bool" where
  "notification_host_ok resolve parsed =
     (case url_hostname parsed of
        None \<Rightarrow> False
      | Some hostname \<Rightarrow>
          (let normalized_hostname = py_lower (rstrip_dots hostname)
           in if normalized_hostname = [] \<or> normalized_hostname \<in> set blocked_hostnames then False
              else (case ip_address hostname of
                      Some literal_ip \<Rightarrow> \<not> is_blocked_ip literal_ip
                    | None \<Rightarrow>
                        (case resolve hostname of
                           None \<Rightarrow> False
                         | Some infos \<Rightarrow>
                             infos \<noteq> []
                             \<and> list_all (\<lambda>info. case Option.bind info ip_address of
                                            None \<Rightarrow> False
                                          | Some resolved \<Rightarrow> \<not> is_blocked_ip resolved) infos))))"

definition validate_notification_url :: "resolver \<Rightarrow> string option \<Rightarrow> bool" where
  "validate_notification_url resolve url =
     (case url of
        None \<Rightarrow> False
      | Some s \<Rightarrow>
          (let normalized_url = py_strip s
           in if normalized_url = [] \<or> backslash \<in> set normalized_url
                 \<or> contains (py_lower normalized_url) ''%5c''
                 \<or> list_ex (\<lambda>c. (of_char c :: nat) < 32 \<or> (of_char c :: nat) = 127) normalized_url
              then False
              else (case urlsplit normalized_url of
                      None \<Rightarrow> False
                    | Some parsed \<Rightarrow>
                        url_scheme parsed \<in> {''http'', ''https''}
                        \<and> notification_authority_ok parsed \<and> notification_host_ok resolve parsed)))"

section \<open>Internal addresses\<close>

text \<open>
  What must not be reachable, written over the octets of a dotted quad and the leading bits of an
  IPv6 address: this network, the private and shared ranges, loopback, link-local (the cloud
  metadata services), multicast and reserved space; and for IPv6 also every IPv4-mapped address.
\<close>

definition internal_v4 :: "32 word \<Rightarrow> bool" where
  "internal_v4 w =
     (let n = uint w; a = n div 16777216; b = n div 65536 mod 256
      in a \<in> {0, 10, 127} \<or> 224 \<le> a \<or> (a = 169 \<and> b = 254) \<or> (a = 172 \<and> 16 \<le> b \<and> b \<le> 31)
         \<or> (a = 192 \<and> b = 168) \<or> (a = 100 \<and> 64 \<le> b \<and> b \<le> 127))"

definition internal_v6 :: "128 word \<Rightarrow> bool" where
  "internal_v6 w =
     (w = 0 \<or> w = 1 \<or> drop_bit 32 w = 0xffff
      \<or> drop_bit 121 w = 0x7e \<or> drop_bit 118 w = 0x3fa \<or> drop_bit 120 w = 0xff)"

definition internal_address :: "ip \<Rightarrow> bool" where
  "internal_address a = (case a of V4 w \<Rightarrow> internal_v4 w | V6 w \<Rightarrow> internal_v6 w)"

lemma take_bit_uint32: "take_bit 32 (uint (a :: 32 word)) = uint a"
  using take_bit_int_eq_self [of "uint a" 32] uint_bounded [of a] by simp

lemma in_net_div:
  "in_net (a :: 32 word) (n, k) \<longleftrightarrow> uint a div 2 ^ (32 - k) = uint n div 2 ^ (32 - k)"
  unfolding in_net_def fst_conv snd_conv word_uint_eq_iff unsigned_drop_bit_eq
  by (simp add: drop_bit_eq_div take_bit_uint32)

lemma div_in_range: "q * k \<le> m \<Longrightarrow> m < (q + 1) * k \<Longrightarrow> m div k = q" for m :: int
  by (rule int_div_pos_eq [of m k q "m - k * q"]) (simp_all add: algebra_simps)

lemma uint_quads:
  "uint (quad 0 0 0 0) = 0" "uint (quad 10 0 0 0) = 167772160" "uint (quad 127 0 0 0) = 2130706432"
  "uint (quad 169 254 0 0) = 2851995648" "uint (quad 172 16 0 0) = 2886729728"
  "uint (quad 192 168 0 0) = 3232235520" "uint (quad 224 0 0 0) = 3758096384"
  "uint (quad 240 0 0 0) = 4026531840" "uint (quad 100 64 0 0) = 1681915904"
  "uint (quad 192 0 0 9) = 3221225481" "uint (quad 192 0 0 10) = 3221225482"
  by (simp_all add: quad_def)

lemma v4_private_octets:
  assumes "uint w div 16777216 \<in> {0, 10, 127}
     \<or> (uint w div 16777216 = 169 \<and> uint w div 65536 mod 256 = 254)
     \<or> (uint w div 16777216 = 172 \<and> 16 \<le> uint w div 65536 mod 256 \<and> uint w div 65536 mod 256 \<le> 31)
     \<or> (uint w div 16777216 = 192 \<and> uint w div 65536 mod 256 = 168)"
  shows "v4_private w"
proof -
  let ?n = "uint w"
  have octets: "?n div 65536 = ?n div 16777216 * 256 + ?n div 65536 mod 256"
    using zdiv_zmult2_eq [of 256 ?n 65536] by simp
  have twelve: "?n div 1048576 = ?n div 65536 div 16"
    using zdiv_zmult2_eq [of 16 ?n 65536] by simp
  have "?n div 65536 div 16 = 2753"
    if "?n div 16777216 = 172" "16 \<le> ?n div 65536 mod 256" "?n div 65536 mod 256 \<le> 31"
    by (rule div_in_range) (use that octets in simp_all)
  then have "in_net w (quad 0 0 0 0, 8) \<or> in_net w (quad 10 0 0 0, 8) \<or> in_net w (quad 127 0 0 0, 8)
      \<or> in_net w (quad 169 254 0 0, 16) \<or> in_net w (quad 172 16 0 0, 12) \<or> in_net w (quad 192 168 0 0, 16)"
    using assms octets by (auto simp: in_net_div uint_quads twelve)
  moreover have "\<not> in_net w (quad 192 0 0 9, 32)" "\<not> in_net w (quad 192 0 0 10, 32)"
    using assms by (auto simp: in_net_div uint_quads)
  ultimately show ?thesis
    unfolding v4_private_def v4_private_nets_def v4_private_exceptions_def by auto
qed

lemma internal_v4_not_public:
  assumes "internal_v4 w"
  shows "\<not> is_public_ip (V4 w)"
proof -
  consider "v4_private w"
    | "224 \<le> uint w div 16777216"
    | "uint w div 16777216 = 100" "64 \<le> uint w div 65536 mod 256" "uint w div 65536 mod 256 \<le> 127"
    using assms v4_private_octets [of w] unfolding internal_v4_def Let_def by auto
  then show ?thesis
  proof cases
    case 1
    then show ?thesis by (simp add: is_public_ip_def is_private_def)
  next
    case 2
    have "uint w < 4294967296" using uint_bounded [of w] by simp
    moreover have "uint w div 268435456 = uint w div 16777216 div 16"
      using zdiv_zmult2_eq [of 16 "uint w" 16777216] by simp
    ultimately have "uint w div 268435456 = 14 \<or> uint w div 268435456 = 15" using 2 by auto
    then have "in_net w (quad 224 0 0 0, 4) \<or> in_net w (quad 240 0 0 0, 4)"
      by (simp add: in_net_div uint_quads)
    then show ?thesis by (auto simp: is_public_ip_def is_multicast_def is_reserved_def)
  next
    case 3
    have "uint w div 65536 = uint w div 16777216 * 256 + uint w div 65536 mod 256"
      using zdiv_zmult2_eq [of 256 "uint w" 65536] by simp
    moreover have "uint w div 4194304 = uint w div 65536 div 64"
      using zdiv_zmult2_eq [of 64 "uint w" 65536] by simp
    moreover have "uint w div 65536 div 64 = 401"
      by (rule div_in_range) (use 3 calculation(1) in simp_all)
    ultimately have "in_net w (quad 100 64 0 0, 10)"
      by (simp add: in_net_div uint_quads)
    then show ?thesis by (simp add: is_public_ip_def is_global_def)
  qed
qed

lemma in_net_prefix:
  "in_net (a :: 128 word) (n, k) \<Longrightarrow> 128 - k \<le> j \<Longrightarrow> drop_bit j a = drop_bit j n"
  using drop_bit_drop_bit [of "j - (128 - k)" "128 - k" a] drop_bit_drop_bit [of "j - (128 - k)" "128 - k" n]
  by (simp add: in_net_def)

lemma unique_local_private:
  assumes "drop_bit 121 w = 0x7e"
  shows "list_ex (in_net w) v6_private_nets \<and> \<not> list_ex (in_net w) v6_private_exceptions"
proof -
  have heads: "drop_bit 121 (hextets [0x2001, 1, 0, 0, 0, 0, 0, 1]) = 0x10"
    "drop_bit 121 (hextets [0x2001, 1, 0, 0, 0, 0, 0, 2]) = 0x10" "drop_bit 121 (hextets [0x2001, 3]) = 0x10"
    "drop_bit 121 (hextets [0x2001, 4, 0x112]) = 0x10" "drop_bit 121 (hextets [0x2001, 0x20]) = 0x10"
    "drop_bit 121 (hextets [0x2001, 0x30]) = 0x10" "drop_bit 121 (hextets [0xfc00]) = 0x7e"
    by code_simp+
  have "in_net w (hextets [0xfc00], 7)" using assms heads by (simp add: in_net_def)
  moreover have "\<not> list_ex (in_net w) v6_private_exceptions"
    using assms heads by (auto simp: v6_private_exceptions_def dest!: in_net_prefix [where j = 121])
  ultimately show ?thesis by (simp add: v6_private_nets_def)
qed

lemma internal_v6_not_public:
  assumes "internal_v6 w"
  shows "\<not> is_public_ip (V6 w)"
proof -
  have nets: "drop_bit 118 (hextets [0xfe80]) = 0x3fa" "drop_bit 120 (hextets [0xff00]) = 0xff"
    by code_simp+
  show ?thesis
    using assms nets unique_local_private [of w]
    by (auto simp: internal_v6_def is_public_ip_def ipv4_mapped_def is_loopback_def is_unspecified_def
        is_link_local_def is_multicast_def is_private_def in_net_def)
qed

lemma internal_not_public: "internal_address a \<Longrightarrow> \<not> is_public_ip a"
  by (cases a) (auto simp: internal_address_def dest: internal_v4_not_public internal_v6_not_public)

lemma blocked_not_public: "is_blocked_ip a = (\<not> is_public_ip a)"
  by (auto simp: is_blocked_ip_def is_public_ip_def)

section \<open>What the guards let through\<close>

lemma parse_all_list_all:
  assumes "list_all (\<lambda>x. case f x of None \<Rightarrow> False | Some y \<Rightarrow> P y) xs"
  shows "\<exists>ys. parse_all f xs = Some ys \<and> list_all P ys \<and> length ys = length xs"
  using assms by (induction xs) (auto split: option.splits)

lemma resolved_addresses_nonempty: "resolved_addresses resolve host = Some as \<Longrightarrow> as \<noteq> []"
  by (auto simp: resolved_addresses_def split: option.splits if_splits)

lemma endpoint_addresses_nonempty: "endpoint_addresses resolve host = Some as \<Longrightarrow> as \<noteq> []"
  by (auto simp: endpoint_addresses_def resolved_addresses_nonempty split: option.splits)

text \<open>The conditions under which an endpoint is accepted\<close>

definition public_target :: "resolver \<Rightarrow> string \<Rightarrow> bool" where
  "public_target resolve u \<longleftrightarrow>
     backslash \<notin> set u
     \<and> (\<exists>parsed hostname as.
           urlsplit u = Some parsed \<and> py_lower (url_scheme parsed) \<in> {''http'', ''https''}
           \<and> CHR ''@'' \<notin> set (url_netloc parsed) \<and> url_port parsed \<noteq> None
           \<and> url_hostname parsed = Some hostname
           \<and> py_lower (rstrip_dots hostname) \<notin> set blocked_hostnames
           \<and> endpoint_addresses resolve (py_lower (rstrip_dots hostname)) = Some as
           \<and> as \<noteq> [] \<and> list_all is_public_ip as)"

lemma assert_public_endpoint_target:
  assumes "assert_public_endpoint resolve (PStr s) = Some u"
  shows "u = py_strip s \<and> public_target resolve u"
proof -
  have u: "u = py_strip s"
    using assms by (auto simp: assert_public_endpoint_def Let_def split: if_splits option.splits)
  obtain parsed where p: "urlsplit u = Some parsed"
    using assms u by (auto simp: assert_public_endpoint_def Let_def split: if_splits option.splits)
  obtain hostname where h: "url_hostname parsed = Some hostname"
    using assms u p by (auto simp: assert_public_endpoint_def Let_def split: if_splits option.splits)
  obtain as where "endpoint_addresses resolve (py_lower (rstrip_dots hostname)) = Some as"
    using assms u p h by (auto simp: assert_public_endpoint_def Let_def split: if_splits option.splits)
  then show ?thesis
    using assms u p h endpoint_addresses_nonempty [of resolve "py_lower (rstrip_dots hostname)" as]
    by (auto simp: public_target_def assert_public_endpoint_def Let_def has_userinfo_def
        split: if_splits)
qed

lemma optional_url_public:
  assumes "optional_url resolve d key \<or> required_url resolve d key" and "dget d key = PStr s" and "py_strip s \<noteq> []"
  shows "is_public_endpoint resolve (PStr s)"
  using assms by (auto simp: optional_url_def required_url_def configured_value_def split: option.splits)

lemma validated_url_public:
  assumes "validate_tiku_config resolve (PDict d)"
    and "key \<in> {''url'', ''endpoint'', ''siliconflow_endpoint'', ''http_proxy''}"
    and "dget d key = PStr s" and "py_strip s \<noteq> []"
  shows "is_public_endpoint resolve (PStr s)"
proof (rule optional_url_public [OF _ assms(3,4)])
  have "map_of d key \<noteq> None" using assms(3) by (auto simp: dget_def split: option.splits)
  then show "optional_url resolve d key \<or> required_url resolve d key"
    using assms(1,2) by (auto simp: validate_tiku_config_def Let_def split: if_splits)
qed

text \<open>
  C14: An admitted answer-provider configuration cannot reach into the internal network. Whatever
  the configuration selects, every URL in it that is not blank (the adapter's, the AI endpoint, the
  SiliconFlow endpoint and the proxy) is an HTTP(S) URL without user info or backslash, whose host
  stands for at least one address, none of which is private, shared, loopback, link-local,
  multicast, reserved or an IPv4-mapped literal.
\<close>

theorem tiku_config_reaches_public_only:
  assumes "validate_tiku_config resolve (PDict d)"
    and "key \<in> {''url'', ''endpoint'', ''siliconflow_endpoint'', ''http_proxy''}"
    and "dget d key = PStr s" and "py_strip s \<noteq> []"
  shows "\<exists>parsed hostname addresses.
           urlsplit (py_strip s) = Some parsed
           \<and> py_lower (url_scheme parsed) \<in> {''http'', ''https''}
           \<and> CHR ''@'' \<notin> set (url_netloc parsed) \<and> backslash \<notin> set (py_strip s)
           \<and> url_hostname parsed = Some hostname
           \<and> endpoint_addresses resolve (py_lower (rstrip_dots hostname)) = Some addresses
           \<and> addresses \<noteq> [] \<and> list_all (\<lambda>a. \<not> internal_address a) addresses"
proof -
  obtain u where "assert_public_endpoint resolve (PStr s) = Some u"
    using validated_url_public [OF assms] by (auto simp: is_public_endpoint_def)
  then have "public_target resolve (py_strip s)" using assert_public_endpoint_target by blast
  moreover have "list_all is_public_ip as \<Longrightarrow> list_all (\<lambda>a. \<not> internal_address a) as" for as
    using internal_not_public by (auto simp: list_all_iff)
  ultimately show ?thesis unfolding public_target_def by blast
qed

definition quiz_site :: resolver where
  "quiz_site host = (if host = ''tk.example.org'' then Some [Some ''93.184.216.34''] else None)"

lemma tiku_config_reaches_public_only_witness:
  "\<exists>parsed hostname addresses.
     urlsplit ''https://tk.example.org/adapter'' = Some parsed
     \<and> py_lower (url_scheme parsed) \<in> {''http'', ''https''}
     \<and> CHR ''@'' \<notin> set (url_netloc parsed) \<and> backslash \<notin> set ''https://tk.example.org/adapter''
     \<and> url_hostname parsed = Some hostname
     \<and> endpoint_addresses quiz_site (py_lower (rstrip_dots hostname)) = Some addresses
     \<and> addresses \<noteq> [] \<and> list_all (\<lambda>a. \<not> internal_address a) addresses"
proof -
  let ?d = "[(''provider'', PStr ''TikuAdapter''), (''url'', PStr '' https://tk.example.org/adapter'')]"
  have "validate_tiku_config quiz_site (PDict ?d)" by code_simp
  moreover have "dget ?d ''url'' = PStr '' https://tk.example.org/adapter''" by code_simp
  moreover have "py_strip '' https://tk.example.org/adapter'' = ''https://tk.example.org/adapter''"
    by code_simp
  ultimately show ?thesis
    using tiku_config_reaches_public_only [of quiz_site ?d "''url''" "'' https://tk.example.org/adapter''"]
    by simp
qed

section \<open>The two guards agree\<close>

lemma py_lower_char_idem: "py_lower_char (py_lower_char c) = py_lower_char c"
proof -
  define n where "n = (of_char c :: nat)"
  have "n < 256" by (simp add: n_def)
  then show ?thesis
    by (auto simp: py_lower_char_def Let_def n_def [symmetric])
qed

lemma py_lower_idem [simp]: "py_lower (py_lower s) = py_lower s"
  by (simp add: py_lower_def py_lower_char_idem)

lemma hostinfo_subset: "set (fst (hostinfo u)) \<subseteq> set (url_netloc u)"
proof -
  have "set (tl (dropWhile P xs)) \<subseteq> set xs" for P and xs :: string
    by (metis dropWhile_eq_drop drop_Suc set_drop_subset tl_drop)
  moreover have "set (takeWhile P xs) \<subseteq> set xs" for P and xs :: string
    by (auto dest: set_takeWhileD)
  ultimately show ?thesis
    unfolding hostinfo_def before_char_def after_char_def after_last_char_def Let_def
    by (smt (verit) fst_conv set_rev subset_trans)
qed

lemma url_hostname_lower:
  assumes "url_hostname u = Some h" and "CHR ''%'' \<notin> set (url_netloc u)"
  shows "py_lower h = h"
proof -
  have "CHR ''%'' \<notin> set (fst (hostinfo u))" using assms(2) hostinfo_subset by blast
  then have "before_char (CHR ''%'') (fst (hostinfo u)) = fst (hostinfo u)"
    by (auto simp: before_char_def takeWhile_eq_all_conv)
  then show ?thesis using assms(1) by (auto simp: url_hostname_def Let_def split: if_splits)
qed

lemma rstrip_dots_id: "\<not> ends_with h ''.'' \<Longrightarrow> rstrip_dots h = h"
  by (cases h rule: rev_cases) (simp_all add: rstrip_dots_def ends_with_def)

lemma notification_host_public:
  assumes "notification_host_ok resolve parsed" and "url_hostname parsed = Some h"
    and "py_lower h = h" and "\<not> ends_with h ''.''"
  shows "h \<noteq> [] \<and> h \<notin> set blocked_hostnames
     \<and> (\<exists>as. endpoint_addresses resolve h = Some as \<and> list_all is_public_ip as)"
proof (cases "ip_address h")
  case (Some literal)
  then show ?thesis
    using assms by (auto simp: notification_host_ok_def rstrip_dots_id blocked_not_public
        endpoint_addresses_def Let_def split: if_splits)
next
  case None
  then obtain infos where infos: "resolve h = Some infos" "infos \<noteq> []"
      "list_all (\<lambda>info. case Option.bind info ip_address of None \<Rightarrow> False
                        | Some a \<Rightarrow> is_public_ip a) infos"
      "h \<noteq> []" "h \<notin> set blocked_hostnames"
    using assms by (auto simp: notification_host_ok_def rstrip_dots_id blocked_not_public Let_def
        split: if_splits option.splits)
  obtain as where "parse_all (\<lambda>info. Option.bind info ip_address) infos = Some as"
      "list_all is_public_ip as" "length as = length infos"
    using parse_all_list_all [OF infos(3)] by blast
  then show ?thesis
    using infos None by (auto simp: endpoint_addresses_def resolved_addresses_def)
qed

text \<open>
  C21: The two guards of the outbound paths implement one policy: where both see the same answers of
  the resolver, a webhook that the notification guard accepts is accepted by the endpoint guard
  too, unless its host name ends in a dot (there the notification guard resolves the name with the
  dot, the other one without).
\<close>

theorem notification_guard_refines_endpoint_guard:
  assumes "validate_notification_url resolve (Some url)"
    and "urlsplit (py_strip url) = Some parsed"
    and "url_hostname parsed = Some h" and "\<not> ends_with h ''.''"
  shows "assert_public_endpoint resolve (PStr url) = Some (py_strip url)"
proof -
  have ok: "py_strip url \<noteq> []" "backslash \<notin> set (py_strip url)"
      "url_scheme parsed \<in> {''http'', ''https''}" "notification_authority_ok parsed"
      "notification_host_ok resolve parsed"
    using assms(1,2) by (auto simp: validate_notification_url_def Let_def split: if_splits)
  have lower: "py_lower h = h"
    using ok(4) by (intro url_hostname_lower [OF assms(3)]) (simp add: notification_authority_ok_def Let_def)
  have scheme: "py_lower (url_scheme parsed) \<in> {''http'', ''https''}"
  proof -
    have "py_lower ''http'' = ''http'' \<and> py_lower ''https'' = ''https''" by code_simp
    then show ?thesis using ok(3) by auto
  qed
  have "\<not> has_userinfo parsed" "url_port parsed \<noteq> None"
    using ok(4) by (auto simp: notification_authority_ok_def has_userinfo_def Let_def split: option.splits)
  then show ?thesis
    using notification_host_public [OF ok(5) assms(3) lower assms(4)] ok(1,2) scheme assms(2-4) lower
    by (auto simp: assert_public_endpoint_def Let_def rstrip_dots_id)
qed

lemma notification_guard_refines_endpoint_guard_witness:
  "assert_public_endpoint quiz_site (PStr '' https://tk.example.org:443/send '') =
     Some ''https://tk.example.org:443/send''"
proof -
  let ?u = "'' https://tk.example.org:443/send ''"
    and ?p = "\<lparr>url_scheme = ''https'', url_netloc = ''tk.example.org:443''\<rparr>"
  have strip: "py_strip ?u = ''https://tk.example.org:443/send''" by code_simp
  have "validate_notification_url quiz_site (Some ?u)" by code_simp
  moreover have "urlsplit (py_strip ?u) = Some ?p" by code_simp
  moreover have "url_hostname ?p = Some ''tk.example.org''" by code_simp
  moreover have "\<not> ends_with ''tk.example.org'' ''.''" by code_simp
  ultimately have "assert_public_endpoint quiz_site (PStr ?u) = Some (py_strip ?u)"
    by (rule notification_guard_refines_endpoint_guard)
  then show ?thesis by (simp only: strip)
qed

end
