(* ===== verification/Notification.thy ===== *)
theory Notification
  imports Endpoint_Guard
begin

text \<open>
  The notification services (\<open>services/notification/providers.py\<close>): how the factory turns a
  configuration into a service, when a service is disabled, and what sending a message does on the
  network. The \<open>[notification]\<close> section of \<open>config.ini\<close> is a parameter, \<open>None\<close> where the file or
  the section is missing; what \<open>requests.post\<close> makes of a request is one too. An operation that
  sends returns its result together with the requests it made.
\<close>

type_synonym conf = "(string \<times> string) list"

datatype provider = DefaultNotification | ServerChan | Qmsg | Bark | Telegram

record service =
  sv_provider :: provider
  sv_url :: string
  sv_chat_id :: string
  sv_conf :: "conf option"
  sv_disabled :: bool

definition new_service :: "provider \<Rightarrow> service" where
  "new_service p = \<lparr>sv_provider = p, sv_url = [], sv_chat_id = [], sv_conf = None, sv_disabled = False\<rparr>"

definition provider_classes :: "string \<Rightarrow> provider option" where
  "provider_classes name =
     map_of [(''ServerChan'', ServerChan), (''Qmsg'', Qmsg), (''Bark'', Bark), (''Telegram'', Telegram)] name"

section \<open>Configuration\<close>

definition no_conf :: "conf option \<Rightarrow> bool" where
  "no_conf c = (case c of None \<Rightarrow> True | Some kv \<Rightarrow> kv = [])"

definition config_set :: "conf \<Rightarrow> service \<Rightarrow> service" where
  "config_set c sv = sv\<lparr>sv_conf := Some c\<rparr>"

text \<open>\<open>self._conf = self._load_config_from_file()\<close>\<close>

definition load_config :: "conf option \<Rightarrow> service \<Rightarrow> service" where
  "load_config file sv =
     (case file of
        None \<Rightarrow> sv\<lparr>sv_conf := None, sv_disabled := True\<rparr>
      | Some c \<Rightarrow> sv\<lparr>sv_conf := Some c\<rparr>)"

definition conf_get :: "string \<Rightarrow> service \<Rightarrow> string" where
  "conf_get key sv = (case sv_conf sv of None \<Rightarrow> [] | Some c \<Rightarrow> (case map_of c key of None \<Rightarrow> [] | Some v \<Rightarrow> v))"

text \<open>\<open>_init_service\<close> of a service that needs a URL only\<close>

definition init_url_service :: "service \<Rightarrow> service" where
  "init_url_service sv =
     (if no_conf (sv_conf sv) \<or> conf_get ''url'' sv = [] then sv\<lparr>sv_disabled := True\<rparr>
      else sv\<lparr>sv_url := conf_get ''url'' sv\<rparr>)"

definition init_telegram :: "service \<Rightarrow> service" where
  "init_telegram sv =
     (if no_conf (sv_conf sv) \<or> conf_get ''url'' sv = [] \<or> conf_get ''tg_chat_id'' sv = []
      then sv\<lparr>sv_disabled := True\<rparr>
      else sv\<lparr>sv_chat_id := conf_get ''tg_chat_id'' sv, sv_url := conf_get ''url'' sv\<rparr>)"

definition init_serverchan :: "service \<Rightarrow> service" where
  "init_serverchan sv = init_url_service sv"

definition init_qmsg :: "service \<Rightarrow> service" where
  "init_qmsg sv = init_url_service sv"

definition init_bark :: "service \<Rightarrow> service" where
  "init_bark sv = init_url_service sv"

definition init_service :: "service \<Rightarrow> service" where
  "init_service sv =
     (case sv_provider sv of
        DefaultNotification \<Rightarrow> sv
      | ServerChan \<Rightarrow> init_serverchan sv
      | Qmsg \<Rightarrow> init_qmsg sv
      | Bark \<Rightarrow> init_bark sv
      | Telegram \<Rightarrow> init_telegram sv)"

definition init_notification :: "conf option \<Rightarrow> service \<Rightarrow> service" where
  "init_notification file sv =
     (let sv = (if no_conf (sv_conf sv) then load_config file sv else sv)
      in if \<not> sv_disabled sv \<and> \<not> no_conf (sv_conf sv) then init_service sv else sv)"

definition get_notification_from_config :: "conf option \<Rightarrow> service \<Rightarrow> service" where
  "get_notification_from_config file sv =
     (let sv = (if no_conf (sv_conf sv) then load_config file sv else sv)
      in if sv_disabled sv then sv
         else (case sv_conf sv of
                 None \<Rightarrow> sv
               | Some c \<Rightarrow>
                   (case map_of c ''provider'' of
                      None \<Rightarrow> sv\<lparr>sv_disabled := True\<rparr>
                    | Some name \<Rightarrow>
                        if name = [] then sv\<lparr>sv_disabled := True\<rparr>
                        else (case provider_classes name of
                                None \<Rightarrow> sv\<lparr>sv_disabled := True\<rparr>
                              | Some p \<Rightarrow> config_set c (new_service p)))))"

definition create_service :: "conf option \<Rightarrow> conf option \<Rightarrow> service" where
  "create_service file config =
     (let sv = new_service DefaultNotification;
          sv = (case config of None \<Rightarrow> sv | Some c \<Rightarrow> if c = [] then sv else config_set c sv)
      in init_notification file (get_notification_from_config file sv))"

section \<open>Sending\<close>

datatype payload = Json "(string \<times> string) list" | Query "(string \<times> string) list" | Form "(string \<times> string) list"

record http_post =
  post_url :: string
  post_payload :: payload
  post_redirects :: bool

text \<open>
  What a POST comes to: an exception of the client, or a response with its status and what its
  body parses to (\<open>None\<close> where \<open>response.json()\<close> raises).
\<close>

datatype post_result = Post_raises | Response int "pyval option"

type_synonym network = "http_post \<Rightarrow> post_result"

definition is_redirect_response :: "int \<Rightarrow> bool" where
  "is_redirect_response status = (300 \<le> status \<and> status < 400)"

definition raise_for_status :: "int \<Rightarrow> bool" where
  "raise_for_status status = (400 \<le> status \<and> status < 600)"

definition url_allowed :: "resolver \<Rightarrow> service \<Rightarrow> bool" where
  "url_allowed resolve sv = validate_notification_url resolve (Some (sv_url sv))"

definition post_of :: "service \<Rightarrow> payload \<Rightarrow> http_post" where
  "post_of sv body = \<lparr>post_url = sv_url sv, post_payload = body, post_redirects = False\<rparr>"

text \<open>\<open>_send\<close> of ServerChan, Qmsg and Bark: the body of the answer has to parse, whatever it says\<close>

definition send_plain :: "resolver \<Rightarrow> network \<Rightarrow> service \<Rightarrow> payload \<Rightarrow> bool \<times> http_post list" where
  "send_plain resolve net sv body =
     (if \<not> url_allowed resolve sv then (False, [])
      else (let req = post_of sv body
            in (case net req of
                  Post_raises \<Rightarrow> False
                | Response status answer \<Rightarrow>
                    \<not> is_redirect_response status \<and> \<not> raise_for_status status \<and> answer \<noteq> None,
                [req])))"

definition send_serverchan :: "resolver \<Rightarrow> network \<Rightarrow> service \<Rightarrow> string \<Rightarrow> bool \<times> http_post list" where
  "send_serverchan resolve net sv message =
     send_plain resolve net sv (Json [(''text'', message), (''desp'', message)])"

definition send_qmsg :: "resolver \<Rightarrow> network \<Rightarrow> service \<Rightarrow> string \<Rightarrow> bool \<times> http_post list" where
  "send_qmsg resolve net sv message = send_plain resolve net sv (Query [(''msg'', message)])"

definition send_bark :: "resolver \<Rightarrow> network \<Rightarrow> service \<Rightarrow> string \<Rightarrow> bool \<times> http_post list" where
  "send_bark resolve net sv message = send_plain resolve net sv (Query [(''body'', message)])"

text \<open>\<open>result.get("ok")\<close>; a body that is no object raises \<open>AttributeError\<close>, caught as a failure\<close>

definition telegram_ok :: "pyval option \<Rightarrow> bool" where
  "telegram_ok body = (case body of Some (PDict d) \<Rightarrow> truthy (dget d ''ok'') | _ \<Rightarrow> False)"

definition send_telegram :: "resolver \<Rightarrow> network \<Rightarrow> service \<Rightarrow> string \<Rightarrow> bool \<times> http_post list" where
  "send_telegram resolve net sv message =
     (if \<not> url_allowed resolve sv then (False, [])
      else (let req = post_of sv (Form [(''chat_id'', sv_chat_id sv), (''text'', message),
                                        (''parse_mode'', ''HTML'')])
            in (case net req of
                  Post_raises \<Rightarrow> False
                | Response status answer \<Rightarrow>
                    \<not> is_redirect_response status \<and> \<not> raise_for_status status \<and> telegram_ok answer,
                [req])))"

definition send_with :: "resolver \<Rightarrow> network \<Rightarrow> service \<Rightarrow> string \<Rightarrow> bool \<times> http_post list" where
  "send_with resolve net sv message =
     (case sv_provider sv of
        DefaultNotification \<Rightarrow> (False, [])
      | ServerChan \<Rightarrow> send_serverchan resolve net sv message
      | Qmsg \<Rightarrow> send_qmsg resolve net sv message
      | Bark \<Rightarrow> send_bark resolve net sv message
      | Telegram \<Rightarrow> send_telegram resolve net sv message)"

definition send :: "resolver \<Rightarrow> network \<Rightarrow> service \<Rightarrow> string \<Rightarrow> bool \<times> http_post list" where
  "send resolve net sv message =
     (if sv_disabled sv then (False, []) else send_with resolve net sv message)"

section \<open>What reaches the network\<close>

lemmas send_defs = send_def send_with_def send_serverchan_def send_qmsg_def send_bark_def send_plain_def
  send_telegram_def post_of_def is_redirect_response_def raise_for_status_def

lemma send_requests:
  assumes "req \<in> set (snd (send resolve net sv message))"
  shows "snd (send resolve net sv message) = [req] \<and> \<not> sv_disabled sv \<and> url_allowed resolve sv
    \<and> post_url req = sv_url sv \<and> \<not> post_redirects req"
  using assms by (auto simp: send_defs Let_def split: provider.splits if_splits)

lemma send_delivered:
  assumes "fst (send resolve net sv message)" and "snd (send resolve net sv message) = [req]"
  shows "\<exists>status body. net req = Response status (Some body) \<and> (status < 300 \<or> 600 \<le> status)"
  using assms
  by (auto simp: send_defs telegram_ok_def Let_def split: provider.splits post_result.splits
      option.splits if_splits)

lemma validated_host_public:
  assumes "validate_notification_url resolve (Some url)"
  shows "\<exists>parsed hostname. urlsplit (py_strip url) = Some parsed \<and> url_hostname parsed = Some hostname
    \<and> (case ip_address hostname of
         Some a \<Rightarrow> \<not> internal_address a
       | None \<Rightarrow> (\<exists>infos. resolve hostname = Some infos \<and> infos \<noteq> []
           \<and> list_all (\<lambda>info. \<exists>a. Option.bind info ip_address = Some a \<and> \<not> internal_address a) infos))"
proof -
  obtain parsed where parsed: "urlsplit (py_strip url) = Some parsed" and ok: "notification_host_ok resolve parsed"
    using assms by (auto simp: validate_notification_url_def Let_def split: if_splits option.splits)
  obtain hostname where host: "url_hostname parsed = Some hostname"
    using ok by (auto simp: notification_host_ok_def split: option.splits)
  have no: "\<not> is_blocked_ip a \<Longrightarrow> \<not> internal_address a" for a
    using internal_not_public blocked_not_public by blast
  show ?thesis
  proof (cases "ip_address hostname")
    case (Some a)
    then show ?thesis
      using ok parsed host no by (auto simp: notification_host_ok_def Let_def split: if_splits)
  next
    case None
    then obtain infos where infos: "resolve hostname = Some infos" "infos \<noteq> []"
        "list_all (\<lambda>info. case Option.bind info ip_address of None \<Rightarrow> False
                          | Some resolved \<Rightarrow> \<not> is_blocked_ip resolved) infos"
      using ok host by (auto simp: notification_host_ok_def Let_def split: if_splits option.splits)
    have "list_all (\<lambda>info. \<exists>a. Option.bind info ip_address = Some a \<and> \<not> internal_address a) infos"
      by (rule list.pred_mono_strong [OF infos(3)]) (auto split: option.splits dest: no)
    then show ?thesis using parsed host None infos by auto
  qed
qed

section \<open>Which services are enabled\<close>

text \<open>The configuration a service ends up with: the caller's, or the file's\<close>

definition effective_conf :: "conf option \<Rightarrow> conf option \<Rightarrow> conf option" where
  "effective_conf file config = (if no_conf config then file else config)"

lemma init_service_enabled:
  assumes "\<not> sv_disabled (init_service sv)"
  shows "sv_provider (init_service sv) = sv_provider sv \<and> sv_conf (init_service sv) = sv_conf sv
    \<and> (sv_provider sv \<noteq> DefaultNotification \<longrightarrow>
         sv_url (init_service sv) = conf_get ''url'' sv \<and> conf_get ''url'' sv \<noteq> [])"
  using assms
  by (auto simp: init_service_def init_serverchan_def init_qmsg_def init_bark_def init_url_service_def
      init_telegram_def split: provider.splits if_splits)

lemma provider_classes_not_default: "provider_classes name \<noteq> Some DefaultNotification"
  by (simp add: provider_classes_def)

lemma get_notification_enabled:
  assumes "\<not> sv_disabled (get_notification_from_config file sv)"
    and "sv_conf sv = config" and "\<not> sv_disabled sv"
  shows "\<exists>c name p. effective_conf file config = Some c \<and> map_of c ''provider'' = Some name
    \<and> provider_classes name = Some p \<and> get_notification_from_config file sv = config_set c (new_service p)"
  using assms
  by (auto simp: get_notification_from_config_def effective_conf_def load_config_def no_conf_def Let_def
      split: if_splits option.splits)

lemma create_service_enabled:
  assumes "\<not> sv_disabled (create_service file config)"
  shows "\<exists>c name p url. effective_conf file config = Some c \<and> map_of c ''provider'' = Some name
    \<and> provider_classes name = Some p \<and> sv_provider (create_service file config) = p
    \<and> map_of c ''url'' = Some url \<and> url \<noteq> [] \<and> sv_url (create_service file config) = url"
proof -
  define sv where "sv = (case config of None \<Rightarrow> new_service DefaultNotification
    | Some c \<Rightarrow> if c = [] then new_service DefaultNotification
                else config_set c (new_service DefaultNotification))"
  have sv: "no_conf (sv_conf sv) = no_conf config" "\<not> sv_disabled sv"
      "effective_conf file (sv_conf sv) = effective_conf file config"
    by (auto simp: sv_def no_conf_def config_set_def new_service_def effective_conf_def split: option.splits)
  let ?g = "get_notification_from_config file sv"
  have create: "create_service file config = init_notification file ?g"
    by (simp add: create_service_def sv_def Let_def)
  have enabled: "\<not> sv_disabled ?g"
    using assms unfolding create
    by (auto simp: init_notification_def load_config_def Let_def split: if_splits option.splits)
  then obtain c name p where c: "effective_conf file config = Some c" "map_of c ''provider'' = Some name"
      "provider_classes name = Some p" "?g = config_set c (new_service p)"
    using get_notification_enabled [OF enabled refl sv(2)] sv(3) by auto
  then have "init_notification file ?g = init_service ?g"
    by (cases c) (auto simp: init_notification_def config_set_def new_service_def no_conf_def Let_def)
  moreover have "p \<noteq> DefaultNotification" using c(3) provider_classes_not_default by blast
  ultimately have "sv_provider (create_service file config) = p
      \<and> sv_url (create_service file config) = conf_get ''url'' ?g \<and> conf_get ''url'' ?g \<noteq> []"
    using assms init_service_enabled [of ?g] create c(4)
    by (simp add: config_set_def new_service_def)
  then show ?thesis
    using c by (auto simp: conf_get_def config_set_def split: option.splits)
qed

text \<open>
  C16: What a configured notification service does on the network. It makes at most one request per
  message, to the URL of its configuration and with redirects switched off; the URL has passed the
  guard, so its host is no internal address and resolves to none. The message counts as sent only
  when that request was answered with a parsable body and a status outside 300 to 599; and a
  configuration without a known provider or a URL makes no request at all.
\<close>

theorem notification_send_safe:
  assumes "req \<in> set (snd (send resolve net (create_service file config) message))"
  shows "snd (send resolve net (create_service file config) message) = [req]
    \<and> \<not> post_redirects req
    \<and> (\<exists>c name p. effective_conf file config = Some c \<and> map_of c ''provider'' = Some name
         \<and> provider_classes name = Some p \<and> map_of c ''url'' = Some (post_url req))
    \<and> (\<exists>parsed hostname. urlsplit (py_strip (post_url req)) = Some parsed \<and> url_hostname parsed = Some hostname
         \<and> (case ip_address hostname of
              Some a \<Rightarrow> \<not> internal_address a
            | None \<Rightarrow> \<exists>infos. resolve hostname = Some infos \<and> infos \<noteq> []
                \<and> list_all (\<lambda>info. \<exists>a. Option.bind info ip_address = Some a \<and> \<not> internal_address a) infos))
    \<and> (fst (send resolve net (create_service file config) message) \<longrightarrow>
         (\<exists>status body. net req = Response status (Some body) \<and> (status < 300 \<or> 600 \<le> status)))"
proof -
  let ?sv = "create_service file config"
  note sent = send_requests [OF assms]
  then have enabled: "\<not> sv_disabled ?sv" by blast
  have "fst (send resolve net ?sv message) \<longrightarrow>
      (\<exists>status body. net req = Response status (Some body) \<and> (status < 300 \<or> 600 \<le> status))"
    using send_delivered sent by blast
  then show ?thesis
    using create_service_enabled [OF enabled] sent validated_host_public [of resolve "sv_url ?sv"]
    by (auto simp: url_allowed_def)
qed

definition bark_conf :: conf where
  "bark_conf = [(''provider'', ''Bark''), (''url'', ''https://tk.example.org/push'')]"

lemma notification_send_safe_witness:
  "map_of bark_conf ''url'' = Some (post_url \<lparr>post_url = ''https://tk.example.org/push'',
      post_payload = Query [(''body'', ''done'')], post_redirects = False\<rparr>)"
proof -
  let ?r = "\<lparr>post_url = ''https://tk.example.org/push'', post_payload = Query [(''body'', ''done'')],
      post_redirects = False\<rparr>"
  have "send quiz_site (\<lambda>_. Response 200 (Some (PDict []))) (create_service None (Some bark_conf)) ''done'' =
      (True, [?r])"
    by code_simp
  then have "?r \<in> set (snd (send quiz_site (\<lambda>_. Response 200 (Some (PDict [])))
      (create_service None (Some bark_conf)) ''done''))" by simp
  moreover have "effective_conf None (Some bark_conf) = Some bark_conf" by code_simp
  ultimately show ?thesis
    using notification_send_safe [of ?r quiz_site "\<lambda>_. Response 200 (Some (PDict []))" None "Some bark_conf" "''done''"]
    by auto
qed

end
