(* ===== verification/Auth_Service.thy ===== *)
theory Auth_Service
  imports Db_Session Py_Datetime
begin

text \<open>
  Accounts: \<open>services/auth_service.py\<close> with \<open>core/security.py\<close> and the request schema
  \<open>schemas/auth.py\<close>. Registration is two steps that are not one transaction (the row in \<open>users\<close>,
  then \<open>CREATE DATABASE\<close> from the template) with a compensation when the second fails; login is
  one look-up and one password check.

  The cryptographic primitives are parameters (\<open>auth_lib\<close>). The database server is the table and
  the list of databases; what goes wrong in each call (a connection that fails, a statement that
  raises, with or without having taken effect) is chosen by the environment. The Chinese texts of
  the error messages are replaced by ASCII ones.
\<close>

section \<open>Passwords and tokens\<close>

record auth_lib =
  hashpw :: "string \<Rightarrow> string \<Rightarrow> string"
  checkpw :: "string \<Rightarrow> string \<Rightarrow> bool option"
  jwt_encode :: "pydict \<Rightarrow> string"
  hmac_sha256 :: "string \<Rightarrow> string \<Rightarrow> string"

record auth_conf =
  shuake_secret :: "string option"
  expire_minutes :: int
  local_profile :: bool
  auto_bootstrap :: bool
  dummy_hash :: string

datatype ddl_exc =
    Duplicate_database | Object_in_use | Invalid_catalog | Insufficient_privilege | Operational | Other_exc

datatype auth_error =
    Value_error string
  | Tenant_provisioning
  | Database_not_initialized
  | Ddl_error ddl_exc
  | Db_error

definition bcrypt_max_password_bytes :: nat where "bcrypt_max_password_bytes = 72"

definition encode_password :: "string \<Rightarrow> auth_error + string" where
  "encode_password password =
     (let encoded = utf8 password
      in if length encoded > bcrypt_max_password_bytes then Inl (Value_error ''Password must not exceed 72 bytes'')
         else Inr encoded)"

definition hash_password :: "auth_lib \<Rightarrow> string \<Rightarrow> string \<Rightarrow> auth_error + string" where
  "hash_password lib salt password = map_sum id (hashpw lib salt) (encode_password password)"

text \<open>\<open>None\<close> is the \<open>ValueError\<close> of \<open>bcrypt\<close> on a malformed hash\<close>

definition verify_password :: "auth_lib \<Rightarrow> string \<Rightarrow> string \<Rightarrow> bool option" where
  "verify_password lib plain_password hashed_password =
     (let encoded = utf8 plain_password
      in if length encoded > bcrypt_max_password_bytes then Some False
         else checkpw lib encoded hashed_password)"

definition is_upper :: "char \<Rightarrow> bool" where
  "is_upper c = (let n = (of_char c :: nat) in 65 \<le> n \<and> n \<le> 90)"

definition is_lower :: "char \<Rightarrow> bool" where
  "is_lower c = (let n = (of_char c :: nat) in 97 \<le> n \<and> n \<le> 122)"

definition validate_password_strength :: "string \<Rightarrow> auth_error option" where
  "validate_password_strength password =
     (if length (utf8 password) > bcrypt_max_password_bytes
      then Some (Value_error ''Password must not exceed 72 bytes'')
      else if length password < 8 then Some (Value_error ''Password must be at least 8 characters'')
      else if \<not> list_ex is_upper password then Some (Value_error ''Password must contain uppercase letter'')
      else if \<not> list_ex is_lower password then Some (Value_error ''Password must contain lowercase letter'')
      else if \<not> list_ex is_digit password then Some (Value_error ''Password must contain digit'')
      else None)"

text \<open>The claims of an access token: expiry in whole seconds, as the encoder writes it\<close>

definition create_access_token :: "auth_lib \<Rightarrow> auth_conf \<Rightarrow> int \<Rightarrow> string \<Rightarrow> pydict \<Rightarrow> string" where
  "create_access_token lib conf now jti data =
     jwt_encode lib (dupdate data
       [(''iat'', PInt now), (''nbf'', PInt now), (''exp'', PInt (now + expire_minutes conf * 60)),
        (''jti'', PStr jti)])"

text \<open>\<open>_b64url_encode\<close>: URL-safe base64 without its padding\<close>

definition b64_char :: "nat \<Rightarrow> char" where
  "b64_char n = (if n < 26 then char_of (65 + n) else if n < 52 then char_of (71 + n)
     else if n < 62 then char_of (n - 4) else if n = 62 then CHR ''-'' else CHR ''_'')"

fun b64url_encode :: "string \<Rightarrow> string" where
  "b64url_encode (a # b # c # s) =
     (let x = of_char a; y = of_char b; z = of_char c
      in [b64_char (x div 4), b64_char (x mod 4 * 16 + y div 16),
          b64_char (y mod 16 * 4 + z div 64), b64_char (z mod 64)] @ b64url_encode s)"
| "b64url_encode [a, b] =
     (let x = of_char a; y = of_char b
      in [b64_char (x div 4), b64_char (x mod 4 * 16 + y div 16), b64_char (y mod 16 * 4)])"
| "b64url_encode [a] = (let x = of_char a in [b64_char (x div 4), b64_char (x mod 4 * 16)])"
| "b64url_encode [] = []"

definition shuake_secret_min_len :: nat where "shuake_secret_min_len = 32"

definition create_shuake_token :: "auth_lib \<Rightarrow> auth_conf \<Rightarrow> int \<Rightarrow> int \<Rightarrow> string option" where
  "create_shuake_token lib conf now user_id =
     (let secret = py_strip (case shuake_secret conf of None \<Rightarrow> [] | Some s \<Rightarrow> s)
      in if secret = [] then None
         else if length secret < shuake_secret_min_len then None
         else (let dq = [char_of (34 :: nat)];
                   payload = ''{'' @ dq @ ''uid'' @ dq @ '':'' @ dq @ int_str user_id @ dq @ '','' @ dq @ ''exp'' @ dq
                             @ '':'' @ int_str (now + 7 * 24 * 3600) @ ''}'';
                   payload_b64 = b64url_encode (utf8 payload)
               in Some (payload_b64 @ ''.'' @ b64url_encode (hmac_sha256 lib (utf8 secret) payload_b64))))"

section \<open>The server\<close>

record user_row =
  u_id :: int
  u_name :: string
  u_email :: string
  u_hash :: string
  u_tenant :: string

record auth_db =
  users_table :: "user_row list option"
  next_user_id :: int
  databases :: "string list"

definition template_db :: string where "template_db = ''tenant_template''"

definition rows :: "auth_db \<Rightarrow> user_row list" where
  "rows db = (case users_table db of None \<Rightarrow> [] | Some us \<Rightarrow> us)"

text \<open>
  A statement of a DDL connection: the error it raises and whether it took effect all the same, or
  no fault, and then what the server does.
\<close>

type_synonym ddl_fault = "(ddl_exc \<times> bool) option"

definition exec_create :: "ddl_fault \<Rightarrow> string \<Rightarrow> string list \<Rightarrow> ddl_exc option \<times> string list" where
  "exec_create fault name dbs =
     (let (err, dbs') = (if template_db \<notin> set dbs then (Some Invalid_catalog, dbs)
                         else if name \<in> set dbs then (Some Duplicate_database, dbs)
                         else (None, name # dbs))
      in case fault of None \<Rightarrow> (err, dbs') | Some (e, applied) \<Rightarrow> (Some e, if applied then dbs' else dbs))"

definition exec_drop :: "ddl_fault \<Rightarrow> string \<Rightarrow> string list \<Rightarrow> ddl_exc option \<times> string list" where
  "exec_drop fault name dbs =
     (let dbs' = filter (\<lambda>d. d \<noteq> name) dbs
      in case fault of None \<Rightarrow> (None, dbs') | Some (e, applied) \<Rightarrow> (Some e, if applied then dbs' else dbs))"

section \<open>The tenant database\<close>

record attempt =
  at_connects :: bool
  at_create :: ddl_fault
  at_drop :: ddl_fault
  at_recreate :: ddl_fault
  at_heals :: bool

text \<open>One turn of the loop in \<open>_create_tenant_database\<close>: an existing database is an orphan\<close>

definition try_create :: "attempt \<Rightarrow> string \<Rightarrow> string list \<Rightarrow> ddl_exc option \<times> string list" where
  "try_create a name dbs =
     (if \<not> at_connects a then (Some Operational, dbs)
      else (case exec_create (at_create a) name dbs of
              (Some Duplicate_database, dbs) \<Rightarrow>
                (case exec_drop (at_drop a) name dbs of
                   (None, dbs) \<Rightarrow> exec_create (at_recreate a) name dbs
                 | (Some e, dbs) \<Rightarrow> (Some e, dbs))
            | r \<Rightarrow> r))"

text \<open>\<open>_heal_missing_template\<close>, which may only run on a server that is bootstrapped automatically\<close>

definition heal_missing_template :: "auth_conf \<Rightarrow> attempt \<Rightarrow> string list \<Rightarrow> bool \<times> string list" where
  "heal_missing_template conf a dbs =
     (if local_profile conf \<or> \<not> auto_bootstrap conf then (False, dbs)
      else if \<not> at_heals a then (False, dbs)
      else (True, List.insert template_db dbs))"

definition template_busy_backoff :: "nat list" where
  "template_busy_backoff = [500, 1000, 2000, 4000]"

text \<open>
  The loop: the error that ends it, the databases it leaves, and the number of attempts. It ends
  because every further turn uses up one of the four delays or the one repair.
\<close>

function create_loop ::
  "auth_conf \<Rightarrow> (nat \<Rightarrow> attempt) \<Rightarrow> string \<Rightarrow> nat \<Rightarrow> bool \<Rightarrow> nat list \<Rightarrow> string list
     \<Rightarrow> auth_error option \<times> string list \<times> nat" where
  "create_loop conf env name i healed delays dbs =
     (case try_create (env i) name dbs of
        (None, dbs) \<Rightarrow> (None, dbs, i + 1)
      | (Some Object_in_use, dbs) \<Rightarrow>
          (case delays of
             [] \<Rightarrow> (Some Tenant_provisioning, dbs, i + 1)
           | _ # delays \<Rightarrow> create_loop conf env name (i + 1) healed delays dbs)
      | (Some Invalid_catalog, dbs) \<Rightarrow>
          (if healed then (Some Database_not_initialized, dbs, i + 1)
           else (case heal_missing_template conf (env i) dbs of
                   (True, dbs) \<Rightarrow> create_loop conf env name (i + 1) True delays dbs
                 | (False, dbs) \<Rightarrow> (Some Database_not_initialized, dbs, i + 1)))
      | (Some Insufficient_privilege, dbs) \<Rightarrow> (Some Tenant_provisioning, dbs, i + 1)
      | (Some Operational, dbs) \<Rightarrow> (Some Tenant_provisioning, dbs, i + 1)
      | (Some e, dbs) \<Rightarrow> (Some (Ddl_error e), dbs, i + 1))"
  by pat_completeness auto
termination
  by (relation "measure (\<lambda>(_, _, _, _, healed, delays, _). length delays + (if healed then 0 else 1))") auto

declare create_loop.simps [simp del]

definition reserved_username_message :: string where
  "reserved_username_message = ''reserved''"

definition create_tenant_database ::
  "auth_conf \<Rightarrow> (nat \<Rightarrow> attempt) \<Rightarrow> string \<Rightarrow> string list \<Rightarrow> auth_error option \<times> string list" where
  "create_tenant_database conf env name dbs =
     (if name \<in> set reserved_tenant_db_names then (Some (Value_error reserved_username_message), dbs)
      else (let (err, dbs, _) = create_loop conf env name 0 False template_busy_backoff dbs in (err, dbs)))"

text \<open>\<open>_drop_tenant_database\<close>: best effort, never raises\<close>

definition drop_tenant_database :: "bool \<Rightarrow> ddl_fault \<Rightarrow> string \<Rightarrow> string list \<Rightarrow> string list" where
  "drop_tenant_database connects fault name dbs =
     (if name \<in> set reserved_tenant_db_names then dbs
      else if \<not> connects then dbs
      else snd (exec_drop fault name dbs))"

section \<open>Registration\<close>

definition reserved_usernames :: "string list" where
  "reserved_usernames =
     [''template'', ''template0'', ''template1'', ''postgres'', ''main'', ''maindb'', ''root'', ''system'']"

text \<open>The validators of \<open>RegisterRequest\<close>\<close>

definition validate_username :: "string \<Rightarrow> bool" where
  "validate_username v =
     (\<not> (v = [] \<or> length v < 3 \<or> length v > 30) \<and> matches_name [] v \<and> v \<notin> set reserved_usernames)"

definition validate_password :: "string \<Rightarrow> bool" where
  "validate_password v =
     (\<not> (v = [] \<or> length v > 128) \<and> 8 \<le> length v \<and> list_ex is_upper v \<and> list_ex is_lower v \<and> list_ex is_digit v)"

definition tenant_name :: "string \<Rightarrow> string" where
  "tenant_name username = ''tenant_'' @ username"

text \<open>
  \<open>_insert_user_row\<close>. The columns have the widths of the schema, and the unique constraints of
  \<open>users\<close> are checked in the order of their columns; a commit that is not acknowledged leaves the
  row behind the error.
\<close>

definition insert_user_row ::
  "db_fate \<Rightarrow> string \<Rightarrow> string \<Rightarrow> string \<Rightarrow> string \<Rightarrow> auth_db \<Rightarrow> (auth_error + int) \<times> auth_db" where
  "insert_user_row fate username email password_hash tenant db =
     (case users_table db of
        None \<Rightarrow> (Inl (if fate = Committed then Database_not_initialized else Db_error), db)
      | Some us \<Rightarrow>
          if fate = Rolled_back \<or> 50 < length username \<or> 255 < length email \<or> 255 < length password_hash
             \<or> 63 < length tenant then (Inl Db_error, db)
          else if list_ex (\<lambda>u. u_name u = username) us then (Inl (Value_error ''Username already taken''), db)
          else if list_ex (\<lambda>u. u_email u = email) us then (Inl (Value_error ''Email already registered''), db)
          else if list_ex (\<lambda>u. u_tenant u = tenant) us then (Inl (Value_error ''Username already taken''), db)
          else (let row = \<lparr>u_id = next_user_id db, u_name = username, u_email = email,
                           u_hash = password_hash, u_tenant = tenant\<rparr>
                in (if fate = Committed then Inr (next_user_id db) else Inl Db_error,
                    db\<lparr>users_table := Some (us @ [row]), next_user_id := next_user_id db + 1\<rparr>)))"

definition rollback_user_row :: "db_fate \<Rightarrow> int \<Rightarrow> auth_db \<Rightarrow> auth_db" where
  "rollback_user_row fate user_id db =
     (if fate = Rolled_back then db
      else db\<lparr>users_table := map_option (filter (\<lambda>u. u_id u \<noteq> user_id)) (users_table db)\<rparr>)"

definition build_auth_response ::
  "auth_lib \<Rightarrow> auth_conf \<Rightarrow> int \<Rightarrow> string \<Rightarrow> int \<Rightarrow> string \<Rightarrow> pydict" where
  "build_auth_response lib conf now jti user_id tenant =
     [(''access_token'', PStr (create_access_token lib conf now jti
         [(''user_id'', PInt user_id), (''tenant_db_name'', PStr tenant)])),
      (''token_type'', PStr ''bearer''), (''user_id'', PInt user_id), (''tenant_db_name'', PStr tenant)]
     @ (case create_shuake_token lib conf now user_id of
          None \<Rightarrow> [] | Some token \<Rightarrow> [(''shuake_token'', PStr token)])"

record reg_env =
  re_salt :: string
  re_insert :: db_fate
  re_attempts :: "nat \<Rightarrow> attempt"
  re_rollback :: db_fate
  re_drop_connects :: bool
  re_drop :: ddl_fault
  re_now :: int
  re_jti :: string

definition username_rule :: string where
  "username_rule = ''username may only contain a-z and 0-9''"

definition register_user ::
  "auth_lib \<Rightarrow> auth_conf \<Rightarrow> reg_env \<Rightarrow> string \<Rightarrow> string \<Rightarrow> string \<Rightarrow> auth_db
     \<Rightarrow> (auth_error + pydict) \<times> auth_db" where
  "register_user lib conf env username email password db =
     (if username = [] \<or> \<not> matches_name [] username then (Inl (Value_error username_rule), db)
      else if username \<in> set reserved_usernames \<or> tenant_name username \<in> set reserved_tenant_db_names
      then (Inl (Value_error reserved_username_message), db)
      else (case validate_password_strength password of
              Some e \<Rightarrow> (Inl e, db)
            | None \<Rightarrow>
                (case hash_password lib (re_salt env) password of
                   Inl e \<Rightarrow> (Inl e, db)
                 | Inr h \<Rightarrow>
                     (let tenant = tenant_name username
                      in case insert_user_row (re_insert env) username email h tenant db of
                           (Inl e, db) \<Rightarrow> (Inl e, db)
                         | (Inr user_id, db) \<Rightarrow>
                             (case create_tenant_database conf (re_attempts env) tenant (databases db) of
                                (Some e, dbs) \<Rightarrow>
                                  (Inl e,
                                   (rollback_user_row (re_rollback env) user_id (db\<lparr>databases := dbs\<rparr>))
                                     \<lparr>databases := drop_tenant_database (re_drop_connects env) (re_drop env) tenant dbs\<rparr>)
                              | (None, dbs) \<Rightarrow>
                                  (Inr (build_auth_response lib conf (re_now env) (re_jti env) user_id tenant),
                                   db\<lparr>databases := dbs\<rparr>))))))"

section \<open>Login\<close>

definition fetch_login_row :: "string \<Rightarrow> auth_db \<Rightarrow> user_row option" where
  "fetch_login_row email db = find (\<lambda>u. u_email u = email) (rows db)"

text \<open>The answer and the hashes that were checked on the way\<close>

definition login_user ::
  "auth_lib \<Rightarrow> auth_conf \<Rightarrow> int \<Rightarrow> string \<Rightarrow> string \<Rightarrow> string \<Rightarrow> auth_db
     \<Rightarrow> (auth_error + pydict) \<times> string list" where
  "login_user lib conf now jti email password db =
     (case users_table db of
        None \<Rightarrow> (Inl Db_error, [])
      | Some _ \<Rightarrow>
          (let row = fetch_login_row email db;
               stored_hash = (case row of None \<Rightarrow> dummy_hash conf | Some u \<Rightarrow> u_hash u);
               answer = (case verify_password lib password stored_hash of
                           None \<Rightarrow> Inl (Value_error ''Invalid salt'')
                         | Some ok \<Rightarrow>
                             (case row of
                                None \<Rightarrow> Inl (Value_error ''Invalid credentials'')
                              | Some u \<Rightarrow>
                                  if \<not> ok then Inl (Value_error ''Invalid credentials'')
                                  else Inr (build_auth_response lib conf now jti (u_id u) (u_tenant u))))
           in (answer, [stored_hash])))"

section \<open>The loop is short\<close>

lemma create_loop_attempts:
  "snd (snd (create_loop conf env name i healed delays dbs)) \<le>
     i + 1 + length delays + (if healed then 0 else 1)"
proof (induction conf env name i healed delays dbs rule: create_loop.induct)
  case (1 conf env name i healed delays dbs)
  then show ?case
    by (subst create_loop.simps)
      (auto split: prod.splits option.splits ddl_exc.splits list.splits bool.splits)
qed

text \<open>Six attempts at most: four waits, one repair, and the last one\<close>

lemma create_tenant_attempts:
  "snd (snd (create_loop conf env name 0 False template_busy_backoff dbs)) \<le> 6"
  using create_loop_attempts [of conf env name 0 False template_busy_backoff dbs]
  by (simp add: template_busy_backoff_def)

section \<open>What creating a database leaves alone\<close>

text \<open>\<open>spares name dbs dbs'\<close>: of the databases other than \<open>name\<close>, all stay and none but the template is new\<close>

definition spares :: "string \<Rightarrow> string list \<Rightarrow> string list \<Rightarrow> bool" where
  "spares name dbs dbs' \<longleftrightarrow> set dbs - {name} \<subseteq> set dbs' \<and> set dbs' \<subseteq> insert name (insert template_db (set dbs))"

lemma spares_refl [simp, intro]: "spares name dbs dbs"
  by (auto simp: spares_def)

lemma spares_trans: "spares name a b \<Longrightarrow> spares name b c \<Longrightarrow> spares name a c"
  by (auto simp: spares_def)

lemma exec_create_keeps: "spares name dbs (snd (exec_create fault name dbs))"
  by (auto simp: exec_create_def spares_def Let_def split: option.splits)

lemma exec_drop_keeps: "spares name dbs (snd (exec_drop fault name dbs))"
  by (auto simp: exec_drop_def spares_def Let_def split: option.splits)

lemma exec_create_done: "exec_create fault name dbs = (None, dbs') \<Longrightarrow> name \<in> set dbs'"
  by (auto simp: exec_create_def Let_def split: option.splits if_splits)

lemma try_create_keeps: "spares name dbs (snd (try_create a name dbs))"
proof -
  note c = exec_create_keeps [of name dbs "at_create a"]
  note d = exec_drop_keeps [of name "snd (exec_create (at_create a) name dbs)" "at_drop a"]
  note r = exec_create_keeps [of name "snd (exec_drop (at_drop a) name (snd (exec_create (at_create a) name dbs)))"
      "at_recreate a"]
  show ?thesis
    using c spares_trans [OF c d] spares_trans [OF spares_trans [OF c d] r]
    by (auto simp: try_create_def split: prod.splits option.splits ddl_exc.splits)
qed

lemma try_create_done: "try_create a name dbs = (None, dbs') \<Longrightarrow> name \<in> set dbs'"
  by (auto simp: try_create_def dest: exec_create_done split: if_splits prod.splits option.splits ddl_exc.splits)

lemma heal_keeps: "spares name dbs (snd (heal_missing_template conf a dbs))"
  by (auto simp: heal_missing_template_def spares_def)

lemma create_loop_keeps:
  "spares name dbs (fst (snd (create_loop conf env name i healed delays dbs)))
   \<and> (fst (create_loop conf env name i healed delays dbs) = None \<longrightarrow>
        name \<in> set (fst (snd (create_loop conf env name i healed delays dbs))))"
proof (induction conf env name i healed delays dbs rule: create_loop.induct)
  case (1 conf env name i healed delays dbs)
  obtain r dbs1 where t: "try_create (env i) name dbs = (r, dbs1)" by fastforce
  have k1: "spares name dbs dbs1" using try_create_keeps [of name dbs "env i"] t by simp
  note step = create_loop.simps [of conf env name i healed delays dbs]
  show ?case
  proof (cases r)
    case None
    then show ?thesis using step t k1 try_create_done by simp
  next
    case (Some e)
    show ?thesis
    proof (cases e)
      case Object_in_use
      show ?thesis
      proof (cases delays)
        case Nil
        then show ?thesis using step t k1 Some Object_in_use by simp
      next
        case (Cons d ds)
        note IH = "1.IH"(1) [OF t [symmetric], unfolded Some Object_in_use, OF refl refl Cons]
        then show ?thesis using step t Some Object_in_use Cons spares_trans [OF k1] by simp
      qed
    next
      case Invalid_catalog
      obtain ok dbs2 where h: "heal_missing_template conf (env i) dbs1 = (ok, dbs2)" by fastforce
      have k2: "spares name dbs dbs2" using spares_trans [OF k1] heal_keeps [of name dbs1 conf "env i"] h by simp
      show ?thesis
      proof (cases "healed \<or> \<not> ok")
        case True
        then show ?thesis using step t k1 k2 Some Invalid_catalog h by auto
      next
        case False
        then have ok: "\<not> healed" "ok = True" by simp_all
        note IH = "1.IH"(2) [OF t [symmetric], unfolded Some Invalid_catalog, OF refl refl ok(1) h [symmetric] ok(2)]
        then show ?thesis using step t Some Invalid_catalog h ok spares_trans [OF k2] by simp
      qed
    qed (use step t k1 Some in simp_all)
  qed
qed

section \<open>Accounts stay consistent\<close>

text \<open>
  Every account has its own name, address, id and database, and that database exists.
\<close>

definition auth_inv :: "auth_db \<Rightarrow> bool" where
  "auth_inv db \<longleftrightarrow>
     users_table db \<noteq> None
     \<and> distinct (map u_name (rows db)) \<and> distinct (map u_email (rows db)) \<and> distinct (map u_id (rows db))
     \<and> (\<forall>u \<in> set (rows db). u_id u < next_user_id db \<and> u_tenant u = tenant_name (u_name u)
          \<and> u_tenant u \<in> set (databases db))"

lemma create_tenant_keeps:
  assumes "create_tenant_database conf env name dbs = (err, dbs')"
  shows "spares name dbs dbs' \<and> (err = None \<longrightarrow> name \<in> set dbs')"
proof (cases "name \<in> set reserved_tenant_db_names")
  case True
  then show ?thesis using assms by (auto simp: create_tenant_database_def)
next
  case False
  then show ?thesis
    using assms create_loop_keeps [of name dbs conf env 0 False template_busy_backoff]
    by (auto simp: create_tenant_database_def split: prod.splits)
qed

lemma drop_tenant_keeps: "spares name dbs (drop_tenant_database connects fault name dbs)"
  using exec_drop_keeps by (simp add: drop_tenant_database_def)

lemma insert_user_row_done:
  assumes "insert_user_row fate username email h tenant db = (Inr uid, db')"
  shows "\<exists>us. users_table db = Some us \<and> uid = next_user_id db
     \<and> db' = db\<lparr>users_table := Some (us @ [\<lparr>u_id = uid, u_name = username, u_email = email, u_hash = h, u_tenant = tenant\<rparr>]),
                next_user_id := uid + 1\<rparr>
     \<and> username \<notin> u_name ` set us \<and> email \<notin> u_email ` set us"
  using assms
  by (auto simp: insert_user_row_def Let_def list_ex_iff split: option.splits if_splits)

lemma insert_user_row_failed:
  assumes "insert_user_row fate username email h tenant db = (Inl e, db')" and "fate \<noteq> Unacknowledged"
  shows "db' = db"
  using assms by (cases fate) (auto simp: insert_user_row_def Let_def split: option.splits if_splits)

lemma register_user_cases:
  assumes "register_user lib conf env username email password db = (r, db')"
    and "re_insert env \<noteq> Unacknowledged" and "re_rollback env \<noteq> Rolled_back"
  obtains (refused) e where "r = Inl e" "db' = db"
  | (undone) e us dbs where "r = Inl e" "users_table db = Some us" "spares (tenant_name username) (databases db) dbs"
      "username \<notin> u_name ` set us"
      "db' = db\<lparr>users_table := Some (filter (\<lambda>u. u_id u \<noteq> next_user_id db) us),
                next_user_id := next_user_id db + 1, databases := dbs\<rparr>"
  | (added) us dbs where "users_table db = Some us" "spares (tenant_name username) (databases db) dbs"
      "tenant_name username \<in> set dbs" "username \<notin> u_name ` set us" "email \<notin> u_email ` set us"
      "r = Inr (build_auth_response lib conf (re_now env) (re_jti env) (next_user_id db) (tenant_name username))"
      "length (utf8 password) \<le> bcrypt_max_password_bytes"
      "db' = db\<lparr>users_table := Some (us @ [\<lparr>u_id = next_user_id db, u_name = username, u_email = email,
                   u_hash = hashpw lib (re_salt env) (utf8 password), u_tenant = tenant_name username\<rparr>]),
                next_user_id := next_user_id db + 1, databases := dbs\<rparr>"
proof -
  let ?tenant = "tenant_name username" and ?h = "hashpw lib (re_salt env) (utf8 password)"
  show thesis
  proof (cases "username = [] \<or> \<not> matches_name [] username \<or> username \<in> set reserved_usernames
      \<or> ?tenant \<in> set reserved_tenant_db_names \<or> validate_password_strength password \<noteq> None")
    case True
    then have "(\<exists>e. r = Inl e) \<and> db' = db"
      using assms(1) by (auto simp: register_user_def split: if_splits option.splits)
    then show thesis using refused by blast
  next
    case False
    then have len: "length (utf8 password) \<le> bcrypt_max_password_bytes"
      by (auto simp: validate_password_strength_def split: if_splits)
    then have hash: "hash_password lib (re_salt env) password = Inr ?h"
      by (simp add: hash_password_def encode_password_def Let_def)
    obtain ir db1 where ins: "insert_user_row (re_insert env) username email ?h ?tenant db = (ir, db1)" by fastforce
    show thesis
    proof (cases ir)
      case (Inl e)
      then have "db1 = db" using insert_user_row_failed ins assms(2) by blast
      then show thesis using assms(1) False hash ins Inl by (intro refused) (auto simp: register_user_def)
    next
      case (Inr uid)
      note row = insert_user_row_done [OF ins [unfolded Inr]]
      then obtain us where us: "users_table db = Some us" "username \<notin> u_name ` set us" "email \<notin> u_email ` set us"
          "uid = next_user_id db"
          "db1 = db\<lparr>users_table := Some (us @ [\<lparr>u_id = uid, u_name = username, u_email = email, u_hash = ?h,
              u_tenant = ?tenant\<rparr>]), next_user_id := uid + 1\<rparr>" by blast
      obtain err dbs where cr: "create_tenant_database conf (re_attempts env) ?tenant (databases db1) = (err, dbs)"
        by fastforce
      have k: "spares ?tenant (databases db) dbs" "err = None \<longrightarrow> ?tenant \<in> set dbs"
        using create_tenant_keeps [OF cr] us(5) by simp_all
      show thesis
      proof (cases err)
        case None
        have "r = Inr (build_auth_response lib conf (re_now env) (re_jti env) uid ?tenant)
            \<and> db' = db1\<lparr>databases := dbs\<rparr>"
          using assms(1) False hash ins Inr cr None by (auto simp: register_user_def)
        then show thesis using us k None len by (intro added) auto
      next
        case (Some e)
        let ?dbs = "drop_tenant_database (re_drop_connects env) (re_drop env) ?tenant dbs"
        have "r = Inl e \<and> db' = (rollback_user_row (re_rollback env) uid (db1\<lparr>databases := dbs\<rparr>))\<lparr>databases := ?dbs\<rparr>"
          using assms(1) False hash ins Inr cr Some by (auto simp: register_user_def)
        then show thesis
          using us spares_trans [OF k(1) drop_tenant_keeps] assms(3)
          by (intro undone [of e us ?dbs]) (auto simp: rollback_user_row_def)
      qed
    qed
  qed
qed

lemma tenant_name_inj [simp]: "tenant_name a = tenant_name b \<longleftrightarrow> a = b"
  by (simp add: tenant_name_def)

lemma auth_inv_keeps:
  assumes "auth_inv db" and "spares (tenant_name username) (databases db) dbs"
    and "username \<notin> u_name ` set (rows db)" and "u \<in> set (rows db)"
  shows "u_tenant u \<in> set dbs"
  using assms unfolding auth_inv_def spares_def by fastforce

lemma rows_update [simp]:
  "rows (db\<lparr>users_table := Some us, next_user_id := n, databases := dbs\<rparr>) = us"
  by (simp add: rows_def)


section \<open>Logging in\<close>

lemma fetch_login_row_new:
  "email \<notin> u_email ` set us \<Longrightarrow> u_email u = email \<Longrightarrow> find (\<lambda>u. u_email u = email) (us @ [u]) = Some u"
  by (induction us) auto

lemma login_user_one_check:
  "users_table db \<noteq> None \<Longrightarrow> length (snd (login_user lib conf now jti email password db)) = 1"
  by (auto simp: login_user_def Let_def)

lemma login_user_sound:
  assumes "fst (login_user lib conf now jti email password db) = Inr resp"
  shows "\<exists>u \<in> set (rows db). u_email u = email \<and> verify_password lib password (u_hash u) = Some True
    \<and> resp = build_auth_response lib conf now jti (u_id u) (u_tenant u)"
proof -
  obtain u where u: "fetch_login_row email db = Some u" "verify_password lib password (u_hash u) = Some True"
      "resp = build_auth_response lib conf now jti (u_id u) (u_tenant u)"
    using assms by (auto simp: login_user_def Let_def split: option.splits if_splits)
  have "u \<in> set (rows db) \<and> u_email u = email"
    using u(1) by (auto simp: fetch_login_row_def find_Some_iff)
  then show ?thesis using u by blast
qed

lemma new_account_logs_in:
  assumes "auth_inv db" and "\<forall>salt p. checkpw lib p (hashpw lib salt p) = Some True"
    and "register_user lib conf env username email password db = (Inr resp, db')"
    and "re_insert env \<noteq> Unacknowledged" and "re_rollback env \<noteq> Rolled_back"
  shows "fst (login_user lib conf now jti email password db') =
           Inr (build_auth_response lib conf now jti (next_user_id db) (tenant_name username))"
  using assms(3-5)
proof (cases rule: register_user_cases)
  case (added us dbs)
  let ?u = "\<lparr>u_id = next_user_id db, u_name = username, u_email = email,
      u_hash = hashpw lib (re_salt env) (utf8 password), u_tenant = tenant_name username\<rparr>"
  have rows: "rows db' = us @ [?u]" "users_table db' = Some (us @ [?u])" using added(8) by (simp_all add: rows_def)
  then have "fetch_login_row email db' = Some ?u"
    using fetch_login_row_new [OF added(5), of ?u] by (simp add: fetch_login_row_def)
  moreover have "verify_password lib password (u_hash ?u) = Some True"
    using assms(2) added(7) by (simp add: verify_password_def Let_def)
  ultimately show ?thesis using rows by (simp add: login_user_def)
qed simp_all

text \<open>A registration leaves the table in place, and a failed one its rows\<close>

lemma register_user_rows:
  assumes "auth_inv db" and "register_user lib conf env username email password db = (r, db')"
    and "re_insert env \<noteq> Unacknowledged" and "re_rollback env \<noteq> Rolled_back"
  shows "users_table db' \<noteq> None \<and> (isl r \<longrightarrow> rows db' = rows db)"
  using assms(2-4)
proof (cases rule: register_user_cases)
  case (undone e us dbs)
  have "filter (\<lambda>u. u_id u \<noteq> next_user_id db) us = us"
    using assms(1) undone(2) by (auto simp: auth_inv_def filter_id_conv rows_def)
  then show ?thesis using undone by (simp add: rows_def)
qed (use assms(1) in \<open>auto simp: auth_inv_def\<close>)

text \<open>
  Who registered can log in, and only with the password. If registration succeeded, logging in
  with the same address and password answers with the new account's id and database; any login that
  succeeds names an existing account whose stored hash its password matches; and every login, of a
  known or an unknown address, checks exactly one hash, so its work does not tell which it was.
\<close>

theorem registered_user_logs_in:
  assumes "auth_inv db" and "\<forall>salt p. checkpw lib p (hashpw lib salt p) = Some True"
    and "register_user lib conf env username email password db = (Inr resp, db')"
    and "re_insert env \<noteq> Unacknowledged" and "re_rollback env \<noteq> Rolled_back"
  shows "fst (login_user lib conf now jti email password db') =
           Inr (build_auth_response lib conf now jti (next_user_id db) (tenant_name username))
    \<and> (fst (login_user lib conf now jti email2 password2 db') = Inr resp2 \<longrightarrow>
         (\<exists>u \<in> set (rows db'). u_email u = email2 \<and> verify_password lib password2 (u_hash u) = Some True
            \<and> resp2 = build_auth_response lib conf now jti (u_id u) (u_tenant u)))
    \<and> length (snd (login_user lib conf now jti email2 password2 db')) = 1"
  using new_account_logs_in [OF assms] login_user_sound login_user_one_check
    register_user_rows [OF assms(1,3,4,5)] by blast

section \<open>An example\<close>

definition plain_lib :: auth_lib where
  "plain_lib = \<lparr>hashpw = (\<lambda>_ p. CHR ''$'' # p), checkpw = (\<lambda>p h. Some (h = CHR ''$'' # p)),
     jwt_encode = (\<lambda>_. ''jwt''), hmac_sha256 = (\<lambda>_ _. ''mac'')\<rparr>"

definition server_conf :: auth_conf where
  "server_conf = \<lparr>shuake_secret = None, expire_minutes = 60, local_profile = False, auto_bootstrap = True,
     dummy_hash = ''$dummy''\<rparr>"

definition fresh_server :: auth_db where
  "fresh_server = \<lparr>users_table = Some [], next_user_id = 1, databases = [''tenant_alice'', template_db]\<rparr>"

text \<open>The first attempt finds an orphan and cannot drop it, the second finds the template busy\<close>

definition bumpy :: reg_env where
  "bumpy = \<lparr>re_salt = [], re_insert = Committed,
     re_attempts = (\<lambda>i. \<lparr>at_connects = True, at_create = (if i = 1 then Some (Object_in_use, False) else None),
        at_drop = (if i = 0 then Some (Object_in_use, False) else None), at_recreate = None, at_heals = True\<rparr>),
     re_rollback = Committed, re_drop_connects = True, re_drop = None, re_now = 5, re_jti = ''j''\<rparr>"

text \<open>The same server when the connection is lost instead\<close>

definition lost :: reg_env where
  "lost = bumpy\<lparr>re_attempts := (\<lambda>_. \<lparr>at_connects = False, at_create = None, at_drop = None,
     at_recreate = None, at_heals = False\<rparr>)\<rparr>"

lemma fresh_server_inv: "auth_inv fresh_server"
  by (simp add: auth_inv_def fresh_server_def rows_def)


lemma registered_user_logs_in_witness:
  "fst (login_user plain_lib server_conf 9 ''k'' ''a@b.c'' ''Passw0rd''
      (snd (register_user plain_lib server_conf bumpy ''alice'' ''a@b.c'' ''Passw0rd'' fresh_server))) =
     Inr (build_auth_response plain_lib server_conf 9 ''k'' 1 ''tenant_alice'')"
proof -
  let ?r = "register_user plain_lib server_conf bumpy ''alice'' ''a@b.c'' ''Passw0rd'' fresh_server"
  have "fst ?r = Inr (build_auth_response plain_lib server_conf 5 ''j'' 1 ''tenant_alice'')"
    by code_simp
  then have r: "?r = (Inr (build_auth_response plain_lib server_conf 5 ''j'' 1 ''tenant_alice''), snd ?r)"
    by (simp add: prod_eq_iff)
  have law: "\<forall>salt p. checkpw plain_lib p (hashpw plain_lib salt p) = Some True" by (simp add: plain_lib_def)
  have "re_insert bumpy \<noteq> Unacknowledged" "re_rollback bumpy \<noteq> Rolled_back" by (simp_all add: bumpy_def)
  from registered_user_logs_in [OF fresh_server_inv law r this, of 9 "''k''"] show ?thesis
    by (simp add: fresh_server_def tenant_name_def)
qed

text \<open>
  The user-name pattern accepts a name that ends in a line feed: the dollar also matches in front
  of it, so the reserved name \<open>template\<close> gets past the reserved list with one appended.
\<close>

lemma username_with_newline_accepted:
  "validate_username (''template'' @ [char_of (10 :: nat)])
   \<and> isl (fst (register_user plain_lib server_conf bumpy (''template'' @ [char_of (10 :: nat)]) ''a@b.c''
            ''Passw0rd'' fresh_server)) = False"
  by (intro conjI) code_simp+

text \<open>
  An insert whose commit is applied but not acknowledged ends the registration before the
  compensation can start: the account stays without a database, and its name and address are taken.
\<close>

lemma unacknowledged_insert_orphans_account:
  "fst (register_user plain_lib server_conf (bumpy\<lparr>re_insert := Unacknowledged\<rparr>) ''bob'' ''b@b.c'' ''Passw0rd'' fresh_server)
     = Inl Db_error
   \<and> map u_name (rows (snd (register_user plain_lib server_conf (bumpy\<lparr>re_insert := Unacknowledged\<rparr>)
       ''bob'' ''b@b.c'' ''Passw0rd'' fresh_server))) = [''bob'']
   \<and> tenant_name ''bob'' \<notin> set (databases (snd (register_user plain_lib server_conf
       (bumpy\<lparr>re_insert := Unacknowledged\<rparr>) ''bob'' ''b@b.c'' ''Passw0rd'' fresh_server)))"
  by (intro conjI) code_simp+

end
