(* ===== verification/Py_Regex.thy ===== *)
theory Py_Regex
  imports Py_Prelude
begin

text \<open>
  The part of Python's \<open>re\<close> the program uses, as a backtracking matcher: a position of the text is
  the character before it, the text after it and the groups captured so far, and \<open>runs r p\<close> is the
  list of positions a match of \<open>r\<close> from \<open>p\<close> can end at, the preferred one first. A greedy repetition
  prefers more turns, and a turn that consumes nothing ends it.
\<close>

datatype char_class =
    Only char
  | Nocase char
  | Among string
  | Except string
  | Space
  | Digit

fun in_class :: "char_class \<Rightarrow> char \<Rightarrow> bool" where
  "in_class (Only c) x = (x = c)"
| "in_class (Nocase c) x = (py_lower_char x = py_lower_char c)"
| "in_class (Among cs) x = (x \<in> set cs)"
| "in_class (Except cs) x = (x \<notin> set cs)"
| "in_class Space x = py_isspace x"
| "in_class Digit x = is_digit x"

datatype re =
    Eps
  | Chars char_class
  | Seq re re
  | Or re re
  | Many re
  | Group nat re
  | Word_edge

record pos =
  prev :: "char option"
  rest :: string
  groups :: "(nat \<times> string) list"

definition is_word_char :: "char \<Rightarrow> bool" where
  "is_word_char c =
     (let n = (of_char c :: nat)
      in (48 \<le> n \<and> n \<le> 57) \<or> (65 \<le> n \<and> n \<le> 90) \<or> n = 95 \<or> (97 \<le> n \<and> n \<le> 122)
         \<or> n \<in> {170, 178, 179, 181, 185, 186, 188, 189, 190}
         \<or> (192 \<le> n \<and> n \<noteq> 215 \<and> n \<noteq> 247))"

definition word_at :: "char option \<Rightarrow> bool" where
  "word_at c = (case c of None \<Rightarrow> False | Some x \<Rightarrow> is_word_char x)"

definition next_char :: "string \<Rightarrow> char option" where
  "next_char s = (case s of [] \<Rightarrow> None | c # _ \<Rightarrow> Some c)"

definition shorter :: "pos \<Rightarrow> pos \<Rightarrow> bool" where
  "shorter p q = (length (rest q) < length (rest p))"

function (sequential) runs :: "re \<Rightarrow> pos \<Rightarrow> pos list" where
  "runs Eps p = [p]"
| "runs (Chars P) p =
     (case rest p of
        [] \<Rightarrow> []
      | c # cs \<Rightarrow> (if in_class P c then [p\<lparr>prev := Some c, rest := cs\<rparr>] else []))"
| "runs (Seq r q) p = concat (map (runs q) (runs r p))"
| "runs (Or r q) p = runs r p @ runs q p"
| "runs (Many r) p = concat (map (runs (Many r)) (filter (shorter p) (runs r p))) @ [p]"
| "runs (Group k r) p =
     map (\<lambda>q. q\<lparr>groups := (k, take (length (rest p) - length (rest q)) (rest p)) # groups q\<rparr>) (runs r p)"
| "runs Word_edge p = (if word_at (prev p) \<noteq> word_at (next_char (rest p)) then [p] else [])"
  by pat_completeness auto
termination
  by (relation "measures [size \<circ> fst, length \<circ> rest \<circ> snd]") (auto simp: shorter_def)

declare runs.simps(5) [simp del]

text \<open>\<open>re.match\<close> at a position, and \<open>re.search\<close>: the leftmost position with a match\<close>

definition match_at :: "re \<Rightarrow> char option \<Rightarrow> string \<Rightarrow> pos option" where
  "match_at r c s = (case runs r \<lparr>prev = c, rest = s, groups = []\<rparr> of [] \<Rightarrow> None | p # _ \<Rightarrow> Some p)"

fun search_from :: "re \<Rightarrow> char option \<Rightarrow> string \<Rightarrow> pos option" where
  "search_from r c [] = match_at r c []"
| "search_from r c (x # xs) =
     (case match_at r c (x # xs) of Some p \<Rightarrow> Some p | None \<Rightarrow> search_from r (Some x) xs)"

definition re_search :: "re \<Rightarrow> string \<Rightarrow> pos option" where
  "re_search r s = search_from r None s"

definition re_found :: "re \<Rightarrow> string \<Rightarrow> bool" where
  "re_found r s = (re_search r s \<noteq> None)"

text \<open>\<open>match.group(k)\<close>: what the group captured last\<close>

definition group_of :: "nat \<Rightarrow> pos \<Rightarrow> string" where
  "group_of k p = (case map_of (groups p) k of None \<Rightarrow> [] | Some s \<Rightarrow> s)"

section \<open>Building patterns\<close>

definition one_of :: "string \<Rightarrow> re" where
  "one_of cs = Chars (Among cs)"

definition none_of :: "string \<Rightarrow> re" where
  "none_of cs = Chars (Except cs)"

text \<open>A text, and a text under \<open>IGNORECASE\<close>\<close>

definition lit :: "string \<Rightarrow> re" where
  "lit s = foldr (\<lambda>c. Seq (Chars (Only c))) s Eps"

definition ilit :: "string \<Rightarrow> re" where
  "ilit s = foldr (\<lambda>c. Seq (Chars (Nocase c))) s Eps"

definition seqs :: "re list \<Rightarrow> re" where
  "seqs rs = foldr Seq rs Eps"

definition alts :: "re \<Rightarrow> re list \<Rightarrow> re" where
  "alts r rs = foldl Or r rs"

definition many1 :: "re \<Rightarrow> re" where
  "many1 r = Seq r (Many r)"

definition opt :: "re \<Rightarrow> re" where
  "opt r = Or r Eps"

definition spaces :: re where
  "spaces = Many (Chars Space)"

definition quote_chars :: string where
  "quote_chars = [char_of (34 :: nat), char_of (39 :: nat)]"

section \<open>What a match says about the text\<close>

lemma in_runs_Many:
  "q \<in> set (runs (Many r) p) \<longleftrightarrow>
     q = p \<or> (\<exists>p' \<in> set (runs r p). shorter p p' \<and> q \<in> set (runs (Many r) p'))"
  by (subst runs.simps(5)) auto

text \<open>A run consumes a part of the text: what is left of the text is a suffix of it.\<close>

definition suffix_of :: "string \<Rightarrow> string \<Rightarrow> bool" where
  "suffix_of t s \<longleftrightarrow> (\<exists>u. s = u @ t)"

lemma suffix_of_refl [simp]: "suffix_of s s"
  by (simp add: suffix_of_def)

lemma suffix_of_trans: "suffix_of u t \<Longrightarrow> suffix_of t s \<Longrightarrow> suffix_of u s"
  by (auto simp: suffix_of_def)

lemma suffix_of_Cons: "suffix_of t s \<Longrightarrow> suffix_of t (c # s)"
  by (auto simp: suffix_of_def)

lemma runs_suffix: "q \<in> set (runs r p) \<Longrightarrow> suffix_of (rest q) (rest p)"
proof (induction r p arbitrary: q rule: runs.induct)
  case (2 P p)
  then show ?case
    by (cases "rest p") (auto simp: suffix_of_def split: if_splits)
next
  case (3 r q' p)
  then show ?case by (auto intro: suffix_of_trans)
next
  case (5 r p)
  from iffD1 [OF in_runs_Many "5.prems"] show ?case
    using "5.IH" by (auto intro: suffix_of_trans)
qed (auto split: if_splits)

text \<open>The characters a group captures, where all its alternatives are repetitions of one class\<close>

lemma runs_class:
  "q \<in> set (runs (Many (Chars P)) p) \<Longrightarrow> \<exists>u. rest p = u @ rest q \<and> list_all (in_class P) u \<and> groups q = groups p"
proof (induction "length (rest p)" arbitrary: p rule: less_induct)
  case less
  from iffD1 [OF in_runs_Many less.prems] consider "q = p" | p' where "p' \<in> set (runs (Chars P) p)" "shorter p p'" "q \<in> set (runs (Many (Chars P)) p')"
    by blast
  then show ?case
  proof cases
    case 2
    then obtain c where c: "rest p = c # rest p'" "in_class P c" "groups p' = groups p"
      by (cases "rest p") (auto split: if_splits)
    obtain u where "rest p' = u @ rest q" "list_all (in_class P) u" "groups q = groups p'"
      using less(1) [of p'] 2(2,3) by (auto simp: shorter_def)
    with c show ?thesis by (intro exI [of _ "c # u"]) simp
  qed simp
qed

lemma search_from_match:
  "search_from r c s = Some p \<Longrightarrow> \<exists>c' t. suffix_of t s \<and> match_at r c' t = Some p"
proof (induction s arbitrary: c)
  case (Cons x xs)
  show ?case
  proof (cases "match_at r c (x # xs)")
    case None
    with Cons.prems obtain c' t where "suffix_of t xs" "match_at r c' t = Some p"
      using Cons.IH [of "Some x"] by auto
    then show ?thesis using suffix_of_Cons by blast
  next
    case (Some q)
    with Cons.prems have "match_at r c (x # xs) = Some p" by simp
    then show ?thesis using suffix_of_refl by blast
  qed
qed (use suffix_of_refl in force)

lemma re_search_match: "re_search r s = Some p \<Longrightarrow> \<exists>c' t. suffix_of t s \<and> match_at r c' t = Some p"
  unfolding re_search_def by (rule search_from_match)

end
