(* ===== verification/Web_Session.thy ===== *)
theory Web_Session
  imports Py_Prelude
begin

text \<open>
  Code that talks to a remote site through a \<open>requests.Session\<close>, as functions of a network state
  that return a value or raise. The network is a parameter (\<open>web\<close>): what it answers to a request
  may depend on everything that happened before, which its state \<open>'w\<close> holds, and so do the cookies
  of a session and the clock. The requests that were made are recorded, in order, with the session
  that made them; the record can be extended with what else an operation leaves behind.
\<close>

datatype http_exc =
    Session_expired string
  | Request_error string
  | Other_exc string

text \<open>The two exceptions that \<open>except requests.RequestException\<close> catches\<close>

definition is_request_exc :: "http_exc \<Rightarrow> bool" where
  "is_request_exc e = (case e of Other_exc _ \<Rightarrow> False | _ \<Rightarrow> True)"

text \<open>\<open>str(exc)\<close>\<close>

definition exc_str :: "http_exc \<Rightarrow> string" where
  "exc_str e = (case e of Session_expired s \<Rightarrow> s | Request_error s \<Rightarrow> s | Other_exc s \<Rightarrow> s)"

datatype verb = GET | POST

text \<open>
  A request: its query parameters and its form fields. Headers and timeouts are left out. A file
  that is uploaded is its content.
\<close>

record request =
  rq_verb :: verb
  rq_url :: string
  rq_params :: pydict
  rq_form :: pydict
  rq_file :: string

text \<open>\<open>rs_json\<close> is what \<open>resp.json()\<close> returns, \<open>None\<close> where it raises \<open>ValueError\<close>\<close>

record response =
  rs_status :: int
  rs_url :: string
  rs_location :: string
  rs_text :: string
  rs_json :: "pyval option"

record 'w web =
  web_send :: "nat \<Rightarrow> request \<Rightarrow> 'w \<Rightarrow> (http_exc + response) \<times> 'w"
  web_cookie :: "nat \<Rightarrow> string \<Rightarrow> 'w \<Rightarrow> string option"
  web_ms :: "'w \<Rightarrow> int"
  web_iso :: "'w \<Rightarrow> string"

record 'w net =
  sent :: "(nat \<times> request) list"
  sessions :: nat
  world :: 'w

type_synonym ('w, 'z, 'a) io = "('w, 'z) net_scheme \<Rightarrow> (http_exc + 'a) \<times> ('w, 'z) net_scheme"

section \<open>Composing operations\<close>

definition io_return :: "'a \<Rightarrow> ('w, 'z, 'a) io" where
  "io_return x n = (Inr x, n)"

definition io_raise :: "http_exc \<Rightarrow> ('w, 'z, 'a) io" where
  "io_raise e n = (Inl e, n)"

definition io_bind :: "('w, 'z, 'a) io \<Rightarrow> ('a \<Rightarrow> ('w, 'z, 'b) io) \<Rightarrow> ('w, 'z, 'b) io" where
  "io_bind m f n = (case m n of (Inl e, n1) \<Rightarrow> (Inl e, n1) | (Inr x, n1) \<Rightarrow> f x n1)"

text \<open>\<open>try: m except <the exceptions in P> as exc: handler\<close>\<close>

definition io_try :: "(http_exc \<Rightarrow> bool) \<Rightarrow> ('w, 'z, 'a) io \<Rightarrow> (http_exc \<Rightarrow> ('w, 'z, 'a) io) \<Rightarrow> ('w, 'z, 'a) io" where
  "io_try P m handler n =
     (case m n of
        (Inl e, n1) \<Rightarrow> (if P e then handler e n1 else (Inl e, n1))
      | (Inr x, n1) \<Rightarrow> (Inr x, n1))"

text \<open>A \<open>for\<close> loop that changes the variables \<open>s\<close>\<close>

fun io_for :: "('a \<Rightarrow> 's \<Rightarrow> ('w, 'z, 's) io) \<Rightarrow> 'a list \<Rightarrow> 's \<Rightarrow> ('w, 'z, 's) io" where
  "io_for body [] s = io_return s"
| "io_for body (x # xs) s = io_bind (body x s) (io_for body xs)"

text \<open>A value or an exception, without any effect\<close>

definition io_of :: "http_exc + 'a \<Rightarrow> ('w, 'z, 'a) io" where
  "io_of r n = (r, n)"

text \<open>What the state says\<close>

definition io_get :: "(('w, 'z) net_scheme \<Rightarrow> 'a) \<Rightarrow> ('w, 'z, 'a) io" where
  "io_get f n = (Inr (f n), n)"

definition http :: "'w web \<Rightarrow> nat \<Rightarrow> request \<Rightarrow> ('w, 'z, response) io" where
  "http web sid rq n =
     (let (r, w) = web_send web sid rq (world n)
      in (r, n\<lparr>sent := sent n @ [(sid, rq)], world := w\<rparr>))"

definition get_request :: "string \<Rightarrow> pydict \<Rightarrow> request" where
  "get_request url params =
     \<lparr>rq_verb = GET, rq_url = url, rq_params = params, rq_form = [], rq_file = []\<rparr>"

definition post_request :: "string \<Rightarrow> pydict \<Rightarrow> pydict \<Rightarrow> string \<Rightarrow> request" where
  "post_request url params form file =
     \<lparr>rq_verb = POST, rq_url = url, rq_params = params, rq_form = form, rq_file = file\<rparr>"

definition cookie :: "'w web \<Rightarrow> nat \<Rightarrow> string \<Rightarrow> ('w, 'z) net_scheme \<Rightarrow> string" where
  "cookie web sid name n = (case web_cookie web sid name (world n) of None \<Rightarrow> [] | Some v \<Rightarrow> v)"

text \<open>\<open>requests.Session()\<close>\<close>

definition new_session :: "('w, 'z, nat) io" where
  "new_session n = (Inr (sessions n), n\<lparr>sessions := Suc (sessions n)\<rparr>)"

section \<open>What an operation does to the state\<close>

text \<open>
  \<open>io_all P Q R m\<close>: from a state with \<open>P\<close>, \<open>m\<close> ends in a state and with a value that satisfy \<open>Q\<close>,
  or in a state and with an exception that satisfy \<open>R\<close>.
\<close>

definition io_all ::
  "(('w, 'z) net_scheme \<Rightarrow> bool) \<Rightarrow> ('w, 'z, 'a) io \<Rightarrow> ('a \<Rightarrow> ('w, 'z) net_scheme \<Rightarrow> bool)
     \<Rightarrow> (http_exc \<Rightarrow> ('w, 'z) net_scheme \<Rightarrow> bool) \<Rightarrow> bool" where
  "io_all P m Q R \<longleftrightarrow> (\<forall>n. P n \<longrightarrow> (case m n of (Inl e, n') \<Rightarrow> R e n' | (Inr x, n') \<Rightarrow> Q x n'))"

named_theorems io_rules \<open>how the conditions of an operation follow from those of its parts\<close>

lemma io_allD:
  assumes "io_all P m Q R" and "P n"
  shows "m n = (Inr x, n') \<Longrightarrow> Q x n'" and "m n = (Inl e, n') \<Longrightarrow> R e n'"
  using assms by (auto simp: io_all_def split: prod.splits sum.splits)

lemma io_allI:
  assumes "\<And>n x n'. P n \<Longrightarrow> m n = (Inr x, n') \<Longrightarrow> Q x n'"
    and "\<And>n e n'. P n \<Longrightarrow> m n = (Inl e, n') \<Longrightarrow> R e n'"
  shows "io_all P m Q R"
  using assms by (auto simp: io_all_def split: prod.splits sum.splits)

lemma io_all_return [io_rules]: "(\<And>n. P n \<Longrightarrow> Q x n) \<Longrightarrow> io_all P (io_return x) Q R"
  by (simp add: io_all_def io_return_def)

lemma io_all_raise [io_rules]: "(\<And>n. P n \<Longrightarrow> R e n) \<Longrightarrow> io_all P (io_raise e) Q R"
  by (simp add: io_all_def io_raise_def)

lemma io_all_of [io_rules]:
  "(\<And>x n. r = Inr x \<Longrightarrow> P n \<Longrightarrow> Q x n) \<Longrightarrow> (\<And>e n. r = Inl e \<Longrightarrow> P n \<Longrightarrow> R e n) \<Longrightarrow> io_all P (io_of r) Q R"
  by (auto simp: io_all_def io_of_def split: sum.splits)

lemma io_all_get [io_rules]: "(\<And>n. P n \<Longrightarrow> Q (f n) n) \<Longrightarrow> io_all P (io_get f) Q R"
  by (simp add: io_all_def io_get_def)

lemma io_all_bind [io_rules]:
  assumes "io_all P m Q R" and "\<And>x. io_all (Q x) (f x) S R"
  shows "io_all P (io_bind m f) S R"
proof (rule io_allI)
  fix n y n' assume "P n" and "io_bind m f n = (Inr y, n')"
  moreover from this obtain x n1 where "m n = (Inr x, n1)" "f x n1 = (Inr y, n')"
    by (auto simp: io_bind_def split: prod.splits sum.splits)
  ultimately show "S y n'" using io_allD [OF assms(1)] io_allD [OF assms(2)] by blast
next
  fix n e n' assume p: "P n" and "io_bind m f n = (Inl e, n')"
  then consider "m n = (Inl e, n')" | x n1 where "m n = (Inr x, n1)" "f x n1 = (Inl e, n')"
    by (auto simp: io_bind_def split: prod.splits sum.splits)
  then show "R e n'"
    by cases (use p io_allD [OF assms(1)] io_allD [OF assms(2)] in blast)+
qed

lemma io_all_try [io_rules]:
  assumes "io_all P m Q R'" and "\<And>e. C e \<Longrightarrow> io_all (R' e) (handler e) Q R"
    and "\<And>e n. \<not> C e \<Longrightarrow> R' e n \<Longrightarrow> R e n"
  shows "io_all P (io_try C m handler) Q R"
proof (rule io_allI)
  fix n y n' assume p: "P n" and "io_try C m handler n = (Inr y, n')"
  then consider "m n = (Inr y, n')" | e n1 where "m n = (Inl e, n1)" "C e" "handler e n1 = (Inr y, n')"
    by (auto simp: io_try_def split: prod.splits sum.splits if_splits)
  then show "Q y n'"
    by cases (use p io_allD [OF assms(1)] io_allD [OF assms(2)] in blast)+
next
  fix n e n' assume p: "P n" and "io_try C m handler n = (Inl e, n')"
  then consider "m n = (Inl e, n')" "\<not> C e" | d n1 where "m n = (Inl d, n1)" "C d" "handler d n1 = (Inl e, n')"
    by (auto simp: io_try_def split: prod.splits sum.splits if_splits)
  then show "R e n'"
    by cases (use p assms(3) io_allD [OF assms(1)] io_allD [OF assms(2)] in blast)+
qed

text \<open>A loop keeps an invariant that each turn keeps\<close>

lemma io_all_for [io_rules]:
  assumes "\<And>x s. x \<in> set xs \<Longrightarrow> io_all (I s) (body x s) I R"
  shows "io_all (I s) (io_for body xs s) I R"
  using assms
proof (induction xs arbitrary: s)
  case Nil
  then show ?case by (simp add: io_all_return)
next
  case (Cons x xs)
  then show ?case by (auto intro!: io_all_bind [of "I s" "body x s" I])
qed

lemma io_all_weaken:
  assumes "io_all P m Q R" and "\<And>n. P' n \<Longrightarrow> P n" and "\<And>x n. Q x n \<Longrightarrow> Q' x n" and "\<And>e n. R e n \<Longrightarrow> R' e n"
  shows "io_all P' m Q' R'"
  using assms io_allD [OF assms(1)] by (intro io_allI) blast+

lemma io_all_http:
  assumes "\<And>n r w. P n \<Longrightarrow> Q' (n\<lparr>sent := sent n @ [(sid, rq)], world := w\<rparr>)"
  shows "io_all P (http web sid rq) (\<lambda>_. Q') (\<lambda>_. Q')"
  using assms by (simp add: io_all_def http_def case_prod_beta Let_def split: sum.splits)

text \<open>
  \<open>makes P m\<close>: whatever the state, every request \<open>m\<close> makes satisfies \<open>P\<close>, and nothing of the
  state but the requests, the number of sessions and the outside world changes.
\<close>

definition only_sends :: "(nat \<times> request \<Rightarrow> bool) \<Rightarrow> ('w, 'z) net_scheme \<Rightarrow> ('w, 'z) net_scheme \<Rightarrow> bool" where
  "only_sends P n n' \<longleftrightarrow> (\<exists>rs. sent n' = sent n @ rs \<and> list_all P rs)
     \<and> net.more n' = net.more n \<and> sessions n \<le> sessions n'"

definition makes :: "(nat \<times> request \<Rightarrow> bool) \<Rightarrow> ('w, 'z, 'a) io \<Rightarrow> bool" where
  "makes P m \<longleftrightarrow> (\<forall>n. only_sends P n (snd (m n)))"

lemma only_sends_refl [simp, intro]: "only_sends P n n"
  by (simp add: only_sends_def)

lemma only_sends_trans: "only_sends P a b \<Longrightarrow> only_sends P b c \<Longrightarrow> only_sends P a c"
  unfolding only_sends_def by (metis append.assoc list_all_append order_trans)

lemma only_sends_mono: "only_sends P n n' \<Longrightarrow> (\<And>x. P x \<Longrightarrow> Q x) \<Longrightarrow> only_sends Q n n'"
  unfolding only_sends_def list_all_iff by blast

named_theorems makes_rules \<open>the requests of an operation are those of its parts\<close>

lemma makes_return [makes_rules]: "makes P (io_return x)"
  by (simp add: makes_def io_return_def)

lemma makes_raise [makes_rules]: "makes P (io_raise e)"
  by (simp add: makes_def io_raise_def)

lemma makes_of [makes_rules]: "makes P (io_of r)"
  by (simp add: makes_def io_of_def)

lemma makes_get [makes_rules]: "makes P (io_get f)"
  by (simp add: makes_def io_get_def)

lemma makes_http [makes_rules]: "P (sid, rq) \<Longrightarrow> makes P (http web sid rq)"
  by (auto simp: makes_def http_def only_sends_def case_prod_beta Let_def)

lemma makes_new_session [makes_rules]: "makes P new_session"
  by (simp add: makes_def new_session_def only_sends_def)

lemma makes_bind [makes_rules]:
  assumes "makes P m" and "\<And>x. makes P (f x)"
  shows "makes P (io_bind m f)"
  unfolding makes_def
proof
  fix n
  obtain r n1 where m: "m n = (r, n1)" by fastforce
  have "only_sends P n n1" using assms(1) m unfolding makes_def by (metis snd_conv)
  moreover have "only_sends P n1 (snd (f x n1))" for x using assms(2) by (simp add: makes_def)
  ultimately show "only_sends P n (snd (io_bind m f n))"
    using m by (auto simp: io_bind_def intro: only_sends_trans split: sum.splits)
qed

lemma makes_try [makes_rules]:
  assumes "makes P m" and "\<And>e. makes P (h e)"
  shows "makes P (io_try C m h)"
  unfolding makes_def
proof
  fix n
  obtain r n1 where m: "m n = (r, n1)" by fastforce
  have "only_sends P n n1" using assms(1) m unfolding makes_def by (metis snd_conv)
  moreover have "only_sends P n1 (snd (h x n1))" for x using assms(2) by (simp add: makes_def)
  ultimately show "only_sends P n (snd (io_try C m h n))"
    using m by (auto simp: io_try_def intro: only_sends_trans split: sum.splits)
qed

lemma makes_for [makes_rules]:
  assumes "\<And>x s. x \<in> set xs \<Longrightarrow> makes P (body x s)"
  shows "makes P (io_for body xs s)"
  using assms by (induction xs arbitrary: s) (auto intro!: makes_rules)

lemma makes_mono: "makes P m \<Longrightarrow> (\<And>x. P x \<Longrightarrow> Q x) \<Longrightarrow> makes Q m"
  unfolding makes_def using only_sends_mono by blast

lemma makes_sent:
  assumes "makes P m" and "m n = (r, n')"
  obtains rs where "sent n' = sent n @ rs" and "list_all P rs" and "net.more n' = net.more n"
  using assms unfolding makes_def only_sends_def by (metis snd_conv)

text \<open>\<open>raises E m\<close>: every exception \<open>m\<close> raises satisfies \<open>E\<close>\<close>

definition raises :: "(http_exc \<Rightarrow> bool) \<Rightarrow> ('w, 'z, 'a) io \<Rightarrow> bool" where
  "raises E m \<longleftrightarrow> (\<forall>n e. fst (m n) = Inl e \<longrightarrow> E e)"

named_theorems raises_rules \<open>the exceptions of an operation are those of its parts\<close>

lemma raisesD: "raises E m \<Longrightarrow> m n = (Inl e, n') \<Longrightarrow> E e"
  unfolding raises_def by (metis fst_conv)

lemma raises_return [raises_rules]: "raises E (io_return x)"
  by (simp add: raises_def io_return_def)

lemma raises_raise [raises_rules]: "E e \<Longrightarrow> raises E (io_raise e)"
  by (simp add: raises_def io_raise_def)

lemma raises_of [raises_rules]: "(\<And>e. r = Inl e \<Longrightarrow> E e) \<Longrightarrow> raises E (io_of r)"
  by (simp add: raises_def io_of_def)

lemma raises_get [raises_rules]: "raises E (io_get f)"
  by (simp add: raises_def io_get_def)

lemma raises_new_session [raises_rules]: "raises E new_session"
  by (simp add: raises_def new_session_def)

lemma raises_http:
  "(\<And>w e. fst (web_send web sid rq w) = Inl e \<Longrightarrow> E e) \<Longrightarrow> raises E (http web sid rq)"
  by (auto simp: raises_def http_def case_prod_beta Let_def)

lemma raises_bind [raises_rules]: "raises E m \<Longrightarrow> (\<And>x. raises E (f x)) \<Longrightarrow> raises E (io_bind m f)"
  unfolding raises_def io_bind_def
  by (auto simp: case_prod_beta split: sum.splits)

lemma raises_try:
  "raises D m \<Longrightarrow> (\<And>e. D e \<Longrightarrow> \<not> C e \<Longrightarrow> E e) \<Longrightarrow> (\<And>e. raises E (h e)) \<Longrightarrow> raises E (io_try C m h)"
  unfolding raises_def io_try_def
  by (auto simp: case_prod_beta split: sum.splits if_splits)

lemma raises_try_same [raises_rules]: "raises E m \<Longrightarrow> (\<And>e. raises E (h e)) \<Longrightarrow> raises E (io_try C m h)"
  by (rule raises_try)

lemma raises_for [raises_rules]:
  "(\<And>x s. x \<in> set xs \<Longrightarrow> raises E (body x s)) \<Longrightarrow> raises E (io_for body xs s)"
  by (induction xs arbitrary: s) (auto intro!: raises_rules)

lemma io_for_Cons_run:
  "io_for body (x # xs) s n = (case body x s n of (Inl e, n1) \<Rightarrow> (Inl e, n1) | (Inr s1, n1) \<Rightarrow> io_for body xs s1 n1)"
  by (simp add: io_bind_def)

lemma io_bind_Inr:
  "io_bind m f n = (Inr y, n') \<longleftrightarrow> (\<exists>x n1. m n = (Inr x, n1) \<and> f x n1 = (Inr y, n'))"
  by (auto simp: io_bind_def split: prod.splits sum.splits)

lemma io_try_Inr:
  "io_try C m h n = (Inr y, n') \<longleftrightarrow>
     m n = (Inr y, n') \<or> (\<exists>e n1. m n = (Inl e, n1) \<and> C e \<and> h e n1 = (Inr y, n'))"
  by (auto simp: io_try_def split: prod.splits sum.splits if_splits)

lemma io_return_Inr [simp]: "io_return x n = (Inr y, n') \<longleftrightarrow> y = x \<and> n' = n"
  by (auto simp: io_return_def)

lemma io_raise_Inr [simp]: "io_raise e n \<noteq> (Inr y, n')"
  by (simp add: io_raise_def)

lemma io_get_Inr [simp]: "io_get f n = (Inr y, n') \<longleftrightarrow> y = f n \<and> n' = n"
  by (auto simp: io_get_def)

lemma io_of_Inr [simp]: "io_of r n = (Inr y, n') \<longleftrightarrow> r = Inr y \<and> n' = n"
  by (auto simp: io_of_def)

text \<open>A loop that returns keeps an invariant of its variables\<close>

lemma io_for_invariant:
  assumes "io_for body xs s n = (Inr t, n')" and "I s"
    and "\<And>x s n s' n'. x \<in> set xs \<Longrightarrow> I s \<Longrightarrow> body x s n = (Inr s', n') \<Longrightarrow> I s'"
  shows "I t"
  using assms
proof (induction xs arbitrary: s n)
  case (Cons x xs)
  then obtain s1 n1 where "body x s n = (Inr s1, n1)" "io_for body xs s1 n1 = (Inr t, n')"
    by (auto simp: io_bind_Inr)
  with Cons.IH [of s1 n1] Cons.prems(2,3) show ?case by (metis list.set_intros)
qed simp

end
