(* ===== verification/Signin_Client.thy ===== *)
theory Signin_Client
  imports Py_Regex Web_Session Py_Urlsplit Task_Input
begin

text \<open>
  \<open>ChaoxingSigninClient\<close> (\<open>services/course/chaoxing/signin.py\<close>): one user's session with Chaoxing,
  from login over the scan for active sign-in activities to the submission of a sign-in.

  The remote site is the parameter \<open>web\<close> of \<open>Web_Session\<close>. What the code uses of DES and AES, of
  \<open>html.unescape\<close> and \<open>urllib.parse.unquote\<close>, of BeautifulSoup and of the scanner of course cards
  (\<open>_parse_courses\<close>) is the record \<open>si_lib\<close>; so are the patterns of Chinese words, which a text of
  this model cannot contain. The Chinese texts of messages are replaced by ASCII ones.
\<close>

record si_lib =
  si_num :: num_lib
  si_des :: "(string \<Rightarrow> string \<Rightarrow> string) option"
  si_aes :: "(string \<Rightarrow> string \<Rightarrow> string) option"
  si_unescape :: "string \<Rightarrow> string"
  si_unquote :: "string \<Rightarrow> string"
  si_ms_iso :: "int \<Rightarrow> string option"
  si_http_error :: "response \<Rightarrow> string"
  si_login_words :: "string \<Rightarrow> bool"
  si_visible_text :: "string \<Rightarrow> string"
  si_throttle_words :: "string \<Rightarrow> bool"
  si_no_course_words :: "string \<Rightarrow> bool"
  si_folder_marks :: "string \<Rightarrow> bool"
  si_parse_courses :: "string \<Rightarrow> pydict list"

definition LOGIN_URL :: string where "LOGIN_URL = ''https://passport2.chaoxing.com/fanyalogin''"
definition COURSE_LIST_URL :: string where
  "COURSE_LIST_URL = ''https://mooc2-ans.chaoxing.com/mooc2-ans/visit/courselistdata''"
definition INTERACTION_URL :: string where
  "INTERACTION_URL = ''https://mooc2-ans.chaoxing.com/mooc2-ans/visit/interaction''"
definition ACCOUNT_URL :: string where "ACCOUNT_URL = ''https://passport2.chaoxing.com/mooc/accountManage''"
definition ACTIVE_LIST_URL :: string where
  "ACTIVE_LIST_URL = ''https://mobilelearn.chaoxing.com/v2/apis/active/student/activelist''"
definition PPT_ACTIVE_INFO_URL :: string where
  "PPT_ACTIVE_INFO_URL = ''https://mobilelearn.chaoxing.com/v2/apis/active/getPPTActiveInfo''"
definition PRE_SIGN_URL :: string where "PRE_SIGN_URL = ''https://mobilelearn.chaoxing.com/newsign/preSign''"
definition SIGN_ANALYSIS_URL :: string where
  "SIGN_ANALYSIS_URL = ''https://mobilelearn.chaoxing.com/pptSign/analysis''"
definition SIGN_ANALYSIS2_URL :: string where
  "SIGN_ANALYSIS2_URL = ''https://mobilelearn.chaoxing.com/pptSign/analysis2''"
definition PPT_SIGN_URL :: string where "PPT_SIGN_URL = ''https://mobilelearn.chaoxing.com/pptSign/stuSignajax''"
definition PAN_TOKEN_URL :: string where "PAN_TOKEN_URL = ''https://pan-yz.chaoxing.com/api/token/uservalid''"
definition PAN_UPLOAD_URL :: string where "PAN_UPLOAD_URL = ''https://pan-yz.chaoxing.com/upload''"

definition SESSION_EXPIRED_MESSAGE :: string where
  "SESSION_EXPIRED_MESSAGE = ''Chaoxing login expired, please log in again and check sign-ins''"

section \<open>Parameters\<close>

text \<open>\<open>_as_int(value, default)\<close>\<close>

definition si_int :: "si_lib \<Rightarrow> pyval \<Rightarrow> int \<Rightarrow> int" where
  "si_int lib v d = (case to_int (si_num lib) v of None \<Rightarrow> d | Some i \<Rightarrow> i)"

text \<open>\<open>a or b or ... or ""\<close>, and \<open>str\<close> of it\<close>

fun first_truthy :: "pyval list \<Rightarrow> pyval" where
  "first_truthy [] = PStr []"
| "first_truthy (v # vs) = (if truthy v then v else first_truthy vs)"

definition str_first :: "pyval list \<Rightarrow> string" where
  "str_first vs = py_str (first_truthy vs)"

text \<open>The first of several values that is not \<open>None\<close>\<close>

fun first_given :: "pyval list \<Rightarrow> pyval" where
  "first_given [] = PNone"
| "first_given (v # vs) = (if v = PNone then first_given vs else v)"

declare first_truthy.simps [simp del] and first_given.simps [simp del]

text \<open>\<open>_extract_enc\<close>; \<open>urlparse\<close> raises on brackets that are no address\<close>

definition find_after :: "string \<Rightarrow> string \<Rightarrow> string option" where
  "find_after pat s = map_option rest (re_search (lit pat) s)"

definition query_values :: "si_lib \<Rightarrow> string \<Rightarrow> string \<Rightarrow> string list" where
  "query_values lib name query =
     concat (map (\<lambda>part.
        (let v = after_char (CHR ''='') part;
             unq = (\<lambda>t. si_unquote lib (replace_char (CHR ''+'') '' '' t))
         in if CHR ''='' \<in> set part \<and> v \<noteq> [] \<and> unq (before_char (CHR ''='') part) = name then [unq v] else []))
       (split_on (CHR ''&'') query))"

definition extract_enc :: "si_lib \<Rightarrow> string \<Rightarrow> http_exc + string" where
  "extract_enc lib qr_code =
     (let raw = py_strip qr_code
      in if raw = [] then Inr []
         else if \<not> contains raw ''enc='' then Inr raw
         else (case url_query raw of
                 None \<Rightarrow> Inl (Other_exc ''Invalid URL'')
               | Some query \<Rightarrow>
                   (case query_values lib ''enc'' query of
                      v # _ \<Rightarrow> Inr v
                    | [] \<Rightarrow> (case find_after ''enc='' raw of
                              None \<Rightarrow> Inr []
                            | Some after \<Rightarrow> Inr (before_char (CHR ''&'') after)))))"

text \<open>\<open>_parse_course_filter\<close>\<close>

type_synonym course_filter = "string option \<times> string option"

definition filter_pair :: "string list \<Rightarrow> string option \<times> string option" where
  "filter_pair values =
     (case values of
        a # b # _ \<Rightarrow> (if a \<noteq> [] \<and> b \<noteq> [] then (Some a, Some b) else (Some a, None))
      | [a] \<Rightarrow> (Some a, None)
      | [] \<Rightarrow> (None, None))"

definition parse_course_filter :: "pyval \<Rightarrow> course_filter" where
  "parse_course_filter course_filter =
     (if \<not> truthy course_filter then (None, None)
      else (let raw = py_strip (py_str course_filter)
            in filter_pair (split_on (if CHR '':'' \<in> set raw then CHR '':'' else CHR ''_'') raw)))"

text \<open>\<open>_as_filter_set\<close>\<close>

definition as_filter_set :: "pyval \<Rightarrow> string list" where
  "as_filter_set values =
     (case values of
        PNone \<Rightarrow> []
      | _ \<Rightarrow> filter (\<lambda>t. t \<noteq> []) (map (\<lambda>item. py_strip (str_or_empty item))
               (case values of PList items \<Rightarrow> items | v \<Rightarrow> [v])))"

definition course_selector :: "pydict \<Rightarrow> string" where
  "course_selector course =
     (let course_id = py_strip (str_first [dget course ''courseId'', dget course ''rawCourseId'']);
          class_id = py_strip (str_first [dget course ''classId'', dget course ''clazzId'']);
          cpi = py_strip (str_or_empty (dget course ''cpi''))
      in if course_id \<noteq> [] \<and> class_id \<noteq> []
         then (if cpi \<noteq> [] then course_id @ ''_'' @ class_id @ ''_'' @ cpi else course_id @ ''_'' @ class_id)
         else if course_id \<noteq> [] then course_id else class_id)"

text \<open>\<open>urllib.parse.urlencode\<close>\<close>

definition quote_plus_char :: "char \<Rightarrow> string" where
  "quote_plus_char c =
     (let n = (of_char c :: nat)
      in if is_ascii_alpha c \<or> is_digit c \<or> c \<in> {CHR ''_'', CHR ''.'', CHR ''-'', CHR ''~''} then [c]
         else if c = CHR '' '' then ''+''
         else CHR ''%'' # map (\<lambda>d. if d < 10 then char_of (48 + d) else char_of (55 + d)) [n div 16, n mod 16])"

definition quote_plus :: "string \<Rightarrow> string" where
  "quote_plus s = concat (map quote_plus_char (utf8 s))"

definition urlencode :: "pydict \<Rightarrow> string" where
  "urlencode params = join_with ''&'' (map (\<lambda>(k, v). quote_plus k @ ''='' @ quote_plus (py_str v)) params)"

definition remote_request_url :: "string \<Rightarrow> pydict \<Rightarrow> string" where
  "remote_request_url base_url params =
     (let query = urlencode (filter (\<lambda>(k, v). v \<noteq> PNone \<and> v \<noteq> PStr []) params)
      in if query \<noteq> [] then base_url @ ''?'' @ query else base_url)"

definition endpoint :: "string \<Rightarrow> string \<Rightarrow> string \<Rightarrow> pydict \<Rightarrow> pyval" where
  "endpoint method name base_url params =
     PDict [(''name'', PStr name), (''method'', PStr method), (''baseUrl'', PStr base_url),
            (''params'', PDict params), (''url'', PStr (remote_request_url base_url params)),
            (''credentials'', PStr ''include''), (''requiresChaoxingLogin'', PBool True)]"

text \<open>\<open>build_remote_sign_endpoints\<close>; \<open>now_ms\<close> is \<open>int(time.time() * 1000)\<close>\<close>

definition build_remote_sign_endpoints :: "int \<Rightarrow> string \<Rightarrow> string \<Rightarrow> string \<Rightarrow> string \<Rightarrow> string \<Rightarrow> pydict" where
  "build_remote_sign_endpoints now_ms course_id0 class_id0 active_id0 uid0 fid0 =
     (let course_id = py_strip course_id0; class_id = py_strip class_id0; active_id = py_strip active_id0;
          uid = py_strip uid0; fid = py_strip fid0;
          activity_params =
            [(''fid'', if fid \<noteq> [] then PStr fid else PInt 0), (''courseId'', PStr course_id),
             (''classId'', PStr class_id), (''_'', PInt now_ms)];
          pre_sign_params =
            [(''courseId'', PStr course_id), (''classId'', PStr class_id), (''activePrimaryId'', PStr active_id),
             (''general'', PInt 1), (''sys'', PInt 1), (''ls'', PInt 1), (''appType'', PInt 15),
             (''tid'', PStr []), (''uid'', PStr uid), (''ut'', PStr ''s'')];
          submit_params =
            [(''activeId'', PStr active_id), (''uid'', PStr uid), (''clientip'', PStr []),
             (''latitude'', PInt (- 1)), (''longitude'', PInt (- 1)), (''appType'', PInt 15), (''fid'', PStr fid)]
      in [(''source'', PStr ''chaoxing''), (''directBrowserRequest'', PBool True),
          (''browserRequestMode'', PStr ''remote-direct''),
          (''subjectType'', PStr (if class_id \<noteq> [] then ''class'' else ''course'')),
          (''courseId'', PStr course_id), (''classId'', PStr class_id), (''activeId'', PStr active_id),
          (''endpoints'', PDict
             [(''activities'', endpoint ''GET'' ''activity list'' ACTIVE_LIST_URL activity_params),
              (''activeDetail'', endpoint ''GET'' ''activity detail'' PPT_ACTIVE_INFO_URL [(''activeId'', PStr active_id)]),
              (''preSign'', endpoint ''GET'' ''sign-in preparation'' PRE_SIGN_URL pre_sign_params),
              (''submitSign'', endpoint ''GET'' ''submit sign-in'' PPT_SIGN_URL submit_params),
              (''photoToken'', endpoint ''GET'' ''photo upload token'' PAN_TOKEN_URL [])]),
          (''uploadEndpoints'', PDict
             [(''photoUpload'', endpoint ''POST'' ''photo upload'' PAN_UPLOAD_URL [(''_from'', PStr ''mobilelearn'')])])])"

section \<open>Responses\<close>

text \<open>\<open><(?:form|input)\b[^>]*(?:fanyalogin|name=["'](?:uname|password)["']|id=["'](?:phone|pwd)["'])\<close>\<close>

definition quoted :: "string \<Rightarrow> re list \<Rightarrow> re" where
  "quoted attr values =
     seqs [ilit attr, lit ''='', one_of quote_chars, alts (hd values) (tl values), one_of quote_chars]"

definition login_form_re :: re where
  "login_form_re =
     seqs [lit ''<'', alts (ilit ''form'') [ilit ''input''], Word_edge, Many (none_of ''>''),
           alts (ilit ''fanyalogin'')
             [quoted ''name'' [ilit ''uname'', ilit ''password''], quoted ''id'' [ilit ''phone'', ilit ''pwd'']]]"

text \<open>A script that sets \<open>location\<close> to the login host\<close>

definition login_script_re :: re where
  "login_script_re =
     seqs [Word_edge, ilit ''location'',
           opt (seqs [spaces, lit ''.'', spaces, alts (ilit ''href'') [ilit ''replace'', ilit ''assign'']]),
           spaces, one_of ''=('', spaces, one_of quote_chars,
           opt (seqs [ilit ''http'', opt (ilit ''s''), lit '':'']),
           lit ''//'', ilit ''passport2'', opt (ilit ''-api''), lit ''.'', ilit ''chaoxing'', lit ''.'', ilit ''com'', lit ''/'']"

text \<open>\<open>s.replace(r"\/", "/")\<close>\<close>

fun unescape_slashes :: "string \<Rightarrow> string" where
  "unescape_slashes (a # b # s) =
     (if a = char_of (92 :: nat) \<and> b = CHR ''/'' then CHR ''/'' # unescape_slashes s
      else a # unescape_slashes (b # s))"
| "unescape_slashes s = s"

definition login_page :: "si_lib \<Rightarrow> response \<Rightarrow> bool" where
  "login_page lib resp \<longleftrightarrow>
     rs_status resp = 401
     \<or> list_ex (\<lambda>v. contains v ''passport2.chaoxing.com'' \<or> contains v ''passport2-api.chaoxing.com'')
         [rs_url resp, rs_location resp]
     \<or> re_found login_form_re (rs_text resp)
     \<or> re_found login_script_re (unescape_slashes (si_unescape lib (rs_text resp)))"

definition validate_response :: "si_lib \<Rightarrow> response \<Rightarrow> string \<Rightarrow> http_exc + unit" where
  "validate_response lib resp operation =
     (if login_page lib resp then Inl (Session_expired SESSION_EXPIRED_MESSAGE)
      else if 400 \<le> rs_status resp \<and> rs_status resp < 600 then Inl (Request_error (si_http_error lib resp))
      else if 300 \<le> rs_status resp \<and> rs_status resp < 400
      then Inl (Request_error (operation @ '' returned an unexpected redirect''))
      else Inr ())"

text \<open>\<open>v in (False, "false", "0")\<close>\<close>

definition is_refusal :: "pyval \<Rightarrow> bool" where
  "is_refusal v =
     (case v of
        PBool b \<Rightarrow> \<not> b
      | PInt i \<Rightarrow> i = 0
      | PFloat t \<Rightarrow> t = ''0.0'' \<or> t = ''-0.0''
      | PStr s \<Rightarrow> s = ''false'' \<or> s = ''0''
      | _ \<Rightarrow> False)"

definition login_words :: "si_lib \<Rightarrow> string \<Rightarrow> bool" where
  "login_words lib message \<longleftrightarrow>
     si_login_words lib message
     \<or> re_found (alts (ilit ''login'')
         [seqs [ilit ''not'', opt (none_of [char_of (10 :: nat)]), ilit ''logged''], ilit ''unauthenticated''])
         message"

definition validate_json_payload :: "si_lib \<Rightarrow> pyval \<Rightarrow> string \<Rightarrow> http_exc + pydict" where
  "validate_json_payload lib data operation =
     (case data of
        PDict d \<Rightarrow>
          (if list_ex (\<lambda>key. is_refusal (dget d key)) [''result'', ''status'', ''success'']
           then (let message = take 240 (str_first [dget d ''errorMsg'', dget d ''msg'', dget d ''message'', PStr ''request failed''])
                 in if login_words lib message then Inl (Session_expired SESSION_EXPIRED_MESSAGE)
                    else Inl (Request_error (operation @ '' failed: '' @ message)))
           else Inr d)
      | _ \<Rightarrow> Inl (Request_error (operation @ '' returned an invalid JSON object'')))"

definition read_json_response :: "si_lib \<Rightarrow> response \<Rightarrow> string \<Rightarrow> http_exc + pydict" where
  "read_json_response lib resp operation =
     (case validate_response lib resp operation of
        Inl e \<Rightarrow> Inl e
      | Inr _ \<Rightarrow>
          (case rs_json resp of
             None \<Rightarrow> Inl (Request_error (operation @ '' returned a non-JSON response''))
           | Some data \<Rightarrow> validate_json_payload lib data operation))"

definition safe_json_value :: "response \<Rightarrow> pyval" where
  "safe_json_value resp = (case rs_json resp of None \<Rightarrow> PDict [] | Some v \<Rightarrow> v)"

definition safe_json :: "response \<Rightarrow> pydict" where
  "safe_json resp = (case safe_json_value resp of PDict d \<Rightarrow> d | _ \<Rightarrow> [])"

section \<open>Login\<close>

record client =
  cl_session :: nat
  cl_username :: string
  cl_account :: string

definition client_uid :: "'w web \<Rightarrow> nat \<Rightarrow> ('w, 'z) net_scheme \<Rightarrow> string" where
  "client_uid web sid n =
     (let a = cookie web sid ''_uid'' n in if a \<noteq> [] then a else cookie web sid ''UID'' n)"

definition client_fid :: "'w web \<Rightarrow> nat \<Rightarrow> ('w, 'z) net_scheme \<Rightarrow> string" where
  "client_fid web sid n = (let a = cookie web sid ''fid'' n in if a \<noteq> [] then a else ''-1'')"

definition pkcs_pad :: "nat \<Rightarrow> string \<Rightarrow> string" where
  "pkcs_pad block raw = (let k = block - length raw mod block in raw @ replicate k (char_of k))"

definition hexlify :: "string \<Rightarrow> string" where
  "hexlify s = concat (map (\<lambda>c. [hex_char (of_char c div 16), hex_char (of_char c mod 16)]) s)"

definition b64_alphabet :: string where
  "b64_alphabet = ''ABCDEFGHIJKLMNOPQRSTUVWXYZabcdefghijklmnopqrstuvwxyz0123456789+/''"

definition b64_letter :: "nat \<Rightarrow> char" where
  "b64_letter k = b64_alphabet ! k"

text \<open>\<open>base64.b64encode\<close> of a string of bytes\<close>

fun b64encode :: "string \<Rightarrow> string" where
  "b64encode [] = []"
| "b64encode [a] = (let n = of_char a * 16 :: nat in [b64_letter (n div 64), b64_letter (n mod 64), CHR ''='', CHR ''=''])"
| "b64encode [a, b] =
     (let n = (of_char a * 256 + of_char b) * 4 :: nat
      in [b64_letter (n div 4096), b64_letter (n div 64 mod 64), b64_letter (n mod 64), CHR ''=''])"
| "b64encode (a # b # c # s) =
     (let n = (of_char a * 256 + of_char b) * 256 + of_char c :: nat
      in [b64_letter (n div 262144), b64_letter (n div 4096 mod 64), b64_letter (n div 64 mod 64), b64_letter (n mod 64)]
         @ b64encode s)"

definition encrypt_des :: "si_lib \<Rightarrow> string \<Rightarrow> string" where
  "encrypt_des lib raw_text =
     (case si_des lib of
        None \<Rightarrow> raw_text
      | Some cipher \<Rightarrow> hexlify (cipher (take 8 ''u2oh6Vu^HWe40fj'') (pkcs_pad 8 (utf8 raw_text))))"

definition encrypt_aes :: "si_lib \<Rightarrow> string \<Rightarrow> string" where
  "encrypt_aes lib raw_text =
     (case si_aes lib of
        None \<Rightarrow> raw_text
      | Some cipher \<Rightarrow> b64encode (cipher ''u2oh6Vu^HWe4_AES'' (pkcs_pad 16 (utf8 raw_text))))"

text \<open>\<open>>([^<]+)</\<close>\<close>

definition account_name_re :: re where
  "account_name_re = seqs [lit ''>'', Group 1 (many1 (none_of ''<'')), lit ''</'']"

definition messageName_mark :: string where
  "messageName_mark = ''id='' @ [char_of (34 :: nat)] @ ''messageName'' @ [char_of (34 :: nat)]"

definition scan_account_name :: "si_lib \<Rightarrow> string \<Rightarrow> string" where
  "scan_account_name lib body =
     (case find_after messageName_mark body of
        None \<Rightarrow> []
      | Some after \<Rightarrow>
          (case re_search account_name_re (take 180 (messageName_mark @ after)) of
             None \<Rightarrow> []
           | Some p \<Rightarrow> si_unescape lib (py_strip (group_of 1 p))))"

definition fetch_account_name :: "'w web \<Rightarrow> si_lib \<Rightarrow> nat \<Rightarrow> ('w, 'z, string) io" where
  "fetch_account_name web lib sid =
     io_try is_request_exc
       (io_bind (http web sid (get_request ACCOUNT_URL [])) (\<lambda>resp. io_return (scan_account_name lib (rs_text resp))))
       (\<lambda>_. io_return [])"

definition login_attempts :: "si_lib \<Rightarrow> string \<Rightarrow> string \<Rightarrow> pydict list" where
  "login_attempts lib username password =
     [[(''uname'', PStr username), (''password'', PStr (encrypt_des lib password)), (''fid'', PStr ''-1''),
       (''t'', PStr ''true''), (''refer'', PStr ''https%3A%2F%2Fi.chaoxing.com''),
       (''forbidotherlogin'', PStr ''0''), (''validate'', PStr [])],
      [(''uname'', PStr (encrypt_aes lib username)), (''password'', PStr (encrypt_aes lib password)),
       (''fid'', PStr ''-1''), (''t'', PStr ''true''), (''refer'', PStr ''https%3A%2F%2Fi.chaoxing.com''),
       (''forbidotherlogin'', PStr ''0''), (''validate'', PStr []),
       (''doubleFactorLogin'', PStr ''0''), (''independentId'', PStr ''0'')]]"

text \<open>
  The loop over the attempts: the result, and the client whose account name a successful attempt
  sets. \<open>last_message\<close> may be any JSON value the site sent.
\<close>

fun try_logins ::
  "'w web \<Rightarrow> si_lib \<Rightarrow> client \<Rightarrow> pydict list \<Rightarrow> pyval \<Rightarrow> ('w, 'z, pydict \<times> client) io" where
  "try_logins web lib cl [] last_message =
     io_return ([(''status'', PBool False), (''message'', last_message)], cl)"
| "try_logins web lib cl (payload # attempts) last_message =
     io_bind
       (io_try is_request_exc
          (io_bind (http web (cl_session cl) (post_request LOGIN_URL [] payload [])) (\<lambda>resp. io_return (Inr resp)))
          (\<lambda>e. io_return (Inl (exc_str e))))
       (\<lambda>outcome. case outcome of
          Inl message \<Rightarrow> try_logins web lib cl attempts (PStr message)
        | Inr resp \<Rightarrow>
            (let data = safe_json resp
             in io_bind (io_get (client_uid web (cl_session cl))) (\<lambda>uid.
                if dget data ''status'' = PBool True \<and> uid \<noteq> []
                then io_bind (fetch_account_name web lib (cl_session cl)) (\<lambda>name.
                     io_bind (io_get (\<lambda>n. (client_uid web (cl_session cl) n, client_fid web (cl_session cl) n))) (\<lambda>(uid, fid).
                     (let account = (if name \<noteq> [] then name else cl_username cl)
                      in io_return
                           ([(''status'', PBool True), (''message'', PStr ''Login successful''),
                             (''data'', PDict [(''uid'', PStr uid), (''fid'', PStr fid), (''name'', PStr account)])],
                            cl\<lparr>cl_account := account\<rparr>))))
                else try_logins web lib cl attempts
                       (let m = first_truthy [dget data ''msg2'', dget data ''msg'', dget data ''message'']
                        in if truthy m then m else last_message))))"

definition client_login :: "'w web \<Rightarrow> si_lib \<Rightarrow> string \<Rightarrow> string \<Rightarrow> ('w, 'z, pydict \<times> client) io" where
  "client_login web lib username password =
     io_bind new_session (\<lambda>sid.
       try_logins web lib \<lparr>cl_session = sid, cl_username = username, cl_account = []\<rparr>
         (login_attempts lib username password) (PStr ''Login failed''))"

section \<open>Courses\<close>

text \<open>\<open>courseFolderId|courselistdata\<close>, ignoring case\<close>

definition folder_words_re :: re where
  "folder_words_re = alts (ilit ''courseFolderId'') [ilit ''courselistdata'']"

text \<open>\<open>_validate_course_response\<close>; \<open>si_folder_marks\<close> stands for what BeautifulSoup and the Chinese word find\<close>

definition validate_course_response :: "si_lib \<Rightarrow> bool \<Rightarrow> response \<Rightarrow> http_exc + pydict list" where
  "validate_course_response lib interaction resp =
     (case validate_response lib resp ''course list'' of
        Inl e \<Rightarrow> Inl e
      | Inr _ \<Rightarrow>
          (let content = dropWhile py_isspace (rs_text resp); visible = si_visible_text lib content
           in if starts_with content ''{'' \<or> starts_with content ''[''
              then (case read_json_response lib resp ''course list'' of
                      Inl e \<Rightarrow> Inl e
                    | Inr _ \<Rightarrow> Inl (Request_error ''course list: unreadable response''))
              else if content = [] \<or> CHR ''<'' \<notin> set content
              then Inl (Request_error ''course list: blank or unreadable page'')
              else if si_throttle_words lib visible
              then Inl (Request_error ''course list: access restricted or too frequent'')
              else (let courses = si_parse_courses lib content
                    in if courses \<noteq> [] \<or> si_no_course_words lib visible then Inr courses
                       else if interaction \<and> (si_folder_marks lib content \<or> re_found folder_words_re content)
                       then Inr []
                       else Inl (Request_error ''course list: unknown page''))))"

definition digits1 :: re where
  "digits1 = Group 1 (many1 (Chars Digit))"

definition folder_id_res :: "re list" where
  "folder_id_res =
     [seqs [ilit ''fileid'', lit ''='', one_of quote_chars, digits1, one_of quote_chars],
      seqs [ilit ''data-fileid'', lit ''='', one_of quote_chars, digits1, one_of quote_chars],
      seqs [ilit ''courseFolderId'', opt (one_of quote_chars), spaces, one_of '':='', spaces,
            opt (one_of quote_chars), digits1, opt (one_of quote_chars)]]"

text \<open>\<open>re.finditer\<close> for a pattern that matches no empty text: the captured groups 1\<close>

fun find_groups :: "nat \<Rightarrow> re \<Rightarrow> char option \<Rightarrow> string \<Rightarrow> string list" where
  "find_groups 0 r c s = []"
| "find_groups (Suc k) r c s =
     (case search_from r c s of
        None \<Rightarrow> []
      | Some p \<Rightarrow> group_of 1 p # find_groups k r (prev p) (rest p))"

definition add_new :: "'a list \<Rightarrow> 'a list \<Rightarrow> 'a list" where
  "add_new acc xs = fold (\<lambda>x acc. if x \<in> set acc then acc else acc @ [x]) xs acc"

definition scan_folders :: "string \<Rightarrow> string list" where
  "scan_folders content =
     fold (\<lambda>r acc. add_new acc (find_groups (length content) r None content)) folder_id_res []"

definition parse_course_folders :: "'w web \<Rightarrow> si_lib \<Rightarrow> nat \<Rightarrow> ('w, 'z, string list) io" where
  "parse_course_folders web lib sid =
     io_bind (http web sid (get_request INTERACTION_URL [])) (\<lambda>resp.
     io_bind (io_of (validate_course_response lib True resp)) (\<lambda>_.
     io_return (scan_folders (rs_text resp))))"

definition course_key :: "pydict \<Rightarrow> string \<times> string" where
  "course_key course = (str_or_empty (dget course ''courseId''), str_or_empty (dget course ''classId''))"

text \<open>The inner loop of \<open>get_courses\<close>: courses with both ids that have not been seen\<close>

definition merge_courses :: "pydict list \<Rightarrow> pydict list \<Rightarrow> pydict list" where
  "merge_courses courses merged =
     fold (\<lambda>course acc.
        (let key = course_key course
         in if fst key = [] \<or> snd key = [] \<or> key \<in> set (map course_key acc) then acc else acc @ [course]))
       courses merged"

definition get_courses :: "'w web \<Rightarrow> si_lib \<Rightarrow> nat \<Rightarrow> ('w, 'z, pydict list) io" where
  "get_courses web lib sid =
     io_bind (parse_course_folders web lib sid) (\<lambda>folders.
       io_for (\<lambda>folder merged.
           io_bind (http web sid (post_request COURSE_LIST_URL []
              [(''courseType'', PInt 1), (''courseFolderId'', PStr folder), (''courseFolderSize'', PInt 0),
               (''query'', PStr []), (''superstarClass'', PInt 0)] [])) (\<lambda>resp.
           io_bind (io_of (validate_course_response lib False resp)) (\<lambda>courses.
           io_return (merge_courses courses merged))))
         (add_new [] (''0'' # folders)) [])"

text \<open>\<open>get_class_subjects\<close>\<close>

definition class_subject :: "pydict \<Rightarrow> pydict option" where
  "class_subject course =
     (let course_id = py_strip (str_or_empty (dget course ''courseId''));
          class_id = py_strip (str_first [dget course ''classId'', dget course ''clazzId'']);
          name = py_strip (str_first [dget course ''courseName'', dget course ''name'', PStr course_id])
      in if course_id = [] \<or> class_id = [] then None
         else Some (dupdate course
           [(''id'', PStr (course_selector course)), (''subjectType'', PStr ''class''), (''subjectId'', PStr class_id),
            (''classSubjectId'', PStr class_id), (''classId'', PStr class_id), (''clazzId'', PStr class_id),
            (''rawCourseId'', PStr course_id), (''courseId'', PStr course_id), (''courseName'', PStr name),
            (''name'', PStr name)]))"

definition get_class_subjects :: "'w web \<Rightarrow> si_lib \<Rightarrow> nat \<Rightarrow> ('w, 'z, pydict list) io" where
  "get_class_subjects web lib sid =
     io_bind (get_courses web lib sid) (\<lambda>courses. io_return (List.map_filter class_subject courses))"

section \<open>Activities\<close>

definition get_course_activity_list ::
  "'w web \<Rightarrow> si_lib \<Rightarrow> nat \<Rightarrow> string \<Rightarrow> string \<Rightarrow> ('w, 'z, pydict list) io" where
  "get_course_activity_list web lib sid course_id class_id =
     io_bind (io_get (\<lambda>n. web_ms web (world n))) (\<lambda>now.
     io_bind (http web sid (get_request ACTIVE_LIST_URL
        [(''fid'', PInt 0), (''courseId'', PStr course_id), (''classId'', PStr class_id), (''_'', PInt now)])) (\<lambda>resp.
     io_of (case read_json_response lib resp ''activelist'' of
              Inl e \<Rightarrow> Inl e
            | Inr data \<Rightarrow>
                (case dget data ''data'' of
                   PDict envelope \<Rightarrow>
                     (case dget envelope ''activeList'' of
                        PList items \<Rightarrow>
                          (if list_all (\<lambda>a. case a of PDict _ \<Rightarrow> True | _ \<Rightarrow> False) items
                           then Inr (List.map_filter (\<lambda>a. case a of PDict d \<Rightarrow> Some d | _ \<Rightarrow> None) items)
                           else Inl (Request_error ''activelist returned an invalid activity''))
                      | _ \<Rightarrow> Inl (Request_error ''activelist returned no activity list''))
                 | _ \<Rightarrow> Inl (Request_error ''activelist returned no activity list'')))))"

definition get_ppt_active_info :: "'w web \<Rightarrow> si_lib \<Rightarrow> nat \<Rightarrow> string \<Rightarrow> ('w, 'z, pydict) io" where
  "get_ppt_active_info web lib sid active_id =
     io_bind (http web sid (get_request PPT_ACTIVE_INFO_URL [(''activeId'', PStr active_id)])) (\<lambda>resp.
     io_of (case read_json_response lib resp ''sign-in detail'' of
              Inl e \<Rightarrow> Inl e
            | Inr data \<Rightarrow>
                (case dget data ''data'' of
                   PDict detail \<Rightarrow> Inr detail
                 | _ \<Rightarrow> Inl (Request_error ''empty sign-in detail''))))"

text \<open>\<open>_resolve_sign_type\<close>\<close>

definition activity_other_id :: "si_lib \<Rightarrow> pydict \<Rightarrow> pydict option \<Rightarrow> int" where
  "activity_other_id lib activity info =
     (let other_id = si_int lib (dget activity ''otherId'') (- 1)
      in case info of
           None \<Rightarrow> other_id
         | Some d \<Rightarrow> (if other_id = - 1 then si_int lib (dget d ''otherId'') (- 1) else other_id))"

definition resolve_sign_type ::
  "'w web \<Rightarrow> si_lib \<Rightarrow> nat \<Rightarrow> pydict \<Rightarrow> string \<Rightarrow> pydict option \<Rightarrow> ('w, 'z, string) io" where
  "resolve_sign_type web lib sid activity active_id info =
     (let other_id = activity_other_id lib activity info
      in if other_id = 3 then io_return ''gesture''
         else if other_id = 5 then io_return ''code''
         else if other_id = 4 then io_return ''location''
         else if other_id = 2 then io_return ''qrcode''
         else if other_id = 0
         then (if si_int lib (dget activity ''ifphoto'') 0 = 1 then io_return ''photo''
               else io_bind (case info of None \<Rightarrow> get_ppt_active_info web lib sid active_id | Some d \<Rightarrow> io_return d) (\<lambda>d.
                    io_return (if si_int lib (dget d ''ifphoto'') 0 = 1 then ''photo'' else ''normal'')))
         else io_return ''unknown'')"

definition activity_id :: "pydict \<Rightarrow> string" where
  "activity_id activity = str_first [dget activity ''id'', dget activity ''activeId'']"

text \<open>\<open>_activity_to_task\<close>, with the type that \<open>_resolve_sign_type\<close> has given it\<close>

definition task_status :: "int \<Rightarrow> string" where
  "task_status status_code =
     (if status_code = 1 then ''active'' else if status_code = 2 \<or> status_code = 3 then ''ended'' else ''unknown'')"

definition activity_to_task ::
  "'w web \<Rightarrow> si_lib \<Rightarrow> nat \<Rightarrow> pydict \<Rightarrow> pydict \<Rightarrow> string \<Rightarrow> pydict \<Rightarrow> ('w, 'z, pydict) io" where
  "activity_to_task web lib sid course activity sign_type detail =
     io_get (\<lambda>n.
       (let course_id = py_strip (str_or_empty (dget course ''courseId''));
            class_id = py_strip (str_first [dget course ''classId'', dget course ''clazzId'']);
            active_id = py_strip (activity_id activity);
            deadline = si_int lib (let e = dget activity ''endTime'' in if truthy e then e else dget activity ''startTime'') 0;
            deadline_iso = (if deadline \<noteq> 0 then si_ms_iso lib deadline else None);
            status_code = si_int lib (dget activity ''status'') 0;
            course_name = py_strip (str_first [dget course ''courseName'', dget course ''name'', PStr course_id]);
            task =
              [(''taskId'', PStr (course_id @ '':'' @ class_id @ '':'' @ active_id)), (''activeId'', PStr active_id),
               (''subjectType'', PStr ''class''), (''subjectId'', PStr class_id), (''classSubjectId'', PStr class_id),
               (''courseId'', PStr (course_id @ ''_'' @ class_id)), (''courseSelector'', PStr (course_selector course)),
               (''rawCourseId'', PStr course_id), (''classId'', PStr class_id), (''clazzId'', PStr class_id),
               (''courseName'', PStr course_name),
               (''className'', PStr (py_strip (str_first [dget course ''className'', dget course ''clazzName'', PStr course_name]))),
               (''name'', first_truthy [dget activity ''nameOne'', dget activity ''name'']),
               (''type'', PStr sign_type), (''otherId'', PInt (si_int lib (dget activity ''otherId'') (- 1))),
               (''status'', PStr (task_status status_code)), (''statusCode'', PInt status_code),
               (''deadline'', case deadline_iso of None \<Rightarrow> PNone | Some t \<Rightarrow> PStr t),
               (''startTime'', dget activity ''startTime''), (''endTime'', dget activity ''endTime''),
               (''remoteEndpoints'', PDict (build_remote_sign_endpoints (web_ms web (world n)) course_id class_id active_id
                  (client_uid web sid n) (client_fid web sid n)))]
        in if detail = [] then task else task @ [(''detail'', PDict detail)]))"

definition SIGN_VARIANTS :: "int list" where
  "SIGN_VARIANTS = [0, 2, 3, 4, 5]"

text \<open>Which activities of a scan are kept before their type is known\<close>

definition scanned :: "si_lib \<Rightarrow> string list \<Rightarrow> pydict \<Rightarrow> bool" where
  "scanned lib active_filter activity \<longleftrightarrow>
     si_int lib (dget activity ''status'') 0 = 1
     \<and> si_int lib (dget activity ''otherId'') (- 1) \<in> set SIGN_VARIANTS
     \<and> activity_id activity \<noteq> []
     \<and> (active_filter = [] \<or> activity_id activity \<in> set active_filter)"

definition scan_activity ::
  "'w web \<Rightarrow> si_lib \<Rightarrow> nat \<Rightarrow> string list \<Rightarrow> string \<Rightarrow> pydict \<Rightarrow> pydict \<Rightarrow> pydict list \<Rightarrow> ('w, 'z, pydict list) io" where
  "scan_activity web lib sid active_filter expected_type course activity tasks =
     (if \<not> scanned lib active_filter activity then io_return tasks
      else io_bind (resolve_sign_type web lib sid activity (activity_id activity) None) (\<lambda>sign_type.
           if expected_type \<noteq> ''all'' \<and> sign_type \<noteq> expected_type then io_return tasks
           else io_bind (activity_to_task web lib sid course activity sign_type []) (\<lambda>task.
                io_return (tasks @ [task]))))"

definition course_selected :: "course_filter list \<Rightarrow> string list \<Rightarrow> string \<times> string \<Rightarrow> bool" where
  "course_selected filter_pairs class_filter key \<longleftrightarrow>
     (filter_pairs = [] \<or> (Some (fst key), Some (snd key)) \<in> set filter_pairs \<or> (Some (fst key), None) \<in> set filter_pairs)
     \<and> (class_filter = [] \<or> snd key \<in> set class_filter)"

record scan =
  sc_tasks :: "pydict list"
  sc_attempted :: nat
  sc_failures :: "http_exc list"

definition activity_list_failed :: "http_exc \<Rightarrow> bool" where
  "activity_list_failed e = (case e of Request_error _ \<Rightarrow> True | _ \<Rightarrow> False)"

definition scan_course ::
  "'w web \<Rightarrow> si_lib \<Rightarrow> nat \<Rightarrow> course_filter list \<Rightarrow> string list \<Rightarrow> string list \<Rightarrow> string \<Rightarrow> pydict \<Rightarrow> scan
     \<Rightarrow> ('w, 'z, scan) io" where
  "scan_course web lib sid filter_pairs class_filter active_filter expected_type course sc =
     (let key = (py_str (dget_or course ''courseId'' (PStr [])), py_str (dget_or course ''classId'' (PStr [])))
      in if \<not> course_selected filter_pairs class_filter key then io_return sc
         else (let sc = sc\<lparr>sc_attempted := Suc (sc_attempted sc)\<rparr>
               in io_bind
                    (io_try activity_list_failed
                       (io_bind (get_course_activity_list web lib sid (fst key) (snd key)) (\<lambda>l. io_return (Inr l)))
                       (\<lambda>e. io_return (Inl e)))
                    (\<lambda>outcome. case outcome of
                       Inl e \<Rightarrow> io_return (sc\<lparr>sc_failures := sc_failures sc @ [e]\<rparr>)
                     | Inr payload \<Rightarrow>
                         io_bind (io_for (scan_activity web lib sid active_filter expected_type course) payload (sc_tasks sc))
                           (\<lambda>tasks. io_return (sc\<lparr>sc_tasks := tasks\<rparr>)))))"

definition scan_failure_text :: "scan \<Rightarrow> string" where
  "scan_failure_text sc =
     nat_str (length (sc_failures sc)) @ ''/'' @ nat_str (sc_attempted sc)
       @ '' activity-list request(s) failed; cannot determine active sign-in tasks: '' @ exc_str (hd (sc_failures sc))"

text \<open>\<open>for item in values or []\<close>\<close>

definition iter_values :: "pyval \<Rightarrow> http_exc + pyval list" where
  "iter_values v =
     (case v of
        PList items \<Rightarrow> Inr items
      | PStr t \<Rightarrow> Inr (map (\<lambda>c. PStr [c]) t)
      | PDict d \<Rightarrow> Inr (map (\<lambda>(k, _). PStr k) d)
      | _ \<Rightarrow> (if truthy v then Inl (Other_exc ''object is not iterable'') else Inr []))"

definition get_active_tasks ::
  "'w web \<Rightarrow> si_lib \<Rightarrow> nat \<Rightarrow> pyval \<Rightarrow> pyval \<Rightarrow> pyval \<Rightarrow> string \<Rightarrow> ('w, 'z, pydict list) io" where
  "get_active_tasks web lib sid course_filters class_filters active_id expected_type =
     io_bind (get_courses web lib sid) (\<lambda>courses.
     io_bind (io_of (iter_values course_filters)) (\<lambda>items.
     io_bind (io_for (scan_course web lib sid (map parse_course_filter items) (as_filter_set class_filters)
                (as_filter_set active_id) expected_type)
              courses \<lparr>sc_tasks = [], sc_attempted = 0, sc_failures = []\<rparr>) (\<lambda>sc.
     if sc_failures sc \<noteq> [] \<and> sc_tasks sc = [] then io_raise (Request_error (scan_failure_text sc))
     else io_return (sc_tasks sc))))"

text \<open>\<open>get_class_activities\<close>\<close>

definition class_activity ::
  "'w web \<Rightarrow> si_lib \<Rightarrow> nat \<Rightarrow> bool \<Rightarrow> pydict \<Rightarrow> pydict \<Rightarrow> pydict list \<Rightarrow> ('w, 'z, pydict list) io" where
  "class_activity web lib sid include_details course activity activities =
     (let active_id = py_strip (activity_id activity)
      in io_bind (if include_details \<and> active_id \<noteq> []
                     \<and> si_int lib (dget activity ''otherId'') (- 1) \<in> set SIGN_VARIANTS
                  then get_ppt_active_info web lib sid active_id else io_return []) (\<lambda>detail.
         io_bind (resolve_sign_type web lib sid activity active_id (Some detail)) (\<lambda>sign_type.
         io_bind (activity_to_task web lib sid course activity sign_type detail) (\<lambda>item.
         io_return (activities @ [dset ''raw'' (PDict activity) item])))))"

definition get_class_activities ::
  "'w web \<Rightarrow> si_lib \<Rightarrow> nat \<Rightarrow> string \<Rightarrow> string \<Rightarrow> bool \<Rightarrow> ('w, 'z, pydict list) io" where
  "get_class_activities web lib sid class_id0 course_id0 include_details =
     (let class_id = py_strip class_id0; course_id = py_strip course_id0;
          raw_course_id = (if course_id \<noteq> [] then fst (parse_course_filter (PStr course_id)) else Some [])
      in if class_id = [] then io_return []
         else io_bind (get_courses web lib sid) (\<lambda>courses.
              io_for (\<lambda>course activities.
                  (let current_course = py_strip (str_or_empty (dget course ''courseId''));
                       current_class = py_strip (str_first [dget course ''classId'', dget course ''clazzId''])
                   in if current_class \<noteq> class_id then io_return activities
                      else if given raw_course_id \<and> Some current_course \<noteq> raw_course_id then io_return activities
                      else io_bind (get_course_activity_list web lib sid current_course current_class) (\<lambda>payload.
                           io_for (class_activity web lib sid include_details course) payload activities)))
                courses []))"

section \<open>Signing\<close>

text \<open>\<open>code\s*=\s*['"]\s*\+\s*['"]([^'"]+)['"]\<close>\<close>

definition analysis_code_re :: re where
  "analysis_code_re =
     seqs [lit ''code'', spaces, lit ''='', spaces, one_of quote_chars, spaces, lit ''+'', spaces, one_of quote_chars,
           Group 1 (many1 (none_of quote_chars)), one_of quote_chars]"

definition task_text :: "pydict \<Rightarrow> string \<Rightarrow> string" where
  "task_text task key = py_str (dget task key)"

definition pre_sign :: "'w web \<Rightarrow> si_lib \<Rightarrow> nat \<Rightarrow> pydict \<Rightarrow> ('w, 'z, unit) io" where
  "pre_sign web lib sid task =
     io_bind (io_get (client_uid web sid)) (\<lambda>uid.
     io_bind (http web sid (get_request PRE_SIGN_URL
       [(''courseId'', dget task ''rawCourseId''), (''classId'', dget task ''classId''),
        (''activePrimaryId'', dget task ''activeId''), (''general'', PInt 1), (''sys'', PInt 1), (''ls'', PInt 1),
        (''appType'', PInt 15), (''tid'', PStr []), (''uid'', PStr uid), (''ut'', PStr ''s'')])) (\<lambda>resp.
     io_bind (io_of (validate_response lib resp ''sign-in preparation'')) (\<lambda>_.
     io_bind (http web sid (get_request SIGN_ANALYSIS_URL
       [(''vs'', PInt 1), (''DB_STRATEGY'', PStr ''RANDOM''), (''aid'', dget task ''activeId'')])) (\<lambda>analysis.
     io_bind (io_of (validate_response lib analysis ''sign-in check'')) (\<lambda>_.
     case re_search analysis_code_re (rs_text analysis) of
       None \<Rightarrow> io_raise (Request_error ''sign-in check returned no valid credential'')
     | Some p \<Rightarrow>
         io_bind (http web sid (get_request SIGN_ANALYSIS2_URL
           [(''DB_STRATEGY'', PStr ''RANDOM''), (''code'', PStr (group_of 1 p))])) (\<lambda>analysis2.
         io_of (validate_response lib analysis2 ''sign-in check'')))))))"

text \<open>
  \<open>_parse_float\<close>: \<open>TypeError\<close> and \<open>ValueError\<close> give the default, but an integer that no float can
  hold raises \<open>OverflowError\<close>.
\<close>

definition float_overflows :: "pyval \<Rightarrow> bool" where
  "float_overflows v = (case v of PInt i \<Rightarrow> abs i \<ge> 2 ^ 1024 - 2 ^ 970 | _ \<Rightarrow> False)"

definition parse_float :: "si_lib \<Rightarrow> pyval \<Rightarrow> string \<Rightarrow> http_exc + pyval" where
  "parse_float lib v d =
     (if float_overflows v then Inl (Other_exc ''int too large to convert to float'')
      else Inr (PFloat (case to_float (si_num lib) v of None \<Rightarrow> d | Some t \<Rightarrow> t)))"

definition SIGN_CODE_KEYS :: "string list" where
  "SIGN_CODE_KEYS = [''sign_code'', ''signCode'', ''gesture'', ''gesture_code'', ''code'', ''passcode'']"

definition extract_sign_code :: "pydict \<Rightarrow> string" where
  "extract_sign_code options =
     (case filter (\<lambda>t. t \<noteq> []) (map (\<lambda>key. case dget options key of PNone \<Rightarrow> [] | v \<Rightarrow> py_strip (py_str v)) SIGN_CODE_KEYS) of
        [] \<Rightarrow> []
      | t # _ \<Rightarrow> t)"

definition opt_dict :: "pyval \<Rightarrow> pydict" where
  "opt_dict v = (case v of PDict d \<Rightarrow> d | _ \<Rightarrow> [])"

definition extract_location_options :: "si_lib \<Rightarrow> pydict \<Rightarrow> http_exc + string \<times> pyval \<times> pyval" where
  "extract_location_options lib options =
     (let location = opt_dict (dget options ''location'');
          lat = first_given [dget options ''latitude'', dget location ''latitude'', dget location ''lat''];
          lon = first_given [dget options ''longitude'', dget location ''longitude'', dget location ''lng''];
          address = str_first [dget options ''address'', dget location ''address'', dget location ''name'']
      in case parse_float lib lat ''-1.0'' of
           Inl e \<Rightarrow> Inl e
         | Inr latitude \<Rightarrow>
             (case parse_float lib lon ''-1.0'' of
                Inl e \<Rightarrow> Inl e
              | Inr longitude \<Rightarrow> Inr (address, latitude, longitude)))"

record qr_options =
  qr_enc :: string
  qr_latitude :: pyval
  qr_longitude :: pyval
  qr_address :: string
  qr_altitude :: pyval

definition extract_qrcode_options :: "si_lib \<Rightarrow> pydict \<Rightarrow> http_exc + qr_options" where
  "extract_qrcode_options lib options =
     (let qrcode = opt_dict (dget options ''qrcode''); location = opt_dict (dget options ''location'');
          qr_code = str_first [dget options ''qr_code'', dget qrcode ''qr_code'', dget qrcode ''url'',
                               dget qrcode ''code'', dget qrcode ''enc''];
          lat = first_given [dget options ''latitude'', dget qrcode ''latitude'', dget qrcode ''lat'',
                             dget location ''latitude'', dget location ''lat''];
          lon = first_given [dget options ''longitude'', dget qrcode ''longitude'', dget qrcode ''lng'',
                             dget location ''longitude'', dget location ''lng''];
          address = str_first [dget options ''address'', dget qrcode ''address'', dget location ''address''];
          alt = first_given [dget options ''altitude'', dget qrcode ''altitude'', dget location ''altitude'']
      in case extract_enc lib qr_code of
           Inl e \<Rightarrow> Inl e
         | Inr enc \<Rightarrow>
             (case parse_float lib lat ''-1.0'' of
                Inl e \<Rightarrow> Inl e
              | Inr latitude \<Rightarrow>
                  (case parse_float lib lon ''-1.0'' of
                     Inl e \<Rightarrow> Inl e
                   | Inr longitude \<Rightarrow>
                       (case parse_float lib alt ''100.0'' of
                          Inl e \<Rightarrow> Inl e
                        | Inr altitude \<Rightarrow>
                            Inr \<lparr>qr_enc = enc, qr_latitude = latitude, qr_longitude = longitude,
                                 qr_address = address, qr_altitude = altitude\<rparr>))))"

text \<open>The text a sign-in endpoint answers, stripped\<close>

definition submit_sign :: "'w web \<Rightarrow> nat \<Rightarrow> pydict \<Rightarrow> ('w, 'z, string) io" where
  "submit_sign web sid params =
     io_bind (http web sid (get_request PPT_SIGN_URL params)) (\<lambda>resp. io_return (py_strip (rs_text resp)))"

definition client_name :: "client \<Rightarrow> string" where
  "client_name cl = (if cl_account cl \<noteq> [] then cl_account cl else cl_username cl)"

definition sign_general :: "'w web \<Rightarrow> client \<Rightarrow> pydict \<Rightarrow> pydict \<Rightarrow> ('w, 'z, string) io" where
  "sign_general web cl task extra_params =
     io_bind (io_get (\<lambda>n. (client_uid web (cl_session cl) n, client_fid web (cl_session cl) n))) (\<lambda>(uid, fid).
     submit_sign web (cl_session cl) (dupdate
       [(''activeId'', dget task ''activeId''), (''uid'', PStr uid), (''clientip'', PStr []),
        (''latitude'', PInt (- 1)), (''longitude'', PInt (- 1)), (''appType'', PInt 15), (''fid'', PStr fid),
        (''name'', PStr (client_name cl))] extra_params))"

definition sign_location :: "'w web \<Rightarrow> si_lib \<Rightarrow> client \<Rightarrow> pydict \<Rightarrow> pydict \<Rightarrow> ('w, 'z, string) io" where
  "sign_location web lib cl task options =
     io_bind (io_of (extract_location_options lib options)) (\<lambda>(address, latitude, longitude).
     io_bind (io_get (\<lambda>n. (client_uid web (cl_session cl) n, client_fid web (cl_session cl) n))) (\<lambda>(uid, fid).
     submit_sign web (cl_session cl)
       [(''activeId'', dget task ''activeId''), (''uid'', PStr uid), (''clientip'', PStr []), (''appType'', PInt 15),
        (''fid'', PStr fid), (''name'', PStr (client_name cl)), (''address'', PStr address),
        (''latitude'', latitude), (''longitude'', longitude), (''ifTiJiao'', PInt 1)]))"

text \<open>\<open>json.dumps(..., ensure_ascii=False)\<close> of a text and of a float\<close>

definition json_char :: "char \<Rightarrow> string" where
  "json_char c =
     (let n = (of_char c :: nat); bs = char_of (92 :: nat)
      in if n = 34 \<or> n = 92 then [bs, c]
         else if n = 10 then [bs, CHR ''n''] else if n = 13 then [bs, CHR ''r'']
         else if n = 9 then [bs, CHR ''t''] else if n = 12 then [bs, CHR ''f'']
         else if n = 8 then [bs, CHR ''b'']
         else if n < 32 then [bs] @ ''u00'' @ [hex_char (n div 16), hex_char (n mod 16)]
         else [c])"

definition json_text :: "string \<Rightarrow> string" where
  "json_text s = [char_of (34 :: nat)] @ concat (map json_char s) @ [char_of (34 :: nat)]"

definition json_float :: "pyval \<Rightarrow> string" where
  "json_float v =
     (let t = py_str v
      in if t = ''nan'' then ''NaN'' else if t = ''inf'' then ''Infinity'' else if t = ''-inf'' then ''-Infinity'' else t)"

definition qrcode_location :: "qr_options \<Rightarrow> string" where
  "qrcode_location q =
     ''{'' @ join_with '',''
       [json_text ''result'' @ '':'' @ json_text ''1'', json_text ''address'' @ '':'' @ json_text (qr_address q),
        json_text ''latitude'' @ '':'' @ json_float (qr_latitude q),
        json_text ''longitude'' @ '':'' @ json_float (qr_longitude q),
        json_text ''altitude'' @ '':'' @ json_float (qr_altitude q)] @ ''}''"

definition sign_qrcode :: "'w web \<Rightarrow> si_lib \<Rightarrow> client \<Rightarrow> pydict \<Rightarrow> pydict \<Rightarrow> ('w, 'z, string) io" where
  "sign_qrcode web lib cl task options =
     io_bind (io_of (extract_qrcode_options lib options)) (\<lambda>q.
     if qr_enc q = [] then io_return ''fail-need-qrcode''
     else io_bind (io_get (\<lambda>n. (client_uid web (cl_session cl) n, client_fid web (cl_session cl) n))) (\<lambda>(uid, fid).
          submit_sign web (cl_session cl)
            [(''enc'', PStr (qr_enc q)), (''activeId'', dget task ''activeId''), (''uid'', PStr uid),
             (''clientip'', PStr []), (''location'', PStr (qrcode_location q)), (''latitude'', PInt (- 1)),
             (''longitude'', PInt (- 1)), (''fid'', PStr fid), (''appType'', PInt 15), (''name'', PStr (client_name cl))]))"

definition sign_with_code :: "'w web \<Rightarrow> client \<Rightarrow> string \<Rightarrow> pydict \<Rightarrow> pydict \<Rightarrow> ('w, 'z, string) io" where
  "sign_with_code web cl missing task options =
     (let sign_code = extract_sign_code options
      in if sign_code = [] then io_return missing
         else sign_general web cl task [(''signCode'', PStr sign_code)])"

definition sign_gesture :: "'w web \<Rightarrow> client \<Rightarrow> pydict \<Rightarrow> pydict \<Rightarrow> ('w, 'z, string) io" where
  "sign_gesture web cl task options = sign_with_code web cl ''fail-need-gesture'' task options"

definition sign_code :: "'w web \<Rightarrow> client \<Rightarrow> pydict \<Rightarrow> pydict \<Rightarrow> ('w, 'z, string) io" where
  "sign_code web cl task options = sign_with_code web cl ''fail-need-code'' task options"

text \<open>\<open>base64.b64decode(raw, validate=True)\<close>; \<open>None\<close> where it raises\<close>

fun index_of :: "char \<Rightarrow> string \<Rightarrow> nat option" where
  "index_of c [] = None"
| "index_of c (x # xs) = (if x = c then Some 0 else map_option Suc (index_of c xs))"

definition b64_val :: "char \<Rightarrow> nat option" where
  "b64_val c = index_of c b64_alphabet"

fun b64decode :: "string \<Rightarrow> string option" where
  "b64decode [] = Some []"
| "b64decode [a, b, c, d] =
     (case (b64_val a, b64_val b) of
        (Some x, Some y) \<Rightarrow>
          (if c = CHR ''='' \<and> d = CHR ''='' then Some [char_of (x * 4 + y div 16)]
           else (case b64_val c of
                   None \<Rightarrow> None
                 | Some z \<Rightarrow>
                     (if d = CHR ''='' then Some [char_of (x * 4 + y div 16), char_of (y mod 16 * 16 + z div 4)]
                      else (case b64_val d of
                              None \<Rightarrow> None
                            | Some w \<Rightarrow> Some [char_of (x * 4 + y div 16), char_of (y mod 16 * 16 + z div 4),
                                              char_of (z mod 4 * 64 + w)]))))
      | _ \<Rightarrow> None)"
| "b64decode (a # b # c # d # s) =
     (case (b64_val a, b64_val b, b64_val c, b64_val d) of
        (Some x, Some y, Some z, Some w) \<Rightarrow>
          map_option (\<lambda>t. char_of (x * 4 + y div 16) # char_of (y mod 16 * 16 + z div 4) # char_of (z mod 4 * 64 + w) # t)
            (b64decode s)
      | _ \<Rightarrow> None)"
| "b64decode _ = None"

fun extract_object_id :: "pyval \<Rightarrow> string" and object_id_in_list :: "pyval list \<Rightarrow> string"
  and object_id_in_dict :: "pydict \<Rightarrow> string" where
  "extract_object_id (PDict d) =
     (if truthy (dget d ''objectId'') then py_str (dget d ''objectId'')
      else if truthy (dget d ''objectid'') then py_str (dget d ''objectid'')
      else object_id_in_dict d)"
| "extract_object_id (PList items) = object_id_in_list items"
| "extract_object_id _ = []"
| "object_id_in_list [] = []"
| "object_id_in_list (item # items) =
     (let found = extract_object_id item in if found \<noteq> [] then found else object_id_in_list items)"
| "object_id_in_dict [] = []"
| "object_id_in_dict ((_, item) # items) =
     (let found = extract_object_id item in if found \<noteq> [] then found else object_id_in_dict items)"

text \<open>\<open>"objectId"\s*:\s*"([^"]+)"\<close>\<close>

definition object_id_re :: re where
  "object_id_re =
     (let dq = [char_of (34 :: nat)]
      in seqs [lit (dq @ ''objectId'' @ dq), spaces, lit '':'', spaces, lit dq, Group 1 (many1 (none_of dq)), lit dq])"

definition uploaded_object_id :: "response \<Rightarrow> string" where
  "uploaded_object_id resp =
     (let data = safe_json_value resp; found = (if truthy data then extract_object_id data else [])
      in if found \<noteq> [] then found
         else (case re_search object_id_re (rs_text resp) of None \<Rightarrow> [] | Some p \<Rightarrow> group_of 1 p))"

definition photo_bytes :: "string \<Rightarrow> string option" where
  "photo_bytes photo_input =
     (let payload = py_strip photo_input;
          raw = (if starts_with payload ''data:image'' \<and> CHR '','' \<in> set payload then after_char (CHR '','') payload
                 else payload)
      in if payload = [] then None
         else (case b64decode raw of
                 None \<Rightarrow> None
               | Some bytes \<Rightarrow> (if length bytes < 100 then None else Some bytes)))"

definition upload_photo :: "'w web \<Rightarrow> nat \<Rightarrow> string \<Rightarrow> ('w, 'z, string) io" where
  "upload_photo web sid photo_input =
     (case photo_bytes photo_input of
        None \<Rightarrow> io_return []
      | Some bytes \<Rightarrow>
          io_try is_request_exc
            (io_bind (http web sid (get_request PAN_TOKEN_URL [])) (\<lambda>token_resp.
              (let data = safe_json token_resp; token = first_truthy [dget data ''_token'', dget data ''token'']
               in if \<not> truthy token then io_return []
                  else io_bind (io_get (client_uid web sid)) (\<lambda>uid.
                       io_bind (http web sid (post_request PAN_UPLOAD_URL
                         [(''_from'', PStr ''mobilelearn''), (''_token'', token)] [(''puid'', PStr uid)] bytes)) (\<lambda>resp.
                       io_return (uploaded_object_id resp))))))
            (\<lambda>_. io_return []))"

definition photo_missing_message :: string where
  "photo_missing_message = ''photo sign-in failed: no image data received, please upload the photo again''"

definition photo_upload_message :: string where
  "photo_upload_message = ''photo sign-in failed: the upload to Chaoxing failed, please check the network or retry''"

definition sign_photo :: "'w web \<Rightarrow> client \<Rightarrow> pydict \<Rightarrow> pydict \<Rightarrow> ('w, 'z, string) io" where
  "sign_photo web cl task options =
     (let given_id = first_truthy [dget options ''object_id'', dget options ''objectId''];
          photo_data = str_first [dget options ''photo_base64'', dget options ''photo'']
      in if \<not> truthy given_id \<and> photo_data = [] then io_return photo_missing_message
         else io_bind (if truthy given_id then io_return given_id
                       else io_bind (upload_photo web (cl_session cl) photo_data) (\<lambda>t. io_return (PStr t))) (\<lambda>object_id.
              if \<not> truthy object_id then io_return photo_upload_message
              else io_bind (io_get (\<lambda>n. (client_uid web (cl_session cl) n, client_fid web (cl_session cl) n))) (\<lambda>(uid, fid).
                   submit_sign web (cl_session cl)
                     [(''activeId'', dget task ''activeId''), (''uid'', PStr uid), (''clientip'', PStr []),
                      (''latitude'', PInt (- 1)), (''longitude'', PInt (- 1)), (''appType'', PInt 15),
                      (''fid'', PStr fid), (''objectId'', object_id), (''name'', PStr (client_name cl))])))"

definition SIGN_TYPES :: "string list" where
  "SIGN_TYPES = [''normal'', ''location'', ''qrcode'', ''photo'', ''gesture'', ''code'']"

definition sign_by_type ::
  "'w web \<Rightarrow> si_lib \<Rightarrow> client \<Rightarrow> string \<Rightarrow> pydict \<Rightarrow> pydict \<Rightarrow> ('w, 'z, string) io" where
  "sign_by_type web lib cl sign_type task options =
     (if sign_type = ''location'' then sign_location web lib cl task options
      else if sign_type = ''qrcode'' then sign_qrcode web lib cl task options
      else if sign_type = ''photo'' then sign_photo web cl task options
      else if sign_type = ''gesture'' then sign_gesture web cl task options
      else if sign_type = ''code'' then sign_code web cl task options
      else sign_general web cl task [])"

definition sign_task ::
  "'w web \<Rightarrow> si_lib \<Rightarrow> client \<Rightarrow> string \<Rightarrow> pydict \<Rightarrow> pydict \<Rightarrow> ('w, 'z, pydict) io" where
  "sign_task web lib cl preferred_type options task =
     (let sign_type = (if preferred_type = ''all'' then task_text task ''type'' else preferred_type)
      in io_bind
           (io_try is_request_exc
              (if sign_type \<notin> set SIGN_TYPES then io_raise (Request_error ''cannot determine the sign-in type'')
               else io_bind (pre_sign web lib (cl_session cl) task) (\<lambda>_.
                    sign_by_type web lib cl sign_type task options))
              (\<lambda>e. io_return (exc_str e)))
           (\<lambda>raw_result. io_return
              [(''status'', PBool (py_lower (py_strip raw_result) = ''success'')), (''message'', PStr raw_result),
               (''data'', PDict [(''task'', PDict task), (''sign_type'', PStr sign_type)])]))"

end
