(* ===== verification/Signin_Sound.thy ===== *)
theory Signin_Sound
  imports Signin_Client
begin

text \<open>
  What the sign-in client does on the network: only the submission functions contact the sign-in
  endpoint, a task found by the scan is an active sign-in of a known kind that the request selected,
  and signing it submits at most one sign-in, of exactly that activity.
\<close>

section \<open>Which requests an operation makes\<close>

definition is_submission :: "nat \<times> request \<Rightarrow> bool" where
  "is_submission x \<longleftrightarrow> rq_url (snd x) = PPT_SIGN_URL"

definition submissions :: "(nat \<times> request) list \<Rightarrow> pyval list" where
  "submissions rs = map (\<lambda>x. dget (rq_params (snd x)) ''activeId'') (filter is_submission rs)"

definition submitted :: "('w, 'z) net_scheme \<Rightarrow> pyval list" where
  "submitted n = submissions (sent n)"

abbreviation silent :: "('w, 'z, 'a) io \<Rightarrow> bool" where
  "silent m \<equiv> makes (\<lambda>x. \<not> is_submission x) m"

lemmas url_defs = LOGIN_URL_def COURSE_LIST_URL_def INTERACTION_URL_def ACCOUNT_URL_def ACTIVE_LIST_URL_def
  PPT_ACTIVE_INFO_URL_def PRE_SIGN_URL_def SIGN_ANALYSIS_URL_def SIGN_ANALYSIS2_URL_def PPT_SIGN_URL_def
  PAN_TOKEN_URL_def PAN_UPLOAD_URL_def

lemma not_submission [simp]:
  "rq_url rq \<in> {LOGIN_URL, COURSE_LIST_URL, INTERACTION_URL, ACCOUNT_URL, ACTIVE_LIST_URL, PPT_ACTIVE_INFO_URL,
     PRE_SIGN_URL, SIGN_ANALYSIS_URL, SIGN_ANALYSIS2_URL, PAN_TOKEN_URL, PAN_UPLOAD_URL} \<Longrightarrow> \<not> is_submission (sid, rq)"
  by (auto simp: is_submission_def url_defs)

lemma request_urls [simp]:
  "rq_url (get_request url params) = url" "rq_params (get_request url params) = params"
  "rq_url (post_request url params form f) = url"
  by (simp_all add: get_request_def post_request_def)

lemma silent_course_list [makes_rules]: "silent (get_courses web lib sid)"
  unfolding get_courses_def parse_course_folders_def by (intro makes_rules) simp_all

lemma silent_activity_list [makes_rules]: "silent (get_course_activity_list web lib sid c k)"
  unfolding get_course_activity_list_def by (intro makes_rules) simp_all

lemma silent_active_info [makes_rules]: "silent (get_ppt_active_info web lib sid a)"
  unfolding get_ppt_active_info_def by (intro makes_rules) simp_all

lemma silent_resolve [makes_rules]: "silent (resolve_sign_type web lib sid activity a info)"
  unfolding resolve_sign_type_def Let_def
  by (cases info) (auto intro!: makes_rules)

lemma silent_activity_to_task [makes_rules]: "silent (activity_to_task web lib sid course activity ty detail)"
  unfolding activity_to_task_def by (intro makes_rules)

lemma silent_scan_activity [makes_rules]: "silent (scan_activity web lib sid af ty course activity tasks)"
  unfolding scan_activity_def by (auto intro!: makes_rules)

lemma silent_scan_course [makes_rules]: "silent (scan_course web lib sid fp cf af ty course sc)"
  unfolding scan_course_def Let_def by (auto intro!: makes_rules split: sum.splits)

lemma silent_active_tasks [makes_rules]: "silent (get_active_tasks web lib sid cfs clf aid ty)"
  unfolding get_active_tasks_def by (auto intro!: makes_rules)

lemma silent_fetch_name [makes_rules]: "silent (fetch_account_name web lib sid)"
  unfolding fetch_account_name_def by (intro makes_rules) simp_all

lemma silent_try_logins [makes_rules]: "silent (try_logins web lib cl attempts m)"
proof (induction attempts arbitrary: m)
  case (Cons payload attempts)
  show ?case by (auto simp: Let_def intro!: makes_rules Cons.IH split: sum.splits prod.splits)
qed (simp add: makes_rules)

lemma silent_login [makes_rules]: "silent (client_login web lib u p)"
  unfolding client_login_def by (intro makes_rules)

lemma silent_pre_sign [makes_rules]: "silent (pre_sign web lib sid task)"
  unfolding pre_sign_def by (auto intro!: makes_rules split: option.splits)

lemma silent_upload [makes_rules]: "silent (upload_photo web sid photo)"
  unfolding upload_photo_def Let_def by (auto intro!: makes_rules split: option.splits)

section \<open>At most one submission\<close>

lemma submissions_append [simp]: "submissions (rs @ ss) = submissions rs @ submissions ss"
  by (simp add: submissions_def)

lemma submissions_silent: "list_all (\<lambda>x. \<not> is_submission x) rs \<Longrightarrow> submissions rs = []"
  by (induction rs) (auto simp: submissions_def)

text \<open>\<open>adds V m\<close>: the submissions of \<open>m\<close>, whether it returns or raises, are one of the lists \<open>V\<close>.\<close>

definition adds :: "pyval list set \<Rightarrow> ('w, 'z, 'a) io \<Rightarrow> bool" where
  "adds V m \<longleftrightarrow> (\<forall>n. \<exists>v \<in> V. submitted (snd (m n)) = submitted n @ v)"

lemma adds_silent: "silent m \<Longrightarrow> adds {[]} m"
  unfolding adds_def
proof
  fix n assume m: "silent m"
  obtain r n' where run: "m n = (r, n')" by fastforce
  from makes_sent [OF m run] obtain rs where "sent n' = sent n @ rs" "list_all (\<lambda>x. \<not> is_submission x) rs" .
  with run show "\<exists>v \<in> {[]}. submitted (snd (m n)) = submitted n @ v"
    by (simp add: submitted_def submissions_silent)
qed

lemma adds_mono: "adds V m \<Longrightarrow> V \<subseteq> W \<Longrightarrow> adds W m"
  unfolding adds_def by blast

lemma adds_bind:
  assumes "adds {[]} m" and "\<And>x. adds V (f x)" and "[] \<in> V"
  shows "adds V (io_bind m f)"
  unfolding adds_def
proof
  fix n
  obtain r n1 where m: "m n = (r, n1)" by fastforce
  then have "submitted n1 = submitted n" using assms(1) unfolding adds_def by (metis append.right_neutral singletonD snd_conv)
  moreover have "\<exists>v \<in> V. submitted (snd (f x n1)) = submitted n1 @ v" for x
    using assms(2) [of x] unfolding adds_def by blast
  ultimately show "\<exists>v \<in> V. submitted (snd (io_bind m f n)) = submitted n @ v"
    using assms(3) m by (cases r) (auto simp: io_bind_def)
qed

lemma adds_bind_last:
  assumes "adds V m" and "\<And>x. adds {[]} (f x)"
  shows "adds V (io_bind m f)"
  unfolding adds_def
proof
  fix n
  obtain r n1 where m: "m n = (r, n1)" by fastforce
  then obtain v where v: "v \<in> V" "submitted n1 = submitted n @ v" using assms(1) unfolding adds_def by (metis snd_conv)
  have "submitted (snd (f x n1)) = submitted n1" for x
    using assms(2) unfolding adds_def by (metis append.right_neutral singletonD)
  with v m show "\<exists>v \<in> V. submitted (snd (io_bind m f n)) = submitted n @ v"
    by (cases r) (auto simp: io_bind_def)
qed

lemma adds_try:
  assumes "adds V m" and "\<And>e. silent (h e)"
  shows "adds V (io_try C m h)"
  unfolding adds_def
proof
  fix n
  obtain r n1 where m: "m n = (r, n1)" by fastforce
  then obtain v where v: "v \<in> V" "submitted n1 = submitted n @ v" using assms(1) unfolding adds_def by (metis snd_conv)
  have "submitted (snd (h e n1)) = submitted n1" for e
    using adds_silent [OF assms(2)] unfolding adds_def by (metis append.right_neutral singletonD)
  with v m show "\<exists>v \<in> V. submitted (snd (io_try C m h n)) = submitted n @ v"
    by (cases r) (auto simp: io_try_def)
qed

abbreviation may_submit :: "pyval \<Rightarrow> pyval list set" where
  "may_submit a \<equiv> {[], [a]}"

lemma adds_return: "adds (may_submit a) (io_return x)" and adds_raise: "adds (may_submit a) (io_raise e)"
  by (simp_all add: adds_def io_return_def io_raise_def)

lemma adds_submit: "dget params ''activeId'' = a \<Longrightarrow> adds (may_submit a) (submit_sign web sid params)"
  unfolding submit_sign_def
  by (intro adds_bind_last adds_silent makes_rules)
     (auto simp: adds_def http_def submitted_def submissions_def is_submission_def case_prod_beta Let_def)

lemma dget_general_params [simp]:
  "dget (dupdate [(''activeId'', a), (''uid'', u), (''clientip'', c), (''latitude'', l), (''longitude'', l'), (''appType'', t),
     (''fid'', f), (''name'', m)] [(''signCode'', s)]) ''activeId'' = a"
  by (simp add: dget_def)

lemma dget_hd [simp]: "dget ((k, v) # d) k = v"
  by (simp add: dget_def)

lemma adds_general:
  "extra = [] \<or> (\<exists>s. extra = [(''signCode'', s)]) \<Longrightarrow>
     adds (may_submit (dget task ''activeId'')) (sign_general web cl task extra)"
  unfolding sign_general_def
  by (auto intro!: adds_bind adds_submit adds_silent makes_rules split: prod.splits)

lemma adds_with_code: "adds (may_submit (dget task ''activeId'')) (sign_with_code web cl missing task options)"
  unfolding sign_with_code_def Let_def by (auto intro!: adds_general adds_return adds_raise makes_rules)

lemma adds_location: "adds (may_submit (dget task ''activeId'')) (sign_location web lib cl task options)"
  unfolding sign_location_def
  by (auto intro!: adds_bind adds_submit adds_silent makes_rules split: prod.splits)

lemma adds_qrcode: "adds (may_submit (dget task ''activeId'')) (sign_qrcode web lib cl task options)"
  unfolding sign_qrcode_def
  by (auto simp: dget_def [of "(''enc'', _) # _"]
      intro!: adds_bind adds_submit adds_return adds_raise adds_silent makes_rules split: prod.splits)

lemma adds_photo: "adds (may_submit (dget task ''activeId'')) (sign_photo web cl task options)"
  unfolding sign_photo_def Let_def
  by (auto intro!: adds_bind adds_submit adds_return adds_raise adds_silent makes_rules split: prod.splits)

lemma adds_by_type: "adds (may_submit (dget task ''activeId'')) (sign_by_type web lib cl ty task options)"
  by (simp add: sign_by_type_def sign_gesture_def sign_code_def adds_location adds_qrcode adds_photo adds_with_code
      adds_general)

lemma adds_signing:
  "adds (may_submit (dget task ''activeId''))
     (io_bind (pre_sign web lib sid task) (\<lambda>_. sign_by_type web lib cl ty task options))"
  by (intro adds_bind adds_silent silent_pre_sign adds_by_type) simp

lemma adds_sign_task: "adds (may_submit (dget task ''activeId'')) (sign_task web lib cl ty options task)"
  unfolding sign_task_def Let_def
  by (intro adds_bind_last adds_try adds_silent makes_rules) (simp add: adds_signing adds_raise)

section \<open>What success means\<close>

definition reads_success :: "string \<Rightarrow> bool" where
  "reads_success t \<longleftrightarrow> py_lower (py_strip t) = ''success''"

text \<open>No exception of the network library has the text \<open>success\<close>.\<close>

definition honest_errors :: "'w web \<Rightarrow> si_lib \<Rightarrow> bool" where
  "honest_errors web lib \<longleftrightarrow>
     (\<forall>sid rq w e. fst (web_send web sid rq w) = Inl e \<longrightarrow> \<not> reads_success (exc_str e))
     \<and> (\<forall>resp. \<not> reads_success (si_http_error lib resp))"

abbreviation honest_exc :: "http_exc \<Rightarrow> bool" where
  "honest_exc e \<equiv> \<not> reads_success (exc_str e)"

lemma exc_str_simps [simp]:
  "exc_str (Session_expired s) = s" "exc_str (Request_error s) = s" "exc_str (Other_exc s) = s"
  by (simp_all add: exc_str_def)

lemma honest_http [raises_rules]: "honest_errors web lib \<Longrightarrow> raises honest_exc (http web sid rq)"
  by (rule raises_http) (auto simp: honest_errors_def)

lemma not_success_texts [simp]:
  "\<not> reads_success ''sign-in preparation returned an unexpected redirect''"
  "\<not> reads_success ''sign-in check returned an unexpected redirect''"
  "\<not> reads_success ''sign-in check returned no valid credential''"
  "\<not> reads_success ''cannot determine the sign-in type''"
  "\<not> reads_success ''fail-need-qrcode''" "\<not> reads_success ''fail-need-gesture''" "\<not> reads_success ''fail-need-code''"
  "\<not> reads_success SESSION_EXPIRED_MESSAGE" "\<not> reads_success photo_missing_message" "\<not> reads_success photo_upload_message"
  "\<not> reads_success ''Invalid URL''" "\<not> reads_success ''int too large to convert to float''"
  by code_simp+

lemma validate_response_honest:
  assumes "honest_errors web lib" and "validate_response lib resp op = Inl e" and "op \<in> {''sign-in preparation'', ''sign-in check''}"
  shows "honest_exc e"
  using assms by (auto simp: validate_response_def honest_errors_def split: if_splits)

lemma pre_sign_honest [raises_rules]: "honest_errors web lib \<Longrightarrow> raises honest_exc (pre_sign web lib sid task)"
  unfolding pre_sign_def
  by (auto intro!: raises_rules dest: validate_response_honest split: option.splits)

text \<open>\<open>backed a m\<close>: if \<open>m\<close> returns the text \<open>success\<close>, it has submitted a sign-in of \<open>a\<close>.\<close>

definition backed :: "pyval \<Rightarrow> ('w, 'z, string) io \<Rightarrow> bool" where
  "backed a m \<longleftrightarrow> (\<forall>n t n'. m n = (Inr t, n') \<longrightarrow> reads_success t \<longrightarrow> submitted n' = submitted n @ [a])"

lemma reports_return: "\<not> reads_success t \<Longrightarrow> backed a (io_return t)"
  by (simp add: backed_def)

lemma reports_raise: "backed a (io_raise e)"
  by (simp add: backed_def)

lemma silent_run: "silent m \<Longrightarrow> m n = (r, n') \<Longrightarrow> submitted n' = submitted n"
  using adds_silent unfolding adds_def by (metis append.right_neutral singletonD snd_conv)

lemma reports_bind:
  assumes "silent m" and "\<And>x. backed a (f x)"
  shows "backed a (io_bind m f)"
  using assms(2) silent_run [OF assms(1)] unfolding backed_def by (fastforce simp: io_bind_Inr)

lemma reports_submit: "dget params ''activeId'' = a \<Longrightarrow> backed a (submit_sign web sid params)"
  by (auto simp: backed_def submit_sign_def io_bind_Inr http_def submitted_def submissions_def is_submission_def
      case_prod_beta Let_def)

lemmas reports_rules = reports_return reports_raise reports_bind reports_submit makes_rules

lemma reports_general:
  "extra = [] \<or> (\<exists>s. extra = [(''signCode'', s)]) \<Longrightarrow> backed (dget task ''activeId'') (sign_general web cl task extra)"
  unfolding sign_general_def by (auto intro!: reports_rules split: prod.splits)

lemma reports_with_code:
  "\<not> reads_success missing \<Longrightarrow> backed (dget task ''activeId'') (sign_with_code web cl missing task options)"
  unfolding sign_with_code_def Let_def by (auto intro!: reports_general reports_return)

lemma reports_location: "backed (dget task ''activeId'') (sign_location web lib cl task options)"
  unfolding sign_location_def by (auto intro!: reports_rules split: prod.splits)

lemma reports_qrcode: "backed (dget task ''activeId'') (sign_qrcode web lib cl task options)"
  unfolding sign_qrcode_def
  by (auto simp: dget_def [of "(''enc'', _) # _"] intro!: reports_rules split: prod.splits)

lemma reports_photo: "backed (dget task ''activeId'') (sign_photo web cl task options)"
  unfolding sign_photo_def Let_def by (auto intro!: reports_rules split: prod.splits)

lemma reports_by_type: "backed (dget task ''activeId'') (sign_by_type web lib cl ty task options)"
  by (simp add: sign_by_type_def sign_gesture_def sign_code_def reports_general reports_with_code reports_location
      reports_qrcode reports_photo)

text \<open>None of the exceptions reads \<open>success\<close>\<close>

lemma honest_submit [raises_rules]: "honest_errors web lib \<Longrightarrow> raises honest_exc (submit_sign web sid params)"
  unfolding submit_sign_def by (auto intro!: raises_rules)

lemma honest_parse_float: "parse_float lib v d = Inl e \<Longrightarrow> honest_exc e"
  by (auto simp: parse_float_def split: if_splits)

lemma honest_enc: "extract_enc lib t = Inl e \<Longrightarrow> honest_exc e"
  by (auto simp: extract_enc_def Let_def split: option.splits list.splits if_splits)

lemma honest_location_options: "extract_location_options lib options = Inl e \<Longrightarrow> honest_exc e"
  unfolding extract_location_options_def Let_def by (auto dest: honest_parse_float split: sum.splits)

lemma honest_qrcode_options: "extract_qrcode_options lib options = Inl e \<Longrightarrow> honest_exc e"
  unfolding extract_qrcode_options_def Let_def by (auto dest: honest_parse_float honest_enc split: sum.splits)

lemmas honest_options = honest_location_options honest_qrcode_options

lemma honest_upload [raises_rules]: "honest_errors web lib \<Longrightarrow> raises honest_exc (upload_photo web sid photo)"
  unfolding upload_photo_def Let_def
  by (cases "photo_bytes photo") (simp_all add: raises_rules)

lemma honest_general [raises_rules]: "honest_errors web lib \<Longrightarrow> raises honest_exc (sign_general web cl task extra)"
  unfolding sign_general_def by (auto intro!: raises_rules split: prod.splits)

lemma honest_with_code [raises_rules]:
  "honest_errors web lib \<Longrightarrow> raises honest_exc (sign_with_code web cl missing task options)"
  unfolding sign_with_code_def Let_def by (auto intro!: raises_rules)

lemma honest_location [raises_rules]:
  "honest_errors web lib \<Longrightarrow> raises honest_exc (sign_location web lib cl task options)"
  unfolding sign_location_def by (auto intro!: raises_rules dest: honest_options split: prod.splits)

lemma honest_qrcode [raises_rules]: "honest_errors web lib \<Longrightarrow> raises honest_exc (sign_qrcode web lib cl task options)"
  unfolding sign_qrcode_def by (auto intro!: raises_rules dest: honest_options split: prod.splits)

lemma honest_photo [raises_rules]: "honest_errors web lib \<Longrightarrow> raises honest_exc (sign_photo web cl task options)"
  unfolding sign_photo_def Let_def by (auto intro!: raises_rules split: prod.splits)

lemma honest_by_type [raises_rules]:
  "honest_errors web lib \<Longrightarrow> raises honest_exc (sign_by_type web lib cl ty task options)"
  by (simp add: sign_by_type_def sign_gesture_def sign_code_def honest_general honest_with_code honest_location
      honest_qrcode honest_photo)

definition sign_ok :: "pydict \<Rightarrow> bool" where
  "sign_ok result \<longleftrightarrow> truthy (dget result ''status'')"

lemma sign_task_reports:
  assumes "honest_errors web lib" and run: "sign_task web lib cl ty options task n = (Inr result, n')" and "sign_ok result"
  shows "submitted n' = submitted n @ [dget task ''activeId'']"
proof -
  let ?ty = "if ty = ''all'' then task_text task ''type'' else ty"
  let ?body = "if ?ty \<notin> set SIGN_TYPES then io_raise (Request_error ''cannot determine the sign-in type'')
    else io_bind (pre_sign web lib (cl_session cl) task) (\<lambda>_. sign_by_type web lib cl ?ty task options)"
  obtain raw where r: "io_try is_request_exc ?body (\<lambda>e. io_return (exc_str e)) n = (Inr raw, n')" and s: "reads_success raw"
    using run assms(3) by (auto simp: sign_task_def Let_def io_bind_Inr sign_ok_def reads_success_def dget_def)
  have rep: "backed (dget task ''activeId'') ?body"
    by (auto intro!: reports_raise reports_bind reports_by_type makes_rules)
  have hon: "raises honest_exc ?body"
    using assms(1) by (auto intro!: raises_rules)
  from r show ?thesis
    unfolding io_try_Inr
  proof
    assume "?body n = (Inr raw, n')"
    with rep s show ?thesis unfolding backed_def by blast
  next
    assume e: "\<exists>e n1. ?body n = (Inl e, n1) \<and> is_request_exc e \<and> io_return (exc_str e) n1 = (Inr raw, n')"
    then show ?thesis using raisesD [OF hon] s by auto
  qed
qed

section \<open>What the scan returns\<close>

text \<open>
  An active sign-in of a known kind and of the expected type, among the requested activities, in a
  selected course and class.
\<close>

definition signable :: "course_filter list \<Rightarrow> string list \<Rightarrow> string list \<Rightarrow> string \<Rightarrow> pydict \<Rightarrow> bool" where
  "signable filter_pairs class_filter active_filter expected_type task \<longleftrightarrow>
     dget task ''status'' = PStr ''active''
     \<and> task_text task ''type'' \<in> set SIGN_TYPES
     \<and> (expected_type = ''all'' \<or> task_text task ''type'' = expected_type)
     \<and> (active_filter = [] \<or> task_text task ''activeId'' \<in> set active_filter)
     \<and> (\<exists>course_id class_id. course_selected filter_pairs class_filter (course_id, class_id)
          \<and> dget task ''rawCourseId'' = PStr (py_strip course_id) \<and> dget task ''classId'' = PStr (py_strip class_id))"

lemma str_or_empty_truthy: "str_or_empty v \<noteq> [] \<Longrightarrow> truthy v \<and> py_str v = str_or_empty v"
  by (simp add: str_or_empty_def split: if_splits)

lemma str_first_truthy: "truthy v \<Longrightarrow> str_first (v # vs) = py_str v"
  by (simp add: str_first_def first_truthy.simps)

lemma as_filter_set_stripped: "t \<in> set (as_filter_set v) \<Longrightarrow> py_strip t = t"
  by (auto simp: as_filter_set_def split: pyval.splits if_splits)

definition both_ids :: "pydict \<Rightarrow> bool" where
  "both_ids course \<longleftrightarrow> fst (course_key course) \<noteq> [] \<and> snd (course_key course) \<noteq> []"

lemma both_ids_values:
  assumes "both_ids course"
  shows "truthy (dget course ''courseId'')" "truthy (dget course ''classId'')"
    and "py_str (dget_or course ''courseId'' (PStr [])) = str_or_empty (dget course ''courseId'')"
    and "py_str (dget_or course ''classId'' (PStr [])) = str_first [dget course ''classId'', dget course ''clazzId'']"
proof -
  show c: "truthy (dget course ''courseId'')" and k: "truthy (dget course ''classId'')"
    using assms by (auto simp: both_ids_def course_key_def dest: str_or_empty_truthy)
  then show "py_str (dget_or course ''courseId'' (PStr [])) = str_or_empty (dget course ''courseId'')"
    by (auto simp: dget_or_def dget_def str_or_empty_def split: option.splits)
  from k show "py_str (dget_or course ''classId'' (PStr [])) = str_first [dget course ''classId'', dget course ''clazzId'']"
    by (auto simp: str_first_truthy dget_or_def) (auto simp: dget_def split: option.splits)
qed

lemma merge_courses_ids:
  assumes "\<forall>c \<in> set merged. both_ids c"
  shows "\<forall>c \<in> set (merge_courses courses merged). both_ids c"
  unfolding merge_courses_def
  by (rule fold_invariant [where Q = "\<lambda>_. True"]) (use assms in \<open>auto simp: Let_def both_ids_def\<close>)

lemma get_courses_ids:
  assumes "get_courses web lib sid n = (Inr courses, n')" and "c \<in> set courses"
  shows "both_ids c"
proof -
  obtain folders n1 body where "io_for body (add_new [] (''0'' # folders)) [] n1 = (Inr courses, n')"
    and body: "body = (\<lambda>folder merged.
           io_bind (http web sid (post_request COURSE_LIST_URL []
              [(''courseType'', PInt 1), (''courseFolderId'', PStr folder), (''courseFolderSize'', PInt 0),
               (''query'', PStr []), (''superstarClass'', PInt 0)] [])) (\<lambda>resp.
           io_bind (io_of (validate_course_response lib False resp)) (\<lambda>courses.
           io_return (merge_courses courses merged))))"
    using assms(1) by (auto simp: get_courses_def io_bind_Inr)
  from io_for_invariant [OF this(1), of "\<lambda>cs. \<forall>c \<in> set cs. both_ids c"] have "\<forall>c \<in> set courses. both_ids c"
    by (auto simp: body io_bind_Inr dest: bspec [OF merge_courses_ids])
  with assms(2) show ?thesis by blast
qed

lemma resolve_known:
  assumes "resolve_sign_type web lib sid activity a None n = (Inr t, n')"
    and "si_int lib (dget activity ''otherId'') (- 1) \<in> set SIGN_VARIANTS"
  shows "t \<in> set SIGN_TYPES"
  using assms by (auto simp: resolve_sign_type_def activity_other_id_def SIGN_VARIANTS_def SIGN_TYPES_def io_bind_Inr
      split: if_splits)

lemma activity_to_task_fields:
  assumes "activity_to_task web lib sid course activity t [] n = (Inr task, n')"
  shows "dget task ''type'' = PStr t" and "dget task ''activeId'' = PStr (py_strip (activity_id activity))"
    and "dget task ''status'' = PStr (task_status (si_int lib (dget activity ''status'') 0))"
    and "dget task ''rawCourseId'' = PStr (py_strip (str_or_empty (dget course ''courseId'')))"
    and "dget task ''classId'' = PStr (py_strip (str_first [dget course ''classId'', dget course ''clazzId'']))"
  using assms by (auto simp: activity_to_task_def Let_def dget_def)

lemma scan_activity_sound:
  assumes "scan_activity web lib sid (as_filter_set aid) ty course activity tasks n = (Inr tasks', n')"
    and "course_selected fps cf (py_str (dget_or course ''courseId'' (PStr [])), py_str (dget_or course ''classId'' (PStr [])))"
    and "both_ids course" and "\<forall>t \<in> set tasks. signable fps cf (as_filter_set aid) ty t"
  shows "\<forall>t \<in> set tasks'. signable fps cf (as_filter_set aid) ty t"
proof (cases "tasks' = tasks")
  case False
  with assms(1) obtain t n1 task where sc: "scanned lib (as_filter_set aid) activity"
    and r: "resolve_sign_type web lib sid activity (activity_id activity) None n = (Inr t, n1)"
    and ty: "ty = ''all'' \<or> t = ty" and a: "activity_to_task web lib sid course activity t [] n1 = (Inr task, n')"
    and new: "tasks' = tasks @ [task]"
    by (auto simp: scan_activity_def io_bind_Inr split: if_splits)
  note f = activity_to_task_fields [OF a]
  have "t \<in> set SIGN_TYPES" using resolve_known [OF r] sc by (simp add: scanned_def)
  moreover have "as_filter_set aid = [] \<or> py_strip (activity_id activity) \<in> set (as_filter_set aid)"
    using sc as_filter_set_stripped by (auto simp: scanned_def)
  moreover have "si_int lib (dget activity ''status'') 0 = 1" using sc by (simp add: scanned_def)
  ultimately have "signable fps cf (as_filter_set aid) ty task"
    unfolding signable_def task_text_def using f ty assms(2) both_ids_values [OF assms(3)]
    by (auto simp: task_status_def)
  with assms(4) new show ?thesis by simp
qed (use assms(4) in simp)

lemma scan_course_sound:
  assumes run: "scan_course web lib sid fps cf (as_filter_set aid) ty course sc n = (Inr sc', n')"
    and ids: "both_ids course" and inv: "\<forall>t \<in> set (sc_tasks sc). signable fps cf (as_filter_set aid) ty t"
  shows "\<forall>t \<in> set (sc_tasks sc'). signable fps cf (as_filter_set aid) ty t"
proof -
  let ?key = "(py_str (dget_or course ''courseId'' (PStr [])), py_str (dget_or course ''classId'' (PStr [])))"
  show ?thesis
  proof (cases "course_selected fps cf ?key \<and> sc_tasks sc' \<noteq> sc_tasks sc")
    case False
    with run inv show ?thesis by (auto simp: scan_course_def Let_def)
  next
    case True
    let ?go = "\<lambda>outcome. case outcome of
        Inl e \<Rightarrow> io_return (sc\<lparr>sc_attempted := Suc (sc_attempted sc), sc_failures := sc_failures sc @ [e]\<rparr>)
      | Inr payload \<Rightarrow>
          io_bind (io_for (scan_activity web lib sid (as_filter_set aid) ty course) payload (sc_tasks sc))
            (\<lambda>tasks. io_return (sc\<lparr>sc_attempted := Suc (sc_attempted sc), sc_tasks := tasks\<rparr>))"
    from True run obtain outcome n1 where "?go outcome n1 = (Inr sc', n')"
      by (simp add: scan_course_def Let_def io_bind_Inr [of "io_try _ _ _"]) blast
    then obtain payload where
      "io_for (scan_activity web lib sid (as_filter_set aid) ty course) payload (sc_tasks sc) n1 = (Inr (sc_tasks sc'), n')"
      using True by (cases outcome) (auto simp: io_bind_Inr)
    then show ?thesis
      by (rule io_for_invariant) (use inv scan_activity_sound True ids in blast)+
  qed
qed

lemma active_tasks_sound:
  assumes run: "get_active_tasks web lib sid cfs clf aid ty n = (Inr tasks, n')"
  obtains items where "iter_values cfs = Inr items"
    and "\<forall>t \<in> set tasks. signable (map parse_course_filter items) (as_filter_set clf) (as_filter_set aid) ty t"
proof -
  obtain courses n1 items sc n2 where c: "get_courses web lib sid n = (Inr courses, n1)" and i: "iter_values cfs = Inr items"
    and loop: "io_for (scan_course web lib sid (map parse_course_filter items) (as_filter_set clf) (as_filter_set aid) ty)
        courses \<lparr>sc_tasks = [], sc_attempted = 0, sc_failures = []\<rparr> n1 = (Inr sc, n2)" and t: "tasks = sc_tasks sc"
    using run by (auto simp: get_active_tasks_def io_bind_Inr split: if_splits)
  have "\<forall>t \<in> set (sc_tasks sc). signable (map parse_course_filter items) (as_filter_set clf) (as_filter_set aid) ty t"
    by (rule io_for_invariant [OF loop]) (use scan_course_sound get_courses_ids [OF c] in \<open>auto, blast+\<close>)
  with i t show thesis using that by simp
qed

end
