(* ===== verification/Signin_Manager.thy ===== *)
theory Signin_Manager
  imports Signin_Sound Learning_State
begin

text \<open>
  \<open>ChaoxingSigninManager\<close> (\<open>services/course/chaoxing/signin.py\<close>): the registry of sign-in tasks with
  their logs, the histories, the clients of the users, and the worker that signs what a task
  selects. A task is its dictionary, private keys included.

  The worker is an operation of \<open>Web_Session\<close>: what it does to the manager it leaves behind as a
  list of acts (\<open>sm_act\<close>), each a critical section of the manager, and what it reads from the
  manager, the client \<open>_get_client\<close> finds, is an argument.
\<close>

definition SIGNIN_TASK_KIND :: string where "SIGNIN_TASK_KIND = ''chaoxing_signin''"
definition SIGNIN_HISTORY_KIND :: string where "SIGNIN_HISTORY_KIND = ''chaoxing_signin_history''"

definition INTERRUPTED_TASK_STATUSES :: "string list" where
  "INTERRUPTED_TASK_STATUSES = [''running'', ''pending'', ''paused'', ''cancelling'', ''stopping'']"

definition BACKGROUND_TASK_ACTIVE_STATUSES :: "string list" where
  "BACKGROUND_TASK_ACTIVE_STATUSES = [''running'', ''pending'', ''paused'', ''cancelling'', ''stopping'']"

definition SIGNIN_INTERRUPTED_MESSAGE :: string where
  "SIGNIN_INTERRUPTED_MESSAGE = ''Task interrupted due to service restart''"

definition SIGNIN_CRASH_PREFIX :: string where "SIGNIN_CRASH_PREFIX = ''Unexpected task failure''"
definition SIGNIN_TASK_LOAD_LIMIT :: int where "SIGNIN_TASK_LOAD_LIMIT = 2000"
definition TASK_FEED_FALLBACK_LIMIT :: nat where "TASK_FEED_FALLBACK_LIMIT = 3"
definition SIGNIN_PERSIST_FAILURE :: string where "SIGNIN_PERSIST_FAILURE = ''Failed to persist signin task state''"
definition MAX_SIGNIN_LOGS :: nat where "MAX_SIGNIN_LOGS = 500"
definition MAX_SIGNIN_HISTORY :: nat where "MAX_SIGNIN_HISTORY = 500"

section \<open>State\<close>

record 's sign_ops =
  sg_tasks :: "'s store_ops"
  sg_append :: "string \<Rightarrow> string \<Rightarrow> pyval \<Rightarrow> int \<Rightarrow> 's \<Rightarrow> (storage_error + unit) \<times> 's"
  sg_history :: "string \<Rightarrow> string option \<Rightarrow> int \<Rightarrow> 's \<Rightarrow> (storage_error + pydict list) \<times> 's"

record 's sm_state =
  sm_clients :: "(string \<times> client) list"
  sm_history :: "(string \<times> pydict list) list"
  sm_tasks :: "(string \<times> pydict) list"
  sm_loaded_tasks :: "string list"
  sm_loaded_history :: "string list"
  sm_store :: 's

definition sm_cleanup :: "dt_text \<Rightarrow> lm_clock \<Rightarrow> (string \<times> pydict) list \<Rightarrow> (string \<times> pydict) list" where
  "sm_cleanup dt clk tasks =
     cleanup_task_records dt (\<lambda>d. d) (clk_time clk) TASK_RECORD_TTL_SECONDS MAX_TASK_RECORDS tasks"

definition task_public_payload :: "pydict \<Rightarrow> pydict" where
  "task_public_payload task = filter (\<lambda>(k, _). \<not> starts_with k ''_'') task"

definition sm_persist :: "'s sign_ops \<Rightarrow> pydict \<Rightarrow> 's \<Rightarrow> bool \<times> 's" where
  "sm_persist ops task st = so_upsert (sg_tasks ops) SIGNIN_TASK_KIND (PDict (task_public_payload task)) st"

definition sm_put :: "string \<Rightarrow> pydict \<Rightarrow> 's sm_state \<Rightarrow> 's sm_state" where
  "sm_put task_id task m = m\<lparr>sm_tasks := dset task_id task (sm_tasks m)\<rparr>"

text \<open>Find a task, change it under the lock, then write its public part\<close>

definition sm_modify ::
  "'s sign_ops \<Rightarrow> string \<Rightarrow> (pydict \<Rightarrow> pydict) \<Rightarrow> 's sm_state \<Rightarrow> 's sm_state" where
  "sm_modify ops task_id change m =
     (case map_of (sm_tasks m) task_id of
        None \<Rightarrow> m
      | Some task \<Rightarrow>
          (let task1 = change task; m1 = sm_put task_id task1 m
           in m1\<lparr>sm_store := snd (sm_persist ops task1 (sm_store m1))\<rparr>))"

definition sm_log_entry :: "lm_clock \<Rightarrow> pyval \<Rightarrow> string \<Rightarrow> pyval" where
  "sm_log_entry clk message level =
     PDict [(''timestamp'', PStr (clk_iso clk)), (''message'', message), (''level'', PStr level)]"

definition sm_add_log :: "pyval \<Rightarrow> pydict \<Rightarrow> pydict" where
  "sm_add_log entry task =
     (let logs = as_list (dget task ''logs'') @ [entry]
      in dset ''logs'' (PList (if MAX_SIGNIN_LOGS < length logs then last_n MAX_SIGNIN_LOGS logs else logs)) task)"

definition sm_append_log ::
  "'s sign_ops \<Rightarrow> lm_clock \<Rightarrow> string \<Rightarrow> pyval \<Rightarrow> string \<Rightarrow> 's sm_state \<Rightarrow> 's sm_state" where
  "sm_append_log ops clk task_id message level m =
     sm_modify ops task_id (\<lambda>t. touch clk (sm_add_log (sm_log_entry clk message level) t)) m"

definition sm_update_task ::
  "'s sign_ops \<Rightarrow> lm_clock \<Rightarrow> string \<Rightarrow> pydict \<Rightarrow> 's sm_state \<Rightarrow> 's sm_state" where
  "sm_update_task ops clk task_id changes m = sm_modify ops task_id (\<lambda>t. touch clk (dupdate t changes)) m"

definition sm_record_admission_failure :: "'s sign_ops \<Rightarrow> lm_clock \<Rightarrow> string \<Rightarrow> 's sm_state \<Rightarrow> 's sm_state" where
  "sm_record_admission_failure ops clk task_id m =
     sm_modify ops task_id
       (\<lambda>t. sm_add_log (sm_log_entry clk (PStr SIGNIN_PERSIST_FAILURE) ''error'')
          (dupdate t [(''status'', PStr ''error''), (''message'', PStr SIGNIN_PERSIST_FAILURE),
                      (''updated_at'', PStr (clk_iso clk))])) m"

definition sm_append_history ::
  "'s sign_ops \<Rightarrow> lm_clock \<Rightarrow> string \<Rightarrow> pydict \<Rightarrow> 's sm_state \<Rightarrow> 's sm_state" where
  "sm_append_history ops clk user_id record m =
     (let items = (case map_of (sm_history m) user_id of None \<Rightarrow> [] | Some l \<Rightarrow> l) @ [record];
          items = (if MAX_SIGNIN_HISTORY < length items then last_n MAX_SIGNIN_HISTORY items else items);
          payload = dsetdefault ''timestamp'' (PStr (clk_iso clk)) record
      in m\<lparr>sm_history := dset user_id items (sm_history m),
           sm_store := snd (sg_append ops SIGNIN_HISTORY_KIND user_id (PDict payload) 500 (sm_store m))\<rparr>)"

section \<open>Loading from the store\<close>

definition sm_default_progress :: pydict where
  "sm_default_progress =
     [(''total'', PInt 0), (''completed'', PInt 0), (''failed'', PInt 0), (''current'', PInt 0)]"

definition sm_interrupted :: "pydict \<Rightarrow> bool" where
  "sm_interrupted task = (py_lower (str_or_empty (dget task ''status'')) \<in> set INTERRUPTED_TASK_STATUSES)"

definition sm_or :: "pyval \<Rightarrow> pyval \<Rightarrow> pyval" where
  "sm_or v w = (if truthy v then v else w)"

text \<open>The dictionary \<open>_merge_task_from_store\<close> keeps for a stored item\<close>

definition sm_merged :: "lm_clock \<Rightarrow> pydict \<Rightarrow> pydict" where
  "sm_merged clk item =
     (let now = PStr (clk_iso clk);
          t = dset ''progress'' (PDict (dupdate sm_default_progress (as_dict (dget item ''progress'')))) item;
          t = dsetdefault ''created_at'' (sm_or (dget t ''started_at'') now) t;
          t = dsetdefault ''started_at'' (sm_or (dget t ''created_at'') now) t;
          t = dsetdefault ''updated_at'' (sm_or (dget t ''started_at'') now) t;
          t = dset ''logs'' (PList (as_list (dget t ''logs''))) t;
          t = dset ''_log_cursor'' (PInt 0) t
      in if sm_interrupted t
         then sm_add_log (sm_log_entry clk (PStr SIGNIN_INTERRUPTED_MESSAGE) ''warning'')
                (touch clk (dset ''message'' (PStr SIGNIN_INTERRUPTED_MESSAGE) (dset ''status'' (PStr ''error'') t)))
         else t)"

definition sm_merge_task :: "'s sign_ops \<Rightarrow> lm_clock \<Rightarrow> pydict \<Rightarrow> 's sm_state \<Rightarrow> bool \<times> 's sm_state" where
  "sm_merge_task ops clk item m =
     (let task_id = py_strip (str_or_empty (dget item ''task_id''));
          user_id = py_strip (str_or_empty (dget item ''user_id''))
      in if task_id = [] \<or> user_id = [] \<or> map_of (sm_tasks m) task_id \<noteq> None then (False, m)
         else (let m1 = sm_put task_id (sm_merged clk item) m
               in (True, if sm_interrupted item
                         then m1\<lparr>sm_store := snd (sm_persist ops (sm_merged clk item) (sm_store m1))\<rparr>
                         else m1)))"

definition sm_merge_all :: "'s sign_ops \<Rightarrow> lm_clock \<Rightarrow> storage_error + pydict list \<Rightarrow> 's sm_state \<Rightarrow> 's sm_state" where
  "sm_merge_all ops clk r m =
     fold (\<lambda>item acc. snd (sm_merge_task ops clk item acc)) (case r of Inl _ \<Rightarrow> [] | Inr items \<Rightarrow> items) m"

definition sm_load_task :: "'s sign_ops \<Rightarrow> lm_clock \<Rightarrow> string \<Rightarrow> string \<Rightarrow> 's sm_state \<Rightarrow> 's sm_state" where
  "sm_load_task ops clk user_id task_id m =
     (let nu = py_strip user_id; nt = py_strip task_id
      in if nu = [] \<or> nt = [] then m
         else (let (r, st) = so_get (sg_tasks ops) SIGNIN_TASK_KIND nt (Some nu) (sm_store m);
                   m1 = m\<lparr>sm_store := st\<rparr>
               in (case r of
                     Inr (Some item) \<Rightarrow> if item = [] then m1 else snd (sm_merge_task ops clk item m1)
                   | _ \<Rightarrow> m1)))"

definition sm_load_tasks :: "'s sign_ops \<Rightarrow> dt_text \<Rightarrow> lm_clock \<Rightarrow> string \<Rightarrow> 's sm_state \<Rightarrow> 's sm_state" where
  "sm_load_tasks ops dt clk user_id m =
     (let nu = py_strip user_id
      in if nu = [] then m
         else (let (r, st) = so_list (sg_tasks ops) SIGNIN_TASK_KIND (Some nu) SIGNIN_TASK_LOAD_LIMIT (sm_store m);
                   m1 = sm_merge_all ops clk r (m\<lparr>sm_store := st\<rparr>)
               in m1\<lparr>sm_tasks := sm_cleanup dt clk (sm_tasks m1),
                     sm_loaded_tasks := List.insert nu (sm_loaded_tasks m1)\<rparr>))"

definition sm_ensure_tasks :: "'s sign_ops \<Rightarrow> dt_text \<Rightarrow> lm_clock \<Rightarrow> string \<Rightarrow> 's sm_state \<Rightarrow> 's sm_state" where
  "sm_ensure_tasks ops dt clk user_id m =
     (let nu = py_strip user_id
      in if nu = [] \<or> nu \<in> set (sm_loaded_tasks m) then m else sm_load_tasks ops dt clk nu m)"

definition sm_load_history :: "'s sign_ops \<Rightarrow> string \<Rightarrow> 's sm_state \<Rightarrow> 's sm_state" where
  "sm_load_history ops user_id m =
     (let nu = py_strip user_id
      in if nu = [] then m
         else (let (r, st) = sg_history ops SIGNIN_HISTORY_KIND (Some nu) 500 (sm_store m);
                   records = (case r of Inl _ \<Rightarrow> [] | Inr l \<Rightarrow> l)
               in m\<lparr>sm_history := dset nu (map (dpop ''user_id'') records) (sm_history m),
                    sm_loaded_history := List.insert nu (sm_loaded_history m), sm_store := st\<rparr>))"

definition sm_ensure_history :: "'s sign_ops \<Rightarrow> string \<Rightarrow> 's sm_state \<Rightarrow> 's sm_state" where
  "sm_ensure_history ops user_id m =
     (let nu = py_strip user_id
      in if nu = [] \<or> nu \<in> set (sm_loaded_history m) then m else sm_load_history ops nu m)"

definition sm_restore_tasks :: "'s sign_ops \<Rightarrow> dt_text \<Rightarrow> lm_clock \<Rightarrow> 's sm_state \<Rightarrow> 's sm_state" where
  "sm_restore_tasks ops dt clk m =
     (let (r, st) = so_list (sg_tasks ops) SIGNIN_TASK_KIND None 300 (sm_store m);
          m1 = sm_merge_all ops clk r (m\<lparr>sm_store := st\<rparr>)
      in m1\<lparr>sm_tasks := sm_cleanup dt clk (sm_tasks m1)\<rparr>)"

definition add_restored :: "pydict \<Rightarrow> (string \<times> pydict list) list \<Rightarrow> (string \<times> pydict list) list" where
  "add_restored record histories =
     (let user_id = py_strip (str_or_empty (dget record ''user_id''))
      in if user_id = [] then histories
         else (let items = (case map_of histories user_id of None \<Rightarrow> [] | Some l \<Rightarrow> l) @ [dpop ''user_id'' record]
               in dset user_id (if MAX_SIGNIN_HISTORY < length items then last_n MAX_SIGNIN_HISTORY items else items)
                    histories))"

definition sm_restore_history :: "'s sign_ops \<Rightarrow> 's sm_state \<Rightarrow> 's sm_state" where
  "sm_restore_history ops m =
     (let (r, st) = sg_history ops SIGNIN_HISTORY_KIND None 1500 (sm_store m)
      in m\<lparr>sm_history := fold add_restored (case r of Inl _ \<Rightarrow> [] | Inr l \<Rightarrow> l) (sm_history m), sm_store := st\<rparr>)"

definition new_signin_manager :: "'s sign_ops \<Rightarrow> dt_text \<Rightarrow> lm_clock \<Rightarrow> 's \<Rightarrow> 's sm_state" where
  "new_signin_manager ops dt clk st =
     sm_restore_history ops (sm_restore_tasks ops dt clk
       \<lparr>sm_clients = [], sm_history = [], sm_tasks = [], sm_loaded_tasks = [], sm_loaded_history = [], sm_store = st\<rparr>)"

section \<open>Admission\<close>

datatype sign_error =
    Sign_rejected admission_error
  | Sign_persist_failure
  | Sign_thread_failure string

definition new_sign_task :: "lm_clock \<Rightarrow> string \<Rightarrow> string \<Rightarrow> pydict" where
  "new_sign_task clk task_id user_id =
     (let now = PStr (clk_iso clk)
      in [(''task_id'', PStr task_id), (''user_id'', PStr user_id), (''status'', PStr ''running''),
          (''message'', PStr ''Task started''), (''progress'', PDict sm_default_progress), (''created_at'', now),
          (''started_at'', now), (''updated_at'', now), (''logs'', PList []), (''_log_cursor'', PInt 0)])"

definition sm_owns_active :: "string \<Rightarrow> pydict \<Rightarrow> bool" where
  "sm_owns_active nu task \<longleftrightarrow>
     py_strip (str_or_empty (dget task ''user_id'')) = nu \<and> is_active_status (dget task ''status'')"

definition sm_admit ::
  "dt_text \<Rightarrow> lm_clock \<Rightarrow> string \<Rightarrow> string \<Rightarrow> 's sm_state \<Rightarrow> (admission_error + pydict) \<times> 's sm_state" where
  "sm_admit dt clk fresh user_id m =
     (let nu = py_strip user_id; tasks = sm_cleanup dt clk (sm_tasks m); m0 = m\<lparr>sm_tasks := tasks\<rparr>
      in if list_ex (\<lambda>p. sm_owns_active nu (snd p)) tasks then (Inl TaskAlreadyActiveError, m0)
         else if MAX_ACTIVE_TASKS \<le> count_active_tasks (\<lambda>d. d) tasks then (Inl TaskCapacityError, m0)
         else (let task = new_sign_task clk fresh user_id
               in (Inr task, m\<lparr>sm_tasks := sm_cleanup dt clk (dset fresh task tasks)\<rparr>)))"

definition crash_message :: "string \<Rightarrow> string" where
  "crash_message err = SIGNIN_CRASH_PREFIX @ '': '' @ err"

text \<open>\<open>thread_error\<close> is the exception of a thread that could not be started.\<close>

definition sm_start_task ::
  "'s sign_ops \<Rightarrow> dt_text \<Rightarrow> lm_clock \<Rightarrow> string option \<Rightarrow> string \<Rightarrow> string \<Rightarrow> 's sm_state
     \<Rightarrow> (sign_error + string) \<times> 's sm_state" where
  "sm_start_task ops dt clk thread_error fresh user_id m =
     (case sm_admit dt clk fresh user_id m of
        (Inl e, m1) \<Rightarrow> (Inl (Sign_rejected e), m1)
      | (Inr task, m1) \<Rightarrow>
          (let (persisted, st) = sm_persist ops task (sm_store m1); m2 = m1\<lparr>sm_store := st\<rparr>
           in if \<not> persisted then (Inl Sign_persist_failure, sm_record_admission_failure ops clk fresh m2)
              else (case thread_error of
                      None \<Rightarrow> (Inr fresh, m2)
                    | Some err \<Rightarrow>
                        (Inl (Sign_thread_failure err),
                         sm_append_log ops clk fresh (PStr (crash_message err)) ''error''
                           (sm_update_task ops clk fresh
                              [(''status'', PStr ''error''), (''message'', PStr (crash_message err))] m2)))))"

text \<open>\<open>start_class_task\<close>: the payload it starts the task with\<close>

definition class_task_payload :: "pydict \<Rightarrow> pydict" where
  "class_task_payload payload =
     (let p = dset ''subject_type'' (PStr ''class'') payload;
          class_id = py_strip (str_or_empty (dget p ''class_id''))
      in if class_id \<noteq> [] \<and> \<not> truthy (dget p ''class_list'') then dset ''class_list'' (PList [PStr class_id]) p else p)"

section \<open>Queries\<close>

definition sm_owned :: "string \<Rightarrow> string \<Rightarrow> 's sm_state \<Rightarrow> pydict option" where
  "sm_owned nu nt m =
     (case map_of (sm_tasks m) nt of
        None \<Rightarrow> None
      | Some t \<Rightarrow> if dget t ''user_id'' = PStr nu then Some t else None)"

definition sm_find ::
  "'s sign_ops \<Rightarrow> dt_text \<Rightarrow> lm_clock \<Rightarrow> string \<Rightarrow> string \<Rightarrow> 's sm_state \<Rightarrow> 's sm_state" where
  "sm_find ops dt clk nu nt m =
     (let m0 = m\<lparr>sm_tasks := sm_cleanup dt clk (sm_tasks m)\<rparr>
      in if sm_owned nu nt m0 = None then sm_load_task ops clk nu nt m0 else m0)"

definition sm_get_task ::
  "'s sign_ops \<Rightarrow> dt_text \<Rightarrow> lm_clock \<Rightarrow> string \<Rightarrow> string \<Rightarrow> 's sm_state \<Rightarrow> pydict option \<times> 's sm_state" where
  "sm_get_task ops dt clk user_id task_id m =
     (let nu = py_strip user_id; nt = py_strip task_id; m1 = sm_find ops dt clk nu nt m
      in (map_option task_public_payload (sm_owned nu nt m1), m1))"

definition sm_list_entry :: "pydict \<Rightarrow> pydict" where
  "sm_list_entry task =
     (let p = dpop ''user_id'' (task_public_payload task);
          started_at = sm_or (dget p ''started_at'') (sm_or (dget p ''start_time'') (dget p ''created_at''));
          p = (if truthy started_at then dset ''started_at'' started_at p else p)
      in if \<not> truthy (dget p ''updated_at'') \<and> truthy started_at then dset ''updated_at'' started_at p else p)"

definition sm_list_tasks ::
  "'s sign_ops \<Rightarrow> dt_text \<Rightarrow> lm_clock \<Rightarrow> string \<Rightarrow> 's sm_state \<Rightarrow> pydict list \<times> 's sm_state" where
  "sm_list_tasks ops dt clk user_id m =
     (let m1 = sm_ensure_tasks ops dt clk user_id m;
          m2 = m1\<lparr>sm_tasks := sm_cleanup dt clk (sm_tasks m1)\<rparr>;
          own = filter (\<lambda>t. dget t ''user_id'' = PStr user_id) (map snd (sm_tasks m2))
      in (sort_task_records dt (map sm_list_entry own), m2))"

definition sm_get_task_logs ::
  "'s sign_ops \<Rightarrow> dt_text \<Rightarrow> lm_clock \<Rightarrow> string \<Rightarrow> string \<Rightarrow> int option \<Rightarrow> 's sm_state
     \<Rightarrow> (pyval list \<times> nat) option \<times> 's sm_state" where
  "sm_get_task_logs ops dt clk user_id task_id cursor m =
     (let nu = py_strip user_id; nt = py_strip task_id;
          m0 = m\<lparr>sm_tasks := sm_cleanup dt clk (sm_tasks m)\<rparr>;
          m1 = (if sm_owned nu nt m0 = None
                then (let l = sm_load_task ops clk nu nt m0 in l\<lparr>sm_tasks := sm_cleanup dt clk (sm_tasks l)\<rparr>)
                else m0);
          start = nat (max (case cursor of None \<Rightarrow> 0 | Some i \<Rightarrow> i) 0)
      in (map_option (\<lambda>t. let logs = as_list (dget t ''logs'') in (drop start logs, length logs)) (sm_owned nu nt m1), m1))"

text \<open>\<open>sorted(records, key=lambda item: item.get("timestamp", ""), reverse=True)\<close>; the timestamps are texts\<close>

definition timestamp_of :: "pydict \<Rightarrow> string" where
  "timestamp_of record = (case dget record ''timestamp'' of PStr t \<Rightarrow> t | _ \<Rightarrow> [])"

definition newest_first :: "pydict list \<Rightarrow> pydict list" where
  "newest_first records = rev (sort_key timestamp_of (rev records))"

definition sm_get_history :: "'s sign_ops \<Rightarrow> string \<Rightarrow> 's sm_state \<Rightarrow> pydict list \<times> 's sm_state" where
  "sm_get_history ops user_id m =
     (let m1 = sm_ensure_history ops user_id m
      in (newest_first (case map_of (sm_history m1) user_id of None \<Rightarrow> [] | Some l \<Rightarrow> l), m1))"

end
