(* ===== verification/Signin_Worker.thy ===== *)
theory Signin_Worker
  imports Signin_Manager
begin

text \<open>
  The worker of a sign-in task and the operations that sign at once (\<open>sign_once\<close>,
  \<open>sign_class_once\<close>): log in, find the client, scan for active sign-ins, sign them one by one, and
  report each step to the manager. The acts on the manager are recorded in \<open>acts\<close>; \<open>found\<close> is what
  \<open>_get_client\<close> returns, which another login of the same user may have changed.
\<close>

datatype sm_act =
    Login_as string client
  | Update string pydict
  | Log string pyval string
  | History string pydict

record 'w wnet = "'w net" +
  acts :: "sm_act list"

definition emit :: "sm_act \<Rightarrow> ('w, 'z) wnet_scheme \<Rightarrow> (http_exc + unit) \<times> ('w, 'z) wnet_scheme" where
  "emit a n = (Inr (), n\<lparr>acts := acts n @ [a]\<rparr>)"

text \<open>What an act does to the manager\<close>

fun perform :: "'s sign_ops \<Rightarrow> lm_clock \<Rightarrow> sm_act \<Rightarrow> 's sm_state \<Rightarrow> 's sm_state" where
  "perform ops clk (Login_as user cl) m = m\<lparr>sm_clients := dset user cl (sm_clients m)\<rparr>"
| "perform ops clk (Update tid changes) m = sm_update_task ops clk tid changes m"
| "perform ops clk (Log tid message level) m = sm_append_log ops clk tid message level m"
| "perform ops clk (History user record) m = sm_append_history ops clk user record m"

type_synonym finder = "sm_act list \<Rightarrow> client option"

definition manager_login ::
  "'w web \<Rightarrow> si_lib \<Rightarrow> string \<Rightarrow> string \<Rightarrow> string \<Rightarrow> ('w, 'z) wnet_scheme \<Rightarrow> (http_exc + pydict) \<times> ('w, 'z) wnet_scheme"
  where
  "manager_login web lib user_id username password =
     io_bind (client_login web lib username password) (\<lambda>(result, cl).
       if truthy (dget result ''status'') then io_bind (emit (Login_as user_id cl)) (\<lambda>_. io_return result)
       else io_return result)"

definition now_iso :: "'w web \<Rightarrow> ('w, 'z) net_scheme \<Rightarrow> string" where
  "now_iso web n = web_iso web (world n)"

section \<open>The worker\<close>

definition WORKER_OPTION_KEYS :: "string list" where
  "WORKER_OPTION_KEYS =
     [''latitude'', ''longitude'', ''address'', ''qr_code'', ''qrcode'', ''location'', ''object_id'', ''photo_base64'',
      ''photo'', ''altitude'', ''sign_code'', ''signCode'', ''gesture'', ''code'']"

definition payload_str :: "pydict \<Rightarrow> string \<Rightarrow> string" where
  "payload_str payload key = str_or_empty (dget payload key)"

definition payload_sign_type :: "pydict \<Rightarrow> string" where
  "payload_sign_type payload = str_first [dget payload ''sign_type'', PStr ''all'']"

definition payload_subject_type :: "pydict \<Rightarrow> string" where
  "payload_subject_type payload =
     py_lower (py_strip (str_first [dget payload ''subject_type'',
       PStr (if truthy (dget payload ''class_list'') then ''class'' else ''course'')]))"

definition class_filter_of :: "pydict \<Rightarrow> pyval" where
  "class_filter_of payload =
     (if payload_subject_type payload = ''class'' then sm_or (dget payload ''class_list'') (PList []) else PNone)"

definition subject_name :: "string \<Rightarrow> pydict \<Rightarrow> string" where
  "subject_name subject_type task =
     (let course = py_strip (str_or_empty (dget task ''courseName''));
          cls = py_strip (str_or_empty (dget task ''className''))
      in if subject_type = ''class'' \<and> cls \<noteq> [] then cls else course)"

definition task_type_label :: "string \<Rightarrow> pydict \<Rightarrow> string" where
  "task_type_label sign_type task =
     (let t = py_strip (str_first [dget task ''type'', PStr sign_type, PStr ''background''])
      in if t \<noteq> [] then t else ''background'')"

definition describe_changes :: "string \<Rightarrow> string \<Rightarrow> pydict \<Rightarrow> pydict" where
  "describe_changes subject_type sign_type task =
     [(''subject_type'', PStr subject_type), (''subjectType'', PStr subject_type),
      (''course_name'', PStr (subject_name subject_type task)), (''courseName'', PStr (subject_name subject_type task)),
      (''className'', PStr (py_strip (str_or_empty (dget task ''className'')))),
      (''type'', PStr (task_type_label sign_type task))]"

definition progress_value :: "nat \<Rightarrow> nat \<Rightarrow> nat \<Rightarrow> nat \<Rightarrow> string \<Rightarrow> pyval" where
  "progress_value n_tasks completed failed current name =
     PDict [(''total'', PInt (int n_tasks)), (''completed'', PInt (int completed)), (''failed'', PInt (int failed)),
            (''current'', PInt (int current)), (''current_course'', PStr name)]"

definition history_record :: "string \<Rightarrow> string \<Rightarrow> pydict \<Rightarrow> pydict \<Rightarrow> pydict" where
  "history_record now subject_type task result =
     [(''status'', PStr (if sign_ok result then ''success'' else ''failed'')),
      (''message'', dget_or result ''message'' (PStr [])), (''subjectType'', PStr subject_type),
      (''subjectId'', if subject_type = ''class'' then dget task ''classId'' else dget task ''courseId''),
      (''courseName'', dget_or task ''courseName'' (PStr [])), (''className'', dget_or task ''className'' (PStr [])),
      (''type'', dget_or task ''type'' (PStr ''normal'')), (''timestamp'', PStr now)]"

text \<open>One turn of the loop over the tasks: \<open>(index, completed, failed)\<close> before and after\<close>

definition sign_turn ::
  "'w web \<Rightarrow> si_lib \<Rightarrow> client \<Rightarrow> string \<Rightarrow> string \<Rightarrow> string \<Rightarrow> string \<Rightarrow> pydict \<Rightarrow> nat \<Rightarrow> pydict \<Rightarrow> nat \<times> nat \<times> nat
     \<Rightarrow> ('w, 'z) wnet_scheme \<Rightarrow> (http_exc + nat \<times> nat \<times> nat) \<times> ('w, 'z) wnet_scheme" where
  "sign_turn web lib cl task_id user_id subject_type sign_type options n_tasks task counts =
     (let (index, completed, failed) = counts; index = Suc index; name = subject_name subject_type task;
          label = task_type_label sign_type task
      in io_bind (emit (Log task_id (PStr (''Signing '' @ name @ '' ('' @ label @ '')'')) ''info'')) (\<lambda>_.
         io_bind (sign_task web lib cl sign_type options task) (\<lambda>result.
         (let completed = (if sign_ok result then Suc completed else completed);
              failed = (if sign_ok result then failed else Suc failed)
          in io_bind (emit (Log task_id (dget_or result ''message'' (PStr []))
                              (if sign_ok result then ''success'' else ''error''))) (\<lambda>_.
             io_bind (io_get (now_iso web)) (\<lambda>now.
             io_bind (emit (History user_id (history_record now subject_type task result))) (\<lambda>_.
             io_bind (emit (Update task_id
               ([(''progress'', progress_value n_tasks completed failed index name),
                 (''message'', PStr (''Processed '' @ nat_str index @ ''/'' @ nat_str n_tasks))]
                @ describe_changes subject_type sign_type task))) (\<lambda>_.
             io_return (index, completed, failed)))))))))"

definition final_changes :: "nat \<Rightarrow> pydict" where
  "final_changes failed =
     (if failed = 0 then [(''status'', PStr ''completed''), (''message'', PStr ''Task completed'')]
      else [(''status'', PStr ''error''), (''message'', PStr ''Task completed with failures'')])"

definition sign_all ::
  "'w web \<Rightarrow> si_lib \<Rightarrow> client \<Rightarrow> string \<Rightarrow> string \<Rightarrow> string \<Rightarrow> string \<Rightarrow> pydict \<Rightarrow> pydict list
     \<Rightarrow> ('w, 'z) wnet_scheme \<Rightarrow> (http_exc + unit) \<times> ('w, 'z) wnet_scheme" where
  "sign_all web lib cl task_id user_id subject_type sign_type options tasks =
     (let n_tasks = length tasks
      in io_bind (emit (Update task_id
           ((''progress'', progress_value n_tasks 0 0 0 (subject_name subject_type (hd tasks)))
              # describe_changes subject_type sign_type (hd tasks)))) (\<lambda>_.
         io_bind (io_for (sign_turn web lib cl task_id user_id subject_type sign_type options n_tasks) tasks (0, 0, 0))
           (\<lambda>(index, completed, failed). emit (Update task_id (final_changes failed)))))"

text \<open>An update to a final status, and the log entry that follows it\<close>

definition give_up ::
  "string \<Rightarrow> string \<Rightarrow> pyval \<Rightarrow> pyval \<Rightarrow> string \<Rightarrow> ('w, 'z) wnet_scheme \<Rightarrow> (http_exc + unit) \<times> ('w, 'z) wnet_scheme"
  where
  "give_up task_id status message log_message level =
     io_bind (emit (Update task_id [(''status'', PStr status), (''message'', message)])) (\<lambda>_.
     emit (Log task_id log_message level))"

definition query_failed_message :: "http_exc \<Rightarrow> string" where
  "query_failed_message e = ''Failed to query active sign-in tasks: '' @ exc_str e"

text \<open>What the worker does with the result of the scan\<close>

definition after_scan ::
  "'w web \<Rightarrow> si_lib \<Rightarrow> client \<Rightarrow> string \<Rightarrow> string \<Rightarrow> pydict \<Rightarrow> http_exc + pydict list
     \<Rightarrow> ('w, 'z) wnet_scheme \<Rightarrow> (http_exc + unit) \<times> ('w, 'z) wnet_scheme" where
  "after_scan web lib cl task_id user_id payload outcome =
     (case outcome of
        Inl e \<Rightarrow> give_up task_id ''error'' (PStr (query_failed_message e)) (PStr (query_failed_message e)) ''error''
      | Inr tasks \<Rightarrow>
          (if tasks = []
           then give_up task_id ''completed'' (PStr ''No active sign-in task'') (PStr ''No active sign-in task found'') ''info''
           else sign_all web lib cl task_id user_id (payload_subject_type payload) (payload_sign_type payload)
                  (map (\<lambda>k. (k, dget payload k)) WORKER_OPTION_KEYS) tasks))"

definition scan_of :: "'w web \<Rightarrow> si_lib \<Rightarrow> pydict \<Rightarrow> nat \<Rightarrow> ('w, 'z, pydict list) io" where
  "scan_of web lib payload sid =
     get_active_tasks web lib sid (sm_or (dget payload ''course_list'') (PList [])) (class_filter_of payload)
       (dget payload ''active_id'') (payload_sign_type payload)"

definition scan_and_sign ::
  "'w web \<Rightarrow> si_lib \<Rightarrow> client \<Rightarrow> string \<Rightarrow> string \<Rightarrow> pydict
     \<Rightarrow> ('w, 'z) wnet_scheme \<Rightarrow> (http_exc + unit) \<times> ('w, 'z) wnet_scheme" where
  "scan_and_sign web lib cl task_id user_id payload =
     io_bind (emit (Log task_id (PStr ''Login successful'') ''info'')) (\<lambda>_.
     io_bind
       (io_try is_request_exc
          (io_bind (scan_of web lib payload (cl_session cl)) (\<lambda>tasks. io_return (Inr tasks)))
          (\<lambda>e. io_return (Inl e)))
       (after_scan web lib cl task_id user_id payload))"

definition run_sign_worker ::
  "'w web \<Rightarrow> si_lib \<Rightarrow> finder \<Rightarrow> string \<Rightarrow> string \<Rightarrow> pydict
     \<Rightarrow> ('w, 'z) wnet_scheme \<Rightarrow> (http_exc + unit) \<times> ('w, 'z) wnet_scheme" where
  "run_sign_worker web lib found task_id user_id payload =
     io_bind (manager_login web lib user_id (payload_str payload ''username'') (payload_str payload ''password'')) (\<lambda>result.
       if \<not> truthy (dget result ''status'')
       then (let message = dget_or result ''message'' (PStr ''Login failed'')
             in give_up task_id ''error'' message
                  (PStr (''Login failed: '' @ py_str (dget_or result ''message'' (PStr [])))) ''error'')
       else io_bind (io_get (\<lambda>n. found (acts n))) (\<lambda>client. case client of
              None \<Rightarrow> emit (Update task_id [(''status'', PStr ''error''), (''message'', PStr ''Login state unavailable'')])
            | Some cl \<Rightarrow> scan_and_sign web lib cl task_id user_id payload))"

definition run_sign_worker_guarded ::
  "'w web \<Rightarrow> si_lib \<Rightarrow> finder \<Rightarrow> string \<Rightarrow> string \<Rightarrow> pydict
     \<Rightarrow> ('w, 'z) wnet_scheme \<Rightarrow> (http_exc + unit) \<times> ('w, 'z) wnet_scheme" where
  "run_sign_worker_guarded web lib found task_id user_id payload =
     io_try (\<lambda>_. True) (run_sign_worker web lib found task_id user_id payload)
       (\<lambda>e. give_up task_id ''error'' (PStr (crash_message (exc_str e))) (PStr (crash_message (exc_str e))) ''error'')"

section \<open>Signing at once\<close>

definition failed_reply :: "string \<Rightarrow> pydict" where
  "failed_reply message = [(''status'', PBool False), (''message'', PStr message), (''data'', PList [])]"

definition once_history :: "string \<Rightarrow> pydict \<Rightarrow> pydict \<Rightarrow> pydict" where
  "once_history now target result =
     [(''status'', PStr (if sign_ok result then ''success'' else ''failed'')),
      (''message'', dget_or result ''message'' (PStr [])), (''courseName'', dget_or target ''courseName'' (PStr [])),
      (''type'', dget_or target ''type'' (PStr ''normal'')), (''timestamp'', PStr now)]"

definition class_once_history :: "string \<Rightarrow> string \<Rightarrow> pydict \<Rightarrow> pydict \<Rightarrow> pydict" where
  "class_once_history class_id now target result =
     [(''status'', PStr (if sign_ok result then ''success'' else ''failed'')),
      (''message'', dget_or result ''message'' (PStr [])), (''subjectType'', PStr ''class''),
      (''subjectId'', dget_or target ''classId'' (PStr class_id)), (''courseName'', dget_or target ''courseName'' (PStr [])),
      (''className'', dget_or target ''className'' (PStr [])), (''type'', dget_or target ''type'' (PStr ''normal'')),
      (''timestamp'', PStr now)]"

definition with_target :: "pydict \<Rightarrow> pydict \<Rightarrow> pydict" where
  "with_target target result =
     dset ''data'' (PDict (dset ''task'' (PDict target) (opt_dict (dget result ''data'')))) result"

text \<open>What both operations do once the client has logged in\<close>

definition sign_first ::
  "'w web \<Rightarrow> si_lib \<Rightarrow> finder \<Rightarrow> string \<Rightarrow> string \<Rightarrow> pyval \<Rightarrow> pyval \<Rightarrow> pyval \<Rightarrow> pydict \<Rightarrow> string
     \<Rightarrow> (string \<Rightarrow> pydict \<Rightarrow> pydict \<Rightarrow> pydict)
     \<Rightarrow> ('w, 'z) wnet_scheme \<Rightarrow> (http_exc + pydict) \<times> ('w, 'z) wnet_scheme" where
  "sign_first web lib found user_id sign_type course_filters class_filters active_id options none_message record =
     io_bind (io_get (\<lambda>n. found (acts n))) (\<lambda>client. case client of
       None \<Rightarrow> io_return [(''status'', PBool False), (''message'', PStr ''Login state unavailable'')]
     | Some cl \<Rightarrow>
         io_bind
           (io_try is_request_exc
              (io_bind (get_active_tasks web lib (cl_session cl) course_filters class_filters active_id sign_type)
                 (\<lambda>tasks. io_return (Inr tasks)))
              (\<lambda>e. io_return (Inl e)))
           (\<lambda>outcome. case outcome of
              Inl e \<Rightarrow> io_return (failed_reply (query_failed_message e))
            | Inr [] \<Rightarrow> io_return (failed_reply none_message)
            | Inr (target # _) \<Rightarrow>
                io_bind (sign_task web lib cl sign_type options target) (\<lambda>result.
                io_bind (io_get (now_iso web)) (\<lambda>now.
                io_bind (emit (History user_id (record now target result))) (\<lambda>_.
                io_return (with_target target result))))))"

definition course_filter_list :: "pyval \<Rightarrow> pyval" where
  "course_filter_list course_id = (if truthy course_id then PList [course_id] else PNone)"

definition sign_once ::
  "'w web \<Rightarrow> si_lib \<Rightarrow> finder \<Rightarrow> string \<Rightarrow> string \<Rightarrow> string \<Rightarrow> string \<Rightarrow> pyval \<Rightarrow> pydict
     \<Rightarrow> ('w, 'z) wnet_scheme \<Rightarrow> (http_exc + pydict) \<times> ('w, 'z) wnet_scheme" where
  "sign_once web lib found user_id username password sign_type course_id options =
     io_bind (manager_login web lib user_id username password) (\<lambda>login_result.
       if \<not> truthy (dget login_result ''status'') then io_return login_result
       else sign_first web lib found user_id sign_type (course_filter_list course_id) PNone PNone options
              ''No active sign-in task found'' once_history)"

definition sign_class_once ::
  "'w web \<Rightarrow> si_lib \<Rightarrow> finder \<Rightarrow> string \<Rightarrow> string \<Rightarrow> string \<Rightarrow> string \<Rightarrow> string \<Rightarrow> pyval \<Rightarrow> pyval \<Rightarrow> pydict
     \<Rightarrow> ('w, 'z) wnet_scheme \<Rightarrow> (http_exc + pydict) \<times> ('w, 'z) wnet_scheme" where
  "sign_class_once web lib found user_id username password class_id0 sign_type active_id course_id options =
     (let class_id = py_strip class_id0
      in if class_id = [] then io_return (failed_reply ''class_id is required'')
         else io_bind (manager_login web lib user_id username password) (\<lambda>login_result.
           if \<not> truthy (dget login_result ''status'') then io_return login_result
           else sign_first web lib found user_id sign_type (course_filter_list course_id) (PList [PStr class_id]) active_id
                  options ''No active class sign-in task found'' (class_once_history class_id)))"

section \<open>The feed of a user's tasks\<close>

definition decorate_live_task :: "pydict \<Rightarrow> pydict" where
  "decorate_live_task task =
     (let item = dset ''actionable'' (PBool True) (dsetdefault ''source'' (PStr ''live'') task)
      in if truthy (dget item ''status'') then item else dset ''status'' (PStr ''active'') item)"

definition type_label :: "string \<Rightarrow> string" where
  "type_label task_type =
     (case map_of
        [(''background'', ''Background task''), (''normal'', ''Normal sign-in''), (''photo'', ''Photo sign-in''),
         (''location'', ''Location sign-in''), (''qrcode'', ''QR code sign-in''), (''gesture'', ''Gesture sign-in''),
         (''code'', ''Code sign-in'')] task_type of
        Some l \<Rightarrow> l
      | None \<Rightarrow> if task_type \<noteq> [] then task_type else ''Background task'')"

definition first_text :: "string list \<Rightarrow> string" where
  "first_text ts = (case filter (\<lambda>t. t \<noteq> []) ts of [] \<Rightarrow> [] | t # _ \<Rightarrow> t)"

definition to_task_feed_item :: "pydict \<Rightarrow> pydict" where
  "to_task_feed_item task =
     (let task_id = py_strip (str_first [dget task ''task_id'', dget task ''taskId'', dget task ''id'']);
          progress = opt_dict (dget task ''progress'');
          field = (\<lambda>d k. py_strip (str_or_empty (dget d k)));
          course_name = first_text [field task ''courseName'', field task ''course_name'', field task ''className'',
                                    field progress ''current_course'', ''Background sign-in task''];
          sign_type = py_lower (py_strip (str_first [dget task ''sign_type'', dget task ''type'']));
          task_type = (if sign_type \<noteq> [] \<and> sign_type \<noteq> ''all'' then sign_type else ''background'')
      in [(''taskId'', PStr task_id), (''task_id'', PStr task_id), (''courseName'', PStr course_name),
          (''type'', PStr task_type), (''typeLabel'', PStr (type_label task_type)),
          (''status'', PStr (py_lower (str_first [dget task ''status'', PStr ''unknown'']))),
          (''message'', PStr (str_or_empty (dget task ''message''))),
          (''createdAt'', PStr (str_first [dget task ''created_at'', dget task ''createdAt''])),
          (''updatedAt'', PStr (str_first [dget task ''updated_at'', dget task ''updatedAt''])),
          (''deadline'', PNone), (''actionable'', PBool False), (''source'', PStr ''background'')])"

definition history_to_task_feed_item :: "pydict \<Rightarrow> pydict" where
  "history_to_task_feed_item record =
     (let t = py_lower (py_strip (str_first [dget record ''type'', PStr ''history'']));
          record_type = (if t \<noteq> [] then t else ''history'');
          task_id = PStr (str_or_empty (dget record ''taskId''));
          time = PStr (str_or_empty (dget record ''timestamp''))
      in [(''taskId'', task_id), (''task_id'', task_id),
          (''subjectType'', PStr (py_strip (str_or_empty (dget record ''subjectType'')))),
          (''subjectId'', PStr (py_strip (str_or_empty (dget record ''subjectId'')))),
          (''courseName'', PStr (str_first [dget record ''className'', dget record ''courseName'', PStr ''Recent sign-in result''])),
          (''className'', PStr (str_or_empty (dget record ''className''))), (''type'', PStr record_type),
          (''typeLabel'', PStr ''Recent sign-in result''),
          (''status'', PStr (py_lower (str_first [dget record ''status'', PStr ''success'']))),
          (''message'', PStr (str_or_empty (dget record ''message''))), (''createdAt'', time), (''updatedAt'', time),
          (''deadline'', PNone), (''actionable'', PBool False), (''source'', PStr ''history'')])"

definition build_background_task_feed ::
  "'s sign_ops \<Rightarrow> dt_text \<Rightarrow> lm_clock \<Rightarrow> string \<Rightarrow> 's sm_state \<Rightarrow> pydict list \<times> 's sm_state" where
  "build_background_task_feed ops dt clk user_id m =
     (let (tasks, m1) = sm_list_tasks ops dt clk user_id m;
          running = filter (\<lambda>t. py_lower (str_or_empty (dget t ''status'')) \<in> set BACKGROUND_TASK_ACTIVE_STATUSES) tasks;
          selected = (if running \<noteq> [] then running else take TASK_FEED_FALLBACK_LIMIT tasks)
      in if selected \<noteq> [] then (map to_task_feed_item selected, m1)
         else (let (history, m2) = sm_get_history ops user_id m1
               in (map history_to_task_feed_item (take TASK_FEED_FALLBACK_LIMIT history), m2)))"

text \<open>\<open>get_active_tasks\<close> of the manager, \<open>live\<close> being what the scan of the user's client returned\<close>

definition active_task_feed ::
  "'s sign_ops \<Rightarrow> dt_text \<Rightarrow> lm_clock \<Rightarrow> string \<Rightarrow> pydict list option \<Rightarrow> 's sm_state \<Rightarrow> (http_exc + pydict list) \<times> 's sm_state"
  where
  "active_task_feed ops dt clk user_id live m =
     (if live \<noteq> None \<and> live \<noteq> Some [] then (Inr (map decorate_live_task (the live)), m)
      else (let (feed, m1) = build_background_task_feed ops dt clk user_id m
            in if live = None \<and> feed = [] then (Inl (Session_expired SESSION_EXPIRED_MESSAGE), m1) else (Inr feed, m1)))"

definition manager_active_tasks ::
  "'w web \<Rightarrow> si_lib \<Rightarrow> 's sign_ops \<Rightarrow> dt_text \<Rightarrow> lm_clock \<Rightarrow> string \<Rightarrow> string \<Rightarrow> 's sm_state
     \<Rightarrow> ('w, 'z) net_scheme \<Rightarrow> ((http_exc + pydict list) \<times> 's sm_state) \<times> ('w, 'z) net_scheme" where
  "manager_active_tasks web lib ops dt clk user_id sign_type m n =
     (case map_of (sm_clients m) user_id of
        None \<Rightarrow> (active_task_feed ops dt clk user_id None m, n)
      | Some cl \<Rightarrow>
          (case get_active_tasks web lib (cl_session cl) PNone PNone PNone sign_type n of
             (Inl e, n1) \<Rightarrow> ((Inl e, m), n1)
           | (Inr tasks, n1) \<Rightarrow> (active_task_feed ops dt clk user_id (Some tasks) m, n1)))"

text \<open>\<open>get_remote_endpoints\<close>\<close>

definition manager_remote_endpoints ::
  "'w web \<Rightarrow> pyval \<Rightarrow> pyval \<Rightarrow> pyval \<Rightarrow> string \<Rightarrow> 's sm_state \<Rightarrow> ('w, 'z) net_scheme \<Rightarrow> pydict" where
  "manager_remote_endpoints web course_id class_id active_id user_id m n =
     (let parsed = parse_course_filter (PStr (str_or_empty course_id));
          raw_course = (if truthy course_id then fst parsed else Some []);
          raw_class = py_strip (str_or_empty class_id);
          raw_class = (if truthy course_id \<and> raw_class = [] then (case snd parsed of None \<Rightarrow> [] | Some c \<Rightarrow> c) else raw_class);
          (uid, fid) = (case map_of (sm_clients m) user_id of
                          None \<Rightarrow> ([], [])
                        | Some cl \<Rightarrow> (client_uid web (cl_session cl) n, client_fid web (cl_session cl) n))
      in build_remote_sign_endpoints (web_ms web (world n)) (case raw_course of None \<Rightarrow> [] | Some c \<Rightarrow> c) raw_class
           (py_strip (str_or_empty active_id)) uid fid)"

definition manager_client :: "string \<Rightarrow> 's sm_state \<Rightarrow> http_exc + client" where
  "manager_client user_id m =
     (case map_of (sm_clients m) user_id of None \<Rightarrow> Inl (Session_expired SESSION_EXPIRED_MESSAGE) | Some cl \<Rightarrow> Inr cl)"

definition manager_courses ::
  "'w web \<Rightarrow> si_lib \<Rightarrow> string \<Rightarrow> 's sm_state \<Rightarrow> ('w, 'z, pydict list) io" where
  "manager_courses web lib user_id m = io_bind (io_of (manager_client user_id m)) (\<lambda>cl. get_courses web lib (cl_session cl))"

definition manager_classes ::
  "'w web \<Rightarrow> si_lib \<Rightarrow> string \<Rightarrow> 's sm_state \<Rightarrow> ('w, 'z, pydict list) io" where
  "manager_classes web lib user_id m =
     io_bind (io_of (manager_client user_id m)) (\<lambda>cl. get_class_subjects web lib (cl_session cl))"

definition manager_class_activities ::
  "'w web \<Rightarrow> si_lib \<Rightarrow> string \<Rightarrow> string \<Rightarrow> string \<Rightarrow> bool \<Rightarrow> 's sm_state \<Rightarrow> ('w, 'z, pydict list) io" where
  "manager_class_activities web lib user_id class_id course_id include_details m =
     io_bind (io_of (manager_client user_id m)) (\<lambda>cl.
       get_class_activities web lib (cl_session cl) class_id course_id include_details)"

end
