(* ===== verification/Signin_Run.thy ===== *)
theory Signin_Run
  imports Signin_Worker
begin

text \<open>
  What a run of the sign-in worker does, whatever the network answers and whichever client it finds:
  it returns, it settles its task exactly once, it submits only sign-ins its request selected, and a
  task it reports as completed was signed in every activity the scan found.
\<close>

section \<open>Acts\<close>

lemma acts_more: "net.more n' = net.more n \<Longrightarrow> acts n' = acts n"
  for n n' :: "('w, 'z) wnet_scheme"
  by (cases n; cases n') simp

abbreviation quiet :: "('w, 'z, 'a) io \<Rightarrow> bool" where
  "quiet m \<equiv> makes (\<lambda>_. True) m"

lemma quiet_silent: "silent m \<Longrightarrow> quiet m"
  by (rule makes_mono) simp_all

definition emits ::
  "(sm_act \<Rightarrow> bool) \<Rightarrow> (('w, 'z) wnet_scheme \<Rightarrow> (http_exc + 'a) \<times> ('w, 'z) wnet_scheme) \<Rightarrow> bool" where
  "emits P m \<longleftrightarrow> (\<forall>n. \<exists>v. acts (snd (m n)) = acts n @ v \<and> list_all P v)"

named_theorems emits_rules \<open>the acts of an operation are those of its parts\<close>

lemma emits_emit [emits_rules]: "P a \<Longrightarrow> emits P (emit a)"
  by (simp add: emits_def emit_def)

lemma emits_quiet: "quiet m \<Longrightarrow> emits P m"
  unfolding emits_def makes_def only_sends_def
  by (metis acts_more append.right_neutral list.pred_inject(1))

lemma emits_return [emits_rules]: "emits P (io_return x)"
  by (rule emits_quiet [OF makes_return])

lemma emits_bind [emits_rules]:
  assumes "emits P m" and "\<And>x. emits P (f x)"
  shows "emits P (io_bind m f)"
  unfolding emits_def
proof
  fix n
  obtain r n1 where m: "m n = (r, n1)" by fastforce
  then obtain v where v: "acts n1 = acts n @ v" "list_all P v" using assms(1) unfolding emits_def by (metis snd_conv)
  have "\<exists>u. acts (snd (f x n1)) = acts n1 @ u \<and> list_all P u" for x using assms(2) by (simp add: emits_def)
  then show "\<exists>v. acts (snd (io_bind m f n)) = acts n @ v \<and> list_all P v"
    using m v by (cases r) (fastforce simp: io_bind_def)+
qed

lemma emits_for [emits_rules]:
  "(\<And>x s. x \<in> set xs \<Longrightarrow> emits P (body x s)) \<Longrightarrow> emits P (io_for body xs s)"
  by (induction xs arbitrary: s) (auto intro!: emits_rules)

text \<open>Acts that leave the status of every task alone, and the final update of one\<close>

fun plain_act :: "sm_act \<Rightarrow> bool" where
  "plain_act (Update _ changes) = (''status'' \<notin> fst ` set changes \<and> ''user_id'' \<notin> fst ` set changes)"
| "plain_act _ = True"

fun log_act :: "sm_act \<Rightarrow> bool" where
  "log_act (Log _ _ _) = True"
| "log_act _ = False"

definition final_update :: "pydict \<Rightarrow> bool" where
  "final_update ch \<longleftrightarrow> (\<exists>status message. status \<in> {''completed'', ''error''}
     \<and> ch = [(''status'', PStr status), (''message'', message)])"

definition completes :: "pydict \<Rightarrow> bool" where
  "completes ch \<longleftrightarrow> dget ch ''status'' = PStr ''completed''"

text \<open>\<open>settled_acts tid as\<close>: the task gets its final status once, and only log entries follow\<close>

definition settled_acts :: "string \<Rightarrow> sm_act list \<Rightarrow> pydict \<Rightarrow> bool" where
  "settled_acts tid as ch \<longleftrightarrow> (\<exists>before after. as = before @ Update tid ch # after
     \<and> list_all plain_act before \<and> final_update ch \<and> list_all log_act after)"

definition settles ::
  "string \<Rightarrow> (('w, 'z) wnet_scheme \<Rightarrow> (http_exc + unit) \<times> ('w, 'z) wnet_scheme) \<Rightarrow> bool" where
  "settles tid m \<longleftrightarrow> (\<forall>n. \<exists>v. acts (snd (m n)) = acts n @ v
     \<and> (case fst (m n) of Inl _ \<Rightarrow> list_all plain_act v | Inr _ \<Rightarrow> (\<exists>ch. settled_acts tid v ch)))"

lemma settled_prefix: "list_all plain_act u \<Longrightarrow> settled_acts tid v ch \<Longrightarrow> settled_acts tid (u @ v) ch"
  unfolding settled_acts_def by (metis append.assoc list_all_append)

lemma settles_bind:
  assumes "emits plain_act m" and "\<And>x. settles tid (f x)"
  shows "settles tid (io_bind m f)"
  unfolding settles_def
proof
  fix n
  obtain r n1 where m: "m n = (r, n1)" by fastforce
  then obtain v where v: "acts n1 = acts n @ v" "list_all plain_act v" using assms(1) unfolding emits_def by (metis snd_conv)
  show "\<exists>v. acts (snd (io_bind m f n)) = acts n @ v
     \<and> (case fst (io_bind m f n) of Inl _ \<Rightarrow> list_all plain_act v | Inr _ \<Rightarrow> (\<exists>ch. settled_acts tid v ch))"
  proof (cases r)
    case (Inl e)
    with m v show ?thesis by (auto simp: io_bind_def)
  next
    case (Inr x)
    obtain u where u: "acts (snd (f x n1)) = acts n1 @ u"
      "case fst (f x n1) of Inl _ \<Rightarrow> list_all plain_act u | Inr _ \<Rightarrow> (\<exists>ch. settled_acts tid u ch)"
      using assms(2) unfolding settles_def by blast
    with m v Inr show ?thesis
      by (auto simp: io_bind_def intro!: exI [of _ "v @ u"] settled_prefix split: sum.splits)
  qed
qed

lemma final_changes_final [simp]: "final_update (final_changes f)"
  by (simp add: final_changes_def final_update_def)

lemma settled_actsI:
  "final_update ch \<Longrightarrow> list_all log_act after \<Longrightarrow> settled_acts tid (Update tid ch # after) ch"
  unfolding settled_acts_def by (intro exI [of _ "[]"] exI [of _ after]) simp

lemma settles_final: "final_update ch \<Longrightarrow> settles tid (emit (Update tid ch))"
  using settled_actsI [of ch "[]"] by (auto simp: settles_def emit_def)

lemma settles_give_up:
  assumes "status \<in> {''completed'', ''error''}"
  shows "settles tid (give_up tid status msg lmsg level)"
proof -
  have "settled_acts tid [Update tid [(''status'', PStr status), (''message'', msg)], Log tid lmsg level]
      [(''status'', PStr status), (''message'', msg)]"
    using assms by (intro settled_actsI) (auto simp: final_update_def)
  then show ?thesis by (auto simp: give_up_def settles_def emit_def io_bind_def)
qed

lemma settlesD:
  assumes "settles tid m" and "m n = (r, n')"
  obtains v where "acts n' = acts n @ v"
    and "case r of Inl _ \<Rightarrow> list_all plain_act v | Inr _ \<Rightarrow> (\<exists>ch. settled_acts tid v ch)"
  using assms unfolding settles_def by (metis fst_conv snd_conv)

section \<open>The worker settles its task\<close>

lemma quiet_submit [makes_rules]: "quiet (submit_sign web sid params)"
  unfolding submit_sign_def by (intro makes_rules) simp

lemma quiet_general [makes_rules]: "quiet (sign_general web cl task extra)"
  unfolding sign_general_def by (auto intro!: makes_rules split: prod.splits)

lemma quiet_with_code [makes_rules]: "quiet (sign_with_code web cl missing task options)"
  unfolding sign_with_code_def Let_def by (auto intro!: makes_rules)

lemma quiet_location [makes_rules]: "quiet (sign_location web lib cl task options)"
  unfolding sign_location_def by (auto intro!: makes_rules split: prod.splits)

lemma quiet_qrcode [makes_rules]: "quiet (sign_qrcode web lib cl task options)"
  unfolding sign_qrcode_def by (auto intro!: makes_rules split: prod.splits)

lemma quiet_photo [makes_rules]: "quiet (sign_photo web cl task options)"
  unfolding sign_photo_def Let_def
  by (auto intro!: makes_rules quiet_silent [OF silent_upload] split: prod.splits)

lemma quiet_by_type [makes_rules]: "quiet (sign_by_type web lib cl ty task options)"
  by (simp add: sign_by_type_def sign_gesture_def sign_code_def quiet_general quiet_with_code quiet_location
      quiet_qrcode quiet_photo)

lemma quiet_sign_task [makes_rules]: "quiet (sign_task web lib cl ty options task)"
  unfolding sign_task_def Let_def
  by (auto intro!: makes_rules quiet_silent [OF silent_pre_sign])

lemma emits_silent: "silent m \<Longrightarrow> emits P m"
  by (rule emits_quiet [OF quiet_silent])

lemma plain_describe [simp]: "''status'' \<notin> fst ` set (describe_changes st ty task)" "''user_id'' \<notin> fst ` set (describe_changes st ty task)"
  by (auto simp: describe_changes_def)

lemma emits_turn: "emits plain_act (sign_turn web lib cl tid user st ty options k task counts)"
  unfolding sign_turn_def Let_def
  by (cases counts) (auto intro!: emits_rules emits_quiet [OF quiet_sign_task] emits_quiet [OF makes_get])

lemma settles_sign_all: "settles tid (sign_all web lib cl tid user st ty options tasks)"
  unfolding sign_all_def Let_def
  by (auto intro!: settles_bind settles_final emits_rules emits_turn split: prod.splits)

lemma silent_scan_of [makes_rules]: "silent (scan_of web lib payload sid)"
  unfolding scan_of_def by (rule silent_active_tasks)

lemma settles_after_scan: "settles tid (after_scan web lib cl tid user payload outcome)"
  unfolding after_scan_def by (auto intro!: settles_give_up settles_sign_all split: sum.splits)

lemma settles_scan: "settles tid (scan_and_sign web lib cl tid user payload)"
  unfolding scan_and_sign_def
  by (auto intro!: settles_bind settles_after_scan emits_emit emits_silent [OF makes_try] makes_rules)

lemma emits_login: "emits plain_act (manager_login web lib user u p)"
  unfolding manager_login_def
  by (auto intro!: emits_rules emits_silent [OF silent_login] split: prod.splits)

lemma settles_worker: "settles tid (run_sign_worker web lib found tid user payload)"
  unfolding run_sign_worker_def Let_def
  by (auto simp: final_update_def intro!: settles_bind settles_give_up settles_final settles_scan emits_login
      emits_quiet [OF makes_get] split: option.splits)

lemma worker_returns:
  obtains n' v ch where "run_sign_worker_guarded web lib found tid user payload n = (Inr (), n')"
    and "acts n' = acts n @ v" and "settled_acts tid v ch"
proof -
  obtain r n1 where r: "run_sign_worker web lib found tid user payload n = (r, n1)" by fastforce
  from settlesD [OF settles_worker r] obtain v where v: "acts n1 = acts n @ v"
    "case r of Inl _ \<Rightarrow> list_all plain_act v | Inr _ \<Rightarrow> (\<exists>ch. settled_acts tid v ch)" .
  show thesis
  proof (cases r)
    case (Inr u)
    with r v show thesis by (auto simp: run_sign_worker_guarded_def io_try_def intro: that)
  next
    case (Inl e)
    let ?g = "give_up tid ''error'' (PStr (crash_message (exc_str e))) (PStr (crash_message (exc_str e))) ''error''"
    have g: "?g n1 = (Inr (), snd (?g n1))" by (simp add: give_up_def io_bind_def emit_def)
    obtain u where "acts (snd (?g n1)) = acts n1 @ u" and u: "\<exists>ch. settled_acts tid u ch"
      by (rule settlesD [OF settles_give_up g]) simp_all
    then obtain ch where "acts (snd (?g n1)) = acts n1 @ u" "settled_acts tid u ch" by blast
    with Inl r v g show thesis
      by (intro that [of "snd (?g n1)" "v @ u" ch])
         (auto simp: run_sign_worker_guarded_def io_try_def intro: settled_prefix)
  qed
qed

text \<open>A run of acts on the manager, each at its own time\<close>

definition perform_all :: "'s sign_ops \<Rightarrow> (lm_clock \<times> sm_act) list \<Rightarrow> 's sm_state \<Rightarrow> 's sm_state" where
  "perform_all ops cas m = fold (\<lambda>(clk, a). perform ops clk a) cas m"

definition sm_field :: "'s sm_state \<Rightarrow> string \<Rightarrow> string \<Rightarrow> pyval option" where
  "sm_field m tid key = map_option (\<lambda>t. dget t key) (map_of (sm_tasks m) tid)"

lemma sm_modify_lookup:
  "map_of (sm_tasks (sm_modify ops tid f m)) k =
     (if k = tid then map_option f (map_of (sm_tasks m) k) else map_of (sm_tasks m) k)"
  by (auto simp: sm_modify_def sm_put_def Let_def split: option.splits)

lemma sm_field_modify:
  "sm_field (sm_modify ops tid f m) k key =
     (if k = tid then map_option (\<lambda>t. dget (f t) key) (map_of (sm_tasks m) k) else sm_field m k key)"
  by (simp add: sm_field_def sm_modify_lookup option.map_comp comp_def)

lemma dget_sm_add_log [simp]: "k \<noteq> ''logs'' \<Longrightarrow> dget (sm_add_log e d) k = dget d k"
  by (simp add: sm_add_log_def Let_def)

lemma plain_act_field:
  "plain_act a \<Longrightarrow> key \<in> {''status'', ''user_id''} \<Longrightarrow> sm_field (perform ops clk a m) k key = sm_field m k key"
proof (cases a)
  case (Update tid ch)
  assume "plain_act a" and "key \<in> {''status'', ''user_id''}"
  then have "dget (touch clk (dupdate t ch)) key = dget t key" for t
    using Update by (auto simp: dget_dupdate_notin)
  then show ?thesis using Update by (simp add: sm_update_task_def sm_field_modify) (simp add: sm_field_def)
next
  case (Log tid message level)
  assume "key \<in> {''status'', ''user_id''}"
  then show ?thesis using Log by (auto simp: sm_append_log_def sm_field_modify) (auto simp: sm_field_def)
qed (auto simp: sm_field_def sm_append_history_def Let_def)

lemma is_log_plain: "log_act a \<Longrightarrow> plain_act a"
  by (cases a) simp_all

lemma perform_plain:
  "list_all plain_act (map snd cas) \<Longrightarrow> key \<in> {''status'', ''user_id''} \<Longrightarrow>
     sm_field (perform_all ops cas m) k key = sm_field m k key"
  unfolding perform_all_def
  by (induction cas arbitrary: m) (auto simp: plain_act_field)

lemma final_update_field:
  assumes "final_update ch" and "sm_field m tid ''status'' \<noteq> None"
  shows "sm_field (perform ops clk (Update tid ch) m) tid ''status'' = Some (dget ch ''status'')"
proof -
  from assms(2) obtain t where "map_of (sm_tasks m) tid = Some t" by (auto simp: sm_field_def)
  moreover have "dget (touch clk (dupdate t ch)) ''status'' = dget ch ''status''"
    using assms(1) by (auto simp: final_update_def)
  ultimately show ?thesis by (simp add: sm_update_task_def sm_field_modify)
qed

lemma settled_status:
  assumes "settled_acts tid v ch" and cas: "map snd cas = v" and m: "map_of (sm_tasks m) tid \<noteq> None"
  shows "sm_field (perform_all ops cas m) tid ''status'' = Some (dget ch ''status'')"
proof -
  obtain before after where "v = before @ Update tid ch # after" and b: "list_all plain_act before"
    and ch: "final_update ch" and a: "list_all log_act after"
    using assms(1) unfolding settled_acts_def by blast
  with cas obtain cb clk ca where split: "cas = cb @ (clk, Update tid ch) # ca"
    "map snd cb = before" "map snd ca = after"
    by (auto simp: map_eq_append_conv map_eq_Cons_conv)
  have la: "list_all plain_act (map snd ca)"
    using a split(3) is_log_plain by (auto simp: list_all_iff)
  let ?m1 = "perform_all ops cb m"
  have "sm_field ?m1 tid ''status'' \<noteq> None"
    using perform_plain [of cb "''status''" ops m tid] b split(2) m by (auto simp: sm_field_def)
  note f = final_update_field [OF ch this]
  have "sm_field (perform_all ops ca (perform ops clk (Update tid ch) ?m1)) tid ''status'' =
      sm_field (perform ops clk (Update tid ch) ?m1) tid ''status''"
    by (rule perform_plain [OF la]) simp
  moreover have "perform_all ops cas m = perform_all ops ca (perform ops clk (Update tid ch) ?m1)"
    using split(1) by (simp add: perform_all_def)
  ultimately show ?thesis using f by simp
qed

section \<open>What is submitted\<close>

lemma submitted_emit [simp]: "submitted (snd (emit a n)) = submitted n"
  by (simp add: emit_def submitted_def)

lemma adds_emit: "adds {[]} (emit a)"
  by (simp add: adds_def)

lemma io_bind_emit: "io_bind (emit a) f n = f () (n\<lparr>acts := acts n @ [a]\<rparr>)"
  by (simp add: io_bind_def emit_def)

lemma submitted_acts [simp]: "submitted (n\<lparr>acts := as\<rparr>) = submitted n"
  by (simp add: submitted_def)

text \<open>One turn submits at most the sign-in of its task, and does so if it counts it as completed\<close>

lemma turn_adds: "adds (may_submit (dget task ''activeId'')) (sign_turn web lib cl tid user st ty options k task counts)"
  unfolding sign_turn_def Let_def
  by (cases counts)
     (auto intro!: adds_bind adds_bind_last [OF adds_sign_task] adds_emit adds_silent [OF makes_get] adds_silent [OF makes_return])

lemma turn_counts:
  assumes run: "sign_turn web lib cl tid user st ty options k task (i, c, f) n = (Inr (i', c', f'), n')"
  shows "f \<le> f'" and "honest_errors web lib \<Longrightarrow> f' = f \<Longrightarrow> submitted n' = submitted n @ [dget task ''activeId'']"
proof -
  let ?n1 = "n\<lparr>acts := acts n @ [Log tid (PStr (''Signing '' @ subject_name st task @ '' ('' @ task_type_label ty task @ '')'')) ''info'']\<rparr>"
  obtain result n2 where t: "sign_task web lib cl ty options task ?n1 = (Inr result, n2)"
    and s: "submitted n' = submitted n2" and f': "f' = (if sign_ok result then f else Suc f)"
    using run by (auto simp: sign_turn_def Let_def io_bind_emit io_bind_Inr [of "sign_task _ _ _ _ _ _"]
        io_bind_Inr [of "io_get _"])
  show "f \<le> f'" using f' by simp
  assume "honest_errors web lib" "f' = f"
  with f' have "sign_ok result" by (simp split: if_splits)
  from sign_task_reports [OF \<open>honest_errors web lib\<close> t this] s
  show "submitted n' = submitted n @ [dget task ''activeId'']" by simp
qed

lemma loop_adds:
  "adds {v. subseq v (map (\<lambda>t. dget t ''activeId'') tasks)}
     (io_for (sign_turn web lib cl tid user st ty options k) tasks counts)"
  unfolding adds_def
proof (intro allI)
  fix n
  show "\<exists>v \<in> {v. subseq v (map (\<lambda>t. dget t ''activeId'') tasks)}.
      submitted (snd (io_for (sign_turn web lib cl tid user st ty options k) tasks counts n)) = submitted n @ v"
  proof (induction tasks arbitrary: counts n)
    case Nil
    show ?case by (auto simp: io_return_def intro: exI [of _ "[]"])
  next
    case (Cons task tasks)
    let ?turn = "sign_turn web lib cl tid user st ty options k task counts"
    obtain r n1 where t: "?turn n = (r, n1)" by fastforce
    then obtain u where u: "u \<in> may_submit (dget task ''activeId'')" "submitted n1 = submitted n @ u"
      using turn_adds [of task] unfolding adds_def by (metis snd_conv)
    show ?case
    proof (cases r)
      case (Inl e)
      with t u show ?thesis by (auto simp: io_bind_def)
    next
      case (Inr counts1)
      from Cons.IH [of counts1 n1] obtain v where v: "subseq v (map (\<lambda>t. dget t ''activeId'') tasks)"
        "submitted (snd (io_for (sign_turn web lib cl tid user st ty options k) tasks counts1 n1)) = submitted n1 @ v"
        by blast
      with u have "subseq (u @ v) (map (\<lambda>t. dget t ''activeId'') (task # tasks))" by auto
      with t u v Inr show ?thesis by (auto simp: io_bind_def intro!: bexI [of _ "u @ v"])
    qed
  qed
qed

lemma loop_completed:
  assumes "io_for (sign_turn web lib cl tid user st ty options k) tasks (i, c, f) n = (Inr (i', c', f'), n')"
  shows "f \<le> f'" and "honest_errors web lib \<Longrightarrow> f' = f \<Longrightarrow> submitted n' = submitted n @ map (\<lambda>t. dget t ''activeId'') tasks"
  using assms
proof (induction tasks arbitrary: i c f n)
  case (Cons task tasks)
  {
    case 1
    then obtain i1 c1 f1 n1 where "sign_turn web lib cl tid user st ty options k task (i, c, f) n = (Inr (i1, c1, f1), n1)"
      "io_for (sign_turn web lib cl tid user st ty options k) tasks (i1, c1, f1) n1 = (Inr (i', c', f'), n')"
      by (auto simp: io_bind_Inr)
    with turn_counts(1) Cons.IH(1) show ?case by (meson order_trans)
  next
    case 2
    then obtain i1 c1 f1 n1 where t: "sign_turn web lib cl tid user st ty options k task (i, c, f) n = (Inr (i1, c1, f1), n1)"
      and l: "io_for (sign_turn web lib cl tid user st ty options k) tasks (i1, c1, f1) n1 = (Inr (i', c', f'), n')"
      by (auto simp: io_bind_Inr)
    have "f1 = f" "f' = f1" using turn_counts(1) [OF t] Cons.IH(1) [OF l] 2(2) by simp_all
    with turn_counts(2) [OF t 2(1)] Cons.IH(2) [OF 2(1) _ l] show ?case by simp
  }
qed simp_all

section \<open>What a completed task has signed\<close>

text \<open>Whether one of the acts marks a task as completed\<close>

fun completing :: "sm_act \<Rightarrow> bool" where
  "completing (Update _ ch) = completes ch"
| "completing _ = False"

definition completes_acts :: "sm_act list \<Rightarrow> bool" where
  "completes_acts w = list_ex completing w"

lemma plain_not_completing: "plain_act a \<Longrightarrow> \<not> completing a"
  by (cases a) (auto simp: completes_def dget_def dest: map_of_SomeD split: option.splits intro: rev_image_eqI)

lemma plain_no_completion: "list_all (\<lambda>a. \<not> completing a) w \<Longrightarrow> \<not> completes_acts w"
  by (auto simp: completes_acts_def list_all_iff list_ex_iff)

lemma plain_completes: "list_all plain_act w \<Longrightarrow> \<not> completes_acts w"
  using plain_not_completing by (intro plain_no_completion) (auto simp: list_all_iff)

lemma emits_mono: "emits P m \<Longrightarrow> (\<And>a. P a \<Longrightarrow> Q a) \<Longrightarrow> emits Q m"
  unfolding emits_def list_all_iff by blast

lemma emits_plain: "emits plain_act m \<Longrightarrow> emits (\<lambda>a. \<not> completing a) m"
  by (erule emits_mono) (rule plain_not_completing)

abbreviation active_ids_of :: "pydict list \<Rightarrow> pyval list" where
  "active_ids_of tasks \<equiv> map (\<lambda>t. dget t ''activeId'') tasks"

text \<open>
  \<open>honours P m\<close>: there is a list of tasks with \<open>P\<close> among which the submissions of \<open>m\<close> are, and they
  are all of them where \<open>m\<close> marks its task as completed.
\<close>

definition honours ::
  "(pydict list \<Rightarrow> bool) \<Rightarrow> (('w, 'z) wnet_scheme \<Rightarrow> (http_exc + 'a) \<times> ('w, 'z) wnet_scheme) \<Rightarrow> bool" where
  "honours P m \<longleftrightarrow> (\<forall>n. \<exists>tasks w v. acts (snd (m n)) = acts n @ w \<and> submitted (snd (m n)) = submitted n @ v
     \<and> subseq v (active_ids_of tasks) \<and> (P tasks \<or> tasks = [] \<and> \<not> completes_acts w)
     \<and> (completes_acts w \<longrightarrow> v = active_ids_of tasks))"

lemma honours_plain:
  assumes "adds {[]} m" and "emits (\<lambda>a. \<not> completing a) m"
  shows "honours P m"
  unfolding honours_def
proof
  fix n
  obtain w where "acts (snd (m n)) = acts n @ w" "list_all (\<lambda>a. \<not> completing a) w"
    using assms(2) unfolding emits_def by blast
  moreover have "submitted (snd (m n)) = submitted n" using assms(1) by (auto simp: adds_def)
  ultimately show "\<exists>tasks w v. acts (snd (m n)) = acts n @ w \<and> submitted (snd (m n)) = submitted n @ v
     \<and> subseq v (active_ids_of tasks) \<and> (P tasks \<or> tasks = [] \<and> \<not> completes_acts w)
     \<and> (completes_acts w \<longrightarrow> v = active_ids_of tasks)"
    using plain_no_completion by (intro exI [of _ "[]"] exI [of _ w]) auto
qed

lemma honours_none:
  assumes "adds {[]} m" and "emits (\<lambda>_. True) m" and "P []"
  shows "honours P m"
  unfolding honours_def
proof
  fix n
  obtain w where "acts (snd (m n)) = acts n @ w" using assms(2) unfolding emits_def by blast
  moreover have "submitted (snd (m n)) = submitted n" using assms(1) by (auto simp: adds_def)
  ultimately show "\<exists>tasks w v. acts (snd (m n)) = acts n @ w \<and> submitted (snd (m n)) = submitted n @ v
     \<and> subseq v (active_ids_of tasks) \<and> (P tasks \<or> tasks = [] \<and> \<not> completes_acts w)
     \<and> (completes_acts w \<longrightarrow> v = active_ids_of tasks)"
    using assms(3) by (intro exI [of _ "[]"] exI [of _ w]) auto
qed

lemma honours_bind:
  assumes "adds {[]} m" and "emits (\<lambda>a. \<not> completing a) m"
    and "\<And>n x n'. m n = (Inr x, n') \<Longrightarrow> honours P (f x)"
  shows "honours P (io_bind m f)"
  unfolding honours_def
proof
  fix n
  let ?m = "io_bind m f"
  obtain r n1 where m: "m n = (r, n1)" by fastforce
  obtain u where u: "acts n1 = acts n @ u" "list_all (\<lambda>a. \<not> completing a) u"
    using assms(2) m unfolding emits_def by (metis snd_conv)
  have s: "submitted n1 = submitted n" using assms(1) m unfolding adds_def by (metis append.right_neutral singletonD snd_conv)
  show "\<exists>tasks w v. acts (snd (?m n)) = acts n @ w \<and> submitted (snd (?m n)) = submitted n @ v
     \<and> subseq v (active_ids_of tasks) \<and> (P tasks \<or> tasks = [] \<and> \<not> completes_acts w)
     \<and> (completes_acts w \<longrightarrow> v = active_ids_of tasks)"
  proof (cases r)
    case (Inl e)
    with m u s plain_no_completion [OF u(2)] show ?thesis
      by (intro exI [of _ "[]"] exI [of _ u]) (auto simp: io_bind_def)
  next
    case (Inr x)
    from assms(3) [of n x n1] m Inr obtain tasks w v where w: "acts (snd (f x n1)) = acts n1 @ w"
      "submitted (snd (f x n1)) = submitted n1 @ v" "subseq v (active_ids_of tasks)"
      "P tasks \<or> tasks = [] \<and> \<not> completes_acts w" "completes_acts w \<longrightarrow> v = active_ids_of tasks"
      unfolding honours_def by blast
    have "completes_acts (u @ w) = completes_acts w"
      using plain_no_completion [OF u(2)] by (simp add: completes_acts_def)
    with m u s w Inr show ?thesis
      by (intro exI [of _ tasks] exI [of _ "u @ w"] exI [of _ v]) (auto simp: io_bind_def)
  qed
qed

lemma final_completes: "completes (final_changes f) \<longleftrightarrow> f = 0"
  by (auto simp: completes_def final_changes_def)

lemma honours_sign_all:
  fixes web :: "'w web"
  assumes "honest_errors web lib" and "P tasks"
  shows "honours P (sign_all web lib cl tid user st ty options tasks)"
  unfolding honours_def
proof
  fix n :: "('w, 'z) wnet_scheme"
  let ?m = "sign_all web lib cl tid user st ty options tasks"
  let ?loop = "io_for (sign_turn web lib cl tid user st ty options (length tasks)) tasks (0, 0, 0)"
  let ?up = "Update tid ((''progress'', progress_value (length tasks) 0 0 0 (subject_name st (hd tasks)))
      # describe_changes st ty (hd tasks))"
  let ?n0 = "n\<lparr>acts := acts n @ [?up]\<rparr>"
  have up: "plain_act ?up" by simp
  obtain r n1 where l: "?loop ?n0 = (r, n1)" by fastforce
  have "emits plain_act ?loop" by (intro emits_rules emits_turn)
  then obtain u where u: "acts n1 = acts ?n0 @ u" "list_all plain_act u"
    using l unfolding emits_def by (metis snd_conv)
  then have plain: "\<not> completes_acts (?up # u)"
    using up by (intro plain_completes) (simp only: list.pred_inject)
  obtain v where v: "subseq v (active_ids_of tasks)" "submitted n1 = submitted ?n0 @ v"
    using loop_adds [of tasks web lib cl tid user st ty options "length tasks" "(0, 0, 0)"] l unfolding adds_def
    by (metis (no_types, lifting) mem_Collect_eq snd_conv)
  show "\<exists>tasks w v. acts (snd (?m n)) = acts n @ w \<and> submitted (snd (?m n)) = submitted n @ v
     \<and> subseq v (active_ids_of tasks) \<and> (P tasks \<or> tasks = [] \<and> \<not> completes_acts w)
     \<and> (completes_acts w \<longrightarrow> v = active_ids_of tasks)"
  proof (cases r)
    case (Inl e)
    with l u v plain assms(2) show ?thesis
      by (intro exI [of _ tasks] exI [of _ "?up # u"] exI [of _ v])
         (auto simp: sign_all_def Let_def io_bind_emit io_bind_def [of ?loop])
  next
    case (Inr counts)
    obtain i c f where counts: "counts = (i, c, f)" by (cases counts)
    have "?m n = emit (Update tid (final_changes f)) n1"
      using l Inr counts by (simp add: sign_all_def Let_def io_bind_emit io_bind_def [of ?loop])
    moreover have "f = 0 \<Longrightarrow> v = active_ids_of tasks"
      using loop_completed(2) [OF l [unfolded Inr counts] assms(1)] v(2) by simp
    moreover have "completes_acts (?up # u @ [Update tid (final_changes f)]) \<longleftrightarrow> f = 0"
      using plain by (auto simp: completes_acts_def final_completes)
    ultimately show ?thesis
      using u v assms(2)
      by (intro exI [of _ tasks] exI [of _ "?up # u @ [Update tid (final_changes f)]"] exI [of _ v])
         (auto simp: emit_def)
  qed
qed

text \<open>The tasks the scan of a request can return\<close>

definition scan_result :: "'w web \<Rightarrow> si_lib \<Rightarrow> pydict \<Rightarrow> pydict list \<Rightarrow> bool" where
  "scan_result web lib payload tasks \<longleftrightarrow>
     (\<exists>sid n n'. scan_of web lib payload sid (n :: 'w wnet) = (Inr tasks, n'))"

text \<open>A task the request selects\<close>

definition requested :: "pydict \<Rightarrow> pydict \<Rightarrow> bool" where
  "requested payload task \<longleftrightarrow>
     (case iter_values (sm_or (dget payload ''course_list'') (PList [])) of
        Inl _ \<Rightarrow> False
      | Inr items \<Rightarrow> signable (map parse_course_filter items) (as_filter_set (class_filter_of payload))
                       (as_filter_set (dget payload ''active_id'')) (payload_sign_type payload) task)"

lemma scan_result_requested: "scan_result web lib payload tasks \<Longrightarrow> t \<in> set tasks \<Longrightarrow> requested payload t"
  unfolding scan_result_def scan_of_def by (auto simp: requested_def elim: active_tasks_sound)

lemma not_completing_give_up: "emits (\<lambda>a. \<not> completing a) (give_up tid ''error'' m l level)"
  unfolding give_up_def by (auto simp: completes_def intro!: emits_rules)

lemma adds_give_up: "adds {[]} (give_up tid status m l level)"
  unfolding give_up_def by (auto intro!: adds_bind adds_emit)

lemma honours_after_scan:
  fixes web :: "'w web"
  assumes "honest_errors web lib" and "\<And>tasks. outcome = Inr tasks \<Longrightarrow> P tasks"
  shows "honours P (after_scan web lib cl tid user payload outcome)"
proof (cases outcome)
  case (Inl e)
  then show ?thesis by (auto simp: after_scan_def intro!: honours_plain adds_give_up not_completing_give_up)
next
  case (Inr tasks)
  have "emits (\<lambda>_. True) (give_up tid ''completed'' m l level)" for m l level
    unfolding give_up_def by (auto intro!: emits_rules)
  with Inr assms show ?thesis
    by (auto simp: after_scan_def intro!: honours_sign_all honours_none adds_give_up)
qed

lemma honours_scan:
  fixes web :: "'w web"
  assumes "honest_errors web lib"
  shows "honours (scan_result web lib payload)
    (scan_and_sign web lib cl tid user payload :: 'w wnet \<Rightarrow> (http_exc + unit) \<times> 'w wnet)"
proof -
  let ?attempt = "io_try is_request_exc (io_bind (scan_of web lib payload (cl_session cl)) (\<lambda>tasks. io_return (Inr tasks)))
      (\<lambda>e. io_return (Inl e)) :: 'w wnet \<Rightarrow> (http_exc + (http_exc + pydict list)) \<times> 'w wnet"
  have quiet: "silent ?attempt" by (intro makes_rules)
  have found: "scan_result web lib payload tasks" if "?attempt n = (Inr (Inr tasks), n')" for n n' tasks
    using that unfolding io_try_Inr by (auto simp: io_bind_Inr scan_result_def)
  have "honours (scan_result web lib payload) (io_bind ?attempt (after_scan web lib cl tid user payload))"
    by (rule honours_bind [OF adds_silent [OF quiet] emits_silent [OF quiet]])
       (use found in \<open>auto intro!: honours_after_scan [OF assms]\<close>)
  then show ?thesis
    unfolding scan_and_sign_def by (intro honours_bind [OF adds_emit emits_emit]) simp_all
qed

lemma honours_worker:
  fixes web :: "'w web"
  assumes "honest_errors web lib"
  shows "honours (scan_result web lib payload)
    (run_sign_worker web lib found tid user payload :: 'w wnet \<Rightarrow> (http_exc + unit) \<times> 'w wnet)"
proof -
  have login: "adds {[]} (manager_login web lib user u p :: 'w wnet \<Rightarrow> (http_exc + pydict) \<times> 'w wnet)" for u p
    unfolding manager_login_def
    by (auto intro!: adds_bind adds_silent [OF silent_login] adds_emit adds_silent [OF makes_return] split: prod.splits)
  have lost: "honours (scan_result web lib payload)
      (emit (Update tid [(''status'', PStr ''error''), (''message'', m)]) :: 'w wnet \<Rightarrow> (http_exc + unit) \<times> 'w wnet)" for m
    by (rule honours_plain [OF adds_emit]) (simp add: emits_emit completes_def)
  have client: "honours (scan_result web lib payload)
      (io_bind (io_get (\<lambda>n. found (acts n))) (\<lambda>client. case client of
         None \<Rightarrow> emit (Update tid [(''status'', PStr ''error''), (''message'', PStr ''Login state unavailable'')])
       | Some cl \<Rightarrow> scan_and_sign web lib cl tid user payload) :: 'w wnet \<Rightarrow> (http_exc + unit) \<times> 'w wnet)"
    by (rule honours_bind [OF adds_silent [OF makes_get] emits_quiet [OF makes_get]])
       (auto intro: lost honours_scan [OF assms] split: option.splits)
  show ?thesis
    unfolding run_sign_worker_def Let_def
    by (rule honours_bind [OF login emits_plain [OF emits_login]])
       (auto intro!: client honours_plain adds_give_up not_completing_give_up)
qed


text \<open>C5: The guarded worker of a sign-in task always returns, whatever the network answers, and after the acts it leaves behind, each at its own time, its task has the status "completed" or "error".\<close>

theorem signin_worker_settles_task:
  fixes web :: "'w web" and n :: "'w wnet"
  assumes "run_sign_worker_guarded web lib found tid user payload n = (r, n')"
    and "acts n' = acts n @ map snd cas" and "map_of (sm_tasks m) tid \<noteq> None"
  shows "r = Inr () \<and> sm_field (perform_all ops cas m) tid ''status'' \<in> {Some (PStr ''completed''), Some (PStr ''error'')}"
proof -
  obtain n1 v ch where run: "run_sign_worker_guarded web lib found tid user payload n = (Inr (), n1)"
    and "acts n1 = acts n @ v" and v: "settled_acts tid v ch"
    by (rule worker_returns)
  then have "v = map snd cas" using assms(1,2) by simp
  with settled_status [OF v _ assms(3)] have "sm_field (perform_all ops cas m) tid ''status'' = Some (dget ch ''status'')"
    by simp
  moreover have "dget ch ''status'' \<in> {PStr ''completed'', PStr ''error''}"
    using v by (auto simp: settled_acts_def final_update_def)
  ultimately show ?thesis using run assms(1) by auto
qed

section \<open>A small closed instance\<close>

definition plain_num :: num_lib where
  "plain_num = \<lparr>to_float = (\<lambda>_. None), float_less = (\<lambda>_ _. False),
     to_int = (\<lambda>v. case v of PInt i \<Rightarrow> Some i | _ \<Rightarrow> None)\<rparr>"

definition site_lib :: si_lib where
  "site_lib = \<lparr>si_num = plain_num, si_des = None, si_aes = None, si_unescape = (\<lambda>s. s), si_unquote = (\<lambda>s. s),
     si_ms_iso = (\<lambda>_. None), si_http_error = (\<lambda>_. ''HTTP error''), si_login_words = (\<lambda>_. False),
     si_visible_text = (\<lambda>s. s), si_throttle_words = (\<lambda>_. False), si_no_course_words = (\<lambda>_. False),
     si_folder_marks = (\<lambda>_. False),
     si_parse_courses = (\<lambda>_. [[(''courseId'', PStr ''11''), (''classId'', PStr ''22''), (''courseName'', PStr ''Maths'')]])\<rparr>"

text \<open>A site with one course and one active sign-in, and a site that does not answer\<close>

definition page :: "string \<Rightarrow> pyval option \<Rightarrow> response" where
  "page t j = \<lparr>rs_status = 200, rs_url = [], rs_location = [], rs_text = t, rs_json = j\<rparr>"

definition site_answer :: "request \<Rightarrow> response" where
  "site_answer rq =
     (if rq_url rq = LOGIN_URL then page [] (Some (PDict [(''status'', PBool True)]))
      else if rq_url rq = ACTIVE_LIST_URL
      then page [] (Some (PDict [(''data'', PDict [(''activeList'', PList
             [PDict [(''id'', PStr ''33''), (''status'', PInt 1), (''otherId'', PInt 0), (''ifphoto'', PInt 0)]])])]))
      else if rq_url rq = PPT_ACTIVE_INFO_URL then page [] (Some (PDict [(''data'', PDict [(''ifphoto'', PInt 0)])]))
      else if rq_url rq = SIGN_ANALYSIS_URL
      then page (''code='' @ [char_of (39 :: nat)] @ ''+'' @ [char_of (39 :: nat)] @ ''a'' @ [char_of (39 :: nat)]) None
      else if rq_url rq = PPT_SIGN_URL then page ''success'' None
      else page ''<'' None)"

definition site :: "unit web" where
  "site = \<lparr>web_send = (\<lambda>_ rq w. (Inr (site_answer rq), w)), web_cookie = (\<lambda>_ name _. Some name),
           web_ms = (\<lambda>_. 0), web_iso = (\<lambda>_. ''T'')\<rparr>"

definition dead_site :: "unit web" where
  "dead_site = site\<lparr>web_send := (\<lambda>_ _ w. (Inl (Request_error ''offline''), w))\<rparr>"

definition fresh_net :: "unit wnet" where
  "fresh_net = \<lparr>sent = [], sessions = 0, world = (), acts = []\<rparr>"

text \<open>\<open>_get_client\<close> when nobody else logs in\<close>

definition own_client :: finder where
  "own_client as = (case List.map_filter (\<lambda>a. case a of Login_as _ cl \<Rightarrow> Some cl | _ \<Rightarrow> None) (rev as) of
     [] \<Rightarrow> None | cl # _ \<Rightarrow> Some cl)"

definition signed_net :: "unit wnet" where
  "signed_net = snd (run_sign_worker_guarded site site_lib own_client ''t'' ''7'' [] fresh_net)"

lemma site_honest: "honest_errors site site_lib"
proof -
  have "\<not> reads_success ''HTTP error''" by code_simp
  then show ?thesis by (simp add: honest_errors_def site_def site_lib_def)
qed

text \<open>The pages pass the checks\<close>

lemma pages_valid:
  "login_page site_lib (page [] j) = False" "login_page site_lib (page ''<'' None) = False"
  "login_page site_lib (page ''success'' None) = False"
  "login_page site_lib (site_answer (get_request SIGN_ANALYSIS_URL ps)) = False"
  by code_simp+

lemma analysis_code: "map_option (group_of 1) (re_search analysis_code_re (rs_text (site_answer (get_request SIGN_ANALYSIS_URL ps)))) = Some ''a''"
  by code_simp

lemma http_site: "http site sid rq n = (Inr (site_answer rq), n\<lparr>sent := sent n @ [(sid, rq)]\<rparr>)"
  by (simp add: http_def site_def)

lemma validate_page:
  "login_page site_lib (page t j) = False \<Longrightarrow> validate_response site_lib (page t j) op = Inr ()"
  by (simp add: validate_response_def) (simp add: page_def)

lemma site_answers:
  "site_answer (get_request INTERACTION_URL ps) = page ''<'' None"
  "site_answer (post_request COURSE_LIST_URL ps fs t) = page ''<'' None"
  "site_answer (get_request PRE_SIGN_URL ps) = page ''<'' None"
  "site_answer (get_request SIGN_ANALYSIS2_URL ps) = page ''<'' None"
  "site_answer (get_request PPT_SIGN_URL ps) = page ''success'' None"
  "site_answer (post_request LOGIN_URL ps fs t) = page [] (Some (PDict [(''status'', PBool True)]))"
  by (simp_all add: site_answer_def url_defs)

lemma read_page:
  "rs_json (page t j) = j" "rs_text (page t j) = t"
  by (simp_all add: page_def)

definition maths_course :: pydict where
  "maths_course = [(''courseId'', PStr ''11''), (''classId'', PStr ''22''), (''courseName'', PStr ''Maths'')]"

lemma course_page: "validate_course_response site_lib i (page ''<'' None) = Inr [maths_course]"
  using validate_page [OF pages_valid(2)]
  by (simp add: validate_course_response_def read_page site_lib_def maths_course_def py_isspace_def)

lemma site_courses: "fst (get_courses site site_lib sid n) = Inr [maths_course]"
proof -
  have "scan_folders ''<'' = []" by code_simp
  moreover have "merge_courses [maths_course] [] = [maths_course]" by code_simp
  ultimately show ?thesis
    by (simp add: get_courses_def parse_course_folders_def io_bind_def http_site site_answers course_page io_of_def
        io_return_def read_page add_new_def)
qed

definition roll_call :: pydict where
  "roll_call = [(''id'', PStr ''33''), (''status'', PInt 1), (''otherId'', PInt 0), (''ifphoto'', PInt 0)]"

lemma site_activities: "fst (get_course_activity_list site site_lib sid c k n) = Inr [roll_call]"
proof -
  have "read_json_response site_lib (site_answer (get_request ACTIVE_LIST_URL ps)) op =
      Inr [(''data'', PDict [(''activeList'', PList [PDict roll_call])])]" for ps op
    using validate_page [OF pages_valid(1)]
    by (simp add: read_json_response_def site_answer_def url_defs read_page validate_json_payload_def is_refusal_def
        dget_def roll_call_def)
  then show ?thesis
    by (simp add: get_course_activity_list_def io_bind_def http_site io_of_def io_get_def dget_def List.map_filter_def)
qed

lemma site_resolves: "fst (resolve_sign_type site site_lib sid roll_call a None n) = Inr ''normal''"
proof -
  have "read_json_response site_lib (site_answer (get_request PPT_ACTIVE_INFO_URL ps)) op =
      Inr [(''data'', PDict [(''ifphoto'', PInt 0)])]" for ps op
    using validate_page [OF pages_valid(1)]
    by (simp add: read_json_response_def site_answer_def url_defs read_page validate_json_payload_def is_refusal_def dget_def)
  then show ?thesis
    by (simp add: resolve_sign_type_def activity_other_id_def roll_call_def get_ppt_active_info_def io_bind_def http_site
        io_of_def io_return_def dget_def si_int_def site_lib_def plain_num_def)
qed

lemma site_pre_signs: "fst (pre_sign site site_lib sid task n) = Inr ()"
proof -
  have a: "validate_response site_lib (site_answer (get_request SIGN_ANALYSIS_URL ps)) op = Inr ()" for ps op
    using pages_valid(4) by (simp add: validate_response_def) (simp add: site_answer_def url_defs page_def)
  obtain p where "re_search analysis_code_re (rs_text (site_answer (get_request SIGN_ANALYSIS_URL ps))) = Some p" for ps
    using analysis_code unfolding site_answer_def by (auto simp: url_defs)
  then show ?thesis
    using validate_page [OF pages_valid(2)] a
    by (simp add: pre_sign_def io_bind_def http_site io_of_def io_get_def site_answers)
qed

lemma site_signs:
  assumes "task_text task ''type'' = ''normal''"
  shows "\<exists>result. fst (sign_task site site_lib cl ''all'' options task n) = Inr result \<and> sign_ok result"
proof -
  obtain n1 where p: "pre_sign site site_lib (cl_session cl) task n = (Inr (), n1)"
    using site_pre_signs by (metis prod.collapse)
  have "reads_success (py_strip ''success'')" by code_simp
  then show ?thesis
    using assms p
    by (simp add: sign_task_def SIGN_TYPES_def sign_by_type_def sign_general_def submit_sign_def io_bind_def io_try_def
        io_get_def io_return_def http_site site_answers read_page sign_ok_def reads_success_def dget_def)
qed

lemma site_logs_in: "\<exists>result cl. fst (client_login site site_lib u p n) = Inr (result, cl) \<and> truthy (dget result ''status'')"
proof -
  have uid: "client_uid site sid n \<noteq> []" for sid and n :: "(unit, 'z) net_scheme"
    by (simp add: client_uid_def cookie_def site_def)
  have json: "safe_json (page [] (Some (PDict [(''status'', PBool True)]))) = [(''status'', PBool True)]"
    by (simp add: safe_json_def safe_json_value_def read_page)
  show ?thesis
    by (simp add: client_login_def new_session_def login_attempts_def io_bind_def io_try_def io_get_def io_return_def
        http_site site_answers json uid fetch_account_name_def Let_def dget_def case_prod_beta)
qed


text \<open>Running an operation whose first part is known to return\<close>

lemma bind_ran: "fst (m n) = Inr x \<Longrightarrow> io_bind m f n = f x (snd (m n))"
  by (cases "m n") (simp add: io_bind_def)

lemma try_ran: "fst (m n) = Inr x \<Longrightarrow> io_try C m h n = (Inr x, snd (m n))"
  by (cases "m n") (simp add: io_try_def)

lemma site_task: "\<exists>task n1. activity_to_task site site_lib sid maths_course roll_call ''normal'' [] n = (Inr task, n1)
    \<and> task_text task ''type'' = ''normal''"
  by (simp add: activity_to_task_def io_get_def Let_def task_text_def dget_def py_str_def)

lemma site_scan:
  "\<exists>task n1. scan_of site site_lib [] sid n = (Inr [task], n1) \<and> task_text task ''type'' = ''normal''"
proof -
  have "scanned site_lib [] roll_call" "activity_id roll_call = ''33''" by code_simp+
  moreover have "payload_sign_type [] = ''all''" "class_filter_of [] = PNone" "sm_or (dget [] ''course_list'') (PList []) = PList []"
    "dget [] ''active_id'' = PNone" "as_filter_set PNone = []" "iter_values (PList []) = Inr []"
    "course_selected [] [] k" for k
    by (code_simp, code_simp, code_simp, code_simp, code_simp, code_simp) (simp add: course_selected_def)
  moreover obtain task n1 where "activity_to_task site site_lib sid maths_course roll_call ''normal'' []
      (snd (resolve_sign_type site site_lib sid roll_call ''33'' None (snd (get_course_activity_list site site_lib sid
        (py_str (dget_or maths_course ''courseId'' (PStr []))) (py_str (dget_or maths_course ''classId'' (PStr [])))
        (snd (get_courses site site_lib sid n)))))) = (Inr task, n1)" "task_text task ''type'' = ''normal''"
    using site_task by blast
  ultimately show ?thesis
    by (simp add: scan_of_def get_active_tasks_def scan_course_def scan_activity_def Let_def bind_ran [OF site_courses]
        bind_ran [OF site_activities] bind_ran [OF site_resolves] io_bind_def io_of_def io_try_def io_return_def)
qed

lemma site_turn:
  assumes "task_text task ''type'' = ''normal''"
  shows "\<exists>N. sign_turn site site_lib cl tid user st ''all'' options k task (0, 0, 0) n = (Inr (1, 1, 0), N)"
proof -
  let ?n = "n\<lparr>acts := acts n @ [Log tid (PStr (''Signing '' @ subject_name st task @ '' ('' @ task_type_label ''all'' task @ '')''))
    ''info'']\<rparr>"
  obtain result where "fst (sign_task site site_lib cl ''all'' options task ?n) = Inr result" "sign_ok result"
    using site_signs [OF assms] by blast
  then show ?thesis
    by (simp add: sign_turn_def Let_def io_bind_emit bind_ran io_get_def io_bind_def [of "io_get _"] io_return_def)
qed

lemma site_signs_all:
  assumes "task_text task ''type'' = ''normal''"
  shows "\<exists>N. sign_all site site_lib cl tid user st ''all'' options [task] n = emit (Update tid (final_changes 0)) N"
proof -
  let ?n = "n\<lparr>acts := acts n @ [Update tid ((''progress'', progress_value 1 0 0 0 (subject_name st task))
    # describe_changes st ''all'' task)]\<rparr>"
  obtain N where "sign_turn site site_lib cl tid user st ''all'' options 1 task (0, 0, 0) ?n = (Inr (1, 1, 0), N)"
    using site_turn [OF assms] by blast
  then show ?thesis
    by (intro exI [of _ N]) (simp add: sign_all_def Let_def io_bind_emit io_bind_def [of "io_bind _ _"] io_bind_def [of "sign_turn _ _ _ _ _ _ _ _ _ _ _"]
        io_return_def)
qed

lemma site_runs:
  "\<exists>N. run_sign_worker_guarded site site_lib own_client ''t'' ''7'' [] fresh_net = (Inr (), snd (emit (Update ''t'' (final_changes 0)) N))"
proof -
  obtain result cl n1 where login: "client_login site site_lib [] [] fresh_net = (Inr (result, cl), n1)"
    and ok: "truthy (dget result ''status'')"
    using site_logs_in by (metis prod.collapse)
  have "only_sends (\<lambda>_. True) fresh_net n1"
    using quiet_silent [OF silent_login] login unfolding makes_def by (metis snd_conv)
  then have "acts n1 = acts fresh_net" unfolding only_sends_def by (intro acts_more) simp
  then have acts1: "acts n1 = []" by (simp add: fresh_net_def)
  let ?n2 = "n1\<lparr>acts := [Login_as ''7'' cl]\<rparr>"
  let ?n3 = "n1\<lparr>acts := [Login_as ''7'' cl, Log ''t'' (PStr ''Login successful'') ''info'']\<rparr>"
  obtain task n4 where scan: "scan_of site site_lib [] (cl_session cl) ?n3 = (Inr [task], n4)"
     and normal: "task_text task ''type'' = ''normal''"
    using site_scan by blast
  obtain N where all: "sign_all site site_lib cl ''t'' ''7'' (payload_subject_type []) ''all''
      (map (\<lambda>k. (k, PNone)) WORKER_OPTION_KEYS) [task] n4 = emit (Update ''t'' (final_changes 0)) N"
    using site_signs_all [OF normal] by blast
  have "payload_str [] ''username'' = []" "payload_str [] ''password'' = []" "payload_sign_type [] = ''all''"
    by code_simp+
  moreover have "dget [] k = PNone" for k by (simp add: dget_def)
  ultimately show ?thesis
    using login ok acts1 scan all
    by (intro exI [of _ N]) (simp add: run_sign_worker_guarded_def run_sign_worker_def manager_login_def io_bind_def [of "client_login _ _ _ _"]
        io_bind_emit io_bind_def [of "io_bind _ _"] io_return_def io_get_def io_bind_def [of "io_get _"] own_client_def
        List.map_filter_def scan_and_sign_def io_bind_def [of "io_try _ _ _"] try_ran
        io_bind_def [of "scan_of _ _ _ _"] io_try_def after_scan_def emit_def)
qed

lemma site_completes: "completes_acts (acts signed_net)"
  using site_runs by (auto simp: signed_net_def emit_def completes_acts_def final_completes)


text \<open>A store that answers nothing, and a manager with the task of the run\<close>

definition dead_ops :: "unit sign_ops" where
  "dead_ops = \<lparr>sg_tasks = \<lparr>so_upsert = (\<lambda>_ _ s. (False, s)), so_get = (\<lambda>_ _ _ s. (Inr None, s)), so_list = (\<lambda>_ _ _ s. (Inr [], s))\<rparr>,
     sg_append = (\<lambda>_ _ _ _ s. (Inr (), s)), sg_history = (\<lambda>_ _ _ s. (Inr [], s))\<rparr>"

definition run_clock :: lm_clock where
  "run_clock = \<lparr>clk_time = 0, clk_mono = 0, clk_iso = ''T''\<rparr>"

definition one_task :: "unit sm_state" where
  "one_task = \<lparr>sm_clients = [], sm_history = [], sm_tasks = [(''t'', new_sign_task run_clock ''t'' ''7'')], sm_loaded_tasks = [],
     sm_loaded_history = [], sm_store = ()\<rparr>"

theorem signin_worker_settles_task_witness:
  "sm_field (perform_all dead_ops (map (Pair run_clock) (acts signed_net)) one_task) ''t'' ''status''
     \<in> {Some (PStr ''completed''), Some (PStr ''error'')}"
proof -
  obtain r where run: "run_sign_worker_guarded site site_lib own_client ''t'' ''7'' [] fresh_net = (r, signed_net)"
    unfolding signed_net_def by (metis prod.collapse)
  show ?thesis
    using signin_worker_settles_task [OF run, of "map (Pair run_clock) (acts signed_net)" one_task dead_ops]
    by (simp add: fresh_net_def one_task_def comp_def)
qed

end
