(* ===== verification/Signin_Registry.thy ===== *)
theory Signin_Registry
  imports Signin_Run Task_Registry
begin

text \<open>
  The registry invariant of the sign-in manager. A state of the system is the manager with the ids of
  the tasks that have a worker; a step is one critical section of the manager: loading, cleaning,
  admission, or an act of a worker. In every reachable state the active tasks are exactly those with
  a worker, a user has at most one, and there are at most \<open>MAX_ACTIVE_TASKS\<close>.
\<close>

section \<open>What the manager needs of the task store\<close>

locale signin_store = status_store SIGNIN_TASK_KIND "sg_tasks ops" sinv
  for ops :: "'s sign_ops" and sinv :: "'s \<Rightarrow> bool" +
  assumes append_keeps: "sinv st \<Longrightarrow> sinv (snd (sg_append ops SIGNIN_HISTORY_KIND user (PDict d) mx st))"
    and history_keeps: "sinv st \<Longrightarrow> sinv (snd (sg_history ops SIGNIN_HISTORY_KIND u limit st))"

abbreviation sign_active :: "(string \<times> pydict) list \<Rightarrow> string set" where "sign_active \<equiv> live_ids (\<lambda>d. d)"
abbreviation sign_known :: "(string \<times> pydict) list \<Rightarrow> bool" where "sign_known \<equiv> known_registry (\<lambda>d. d)"

lemma sign_active_def: "task_active (\<lambda>d. d) t = is_active_status (dget t ''status'')"
  by (simp add: task_active_def)

lemma sign_owner_def: "owner_name (\<lambda>d. d) t = py_strip (str_or_empty (dget t ''user_id''))"
  by (simp add: owner_name_def)

section \<open>Dictionaries of tasks\<close>

lemma dget_public: "\<not> starts_with k ''_'' \<Longrightarrow> dget (task_public_payload t) k = dget t k"
proof -
  assume k: "\<not> starts_with k ''_''"
  have "map_of (filter (\<lambda>(k, _). \<not> starts_with k ''_'') t) k = map_of t k"
    using k by (induction t) auto
  then show ?thesis by (simp add: task_public_payload_def dget_def)
qed

lemma public_status [simp]: "dget (task_public_payload t) ''status'' = dget t ''status''"
  by (rule dget_public) simp

lemma sm_merged_status:
  "dget (sm_merged clk item) ''status'' = (if sm_interrupted item then PStr ''error'' else dget item ''status'')"
  by (simp add: sm_merged_def Let_def sm_interrupted_def touch_def)

lemma interrupted_active:
  assumes "known_status v"
  shows "is_active_status v \<longleftrightarrow> py_lower (str_or_empty v) \<in> set INTERRUPTED_TASK_STATUSES"
proof -
  from assms obtain s where s: "v = PStr s" "s \<in> set ACTIVE_TASK_STATUSES \<or> s \<in> set TERMINAL_TASK_STATUSES"
    unfolding known_status_def by blast
  have "str_or_empty v = s" using s(1) by (simp add: str_or_empty_def)
  with s active_statuses [of s] terminal_statuses [of s] show ?thesis
    unfolding INTERRUPTED_TASK_STATUSES_def by auto
qed

lemma sm_merged_known: "known_status (dget item ''status'') \<Longrightarrow> known_status (dget (sm_merged clk item) ''status'')"
  by (simp add: sm_merged_status)

lemma sm_merged_final: "known_status (dget item ''status'') \<Longrightarrow> \<not> task_active (\<lambda>d. d) (sm_merged clk item)"
  using interrupted_active [of "dget item ''status''"] by (auto simp: sm_merged_status sign_active_def sm_interrupted_def)

section \<open>Operations that keep the registry\<close>

context signin_store
begin

definition sm_ok :: "'s sm_state \<Rightarrow> bool" where
  "sm_ok m \<longleftrightarrow> sign_known (sm_tasks m) \<and> sinv (sm_store m)"

definition sm_keeps :: "'s sm_state \<Rightarrow> 's sm_state \<Rightarrow> bool" where
  "sm_keeps m m' \<longleftrightarrow> sm_ok m' \<and> same_live (\<lambda>d. d) (sm_tasks m) (sm_tasks m')"

lemma sm_keeps_refl: "sm_ok m \<Longrightarrow> sm_keeps m m"
  by (simp add: sm_keeps_def)

lemma sm_keeps_trans [trans]: "sm_keeps a b \<Longrightarrow> sm_keeps b c \<Longrightarrow> sm_keeps a c"
  unfolding sm_keeps_def by (blast intro: same_live_trans)

lemma sm_keeps_ok: "sm_keeps a b \<Longrightarrow> sm_ok b"
  by (simp add: sm_keeps_def)

lemma persist_keeps:
  "sinv st \<Longrightarrow> known_status (dget t ''status'') \<Longrightarrow> sinv (snd (sm_persist ops t st))"
  by (simp add: sm_persist_def upsert_keeps)

lemma sm_modify_keeps:
  assumes ok: "sm_ok m"
    and f: "\<And>t. map_of (sm_tasks m) tid = Some t \<Longrightarrow> dget (f t) ''status'' = dget t ''status''
        \<and> dget (f t) ''user_id'' = dget t ''user_id''"
  shows "sm_keeps m (sm_modify ops tid f m)"
proof (cases "map_of (sm_tasks m) tid")
  case None
  with ok show ?thesis by (simp add: sm_modify_def sm_keeps_refl)
next
  case (Some t)
  have k: "known_status (dget (f t) ''status'')"
    using ok Some f [OF Some] by (simp add: sm_ok_def known_registry_def)
  then have "sign_known (dset tid (f t) (sm_tasks m))" using ok by (simp add: sm_ok_def dset_known)
  moreover have "same_live (\<lambda>d. d) (sm_tasks m) (dset tid (f t) (sm_tasks m))"
    using f [OF Some] by (intro dset_same_live [OF Some]) (simp_all add: sign_active_def sign_owner_def)
  ultimately show ?thesis
    using ok k Some by (simp add: sm_modify_def sm_put_def Let_def sm_keeps_def sm_ok_def persist_keeps)
qed

lemma sm_modify_settles:
  assumes ok: "sm_ok m" and t: "map_of (sm_tasks m) tid = Some t"
    and f: "known_status (dget (f t) ''status'')" "\<not> is_active_status (dget (f t) ''status'')"
  shows "sm_ok (sm_modify ops tid f m)
    \<and> sign_active (sm_tasks (sm_modify ops tid f m)) = sign_active (sm_tasks m) - {tid}
    \<and> fewer_live (\<lambda>d. d) (sm_tasks m) (sm_tasks (sm_modify ops tid f m))"
proof -
  have "\<not> task_active (\<lambda>d. d) (f t)" using f by (simp add: sign_active_def)
  note l = live_ids_dset_final [OF this, of tid "sm_tasks m"] dset_final_fewer [OF this, of "sm_tasks m" tid]
  moreover have "sign_known (dset tid (f t) (sm_tasks m))" using ok f by (simp add: sm_ok_def dset_known)
  ultimately show ?thesis
    using ok t f by (simp add: sm_modify_def sm_put_def Let_def sm_ok_def persist_keeps)
qed

lemma store_keeps: "sm_ok m \<Longrightarrow> sinv st \<Longrightarrow> sm_keeps m (m\<lparr>sm_store := st\<rparr>)"
  by (simp add: sm_keeps_def sm_ok_def)

lemma clean_keeps: "sm_ok m \<Longrightarrow> sm_keeps m (m\<lparr>sm_tasks := sm_cleanup dt clk (sm_tasks m)\<rparr>)"
  using clean_known [of "\<lambda>d. d" "sm_tasks m"] clean_same_live [OF known_registry_wf [of "\<lambda>d. d"]]
  by (simp add: sm_keeps_def sm_ok_def sm_cleanup_def)

lemma sm_merge_keeps:
  assumes ok: "sm_ok m" and k: "known_status (dget item ''status'')"
  shows "sm_keeps m (snd (sm_merge_task ops clk item m))"
proof -
  let ?tid = "py_strip (str_or_empty (dget item ''task_id''))"
  let ?t = "sm_merged clk item"
  let ?m1 = "sm_put ?tid ?t m"
  show ?thesis
  proof (cases "map_of (sm_tasks m) ?tid = None")
    case True
    note known = sm_merged_known [OF k, of clk]
    have m1: "sm_keeps m ?m1"
      using ok dset_known [of "\<lambda>d. d" "sm_tasks m" ?t ?tid] known dset_new_same_live [OF True sm_merged_final [OF k, of clk]]
      by (simp add: sm_keeps_def sm_ok_def sm_put_def)
    moreover have "sm_keeps ?m1 (?m1\<lparr>sm_store := snd (sm_persist ops ?t (sm_store ?m1))\<rparr>)"
      using sm_keeps_ok [OF m1] known by (intro store_keeps persist_keeps) (auto simp: sm_ok_def)
    ultimately show ?thesis
      using ok by (auto simp: sm_merge_task_def Let_def sm_keeps_refl intro: sm_keeps_trans)
  qed (simp add: sm_merge_task_def Let_def sm_keeps_refl ok)
qed

lemma sm_merge_fold_keeps:
  "sm_ok m \<Longrightarrow> \<forall>item \<in> set items. known_status (dget item ''status'') \<Longrightarrow>
     sm_keeps m (fold (\<lambda>item acc. snd (sm_merge_task ops clk item acc)) items m)"
proof (induction items arbitrary: m)
  case (Cons item items)
  then have "sm_keeps m (snd (sm_merge_task ops clk item m))" by (intro sm_merge_keeps) auto
  with Cons show ?case by (auto intro: sm_keeps_trans dest: sm_keeps_ok)
qed (simp add: sm_keeps_refl)

lemma sm_merge_all_keeps:
  assumes ok: "sm_ok m" and l: "so_list (sg_tasks ops) SIGNIN_TASK_KIND u limit (sm_store m) = (r, st)"
  shows "sm_keeps m (sm_merge_all ops clk r (m\<lparr>sm_store := st\<rparr>))"
proof -
  have s: "sinv (sm_store m)" using ok by (simp add: sm_ok_def)
  have k: "sm_keeps m (m\<lparr>sm_store := st\<rparr>)"
    using list_keeps [OF s, of u limit] l ok by (simp add: store_keeps)
  have "sm_keeps (m\<lparr>sm_store := st\<rparr>) (sm_merge_all ops clk r (m\<lparr>sm_store := st\<rparr>))"
    unfolding sm_merge_all_def using list_known [OF s, of u limit] l sm_keeps_ok [OF k]
    by (intro sm_merge_fold_keeps) (auto split: sum.splits)
  with k show ?thesis by (rule sm_keeps_trans)
qed

lemma sm_load_task_keeps:
  assumes ok: "sm_ok m" shows "sm_keeps m (sm_load_task ops clk u tid m)"
proof -
  obtain r st where g: "so_get (sg_tasks ops) SIGNIN_TASK_KIND (py_strip tid) (Some (py_strip u)) (sm_store m) = (r, st)"
    by fastforce
  have s: "sinv (sm_store m)" using ok by (simp add: sm_ok_def)
  have k: "sm_keeps m (m\<lparr>sm_store := st\<rparr>)"
    using get_keeps [OF s, of "py_strip tid" "Some (py_strip u)"] g ok by (simp add: store_keeps)
  have i: "r = Inr (Some item) \<Longrightarrow> known_status (dget item ''status'')" for item
    using get_known [OF s, of "py_strip tid" "Some (py_strip u)" item] g by simp
  show ?thesis
    using k i sm_merge_keeps [OF sm_keeps_ok [OF k]] g ok
    by (auto simp: sm_load_task_def Let_def sm_keeps_refl split: sum.splits option.splits intro: sm_keeps_trans)
qed

lemma keeps_bookkeeping:
  "sm_keeps m (m'\<lparr>sm_loaded_tasks := us\<rparr>) = sm_keeps m m'"
  "sm_keeps m (m'\<lparr>sm_loaded_history := us\<rparr>) = sm_keeps m m'"
  "sm_keeps m (m'\<lparr>sm_history := hs\<rparr>) = sm_keeps m m'"
  "sm_keeps m (m'\<lparr>sm_clients := cs\<rparr>) = sm_keeps m m'"
  by (simp_all add: sm_keeps_def sm_ok_def)

lemma sm_load_tasks_keeps:
  assumes ok: "sm_ok m" shows "sm_keeps m (sm_load_tasks ops dt clk u m)"
proof (cases "py_strip u = []")
  case False
  obtain r st where l: "so_list (sg_tasks ops) SIGNIN_TASK_KIND (Some (py_strip u)) SIGNIN_TASK_LOAD_LIMIT (sm_store m) = (r, st)"
    by fastforce
  note k = sm_merge_all_keeps [OF ok l, of clk]
  let ?m1 = "sm_merge_all ops clk r (m\<lparr>sm_store := st\<rparr>)"
  have "sm_load_tasks ops dt clk u m =
      (?m1\<lparr>sm_tasks := sm_cleanup dt clk (sm_tasks ?m1)\<rparr>)\<lparr>sm_loaded_tasks := List.insert (py_strip u) (sm_loaded_tasks ?m1)\<rparr>"
    using False l by (simp add: sm_load_tasks_def Let_def)
  then show ?thesis
    using sm_keeps_trans [OF k clean_keeps [OF sm_keeps_ok [OF k]]] by (simp only: keeps_bookkeeping)
qed (simp add: sm_load_tasks_def sm_keeps_refl ok)

lemma sm_load_history_keeps:
  assumes ok: "sm_ok m" shows "sm_keeps m (sm_load_history ops u m)"
proof -
  have s: "sinv (sm_store m)" using ok by (simp add: sm_ok_def)
  show ?thesis
    using ok history_keeps [OF s, of "Some (py_strip u)" 500]
    by (auto simp: sm_load_history_def Let_def sm_keeps_def sm_ok_def split: prod.splits)
qed

lemma sm_append_history_keeps:
  assumes ok: "sm_ok m" shows "sm_keeps m (sm_append_history ops clk u record m)"
  using assms append_keeps by (simp add: sm_append_history_def Let_def sm_keeps_def sm_ok_def)

text \<open>The acts of a worker but the final one\<close>

lemma plain_act_keeps:
  assumes ok: "sm_ok m" and "plain_act a" shows "sm_keeps m (perform ops clk a m)"
proof (cases a)
  case (Update tid ch)
  with assms show ?thesis
    by (auto simp: sm_update_task_def dget_dupdate_notin touch_def intro!: sm_modify_keeps)
next
  case (Log tid message level)
  with ok show ?thesis by (auto simp: sm_append_log_def touch_def intro!: sm_modify_keeps)
next
  case (Login_as user cl)
  with ok show ?thesis by (simp add: keeps_bookkeeping sm_keeps_refl)
next
  case (History user entry)
  with ok show ?thesis by (simp add: sm_append_history_keeps)
qed

lemma final_act_settles:
  assumes ok: "sm_ok m" and tid: "tid \<in> sign_active (sm_tasks m)" and ch: "final_update ch"
  shows "sm_ok (perform ops clk (Update tid ch) m)
    \<and> sign_active (sm_tasks (perform ops clk (Update tid ch) m)) = sign_active (sm_tasks m) - {tid}
    \<and> fewer_live (\<lambda>d. d) (sm_tasks m) (sm_tasks (perform ops clk (Update tid ch) m))"
proof -
  obtain t where t: "map_of (sm_tasks m) tid = Some t" using tid by (auto elim: live_idsE)
  have "dget (touch clk (dupdate t ch)) ''status'' \<in> {PStr ''completed'', PStr ''error''}"
    using ch by (auto simp: final_update_def touch_def)
  then show ?thesis
    using sm_modify_settles [OF ok t, of "\<lambda>t. touch clk (dupdate t ch)"] by (auto simp: sm_update_task_def)
qed

lemma failed_admission_settles:
  assumes ok: "sm_ok m" and tid: "tid \<in> sign_active (sm_tasks m)"
  shows "sm_ok (sm_record_admission_failure ops clk tid m)
    \<and> sign_active (sm_tasks (sm_record_admission_failure ops clk tid m)) = sign_active (sm_tasks m) - {tid}
    \<and> fewer_live (\<lambda>d. d) (sm_tasks m) (sm_tasks (sm_record_admission_failure ops clk tid m))"
proof -
  obtain t where "map_of (sm_tasks m) tid = Some t" using tid by (auto elim: live_idsE)
  then show ?thesis
    unfolding sm_record_admission_failure_def by (intro sm_modify_settles [OF ok]) simp_all
qed

end

section \<open>Steps\<close>

inductive sm_step ::
  "'s sign_ops \<Rightarrow> dt_text \<Rightarrow> 's sm_state \<times> string set \<Rightarrow> 's sm_state \<times> string set \<Rightarrow> bool"
  for ops :: "'s sign_ops" and dt :: dt_text
where
  sm_cleaned: "sm_step ops dt (m, W) (m\<lparr>sm_tasks := sm_cleanup dt clk (sm_tasks m)\<rparr>, W)"
| sm_loaded: "sm_step ops dt (m, W) (sm_load_task ops clk u tid m, W)"
| sm_loaded_user: "sm_step ops dt (m, W) (sm_load_tasks ops dt clk u m, W)"
| sm_history_loaded: "sm_step ops dt (m, W) (sm_load_history ops u m, W)"
| sm_rejected: "sm_admit dt clk fresh u m = (Inl e, m') \<Longrightarrow> sm_step ops dt (m, W) (m', W)"
| sm_admitted: "sm_admit dt clk fresh u m = (Inr task, m') \<Longrightarrow> map_of (sm_tasks m) fresh = None \<Longrightarrow>
    sm_step ops dt (m, W) (m', insert fresh W)"
| sm_wrote: "known_status (dget task ''status'') \<Longrightarrow>
    sm_step ops dt (m, W) (m\<lparr>sm_store := snd (sm_persist ops task (sm_store m))\<rparr>, W)"
| sm_start_failed: "tid \<in> W \<Longrightarrow> sm_step ops dt (m, W) (sm_record_admission_failure ops clk tid m, W - {tid})"
| sm_acted: "plain_act a \<Longrightarrow> sm_step ops dt (m, W) (perform ops clk a m, W)"
| sm_settled: "tid \<in> W \<Longrightarrow> final_update ch \<Longrightarrow>
    sm_step ops dt (m, W) (perform ops clk (Update tid ch) m, W - {tid})"

text \<open>
  A run: each step is carried out by a store of the given set, whose members differ in what the
  environment does to the call. A restart builds a new manager on the store that is left.
\<close>

inductive sm_reachable ::
  "'s sign_ops set \<Rightarrow> dt_text \<Rightarrow> 's \<Rightarrow> 's sm_state \<times> string set \<Rightarrow> bool"
  for stores :: "'s sign_ops set" and dt :: dt_text and st0 :: 's
where
  sm_booted: "ops \<in> stores \<Longrightarrow> sm_reachable stores dt st0 (new_signin_manager ops dt clk st0, {})"
| sm_stepped: "sm_reachable stores dt st0 x \<Longrightarrow> ops \<in> stores \<Longrightarrow> sm_step ops dt x y \<Longrightarrow> sm_reachable stores dt st0 y"
| sm_restarted: "sm_reachable stores dt st0 (m, W) \<Longrightarrow> ops \<in> stores \<Longrightarrow>
    sm_reachable stores dt st0 (new_signin_manager ops dt clk (sm_store m), {})"

section \<open>Admission\<close>

lemma list_ex_sign_owns:
  "wf_dict ts \<Longrightarrow> list_ex (\<lambda>p. sm_owns_active nu (snd p)) ts \<longleftrightarrow>
    (\<exists>k t. map_of ts k = Some t \<and> is_active_status (dget t ''status'') \<and> py_strip (str_or_empty (dget t ''user_id'')) = nu)"
  using list_ex_live [of ts "sm_owns_active nu" "\<lambda>d. d" nu]
  by (simp add: sm_owns_active_def sign_active_def sign_owner_def)

lemma new_sign_task_fields [simp]:
  "dget (new_sign_task clk fresh u) ''status'' = PStr ''running''"
  "dget (new_sign_task clk fresh u) ''user_id'' = PStr u"
  by (simp_all add: new_sign_task_def dget_def Let_def)

lemma sign_clean_lookup:
  assumes "wf_dict ts" and "is_active_status (dget t ''status'')"
  shows "map_of (sm_cleanup dt clk ts) k = Some t \<longleftrightarrow> map_of ts k = Some t"
  using assms cleaned.cleanup_lookup [OF assms(1)] cleaned.cleanup_lookup_active [OF assms(1), of k t "\<lambda>d. d"]
  unfolding sm_cleanup_def sign_active_def by blast

lemma admitted_signs:
  assumes k: "sign_known (sm_tasks m)" and a: "sm_admit dt clk fresh u m = (Inr task, m')"
    and f: "map_of (sm_tasks m) fresh = None"
  shows "sign_known (sm_tasks m')" "sign_active (sm_tasks m') = insert fresh (sign_active (sm_tasks m))"
    "card (sign_active (sm_tasks m)) < MAX_ACTIVE_TASKS" "fresh \<notin> sign_active (sm_tasks m)"
    "sole_live (\<lambda>d. d) (sm_tasks m) \<Longrightarrow> sole_live (\<lambda>d. d) (sm_tasks m')"
    "sm_store m' = sm_store m" "task = new_sign_task clk fresh u"
proof -
  let ?ts = "sm_cleanup dt clk (sm_tasks m)" and ?t = "new_sign_task clk fresh u"
  note wf = known_registry_wf [OF k]
  have wfc: "wf_dict ?ts" unfolding sm_cleanup_def by (rule cleaned.cleanup_wf [OF wf])
  from a have no: "\<not> list_ex (\<lambda>p. sm_owns_active (py_strip u) (snd p)) ?ts"
    and cap: "count_active_tasks (\<lambda>d. d) ?ts < MAX_ACTIVE_TASKS"
    and m': "m' = m\<lparr>sm_tasks := sm_cleanup dt clk (dset fresh ?t ?ts)\<rparr>" and t: "task = ?t"
    by (auto simp: sm_admit_def Let_def split: if_splits)
  have owner: "\<not> (\<exists>k v. map_of (sm_tasks m) k = Some v \<and> task_active (\<lambda>d. d) v \<and> owner_name (\<lambda>d. d) v = owner_name (\<lambda>d. d) ?t)"
  proof -
    have "str_or_empty (PStr u) = u" by (simp add: str_or_empty_def)
    with no show ?thesis
      unfolding list_ex_sign_owns [OF wfc] sign_active_def sign_owner_def new_sign_task_fields
      using sign_clean_lookup [OF wf] by metis
  qed
  have st: "known_status (dget ?t ''status'')" "task_active (\<lambda>d. d) ?t" by (simp_all add: sign_active_def)
  note reg = admitted_live [OF k f st owner, of "sm_tasks m'" dt "clk_time clk" TASK_RECORD_TTL_SECONDS MAX_TASK_RECORDS]
  have e: "sm_tasks m' = cleanup_task_records dt (\<lambda>d. d) (clk_time clk) TASK_RECORD_TTL_SECONDS MAX_TASK_RECORDS
      (dset fresh ?t (cleanup_task_records dt (\<lambda>d. d) (clk_time clk) TASK_RECORD_TTL_SECONDS MAX_TASK_RECORDS (sm_tasks m)))"
    by (simp add: m' sm_cleanup_def)
  show "sign_known (sm_tasks m')" "sign_active (sm_tasks m') = insert fresh (sign_active (sm_tasks m))"
    "fresh \<notin> sign_active (sm_tasks m)" "sole_live (\<lambda>d. d) (sm_tasks m) \<Longrightarrow> sole_live (\<lambda>d. d) (sm_tasks m')"
    using reg [OF e] by blast+
  have "same_live (\<lambda>d. d) (sm_tasks m) ?ts" unfolding sm_cleanup_def by (rule clean_same_live [OF wf])
  then show "card (sign_active (sm_tasks m)) < MAX_ACTIVE_TASKS"
    using cap by (simp add: count_live_card [OF wfc] same_live_def)
  show "sm_store m' = sm_store m" "task = ?t" using m' t by simp_all
qed

section \<open>The invariant\<close>

context signin_store
begin

definition sign_service_ok :: "'s sm_state \<times> string set \<Rightarrow> bool" where
  "sign_service_ok x \<longleftrightarrow> sm_ok (fst x) \<and> sign_active (sm_tasks (fst x)) = snd x
     \<and> sole_live (\<lambda>d. d) (sm_tasks (fst x)) \<and> card (snd x) \<le> MAX_ACTIVE_TASKS"

lemma sign_service_keeps: "sign_service_ok (m, W) \<Longrightarrow> sm_keeps m m' \<Longrightarrow> sign_service_ok (m', W)"
  using sole_live_fewer [OF same_fewer_live] by (auto simp: sign_service_ok_def sm_keeps_def same_live_def)

lemma sign_service_settles:
  assumes "sign_service_ok (m, W)"
    and "sm_ok m' \<and> sign_active (sm_tasks m') = sign_active (sm_tasks m) - {tid} \<and> fewer_live (\<lambda>d. d) (sm_tasks m) (sm_tasks m')"
  shows "sign_service_ok (m', W - {tid})"
proof -
  have "finite W" using assms(1) finite_live_ids unfolding sign_service_ok_def by (metis snd_conv)
  then have "card (W - {tid}) \<le> card W" by (simp add: card_mono)
  with assms show ?thesis by (auto simp: sign_service_ok_def intro: sole_live_fewer)
qed

lemma sign_service_admits:
  assumes "sign_service_ok (m, W)" and a: "sm_admit dt clk fresh u m = (Inr task, m')"
    and f: "map_of (sm_tasks m) fresh = None"
  shows "sign_service_ok (m', insert fresh W)"
proof -
  have "sign_known (sm_tasks m)" using assms(1) by (simp add: sign_service_ok_def sm_ok_def)
  from admitted_signs [OF this a f] assms(1) show ?thesis
    by (auto simp: sign_service_ok_def sm_ok_def card_insert_if)
qed

lemma sm_rejected_keeps: "sm_ok m \<Longrightarrow> sm_admit dt clk fresh u m = (Inl e, m') \<Longrightarrow> sm_keeps m m'"
  using clean_keeps [of m dt clk] by (auto simp: sm_admit_def Let_def split: if_splits)

lemma sm_wrote_keeps:
  "sm_ok m \<Longrightarrow> known_status (dget t ''status'') \<Longrightarrow> sm_keeps m (m\<lparr>sm_store := snd (sm_persist ops t (sm_store m))\<rparr>)"
  by (rule store_keeps) (simp_all add: persist_keeps sm_ok_def)

lemma sign_step_ok:
  assumes "sm_step ops dt x y" and "sign_service_ok x" shows "sign_service_ok y"
proof -
  obtain m W where x: "x = (m, W)" by fastforce
  have inv: "sign_service_ok (m, W)" using assms(2) x by simp
  then have ok: "sm_ok m" and ids: "sign_active (sm_tasks m) = W" by (auto simp: sign_service_ok_def)
  from assms(1) have "sm_step ops dt (m, W) y" by (simp only: x)
  then show ?thesis
  proof (cases rule: sm_step.cases)
    case (sm_admitted clk fresh u task m')
    from sign_service_admits [OF inv sm_admitted(2,3)] show ?thesis by (simp only: sm_admitted(1))
  next
    case (sm_start_failed tid clk)
    from sign_service_settles [OF inv failed_admission_settles [OF ok]] sm_start_failed ids show ?thesis by blast
  next
    case (sm_settled tid ch clk)
    from sign_service_settles [OF inv final_act_settles [OF ok]] sm_settled ids show ?thesis by blast
  qed (simp_all only: sign_service_keeps [OF inv clean_keeps [OF ok]] sign_service_keeps [OF inv sm_load_task_keeps [OF ok]]
      sign_service_keeps [OF inv sm_load_tasks_keeps [OF ok]] sign_service_keeps [OF inv sm_load_history_keeps [OF ok]]
      sign_service_keeps [OF inv sm_rejected_keeps [OF ok]] sign_service_keeps [OF inv sm_wrote_keeps [OF ok]]
      sign_service_keeps [OF inv plain_act_keeps [OF ok]])
qed

lemma new_sign_service_ok:
  assumes "sinv st" shows "sign_service_ok (new_signin_manager ops dt clk st, {})"
proof -
  let ?m = "\<lparr>sm_clients = [], sm_history = [], sm_tasks = [], sm_loaded_tasks = [], sm_loaded_history = [], sm_store = st\<rparr>"
  have ok: "sm_ok ?m" using assms by (simp add: sm_ok_def known_registry_def)
  obtain r st' where l: "so_list (sg_tasks ops) SIGNIN_TASK_KIND None 300 (sm_store ?m) = (r, st')" by fastforce
  note k = sm_merge_all_keeps [OF ok l, of clk]
  from sm_keeps_trans [OF k clean_keeps [OF sm_keeps_ok [OF k]], of dt clk] l
  have r: "sm_keeps ?m (sm_restore_tasks ops dt clk ?m)" by (simp add: sm_restore_tasks_def Let_def)
  let ?m1 = "sm_restore_tasks ops dt clk ?m"
  have "sinv (sm_store ?m1)" using sm_keeps_ok [OF r] by (simp add: sm_ok_def)
  then have "sm_keeps ?m1 (sm_restore_history ops ?m1)"
    using sm_keeps_ok [OF r] history_keeps [of "sm_store ?m1" None 1500]
    by (auto simp: sm_restore_history_def Let_def sm_keeps_def sm_ok_def split: prod.splits)
  from sm_keeps_trans [OF r this] have "sm_keeps ?m (new_signin_manager ops dt clk st)"
    by (simp add: new_signin_manager_def)
  then show ?thesis
    by (auto simp: sign_service_ok_def sm_keeps_def same_live_def live_ids_def sole_live_def)
qed

end

lemma sm_reachable_ok:
  assumes stores: "\<And>ops. ops \<in> stores \<Longrightarrow> signin_store ops sinv"
    and "sm_reachable stores dt st0 x" and "sinv st0"
  shows "signin_store.sign_service_ok sinv x"
  using assms(2)
proof induction
  case (sm_booted ops clk)
  show ?case by (rule signin_store.new_sign_service_ok [OF stores [OF sm_booted] assms(3)])
next
  case (sm_stepped x ops y)
  show ?case by (rule signin_store.sign_step_ok [OF stores [OF sm_stepped(2)] sm_stepped(3,4)])
next
  case (sm_restarted m W ops clk)
  note st = stores [OF sm_restarted(2)]
  have "sinv (sm_store m)"
    using sm_restarted(3) by (simp add: signin_store.sign_service_ok_def [OF st] signin_store.sm_ok_def [OF st])
  then show ?case by (rule signin_store.new_sign_service_ok [OF st])
qed

end
