(* ===== verification/Signin_Service.thy ===== *)
theory Signin_Service
  imports Signin_Registry Learning_Service
begin

text \<open>
  The sign-in manager on the task store: the facade of \<open>task_store.py\<close> over the SQLite adapter
  provides the interface \<open>signin_store\<close>, so the registry invariant holds of the service as it is
  deployed. The properties of admission are stated over it.
\<close>

section \<open>The facade as the manager's store\<close>

definition sqlite_sign_ops :: "dt_text \<Rightarrow> fernet_lib \<Rightarrow> sqlite_env \<Rightarrow> sqlite_store sign_ops" where
  "sqlite_sign_ops dt lib e =
     \<lparr>sg_tasks = sqlite_facade dt lib e,
      sg_append = ts_append_history (sqlite_append_history dt (env_init e) (env_io e) (env_now e)) lib (env_cipher e) (env_rnd e),
      sg_history = ts_list_history (sqlite_list_history dt (env_init e) (env_io e)) lib (env_cipher e)\<rparr>"

definition sqlite_signin_inv :: "sqlite_store \<Rightarrow> bool" where
  "sqlite_signin_inv s \<longleftrightarrow> sqlite_inv s \<and> known_rows SIGNIN_TASK_KIND sqlite_stored s"

lemma append_task_rows:
  "sqlite_inv s \<Longrightarrow> task_rows (snd (sqlite_append_history dt io_init io now kind user v mx s)) = task_rows s"
  by (cases rule: sqlite_append_cases [where dt = dt and ?io_init = io_init and io = io and now = now
        and kind = kind and user = user and v = v and mx = mx and s = s]) auto

lemma list_history_task_rows:
  "task_rows (snd (sqlite_list_history dt io_init io kind user limit s)) = task_rows s"
  using sqlite_ensure_rows(1) [of io_init s]
  by (cases "sqlite_ensure_tables io_init s") (simp add: sqlite_list_history_def split: bool.splits)

interpretation signs_on_sqlite: signin_store "sqlite_sign_ops dt lib e" sqlite_signin_inv for dt lib e
proof -
  have "status_store SIGNIN_TASK_KIND (sqlite_facade dt lib e) sqlite_signin_inv"
    using sqlite.facade_status_store [of SIGNIN_TASK_KIND dt "env_init e" "env_io e" "env_now e" "env_init e" "env_io e"
        "env_init e" "env_io e" lib "env_cipher e" "env_rnd e"]
    by (simp add: sqlite_facade_def sqlite_signin_inv_def [abs_def] SIGNIN_TASK_KIND_def)
  moreover have "signin_store_axioms (sqlite_sign_ops dt lib e) sqlite_signin_inv"
    by unfold_locales
       (auto simp: sqlite_sign_ops_def sqlite_signin_inv_def known_rows_def sqlite_stored_def ts_append_history_def
          ts_list_history_def append_task_rows list_history_task_rows sqlite_append_inv sqlite_list_history_inv)
  ultimately show "signin_store (sqlite_sign_ops dt lib e) sqlite_signin_inv"
    unfolding signin_store_def by (simp add: sqlite_sign_ops_def)
qed

text \<open>A run of the service on SQLite, whatever the environment does\<close>

definition signin_reachable ::
  "dt_text \<Rightarrow> fernet_lib \<Rightarrow> sqlite_store \<Rightarrow> sqlite_store sm_state \<times> string set \<Rightarrow> bool" where
  "signin_reachable dt lib st0 x = sm_reachable (range (sqlite_sign_ops dt lib)) dt st0 x"

lemma signin_invariant:
  assumes "signin_reachable dt lib st0 (m, W)" and "sqlite_signin_inv st0"
  shows "sign_known (sm_tasks m)" "sqlite_signin_inv (sm_store m)" "sign_active (sm_tasks m) = W"
    "sole_live (\<lambda>d. d) (sm_tasks m)" "card W \<le> MAX_ACTIVE_TASKS"
proof -
  have ls: "signin_store ops sqlite_signin_inv" if "ops \<in> range (sqlite_sign_ops dt lib)" for ops
    using that signs_on_sqlite.signin_store_axioms by auto
  have "signs_on_sqlite.sign_service_ok (m, W)"
    by (rule sm_reachable_ok [OF ls assms(1) [unfolded signin_reachable_def] assms(2)])
  then show "sign_known (sm_tasks m)" "sqlite_signin_inv (sm_store m)" "sign_active (sm_tasks m) = W"
    "sole_live (\<lambda>d. d) (sm_tasks m)" "card W \<le> MAX_ACTIVE_TASKS"
    by (simp_all add: signs_on_sqlite.sign_service_ok_def signs_on_sqlite.sm_ok_def)
qed

lemma signin_reachable_step:
  "signin_reachable dt lib st0 x \<Longrightarrow> sm_step (sqlite_sign_ops dt lib e) dt x y \<Longrightarrow> signin_reachable dt lib st0 y"
  unfolding signin_reachable_def by (rule sm_stepped) auto

text \<open>A start of a task is a run: admission, the write, and, where it fails, the final status.\<close>

lemma start_sign_task_reachable:
  assumes r: "signin_reachable dt lib st0 (m, W)"
    and s: "sm_start_task (sqlite_sign_ops dt lib e) dt clk thr fresh u m = (res, m')"
    and f: "map_of (sm_tasks m) fresh = None" "fresh \<notin> W"
  shows "signin_reachable dt lib st0 (m', case res of Inl _ \<Rightarrow> W | Inr tid \<Rightarrow> insert tid W)"
proof -
  let ?ops = "sqlite_sign_ops dt lib e"
  obtain adm m1 where a: "sm_admit dt clk fresh u m = (adm, m1)" by fastforce
  show ?thesis
  proof (cases adm)
    case (Inl err)
    from signin_reachable_step [OF r sm_rejected] a Inl s show ?thesis by (auto simp: sm_start_task_def)
  next
    case (Inr task)
    have task: "task = new_sign_task clk fresh u"
      using a Inr by (auto simp: sm_admit_def Let_def split: if_splits)
    let ?m2 = "m1\<lparr>sm_store := snd (sm_persist ?ops task (sm_store m1))\<rparr>"
    note r1 = signin_reachable_step [OF r sm_admitted [OF a [unfolded Inr] f(1)]]
    have r2: "signin_reachable dt lib st0 (?m2, insert fresh W)"
      by (rule signin_reachable_step [OF r1 sm_wrote]) (simp add: task)
    have W: "insert fresh W - {fresh} = W" using f(2) by blast
    have failed: "signin_reachable dt lib st0 (sm_record_admission_failure ?ops clk fresh ?m2, W)"
      using signin_reachable_step [OF r2 sm_start_failed [of fresh]] W by simp
    have crashed: "signin_reachable dt lib st0 (sm_append_log ?ops clk fresh msg ''error''
        (sm_update_task ?ops clk fresh [(''status'', PStr ''error''), (''message'', msg)] ?m2), W)" for msg
    proof -
      have "final_update [(''status'', PStr ''error''), (''message'', msg)]" by (auto simp: final_update_def)
      from signin_reachable_step [OF r2 sm_settled [OF _ this, of fresh]] W
      have "signin_reachable dt lib st0 (perform ?ops clk (Update fresh [(''status'', PStr ''error''), (''message'', msg)]) ?m2, W)"
        by simp
      from signin_reachable_step [OF this sm_acted [of "Log fresh msg ''error''"]] show ?thesis by simp
    qed
    show ?thesis
      using a Inr s r2 failed crashed
      by (auto simp: sm_start_task_def Let_def split: prod.splits if_splits option.splits)
  qed
qed

section \<open>A small closed instance\<close>

definition calm_sign_ops :: "sqlite_store sign_ops" where
  "calm_sign_ops = sqlite_sign_ops one_instant unary_fernet calm"

definition fresh_signin :: "sqlite_store sm_state" where
  "fresh_signin = new_signin_manager calm_sign_ops one_instant run_clock new_sqlite_store"

definition signing_manager :: "sqlite_store sm_state" where
  "signing_manager = snd (sm_start_task calm_sign_ops one_instant run_clock None ''s1'' ''7'' fresh_signin)"

lemma new_sign_store_inv: "sqlite_signin_inv new_sqlite_store"
  using new_sqlite_inv
  by (simp add: sqlite_signin_inv_def known_rows_def sqlite_stored_def new_sqlite_store_def table_map_def)

lemma signing_start:
  "sm_start_task calm_sign_ops one_instant run_clock None ''s1'' ''7'' fresh_signin = (Inr ''s1'', signing_manager)"
proof -
  have "fst (sm_start_task calm_sign_ops one_instant run_clock None ''s1'' ''7'' fresh_signin) = Inr ''s1''" by code_simp
  then show ?thesis by (simp add: signing_manager_def prod_eq_iff)
qed

lemma signing_reachable: "signin_reachable one_instant unary_fernet new_sqlite_store (signing_manager, {''s1''})"
proof -
  have "signin_reachable one_instant unary_fernet new_sqlite_store (fresh_signin, {})"
    unfolding signin_reachable_def fresh_signin_def calm_sign_ops_def by (rule sm_booted) simp
  moreover have "map_of (sm_tasks fresh_signin) ''s1'' = None" by code_simp
  ultimately show ?thesis
    using start_sign_task_reachable [OF _ signing_start [unfolded calm_sign_ops_def]] by fastforce
qed

section \<open>Properties\<close>

text \<open>C6: In every state the sign-in service can reach, over any sequence of requests, worker acts, store failures and restarts, the active tasks are exactly those with a worker, no user has two of them, and there are at most 64.\<close>

theorem signin_admission_invariant:
  assumes "signin_reachable dt lib st0 (m, W)" and "sqlite_signin_inv st0"
  shows "sign_active (sm_tasks m) = W \<and> sole_live (\<lambda>d. d) (sm_tasks m)
    \<and> count_active_tasks (\<lambda>d. d) (sm_tasks m) \<le> MAX_ACTIVE_TASKS"
  using signin_invariant [OF assms] by (simp add: count_live_card known_registry_wf)

theorem signin_admission_invariant_witness:
  "sign_active (sm_tasks signing_manager) = {''s1''} \<and> count_active_tasks (\<lambda>d. d) (sm_tasks signing_manager) \<le> MAX_ACTIVE_TASKS"
  using signin_admission_invariant [OF signing_reachable new_sign_store_inv] by blast

text \<open>Starting a sign-in task with a fresh id is refused as already active exactly when the user has an active task, for capacity exactly when not and 64 tasks are active; otherwise it succeeds, or reports a failed write or a failed thread start, and only success leaves the new task active.\<close>

theorem start_sign_task_admission:
  assumes r: "signin_reachable dt lib st0 (m, W)" and inv: "sqlite_signin_inv st0"
    and s: "sm_start_task (sqlite_sign_ops dt lib e) dt clk thr fresh u m = (res, m')"
    and f: "map_of (sm_tasks m) fresh = None"
  shows "(res = Inl (Sign_rejected TaskAlreadyActiveError) \<longleftrightarrow>
            (\<exists>k t. map_of (sm_tasks m) k = Some t \<and> is_active_status (dget t ''status'')
                  \<and> py_strip (str_or_empty (dget t ''user_id'')) = py_strip u))
    \<and> (res = Inl (Sign_rejected TaskCapacityError) \<longleftrightarrow>
          \<not> (\<exists>k t. map_of (sm_tasks m) k = Some t \<and> is_active_status (dget t ''status'')
                  \<and> py_strip (str_or_empty (dget t ''user_id'')) = py_strip u)
          \<and> card W = MAX_ACTIVE_TASKS)
    \<and> sign_active (sm_tasks m') = (case res of Inl _ \<Rightarrow> W | Inr tid \<Rightarrow> insert fresh W)"
proof -
  let ?ts = "sm_cleanup dt clk (sm_tasks m)"
  note i = signin_invariant [OF r inv]
  note wf = known_registry_wf [OF i(1)]
  have wfc: "wf_dict ?ts" unfolding sm_cleanup_def by (rule cleaned.cleanup_wf [OF wf])
  have W: "fresh \<notin> W" using i(3) f by (auto simp: live_ids_def)
  have lists: "list_ex (\<lambda>p. sm_owns_active (py_strip u) (snd p)) ?ts \<longleftrightarrow>
      (\<exists>k t. map_of (sm_tasks m) k = Some t \<and> is_active_status (dget t ''status'')
         \<and> py_strip (str_or_empty (dget t ''user_id'')) = py_strip u)"
    unfolding list_ex_sign_owns [OF wfc] using sign_clean_lookup [OF wf] by metis
  have "same_live (\<lambda>d. d) (sm_tasks m) ?ts" unfolding sm_cleanup_def by (rule clean_same_live [OF wf])
  then have count: "count_active_tasks (\<lambda>d. d) ?ts = card W"
    using i(3) by (simp add: count_live_card [OF wfc] same_live_def)
  from signin_invariant(3) [OF start_sign_task_reachable [OF r s f W] inv]
  have "sign_active (sm_tasks m') = (case res of Inl _ \<Rightarrow> W | Inr tid \<Rightarrow> insert tid W)" .
  moreover have "res = Inr tid \<Longrightarrow> tid = fresh" for tid
    using s by (auto simp: sm_start_task_def Let_def split: prod.splits sum.splits if_splits option.splits)
  moreover have "res = Inl (Sign_rejected TaskAlreadyActiveError) \<longleftrightarrow> list_ex (\<lambda>p. sm_owns_active (py_strip u) (snd p)) ?ts"
    and "res = Inl (Sign_rejected TaskCapacityError) \<longleftrightarrow>
      \<not> list_ex (\<lambda>p. sm_owns_active (py_strip u) (snd p)) ?ts \<and> MAX_ACTIVE_TASKS \<le> card W"
    using s by (auto simp: sm_start_task_def sm_admit_def count Let_def split: prod.splits if_splits option.splits)
  ultimately show ?thesis using lists i(5) by (auto split: sum.splits)
qed

theorem start_sign_task_admission_witness:
  "fst (sm_start_task calm_sign_ops one_instant run_clock None ''s2'' '' 7 '' signing_manager)
     = Inl (Sign_rejected TaskAlreadyActiveError)
   \<and> (\<exists>k t. map_of (sm_tasks signing_manager) k = Some t \<and> is_active_status (dget t ''status''))"
proof -
  obtain m' where s: "sm_start_task calm_sign_ops one_instant run_clock None ''s2'' '' 7 '' signing_manager
      = (Inl (Sign_rejected TaskAlreadyActiveError), m')"
  proof -
    have "fst (sm_start_task calm_sign_ops one_instant run_clock None ''s2'' '' 7 '' signing_manager)
      = Inl (Sign_rejected TaskAlreadyActiveError)" by code_simp
    then show thesis by (intro that) (simp add: prod_eq_iff)
  qed
  have f: "map_of (sm_tasks signing_manager) ''s2'' = None" by code_simp
  from start_sign_task_admission [OF signing_reachable new_sign_store_inv s [unfolded calm_sign_ops_def] f] s
  show ?thesis by auto
qed

end
