(* ===== verification/Http_Gate.thy ===== *)
theory Http_Gate
  imports Db_Session Py_Urlsplit
begin

text \<open>
  What every request passes before it reaches a route: the middleware of \<open>main.py\<close> in the order in
  which it is wrapped (CORS, host check, security headers, HTTPS redirect, metrics, tenant
  isolation, exception handlers), with \<open>middleware/allowed_hosts.py\<close>,
  \<open>middleware/tenant_isolation.py\<close>, the counters of \<open>api/v1/metrics.py\<close>, the settings
  \<open>config.py\<close> reads for them and the user-id dependency of \<open>dependencies.py\<close>.

  The framework is a parameter (\<open>web_lib\<close>): the CORS middleware, which answers a request itself or
  decorates the response, the JSON writer, the URL of the redirect, and decoding a token, which
  returns its claims or raises. A request carries the scheme and the path of \<open>request.url\<close> and,
  separately, the target the router reads; header names are lower case, as the server delivers
  them. A route is a function of the identity the tenant gate sets, the request and a state; it
  reports the template that matched. The Chinese part of the host message is replaced.
\<close>

section \<open>Requests and responses\<close>

datatype scope_type = Http_scope | Websocket_scope | Other_scope

record web_request =
  rq_type :: scope_type
  rq_scheme :: string
  rq_path :: string
  rq_target :: string
  rq_headers :: "(string \<times> string) list"

record web_response =
  rs_status :: int
  rs_headers :: "(string \<times> string) list"
  rs_body :: pyval

datatype failure =
    App_exception string string int
  | Http_exception int string
  | Uncaught string

type_synonym identity = "pyval \<times> pyval"

type_synonym 'w route = "identity option \<Rightarrow> web_request \<Rightarrow> 'w \<Rightarrow> (string option \<times> (failure + web_response)) \<times> 'w"

record web_lib =
  cors :: "web_request \<Rightarrow> web_response + (web_response \<Rightarrow> web_response)"
  json_dumps :: "pyval \<Rightarrow> string"
  https_url :: "web_request \<Rightarrow> string"
  decode_token :: "string \<Rightarrow> pydict option"

record app_conf =
  local_build :: bool
  serves_spa :: bool
  enforce_https :: bool
  env_name :: string
  cors_origins :: "string list"
  allowed_hosts_csv :: string
  metrics_token :: "string option"

definition header :: "web_request \<Rightarrow> string \<Rightarrow> string option" where
  "header rq name = map_of (rq_headers rq) name"

definition json_response :: "int \<Rightarrow> pydict \<Rightarrow> web_response" where
  "json_response status body =
     \<lparr>rs_status = status, rs_headers = [(''content-type'', ''application/json'')], rs_body = PDict body\<rparr>"

definition detail :: "string \<Rightarrow> pydict" where
  "detail message = [(''detail'', PStr message)]"

text \<open>\<open>s.split()\<close>: the words between white space\<close>

fun space_fields :: "string \<Rightarrow> string list" where
  "space_fields [] = [[]]"
| "space_fields (c # cs) =
     (if py_isspace c then [] # space_fields cs
      else (case space_fields cs of [] \<Rightarrow> [[c]] | w # ws \<Rightarrow> (c # w) # ws))"

definition py_split :: "string \<Rightarrow> string list" where
  "py_split s = filter (\<lambda>w. w \<noteq> []) (space_fields s)"

section \<open>Settings\<close>

definition split_csv :: "string option \<Rightarrow> string list" where
  "split_csv value =
     filter (\<lambda>item. item \<noteq> []) (map py_strip (split_on (CHR '','') (case value of None \<Rightarrow> [] | Some s \<Rightarrow> s)))"

datatype startup_error = Cors_any_origin | Cors_plain_http "string list" | Any_host_allowed

definition validate_runtime_settings :: "app_conf \<Rightarrow> startup_error option" where
  "validate_runtime_settings conf =
     (if env_name conf \<noteq> ''production'' then None
      else if ''*'' \<in> set (cors_origins conf) then Some Cors_any_origin
      else (let bad = filter (\<lambda>orig. starts_with orig ''http://'' \<and> \<not> contains orig ''localhost'') (cors_origins conf)
            in if bad \<noteq> [] then Some (Cors_plain_http bad)
               else if ''*'' \<in> set (split_csv (Some (allowed_hosts_csv conf))) then Some Any_host_allowed
               else None))"

section \<open>Allowed hosts\<close>

text \<open>The host of one origin; \<open>None\<close> is the \<open>ValueError\<close> of \<open>urlparse\<close>\<close>

definition origin_host :: "string \<Rightarrow> string list option" where
  "origin_host origin =
     (let value = py_strip origin
      in if value = [] then Some []
         else (case urlsplit (if contains value ''://'' then value else ''http://'' @ value) of
                 None \<Rightarrow> None
               | Some u \<Rightarrow> Some (case url_hostname u of None \<Rightarrow> [] | Some h \<Rightarrow> [h])))"

fun origin_hosts :: "string list \<Rightarrow> string list option" where
  "origin_hosts [] = Some []"
| "origin_hosts (origin # origins) =
     (case origin_host origin of
        None \<Rightarrow> None
      | Some h \<Rightarrow> map_option (append h) (origin_hosts origins))"

definition build_allowed_hosts :: "string list \<Rightarrow> string list \<Rightarrow> string list option" where
  "build_allowed_hosts origins extra =
     map_option (\<lambda>hosts. sort (remdups ([''localhost'', ''127.0.0.1''] @ extra @ hosts))) (origin_hosts origins)"

definition matches_host_pattern :: "string \<Rightarrow> string \<Rightarrow> bool" where
  "matches_host_pattern host pattern =
     (host = pattern \<or> (starts_with pattern ''*'' \<and> ends_with host (drop 1 pattern)))"

definition is_allowed :: "string list \<Rightarrow> string \<Rightarrow> bool" where
  "is_allowed allowed host = (''*'' \<in> set allowed \<or> list_ex (matches_host_pattern host) allowed)"

definition max_logged_hosts :: nat where "max_logged_hosts = 100"

definition request_host :: "web_request \<Rightarrow> string" where
  "request_host rq =
     hd (split_on (CHR '':'') (case header rq ''host'' of None \<Rightarrow> [] | Some h \<Rightarrow> h))"

definition invalid_host_message :: "string \<Rightarrow> string" where
  "invalid_host_message host =
     ''Invalid host header: '' @ (if host = [] then ''(empty)'' else host) @ '': add it to ALLOWED_HOSTS''"

datatype host_verdict = Pass_on | Close_socket nat | Reply web_response

definition invalid_host_response :: "web_lib \<Rightarrow> string \<Rightarrow> web_response" where
  "invalid_host_response lib host =
     (let body = PDict [(''code'', PStr ''InvalidHost''), (''message'', PStr (invalid_host_message host))]
      in \<lparr>rs_status = 400,
          rs_headers = [(''content-type'', ''application/json; charset=utf-8''),
                        (''content-length'', nat_str (length (utf8 (json_dumps lib body))))],
          rs_body = body\<rparr>)"

text \<open>\<open>AllowedHostsMiddleware.__call__\<close>: what it does with the request, and the hosts it has logged\<close>

definition allowed_hosts_call ::
    "web_lib \<Rightarrow> string list \<Rightarrow> web_request \<Rightarrow> string list \<Rightarrow> host_verdict \<times> string list" where
  "allowed_hosts_call lib allowed rq logged =
     (if rq_type rq \<notin> {Http_scope, Websocket_scope} \<or> ''*'' \<in> set allowed then (Pass_on, logged)
      else (let host = request_host rq
            in if is_allowed allowed host then (Pass_on, logged)
               else (let logged = (if host \<notin> set logged \<and> length logged < max_logged_hosts
                                   then List.insert host logged else logged)
                     in if rq_type rq = Websocket_scope then (Close_socket 1008, logged)
                        else (Reply (invalid_host_response lib host), logged))))"

section \<open>Metrics\<close>

type_synonym request_counter = "((string \<times> string) \<times> nat) list"

definition MAX_KEYS :: nat where "MAX_KEYS = 2000"
definition UNMATCHED_KEY :: string where "UNMATCHED_KEY = ''_other_''"

definition status_bucket :: "int \<Rightarrow> string" where
  "status_bucket status_code =
     (if status_code \<ge> 500 then ''5xx'' else if status_code \<ge> 400 then ''4xx''
      else if status_code \<ge> 300 then ''3xx'' else ''2xx'')"

definition count_of :: "request_counter \<Rightarrow> string \<times> string \<Rightarrow> nat" where
  "count_of counter key = (case map_of counter key of None \<Rightarrow> 0 | Some n \<Rightarrow> n)"

definition record_request :: "string \<Rightarrow> int \<Rightarrow> request_counter \<Rightarrow> request_counter" where
  "record_request template status_code counter =
     (let key = (if template = [] then UNMATCHED_KEY else template, status_bucket status_code)
      in if map_of counter key \<noteq> None then AList.update key (count_of counter key + 1) counter
         else if length counter < MAX_KEYS then AList.update key 1 counter
         else (let overflow = (UNMATCHED_KEY, snd key)
               in AList.update overflow (count_of counter overflow + 1) counter))"

text \<open>\<open>_escape_label\<close>: the three replacements, one after the other\<close>

definition backslash :: char where "backslash = char_of (92 :: nat)"
definition dquote :: char where "dquote = char_of (34 :: nat)"
definition newline :: char where "newline = char_of (10 :: nat)"

definition escape_label :: "string \<Rightarrow> string" where
  "escape_label value =
     replace_char newline [] (replace_char dquote [backslash, dquote] (replace_char backslash [backslash, backslash] value))"

definition metric_line :: "(string \<times> string) \<times> nat \<Rightarrow> string" where
  "metric_line item =
     (case item of ((template, bucket), n) \<Rightarrow>
        ''uh_requests_total{route='' @ [dquote] @ escape_label template @ [dquote] @ '',status='' @ [dquote]
          @ bucket @ [dquote] @ ''} '' @ nat_str n)"

definition render_metrics :: "string \<Rightarrow> request_counter \<Rightarrow> string" where
  "render_metrics uptime counter =
     join_with [newline]
       ([''# HELP uh_process_uptime_seconds Seconds since process start'',
         ''# TYPE uh_process_uptime_seconds gauge'',
         ''uh_process_uptime_seconds '' @ uptime,
         ''# HELP uh_requests_total HTTP requests grouped by route template and status bucket'',
         ''# TYPE uh_requests_total counter'']
        @ map metric_line counter) @ [newline]"

definition is_ascii :: "string \<Rightarrow> bool" where
  "is_ascii s = list_all (\<lambda>c. (of_char c :: nat) < 128) s"

text \<open>
  The guard of \<open>/metrics\<close>: \<open>hmac.compare_digest\<close> raises \<open>TypeError\<close> for a text that is not ASCII.
\<close>

definition require_metrics_auth :: "app_conf \<Rightarrow> web_request \<Rightarrow> failure option" where
  "require_metrics_auth conf rq =
     (case metrics_token conf of
        None \<Rightarrow> None
      | Some expected \<Rightarrow>
          if expected = [] then None
          else (let auth_header = (case header rq ''authorization'' of None \<Rightarrow> [] | Some h \<Rightarrow> h);
                    parts = py_split (py_strip auth_header);
                    presented = (if length parts = 2 \<and> py_lower (parts ! 0) = ''bearer'' then parts ! 1 else [])
                in if presented = [] then Some (Http_exception 401 ''Unauthorized'')
                   else if \<not> (is_ascii presented \<and> is_ascii expected) then Some (Uncaught ''TypeError'')
                   else if presented \<noteq> expected then Some (Http_exception 401 ''Unauthorized'')
                   else None))"

definition metrics_route :: "app_conf \<Rightarrow> string \<Rightarrow> web_request \<Rightarrow> request_counter \<Rightarrow> failure + web_response" where
  "metrics_route conf uptime rq counter =
     (case require_metrics_auth conf rq of
        Some e \<Rightarrow> Inl e
      | None \<Rightarrow> Inr \<lparr>rs_status = 200, rs_headers = [(''content-type'', ''text/plain; version=0.0.4'')],
                    rs_body = PStr (render_metrics uptime counter)\<rparr>)"

section \<open>The tenant gate\<close>

definition PUBLIC_ROUTES :: "string list" where
  "PUBLIC_ROUTES =
     [''/api/v1/auth/register'', ''/api/v1/auth/login'', ''/api/v1/runtime'',
      ''/api/v1/chaoxing/location/geocode'', ''/api/v1/chaoxing/location/search'',
      ''/api/v1/chaoxing/location/reverse-geocode'', ''/docs'', ''/openapi.json'', ''/'', ''/health'']"

text \<open>\<open>path.rstrip("/") or "/"\<close>\<close>

definition trim_slashes :: "string \<Rightarrow> string" where
  "trim_slashes path =
     (let p = rev (dropWhile (\<lambda>c. c = CHR ''/'') (rev path)) in if p = [] then ''/'' else p)"

definition public_paths :: "string list" where
  "public_paths = map trim_slashes PUBLIC_ROUTES @ [''/metrics'']"

definition public_prefixes :: "string list" where
  "public_prefixes = [''/docs'', ''/redoc'']"

definition is_public_path :: "string \<Rightarrow> bool" where
  "is_public_path path =
     (let p = trim_slashes path in p \<in> set public_paths \<or> list_ex (starts_with p) public_prefixes)"

definition is_valid_tenant_db_name :: "pyval \<Rightarrow> bool" where
  "is_valid_tenant_db_name name = (case name of PStr s \<Rightarrow> matches_name ''tenant_'' s | _ \<Rightarrow> False)"

text \<open>The identity a request presents, or the text of the 401\<close>

definition presented_identity :: "web_lib \<Rightarrow> web_request \<Rightarrow> string + identity" where
  "presented_identity lib rq =
     (case header rq ''authorization'' of
        None \<Rightarrow> Inl ''Missing token''
      | Some auth_header \<Rightarrow>
          if auth_header = [] then Inl ''Missing token''
          else (let parts = py_split (py_strip auth_header)
                in if length parts \<noteq> 2 \<or> py_lower (parts ! 0) \<noteq> ''bearer''
                   then Inl ''Invalid authorization header format''
                   else (let token = py_strip (parts ! 1)
                         in if token = [] then Inl ''Missing token''
                            else (case decode_token lib token of
                                    None \<Rightarrow> Inl ''Invalid token''
                                  | Some payload \<Rightarrow>
                                      (let tenant = dget payload ''tenant_db_name''; user = dget payload ''user_id''
                                       in if \<not> truthy tenant \<or> \<not> truthy user then Inl ''Invalid token payload''
                                          else if \<not> is_valid_tenant_db_name tenant then Inl ''Invalid token payload''
                                          else Inr (tenant, user))))))"

definition tenant_isolation ::
    "web_lib \<Rightarrow> (identity option \<Rightarrow> web_request \<Rightarrow> 'w \<Rightarrow> (string option \<times> (failure + web_response)) \<times> 'w)
       \<Rightarrow> web_request \<Rightarrow> 'w \<Rightarrow> (string option \<times> (failure + web_response)) \<times> 'w" where
  "tenant_isolation lib call_next rq w =
     (if is_public_path (rq_path rq) then call_next None rq w
      else (case presented_identity lib rq of
              Inl message \<Rightarrow> ((None, Inr (json_response 401 (detail message))), w)
            | Inr ident \<Rightarrow> call_next (Some ident) rq w))"

text \<open>\<open>get_current_user_id\<close>, given the credentials the bearer scheme found\<close>

definition get_current_user_id :: "web_lib \<Rightarrow> string option \<Rightarrow> failure + string" where
  "get_current_user_id lib creds =
     (case creds of
        None \<Rightarrow> Inl (Http_exception 401 ''Missing bearer token'')
      | Some token \<Rightarrow>
          (case decode_token lib token of
             None \<Rightarrow> Inl (Http_exception 401 ''Invalid token'')
           | Some payload \<Rightarrow>
               (let user_id = (if truthy (dget payload ''user_id'') then dget payload ''user_id'' else dget payload ''sub'')
                in if \<not> truthy user_id then Inl (Http_exception 401 ''Invalid token payload'')
                   else Inr (py_str user_id))))"

section \<open>The stack\<close>

record 'w app_state =
  counters_of :: request_counter
  logged_hosts :: "string list"
  world :: 'w

text \<open>The exception handlers next to the router; what they do not handle is raised on\<close>

definition handle_exception :: "failure + web_response \<Rightarrow> failure + web_response" where
  "handle_exception r =
     (case r of
        Inl (App_exception name message status) \<Rightarrow>
          Inr (json_response status [(''code'', PStr name), (''message'', PStr message)])
      | Inl (Http_exception status message) \<Rightarrow> Inr (json_response status (detail message))
      | Inl (Uncaught e) \<Rightarrow> Inl (Uncaught e)
      | Inr resp \<Rightarrow> Inr resp)"

definition routed :: "'w route \<Rightarrow> 'w route" where
  "routed endpoint ident rq w = (let ((template, r), w) = endpoint ident rq w in ((template, handle_exception r), w))"

text \<open>Everything inside the metrics middleware: the desktop build has no tenant gate\<close>

definition behind_metrics :: "web_lib \<Rightarrow> app_conf \<Rightarrow> 'w route \<Rightarrow> web_request \<Rightarrow> 'w \<Rightarrow> (string option \<times> (failure + web_response)) \<times> 'w" where
  "behind_metrics lib conf endpoint rq w =
     (if local_build conf then routed endpoint None rq w else tenant_isolation lib (routed endpoint) rq w)"

definition request_metrics ::
    "web_lib \<Rightarrow> app_conf \<Rightarrow> 'w route \<Rightarrow> web_request \<Rightarrow> 'w app_state \<Rightarrow> (failure + web_response) \<times> 'w app_state" where
  "request_metrics lib conf endpoint rq st =
     (let ((template, r), w) = behind_metrics lib conf endpoint rq (world st); st = st\<lparr>world := w\<rparr>
      in case r of
           Inl e \<Rightarrow> (Inl e, st)
         | Inr resp \<Rightarrow>
             if starts_with (rq_path rq) ''/metrics'' then (Inr resp, st)
             else (let key = (case template of None \<Rightarrow> rq_path rq | Some t \<Rightarrow> if t = [] then rq_path rq else t)
                   in (Inr resp, st\<lparr>counters_of := record_request key (rs_status resp) (counters_of st)\<rparr>)))"

definition https_redirect ::
    "web_lib \<Rightarrow> app_conf \<Rightarrow> 'w route \<Rightarrow> web_request \<Rightarrow> 'w app_state \<Rightarrow> (failure + web_response) \<times> 'w app_state" where
  "https_redirect lib conf endpoint rq st =
     (if enforce_https conf \<and> rq_scheme rq = ''http''
      then (Inr \<lparr>rs_status = 301, rs_headers = [(''location'', https_url lib rq)], rs_body = PNone\<rparr>, st)
      else request_metrics lib conf endpoint rq st)"

definition API_OR_SYSTEM_PATHS :: "string list" where
  "API_OR_SYSTEM_PATHS = [''/api/'', ''/health'', ''/metrics'', ''/docs'', ''/redoc'', ''/openapi.json'']"

text \<open>A source expression in single quotes\<close>

definition quoted :: "string \<Rightarrow> string" where
  "quoted s = [char_of (39 :: nat)] @ s @ [char_of (39 :: nat)]"

definition STRICT_CSP :: string where
  "STRICT_CSP = ''default-src '' @ quoted ''none'' @ ''; frame-ancestors '' @ quoted ''none''
     @ ''; base-uri '' @ quoted ''none''"

definition LOCAL_SPA_CSP :: string where
  "LOCAL_SPA_CSP = join_with ''; ''
     [''default-src '' @ quoted ''self'', ''script-src '' @ quoted ''self'',
      ''style-src '' @ quoted ''self'' @ '' '' @ quoted ''unsafe-inline'', ''font-src '' @ quoted ''self'' @ '' data:'',
      ''img-src '' @ quoted ''self'' @ '' data: blob: https:'', ''connect-src '' @ quoted ''self'',
      ''manifest-src '' @ quoted ''self'', ''worker-src '' @ quoted ''self'' @ '' blob:'',
      ''object-src '' @ quoted ''none'', ''frame-ancestors '' @ quoted ''none'', ''base-uri '' @ quoted ''self'',
      ''form-action '' @ quoted ''self'']"

definition content_security_policy_for :: "app_conf \<Rightarrow> web_request \<Rightarrow> string" where
  "content_security_policy_for conf rq =
     (if local_build conf \<and> serves_spa conf \<and> \<not> list_ex (starts_with (rq_path rq)) API_OR_SYSTEM_PATHS
      then LOCAL_SPA_CSP else STRICT_CSP)"

definition security_headers :: "app_conf \<Rightarrow> web_request \<Rightarrow> (string \<times> string) list" where
  "security_headers conf rq =
     [(''x-content-type-options'', ''nosniff''), (''x-frame-options'', ''DENY''),
      (''referrer-policy'', ''strict-origin-when-cross-origin''),
      (''permissions-policy'', ''geolocation=(self), microphone=(), camera=(), payment=()''),
      (''content-security-policy'', content_security_policy_for conf rq)]
     @ (if enforce_https conf then [(''strict-transport-security'', ''max-age=31536000; includeSubDomains'')] else [])"

definition set_default_headers :: "(string \<times> string) list \<Rightarrow> web_response \<Rightarrow> web_response" where
  "set_default_headers hs resp =
     resp\<lparr>rs_headers := fold (\<lambda>(k, v) d. dsetdefault k v d) hs (rs_headers resp)\<rparr>"

definition with_security_headers ::
    "web_lib \<Rightarrow> app_conf \<Rightarrow> 'w route \<Rightarrow> web_request \<Rightarrow> 'w app_state \<Rightarrow> (failure + web_response) \<times> 'w app_state" where
  "with_security_headers lib conf endpoint rq st =
     (let (r, st) = https_redirect lib conf endpoint rq st
      in (map_sum id (set_default_headers (security_headers conf rq)) r, st))"

definition unhandled_response :: web_response where
  "unhandled_response =
     json_response 500 [(''code'', PStr ''InternalServerError''), (''message'', PStr ''Internal server error'')]"

text \<open>
  The whole application on an HTTP request: the handler of unforeseen exceptions sits outside every
  middleware, so its response is not decorated.
\<close>

definition serve ::
    "web_lib \<Rightarrow> app_conf \<Rightarrow> string list \<Rightarrow> 'w route \<Rightarrow> web_request \<Rightarrow> 'w app_state \<Rightarrow> web_response \<times> 'w app_state" where
  "serve lib conf allowed endpoint rq st =
     (case cors lib rq of
        Inl resp \<Rightarrow> (resp, st)
      | Inr decorate \<Rightarrow>
          (case allowed_hosts_call lib allowed rq (logged_hosts st) of
             (Reply resp, logged) \<Rightarrow> (decorate resp, st\<lparr>logged_hosts := logged\<rparr>)
           | (_, logged) \<Rightarrow>
               (let (r, st) = with_security_headers lib conf endpoint rq (st\<lparr>logged_hosts := logged\<rparr>)
                in case r of
                     Inl _ \<Rightarrow> (unhandled_response, st)
                   | Inr resp \<Rightarrow> (decorate resp, st))))"

section \<open>Metrics stay bounded and count every request\<close>

definition total_count :: "request_counter \<Rightarrow> nat" where
  "total_count counter = sum_list (map snd counter)"

definition buckets :: "string set" where
  "buckets = {''2xx'', ''3xx'', ''4xx'', ''5xx''}"

text \<open>Distinct keys, at most \<open>MAX_KEYS\<close> besides the overflow keys, and overflow keys of the four buckets\<close>

definition counter_ok :: "request_counter \<Rightarrow> bool" where
  "counter_ok counter \<longleftrightarrow>
     distinct (map fst counter)
     \<and> length (filter (\<lambda>p. fst (fst p) \<noteq> UNMATCHED_KEY) counter) \<le> MAX_KEYS
     \<and> (\<forall>k \<in> set (map fst counter). fst k = UNMATCHED_KEY \<longrightarrow> snd k \<in> buckets)"

lemma status_bucket_in [simp]: "status_bucket code \<in> buckets"
  by (simp add: status_bucket_def buckets_def)

lemma AList_update_known:
  "distinct (map fst xs) \<Longrightarrow> map_of xs k = Some n \<Longrightarrow>
     map fst (AList.update k m xs) = map fst xs
     \<and> sum_list (map snd (AList.update k m xs)) + n = sum_list (map snd xs) + (m :: nat)"
  by (induction xs) (auto split: if_splits)

lemma AList_update_new:
  "map_of xs k = None \<Longrightarrow> AList.update k m xs = xs @ [(k, m)]"
  by (induction xs) (auto split: if_splits)

lemma length_filter_by_keys:
  "map fst xs = map fst ys \<Longrightarrow> length (filter (\<lambda>p. P (fst p)) xs) = length (filter (\<lambda>p. P (fst p)) ys)"
proof (induction xs arbitrary: ys)
  case (Cons a xs)
  then show ?case by (cases ys) auto
qed simp

lemma counter_ok_same_keys:
  assumes "counter_ok c" and "map fst c' = map fst c"
  shows "counter_ok c'"
  using assms(1) length_filter_by_keys [OF assms(2), of "\<lambda>k. fst k \<noteq> UNMATCHED_KEY"]
  unfolding counter_ok_def assms(2) by simp

text \<open>A key of the counter gains one; a new one starts at one where there is room for it\<close>

lemma counter_ok_bump:
  assumes "counter_ok c" and "snd key \<in> buckets"
    and "map_of c key = None \<Longrightarrow> fst key \<noteq> UNMATCHED_KEY \<Longrightarrow> length c < MAX_KEYS"
  shows "counter_ok (AList.update key (count_of c key + 1) c)
    \<and> total_count (AList.update key (count_of c key + 1) c) = total_count c + 1"
proof (cases "map_of c key")
  case None
  moreover have "count_of c key = 0" using None by (simp add: count_of_def)
  moreover have "length (filter (\<lambda>p. fst (fst p) \<noteq> UNMATCHED_KEY) c) \<le> length c" by simp
  ultimately show ?thesis
    using assms
    by (auto simp: AList_update_new counter_ok_def total_count_def map_of_eq_None_iff
        simp del: length_filter_le)
next
  case (Some n)
  then show ?thesis
    using AList_update_known [of c key n "n + 1"] assms(1) counter_ok_same_keys
    by (auto simp: counter_ok_def count_of_def total_count_def)
qed

lemma record_request_step:
  assumes "counter_ok c"
  shows "counter_ok (record_request t code c) \<and> total_count (record_request t code c) = total_count c + 1"
proof -
  let ?key = "(if t = [] then UNMATCHED_KEY else t, status_bucket code)"
  show ?thesis
  proof (cases "map_of c ?key = None \<and> \<not> length c < MAX_KEYS")
    case True
    then show ?thesis
      using counter_ok_bump [OF assms, of "(UNMATCHED_KEY, status_bucket code)"]
      by (auto simp: record_request_def Let_def)
  next
    case False
    moreover have "map_of c ?key = None \<Longrightarrow> count_of c ?key + 1 = 1" by (simp add: count_of_def)
    ultimately show ?thesis
      using counter_ok_bump [OF assms, of ?key] by (auto simp: record_request_def Let_def)
  qed
qed

lemma counter_ok_length:
  assumes "counter_ok c"
  shows "length c \<le> MAX_KEYS + 4"
proof -
  let ?o = "filter (\<lambda>p. fst (fst p) = UNMATCHED_KEY) c"
  have "distinct (map fst ?o)" using assms by (simp add: counter_ok_def distinct_map_filter)
  then have "length ?o = card (set (map fst ?o))" by (metis distinct_card length_map)
  also have "\<dots> \<le> card ((\<lambda>b. (UNMATCHED_KEY, b)) ` buckets)"
    using assms by (intro card_mono) (auto simp: counter_ok_def buckets_def)
  also have "\<dots> \<le> 4" by (rule order.trans [OF card_image_le]) (auto simp: buckets_def)
  finally have "length ?o \<le> 4" .
  moreover have "length c = length ?o + length (filter (\<lambda>p. fst (fst p) \<noteq> UNMATCHED_KEY) c)"
    by (simp add: sum_length_filter_compl)
  ultimately show ?thesis using assms by (simp add: counter_ok_def)
qed

text \<open>
  The counters stay small and lose nothing. Whatever routes and status codes are recorded,
  there are never more than 2004 counters (the cap and one overflow counter per status class), and
  together they count every recorded request once.
\<close>

theorem metrics_bounded_and_complete:
  "length (fold (\<lambda>(template, code). record_request template code) requests []) \<le> 2004
   \<and> total_count (fold (\<lambda>(template, code). record_request template code) requests []) = length requests"
proof -
  have "counter_ok c \<Longrightarrow> counter_ok (fold (\<lambda>(t, code). record_request t code) rs c)
      \<and> total_count (fold (\<lambda>(t, code). record_request t code) rs c) = total_count c + length rs" for rs c
    by (induction rs arbitrary: c) (use record_request_step in force)+
  from this [of "[]" requests] show ?thesis
    using counter_ok_length by (force simp: counter_ok_def total_count_def MAX_KEYS_def)
qed

section \<open>A label cannot leave its quotes\<close>

text \<open>Reading a label value the way the exposition format defines it: up to the closing quote\<close>

fun read_label :: "string \<Rightarrow> string \<times> string" where
  "read_label [] = ([], [])"
| "read_label (c # cs) =
     (if c = dquote then ([], cs)
      else if c = backslash then
        (case cs of [] \<Rightarrow> ([], []) | d # ds \<Rightarrow> (let (v, rest) = read_label ds in (d # v, rest)))
      else (let (v, rest) = read_label cs in (c # v, rest)))"

lemma escape_label_simps [simp]:
  "escape_label [] = []"
  "escape_label (c # s) =
     (if c = newline then [] else if c = backslash then [backslash, backslash]
      else if c = dquote then [backslash, dquote] else [c]) @ escape_label s"
  by (simp_all add: escape_label_def replace_char_def backslash_def dquote_def newline_def)

lemma special_chars [simp]:
  "backslash \<noteq> dquote" "dquote \<noteq> backslash" "newline \<noteq> dquote" "newline \<noteq> backslash"
  by (simp_all add: backslash_def dquote_def newline_def)

lemma label_round_trip:
  "read_label (escape_label s @ dquote # rest) = (filter (\<lambda>c. c \<noteq> newline) s, rest)
   \<and> newline \<notin> set (escape_label s)"
  by (induction s) auto

section \<open>The gate\<close>

lemma space_fields_plain: "w \<in> set (space_fields s) \<Longrightarrow> list_all (\<lambda>c. \<not> py_isspace c) w"
  by (induction s arbitrary: w) (auto split: list.splits if_splits)

lemma py_split_word:
  assumes "w \<in> set (py_split s)"
  shows "w \<noteq> [] \<and> py_strip w = w"
  using assms space_fields_plain [of w s] by (auto simp: py_split_def py_strip_plain)

text \<open>The identity is that of a bearer token the library decodes, with a tenant name of the right form\<close>

definition bearer_identity :: "web_lib \<Rightarrow> web_request \<Rightarrow> pyval \<Rightarrow> pyval \<Rightarrow> bool" where
  "bearer_identity lib rq tenant user \<longleftrightarrow>
     (\<exists>auth scheme token payload name.
        header rq ''authorization'' = Some auth \<and> py_split (py_strip auth) = [scheme, token]
        \<and> py_lower scheme = ''bearer'' \<and> decode_token lib token = Some payload
        \<and> tenant = dget payload ''tenant_db_name'' \<and> user = dget payload ''user_id'' \<and> truthy user
        \<and> tenant = PStr name \<and> matches_name ''tenant_'' name)"

lemma presented_identity_sound:
  assumes "presented_identity lib rq = Inr (tenant, user)"
  shows "bearer_identity lib rq tenant user"
proof -
  obtain auth where auth: "header rq ''authorization'' = Some auth"
    using assms by (auto simp: presented_identity_def split: option.splits)
  let ?parts = "py_split (py_strip auth)"
  have two: "length ?parts = 2" "py_lower (?parts ! 0) = ''bearer''"
    using assms auth by (auto simp: presented_identity_def Let_def split: if_splits)
  then obtain scheme token where parts: "?parts = [scheme, token]"
    by (metis One_nat_def Suc_1 length_0_conv length_Suc_conv)
  then have "token \<in> set ?parts" by simp
  then have "py_strip token = token" "token \<noteq> []" using py_split_word by blast+
  then show ?thesis
    using assms auth two parts
    by (auto simp: presented_identity_def bearer_identity_def is_valid_tenant_db_name_def Let_def
        split: if_splits option.splits pyval.splits)
qed

lemma allowed_hosts_cases:
  assumes "rq_type rq = Http_scope"
  shows "(is_allowed allowed (request_host rq) \<and> allowed_hosts_call lib allowed rq logged = (Pass_on, logged))
    \<or> (\<not> is_allowed allowed (request_host rq) \<and>
        (\<exists>logged'. allowed_hosts_call lib allowed rq logged = (Reply (invalid_host_response lib (request_host rq)), logged')))"
  using assms by (auto simp: allowed_hosts_call_def is_allowed_def Let_def)

lemma invalid_host_status [simp]: "rs_status (invalid_host_response lib host) = 400"
  by (simp add: invalid_host_response_def Let_def)

lemma json_response_status [simp]: "rs_status (json_response code body) = code"
  by (simp add: json_response_def)

lemma set_default_status [simp]: "rs_status (set_default_headers hs r) = rs_status r"
  by (simp add: set_default_headers_def)

text \<open>What happens to the state of the routes: refused with one of two codes, or the route is called\<close>

lemma behind_metrics_private:
  assumes "\<not> local_build conf" and "\<not> is_public_path (rq_path rq)"
    and "behind_metrics lib conf endpoint rq w = ((template, r), w')"
  shows "(w' = w \<and> (\<exists>resp. r = Inr resp \<and> rs_status resp = 401))
    \<or> (\<exists>tenant user. bearer_identity lib rq tenant user
         \<and> routed endpoint (Some (tenant, user)) rq w = ((template, r), w'))"
  using assms presented_identity_sound [of lib rq]
  by (auto simp: behind_metrics_def tenant_isolation_def split: sum.splits)

lemma routed_world: "snd (routed endpoint ident rq w) = snd (endpoint ident rq w)"
  by (simp add: routed_def split: prod.splits)

lemma request_metrics_world:
  "request_metrics lib conf endpoint rq st = (r, st') \<Longrightarrow>
     (\<exists>template. behind_metrics lib conf endpoint rq (world st) = ((template, r), world st'))"
  by (auto simp: request_metrics_def Let_def split: prod.splits sum.splits if_splits)

lemma with_security_headers_world:
  assumes "with_security_headers lib conf endpoint rq st = (r, st')"
  shows "(enforce_https conf \<and> rq_scheme rq = ''http'' \<and> world st' = world st \<and> (\<exists>resp. r = Inr resp \<and> rs_status resp = 301))
    \<or> (\<not> (enforce_https conf \<and> rq_scheme rq = ''http'') \<and>
        (\<exists>template r0. behind_metrics lib conf endpoint rq (world st) = ((template, r0), world st')
           \<and> r = map_sum id (set_default_headers (security_headers conf rq)) r0))"
  using assms request_metrics_world
  by (fastforce simp: with_security_headers_def https_redirect_def split: prod.splits if_splits)


text \<open>What the middleware adds never replaces a header the route has set\<close>

lemma map_of_dsetdefault:
  "map_of (dsetdefault k v d) x = (case map_of d x of Some w \<Rightarrow> Some w | None \<Rightarrow> if x = k then Some v else None)"
  by (auto simp: dsetdefault_def split: option.splits)

lemma set_default_headers_lookup:
  "map_of (rs_headers (set_default_headers hs r)) = map_of hs ++ map_of (rs_headers r)"
proof (induction hs arbitrary: r)
  case (Cons h hs)
  obtain k v where h: "h = (k, v)" by fastforce
  have "set_default_headers (h # hs) r = set_default_headers hs (r\<lparr>rs_headers := dsetdefault k v (rs_headers r)\<rparr>)"
    by (simp add: set_default_headers_def h)
  then show ?case
    using Cons.IH by (auto simp: h map_add_def fun_eq_iff map_of_dsetdefault split: option.splits)
qed (simp add: set_default_headers_def)

section \<open>Which hosts are allowed\<close>

lemma origin_hosts_set:
  "origin_hosts origins = Some hosts \<Longrightarrow> h \<in> set hosts \<longleftrightarrow> (\<exists>origin \<in> set origins. \<exists>l. origin_host origin = Some l \<and> h \<in> set l)"
  by (induction origins arbitrary: hosts) (auto split: option.splits)

text \<open>
  Which hosts the service answers to. The list built at start-up allows a host exactly when it is
  \<open>localhost\<close> or \<open>127.0.0.1\<close>, or matches one of the extra hosts or the host of one of the configured
  origins, or when one of these is the lone star.
\<close>

theorem allowed_hosts_exact:
  assumes "build_allowed_hosts origins extra = Some allowed"
  shows "is_allowed allowed host \<longleftrightarrow>
     host \<in> {''localhost'', ''127.0.0.1''}
     \<or> (\<exists>pattern \<in> set extra. pattern = ''*'' \<or> matches_host_pattern host pattern)
     \<or> (\<exists>origin \<in> set origins. \<exists>pattern. (\<exists>l. origin_host origin = Some l \<and> pattern \<in> set l)
          \<and> (pattern = ''*'' \<or> matches_host_pattern host pattern))"
proof -
  obtain hosts where h: "origin_hosts origins = Some hosts"
      and a: "set allowed = {''localhost'', ''127.0.0.1''} \<union> set extra \<union> set hosts"
    using assms by (auto simp: build_allowed_hosts_def simp del: remdups.simps)
  have plain: "matches_host_pattern host p \<longleftrightarrow> host = p" if "p \<in> {''localhost'', ''127.0.0.1''}" for p
    using that by (auto simp: matches_host_pattern_def)
  have "is_allowed allowed host \<longleftrightarrow> (\<exists>p \<in> set allowed. p = ''*'' \<or> matches_host_pattern host p)"
    by (auto simp: is_allowed_def list_ex_iff)
  also have "\<dots> \<longleftrightarrow> host \<in> {''localhost'', ''127.0.0.1''}
      \<or> (\<exists>p \<in> set extra \<union> set hosts. p = ''*'' \<or> matches_host_pattern host p)"
    unfolding a using plain by auto
  finally have split: "is_allowed allowed host \<longleftrightarrow> host \<in> {''localhost'', ''127.0.0.1''}
      \<or> (\<exists>p \<in> set extra. p = ''*'' \<or> matches_host_pattern host p)
      \<or> (\<exists>p \<in> set hosts. p = ''*'' \<or> matches_host_pattern host p)"
    by (simp only: bex_Un)
  have "(\<exists>p \<in> set hosts. P p) \<longleftrightarrow>
      (\<exists>origin \<in> set origins. \<exists>p. (\<exists>l. origin_host origin = Some l \<and> p \<in> set l) \<and> P p)" for P
    unfolding Bex_def origin_hosts_set [OF h] by blast
  then show ?thesis by (simp only: split)
qed

section \<open>Examples\<close>

text \<open>A library that takes the token itself for the name of the tenant\<close>

definition sample_lib :: web_lib where
  "sample_lib = \<lparr>cors = (\<lambda>_. Inr id), json_dumps = (\<lambda>_. []), https_url = rq_path,
     decode_token = (\<lambda>t. Some [(''tenant_db_name'', PStr t), (''user_id'', PInt 7)])\<rparr>"

definition sample_conf :: app_conf where
  "sample_conf = \<lparr>local_build = False, serves_spa = False, enforce_https = True, env_name = ''production'',
     cors_origins = [''https://uh.example''], allowed_hosts_csv = [], metrics_token = None\<rparr>"

definition sample_request :: "string \<Rightarrow> web_request" where
  "sample_request auth =
     \<lparr>rq_type = Http_scope, rq_scheme = ''https'', rq_path = ''/api/v1/course/start'',
      rq_target = ''/api/v1/course/start'',
      rq_headers = [(''host'', ''uh.example:443''), (''authorization'', auth)]\<rparr>"

text \<open>A route that notes who called it\<close>

definition note_caller :: "identity option list route" where
  "note_caller ident rq w = ((Some (rq_target rq), Inr (json_response 200 [])), ident # w)"

definition idle_app :: "identity option list app_state" where
  "idle_app = \<lparr>counters_of = [], logged_hosts = [], world = []\<rparr>"

lemma allowed_hosts_exact_witness:
  "is_allowed [''127.0.0.1'', ''localhost'', ''uh.example''] ''uh.example''
   \<and> \<not> is_allowed [''127.0.0.1'', ''localhost'', ''uh.example''] ''evil.example''"
proof -
  have b: "build_allowed_hosts [''https://uh.example''] [] = Some [''127.0.0.1'', ''localhost'', ''uh.example'']"
    by code_simp
  have o: "origin_host ''https://uh.example'' = Some [''uh.example'']" by code_simp
  show ?thesis
    using allowed_hosts_exact [OF b, of "''uh.example''"] allowed_hosts_exact [OF b, of "''evil.example''"]
    by (simp add: o matches_host_pattern_def)
qed


text \<open>
  An origin with a star for its host passes the production gate and makes the host check accept
  every host.
\<close>

lemma star_origin_accepts_any_host:
  assumes "build_allowed_hosts [''https://*''] extra = Some allowed"
  shows "validate_runtime_settings (sample_conf\<lparr>cors_origins := [''https://*'']\<rparr>) = None
    \<and> is_allowed allowed host"
proof -
  have "validate_runtime_settings (sample_conf\<lparr>cors_origins := [''https://*'']\<rparr>) = None"
    "origin_host ''https://*'' = Some [''*'']" by code_simp+
  then show ?thesis using allowed_hosts_exact [OF assms, of host] by auto
qed

text \<open>
  The gate looks at the path of \<open>request.url\<close> only, which the framework puts together from the Host
  header: a host such as \<open>localhost:1/health?\<close> is allowed, because the check cuts at the first colon,
  and the path of the URL is then a public one, whatever target the router reads.
\<close>

lemma crafted_host_is_allowed:
  "is_allowed [''127.0.0.1'', ''localhost'']
     (request_host (sample_request a\<lparr>rq_headers := [(''host'', ''localhost:1/health?'')]\<rparr>))"
  by code_simp

lemma public_url_path_passes_any_target:
  "is_public_path (rq_path rq) \<Longrightarrow>
     tenant_isolation lib endpoint rq w = endpoint None rq w"
  by (simp add: tenant_isolation_def)

text \<open>Any path that begins with \<open>/docs\<close> is public, not only the sub-paths of \<open>/docs/\<close>\<close>

lemma docs_prefix_is_public: "is_public_path ''/docs-internal''"
  by code_simp

text \<open>An IPv6 host is cut inside its brackets, so it never matches a pattern that names it\<close>

lemma ipv6_host_is_cut:
  "request_host (sample_request a\<lparr>rq_headers := [(''host'', ''[::1]:8000'')]\<rparr>) = ''[''"
  by code_simp

text \<open>An exception that no handler near the router takes is not counted and not decorated\<close>

lemma unhandled_not_counted:
  assumes "cors lib rq = Inr decorate" and "allowed_hosts_call lib allowed rq (logged_hosts st) = (Pass_on, logged)"
    and "\<not> (enforce_https conf \<and> rq_scheme rq = ''http'')"
    and "behind_metrics lib conf endpoint rq (world st) = ((template, Inl e), w)"
  shows "fst (serve lib conf allowed endpoint rq st) = unhandled_response
    \<and> counters_of (snd (serve lib conf allowed endpoint rq st)) = counters_of st"
  using assms(1,2,4) assms(3)
  by (auto simp: serve_def with_security_headers_def https_redirect_def request_metrics_def)

end
