(* ===== verification/Update_Check.thy ===== *)
theory Update_Check
  imports Py_Regex
begin

text \<open>
  The notice of a newer server version (\<open>services/update_check.py\<close>): reading a version, comparing
  two, the cached release and its refresh. What the releases page answers is chosen by the
  environment, time is in microseconds, and rendering an instant is a parameter.
\<close>

section \<open>Versions\<close>

text \<open>The sortable key: the three numbers, 0 for a pre-release and 1 for a release, the pre-release label\<close>

datatype version_key =
  Version_key (major: nat) (minor: nat) (patch: nat) (stage: nat) (label: string)

definition key_tuple :: "version_key \<Rightarrow> nat list \<times> string" where
  "key_tuple v = ([major v, minor v, patch v, stage v], label v)"

lemma key_tuple_inj: "fst (key_tuple v) = fst (key_tuple w) \<Longrightarrow> label v = label w \<Longrightarrow> v = w"
  by (cases v; cases w) (simp add: key_tuple_def)

instantiation version_key :: linorder
begin

definition less_version_key :: "version_key \<Rightarrow> version_key \<Rightarrow> bool" where
  "v < w \<longleftrightarrow>
     (let a = fst (key_tuple v); b = fst (key_tuple w)
      in a < b \<or> (a = b \<and> label v < label w))"

definition less_eq_version_key :: "version_key \<Rightarrow> version_key \<Rightarrow> bool" where
  "v \<le> w \<longleftrightarrow> v < w \<or> v = (w :: version_key)"

instance
proof
  fix u v w :: version_key
  show "v < w \<longleftrightarrow> v \<le> w \<and> \<not> w \<le> v"
    by (auto simp: less_eq_version_key_def less_version_key_def Let_def)
  show "v \<le> v" by (simp add: less_eq_version_key_def)
  show "u \<le> v \<Longrightarrow> v \<le> w \<Longrightarrow> u \<le> w"
    by (auto simp: less_eq_version_key_def less_version_key_def Let_def)
  show "v \<le> w \<Longrightarrow> w \<le> v \<Longrightarrow> v = w"
    by (auto simp: less_eq_version_key_def less_version_key_def Let_def)
  show "v \<le> w \<or> w \<le> v"
    using key_tuple_inj [of v w]
    by (cases "fst (key_tuple v)" "fst (key_tuple w)" rule: linorder_cases;
        cases "label v" "label w" rule: linorder_cases) (auto simp: less_eq_version_key_def less_version_key_def Let_def)
qed

end

definition number_re :: "nat \<Rightarrow> re" where
  "number_re k = Group k (many1 (Chars Digit))"

definition alphanumeric :: string where
  "alphanumeric = map char_of ([48..<58] @ [65..<91] @ [97..<123] :: nat list)"

definition label_class :: char_class where
  "label_class = Among (alphanumeric @ ''.-'')"

definition label_re :: re where
  "label_re = opt (Seq (opt (one_of ''-.'')) (Group 4 (many1 (Chars label_class))))"

definition version_re :: re where
  "version_re = Seq (opt (Chars (Only (CHR ''v''))))
     (Seq (number_re 1) (Seq (Chars (Only (CHR ''.''))) (Seq (number_re 2) (Seq (Chars (Only (CHR ''.'')))
       (Seq (number_re 3) label_re)))))"

text \<open>The dollar matches at the end and before a final line feed\<close>

definition at_dollar :: "pos \<Rightarrow> bool" where
  "at_dollar q = (rest q = [] \<or> rest q = [char_of (10 :: nat)])"

definition version_match :: "string \<Rightarrow> pos option" where
  "version_match s = find at_dollar (runs version_re \<lparr>prev = None, rest = s, groups = []\<rparr>)"

definition parse_version :: "string option \<Rightarrow> version_key option" where
  "parse_version v =
     (case version_match (py_strip (case v of None \<Rightarrow> [] | Some s \<Rightarrow> s)) of
        None \<Rightarrow> None
      | Some m \<Rightarrow>
          (let pre = group_of 4 m
           in Some (Version_key (digits_val (group_of 1 m)) (digits_val (group_of 2 m)) (digits_val (group_of 3 m))
                (if pre \<noteq> [] then 0 else 1) pre)))"

definition is_newer :: "string option \<Rightarrow> string option \<Rightarrow> bool" where
  "is_newer candidate current =
     (case (parse_version candidate, parse_version current) of
        (Some new, Some cur) \<Rightarrow> cur < new
      | _ \<Rightarrow> False)"

definition lstrip_v :: "string \<Rightarrow> string" where
  "lstrip_v tag = dropWhile (\<lambda>c. c = CHR ''v'') tag"

definition update_commands :: "string \<Rightarrow> pydict" where
  "update_commands tag =
     (let version = lstrip_v tag
      in [(''bash'', PStr (''bash scripts/deploy_server.sh --tag '' @ version @ '' -y'')),
          (''powershell'', PStr (''pwsh scripts/deploy_server.ps1 -Tag '' @ version @ '' -Yes''))])"

section \<open>The checker\<close>

record release =
  rel_tag :: string
  rel_html_url :: string
  rel_notes :: string
  rel_published_at :: pyval
  rel_checked_at :: int

record checker =
  current_version :: string
  ttl_us :: int
  latest_release :: "release option"
  last_attempt :: "int option"

text \<open>What a request to the releases page ends in\<close>

datatype fetch = Fetch_failed | Fetched int "pyval option"

definition max_notes_chars :: nat where "max_notes_chars = 2000"

definition is_stale :: "int \<Rightarrow> checker \<Rightarrow> bool" where
  "is_stale now ck = (case last_attempt ck of None \<Rightarrow> True | Some t \<Rightarrow> ttl_us ck \<le> now - t)"

definition or_empty :: "pyval \<Rightarrow> string" where
  "or_empty v = (if truthy v then py_str v else [])"

text \<open>The release a response announces, if any; a body that is no JSON counts as a failure\<close>

definition release_of :: "int \<Rightarrow> fetch \<Rightarrow> release option" where
  "release_of wall answer =
     (case answer of
        Fetched status (Some (PDict data)) \<Rightarrow>
          if status \<noteq> 200 \<or> truthy (dget data ''draft'') \<or> truthy (dget data ''prerelease'') then None
          else (let tag = or_empty (dget data ''tag_name'')
                in if parse_version (Some tag) = None then None
                   else Some \<lparr>rel_tag = tag, rel_html_url = or_empty (dget data ''html_url''),
                          rel_notes = take max_notes_chars (or_empty (dget data ''body'')),
                          rel_published_at = dget data ''published_at'', rel_checked_at = wall\<rparr>)
      | _ \<Rightarrow> None)"

definition refresh :: "int \<Rightarrow> int \<Rightarrow> fetch \<Rightarrow> checker \<Rightarrow> checker" where
  "refresh now wall answer ck =
     (let ck = ck\<lparr>last_attempt := Some now\<rparr>
      in case release_of wall answer of None \<Rightarrow> ck | Some r \<Rightarrow> ck\<lparr>latest_release := Some r\<rparr>)"

definition status_of_release :: "(int \<Rightarrow> string) \<Rightarrow> checker \<Rightarrow> pydict" where
  "status_of_release fmt ck =
     (let status = [(''enabled'', PBool True), (''current'', PStr (current_version ck)), (''latest'', PNone),
                    (''has_update'', PBool False), (''html_url'', PNone), (''notes'', PStr []),
                    (''published_at'', PNone), (''checked_at'', PNone), (''commands'', PNone)]
      in case latest_release ck of
           None \<Rightarrow> status
         | Some r \<Rightarrow>
             (let latest = lstrip_v (rel_tag r)
              in dupdate status
                   [(''latest'', PStr latest), (''has_update'', PBool (is_newer (Some latest) (Some (current_version ck)))),
                    (''html_url'', PStr (rel_html_url r)), (''notes'', PStr (rel_notes r)),
                    (''published_at'', rel_published_at r), (''checked_at'', PStr (fmt (rel_checked_at r))),
                    (''commands'', PDict (update_commands latest))]))"

text \<open>
  One call of \<open>get_status\<close>: the clock, what the page would answer, and whether it was asked. The
  lock makes the check and the refresh one step.
\<close>

record visit =
  at_time :: int
  at_wall :: int
  page :: fetch

definition get_status :: "(int \<Rightarrow> string) \<Rightarrow> visit \<Rightarrow> checker \<Rightarrow> (pydict \<times> bool) \<times> checker" where
  "get_status fmt v ck =
     (let asks = is_stale (at_time v) ck;
          ck = (if asks then refresh (at_time v) (at_wall v) (page v) ck else ck)
      in ((status_of_release fmt ck, asks), ck))"

fun visits :: "(int \<Rightarrow> string) \<Rightarrow> visit list \<Rightarrow> checker \<Rightarrow> (pydict \<times> bool) list \<times> checker" where
  "visits fmt [] ck = ([], ck)"
| "visits fmt (v # vs) ck =
     (let (r, ck) = get_status fmt v ck; (rs, ck) = visits fmt vs ck in (r # rs, ck))"

section \<open>How a version is read\<close>

text \<open>The matches of a repetition of one class: every prefix of the run of such characters, the longest first\<close>

definition pos_after :: "char option \<Rightarrow> string \<Rightarrow> string \<Rightarrow> (nat \<times> string) list \<Rightarrow> nat \<Rightarrow> pos" where
  "pos_after c u t g k = \<lparr>prev = (if k = 0 then c else Some (u ! (k - 1))), rest = drop k u @ t, groups = g\<rparr>"

lemma runs_Many_Chars:
  assumes "list_all (in_class P) u" and "t = [] \<or> \<not> in_class P (hd t)"
  shows "runs (Many (Chars P)) \<lparr>prev = c, rest = u @ t, groups = g\<rparr> = map (pos_after c u t g) (rev [0..<Suc (length u)])"
  using assms(1)
proof (induction u arbitrary: c)
  case Nil
  have "runs (Chars P) \<lparr>prev = c, rest = t, groups = g\<rparr> = []"
    using assms(2) by (cases t) auto
  then show ?case by (subst runs.simps(5)) (simp add: pos_after_def del: runs.simps(2))
next
  case (Cons x u)
  have ix: "pos_after c (x # u) t g (Suc k) = pos_after (Some x) u t g k" for k
    by (cases k) (simp_all add: pos_after_def)
  have "[0..<Suc (length (x # u))] = 0 # map Suc [0..<Suc (length u)]"
    by (simp add: map_Suc_upt upt_conv_Cons del: upt_Suc)
  then have "map (pos_after c (x # u) t g) (rev [0..<Suc (length (x # u))]) =
      map (pos_after (Some x) u t g) (rev [0..<Suc (length u)]) @ [pos_after c (x # u) t g 0]"
    by (simp add: rev_map ix comp_def del: upt_Suc)
  then show ?case
    using Cons by (subst runs.simps(5)) (simp add: shorter_def pos_after_def del: upt_Suc)
qed

text \<open>A captured run of one class comes first in full; every other match leaves a character of the class\<close>

lemma runs_Group_many1:
  assumes "u \<noteq> []" and "list_all (in_class P) u" and "t = [] \<or> \<not> in_class P (hd t)"
  shows "\<exists>ps. runs (Group k (many1 (Chars P))) \<lparr>prev = c, rest = u @ t, groups = g\<rparr> =
      \<lparr>prev = Some (last u), rest = t, groups = (k, u) # g\<rparr> # ps
    \<and> (\<forall>p \<in> set ps. rest p \<noteq> [] \<and> in_class P (hd (rest p)))"
proof -
  obtain x v where u: "u = x # v" using assms(1) by (cases u) auto
  have v_ok: "list_all (in_class P) v" using assms(2) u by simp
  let ?p = "\<lparr>prev = c, rest = u @ t, groups = g\<rparr>"
  let ?grp = "\<lambda>q. q\<lparr>groups := (k, take (length (rest ?p) - length (rest q)) (rest ?p)) # groups q\<rparr>"
  let ?list = "map ?grp (map (pos_after (Some x) v t g) (rev [0..<length v]))"
  have "runs (many1 (Chars P)) ?p = map (pos_after (Some x) v t g) (rev [0..<Suc (length v)])"
    using assms(2,3) runs_Many_Chars [of P v t "Some x" g] by (simp add: many1_def u del: upt_Suc)
  then have runs: "runs (Group k (many1 (Chars P))) ?p = ?grp (pos_after (Some x) v t g (length v)) # ?list"
    by simp
  have first: "?grp (pos_after (Some x) v t g (length v)) = \<lparr>prev = Some (last u), rest = t, groups = (k, u) # g\<rparr>"
    by (cases v rule: rev_cases) (simp_all add: pos_after_def u)
  have "\<forall>p \<in> set ?list. rest p \<noteq> [] \<and> in_class P (hd (rest p))"
    unfolding set_map set_rev set_upt ball_simps
    using v_ok by (auto simp: pos_after_def u list_all_length hd_append hd_drop_conv_nth)
  then show ?thesis using runs unfolding first by blast
qed

text \<open>A number followed by a dot is read in full: no shorter prefix of it is followed by the dot\<close>

lemma runs_number_dot:
  assumes "ds \<noteq> []" and "list_all is_digit ds"
  shows "runs (Seq (number_re k) (Seq (Chars (Only (CHR ''.''))) r)) \<lparr>prev = c, rest = ds @ CHR ''.'' # t, groups = g\<rparr>
    = runs r \<lparr>prev = Some (CHR ''.''), rest = t, groups = (k, ds) # g\<rparr>"
proof -
  have dig: "list_all (in_class Digit) ds" "\<not> in_class Digit (CHR ''.'')"
    using assms(2) by (simp_all add: list_all_iff is_digit_def)
  obtain ps where ps: "runs (number_re k) \<lparr>prev = c, rest = ds @ CHR ''.'' # t, groups = g\<rparr> =
      \<lparr>prev = Some (last ds), rest = CHR ''.'' # t, groups = (k, ds) # g\<rparr> # ps"
      and other: "\<forall>p \<in> set ps. rest p \<noteq> [] \<and> in_class Digit (hd (rest p))"
    using runs_Group_many1 [OF assms(1) dig(1), of "CHR ''.'' # t" k c g] dig(2) by (auto simp: number_re_def)
  have "runs (Seq (Chars (Only (CHR ''.''))) r) p = []" if "p \<in> set ps" for p
  proof -
    have "rest p \<noteq> []" "is_digit (hd (rest p))" using other that by auto
    then show ?thesis using dig(2) by (cases "rest p") auto
  qed
  then show ?thesis by (simp add: ps)
qed

section \<open>Versions are read back\<close>

lemma digit_char_digit: "d < 10 \<Longrightarrow> is_digit (digit_char d) \<and> digit_val (digit_char d) = d"
  by (simp add: digit_char_def is_digit_def digit_val_def)

lemma nat_str_digits: "list_all is_digit (nat_str n) \<and> nat_str n \<noteq> []"
  by (induction n rule: nat_str.induct) (subst (1 2) nat_str.simps, simp add: digit_char_digit)

lemma digits_val_snoc: "digits_val (s @ [c]) = 10 * digits_val s + digit_val c"
  by (simp add: digits_val_def)

lemma digits_val_nat_str [simp]: "digits_val (nat_str n) = n"
proof (induction n rule: nat_str.induct)
  case (1 n)
  show ?case
  proof (cases "n < 10")
    case True
    then show ?thesis by (subst nat_str.simps) (simp add: digit_char_digit digits_val_def)
  next
    case False
    then show ?thesis using 1 by (subst nat_str.simps) (simp add: digit_char_digit digits_val_snoc)
  qed
qed

definition render_version :: "nat \<Rightarrow> nat \<Rightarrow> nat \<Rightarrow> string \<Rightarrow> string" where
  "render_version a b c pre =
     nat_str a @ ''.'' @ nat_str b @ ''.'' @ nat_str c @ (if pre = [] then [] else CHR ''-'' # pre)"

lemma digit_not_special: "is_digit c \<Longrightarrow> c \<noteq> CHR ''v'' \<and> c \<noteq> CHR ''.'' \<and> \<not> py_isspace c"
  by (auto simp: is_digit_def py_isspace_def Let_def)

lemma label_chars:
  "in_class label_class c \<longleftrightarrow> c \<in> {CHR ''.'', CHR ''-''} \<or> (48 \<le> (of_char c :: nat) \<and> of_char c < (58 :: nat))
     \<or> (65 \<le> (of_char c :: nat) \<and> of_char c < (91 :: nat)) \<or> (97 \<le> (of_char c :: nat) \<and> of_char c < (123 :: nat))"
proof -
  have m: "c \<in> char_of ` {a..<b} \<longleftrightarrow> a \<le> (of_char c :: nat) \<and> of_char c < b" if "b \<le> 256" for a b :: nat
    using that by (auto simp: image_iff) (metis atLeastLessThan_iff char_of_char)+
  have "set alphanumeric = char_of ` {48..<58 :: nat} \<union> char_of ` {65..<91 :: nat} \<union> char_of ` {97..<123 :: nat}"
    by (simp only: alphanumeric_def set_map set_append set_upt image_Un Un_assoc)
  then show ?thesis using m [of 58 48] m [of 91 65] m [of 123 97] by (auto simp: label_class_def simp del: set_upt)
qed

lemma label_no_space: "in_class label_class c \<Longrightarrow> \<not> py_isspace c"
  by (auto simp: label_chars py_isspace_def Let_def)

text \<open>Without a label the pattern ends after the third number; with one it takes the dash and the whole label\<close>

lemma runs_label_none: "runs label_re \<lparr>prev = c, rest = [], groups = g\<rparr> = [\<lparr>prev = c, rest = [], groups = g\<rparr>]"
  by (simp add: label_re_def opt_def one_of_def many1_def)

lemma runs_label_some:
  assumes "pre \<noteq> []" and "list_all (in_class label_class) pre"
  shows "\<exists>qs. runs label_re \<lparr>prev = c, rest = CHR ''-'' # pre, groups = g\<rparr> =
    \<lparr>prev = Some (last pre), rest = [], groups = (4, pre) # g\<rparr> # qs"
proof -
  obtain qs where "runs (Group 4 (many1 (Chars label_class))) \<lparr>prev = Some (CHR ''-''), rest = pre @ [], groups = g\<rparr> =
      \<lparr>prev = Some (last pre), rest = [], groups = (4, pre) # g\<rparr> # qs"
    using runs_Group_many1 [OF assms, of "[]" 4 "Some (CHR ''-'')" g] by blast
  then show ?thesis by (simp add: label_re_def opt_def one_of_def)
qed

lemma runs_version:
  assumes "list_all (in_class label_class) pre"
  shows "\<exists>q qs. runs version_re \<lparr>prev = None, rest = render_version a b c pre, groups = []\<rparr> = q # qs
    \<and> rest q = [] \<and> groups q = (if pre = [] then [] else [(4, pre)]) @ [(3, nat_str c), (2, nat_str b), (1, nat_str a)]"
proof -
  let ?suffix = "if pre = [] then [] else CHR ''-'' # pre"
  let ?g = "[(2, nat_str b), (1, nat_str a)]"
  note d = nat_str_digits
  have v: "hd (nat_str a @ t) \<noteq> CHR ''v''" for t
    using d [of a] digit_not_special by (cases "nat_str a") auto
  have end3: "?suffix = [] \<or> \<not> in_class Digit (hd ?suffix)" by (simp add: is_digit_def)
  have d3: "list_all (in_class Digit) (nat_str c)" using d [of c] by (simp add: list_all_iff)
  obtain ps where ps: "runs (number_re 3) \<lparr>prev = Some (CHR ''.''), rest = nat_str c @ ?suffix, groups = ?g\<rparr> =
      \<lparr>prev = Some (last (nat_str c)), rest = ?suffix, groups = (3, nat_str c) # ?g\<rparr> # ps"
    using runs_Group_many1 [OF _ d3 end3, of 3 "Some (CHR ''.'')" ?g] d [of c] unfolding number_re_def by blast
  have skip: "runs (Seq (opt (Chars (Only (CHR ''v'')))) r) \<lparr>prev = None, rest = s, groups = []\<rparr> =
      runs r \<lparr>prev = None, rest = s, groups = []\<rparr>" if "hd s \<noteq> CHR ''v''" for r s
    using that by (cases s) (simp_all add: opt_def)
  have shown: "render_version a b c pre = nat_str a @ CHR ''.'' # nat_str b @ CHR ''.'' # nat_str c @ ?suffix"
    by (simp add: render_version_def)
  have "runs version_re \<lparr>prev = None, rest = render_version a b c pre, groups = []\<rparr> =
      runs (Seq (number_re 3) label_re) \<lparr>prev = Some (CHR ''.''), rest = nat_str c @ ?suffix, groups = ?g\<rparr>"
    unfolding version_re_def shown using d by (simp only: skip v runs_number_dot not_False_eq_True)
  then have first: "runs version_re \<lparr>prev = None, rest = render_version a b c pre, groups = []\<rparr> =
      runs label_re \<lparr>prev = Some (last (nat_str c)), rest = ?suffix, groups = (3, nat_str c) # ?g\<rparr>
        @ concat (map (runs label_re) ps)"
    using ps by simp
  show ?thesis
  proof (cases "pre = []")
    case True
    then show ?thesis using first by (simp add: runs_label_none)
  next
    case False
    then show ?thesis
      using first runs_label_some [OF False assms, of "Some (last (nat_str c))" "(3, nat_str c) # ?g"] by auto
  qed
qed

lemma parse_version_render:
  assumes "list_all (in_class label_class) pre"
  shows "parse_version (Some (render_version a b c pre)) = Some (Version_key a b c (if pre \<noteq> [] then 0 else 1) pre)"
proof -
  have "list_all (\<lambda>x. \<not> py_isspace x) (render_version a b c pre)"
    using nat_str_digits assms digit_not_special label_no_space
    by (auto simp: render_version_def list_all_iff) (auto simp: py_isspace_def)
  then have strip: "py_strip (render_version a b c pre) = render_version a b c pre"
    by (rule py_strip_plain)
  obtain q qs where q: "runs version_re \<lparr>prev = None, rest = render_version a b c pre, groups = []\<rparr> = q # qs"
      "rest q = []" "groups q = (if pre = [] then [] else [(4, pre)]) @ [(3, nat_str c), (2, nat_str b), (1, nat_str a)]"
    using runs_version [OF assms] by blast
  then have "version_match (render_version a b c pre) = Some q"
    by (simp add: version_match_def at_dollar_def)
  moreover have "group_of 1 q = nat_str a \<and> group_of 2 q = nat_str b \<and> group_of 3 q = nat_str c \<and> group_of 4 q = pre"
    using q(3) by (auto simp: group_of_def)
  ultimately show ?thesis by (simp add: parse_version_def strip)
qed

text \<open>
  Which version is newer. For versions of three numbers and an optional pre-release label: the
  numbers are compared one after the other as numbers; where they agree, a release is newer than
  each of its pre-releases, and of two pre-releases the one whose label comes later as a text.
\<close>

theorem is_newer_correct:
  assumes "list_all (in_class label_class) pre" and "list_all (in_class label_class) pre'"
  shows "is_newer (Some (render_version a b c pre)) (Some (render_version a' b' c' pre')) \<longleftrightarrow>
    a' < a \<or> a' = a \<and> (b' < b \<or> b' = b \<and> (c' < c \<or> c' = c \<and>
      (pre' \<noteq> [] \<and> pre = [] \<or> pre' \<noteq> [] \<and> pre \<noteq> [] \<and> pre' < pre)))"
  using assms
  by (auto simp: is_newer_def parse_version_render less_version_key_def key_tuple_def Let_def)

lemma is_newer_correct_witness:
  "is_newer (Some (render_version 1 10 0 [])) (Some (render_version 1 9 7 []))
   \<and> is_newer (Some (render_version 1 5 0 [])) (Some (render_version 1 5 0 ''rc.1''))"
  using is_newer_correct [of "[]" "[]" 1 10 0 1 9 7] is_newer_correct [of "[]" "''rc.1''" 1 5 0 1 5 0]
  by (simp add: label_chars)

text \<open>Labels are compared as texts: the tenth release candidate does not count as newer than the ninth\<close>

lemma tenth_candidate_not_newer: "\<not> is_newer (Some ''1.5.0-rc.10'') (Some ''1.5.0-rc.9'')"
  by code_simp

section \<open>What a matched text consists of\<close>

fun over :: "(char \<Rightarrow> bool) \<Rightarrow> re \<Rightarrow> bool" where
  "over P Eps = True"
| "over P (Chars cl) = (\<forall>x. in_class cl x \<longrightarrow> P x)"
| "over P (Seq r q) = (over P r \<and> over P q)"
| "over P (Or r q) = (over P r \<and> over P q)"
| "over P (Many r) = over P r"
| "over P (Group k r) = over P r"
| "over P Word_edge = True"

definition consumed :: "(char \<Rightarrow> bool) \<Rightarrow> pos \<Rightarrow> pos \<Rightarrow> bool" where
  "consumed P p q \<longleftrightarrow> (\<exists>u. rest p = u @ rest q \<and> list_all P u)"

lemma consumed_refl [simp]: "consumed P p p"
  by (simp add: consumed_def)

lemma consumed_trans: "consumed P p q \<Longrightarrow> consumed P q r \<Longrightarrow> consumed P p r"
  by (force simp: consumed_def)

lemma consumed_groups [simp]: "consumed P p (q\<lparr>groups := g\<rparr>) = consumed P p q"
  by (simp add: consumed_def)

lemma runs_consumed: "over P r \<Longrightarrow> q \<in> set (runs r p) \<Longrightarrow> consumed P p q"
proof (induction r p arbitrary: q rule: runs.induct)
  case (2 cl p)
  then show ?case by (cases "rest p") (auto simp: consumed_def split: if_splits)
next
  case (3 r q' p)
  then show ?case by (auto intro: consumed_trans)
next
  case (5 r p)
  from iffD1 [OF in_runs_Many "5.prems"(2)] show ?case
    using "5.IH" "5.prems"(1) by (auto intro: consumed_trans)
qed (auto split: if_splits)

definition version_char :: "char \<Rightarrow> bool" where
  "version_char c = (in_class label_class c \<or> py_isspace c)"

lemma version_re_over: "over version_char version_re"
  by (auto simp: version_re_def opt_def number_re_def many1_def label_re_def one_of_def version_char_def label_chars is_digit_def Let_def)

lemma parsed_chars:
  assumes "parse_version (Some tag) \<noteq> None"
  shows "list_all version_char tag"
proof -
  obtain q where q: "version_match (py_strip tag) = Some q"
    using assms by (auto simp: parse_version_def split: option.splits)
  then have "q \<in> set (runs version_re \<lparr>prev = None, rest = py_strip tag, groups = []\<rparr>)" and d: "at_dollar q"
    by (auto simp: version_match_def find_Some_iff)
  from runs_consumed [OF version_re_over this(1)] obtain u where u: "py_strip tag = u @ rest q" "list_all version_char u"
    by (auto simp: consumed_def)
  have "list_all version_char (rest q)" using d by (auto simp: at_dollar_def version_char_def py_isspace_def)
  moreover obtain l r where "tag = l @ py_strip tag @ r" "list_all py_isspace l" "list_all py_isspace r"
    using strip_split by blast
  ultimately show ?thesis using u by (metis (no_types, lifting) list_all_append list_all_iff version_char_def)
qed

section \<open>The checker\<close>

definition new_checker :: "string \<Rightarrow> int \<Rightarrow> checker" where
  "new_checker version ttl =
     \<lparr>current_version = version, ttl_us = ttl, latest_release = None, last_attempt = None\<rparr>"

text \<open>A release that a page announced: no draft, no pre-release, with a tag that is a version\<close>

definition announces :: "visit \<Rightarrow> release \<Rightarrow> bool" where
  "announces v r \<longleftrightarrow>
     (\<exists>data. page v = Fetched 200 (Some (PDict data)) \<and> \<not> truthy (dget data ''draft'') \<and> \<not> truthy (dget data ''prerelease'')
        \<and> rel_tag r = or_empty (dget data ''tag_name'') \<and> parse_version (Some (rel_tag r)) \<noteq> None
        \<and> length (rel_notes r) \<le> max_notes_chars)"

lemma release_of_announces: "release_of wall (page v) = Some r \<Longrightarrow> announces v r"
  by (auto simp: release_of_def announces_def Let_def split: fetch.splits option.splits pyval.splits if_splits)

definition checker_ok :: "visit list \<Rightarrow> checker \<Rightarrow> bool" where
  "checker_ok vs ck \<longleftrightarrow> (\<forall>r. latest_release ck = Some r \<longrightarrow> (\<exists>v \<in> set vs. announces v r))"

lemma get_status_checker:
  assumes "get_status fmt v ck = ((s, asked), ck')"
  shows "s = status_of_release fmt ck' \<and> current_version ck' = current_version ck \<and> ttl_us ck' = ttl_us ck
    \<and> asked = is_stale (at_time v) ck \<and> last_attempt ck' = (if asked then Some (at_time v) else last_attempt ck)
    \<and> (latest_release ck' = latest_release ck \<or> (\<exists>r. latest_release ck' = Some r \<and> announces v r))"
  using assms release_of_announces [of "at_wall v" v]
  by (auto simp: get_status_def refresh_def Let_def split: option.splits)

text \<open>The version texts a status may show in a command\<close>

definition typed_status :: "string \<Rightarrow> pydict \<Rightarrow> bool" where
  "typed_status current s \<longleftrightarrow>
     map fst s = [''enabled'', ''current'', ''latest'', ''has_update'', ''html_url'', ''notes'', ''published_at'',
                  ''checked_at'', ''commands'']
     \<and> dget s ''enabled'' = PBool True \<and> dget s ''current'' = PStr current
     \<and> (\<exists>b. dget s ''has_update'' = PBool b)
     \<and> (\<exists>n. dget s ''notes'' = PStr n \<and> length n \<le> max_notes_chars)
     \<and> ((dget s ''latest'' = PNone \<and> dget s ''has_update'' = PBool False \<and> dget s ''html_url'' = PNone
           \<and> dget s ''checked_at'' = PNone \<and> dget s ''commands'' = PNone)
        \<or> (\<exists>latest url at. dget s ''latest'' = PStr latest \<and> list_all version_char latest \<and> dget s ''html_url'' = PStr url
             \<and> dget s ''checked_at'' = PStr at \<and> dget s ''commands'' = PDict (update_commands latest)))"

lemma lstrip_v_chars: "list_all P tag \<Longrightarrow> list_all P (lstrip_v tag)"
  unfolding lstrip_v_def list_all_iff by (blast dest: set_dropWhileD)

lemma status_keys [simp]:
  "dget (status_of_release fmt ck) ''has_update'' =
     (case latest_release ck of None \<Rightarrow> PBool False
      | Some r \<Rightarrow> PBool (is_newer (Some (lstrip_v (rel_tag r))) (Some (current_version ck))))"
  by (simp add: status_of_release_def dget_def Let_def split: option.splits)

lemma status_typed:
  assumes "checker_ok vs ck"
  shows "typed_status (current_version ck) (status_of_release fmt ck)"
proof (cases "latest_release ck")
  case None
  then show ?thesis by (simp add: status_of_release_def typed_status_def dget_def) blast
next
  case (Some r)
  then obtain v where "announces v r" using assms by (auto simp: checker_ok_def)
  then have "list_all version_char (lstrip_v (rel_tag r))" "length (rel_notes r) \<le> max_notes_chars"
    using parsed_chars lstrip_v_chars by (auto simp: announces_def)
  then show ?thesis using Some by (simp add: status_of_release_def typed_status_def dget_def Let_def)
qed

lemma visits_ok:
  assumes "checker_ok us ck" and "visits fmt vs ck = (rs, ck')"
  shows "\<forall>(s, asked) \<in> set rs. typed_status (current_version ck) s
      \<and> (dget s ''has_update'' = PBool True \<longrightarrow>
          (\<exists>v \<in> set us \<union> set vs. \<exists>r. announces v r \<and> is_newer (Some (lstrip_v (rel_tag r))) (Some (current_version ck))))"
  using assms
proof (induction vs arbitrary: us ck rs)
  case (Cons v vs)
  obtain s asked ck1 where g: "get_status fmt v ck = ((s, asked), ck1)" by (metis prod.exhaust)
  obtain rs' where r: "visits fmt vs ck1 = (rs', ck')" "rs = (s, asked) # rs'"
    using Cons.prems(2) g by (auto split: prod.splits)
  note step = get_status_checker [OF g]
  have ok: "checker_ok (v # us) ck1"
    using Cons.prems(1) step unfolding checker_ok_def by (metis list.set_intros(1) list.set_intros(2) option.inject)
  have "\<exists>w \<in> set (v # us). \<exists>r. announces w r \<and> is_newer (Some (lstrip_v (rel_tag r))) (Some (current_version ck))"
    if "dget s ''has_update'' = PBool True"
    using that step ok by (auto simp: checker_ok_def split: option.splits)
  moreover have "typed_status (current_version ck) s" using status_typed [OF ok] step by metis
  ultimately show ?case using Cons.IH [OF ok r(1)] r(2) step by fastforce
qed simp

text \<open>
  What administrators are shown is well typed and sound. Whatever the releases page answers over
  any sequence of visits, every status has the nine documented fields with their types and bounds;
  it reports an update only if the page had announced, in a 200 response, a release that is neither
  draft nor pre-release and whose version is newer; and the version in the suggested commands
  consists of letters, digits, dots, dashes and white space, so that nothing the page sends can
  leave the argument.
\<close>

theorem update_status_typed:
  "\<forall>(s, asked) \<in> set (fst (visits fmt vs (new_checker version ttl))).
     typed_status version s
     \<and> (dget s ''has_update'' = PBool True \<longrightarrow>
          (\<exists>v \<in> set vs. \<exists>r. announces v r \<and> is_newer (Some (lstrip_v (rel_tag r))) (Some version)))"
proof -
  have ok: "checker_ok [] (new_checker version ttl)" by (simp add: checker_ok_def new_checker_def)
  obtain rs ck' where v: "visits fmt vs (new_checker version ttl) = (rs, ck')" by fastforce
  have "current_version (new_checker version ttl) = version" by (simp add: new_checker_def)
  then show ?thesis using visits_ok [OF ok v] v by simp
qed

definition release_visit :: visit where
  "release_visit = \<lparr>at_time = 0, at_wall = 0, page = Fetched 200 (Some (PDict [(''tag_name'', PStr ''1.7.0'')]))\<rparr>"

lemma update_status_typed_witness:
  "\<exists>s. visits (\<lambda>_. ''now'') [release_visit] (new_checker ''1.6.0'' 60) = ([(s, True)], snd (visits (\<lambda>_. ''now'') [release_visit] (new_checker ''1.6.0'' 60)))
     \<and> typed_status ''1.6.0'' s \<and> dget s ''has_update'' = PBool True"
proof -
  let ?v = "visits (\<lambda>_. ''now'') [release_visit] (new_checker ''1.6.0'' 60)"
  have "render_version 1 7 0 [] = ''1.7.0''" "render_version 1 6 0 [] = ''1.6.0''" by code_simp+
  then have parsed: "parse_version (Some ''1.7.0'') = Some (Version_key 1 7 0 1 [])"
      "parse_version (Some ''1.6.0'') = Some (Version_key 1 6 0 1 [])"
    using parse_version_render [of "[]" 1 7 0] parse_version_render [of "[]" 1 6 0] by simp_all
  have "is_newer (Some ''1.7.0'') (Some ''1.6.0'')"
    by (simp add: is_newer_def parsed less_version_key_def key_tuple_def)
  moreover obtain r where "release_of 0 (page release_visit) = Some r \<and> rel_tag r = ''1.7.0''"
    by (simp add: release_of_def release_visit_def dget_def or_empty_def parsed)
  ultimately obtain s where s: "fst ?v = [(s, True)]" "dget s ''has_update'' = PBool True"
    by (simp add: get_status_def is_stale_def refresh_def new_checker_def release_visit_def lstrip_v_def Let_def)
  then have "typed_status ''1.6.0'' s"
    using update_status_typed [of "\<lambda>_. ''now''" "[release_visit]" "''1.6.0''" 60] by simp
  then show ?thesis using s by (metis prod.collapse)
qed

text \<open>When the page was asked\<close>

fun asked_at :: "visit list \<Rightarrow> (pydict \<times> bool) list \<Rightarrow> int list" where
  "asked_at (v # vs) ((s, asked) # rs) = (if asked then [at_time v] else []) @ asked_at vs rs"
| "asked_at _ _ = []"

lemma visits_spaced:
  assumes "sorted_wrt (\<le>) (map at_time vs)" and "\<forall>v \<in> set vs. \<forall>t. last_attempt ck = Some t \<longrightarrow> t \<le> at_time v"
    and "0 \<le> ttl_us ck"
  shows "sorted_wrt (\<lambda>s t. s + ttl_us ck \<le> t) (asked_at vs (fst (visits fmt vs ck)))
    \<and> (\<forall>t \<in> set (asked_at vs (fst (visits fmt vs ck))). t \<in> at_time ` set vs
          \<and> (\<forall>t0. last_attempt ck = Some t0 \<longrightarrow> t0 + ttl_us ck \<le> t))"
  using assms
proof (induction vs arbitrary: ck)
  case (Cons v vs)
  obtain s asked ck1 where g: "get_status fmt v ck = ((s, asked), ck1)" by (metis prod.exhaust)
  note step = get_status_checker [OF g]
  let ?ts = "asked_at vs (fst (visits fmt vs ck1))"
  have IH: "sorted_wrt (\<lambda>s t. s + ttl_us ck \<le> t) ?ts"
      "\<And>t. t \<in> set ?ts \<Longrightarrow> t \<in> at_time ` set vs \<and> (\<forall>t0. last_attempt ck1 = Some t0 \<longrightarrow> t0 + ttl_us ck \<le> t)"
    using Cons.IH [of ck1] Cons.prems step by (auto split: if_splits)
  have eq: "asked_at (v # vs) (fst (visits fmt (v # vs) ck)) = (if asked then [at_time v] else []) @ ?ts"
    using g by (simp split: prod.splits)
  show ?case
  proof (cases asked)
    case True
    then have "last_attempt ck1 = Some (at_time v)" using step by simp
    moreover have "last_attempt ck = Some t0 \<Longrightarrow> t0 + ttl_us ck \<le> at_time v" for t0
      using True step by (auto simp: is_stale_def)
    ultimately show ?thesis using IH True Cons.prems(3) unfolding eq by (fastforce simp: image_iff)
  next
    case False
    then show ?thesis using IH step unfolding eq by auto
  qed
qed simp

text \<open>
  The releases page is asked at most once per interval. On a clock that does not go backwards, any
  two requests that visits of administrators cause are at least \<open>ttl\<close> apart, whether the page
  answers or not.
\<close>

theorem update_requests_spaced:
  assumes "sorted_wrt (\<le>) (map at_time vs)" and "0 \<le> ttl"
  shows "sorted_wrt (\<lambda>s t. s + ttl \<le> t) (asked_at vs (fst (visits fmt vs (new_checker version ttl))))"
  using visits_spaced [of vs "new_checker version ttl" fmt] assms by (simp add: new_checker_def)

definition quiet_visit :: "int \<Rightarrow> visit" where
  "quiet_visit t = \<lparr>at_time = t, at_wall = t, page = Fetch_failed\<rparr>"

lemma update_requests_spaced_witness:
  "sorted_wrt (\<lambda>s t. s + 10 \<le> t) [0, 12 :: int]
   \<and> asked_at (map quiet_visit [0, 9, 12]) (fst (visits (\<lambda>_. []) (map quiet_visit [0, 9, 12]) (new_checker ''1.6.0'' 10))) = [0, 12]"
proof -
  have "asked_at (map quiet_visit [0, 9, 12]) (fst (visits (\<lambda>_. []) (map quiet_visit [0, 9, 12]) (new_checker ''1.6.0'' 10))) = [0, 12]"
    by (simp add: quiet_visit_def new_checker_def get_status_def is_stale_def refresh_def release_of_def Let_def)
  moreover have "sorted_wrt (\<le>) (map at_time (map quiet_visit [0, 9, 12]))" by (simp add: quiet_visit_def)
  ultimately show ?thesis
    using update_requests_spaced [of "map quiet_visit [0, 9, 12]" 10 "\<lambda>_. []" "''1.6.0''"] by simp
qed

end
