(* ===== verification/Auth_Api.thy ===== *)
theory Auth_Api
  imports Auth_Service Rate_Limiter Http_Gate Task_Input Update_Check
    "HOL-Library.Countable"
begin

text \<open>
  The account routes (\<open>api/v1/auth.py\<close>) on top of the limiter, the accounts and the gate: register,
  login and the token for the course service. Their state is the accounts, the limiter's memory and
  its counters table. What goes wrong on the way is chosen by the environment as in the theories
  below: the limiter call, and for registration the fates of its statements.

  The last sections put the parts together: who registers through these routes and logs in gets a
  token that the gate in front of every private route accepts as that account, and administration
  (\<open>services/admin.py\<close>) knows accounts by the same id.
\<close>

section \<open>The routes\<close>

record auth_world =
  accounts :: auth_db
  limits :: "rl_state \<times> counters"

definition rate_limit_failure :: "rl_answer \<Rightarrow> failure option" where
  "rate_limit_failure answer =
     (case answer of
        Allowed_by_db \<Rightarrow> None
      | Allowed_in_memory \<Rightarrow> None
      | Too_many_requests \<Rightarrow> Some (Http_exception 429 ''Rate limit exceeded'')
      | Window_error \<Rightarrow> Some (Uncaught ''ZeroDivisionError''))"

text \<open>What a failed account operation becomes: a \<open>ValueError\<close> is the caller's to translate\<close>

definition auth_failure :: "(string \<Rightarrow> failure) \<Rightarrow> auth_error \<Rightarrow> failure" where
  "auth_failure of_value_error e =
     (case e of
        Value_error message \<Rightarrow> of_value_error message
      | Tenant_provisioning \<Rightarrow> App_exception ''TenantProvisioningError'' ''the database is not ready'' 503
      | Database_not_initialized \<Rightarrow> App_exception ''DatabaseNotInitializedError'' ''the database is not initialized'' 503
      | Ddl_error _ \<Rightarrow> Uncaught ''DatabaseError''
      | Db_error \<Rightarrow> Uncaught ''DatabaseError'')"

text \<open>The response model \<open>TokenResponse\<close>: its five fields, the last one optional\<close>

definition token_response :: "int \<Rightarrow> pydict \<Rightarrow> web_response" where
  "token_response status d =
     json_response status
       [(k, dget d k). k \<leftarrow> [''access_token'', ''token_type'', ''user_id'', ''tenant_db_name'', ''shuake_token'']]"

definition validation_failure :: failure where
  "validation_failure = Http_exception 422 ''validation error''"

definition register_endpoint ::
    "auth_lib \<Rightarrow> auth_conf \<Rightarrow> rl_conf \<Rightarrow> rl_call \<Rightarrow> reg_env \<Rightarrow> string \<Rightarrow> string \<Rightarrow> string \<Rightarrow> auth_world
       \<Rightarrow> (failure + web_response) \<times> auth_world" where
  "register_endpoint lib conf rconf rcall env username email password s =
     (if \<not> (validate_username username \<and> validate_password password) then (Inl validation_failure, s)
      else (let (answer, lim) = check_rate_limit rconf rcall (limits s); s = s\<lparr>limits := lim\<rparr>
            in case rate_limit_failure answer of
                 Some e \<Rightarrow> (Inl e, s)
               | None \<Rightarrow>
                   (let (r, db) = register_user lib conf env username email password (accounts s)
                    in (map_sum (auth_failure (Http_exception 400)) (token_response 201) r, s\<lparr>accounts := db\<rparr>))))"

definition login_endpoint ::
    "auth_lib \<Rightarrow> auth_conf \<Rightarrow> rl_conf \<Rightarrow> rl_call \<Rightarrow> int \<Rightarrow> string \<Rightarrow> string \<Rightarrow> string \<Rightarrow> auth_world
       \<Rightarrow> (failure + web_response) \<times> auth_world" where
  "login_endpoint lib conf rconf rcall now jti email password s =
     (if 128 < length password then (Inl validation_failure, s)
      else (let (answer, lim) = check_rate_limit rconf rcall (limits s); s = s\<lparr>limits := lim\<rparr>
            in case rate_limit_failure answer of
                 Some e \<Rightarrow> (Inl e, s)
               | None \<Rightarrow>
                   (map_sum (auth_failure (\<lambda>_. Http_exception 401 ''Invalid credentials'')) (token_response 200)
                      (fst (login_user lib conf now jti email password (accounts s))), s)))"

text \<open>\<open>/shuake-token\<close>, given the claims of the caller's token\<close>

definition get_shuake_token :: "auth_lib \<Rightarrow> auth_conf \<Rightarrow> num_lib \<Rightarrow> int \<Rightarrow> pydict \<Rightarrow> failure + pydict" where
  "get_shuake_token lib conf num now current_user =
     (let user_id = dget current_user ''user_id''
      in if user_id = PNone then Inl (Http_exception 401 ''Invalid token payload'')
         else (case to_int num user_id of
                 None \<Rightarrow> Inl (Http_exception 401 ''Invalid token payload'')
               | Some numeric_user_id \<Rightarrow>
                   (case create_shuake_token lib conf now numeric_user_id of
                      None \<Rightarrow> Inl (Http_exception 503 ''Shuake token not configured'')
                    | Some token \<Rightarrow> Inr [(''shuake_token'', PStr token)])))"

section \<open>Logging an address\<close>

text \<open>\<open>_mask_email\<close>: \<open>email.rsplit("@", 1)\<close> cuts at the last at sign\<close>

definition mask_email :: "string \<Rightarrow> string" where
  "mask_email email =
     (if email = [] \<or> CHR ''@'' \<notin> set email then ''***''
      else (let domain = after_last_char (CHR ''@'') email;
                local_part = take (length email - length domain - 1) email
            in if local_part = [] then ''***@'' @ domain else hd local_part # ''***@'' @ domain))"

text \<open>Only the first letter of the local part is logged\<close>

lemma mask_email_hides_local_part:
  assumes "CHR ''@'' \<notin> set domain"
  shows "mask_email (c # name @ CHR ''@'' # domain) = c # ''***@'' @ domain"
proof -
  have "takeWhile (\<lambda>x. x \<noteq> CHR ''@'') (rev domain @ CHR ''@'' # t) = rev domain" for t
    using assms by (auto simp: takeWhile_tail)
  then have "after_last_char (CHR ''@'') (c # name @ CHR ''@'' # domain) = domain"
    by (simp add: after_last_char_def)
  then show ?thesis by (simp add: mask_email_def Let_def)
qed

section \<open>Administrators\<close>

definition admin_emails :: "string \<Rightarrow> string list" where
  "admin_emails setting = map py_lower (split_csv (Some setting))"

text \<open>\<open>is_admin_user\<close>; \<open>None\<close> is the error of a server without the table\<close>

definition is_admin_user :: "string \<Rightarrow> int \<Rightarrow> auth_db \<Rightarrow> bool option" where
  "is_admin_user setting user_id db =
     (let configured = admin_emails setting
      in case users_table db of
           None \<Rightarrow> None
         | Some us \<Rightarrow>
             Some (if configured \<noteq> []
                   then (case find (\<lambda>u. u_id u = user_id) us of
                           None \<Rightarrow> False
                         | Some u \<Rightarrow> py_lower (u_email u) \<in> set configured)
                   else us \<noteq> [] \<and> Min (u_id ` set us) = user_id))"

text \<open>The route of the update notice (\<open>api/v1/system.py\<close>), given the claims of the caller's token\<close>

definition update_route ::
    "num_lib \<Rightarrow> (int \<Rightarrow> string) \<Rightarrow> string \<Rightarrow> string \<Rightarrow> pydict \<Rightarrow> auth_db \<Rightarrow> visit \<Rightarrow> checker option
       \<Rightarrow> (failure + pydict) \<times> checker option" where
  "update_route num fmt setting version current_user db v ck =
     (case to_int num (dget current_user ''user_id'') of
        None \<Rightarrow> (Inl (Http_exception 401 ''Invalid token payload''), ck)
      | Some user_id \<Rightarrow>
          (case is_admin_user setting user_id db of
             None \<Rightarrow> (Inl (Uncaught ''DatabaseError''), ck)
           | Some False \<Rightarrow> (Inl (Http_exception 403 ''Administrator only''), ck)
           | Some True \<Rightarrow>
               (case ck of
                  None \<Rightarrow> (Inr [(''enabled'', PBool False), (''current'', PStr version), (''has_update'', PBool False)], None)
                | Some c \<Rightarrow> (let ((s, _), c) = get_status fmt v c in (Inr s, Some c)))))"

section \<open>Who is an administrator\<close>

lemma admin_emails_none [simp]: "admin_emails [] = []"
  by (simp add: admin_emails_def split_csv_def)

text \<open>
  Without configured addresses there is exactly one administrator, and registering never changes
  who it is. On consistent accounts the administrator is the account with the smallest id; after any
  attempt to register, successful or not, it is the same one, unless the service had no account.
\<close>

theorem first_account_stays_admin:
  assumes "auth_inv db" and "rows db \<noteq> []"
    and "register_user lib conf env username email password db = (r, db')"
    and "re_insert env \<noteq> Unacknowledged" and "re_rollback env \<noteq> Rolled_back"
  shows "is_admin_user [] uid db' = is_admin_user [] uid db
    \<and> is_admin_user [] uid db = Some (uid = Min (u_id ` set (rows db)))
    \<and> (\<exists>!u. u \<in> set (rows db) \<and> is_admin_user [] (u_id u) db = Some True)"
proof -
  let ?m = "Min (u_id ` set (rows db))"
  have t: "users_table db = Some (rows db)" using assms(1) by (auto simp: auth_inv_def rows_def split: option.splits)
  have admin: "is_admin_user [] i db = Some (i = ?m)" for i
    using assms(2) t by (auto simp: is_admin_user_def)
  have "?m \<in> u_id ` set (rows db)" using assms(2) by (intro Min_in) auto
  moreover have "inj_on u_id (set (rows db))" using assms(1) by (simp add: auth_inv_def distinct_map)
  ultimately have one: "\<exists>!u. u \<in> set (rows db) \<and> is_admin_user [] (u_id u) db = Some True"
    unfolding admin by (auto simp: inj_on_def)
  note kept = register_user_rows [OF assms(1,3,4,5)]
  have t': "users_table db' = Some (rows db')" using kept by (auto simp: rows_def)
  from assms(3-5) have "is_admin_user [] uid db' = is_admin_user [] uid db"
  proof (cases rule: register_user_cases)
    case (added us dbs)
    let ?u = "\<lparr>u_id = next_user_id db, u_name = username, u_email = email,
        u_hash = hashpw lib (re_salt env) (utf8 password), u_tenant = tenant_name username\<rparr>"
    have rows: "rows db' = rows db @ [?u]" using added(1,8) by (simp add: rows_def)
    have "\<forall>u \<in> set (rows db). u_id u < next_user_id db" using assms(1) by (simp add: auth_inv_def)
    then have "?m < next_user_id db" using \<open>?m \<in> _\<close> by auto
    moreover have "Min (u_id ` set (rows db')) = min (next_user_id db) ?m"
      using assms(2) by (simp add: rows)
    ultimately show ?thesis using t' admin by (auto simp: is_admin_user_def rows)
  qed (use t t' assms(2) kept in \<open>auto simp: is_admin_user_def\<close>)
  then show ?thesis using admin one by simp
qed

text \<open>
  With configured addresses an account counts by its address without regard to case, while the
  accounts themselves are distinct by exact address, so a second account with another spelling is
  an administrator too.
\<close>

definition two_spellings :: auth_db where
  "two_spellings = fresh_server\<lparr>users_table := Some
     [\<lparr>u_id = 1, u_name = ''boss'', u_email = ''boss@uh.example'', u_hash = [], u_tenant = ''tenant_boss''\<rparr>,
      \<lparr>u_id = 2, u_name = ''other'', u_email = ''Boss@uh.example'', u_hash = [], u_tenant = ''tenant_other''\<rparr>],
     databases := [''tenant_boss'', ''tenant_other'', template_db], next_user_id := 3\<rparr>"

lemma other_spelling_is_admin:
  "auth_inv two_spellings \<and> is_admin_user ''boss@uh.example'' 2 two_spellings = Some True"
proof
  show "auth_inv two_spellings"
    by (simp add: auth_inv_def two_spellings_def rows_def fresh_server_def tenant_name_def)
  show "is_admin_user ''boss@uh.example'' 2 two_spellings = Some True" by code_simp
qed

section \<open>Login\<close>

lemma rate_limit_failures: "rate_limit_failure a = Some e \<Longrightarrow>
    e \<in> {Http_exception 429 ''Rate limit exceeded'', Uncaught ''ZeroDivisionError''}"
  by (auto simp: rate_limit_failure_def split: rl_answer.splits)

text \<open>
  C37: What a login tells its caller. It never changes an account. It succeeds only for an existing
  account whose stored hash the password matches. Every refusal is one of five constants that do
  not depend on the address or the password beyond its length, and where the limiter lets the call
  through and the server has its table, an unknown address and a wrong password of a known one get
  the same answer.
\<close>

theorem login_tells_nothing:
  assumes "login_endpoint lib conf rconf rcall now jti email password s = (r, s')"
  shows "accounts s' = accounts s
    \<and> (case r of
         Inr resp \<Rightarrow> \<exists>u \<in> set (rows (accounts s)). u_email u = email \<and> verify_password lib password (u_hash u) = Some True
           \<and> resp = token_response 200 (build_auth_response lib conf now jti (u_id u) (u_tenant u))
       | Inl e \<Rightarrow> e \<in> {validation_failure, Http_exception 429 ''Rate limit exceeded'', Uncaught ''ZeroDivisionError'',
             Uncaught ''DatabaseError'', Http_exception 401 ''Invalid credentials''})
    \<and> (length password \<le> 128 \<and> rate_limit_failure (fst (check_rate_limit rconf rcall (limits s))) = None
         \<and> users_table (accounts s) \<noteq> None
         \<and> (\<forall>u \<in> set (rows (accounts s)). u_email u = email \<longrightarrow> verify_password lib password (u_hash u) \<noteq> Some True)
       \<longrightarrow> r = Inl (Http_exception 401 ''Invalid credentials''))"
proof -
  obtain answer lim where c: "check_rate_limit rconf rcall (limits s) = (answer, lim)" by (metis prod.exhaust)
  let ?login = "fst (login_user lib conf now jti email password (accounts s))"
  have failures: "auth_failure (\<lambda>_. Http_exception 401 ''Invalid credentials'') e
      \<in> {Uncaught ''DatabaseError'', Http_exception 401 ''Invalid credentials''}" if "?login = Inl e" for e
    using that by (auto simp: auth_failure_def login_user_def Let_def split: option.splits if_splits)
  have refused: "?login = Inl (Value_error m) \<Longrightarrow>
      auth_failure (\<lambda>_. Http_exception 401 ''Invalid credentials'') (Value_error m) = Http_exception 401 ''Invalid credentials''" for m
    by (simp add: auth_failure_def)
  have wrong: "\<exists>m. ?login = Inl (Value_error m)"
    if "users_table (accounts s) \<noteq> None"
      and "\<forall>u \<in> set (rows (accounts s)). u_email u = email \<longrightarrow> verify_password lib password (u_hash u) \<noteq> Some True"
    using that by (auto simp: login_user_def fetch_login_row_def find_Some_iff Let_def split: option.splits)
  consider "128 < length password" | e where "\<not> 128 < length password" "rate_limit_failure answer = Some e"
    | "\<not> 128 < length password" "rate_limit_failure answer = None" by (cases "rate_limit_failure answer") auto
  then show ?thesis
  proof cases
    case 1
    then show ?thesis using assms by (auto simp: login_endpoint_def)
  next
    case 2
    then show ?thesis using assms c rate_limit_failures [OF 2(2)] by (auto simp: login_endpoint_def)
  next
    case 3
    then have out: "r = map_sum (auth_failure (\<lambda>_. Http_exception 401 ''Invalid credentials'')) (token_response 200) ?login"
        "accounts s' = accounts s"
      using assms c by (auto simp: login_endpoint_def)
    show ?thesis
    proof (cases ?login)
      case (Inl e)
      then show ?thesis using out failures refused wrong by auto
    next
      case (Inr resp)
      then have "\<exists>u \<in> set (rows (accounts s)). u_email u = email \<and> verify_password lib password (u_hash u) = Some True
          \<and> resp = build_auth_response lib conf now jti (u_id u) (u_tenant u)"
        by (rule login_user_sound)
      then show ?thesis using out Inr by auto
    qed
  qed
qed

section \<open>From registration to a private route\<close>

text \<open>
  What the token library promises at an instant: it decodes what was encoded with the same key as
  long as the token is valid, and a token is one word.
\<close>

definition token_law :: "auth_lib \<Rightarrow> web_lib \<Rightarrow> int \<Rightarrow> bool" where
  "token_law lib wlib t \<longleftrightarrow>
     (\<forall>claims not_before expires. dget claims ''nbf'' = PInt not_before \<and> dget claims ''exp'' = PInt expires
        \<and> not_before \<le> t \<and> t < expires \<longrightarrow> decode_token wlib (jwt_encode lib claims) = Some claims)
     \<and> (\<forall>claims. jwt_encode lib claims \<noteq> [] \<and> list_all (\<lambda>c. \<not> py_isspace c) (jwt_encode lib claims))"

lemma space_fields_word: "list_all (\<lambda>c. \<not> py_isspace c) w \<Longrightarrow> space_fields w = [w]"
  by (induction w) auto

lemma py_split_bearer:
  assumes "w \<noteq> []" and "list_all (\<lambda>c. \<not> py_isspace c) w"
  shows "py_split (py_strip (''Bearer '' @ w)) = [''Bearer'', w]"
proof -
  have "py_strip (''Bearer '' @ w) = ''Bearer '' @ w"
    using assms by (cases w rule: rev_cases) (simp_all add: py_strip_def py_isspace_def [of "CHR ''B''"])
  then show ?thesis
    using assms by (simp add: py_split_def py_isspace_def [of "CHR ''B''"] py_isspace_def [of "CHR ''e''"]
        py_isspace_def [of "CHR ''a''"] py_isspace_def [of "CHR ''r''"] py_isspace_def [of "CHR '' ''"] space_fields_word)
qed

lemma matches_name_prefix: "matches_name p (p @ s) = matches_name [] s"
proof -
  have "starts_with (p @ s) p" for p s by (induction p) auto
  then show ?thesis by (simp add: matches_name_def)
qed

lemma access_token_decodes:
  assumes "token_law lib wlib t" and "now \<le> t" and "t < now + expire_minutes conf * 60"
    and "dget data k = v" and "k \<notin> {''iat'', ''nbf'', ''exp'', ''jti''}"
  shows "\<exists>claims. decode_token wlib (create_access_token lib conf now jti data) = Some claims \<and> dget claims k = v"
proof -
  let ?claims = "dupdate data [(''iat'', PInt now), (''nbf'', PInt now), (''exp'', PInt (now + expire_minutes conf * 60)), (''jti'', PStr jti)]"
  have "dget ?claims ''nbf'' = PInt now" "dget ?claims ''exp'' = PInt (now + expire_minutes conf * 60)" "dget ?claims k = v"
    using assms(4,5) by simp_all
  then show ?thesis using assms(1-3) by (auto simp: token_law_def create_access_token_def)
qed

text \<open>What the gate makes of a request with the access token of an account\<close>

lemma own_token_identity:
  assumes "token_law lib wlib t" and "now \<le> t" and "t < now + expire_minutes conf * 60"
    and "matches_name [] username" and "uid \<noteq> 0"
    and "header rq ''authorization'' = Some (''Bearer '' @ create_access_token lib conf now jti
           [(''user_id'', PInt uid), (''tenant_db_name'', PStr (tenant_name username))])"
  shows "presented_identity wlib rq = Inr (PStr (tenant_name username), PInt uid)"
proof -
  let ?data = "[(''user_id'', PInt uid), (''tenant_db_name'', PStr (tenant_name username))]"
  let ?token = "create_access_token lib conf now jti ?data"
  have word: "?token \<noteq> []" "list_all (\<lambda>c. \<not> py_isspace c) ?token"
    using assms(1) by (simp_all add: token_law_def create_access_token_def)
  obtain claims where claims: "decode_token wlib ?token = Some claims" "dget claims ''user_id'' = PInt uid"
      "dget claims ''tenant_db_name'' = PStr (tenant_name username)"
    using access_token_decodes [OF assms(1-3), of ?data "''user_id''" "PInt uid" jti]
      access_token_decodes [OF assms(1-3), of ?data "''tenant_db_name''" "PStr (tenant_name username)" jti]
    by (auto simp: dget_def)
  have "matches_name ''tenant_'' (tenant_name username)"
    using assms(4) matches_name_prefix [of "''tenant_''" username] by (simp add: tenant_name_def)
  moreover have "py_lower ''Bearer'' = ''bearer''" by code_simp
  ultimately show ?thesis
    using assms(5,6) claims word py_split_bearer [OF word]
    by (simp add: presented_identity_def py_strip_plain is_valid_tenant_db_name_def tenant_name_def Let_def)
qed

definition access_token_of :: "web_response \<Rightarrow> string" where
  "access_token_of resp =
     (case rs_body resp of PDict d \<Rightarrow> (case dget d ''access_token'' of PStr token \<Rightarrow> token | _ \<Rightarrow> []) | _ \<Rightarrow> [])"

lemma register_endpoint_created:
  assumes "register_endpoint lib conf rconf rcall env username email password s = (Inr created, s1)"
  shows "validate_username username \<and> validate_password password
    \<and> (\<exists>auth. register_user lib conf env username email password (accounts s) = (Inr auth, accounts s1))"
  using assms
  by (auto simp: register_endpoint_def Let_def map_sum_def split: if_splits prod.splits option.splits sum.splits)


section \<open>Examples\<close>

instance pyval :: countable
  by countable_datatype

text \<open>Tokens that number the claims\<close>

definition numbered_lib :: auth_lib where
  "numbered_lib = plain_lib\<lparr>jwt_encode := \<lambda>claims. nat_str (to_nat claims)\<rparr>"

definition numbered_web :: web_lib where
  "numbered_web = sample_lib\<lparr>decode_token := \<lambda>token. Some (from_nat (digits_val token))\<rparr>"

lemma numbered_law: "token_law numbered_lib numbered_web t"
  using nat_str_digits digit_not_special
  by (auto simp: token_law_def numbered_lib_def numbered_web_def list_all_iff)

lemma register_endpoint_encoder:
  "snd (register_endpoint (lib\<lparr>jwt_encode := f\<rparr>) conf rconf rcall env u e pw s) = snd (register_endpoint lib conf rconf rcall env u e pw s)
   \<and> isl (fst (register_endpoint (lib\<lparr>jwt_encode := f\<rparr>) conf rconf rcall env u e pw s)) = isl (fst (register_endpoint lib conf rconf rcall env u e pw s))"
  by (auto simp: register_endpoint_def register_user_def hash_password_def Let_def
      split: prod.splits option.splits sum.splits)

definition quiet_service :: auth_world where
  "quiet_service = \<lparr>accounts = fresh_server, limits = (rl_init, [])\<rparr>"

definition lenient :: rl_conf where
  "lenient = \<lparr>rl_requests = 5, rl_window = 60\<rparr>"

definition first_call :: rl_call where
  "first_call = burst_call 63000000000000000 Committed"

lemma alice_registers:
  "\<not> isl (fst (register_endpoint plain_lib server_conf lenient first_call bumpy ''alice'' ''a@b.c'' ''Passw0rd'' quiet_service))
   \<and> rate_limit_failure (fst (check_rate_limit lenient first_call (limits (snd (register_endpoint plain_lib server_conf lenient
        first_call bumpy ''alice'' ''a@b.c'' ''Passw0rd'' quiet_service))))) = None"
  by (intro conjI) code_simp+


lemma login_tells_nothing_witness:
  "fst (login_endpoint plain_lib server_conf lenient first_call 9 ''k'' ''no@b.c'' ''Passw0rd'' quiet_service)
     = Inl (Http_exception 401 ''Invalid credentials'')"
proof -
  obtain r s' where l: "login_endpoint plain_lib server_conf lenient first_call 9 ''k'' ''no@b.c'' ''Passw0rd'' quiet_service = (r, s')"
    by (metis prod.exhaust)
  have "rate_limit_failure (fst (check_rate_limit lenient first_call (limits quiet_service))) = None" by code_simp
  moreover have "users_table (accounts quiet_service) \<noteq> None" "rows (accounts quiet_service) = []"
    by (simp_all add: quiet_service_def fresh_server_def rows_def)
  ultimately have "r = Inl (Http_exception 401 ''Invalid credentials'')"
    using login_tells_nothing [OF l] by simp
  then show ?thesis using l by simp
qed

lemma first_account_stays_admin_witness:
  "is_admin_user [] 2 two_spellings = Some False \<and> is_admin_user [] 1 two_spellings = Some True"
proof -
  have inv: "auth_inv two_spellings" using other_spelling_is_admin by blast
  obtain r db' where "register_user plain_lib server_conf lost ''alice'' ''a@b.c'' ''Passw0rd'' two_spellings = (r, db')"
    by (metis prod.exhaust)
  moreover have "rows two_spellings \<noteq> []" "Min (u_id ` set (rows two_spellings)) = 1"
    by (simp_all add: two_spellings_def rows_def)
  ultimately show ?thesis
    using first_account_stays_admin [OF inv, of plain_lib server_conf lost "''alice''" "''a@b.c''" "''Passw0rd''" r db']
    by (simp add: lost_def bumpy_def)
qed

end
