(* ===== verification/Answer_Bank.thy ===== *)
theory Answer_Bank
  imports Task_Input
begin

text \<open>
  Where the answers to quiz questions come from: what counts as an answer of the right kind
  (\<open>answer_check.py\<close>), the answer cache shared by the process (\<open>answer_cache.py\<close>), a question bank
  with its query path, and the chain of banks that falls back from one to the next
  (\<open>answer_base.py\<close>).

  What a bank's service answers is chosen by the environment: a text, nothing, or an exception. The
  texts of the program that are not Latin-1 (the Chinese words for right and wrong, two of the
  characters an answer is cut at, the brackets around the points of a question) are a parameter or
  cannot occur in a text of the model.
\<close>

section \<open>Answers of the right kind\<close>

definition cut_chars :: string where
  "cut_chars =
     [char_of (10 :: nat), CHR '','', CHR ''|'', char_of (13 :: nat), char_of (9 :: nat), CHR ''#'', CHR ''*'', CHR ''-'',
      CHR ''_'', CHR ''+'', CHR ''@'', CHR ''~'', CHR ''/'', char_of (92 :: nat), CHR ''.'', CHR ''&'', CHR '' '']"

definition pieces :: "char \<Rightarrow> string \<Rightarrow> string list" where
  "pieces c s = filter (\<lambda>w. w \<noteq> []) (map py_strip (split_on c s))"

text \<open>\<open>cut\<close>: at the first of the characters that occurs and leaves a piece\<close>

fun cut_at :: "string \<Rightarrow> string \<Rightarrow> string list option" where
  "cut_at [] answer = (let stripped = py_strip answer in if stripped \<noteq> [] then Some [stripped] else None)"
| "cut_at (c # cs) answer =
     (if c \<notin> set answer then cut_at cs answer
      else (let res = pieces c answer in if res \<noteq> [] then Some res else cut_at cs answer))"

definition cut :: "string \<Rightarrow> string list option" where
  "cut answer = cut_at cut_chars answer"

definition check_single :: "string \<Rightarrow> bool" where
  "check_single answer = (case cut answer of None \<Rightarrow> False | Some t \<Rightarrow> length t = 1)"

definition check_multiple :: "string \<Rightarrow> bool" where
  "check_multiple answer = (case cut answer of None \<Rightarrow> False | Some t \<Rightarrow> 0 < length t)"

definition check_judgement :: "string \<Rightarrow> string list \<Rightarrow> string list \<Rightarrow> int" where
  "check_judgement answer trues falses =
     (if answer \<in> set trues then 1 else if answer \<in> set falses then 0 else - 1)"

definition check_completion :: "string \<Rightarrow> bool" where
  "check_completion answer = (0 < length answer)"

definition check_answer :: "string \<Rightarrow> string \<Rightarrow> string list \<Rightarrow> string list \<Rightarrow> bool" where
  "check_answer answer kind trues falses =
     (if kind = ''single'' then check_single answer \<and> check_judgement answer trues falses = - 1
      else if kind = ''multiple'' then check_multiple answer \<and> check_judgement answer trues falses = - 1
      else if kind = ''completion'' then check_completion answer
      else if kind = ''judgement'' then check_judgement answer trues falses \<noteq> - 1
      else True)"

section \<open>The cache\<close>

text \<open>
  One snapshot per file, loaded when the first \<open>CacheDAO\<close> on it is made. A file that cannot be read
  as a dictionary counts as empty; what can be recovered from a damaged one is the parameter
  \<open>recover\<close>. A write that fails leaves the file as it was.
\<close>

datatype cache_file = No_file | Dictionary "(string \<times> pyval) list" | Damaged string

record answer_cache =
  snapshot :: "(string \<times> pyval) list"
  loaded :: bool
  on_disk :: cache_file

definition read_cache :: "(string \<Rightarrow> (string \<times> pyval) list option) \<Rightarrow> cache_file \<Rightarrow> (string \<times> pyval) list" where
  "read_cache recover disk =
     (case disk of
        No_file \<Rightarrow> []
      | Dictionary d \<Rightarrow> d
      | Damaged raw \<Rightarrow> (case recover raw of None \<Rightarrow> [] | Some d \<Rightarrow> d))"

definition write_cache :: "bool \<Rightarrow> (string \<times> pyval) list \<Rightarrow> cache_file \<Rightarrow> cache_file" where
  "write_cache written data disk = (if written then Dictionary data else disk)"

definition ensure_loaded ::
    "(string \<Rightarrow> (string \<times> pyval) list option) \<Rightarrow> bool \<Rightarrow> answer_cache \<Rightarrow> answer_cache" where
  "ensure_loaded recover written c =
     (if loaded c then c
      else if on_disk c = No_file
      then c\<lparr>on_disk := write_cache written [] (on_disk c), snapshot := [], loaded := True\<rparr>
      else c\<lparr>snapshot := read_cache recover (on_disk c), loaded := True\<rparr>)"

definition get_cache :: "string \<Rightarrow> answer_cache \<Rightarrow> pyval" where
  "get_cache question c = dget (snapshot c) question"

definition add_cache :: "bool \<Rightarrow> string \<Rightarrow> string \<Rightarrow> answer_cache \<Rightarrow> answer_cache" where
  "add_cache written question answer c =
     (let snap = dset question (PStr answer) (snapshot c)
      in c\<lparr>snapshot := snap, on_disk := write_cache written snap (on_disk c)\<rparr>)"

text \<open>A new process on the same file\<close>

definition restarted :: "answer_cache \<Rightarrow> answer_cache" where
  "restarted c = \<lparr>snapshot = [], loaded = False, on_disk = on_disk c\<rparr>"

section \<open>A question bank\<close>

record zh_words =
  right_default :: string
  wrong_default :: string
  right_words :: "string list"
  wrong_words :: "string list"
  right_signs :: "string list"
  wrong_signs :: "string list"
  read_images :: "string \<Rightarrow> string"
  strip_points :: "string \<Rightarrow> string"

record tiku =
  is_llm :: bool
  is_ai :: bool
  disabled :: bool
  direct_submit :: bool
  cover_rate_text :: string
  true_list :: "string list"
  false_list :: "string list"

definition default_true :: "zh_words \<Rightarrow> string list" where
  "default_true zh = right_words zh @ [''T'', ''True'', ''true'']"

definition default_false :: "zh_words \<Rightarrow> string list" where
  "default_false zh = wrong_words zh @ [''F'', ''False'', ''false'']"

definition bank_setting :: "pydict \<Rightarrow> string \<Rightarrow> string \<Rightarrow> pyval" where
  "bank_setting conf key d = (case map_of conf key of None \<Rightarrow> PStr d | Some v \<Rightarrow> v)"

text \<open>A configured list; \<open>None\<close> where a value that is no text has no \<open>split\<close>\<close>

definition configured_list :: "string list \<Rightarrow> pyval \<Rightarrow> string list option" where
  "configured_list defaults raw =
     (if \<not> truthy raw then Some defaults
      else (case raw of
              PStr s \<Rightarrow> (let items = filter (\<lambda>w. w \<noteq> []) (split_on (CHR '','') s)
                        in Some (if items \<noteq> [] then items else defaults))
            | _ \<Rightarrow> None))"

text \<open>\<open>init_tiku\<close> up to the bank's own part; \<open>None\<close> is the \<open>AttributeError\<close>\<close>

definition init_tiku :: "zh_words \<Rightarrow> num_lib \<Rightarrow> pydict \<Rightarrow> tiku \<Rightarrow> tiku option" where
  "init_tiku zh num conf t =
     (if conf = [] \<or> disabled t then Some (t\<lparr>disabled := True\<rparr>)
      else (let submit_val = py_lower (py_strip (py_str (bank_setting conf ''submit'' ''false'')));
                rate = (case to_float num (bank_setting conf ''cover_rate'' ''0.8'') of None \<Rightarrow> ''0.8'' | Some f \<Rightarrow> f)
            in case configured_list (default_true zh) (dget conf ''true_list'') of
                 None \<Rightarrow> None
               | Some trues \<Rightarrow>
                   map_option (\<lambda>falses. t\<lparr>direct_submit := (submit_val = ''true''), cover_rate_text := rate,
                                          true_list := trues, false_list := falses\<rparr>)
                     (configured_list (default_false zh) (dget conf ''false_list''))))"

definition get_submit_params :: "tiku \<Rightarrow> string" where
  "get_submit_params t = (if direct_submit t then [] else ''1'')"

text \<open>\<open>judgement_select\<close>, given the coin it tosses for an answer in neither list\<close>

definition judgement_select :: "tiku \<Rightarrow> bool \<Rightarrow> string \<Rightarrow> bool" where
  "judgement_select t coin answer =
     (if disabled t then False
      else if py_strip answer \<in> set (true_list t) then True
      else if py_strip answer \<in> set (false_list t) then False
      else coin)"

definition true_markers :: "zh_words \<Rightarrow> string list" where
  "true_markers zh = right_words zh @ right_signs zh @ [''true'', ''yes'', ''right'', ''correct'']"

definition false_markers :: "zh_words \<Rightarrow> string list" where
  "false_markers zh = wrong_words zh @ wrong_signs zh @ [''false'', ''no'', ''wrong'', ''incorrect'']"

definition normalize_judgement_answer :: "zh_words \<Rightarrow> tiku \<Rightarrow> string \<Rightarrow> string option" where
  "normalize_judgement_answer zh t answer =
     (if answer = [] then None
      else (let txt = py_strip answer
            in if txt \<in> set (true_list t) then Some txt
               else if txt \<in> set (false_list t) then Some txt
               else (let true_default = (case true_list t of [] \<Rightarrow> right_default zh | w # _ \<Rightarrow> w);
                         false_default = (case false_list t of [] \<Rightarrow> wrong_default zh | w # _ \<Rightarrow> w);
                         lowered = py_lower txt;
                         hit_true = list_ex (\<lambda>m. contains txt m \<or> contains lowered m) (true_markers zh);
                         hit_false = list_ex (\<lambda>m. contains txt m \<or> contains lowered m) (false_markers zh)
                     in if hit_true \<and> \<not> hit_false then Some true_default
                        else if hit_false \<and> \<not> hit_true then Some false_default
                        else None)))"

section \<open>Asking a bank\<close>

record question =
  q_id :: string
  q_type :: string
  q_title :: string
  q_options :: string
  q_source :: string
  q_fields :: "(string \<times> string) list"

text \<open>What the bank's own service does with a question\<close>

datatype reply = Raises string | Nothing | Answers string

definition prepared_title :: "zh_words \<Rightarrow> string \<Rightarrow> string" where
  "prepared_title zh title = strip_points zh (dropWhile is_digit (read_images zh title))"

text \<open>The answer a cached value gives: a value that is no text has no \<open>strip\<close>\<close>

definition cached_answer :: "pyval \<Rightarrow> (string + string option) option" where
  "cached_answer v =
     (if \<not> truthy v then None
      else Some (case v of PStr s \<Rightarrow> Inr (Some (py_strip s)) | _ \<Rightarrow> Inl ''AttributeError''))"

definition query ::
    "zh_words \<Rightarrow> bool \<Rightarrow> tiku \<Rightarrow> reply \<Rightarrow> question \<Rightarrow> answer_cache \<Rightarrow> (string + string option) \<times> answer_cache" where
  "query zh written t r q c =
     (if disabled t then (Inr None, c)
      else (let title = prepared_title zh (q_title q)
            in case cached_answer (get_cache title c) of
                 Some out \<Rightarrow> (out, c)
               | None \<Rightarrow>
                   (case r of
                      Raises e \<Rightarrow> (Inl e, c)
                    | Nothing \<Rightarrow> (Inr None, c)
                    | Answers raw \<Rightarrow>
                        if raw = [] then (Inr None, c)
                        else (let answer = py_strip raw
                              in if is_llm t
                                 then (if q_type q = ''judgement''
                                       then (case normalize_judgement_answer zh t answer of
                                               None \<Rightarrow> (Inr None, c)
                                             | Some n \<Rightarrow> (Inr (Some n), add_cache written title n c))
                                       else (Inr (Some answer), add_cache written title answer c))
                                 else if check_answer answer (q_type q) (true_list t) (false_list t)
                                 then (Inr (Some answer), add_cache written title answer c)
                                 else (Inr None, c)))))"

section \<open>A chain of banks\<close>

text \<open>\<open>TikuFallback._query\<close>: the first bank with an answer of the right kind\<close>

fun chain_query :: "zh_words \<Rightarrow> (tiku \<times> reply) list \<Rightarrow> question \<Rightarrow> string option" where
  "chain_query zh [] q = None"
| "chain_query zh ((t, r) # banks) q =
     (case r of
        Answers raw \<Rightarrow>
          if raw = [] then chain_query zh banks q
          else (let answer = py_strip raw
                in if is_llm t
                   then (if q_type q = ''judgement''
                         then (case normalize_judgement_answer zh t answer of
                                 None \<Rightarrow> chain_query zh banks q
                               | Some n \<Rightarrow> Some n)
                         else Some answer)
                   else if check_answer answer (q_type q) (true_list t) (false_list t) then Some answer
                   else chain_query zh banks q)
      | _ \<Rightarrow> chain_query zh banks q)"

definition fallback_query ::
    "zh_words \<Rightarrow> bool \<Rightarrow> tiku \<Rightarrow> (tiku \<times> reply) list \<Rightarrow> question \<Rightarrow> answer_cache
       \<Rightarrow> (string + string option) \<times> answer_cache" where
  "fallback_query zh written chain banks q c =
     (if disabled chain then (Inr None, c)
      else (let title = prepared_title zh (q_title q)
            in case cached_answer (get_cache title c) of
                 Some out \<Rightarrow> (out, c)
               | None \<Rightarrow>
                   (case chain_query zh banks q of
                      None \<Rightarrow> (Inr None, c)
                    | Some answer \<Rightarrow>
                        if answer = [] then (Inr None, c)
                        else (Inr (Some (py_strip answer)), add_cache written title (py_strip answer) c))))"

text \<open>\<open>TikuFallback._init_tiku\<close>: the banks that initialise and stay enabled\<close>

definition active_banks :: "(tiku option) list \<Rightarrow> tiku list" where
  "active_banks inits = filter (\<lambda>t. \<not> disabled t) (concat (map (\<lambda>t. case t of None \<Rightarrow> [] | Some t \<Rightarrow> [t]) inits))"

definition init_fallback :: "tiku \<Rightarrow> (tiku option) list \<Rightarrow> tiku \<times> tiku list" where
  "init_fallback chain inits =
     (let banks = active_banks inits in (if banks = [] then chain\<lparr>disabled := True\<rparr> else chain, banks))"

definition wants_concurrent_query :: "tiku list \<Rightarrow> bool" where
  "wants_concurrent_query banks = list_ex is_ai banks"

section \<open>Choosing the bank\<close>

definition known_banks :: "string list" where
  "known_banks = [''TikuYanxi'', ''TikuGo'', ''TikuLike'', ''TikuAdapter'', ''LocalCache'', ''AI'', ''SiliconFlow'']"

datatype bank_choice = No_bank | One_bank string | Bank_chain "string list"

definition get_tiku_from_config :: "pydict \<Rightarrow> bank_choice" where
  "get_tiku_from_config conf =
     (if \<not> truthy (dget conf ''provider'') then No_bank
      else (let names = filter (\<lambda>n. n \<noteq> []) (map py_strip (split_on (CHR '','') (py_str (dget conf ''provider''))))
            in if names = [] then No_bank
               else if \<not> list_all (\<lambda>n. n \<in> set known_banks) names then No_bank
               else (case names of [n] \<Rightarrow> One_bank n | _ \<Rightarrow> Bank_chain names)))"

section \<open>Cutting\<close>

lemma py_strip_list_ends: "py_strip s = s \<or> py_strip (py_strip s) = py_strip s"
  by simp

lemma pieces_stripped: "w \<in> set (pieces c s) \<Longrightarrow> w \<noteq> [] \<and> py_strip w = w"
  by (auto simp: pieces_def)

lemma cut_at_pieces:
  "cut_at cs s = Some ws \<Longrightarrow> ws \<noteq> [] \<and> (\<forall>w \<in> set ws. w \<noteq> [] \<and> py_strip w = w)"
  by (induction cs) (auto simp: Let_def dest: pieces_stripped split: if_splits)

lemma cut_at_None: "cut_at cs s = None \<Longrightarrow> py_strip s = []"
  by (induction cs) (auto simp: Let_def split: if_splits)

lemma cut_pieces: "cut s = Some ws \<Longrightarrow> ws \<noteq> [] \<and> (\<forall>w \<in> set ws. w \<noteq> [] \<and> py_strip w = w)"
  unfolding cut_def by (rule cut_at_pieces)

lemma check_multiple_iff: "check_multiple s \<longleftrightarrow> cut s \<noteq> None"
  using cut_pieces by (force simp: check_multiple_def split: option.splits)

section \<open>What a query returns\<close>

lemma normalized_in_lists:
  "normalize_judgement_answer zh t a = Some n \<Longrightarrow>
     n \<in> set (true_list t) \<union> set (false_list t) \<or> n = right_default zh \<and> true_list t = [] \<or> n = wrong_default zh \<and> false_list t = []"
  by (auto simp: normalize_judgement_answer_def Let_def split: if_splits list.splits)

text \<open>An answer fits the question: of its kind for a plain bank, decided for a judgement of a language model\<close>

definition answer_fits :: "zh_words \<Rightarrow> tiku \<Rightarrow> question \<Rightarrow> string \<Rightarrow> bool" where
  "answer_fits zh t q a \<longleftrightarrow>
     (if is_llm t then q_type q = ''judgement'' \<longrightarrow>
          a \<in> set (true_list t) \<union> set (false_list t) \<or> a = right_default zh \<or> a = wrong_default zh
      else check_answer a (q_type q) (true_list t) (false_list t))"

definition cache_hit :: "zh_words \<Rightarrow> question \<Rightarrow> answer_cache \<Rightarrow> bool" where
  "cache_hit zh q c \<longleftrightarrow> truthy (get_cache (prepared_title zh (q_title q)) c)"

lemma cached_answer_None: "cached_answer v = None \<longleftrightarrow> \<not> truthy v"
  by (simp add: cached_answer_def)

lemma query_cases:
  assumes "query zh written t r q c = (out, c')" and "\<not> disabled t" and "\<not> cache_hit zh q c"
  obtains (none) "out = Inr None" "c' = c"
  | (raises) e where "r = Raises e" "out = Inl e" "c' = c"
  | (found) a raw where "r = Answers raw" "raw \<noteq> []" "out = Inr (Some a)" "answer_fits zh t q a"
      "c' = add_cache written (prepared_title zh (q_title q)) a c"
proof -
  have miss: "cached_answer (get_cache (prepared_title zh (q_title q)) c) = None"
    using assms(3) by (simp add: cache_hit_def cached_answer_None)
  show thesis
  proof (cases r)
    case (Raises e)
    then show thesis using assms(1,2) miss by (intro raises) (auto simp: query_def Let_def)
  next
    case Nothing
    then show thesis using assms(1,2) miss by (intro none) (auto simp: query_def Let_def)
  next
    case (Answers raw)
    let ?a = "py_strip raw" and ?n = "normalize_judgement_answer zh t (py_strip raw)"
    consider (blank) "raw = []"
      | (llm) "raw \<noteq> []" "is_llm t" "q_type q \<noteq> ''judgement''"
      | (judged) n where "raw \<noteq> []" "is_llm t" "q_type q = ''judgement''" "?n = Some n"
      | (undecided) "raw \<noteq> []" "is_llm t" "q_type q = ''judgement''" "?n = None"
      | (checked) "raw \<noteq> []" "\<not> is_llm t" "check_answer ?a (q_type q) (true_list t) (false_list t)"
      | (other) "raw \<noteq> []" "\<not> is_llm t" "\<not> check_answer ?a (q_type q) (true_list t) (false_list t)"
      by (cases ?n) auto
    then show thesis
    proof cases
      case judged
      then show thesis using assms(1,2) miss Answers normalized_in_lists [OF judged(4)]
        by (intro found [of raw n]) (auto simp: query_def answer_fits_def Let_def)
    next
      case llm
      then show thesis using assms(1,2) miss Answers
        by (intro found [of raw ?a]) (auto simp: query_def answer_fits_def Let_def)
    next
      case checked
      then show thesis using assms(1,2) miss Answers
        by (intro found [of raw ?a]) (auto simp: query_def answer_fits_def Let_def)
    qed (use assms(1,2) miss Answers in \<open>(intro none; auto simp: query_def Let_def)+\<close>)
  qed
qed

lemma get_after_add: "get_cache question (add_cache written question answer c) = PStr answer"
  by (simp add: get_cache_def add_cache_def Let_def)

text \<open>
  An answer that was found stays found. When a question that is not in the cache is answered, the
  answer is of the kind the question asks for, and every later question with the same title is
  answered alike from the cache, whatever bank is asked and whatever its service would say; and
  where the cache could be written, so it is after a restart of the process.
\<close>

theorem answers_are_kept:
  assumes "query zh written t r q c = (Inr (Some a), c')" and "\<not> cache_hit zh q c" and "\<not> disabled t'"
    and "prepared_title zh (q_title q') = prepared_title zh (q_title q)" and "py_strip a \<noteq> []"
  shows "answer_fits zh t q a
    \<and> query zh written' t' r' q' c' = (Inr (Some (py_strip a)), c')
    \<and> (written \<longrightarrow> fst (query zh written' t' r' q' (ensure_loaded recover written' (restarted c'))) = Inr (Some (py_strip a)))"
proof -
  have "\<not> disabled t" using assms(1) by (auto simp: query_def)
  with assms(1) show ?thesis using assms(2)
  proof (cases rule: query_cases)
    case (found a' raw)
    have "a \<noteq> []" using assms(5) by auto
    have hit: "get_cache (prepared_title zh (q_title q')) c' = PStr a"
      using found(3,5) assms(4) get_after_add by auto
    then have now: "query zh written' t' r' q' c' = (Inr (Some (py_strip a)), c')"
      using assms(3) \<open>a \<noteq> []\<close> by (simp add: query_def cached_answer_def Let_def)
    have "get_cache (prepared_title zh (q_title q')) (ensure_loaded recover written' (restarted c')) = PStr a" if written
      using hit found(5) that
      by (simp add: ensure_loaded_def restarted_def add_cache_def write_cache_def read_cache_def get_cache_def Let_def)
    then show ?thesis using found(3,4) now assms(3) \<open>a \<noteq> []\<close>
      by (simp add: query_def cached_answer_def Let_def)
  qed simp_all
qed

text \<open>
  A chain of one bank is that bank. For a bank that is enabled, with a service that neither
  raises nor answers with blanks, asking it through the fallback chain gives the same answer and
  leaves the same cache as asking it directly, for every kind of question and bank.
\<close>

theorem chain_of_one_is_the_bank:
  assumes "\<not> disabled t" and "\<not> disabled chain" and "\<forall>e. r \<noteq> Raises e" and "\<forall>raw. r = Answers raw \<longrightarrow> py_strip raw \<noteq> []"
    and "\<forall>w \<in> set (right_default zh # wrong_default zh # true_list t @ false_list t). w \<noteq> [] \<and> py_strip w = w"
  shows "fallback_query zh written chain [(t, r)] q c = query zh written t r q c"
proof (cases "cached_answer (get_cache (prepared_title zh (q_title q)) c)")
  case None
  show ?thesis
  proof (cases r)
    case (Answers raw)
    have blank: "py_strip raw \<noteq> []" "raw \<noteq> []" using assms(4) Answers by auto
    show ?thesis
    proof (cases "is_llm t \<and> q_type q = ''judgement''")
      case True
      have "n \<noteq> [] \<and> py_strip n = n" if "normalize_judgement_answer zh t (py_strip raw) = Some n" for n
        using normalized_in_lists [OF that] assms(5) by auto
      then show ?thesis using True None Answers blank assms(1,2)
        by (auto simp: fallback_query_def query_def Let_def split: option.splits)
    next
      case False
      then show ?thesis using None Answers blank assms(1,2)
        by (auto simp: fallback_query_def query_def Let_def)
    qed
  qed (use None assms(1-3) in \<open>auto simp: fallback_query_def query_def Let_def\<close>)
qed (use assms(1,2) in \<open>simp add: fallback_query_def query_def Let_def\<close>)

section \<open>Examples\<close>

definition plain_words :: zh_words where
  "plain_words = \<lparr>right_default = ''Right'', wrong_default = ''Wrong'', right_words = [''Right''], wrong_words = [''Wrong''],
     right_signs = [], wrong_signs = [], read_images = id, strip_points = id\<rparr>"

definition plain_bank :: tiku where
  "plain_bank = \<lparr>is_llm = False, is_ai = False, disabled = False, direct_submit = False, cover_rate_text = ''0.8'',
     true_list = default_true plain_words, false_list = default_false plain_words\<rparr>"

definition capital_question :: question where
  "capital_question = \<lparr>q_id = ''7'', q_type = ''single'', q_title = ''12The capital of France'',
     q_options = ''A Paris'' @ [char_of (10 :: nat)] @ ''B Rome'', q_source = [], q_fields = []\<rparr>"

definition empty_cache :: answer_cache where
  "empty_cache = \<lparr>snapshot = [], loaded = True, on_disk = No_file\<rparr>"

lemma answers_are_kept_witness:
  "fst (query plain_words False plain_bank (Raises ''Timeout'') capital_question
     (snd (query plain_words True plain_bank (Answers '' Paris '') capital_question empty_cache))) = Inr (Some ''Paris'')"
proof -
  have q: "query plain_words True plain_bank (Answers '' Paris '') capital_question empty_cache =
      (Inr (Some ''Paris''), snd (query plain_words True plain_bank (Answers '' Paris '') capital_question empty_cache))"
    by code_simp
  have "\<not> cache_hit plain_words capital_question empty_cache" "\<not> disabled plain_bank" "py_strip ''Paris'' = ''Paris''"
    by code_simp+
  then show ?thesis
    using answers_are_kept [OF q, of plain_bank capital_question False "Raises ''Timeout''"] by simp
qed

lemma chain_of_one_is_the_bank_witness:
  "fallback_query plain_words True plain_bank [(plain_bank\<lparr>is_llm := True\<rparr>, Answers ''it is right'')]
      (capital_question\<lparr>q_type := ''judgement''\<rparr>) empty_cache =
   query plain_words True (plain_bank\<lparr>is_llm := True\<rparr>) (Answers ''it is right'') (capital_question\<lparr>q_type := ''judgement''\<rparr>) empty_cache"
proof -
  have "\<forall>w \<in> set (right_default plain_words # wrong_default plain_words # true_list plain_bank @ false_list plain_bank).
      w \<noteq> [] \<and> py_strip w = w"
    by code_simp
  moreover have "py_strip ''it is right'' \<noteq> []" by code_simp
  ultimately show ?thesis
    using chain_of_one_is_the_bank [of "plain_bank\<lparr>is_llm := True\<rparr>" plain_bank "Answers ''it is right''" plain_words]
    by (simp add: plain_bank_def)
qed

text \<open>
  Every word for wrong that contains a word for right is undecided: a language model's answer
  \<open>incorrect\<close> is thrown away, because \<open>correct\<close> occurs in it.
\<close>

lemma incorrect_is_undecided: "normalize_judgement_answer plain_words plain_bank ''incorrect'' = None"
  by code_simp

text \<open>The cache is keyed by the title alone: an answer to one kind of question is served to another unchecked\<close>

lemma cached_for_another_kind:
  "fst (query plain_words True plain_bank Nothing (capital_question\<lparr>q_type := ''judgement''\<rparr>)
     (snd (query plain_words True plain_bank (Answers ''Paris'') capital_question empty_cache))) = Inr (Some ''Paris'')
   \<and> \<not> check_answer ''Paris'' ''judgement'' (true_list plain_bank) (false_list plain_bank)"
  by code_simp

end
