(* ===== verification/Quiz.thy ===== *)
theory Quiz
  imports Answer_Bank
begin

text \<open>
  Answering a quiz (\<open>quiz_service.py\<close>, and \<open>work_legacy_service.py\<close>, which does the same): matching
  an answer of the bank to the options, the random answer where there is none, the form that is
  saved or handed in, and one whole quiz.

  The random generator is a parameter with the documented behaviour of \<open>random\<close> (\<open>rng_ok\<close>). What
  the bank says to each question, what each attempt to fetch the page and the final request end in,
  and comparing the coverage with the configured rate are chosen by the environment.
\<close>

section \<open>Random answers\<close>

record rng =
  rng_choice :: "string list \<Rightarrow> string"
  rng_count :: "nat list \<Rightarrow> nat"
  rng_sample :: "string list \<Rightarrow> nat \<Rightarrow> string list"
  rng_coin :: bool

definition rng_ok :: "rng \<Rightarrow> bool" where
  "rng_ok g \<longleftrightarrow>
     (\<forall>xs. xs \<noteq> [] \<longrightarrow> rng_choice g xs \<in> set xs) \<and> (\<forall>ns. ns \<noteq> [] \<longrightarrow> rng_count g ns \<in> set ns)
     \<and> (\<forall>xs n. n \<le> length xs \<longrightarrow> length (rng_sample g xs n) = n \<and> mset (rng_sample g xs n) \<subseteq># mset xs)"

definition first_letters :: "string list \<Rightarrow> string" where
  "first_letters opts = concat (map (take 1) opts)"

definition random_answer :: "rng \<Rightarrow> string \<Rightarrow> string \<Rightarrow> string" where
  "random_answer g kind options =
     (if options = [] then []
      else if kind = ''multiple''
      then (case cut options of
              None \<Rightarrow> []
            | Some op_list \<Rightarrow>
                (let available = length op_list;
                     select_count = (if available \<le> 1 then available
                                     else rng_count g [min 2 available..<min 4 available + 1]);
                     selected = (if 0 < select_count then rng_sample g op_list select_count else [])
                 in sort (first_letters selected)))
      else if kind = ''single'' then take 1 (rng_choice g (split_on (char_of (10 :: nat)) options))
      else if kind = ''judgement'' then (if rng_coin g then ''true'' else ''false'')
      else [])"

section \<open>Matching an answer to the options\<close>

definition is_alpha :: "char \<Rightarrow> bool" where
  "is_alpha c =
     (let n = (of_char c :: nat)
      in (65 \<le> n \<and> n \<le> 90) \<or> (97 \<le> n \<and> n \<le> 122) \<or> n \<in> {170, 181, 186} \<or> (192 \<le> n \<and> n \<noteq> 215 \<and> n \<noteq> 247))"

text \<open>\<open>c.upper()\<close>: two letters of the model have upper-case forms outside it, which match no option\<close>

definition upper_char :: "char \<Rightarrow> string" where
  "upper_char c =
     (let n = (of_char c :: nat)
      in if (97 \<le> n \<and> n \<le> 122) \<or> (224 \<le> n \<and> n \<noteq> 247 \<and> n \<noteq> 255) then [char_of (n - 32)]
         else if n = 223 then ''SS'' else if n = 181 \<or> n = 255 then [] else [c])"

definition letters_in :: "string \<Rightarrow> string \<Rightarrow> string" where
  "letters_in opt_letters res = filter (\<lambda>c. c \<in> set opt_letters) (concat (map upper_char (filter is_alpha res)))"

definition is_letter :: "char \<Rightarrow> bool" where
  "is_letter c = (let n = (of_char c :: nat) in (65 \<le> n \<and> n \<le> 90) \<or> (97 \<le> n \<and> n \<le> 122))"

text \<open>\<open>re.sub(r"^[A-Za-z]|[.,!?;:]", "", c).strip()\<close>: a leading letter and every such sign go\<close>

definition clean_one :: "string \<Rightarrow> string" where
  "clean_one c =
     py_strip (filter (\<lambda>x. x \<notin> set ''.,!?;:'') (case c of x # xs \<Rightarrow> if is_letter x then xs else c | [] \<Rightarrow> []))"

definition clean_res :: "string list \<Rightarrow> string list" where
  "clean_res res = map clean_one res"

text \<open>\<open>all(c in iter_o for c in a)\<close>: each character is looked for behind the one found before it\<close>

fun is_subsequence :: "string \<Rightarrow> string \<Rightarrow> bool" where
  "is_subsequence [] cs = True"
| "is_subsequence (x # xs) cs =
     (case dropWhile (\<lambda>c. c \<noteq> x) cs of [] \<Rightarrow> False | _ # rest \<Rightarrow> is_subsequence xs rest)"

definition match_multiple :: "string \<Rightarrow> string \<Rightarrow> string" where
  "match_multiple options res =
     (case cut options of
        None \<Rightarrow> []
      | Some options_list \<Rightarrow>
          (let filtered = letters_in (first_letters options_list) res
           in if filtered \<noteq> [] then sort (remdups filtered)
              else (case cut res of
                      None \<Rightarrow> []
                    | Some res_list \<Rightarrow>
                        sort (concat (map (\<lambda>a. concat (map (\<lambda>opt. if is_subsequence a opt then take 1 opt else []) options_list))
                          (clean_res res_list))))))"

definition match_single :: "string \<Rightarrow> string \<Rightarrow> string" where
  "match_single options res =
     (case cut options of
        None \<Rightarrow> []
      | Some options_list \<Rightarrow>
          (let filtered = letters_in (first_letters options_list) res
           in if length filtered = 1 then filtered
              else (case find (is_subsequence (hd (clean_res [res]))) options_list of
                      None \<Rightarrow> []
                    | Some opt \<Rightarrow> take 1 opt)))"

definition match_answer :: "tiku \<Rightarrow> rng \<Rightarrow> question \<Rightarrow> string \<Rightarrow> string" where
  "match_answer t g q res =
     (if q_type q = ''multiple'' then match_multiple (q_options q) res
      else if q_type q = ''single'' then match_single (q_options q) res
      else if q_type q = ''judgement'' then (if judgement_select t (rng_coin g) res then ''true'' else ''false'')
      else if q_type q = ''completion'' then py_strip res
      else res)"

section \<open>One question\<close>

definition answer_key :: "question \<Rightarrow> string" where
  "answer_key q = ''answer'' @ q_id q"

definition put_answer :: "string \<Rightarrow> string \<Rightarrow> question \<Rightarrow> question" where
  "put_answer source answer q = q\<lparr>q_source := source, q_fields := dset (answer_key q) answer (q_fields q)\<rparr>"

text \<open>\<open>handle_question\<close>, given what the bank says: the question filled in, and whether its answer was found\<close>

definition handle_question :: "tiku \<Rightarrow> rng \<Rightarrow> string + string option \<Rightarrow> question \<Rightarrow> string + (question \<times> bool)" where
  "handle_question t g said q =
     (case said of
        Inl e \<Rightarrow> Inl e
      | Inr res \<Rightarrow>
          (let matched = (case res of None \<Rightarrow> [] | Some r \<Rightarrow> if r = [] then [] else match_answer t g q r)
           in if matched = [] then Inr (put_answer ''random'' (random_answer g (q_type q) (q_options q)) q, False)
              else Inr (put_answer ''cover'' matched q, True)))"

definition fallback_random_answer :: "rng \<Rightarrow> question \<Rightarrow> question" where
  "fallback_random_answer g q = put_answer ''random'' (random_answer g (q_type q) (q_options q)) q"

section \<open>All questions\<close>

text \<open>One after the other: the first exception ends the loop. \<open>said i\<close> is what the bank says to the i-th.\<close>

fun process_sequential ::
    "tiku \<Rightarrow> rng \<Rightarrow> (nat \<Rightarrow> string + string option) \<Rightarrow> nat \<Rightarrow> question list \<Rightarrow> string + (question list \<times> nat)" where
  "process_sequential t g said i [] = Inr ([], 0)"
| "process_sequential t g said i (q # qs) =
     (case handle_question t g (said i) q of
        Inl e \<Rightarrow> Inl e
      | Inr (q, found) \<Rightarrow>
          map_sum id (\<lambda>(qs, n). (q # qs, (if found then 1 else 0) + n)) (process_sequential t g said (i + 1) qs))"

text \<open>On a pool: a question whose worker raised gets a random answer\<close>

definition handle_or_random :: "tiku \<Rightarrow> rng \<Rightarrow> string + string option \<Rightarrow> question \<Rightarrow> question \<times> bool" where
  "handle_or_random t g said q =
     (case handle_question t g said q of Inl _ \<Rightarrow> (fallback_random_answer g q, False) | Inr r \<Rightarrow> r)"

fun process_concurrent ::
    "tiku \<Rightarrow> rng \<Rightarrow> (nat \<Rightarrow> string + string option) \<Rightarrow> nat \<Rightarrow> question list \<Rightarrow> question list \<times> nat" where
  "process_concurrent t g said i [] = ([], 0)"
| "process_concurrent t g said i (q # qs) =
     (let (q, found) = handle_or_random t g (said i) q;
          (qs, n) = process_concurrent t g said (i + 1) qs
      in (q # qs, (if found then 1 else 0) + n))"

definition process_questions ::
    "bool \<Rightarrow> tiku \<Rightarrow> rng \<Rightarrow> (nat \<Rightarrow> string + string option) \<Rightarrow> question list \<Rightarrow> string + (question list \<times> nat)" where
  "process_questions concurrent t g said qs =
     (if concurrent then Inr (process_concurrent t g said 0 qs) else process_sequential t g said 0 qs)"

section \<open>The form\<close>

definition is_answer_key :: "string \<Rightarrow> bool" where
  "is_answer_key key = starts_with key ''answer''"

definition fill_question :: "bool \<Rightarrow> question \<Rightarrow> (string \<times> string) list \<Rightarrow> (string \<times> string) list" where
  "fill_question is_save q form =
     (let form = fold (\<lambda>(key, val) form.
                    if \<not> is_answer_key key then form
                    else dset key (if is_save then if q_source q = ''cover'' then val else [] else val) form)
                  (q_fields q) form;
          type_key = ''answertype'' @ q_id q
      in case map_of (q_fields q) type_key of None \<Rightarrow> form | Some v \<Rightarrow> dset type_key v form)"

definition fill_answers_into_form :: "bool \<Rightarrow> question list \<Rightarrow> (string \<times> string) list \<Rightarrow> (string \<times> string) list" where
  "fill_answers_into_form is_save qs form = fold (fill_question is_save) qs form"

section \<open>One quiz\<close>

datatype fetch_attempt = Request_failed | Not_created | Invalid_page | Quiz_page "(string \<times> string) list" "question list"

text \<open>The retry loop: three attempts; a quiz that was not created ends it, as does any other exception\<close>

fun fetch_quiz :: "nat \<Rightarrow> fetch_attempt list \<Rightarrow> ((string \<times> string) list \<times> question list) option" where
  "fetch_quiz (Suc n) (a # as) =
     (case a of
        Quiz_page form qs \<Rightarrow> if qs = [] then fetch_quiz n as else Some (form, qs)
      | Not_created \<Rightarrow> None
      | _ \<Rightarrow> fetch_quiz n as)"
| "fetch_quiz _ _ = None"

datatype hand_in = Accepted | Expired | Refused | Http_error | Hand_in_raises string

record quiz_env =
  qe_attempts :: "fetch_attempt list"
  qe_said :: "nat \<Rightarrow> string + string option"
  qe_covers :: "nat \<Rightarrow> nat \<Rightarrow> bool"
  qe_rng :: rng
  qe_hand_in :: hand_in

datatype quiz_result = Skipped_quiz | Quiz_failed | Quiz_raised string | Quiz_done

text \<open>\<open>pyFlag\<close>: empty hands the quiz in, 1 saves it\<close>

definition py_flag :: "tiku \<Rightarrow> (nat \<Rightarrow> nat \<Rightarrow> bool) \<Rightarrow> nat \<Rightarrow> nat \<Rightarrow> nat \<Rightarrow> string" where
  "py_flag t covers rollback_times found n =
     (if get_submit_params t = ''1'' then ''1''
      else if covers found n \<or> 1 \<le> rollback_times then []
      else ''1'')"

text \<open>\<open>study_work\<close>: how it ends, and the form it posts if it gets that far\<close>

definition study_work :: "tiku option \<Rightarrow> bool \<Rightarrow> nat \<Rightarrow> quiz_env \<Rightarrow> quiz_result \<times> (string \<times> string) list option" where
  "study_work bank concurrent rollback_times env =
     (case bank of
        None \<Rightarrow> (Skipped_quiz, None)
      | Some t \<Rightarrow>
          if disabled t then (Skipped_quiz, None)
          else (case fetch_quiz 3 (qe_attempts env) of
                  None \<Rightarrow> (Quiz_failed, None)
                | Some (form, qs) \<Rightarrow>
                    (case process_questions concurrent t (qe_rng env) (qe_said env) qs of
                       Inl e \<Rightarrow> (Quiz_raised e, None)
                     | Inr (qs, found) \<Rightarrow>
                         (let flag = py_flag t (qe_covers env) rollback_times found (length qs);
                              form = fill_answers_into_form (flag = ''1'') qs (dset ''pyFlag'' flag form)
                          in (case qe_hand_in env of
                                Accepted \<Rightarrow> Quiz_done
                              | Expired \<Rightarrow> Quiz_done
                              | Refused \<Rightarrow> Quiz_failed
                              | Http_error \<Rightarrow> Quiz_failed
                              | Hand_in_raises e \<Rightarrow> Quiz_raised e, Some form)))))"

section \<open>Matching\<close>

lemma is_subsequence_iff: "is_subsequence xs cs \<longleftrightarrow> subseq xs cs"
proof (induction xs arbitrary: cs)
  case (Cons x xs)
  show ?case
  proof (cases "dropWhile (\<lambda>c. c \<noteq> x) cs")
    case Nil
    then have "x \<notin> set cs" by (auto simp: dropWhile_eq_Nil_conv)
    then have "\<not> subseq (x # xs) cs" using list_emb_set [of "(=)" "x # xs" cs x] by auto
    then show ?thesis unfolding is_subsequence.simps Nil by simp
  next
    case (Cons y rest)
    then have y: "y = x" using hd_dropWhile [of "\<lambda>c. c \<noteq> x" cs] by auto
    have cs: "cs = takeWhile (\<lambda>c. c \<noteq> x) cs @ x # rest"
      using takeWhile_dropWhile_id [of "\<lambda>c. c \<noteq> x" cs] Cons y by simp
    have skip: "subseq (x # xs) (ys @ x # rest) \<longleftrightarrow> subseq xs rest" if "\<forall>c \<in> set ys. c \<noteq> x" for ys
      using that by (induction ys) auto
    have "subseq (x # xs) cs \<longleftrightarrow> subseq xs rest"
      by (subst cs, rule skip) (auto dest: set_takeWhileD)
    then show ?thesis using Cons Cons.IH by simp
  qed
qed simp

lemma letters_in_subset: "set (letters_in opts res) \<subseteq> set opts"
  by (auto simp: letters_in_def)

lemma first_letters_member: "opt \<in> set opts \<Longrightarrow> set (take 1 opt) \<subseteq> set (first_letters opts)"
  by (auto simp: first_letters_def)

lemma match_multiple_letters:
  "cut options = Some opts \<Longrightarrow> set (match_multiple options res) \<subseteq> set (first_letters opts) \<and> sorted (match_multiple options res)"
  using letters_in_subset [of "first_letters opts" res] first_letters_member [of _ opts]
  by (auto simp: match_multiple_def Let_def split: option.splits if_splits)

lemma find_member: "find P xs = Some x \<Longrightarrow> x \<in> set xs"
  by (auto simp: find_Some_iff)

lemma match_single_letters:
  "cut options = Some opts \<Longrightarrow> set (match_single options res) \<subseteq> set (first_letters opts) \<and> length (match_single options res) \<le> 1"
  using letters_in_subset [of "first_letters opts" res] first_letters_member [of _ opts]
  by (auto simp: match_single_def Let_def split: option.splits dest!: find_member)

lemma random_multiple_letters:
  assumes "rng_ok g" and "cut options = Some opts"
  shows "set (random_answer g ''multiple'' options) \<subseteq> set (first_letters opts)"
proof -
  have "set (first_letters (rng_sample g opts n)) \<subseteq> set (first_letters opts)" if "n \<le> length opts" for n
  proof -
    have "set (rng_sample g opts n) \<subseteq> set opts"
      using assms(1) that by (metis rng_ok_def set_mset_mono set_mset_mset)
    then show ?thesis by (auto simp: first_letters_def)
  qed
  moreover have "rng_count g [min 2 (length opts)..<min 4 (length opts) + 1] \<le> length opts"
    if "\<not> length opts \<le> 1"
  proof -
    have "[min 2 (length opts)..<min 4 (length opts) + 1] \<noteq> []" using that by simp
    then have "rng_count g [min 2 (length opts)..<min 4 (length opts) + 1] \<in> set [min 2 (length opts)..<min 4 (length opts) + 1]"
      using assms(1) by (metis rng_ok_def)
    then show ?thesis by (auto simp del: upt_Suc)
  qed
  ultimately show ?thesis using assms(2)
    by (auto simp: random_answer_def Let_def simp del: upt_Suc) (auto simp: first_letters_def)
qed

text \<open>
  A matched answer is made of options. Where the options can be told apart, the answer entered
  for a choice question consists of first letters of its options: in order for several choices, at
  most one for a single choice, and also where it is drawn at random among several.
\<close>

theorem answer_letters_are_options:
  assumes "cut (q_options q) = Some opts" and "q_type q \<in> {''single'', ''multiple''}" and "rng_ok g"
  shows "set (match_answer t g q res) \<subseteq> set (first_letters opts)
    \<and> (q_type q = ''single'' \<longrightarrow> length (match_answer t g q res) \<le> 1)
    \<and> (q_type q = ''multiple'' \<longrightarrow> sorted (match_answer t g q res)
         \<and> set (random_answer g (q_type q) (q_options q)) \<subseteq> set (first_letters opts))"
  using assms(2) match_single_letters [OF assms(1), of res] match_multiple_letters [OF assms(1), of res]
    random_multiple_letters [OF assms(3,1)]
  by (auto simp: match_answer_def)

section \<open>Every question is answered\<close>

lemma put_answer_fields [simp]:
  "q_id (put_answer s a q) = q_id q" "q_type (put_answer s a q) = q_type q" "q_options (put_answer s a q) = q_options q"
  "q_source (put_answer s a q) = s" "q_fields (put_answer s a q) = dset (answer_key q) a (q_fields q)"
  "answer_key (put_answer s a q) = answer_key q"
  by (simp_all add: put_answer_def answer_key_def)

text \<open>\<open>filled q q'\<close>: the question with an answer entered, found or drawn at random\<close>

definition filled :: "tiku \<Rightarrow> rng \<Rightarrow> (string + string option) \<Rightarrow> question \<Rightarrow> question \<Rightarrow> bool" where
  "filled t g said q q' \<longleftrightarrow>
     (\<exists>res a. said = Inr (Some res) \<and> a \<noteq> [] \<and> a = match_answer t g q res \<and> q' = put_answer ''cover'' a q)
     \<or> q' = put_answer ''random'' (random_answer g (q_type q) (q_options q)) q"

lemma handle_question_filled:
  "handle_question t g said q = Inr (q', found) \<Longrightarrow> filled t g said q q' \<and> (found \<longleftrightarrow> q_source q' = ''cover'')"
  by (auto simp: handle_question_def filled_def Let_def split: sum.splits option.splits if_splits)

lemma handle_or_random_filled:
  "handle_or_random t g said q = (q', found) \<Longrightarrow> filled t g said q q' \<and> (found \<longleftrightarrow> q_source q' = ''cover'')"
  using handle_question_filled [of t g said q]
  by (auto simp: handle_or_random_def fallback_random_answer_def filled_def split: sum.splits)

definition all_filled :: "tiku \<Rightarrow> rng \<Rightarrow> (nat \<Rightarrow> string + string option) \<Rightarrow> nat \<Rightarrow> question list \<Rightarrow> question list \<Rightarrow> nat \<Rightarrow> bool" where
  "all_filled t g said i qs qs' found \<longleftrightarrow>
     length qs' = length qs \<and> (\<forall>k < length qs. filled t g (said (i + k)) (qs ! k) (qs' ! k))
     \<and> found = length (filter (\<lambda>q. q_source q = ''cover'') qs')"

lemma all_filled_Cons:
  assumes "filled t g (said i) q q'" and "found \<longleftrightarrow> q_source q' = ''cover''" and "all_filled t g said (i + 1) qs qs' n"
  shows "all_filled t g said i (q # qs) (q' # qs') ((if found then 1 else 0) + n)"
  using assms by (auto simp: all_filled_def nth_Cons split: nat.splits)

lemma process_sequential_filled:
  "process_sequential t g said i qs = Inr (qs', n) \<Longrightarrow> all_filled t g said i qs qs' n"
proof (induction qs arbitrary: i qs' n)
  case (Cons q qs)
  then obtain q1 found qs1 n1 where h: "handle_question t g (said i) q = Inr (q1, found)"
      and r: "process_sequential t g said (i + 1) qs = Inr (qs1, n1)" "qs' = q1 # qs1" "n = (if found then 1 else 0) + n1"
    by (auto simp: map_sum_def split: sum.splits prod.splits)
  show ?case unfolding r using handle_question_filled [OF h] Cons.IH [OF r(1)] by (intro all_filled_Cons) auto
qed (simp add: all_filled_def)

lemma process_concurrent_filled:
  "process_concurrent t g said i qs = (qs', n) \<Longrightarrow> all_filled t g said i qs qs' n"
proof (induction qs arbitrary: i qs' n)
  case (Cons q qs)
  obtain q1 found where h: "handle_or_random t g (said i) q = (q1, found)" by fastforce
  obtain qs1 n1 where r: "process_concurrent t g said (i + 1) qs = (qs1, n1)" by fastforce
  have "qs' = q1 # qs1" "n = (if found then 1 else 0) + n1" using Cons.prems h r by auto
  then show ?case using handle_or_random_filled [OF h] Cons.IH [OF r] all_filled_Cons by blast
qed (simp add: all_filled_def)

lemma process_questions_filled:
  "process_questions concurrent t g said qs = Inr (qs', n) \<Longrightarrow> all_filled t g said 0 qs qs' n"
  using process_sequential_filled process_concurrent_filled
  by (auto simp: process_questions_def split: if_splits)


section \<open>The form\<close>

text \<open>
  Pages as the decoder produces them: distinct numeric ids, and for each question only its own
  answer field and its type field, which is there.
\<close>

definition quiz_wf :: "question list \<Rightarrow> bool" where
  "quiz_wf qs \<longleftrightarrow>
     distinct (map q_id qs)
     \<and> (\<forall>q \<in> set qs. list_all is_digit (q_id q) \<and> wf_dict (q_fields q)
          \<and> set (map fst (q_fields q)) \<subseteq> {answer_key q, ''answertype'' @ q_id q})"

lemma answer_key_not_type: "list_all is_digit i \<Longrightarrow> answer_key q \<noteq> ''answertype'' @ i \<or> \<not> list_all is_digit (q_id q)"
  by (auto simp: answer_key_def is_digit_def)

lemma fold_entries_other:
  "k \<notin> set (map fst kvs) \<Longrightarrow>
     map_of (fold (\<lambda>(key, val) form. if P key then form else dset key (f val) form) kvs form) k = map_of form k"
  by (induction kvs arbitrary: form) (auto split: if_splits)

lemma fold_entries_own:
  assumes "wf_dict kvs" and "map_of kvs k = Some v" and "\<not> P k"
  shows "map_of (fold (\<lambda>(key, val) form. if P key then form else dset key (f val) form) kvs form) k = Some (f v)"
  using assms
proof (induction kvs arbitrary: form)
  case (Cons kv kvs)
  then show ?case by (cases kv) (auto simp: fold_entries_other split: if_splits)
qed simp

lemma is_answer_key_answer [simp]: "is_answer_key (answer_key q)"
proof -
  have "starts_with (p @ s) p" for p s by (induction p) auto
  from this [of "''answer''" "q_id q"] show ?thesis by (simp add: is_answer_key_def answer_key_def)
qed

lemma fill_question_other:
  assumes "k \<notin> set (map fst (q_fields q))" and "k \<noteq> ''answertype'' @ q_id q"
  shows "map_of (fill_question is_save q form) k = map_of form k"
  using assms fold_entries_other [of k "q_fields q" "\<lambda>key. \<not> is_answer_key key"
      "\<lambda>val. if is_save then if q_source q = ''cover'' then val else [] else val" form]
  by (auto simp: fill_question_def Let_def split: option.splits)

lemma fill_question_own:
  assumes "wf_dict (q_fields q)" and "map_of (q_fields q) (answer_key q) = Some a" and "list_all is_digit (q_id q)"
  shows "map_of (fill_question is_save q form) (answer_key q) = Some (if is_save \<and> q_source q \<noteq> ''cover'' then [] else a)"
proof -
  have "answer_key q \<noteq> ''answertype'' @ q_id q" using answer_key_not_type assms(3) by blast
  then show ?thesis
    using fold_entries_own [OF assms(1,2), of "\<lambda>key. \<not> is_answer_key key"
        "\<lambda>val. if is_save then if q_source q = ''cover'' then val else [] else val" form]
    by (auto simp: fill_question_def Let_def split: option.splits)
qed

lemma foreign_keys:
  assumes "quiz_wf (q # qs)" and "p \<in> set qs"
  shows "answer_key q \<notin> set (map fst (q_fields p)) \<and> answer_key q \<noteq> ''answertype'' @ q_id p"
proof -
  have ne: "q_id q \<noteq> q_id p" using assms by (force simp: quiz_wf_def)
  have d: "q_id p \<noteq> q_id q" "list_all is_digit (q_id p)" "list_all is_digit (q_id q)"
      "set (map fst (q_fields p)) \<subseteq> {answer_key p, ''answertype'' @ q_id p}"
    using assms ne [symmetric] unfolding quiz_wf_def by simp_all
  have "answer_key q \<noteq> ''answertype'' @ q_id p" using answer_key_not_type [OF d(2), of q] d(3) by blast
  moreover have "answer_key q \<noteq> answer_key p" using d(1) by (simp add: answer_key_def)
  ultimately show ?thesis using d(4) by blast
qed

lemma fill_answers_other:
  assumes "\<forall>p \<in> set qs. k \<notin> set (map fst (q_fields p)) \<and> k \<noteq> ''answertype'' @ q_id p"
  shows "map_of (fill_answers_into_form is_save qs form) k = map_of form k"
  using assms unfolding fill_answers_into_form_def
  by (induction qs arbitrary: form) (auto simp: fill_question_other)

lemma fill_answers_own:
  assumes "quiz_wf qs" and "q \<in> set qs" and "map_of (q_fields q) (answer_key q) = Some a"
  shows "map_of (fill_answers_into_form is_save qs form) (answer_key q) =
     Some (if is_save \<and> q_source q \<noteq> ''cover'' then [] else a)"
  using assms
proof (induction qs arbitrary: form)
  case (Cons p qs)
  have wf: "quiz_wf qs" using Cons.prems(1) by (auto simp: quiz_wf_def)
  have step: "fill_answers_into_form is_save (p # qs) form = fill_answers_into_form is_save qs (fill_question is_save p form)" for form
    by (simp add: fill_answers_into_form_def)
  show ?case
  proof (cases "q \<in> set qs")
    case True
    then show ?thesis using Cons.IH [OF wf True Cons.prems(3)] by (simp add: step)
  next
    case False
    then have q: "q = p" using Cons.prems(2) by simp
    have "wf_dict (q_fields q)" "list_all is_digit (q_id q)" using Cons.prems(1) q by (auto simp: quiz_wf_def)
    then show ?thesis
      using fill_question_own [of q a is_save form] fill_answers_other [of qs "answer_key q"] foreign_keys [of q qs] Cons.prems(1,3) q
      by (simp add: step)
  qed
qed simp

lemma filled_wf:
  assumes "filled t g said q q'"
  shows "q_id q' = q_id q \<and> answer_key q' = answer_key q
    \<and> (\<exists>a. q_fields q' = dset (answer_key q) a (q_fields q)) \<and> map_of (q_fields q') (answer_key q') \<noteq> None"
  using assms by (auto simp: filled_def answer_key_def)

lemma quiz_wf_filled:
  assumes "quiz_wf qs" and "all_filled t g said i qs qs' n"
  shows "quiz_wf qs'"
proof -
  have len: "length qs' = length qs" and f: "\<And>k. k < length qs \<Longrightarrow> filled t g (said (i + k)) (qs ! k) (qs' ! k)"
    using assms(2) by (auto simp: all_filled_def)
  have "map q_id qs' = map q_id qs"
    by (rule nth_equalityI) (simp_all add: len filled_wf [OF f, THEN conjunct1])
  moreover have "list_all is_digit (q_id q') \<and> wf_dict (q_fields q')
      \<and> set (map fst (q_fields q')) \<subseteq> {answer_key q', ''answertype'' @ q_id q'}" if "q' \<in> set qs'" for q'
  proof -
    obtain k where k: "k < length qs" "q' = qs' ! k" using \<open>q' \<in> set qs'\<close> len by (auto simp: in_set_conv_nth)
    obtain a where a: "q_fields q' = dset (answer_key (qs ! k)) a (q_fields (qs ! k))" "q_id q' = q_id (qs ! k)"
        "answer_key q' = answer_key (qs ! k)"
      using filled_wf [OF f [OF k(1)]] k(2) by blast
    have w: "list_all is_digit (q_id (qs ! k))" "wf_dict (q_fields (qs ! k))"
        "set (map fst (q_fields (qs ! k))) \<subseteq> {answer_key (qs ! k), ''answertype'' @ q_id (qs ! k)}"
      using assms(1) k(1) by (auto simp: quiz_wf_def)
    have "set (map fst (dset x a d)) \<subseteq> insert x (set (map fst d))" for x d by (induction d) auto
    from this [of "answer_key (qs ! k)" "q_fields (qs ! k)"]
    have "set (map fst (q_fields q')) \<subseteq> {answer_key q', ''answertype'' @ q_id q'}"
      using w(3) unfolding a by blast
    then show ?thesis using w(1,2) unfolding a by simp
  qed
  ultimately show ?thesis using assms(1) by (auto simp: quiz_wf_def)
qed

section \<open>One quiz\<close>

lemma fetch_quiz_page: "fetch_quiz n as = Some (form, qs) \<Longrightarrow> qs \<noteq> [] \<and> Quiz_page form qs \<in> set as"
  by (induction n as rule: fetch_quiz.induct) (auto split: fetch_attempt.splits if_splits)


section \<open>Examples\<close>

definition first_choice :: rng where
  "first_choice = \<lparr>rng_choice = hd, rng_count = hd, rng_sample = (\<lambda>xs n. take n xs), rng_coin = True\<rparr>"

lemma first_choice_ok: "rng_ok first_choice"
proof -
  have "mset (take n xs) \<subseteq># mset xs" for n and xs :: "string list"
    by (metis append_take_drop_id mset_append mset_subset_eq_add_left)
  then show ?thesis by (auto simp: rng_ok_def first_choice_def)
qed

lemma answer_letters_are_options_witness:
  "set (match_answer plain_bank first_choice capital_question ''Paris'') \<subseteq> set ''AB''
   \<and> match_answer plain_bank first_choice capital_question ''Paris'' = ''A''"
proof -
  have c: "cut (q_options capital_question) = Some [''A Paris'', ''B Rome'']" by code_simp
  have k: "q_type capital_question \<in> {''single'', ''multiple''}" by (simp add: capital_question_def)
  have "match_answer plain_bank first_choice capital_question ''Paris'' = ''A''" by code_simp
  then show ?thesis
    using answer_letters_are_options [OF c k first_choice_ok, of plain_bank "''Paris''"] by (simp add: first_letters_def)
qed

definition paris_or_not :: "nat \<Rightarrow> string + string option" where
  "paris_or_not i = (if i = 0 then Inr (Some ''Paris'') else Inl ''Timeout'')"

definition two_questions :: "question list" where
  "two_questions = [capital_question, capital_question\<lparr>q_id := ''8''\<rparr>]"


definition quiz_day :: quiz_env where
  "quiz_day = \<lparr>qe_attempts = [Request_failed, Quiz_page [(''courseId'', ''1'')] two_questions],
     qe_said = (\<lambda>i. if i = 0 then Inr (Some ''Paris'') else Inr None), qe_covers = (\<lambda>_ _. True),
     qe_rng = first_choice, qe_hand_in = Accepted\<rparr>"


text \<open>
  An answer in prose is read as letters first: for several choices the letters A and B of the answer
  \<open>Babbage\<close> are taken for the options A and B, although it is the text of the third option.
\<close>

lemma prose_read_as_letters:
  "match_multiple (''A Turing'' @ [char_of (10 :: nat)] @ ''B Church'' @ [char_of (10 :: nat)] @ ''C Babbage'') ''Babbage'' = ''AB''"
  by code_simp

text \<open>Two pieces of an answer that fit the same option enter its letter twice\<close>

lemma letter_entered_twice:
  "match_multiple (''a red apple'' @ [char_of (10 :: nat)] @ ''b pear'') ''apple#red'' = ''aa''"
  by code_simp

end
