(* ===== verification/Zhs_Protocol.thy ===== *)
theory Zhs_Protocol
  imports Web_Session
begin

unbundle bit_operations_syntax

text \<open>
  What the Zhihuishu client puts on the wire (\<open>zhihuishu/crypto.py\<close>): the JSON text of a request,
  padded, encrypted and in base64 (\<open>secretStr\<close>); the obfuscated progress fields (\<open>sdsew\<close>); the
  watch points of a video. AES is a parameter, a function of the key, the initial vector and the
  padded bytes.
\<close>

section \<open>JSON texts\<close>

text \<open>\<open>json.dumps(v, ensure_ascii=False)\<close>\<close>

definition zhs_json_char :: "char \<Rightarrow> string" where
  "zhs_json_char c =
     (let n = (of_char c :: nat); bs = char_of (92 :: nat)
      in if n = 34 \<or> n = 92 then [bs, c]
         else if n = 8 then [bs, CHR ''b''] else if n = 9 then [bs, CHR ''t'']
         else if n = 10 then [bs, CHR ''n''] else if n = 12 then [bs, CHR ''f'']
         else if n = 13 then [bs, CHR ''r'']
         else if n < 32 then [bs, CHR ''u'', CHR ''0'', CHR ''0'', hex_char (n div 16), hex_char (n mod 16)]
         else [c])"

definition json_str :: "string \<Rightarrow> string" where
  "json_str s = [char_of (34 :: nat)] @ concat (map zhs_json_char s) @ [char_of (34 :: nat)]"

fun zhs_json_text :: "pyval \<Rightarrow> string" where
  "zhs_json_text PNone = ''null''"
| "zhs_json_text (PBool b) = (if b then ''true'' else ''false'')"
| "zhs_json_text (PInt i) = int_str i"
| "zhs_json_text (PFloat t) = t"
| "zhs_json_text (PStr s) = json_str s"
| "zhs_json_text (PList xs) = ''['' @ join_with '', '' (map zhs_json_text xs) @ '']''"
| "zhs_json_text (PDict d) =
     ''{'' @ join_with '', '' (map (\<lambda>(k, r). json_str k @ '': '' @ r) (map (map_prod id zhs_json_text) d)) @ ''}''"

section \<open>Base64\<close>

definition base64_char :: "nat \<Rightarrow> char" where
  "base64_char n = (if n < 26 then char_of (65 + n) else if n < 52 then char_of (71 + n)
     else if n < 62 then char_of (n - 4) else if n = 62 then CHR ''+'' else CHR ''/'')"

text \<open>\<open>b64encode(b)\<close>\<close>

fun base64_encode :: "string \<Rightarrow> string" where
  "base64_encode (a # b # c # s) =
     (let x = of_char a; y = of_char b; z = of_char c
      in [base64_char (x div 4), base64_char (x mod 4 * 16 + y div 16),
          base64_char (y mod 16 * 4 + z div 64), base64_char (z mod 64)] @ base64_encode s)"
| "base64_encode [a, b] =
     (let x = of_char a; y = of_char b
      in [base64_char (x div 4), base64_char (x mod 4 * 16 + y div 16), base64_char (y mod 16 * 4), CHR ''=''])"
| "base64_encode [a] =
     (let x = of_char a in [base64_char (x div 4), base64_char (x mod 4 * 16), CHR ''='', CHR ''=''])"
| "base64_encode [] = []"

text \<open>A reader of such texts, the specification of what the platform decodes\<close>

definition base64_val :: "char \<Rightarrow> nat" where
  "base64_val c =
     (let n = (of_char c :: nat)
      in if n = 43 then 62 else if n = 47 then 63 else if n < 58 then n + 4 else if n < 91 then n - 65 else n - 71)"

fun base64_read :: "string \<Rightarrow> string" where
  "base64_read (a # b # c # d # s) =
     (let x = base64_val a; y = base64_val b; z = base64_val c; w = base64_val d
      in if c = CHR ''='' then [char_of (x * 4 + y div 16)]
         else if d = CHR ''='' then [char_of (x * 4 + y div 16), char_of (y mod 16 * 16 + z div 4)]
         else [char_of (x * 4 + y div 16), char_of (y mod 16 * 16 + z div 4), char_of (z mod 4 * 64 + w)]
                @ base64_read s)"
| "base64_read _ = []"

lemma base64_val_char [simp]: "n < 64 \<Longrightarrow> base64_val (base64_char n) = n"
  by (auto simp: base64_val_def base64_char_def Let_def)

lemma base64_char_not_pad [simp]: "n < 64 \<Longrightarrow> base64_char n \<noteq> CHR ''=''"
proof
  assume n: "n < 64" and "base64_char n = CHR ''=''"
  then have "(of_char (base64_char n) :: nat) = of_char CHR ''=''" by simp
  then show False using n by (auto simp: base64_char_def split: if_splits)
qed

lemma high_low:
  fixes a q m :: nat
  assumes "q < m"
  shows "(a * m + q) div m = a" and "(a * m + q) mod m = q"
  using assms by simp_all

lemma base64_round_trip: "base64_read (base64_encode s) = s"
proof (induction s rule: base64_encode.induct)
  case (1 a b c s)
  let ?x = "of_char a :: nat" and ?y = "of_char b :: nat" and ?z = "of_char c :: nat"
  have b: "?x < 256" "?y < 256" "?z < 256" by simp_all
  have q: "?y div 16 < 16" "?z div 64 < 4" using b by linarith+
  have "?x div 4 < 64" "?x mod 4 * 16 + ?y div 16 < 64" "?y mod 16 * 4 + ?z div 64 < 64" "?z mod 64 < 64"
    using b by linarith+
  then show ?case using 1 by (simp add: Let_def high_low [OF q(1)] high_low [OF q(2)] mod_less [OF q(1)] mod_less [OF q(2)])
next
  case (2 a b)
  let ?x = "of_char a :: nat" and ?y = "of_char b :: nat"
  have b: "?x < 256" "?y < 256" by simp_all
  have q: "?y div 16 < 16" using b by linarith
  have "?x div 4 < 64" "?x mod 4 * 16 + ?y div 16 < 64" "?y mod 16 * 4 < 64"
    using b by linarith+
  then show ?case by (simp add: Let_def high_low [OF q] mod_less [OF q])
next
  case (3 a)
  let ?x = "of_char a :: nat"
  have "?x < 256" by simp
  then have "?x div 4 < 64" "?x mod 4 * 16 < 64" by linarith+
  then show ?case by (simp add: Let_def)
qed simp

section \<open>Padding and encryption\<close>

definition ZHS_IV :: string where "ZHS_IV = ''1g3qqdh4jvbskb9x''"
definition HOME_KEY :: string where "HOME_KEY = ''7q9oko0vqb3la20r''"
definition VIDEO_KEY :: string where "VIDEO_KEY = ''azp53h0kft7qi78q''"

definition AES_BLOCK :: nat where "AES_BLOCK = 16"

text \<open>\<open>Cipher.pad\<close>\<close>

definition zhs_pad :: "string \<Rightarrow> string" where
  "zhs_pad data =
     (let encoded = utf8 data; padding_len = AES_BLOCK - length encoded mod AES_BLOCK
      in encoded @ replicate padding_len (char_of padding_len))"

text \<open>\<open>bytes.decode("utf-8")\<close>, with no result for malformed bytes and for characters past Latin-1\<close>

fun utf8_decode :: "string \<Rightarrow> string option" where
  "utf8_decode [] = Some []"
| "utf8_decode [a] = (if (of_char a :: nat) < 128 then Some [a] else None)"
| "utf8_decode (a # b # s) =
     (let x = of_char a :: nat; y = of_char b :: nat
      in if x < 128 then map_option ((#) a) (utf8_decode (b # s))
         else if (x = 194 \<or> x = 195) \<and> 128 \<le> y \<and> y < 192
         then map_option ((#) (char_of ((x - 192) * 64 + (y - 128)))) (utf8_decode s)
         else None)"

text \<open>\<open>Cipher.unpad\<close>: \<open>data[:-n]\<close> is empty for \<open>n = 0\<close>; no bytes at all raise\<close>

definition zhs_unpad :: "string \<Rightarrow> string option" where
  "zhs_unpad data =
     (if data = [] then None
      else (let padding_len = of_char (last data) :: nat
            in utf8_decode (if padding_len = 0 then [] else take (length data - padding_len) data)))"

type_synonym aes = "string \<Rightarrow> string \<Rightarrow> string \<Rightarrow> string"

text \<open>\<open>Cipher(key, iv).encrypt(text)\<close>\<close>

definition zhs_cipher_encrypt :: "aes \<Rightarrow> string \<Rightarrow> string \<Rightarrow> string \<Rightarrow> string" where
  "zhs_cipher_encrypt aes key iv s = base64_encode (aes key iv (zhs_pad s))"

text \<open>\<open>encrypt_secret_str(payload, key, iv)\<close>, where \<open>now_ms\<close> is the clock in milliseconds\<close>

definition encrypt_secret_str :: "aes \<Rightarrow> int \<Rightarrow> pyval \<Rightarrow> string \<Rightarrow> string \<Rightarrow> string" where
  "encrypt_secret_str aes now_ms payload key iv =
     (let payload = (if payload = PNone then PDict [(''dateFormate'', PInt now_ms)] else payload)
      in zhs_cipher_encrypt aes key iv (case payload of PStr s \<Rightarrow> s | _ \<Rightarrow> zhs_json_text payload))"

lemma utf8_decode_small: "(of_char a :: nat) < 128 \<Longrightarrow> utf8_decode (a # s) = map_option ((#) a) (utf8_decode s)"
  by (cases s) (auto simp: Let_def)

lemma utf8_round_trip: "utf8_decode (utf8 s) = Some s"
proof (induction s)
  case (Cons c s)
  have n: "(of_char c :: nat) < 256" by simp
  show ?case
  proof (cases "(of_char c :: nat) < 128")
    case True
    then show ?thesis using Cons by (simp add: utf8_def utf8_decode_small)
  next
    case False
    define x y :: nat where "x = of_char c div 64" and "y = of_char c mod 64"
    have x: "x = 2 \<or> x = 3" using False n unfolding x_def by linarith
    have y: "y < 64" unfolding y_def by simp
    have c: "(of_char c :: nat) = x * 64 + y" unfolding x_def y_def by simp
    have "char_of (x * 64 + y) = c" unfolding c [symmetric] by simp
    moreover have "utf8 (c # s) = char_of (192 + x) # char_of (128 + y) # utf8 s"
      using False by (simp add: utf8_def x_def y_def Let_def)
    ultimately show ?thesis using x y Cons by (auto simp: Let_def)
  qed
qed (simp add: utf8_def)

lemma zhs_pad_length: "length (zhs_pad s) mod AES_BLOCK = 0 \<and> zhs_pad s \<noteq> []"
proof -
  let ?n = "length (utf8 s)"
  have "n + (16 - r) = (d + 1) * 16" if "r < 16" and "n = d * 16 + r" for n d r :: nat
    using that by arith
  from this [of "?n mod 16" ?n "?n div 16"]
  have "?n + (16 - ?n mod 16) = (?n div 16 + 1) * 16" by simp
  then have "(?n + (16 - ?n mod 16)) mod 16 = 0" by (metis mod_mult_self2_is_0)
  then show ?thesis by (simp add: zhs_pad_def Let_def AES_BLOCK_def)
qed

lemma pad_round_trip: "zhs_unpad (zhs_pad s) = Some s"
proof -
  define m where "m = AES_BLOCK - length (utf8 s) mod AES_BLOCK"
  have m: "0 < m" "m \<le> 16" unfolding m_def AES_BLOCK_def by simp_all
  have p: "zhs_pad s = utf8 s @ replicate m (char_of m)" by (simp add: zhs_pad_def m_def Let_def)
  have "last (zhs_pad s) = char_of m" using m by (simp add: p last_append)
  then have "(of_char (last (zhs_pad s)) :: nat) = m" using m by simp
  moreover have "take (length (zhs_pad s) - m) (zhs_pad s) = utf8 s" by (simp add: p)
  ultimately show ?thesis
    using m zhs_pad_length [of s] utf8_round_trip [of s] by (simp add: zhs_unpad_def Let_def)
qed

text \<open>The bytes AES is documented to decrypt: whole blocks\<close>

definition aes_inverse :: "aes \<Rightarrow> aes \<Rightarrow> bool" where
  "aes_inverse aes dec \<longleftrightarrow> (\<forall>k iv b. length b mod AES_BLOCK = 0 \<longrightarrow> dec k iv (aes k iv b) = b)"

lemma secret_str_readable:
  assumes "aes_inverse aes dec"
  shows "zhs_unpad (dec key iv (base64_read (encrypt_secret_str aes now (PDict d) key iv))) = Some (zhs_json_text (PDict d))"
proof -
  have "dec key iv (aes key iv (zhs_pad t)) = zhs_pad t" for t
    using assms conjunct1 [OF zhs_pad_length [of t]] unfolding aes_inverse_def by (simp only: simp_thms)
  then show ?thesis
    by (simp add: encrypt_secret_str_def zhs_cipher_encrypt_def base64_round_trip pad_round_trip del: zhs_json_text.simps)
qed

section \<open>The obfuscated progress fields\<close>

text \<open>\<open>hex(n)\<close> without its prefix\<close>

fun hex_digits :: "nat \<Rightarrow> string" where
  "hex_digits n = (if n < 16 then [hex_char n] else hex_digits (n div 16) @ [hex_char (n mod 16)])"

declare hex_digits.simps [simp del]

definition ev_byte :: "char \<Rightarrow> char \<Rightarrow> string" where
  "ev_byte ch k =
     (let tmp = hex_digits (of_char ch XOR of_char k); tmp = (if length tmp < 2 then CHR ''0'' # tmp else tmp)
      in last_n 4 tmp)"

text \<open>The key stream starts at position \<open>i\<close> of the key and repeats it\<close>

fun ev_bytes :: "string \<Rightarrow> nat \<Rightarrow> string \<Rightarrow> string" where
  "ev_bytes key i [] = []"
| "ev_bytes key i (ch # s) = ev_byte ch (key ! (i mod length key)) @ ev_bytes key (Suc i) s"

text \<open>\<open>get_ev(data, key)\<close>, and its default key\<close>

definition get_ev :: "pyval list \<Rightarrow> string \<Rightarrow> string" where
  "get_ev data key = ev_bytes key 0 (join_with '';'' (map py_str data))"

definition EV_KEY :: string where "EV_KEY = ''zzpttjd''"

text \<open>What the platform reads: the specification of the inverse\<close>

definition hex_value :: "char \<Rightarrow> nat" where
  "hex_value c = (let n = (of_char c :: nat) in if n < 58 then n - 48 else n - 87)"

fun ev_read :: "string \<Rightarrow> nat \<Rightarrow> string \<Rightarrow> string" where
  "ev_read key i (a # b # s) =
     char_of ((hex_value a * 16 + hex_value b) XOR of_char (key ! (i mod length key))) # ev_read key (Suc i) s"
| "ev_read key i _ = []"

lemma xor_byte: "((of_char c :: nat) XOR of_char k) < 256"
proof -
  have "take_bit 8 ((of_char c :: nat) XOR of_char k) = of_char c XOR of_char k"
    by (simp add: take_bit_xor take_bit_nat_eq_self)
  then show ?thesis using take_bit_nat_less_exp [of 8 "(of_char c :: nat) XOR of_char k"] by simp
qed

lemma hex_value_char [simp]: "n < 16 \<Longrightarrow> hex_value (hex_char n) = n"
  by (auto simp: hex_value_def hex_char_def Let_def)

lemma ev_byte_hex:
  "ev_byte c k = [hex_char ((of_char c XOR of_char k) div 16), hex_char ((of_char c XOR of_char k) mod 16)]"
proof -
  let ?n = "(of_char c :: nat) XOR of_char k"
  have n: "?n < 256" by (rule xor_byte)
  have "hex_char 0 = CHR ''0''" by code_simp
  moreover have "hex_digits ?n = (if ?n < 16 then [hex_char ?n] else [hex_char (?n div 16), hex_char (?n mod 16)])"
    using n hex_digits.simps [of "?n div 16"] by (subst hex_digits.simps) auto
  ultimately show ?thesis by (auto simp: ev_byte_def Let_def last_n_def)
qed

lemma ev_bytes_read: "ev_read key i (ev_bytes key i s) = s"
proof (induction s arbitrary: i)
  case (Cons c s)
  let ?k = "key ! (i mod length key)"
  let ?n = "(of_char c :: nat) XOR of_char ?k"
  have "?n div 16 < 16" using xor_byte [of c ?k] by (simp add: less_mult_imp_div_less)
  then have "hex_value (hex_char (?n div 16)) * 16 + hex_value (hex_char (?n mod 16)) = ?n" by simp
  then show ?case using Cons by (simp add: ev_byte_hex xor.assoc)
qed simp

lemma get_ev_read: "ev_read key 0 (get_ev data key) = join_with '';'' (map py_str data)"
  by (simp add: get_ev_def ev_bytes_read)

text \<open>\<open>hms(seconds)\<close>: the text of a \<open>timedelta\<close>\<close>

definition two_digits :: "int \<Rightarrow> string" where
  "two_digits n = (if n < 10 then CHR ''0'' # int_str n else int_str n)"

definition hms :: "int \<Rightarrow> string" where
  "hms seconds =
     (let days = seconds div 86400; s = seconds mod 86400
      in (if days \<noteq> 0 then int_str days @ '' day'' @ (if \<bar>days\<bar> \<noteq> 1 then ''s'' else []) @ '', '' else [])
         @ int_str (s div 3600) @ '':'' @ two_digits (s div 60 mod 60) @ '':'' @ two_digits (s mod 60))"

section \<open>Watch points\<close>

record watch_point =
  wp_points :: "int list"
  wp_last :: int

text \<open>\<open>WatchPoint.gen\<close>, \<open>reset\<close> (and the constructor), \<open>add\<close> without a start, \<open>get\<close>\<close>

definition wp_gen :: "int \<Rightarrow> int" where "wp_gen time = time div 5 + 2"

definition wp_reset :: "int \<Rightarrow> watch_point" where
  "wp_reset init = \<lparr>wp_points = [0, 1], wp_last = (if init \<noteq> 0 then init else 1)\<rparr>"

text \<open>\<open>range(start, stop, step)\<close> for a positive step, in at most \<open>nat (stop - start)\<close> turns\<close>

fun py_range :: "nat \<Rightarrow> int \<Rightarrow> int \<Rightarrow> int \<Rightarrow> int list" where
  "py_range 0 start stop step = []"
| "py_range (Suc n) start stop step = (if start < stop then start # py_range n (start + step) stop step else [])"

definition wp_add :: "int \<Rightarrow> watch_point \<Rightarrow> watch_point" where
  "wp_add end wp =
     (let start = wp_last wp
      in \<lparr>wp_points = wp_points wp @ map wp_gen (py_range (nat (end + 1 - start)) start (end + 1) 2), wp_last = end\<rparr>)"

definition wp_get :: "watch_point \<Rightarrow> string" where
  "wp_get wp = join_with '','' (map int_str (wp_points wp))"

end
