(* ===== verification/Zhs_Learning.thy ===== *)
theory Zhs_Learning
  imports Zhs_Protocol Complex_Main
begin

text \<open>
  The Zhihuishu client (\<open>zhihuishu/learning.py\<close>): reading the platform's answers, the course list,
  the checkpoints of a video with their questions, and the progress report.

  The platform is a \<open>web\<close>. Other threads pause and cancel a task while the client works, so reading
  whether it is paused or cancelled advances the outside world, as sleeping does. Converting a value
  to \<open>int\<close> or \<open>float\<close> is the language's; a \<open>float\<close> is an exact rational here. \<open>z_patience\<close> bounds the
  readings one pause is given before the model stops following it (\<open>Still_waiting\<close>). \<open>pl_video\<close> is the
  dictionary of the video being watched, which the client changes in place, and \<open>pl_saves\<close>
  records each progress report: the position, the position of the report before, and the answer.
\<close>

record 'w zhs =
  z_web :: "'w web"
  z_session :: nat
  z_aes :: aes
  z_uuid :: string
  z_cancelled :: "'w \<Rightarrow> bool \<times> 'w"
  z_paused :: "'w \<Rightarrow> bool \<times> 'w"
  z_sleep :: "int \<Rightarrow> 'w \<Rightarrow> 'w"
  z_patience :: nat
  z_int :: "pyval \<Rightarrow> string + int"
  z_float :: "pyval \<Rightarrow> string + rat option"
  z_json_error :: "response \<Rightarrow> http_exc"

record 'w player = "'w net" +
  pl_video :: pydict
  pl_saves :: "(rat \<times> rat \<times> pyval) list"

type_synonym ('w, 'z, 'a) pio = "('w, 'z) player_scheme \<Rightarrow> (http_exc + 'a) \<times> ('w, 'z) player_scheme"

section \<open>Reading an answer\<close>

text \<open>\<open>v == 0\<close>\<close>

definition eq_zero :: "pyval \<Rightarrow> bool" where
  "eq_zero v = (v \<in> {PInt 0, PBool False, PFloat ''0.0'', PFloat ''-0.0''})"

text \<open>\<open>not isinstance(code, bool) and code in (0, 200, "0", "200")\<close>\<close>

definition ok_code :: "pyval \<Rightarrow> bool" where
  "ok_code code =
     (code \<in> {PInt 0, PInt 200, PFloat ''0.0'', PFloat ''-0.0'', PFloat ''200.0'', PStr ''0'', PStr ''200''})"

definition is_dict :: "pyval \<Rightarrow> bool" where
  "is_dict v = (case v of PDict _ \<Rightarrow> True | _ \<Rightarrow> False)"

definition is_list :: "pyval \<Rightarrow> bool" where
  "is_list v = (case v of PList _ \<Rightarrow> True | _ \<Rightarrow> False)"

fun the_list :: "pyval \<Rightarrow> pyval list" where
  "the_list (PList xs) = xs"
| "the_list _ = []"

fun the_dict :: "pyval \<Rightarrow> pydict" where
  "the_dict (PDict d) = d"
| "the_dict _ = []"

definition data_keys :: "string list" where "data_keys = [''data'', ''result'', ''rt'']"

text \<open>\<open>_extract(payload)\<close>\<close>

definition extract_data :: "pyval \<Rightarrow> pydict" where
  "extract_data payload =
     (case payload of
        PDict d \<Rightarrow> (case filter is_dict (map (dget d) data_keys) of [] \<Rightarrow> [] | v # _ \<Rightarrow> the_dict v)
      | _ \<Rightarrow> [])"

definition upstream_error :: "string \<Rightarrow> http_exc" where
  "upstream_error s = Other_exc (''Zhihuishu '' @ s)"

definition response_json :: "'w zhs \<Rightarrow> response \<Rightarrow> http_exc + pyval" where
  "response_json z resp = (case rs_json resp of None \<Rightarrow> Inl (z_json_error z resp) | Some v \<Rightarrow> Inr v)"

text \<open>\<open>_response_data(response, required_key)\<close>\<close>

definition fill_required :: "string option \<Rightarrow> pydict \<Rightarrow> pydict" where
  "fill_required required_key data =
     (case required_key of
        Some key \<Rightarrow>
          (if key = ''courseOpenDtos'' \<and> (eq_zero (dget data ''totalCount'') \<or> dget data ''totalCount'' = PStr ''0'')
              \<and> dget data key = PNone
           then dset key (PList []) data else data)
      | None \<Rightarrow> data)"

definition response_data :: "'w zhs \<Rightarrow> string option \<Rightarrow> response \<Rightarrow> http_exc + pydict" where
  "response_data z required_key resp =
     (if rs_status resp \<noteq> 200 then Inl (upstream_error ''upstream response has an unsuccessful HTTP status'')
      else case response_json z resp of
        Inl e \<Rightarrow> Inl e
      | Inr payload \<Rightarrow>
          (case payload of
             PDict d \<Rightarrow>
               (let code = dget d ''code''
                in if code \<noteq> PNone \<and> \<not> ok_code code
                   then Inl (upstream_error (''upstream response rejected (code '' @ py_repr code @ '')''))
                   else if \<not> list_ex (\<lambda>key. is_dict (dget d key)) data_keys
                   then Inl (upstream_error ''upstream response has no data object'')
                   else (let data = fill_required required_key (extract_data payload)
                         in case required_key of
                              None \<Rightarrow> Inr data
                            | Some key \<Rightarrow>
                                (if is_list (dget data key) then Inr data
                                 else Inl (upstream_error (''upstream response has no '' @ key @ '' list'')))))
           | _ \<Rightarrow> Inl (upstream_error ''upstream response is not an object'')))"

section \<open>Signed requests\<close>

definition signed_request :: "aes \<Rightarrow> int \<Rightarrow> string \<Rightarrow> pydict \<Rightarrow> string \<Rightarrow> request" where
  "signed_request aes now_ms url payload key =
     (let ts = now_ms div 1000 * 1000; data = dset ''dateFormate'' (PInt ts) payload
      in post_request url []
           [(''secretStr'', PStr (encrypt_secret_str aes now_ms (PDict data) key ZHS_IV)), (''dateFormate'', PInt ts)] [])"

definition signed_post :: "'w zhs \<Rightarrow> string \<Rightarrow> pydict \<Rightarrow> string \<Rightarrow> ('w, 'z, response) io" where
  "signed_post z url payload key =
     io_bind (io_get (\<lambda>n. web_ms (z_web z) (world n))) (\<lambda>now_ms.
       http (z_web z) (z_session z) (signed_request (z_aes z) now_ms url payload key))"

definition signed_data :: "'w zhs \<Rightarrow> string \<Rightarrow> pydict \<Rightarrow> string \<Rightarrow> string option \<Rightarrow> ('w, 'z, pydict) io" where
  "signed_data z url payload key required_key =
     io_bind (signed_post z url payload key) (\<lambda>resp. io_of (response_data z required_key resp))"

text \<open>\<open>int(v)\<close>\<close>

definition py_int :: "'w zhs \<Rightarrow> pyval \<Rightarrow> string + int" where
  "py_int z v = (case v of PInt i \<Rightarrow> Inr i | PBool b \<Rightarrow> Inr (if b then 1 else 0) | _ \<Rightarrow> z_int z v)"

definition int_value :: "'w zhs \<Rightarrow> pyval \<Rightarrow> ('w, 'z, int) io" where
  "int_value z v = io_of (case py_int z v of Inl s \<Rightarrow> Inl (Other_exc s) | Inr i \<Rightarrow> Inr i)"

text \<open>\<open>a or b\<close>\<close>

definition or_else :: "pyval \<Rightarrow> pyval \<Rightarrow> pyval" where
  "or_else a b = (if truthy a then a else b)"

section \<open>The course list\<close>

definition ZHS_COURSE_LIST_URL :: string where
  "ZHS_COURSE_LIST_URL = ''https://onlineservice-api.zhihuishu.com/gateway/t/v1/student/course/share/queryShareCourseInfo''"
definition GOLOGIN_URL :: string where
  "GOLOGIN_URL = ''https://studyservice-api.zhihuishu.com/login/gologin''"
definition QUERY_COURSE_URL :: string where
  "QUERY_COURSE_URL = ''https://studyservice-api.zhihuishu.com/gateway/t/v1/learning/queryCourse''"
definition VIDEO_LIST_URL :: string where
  "VIDEO_LIST_URL = ''https://studyservice-api.zhihuishu.com/gateway/t/v1/learning/videolist''"
definition PRELEARNING_NOTE_URL :: string where
  "PRELEARNING_NOTE_URL = ''https://studyservice-api.zhihuishu.com/gateway/t/v1/learning/prelearningNote''"
definition SAVE_DB_V2_URL :: string where
  "SAVE_DB_V2_URL = ''https://studyservice-api.zhihuishu.com/gateway/t/v1/learning/saveDatabaseIntervalTimeV2''"
definition QUERY_STUDY_INFO_URL :: string where
  "QUERY_STUDY_INFO_URL = ''https://studyservice-api.zhihuishu.com/gateway/t/v1/learning/queryStuyInfo''"
definition VIDEO_POINTER_URL :: string where
  "VIDEO_POINTER_URL = ''https://studyservice-api.zhihuishu.com/gateway/t/v1/popupAnswer/loadVideoPointerInfo''"
definition POPUP_EXAM_URL :: string where
  "POPUP_EXAM_URL = ''https://studyservice-api.zhihuishu.com/gateway/t/v1/popupAnswer/lessonPopupExam''"
definition SUBMIT_POPUP_URL :: string where
  "SUBMIT_POPUP_URL = ''https://studyservice-api.zhihuishu.com/gateway/t/v1/popupAnswer/saveLessonPopupExamSaveAnswer''"

definition PAGE_SIZE :: int where "PAGE_SIZE = 5"
definition COURSE_STATUSES :: "int list" where "COURSE_STATUSES = [0, 1]"
definition DB_REPORT_INTERVAL :: nat where "DB_REPORT_INTERVAL = 30"

definition zhs_course_page :: "'w zhs \<Rightarrow> int \<Rightarrow> int \<Rightarrow> ('w, 'z, pydict) io" where
  "zhs_course_page z status page =
     signed_data z ZHS_COURSE_LIST_URL
       [(''status'', PInt status), (''pageNo'', PInt page), (''pageSize'', PInt PAGE_SIZE)] HOME_KEY (Some ''courseOpenDtos'')"

text \<open>All pages of one status\<close>

definition course_batch :: "'w zhs \<Rightarrow> int \<Rightarrow> ('w, 'z, pyval list) io" where
  "course_batch z status =
     io_bind (zhs_course_page z status 1) (\<lambda>result.
     io_bind (int_value z (or_else (dget result ''totalCount'') (PInt 0))) (\<lambda>total.
     io_for (\<lambda>page batch.
         io_bind (zhs_course_page z status page) (\<lambda>more_data.
         io_return (batch @ the_list (dget more_data ''courseOpenDtos''))))
       [2..(total + PAGE_SIZE - 1) div PAGE_SIZE] (the_list (dget result ''courseOpenDtos''))))"

definition zhs_course_key :: "pydict \<Rightarrow> string" where
  "zhs_course_key course =
     (if truthy (dget course ''recruitAndCourseId'') then py_str (dget course ''recruitAndCourseId'')
      else if truthy (dget course ''secret'') then py_str (dget course ''secret'')
      else ''('' @ py_repr (dget course ''courseId'') @ '', '' @ py_repr (dget course ''recruitId'') @ '')'')"

definition with_rac_id :: "pydict \<Rightarrow> pydict" where
  "with_rac_id course =
     (if truthy (dget course ''secret'') \<and> \<not> truthy (dget course ''recruitAndCourseId'')
      then dset ''recruitAndCourseId'' (dget course ''secret'') course else course)"

text \<open>What one entry adds to the courses and to the keys seen\<close>

definition add_course :: "pyval \<Rightarrow> pydict list \<times> string list \<Rightarrow> pydict list \<times> string list" where
  "add_course v acc =
     (case v of
        PDict course \<Rightarrow>
          (let (courses, seen) = acc; key = zhs_course_key course
           in if key \<in> set seen then acc else (courses @ [with_rac_id course], seen @ [key]))
      | _ \<Rightarrow> acc)"

definition get_course_list :: "'w zhs \<Rightarrow> ('w, 'z, pydict list) io" where
  "get_course_list z =
     io_try (\<lambda>_. True)
       (io_bind (io_for (\<lambda>status acc. io_bind (course_batch z status) (\<lambda>batch. io_return (fold add_course batch acc)))
                   COURSE_STATUSES ([], []))
          (\<lambda>acc. io_return (fst acc)))
       (\<lambda>e. io_raise (Other_exc (''Failed to get course list: '' @ exc_str e)))"

section \<open>Videos and their state\<close>

definition gologin :: "'w zhs \<Rightarrow> string \<Rightarrow> ('w, 'z, unit) io" where
  "gologin z rac_id =
     io_try (\<lambda>_. True)
       (io_bind (http (z_web z) (z_session z) (get_request GOLOGIN_URL
            [(''fromurl'', PStr (''https://studyh5.zhihuishu.com/videoStudy.html#/studyVideo?recruitAndCourseId='' @ rac_id))]))
          (\<lambda>_. io_return ()))
       (\<lambda>_. io_return ())"

definition query_course :: "'w zhs \<Rightarrow> string \<Rightarrow> ('w, 'z, pydict) io" where
  "query_course z rac_id = signed_data z QUERY_COURSE_URL [(''recruitAndCourseId'', PStr rac_id)] VIDEO_KEY None"

definition get_video_list :: "'w zhs \<Rightarrow> string \<Rightarrow> ('w, 'z, pydict) io" where
  "get_video_list z rac_id =
     io_try (\<lambda>_. True)
       (io_bind (gologin z rac_id) (\<lambda>_.
        signed_data z VIDEO_LIST_URL [(''recruitAndCourseId'', PStr rac_id)] VIDEO_KEY (Some ''videoChapterDtos'')))
       (\<lambda>e. io_raise (Other_exc (''Failed to get video list: '' @ exc_str e)))"

definition query_study_info :: "'w zhs \<Rightarrow> pyval list \<Rightarrow> pyval list \<Rightarrow> pyval \<Rightarrow> ('w, 'z, pydict) io" where
  "query_study_info z lesson_ids video_ids recruit_id =
     signed_data z QUERY_STUDY_INFO_URL
       [(''lessonIds'', PList lesson_ids), (''lessonVideoIds'', PList video_ids), (''recruitId'', recruit_id)] VIDEO_KEY None"

section \<open>Still_waiting for playback\<close>

datatype play = Go | Halt | Still_waiting

definition zhs_reading :: "('w \<Rightarrow> bool \<times> 'w) \<Rightarrow> ('w, 'z, bool) io" where
  "zhs_reading f n = (Inr (fst (f (world n))), n\<lparr>world := snd (f (world n))\<rparr>)"

definition sleep :: "'w zhs \<Rightarrow> int \<Rightarrow> ('w, 'z, unit) io" where
  "sleep z ms n = (Inr (), n\<lparr>world := z_sleep z ms (world n)\<rparr>)"

fun pause_loop :: "'w zhs \<Rightarrow> nat \<Rightarrow> ('w, 'z, play) io" where
  "pause_loop z 0 = io_return Still_waiting"
| "pause_loop z (Suc k) =
     io_bind (zhs_reading (z_paused z)) (\<lambda>paused.
       if paused
       then io_bind (zhs_reading (z_cancelled z)) (\<lambda>cancelled.
              if cancelled then io_return Halt else io_bind (sleep z 300) (\<lambda>_. pause_loop z k))
       else io_bind (zhs_reading (z_cancelled z)) (\<lambda>cancelled. io_return (if cancelled then Halt else Go)))"

text \<open>\<open>_wait_for_playback\<close>\<close>

definition wait_for_playback :: "'w zhs \<Rightarrow> ('w, 'z, play) io" where
  "wait_for_playback z =
     io_bind (zhs_reading (z_cancelled z)) (\<lambda>cancelled. if cancelled then io_return Halt else pause_loop z (z_patience z))"

text \<open>\<open>if not self._wait_for_playback(...): return False\<close>, and then \<open>m\<close>\<close>

definition when_playing :: "'w zhs \<Rightarrow> ('w, 'z, play) io \<Rightarrow> ('w, 'z, play) io" where
  "when_playing z m = io_bind (wait_for_playback z) (\<lambda>p. if p = Go then m else io_return p)"

end
