(* ===== verification/Service_Prelude.thy ===== *)
theory Service_Prelude
  imports Complex_Main Web_Session
begin

text \<open>
  What the services that watch videos share: floats as rationals, the reading of a dictionary's key,
  and which part of the state an operation keeps.
\<close>

text \<open>\<open>d[k]\<close>\<close>

definition get_key :: "pydict \<Rightarrow> string \<Rightarrow> http_exc + pyval" where
  "get_key d k = (case map_of d k of None \<Rightarrow> Inl (Other_exc (repr_str k)) | Some v \<Rightarrow> Inr v)"

text \<open>\<open>int(x)\<close> of a float\<close>

definition trunc :: "rat \<Rightarrow> int" where
  "trunc x = (if x < 0 then - \<lfloor>- x\<rfloor> else \<lfloor>x\<rfloor>)"

lemma trunc_of_int [simp]: "trunc (of_int i) = i"
  by (simp add: trunc_def)

lemma trunc_le: "rat_of_int (trunc x) \<le> max 0 x"
  unfolding trunc_def using of_int_floor_le [of x] of_int_floor_le [of "- x"]
  by (auto simp: max_def le_floor_iff)

lemma trunc_ge: "rat_of_int d \<le> x \<Longrightarrow> d \<le> trunc x"
proof -
  assume *: "rat_of_int d \<le> x"
  have "d \<le> \<lfloor>x\<rfloor>" using * by (simp add: le_floor_iff)
  moreover have "d \<le> - \<lfloor>- x\<rfloor>" using * by (simp add: floor_minus le_ceiling_iff less_le_trans [OF _ *])
  ultimately show ?thesis by (simp add: trunc_def)
qed

section \<open>What an operation keeps\<close>

text \<open>\<open>preserves f m\<close>: \<open>m\<close> does not change what \<open>f\<close> reads\<close>

definition preserves :: "(('w, 'z) net_scheme \<Rightarrow> 'b) \<Rightarrow> ('w, 'z, 'a) io \<Rightarrow> bool" where
  "preserves f m \<longleftrightarrow> (\<forall>n. f (snd (m n)) = f n)"

named_theorems keeps_rules \<open>an operation preserves what its parts keep\<close>

lemma keepsD: "preserves f m \<Longrightarrow> m n = (r, n') \<Longrightarrow> f n' = f n"
  unfolding preserves_def by (metis snd_conv)

lemma keeps_return [keeps_rules]: "preserves f (io_return x)"
  by (simp add: preserves_def io_return_def)

lemma keeps_raise [keeps_rules]: "preserves f (io_raise x)"
  by (simp add: preserves_def io_raise_def)

lemma keeps_get [keeps_rules]: "preserves f (io_get x)"
  by (simp add: preserves_def io_get_def)

lemma keeps_of [keeps_rules]: "preserves f (io_of x)"
  by (simp add: preserves_def io_of_def)

lemma keeps_bind [keeps_rules]: "preserves f m \<Longrightarrow> (\<And>x. preserves f (g x)) \<Longrightarrow> preserves f (io_bind m g)"
  unfolding preserves_def io_bind_def by (auto simp: case_prod_beta split: sum.splits)

lemma keeps_try [keeps_rules]: "preserves f m \<Longrightarrow> (\<And>x. preserves f (g x)) \<Longrightarrow> preserves f (io_try C m g)"
  unfolding preserves_def io_try_def by (auto simp: case_prod_beta split: sum.splits)

definition local_part :: "(('w, 'z) net_scheme \<Rightarrow> 'b) \<Rightarrow> bool" where
  "local_part f \<longleftrightarrow> (\<forall>n s. f (n\<lparr>sent := s\<rparr>) = f n) \<and> (\<forall>n w. f (n\<lparr>world := w\<rparr>) = f n)"

end
