(* ===== verification/Zhs_Watch.thy ===== *)
theory Zhs_Watch
  imports Zhs_Learning Service_Prelude
begin

text \<open>
  Watching one video (\<open>watch_video\<close> of \<open>zhihuishu/learning.py\<close>): the token of the lesson, the
  checkpoints and the answers handed in at them, and the loop that plays, one second a turn, and
  reports the progress. It returns whether every report was acknowledged.
\<close>

section \<open>Checkpoints\<close>

record checkpoint =
  cp_time :: rat
  cp_ids :: string

definition no_small_lesson :: "pyval \<Rightarrow> bool" where
  "no_small_lesson v = (v = PNone \<or> v = PStr [] \<or> eq_zero v \<or> v = PStr ''0'')"

definition small_lesson_field :: "pydict \<Rightarrow> pydict \<Rightarrow> pydict" where
  "small_lesson_field video payload =
     (if no_small_lesson (dget video ''small_lesson_id'') then payload
      else dset ''lessonVideoId'' (dget video ''small_lesson_id'') payload)"

text \<open>\<open>_popup_context(video)\<close>\<close>

definition popup_context :: "pydict \<Rightarrow> http_exc + pydict" where
  "popup_context video =
     (case get_key video ''lesson_id'' of
        Inl e \<Rightarrow> Inl e
      | Inr v \<Rightarrow> Inr (small_lesson_field video [(''lessonId'', v)]))"

text \<open>\<open>q.isdigit()\<close>, on Latin-1 true of the superscript digits, too\<close>

definition py_isdigit :: "string \<Rightarrow> bool" where
  "py_isdigit s = (s \<noteq> [] \<and> list_all (\<lambda>c. is_digit c \<or> (of_char c :: nat) \<in> {178, 179, 185}) s)"

definition parse_point :: "'w zhs \<Rightarrow> pyval \<Rightarrow> string + checkpoint" where
  "parse_point z point =
     (case point of
        PDict d \<Rightarrow>
          (case (map_of d ''timeSec'', map_of d ''questionIds'') of
             (Some t, Some ids) \<Rightarrow>
               (case z_float z t of
                  Inl _ \<Rightarrow> Inl ''popup checkpoint lacks timeSec/questionIds''
                | Inr seconds \<Rightarrow>
                    (let question_ids = split_on (CHR '','') (py_str ids)
                     in case seconds of
                          Some s \<Rightarrow>
                            (if s < 0 \<or> \<not> list_all (\<lambda>q. py_isdigit (py_strip q)) question_ids
                             then Inl ''popup checkpoint has invalid timeSec/questionIds''
                             else Inr \<lparr>cp_time = s, cp_ids = join_with '','' (map py_strip question_ids)\<rparr>)
                        | None \<Rightarrow> Inl ''popup checkpoint has invalid timeSec/questionIds''))
           | _ \<Rightarrow> Inl ''popup checkpoint lacks timeSec/questionIds'')
      | _ \<Rightarrow> Inl ''popup checkpoint is not an object'')"

fun parse_points :: "'w zhs \<Rightarrow> pyval list \<Rightarrow> string + checkpoint list" where
  "parse_points z [] = Inr []"
| "parse_points z (p # ps) =
     (case parse_point z p of
        Inl e \<Rightarrow> Inl e
      | Inr c \<Rightarrow> (case parse_points z ps of Inl e \<Rightarrow> Inl e | Inr cs \<Rightarrow> Inr (c # cs)))"

definition upstream :: "string + 'a \<Rightarrow> http_exc + 'a" where
  "upstream r = (case r of Inl s \<Rightarrow> Inl (upstream_error s) | Inr x \<Rightarrow> Inr x)"

definition load_video_pointer_info :: "'w zhs \<Rightarrow> pydict \<Rightarrow> ('w, 'z, checkpoint list) io" where
  "load_video_pointer_info z video =
     io_bind (io_of (popup_context video)) (\<lambda>ctx.
     io_bind (io_of (get_key video ''recruit_id'')) (\<lambda>recruit.
     io_bind (io_of (get_key video ''course_id'')) (\<lambda>course.
     io_bind (signed_data z VIDEO_POINTER_URL (dset ''courseId'' course (dset ''recruitId'' recruit ctx)) VIDEO_KEY None)
       (\<lambda>data.
     io_of (upstream
       (case dget data ''questionPoint'' of
          PNone \<Rightarrow> Inr []
        | PList points \<Rightarrow> map_sum id (sort_key cp_time) (parse_points z points)
        | _ \<Rightarrow> Inl ''popup response has no questionPoint list''))))))"

definition get_popup_exam :: "'w zhs \<Rightarrow> pydict \<Rightarrow> string \<Rightarrow> ('w, 'z, pyval list) io" where
  "get_popup_exam z video question_ids =
     io_bind (io_of (popup_context video)) (\<lambda>ctx.
     io_bind (signed_data z POPUP_EXAM_URL (dset ''questionIds'' (PStr question_ids) ctx) VIDEO_KEY
                (Some ''lessonTestQuestionUseInterfaceDtos'')) (\<lambda>data.
     (let questions = the_list (dget data ''lessonTestQuestionUseInterfaceDtos'')
      in if questions = [] \<or> \<not> list_all is_dict questions
         then io_raise (upstream_error ''popup response has no question DTOs'')
         else io_return questions)))"

definition submit_popup_exam :: "'w zhs \<Rightarrow> pydict \<Rightarrow> string \<Rightarrow> string \<Rightarrow> ('w, 'z, unit) io" where
  "submit_popup_exam z video question_id answer =
     io_bind (io_of (popup_context video)) (\<lambda>ctx.
     io_bind (io_of (get_key video ''course_id'')) (\<lambda>course.
     io_bind (io_of (get_key video ''recruit_id'')) (\<lambda>recruit.
     io_bind (int_value z (PStr question_id)) (\<lambda>qid.
     io_bind (signed_post z SUBMIT_POPUP_URL
                (dupdate ctx [(''courseId'', course), (''recruitId'', recruit), (''testQuestionId'', PInt qid),
                   (''answer'', PStr answer), (''isCurrent'', PStr ''1''), (''testType'', PInt 0)]) VIDEO_KEY) (\<lambda>resp.
     if rs_status resp \<noteq> 200 then io_raise (upstream_error ''popup submission failed: HTTP response'')
     else io_bind (io_of (response_json z resp)) (\<lambda>result.
       case result of
         PDict d \<Rightarrow>
           (if \<not> ok_code (dget d ''code'') \<or> dget d ''data'' = PBool False
            then io_raise (upstream_error (''popup submission rejected (code '' @ py_repr (dget d ''code'') @ '')''))
            else io_return ())
       | _ \<Rightarrow> io_raise (upstream_error ''popup submission failed: invalid response'')))))))"

text \<open>The answer to one question: the ids of the options the platform marks as correct\<close>

definition option_result :: "pyval \<Rightarrow> string" where
  "option_result opt = py_str (dget (the_dict opt) ''result'')"

definition option_id :: "pyval \<Rightarrow> string" where
  "option_id opt = (case map_of (the_dict opt) ''id'' of None \<Rightarrow> [] | Some v \<Rightarrow> py_str v)"

definition checkpoint_answer :: "string \<Rightarrow> pyval list \<Rightarrow> string + string" where
  "checkpoint_answer question_id questions =
     (if length questions \<noteq> 1 then Inl ''popup returned unexpected question count''
      else case dget (the_dict (hd questions)) ''testQuestion'' of
        PDict question \<Rightarrow>
          (if (case map_of question ''id'' of None \<Rightarrow> question_id | Some v \<Rightarrow> py_str v) \<noteq> question_id
           then Inl ''popup returned a different question ID''
           else case dget question ''questionOptions'' of
             PList options \<Rightarrow>
               (if options = [] then Inl ''popup response lacks questionOptions''
                else if \<not> list_all (\<lambda>opt. is_dict opt \<and> option_result opt \<in> {''0'', ''1''}) options
                then Inl ''popup response lacks correct option markers''
                else (let correct = map option_id (filter (\<lambda>opt. option_result opt = ''1'') options)
                      in if correct = [] \<or> \<not> list_all py_isdigit correct
                         then Inl ''popup response has no correct option IDs''
                         else Inr (join_with '','' correct)))
           | _ \<Rightarrow> Inl ''popup response lacks questionOptions'')
      | _ \<Rightarrow> Inl ''popup response lacks testQuestion'')"

definition answered :: "pydict \<Rightarrow> pyval list" where
  "answered video = the_list (dget video ''answered_popup_questions'')"

definition note_answered :: "string \<Rightarrow> ('w, 'z, unit) pio" where
  "note_answered question_id n =
     (Inr (), n\<lparr>pl_video := dset ''answered_popup_questions'' (PList (answered (pl_video n) @ [PStr question_id])) (pl_video n)\<rparr>)"

text \<open>One question of a checkpoint, and \<open>_answer_popup_checkpoint\<close>\<close>

definition answer_question :: "'w zhs \<Rightarrow> string \<Rightarrow> ('w, 'z, play) pio" where
  "answer_question z question_id =
     when_playing z
       (io_bind (io_get pl_video) (\<lambda>video.
        if PStr question_id \<in> set (answered video) then io_return Go
        else io_bind (get_popup_exam z video question_id) (\<lambda>questions.
             io_bind (io_of (upstream (checkpoint_answer question_id questions))) (\<lambda>answer.
             when_playing z
               (io_bind (submit_popup_exam z video question_id answer) (\<lambda>_.
                io_bind (note_answered question_id) (\<lambda>_. io_return Go)))))))"

fun answer_ids :: "'w zhs \<Rightarrow> string list \<Rightarrow> ('w, 'z, play) pio" where
  "answer_ids z [] = io_return Go"
| "answer_ids z (q # qs) = io_bind (answer_question z q) (\<lambda>p. if p = Go then answer_ids z qs else io_return p)"

definition answer_popup_checkpoint :: "'w zhs \<Rightarrow> checkpoint \<Rightarrow> ('w, 'z, play) pio" where
  "answer_popup_checkpoint z point = answer_ids z (split_on (CHR '','') (cp_ids point))"

text \<open>The checkpoints reached at \<open>played\<close>, and those that are left\<close>

fun answer_due :: "'w zhs \<Rightarrow> rat \<Rightarrow> checkpoint list \<Rightarrow> ('w, 'z, play \<times> checkpoint list) pio" where
  "answer_due z played [] = io_return (Go, [])"
| "answer_due z played (p # ps) =
     (if cp_time p \<le> played
      then io_bind (answer_popup_checkpoint z p) (\<lambda>r. if r = Go then answer_due z played ps else io_return (r, p # ps))
      else io_return (Go, p # ps))"

fun answer_all :: "'w zhs \<Rightarrow> checkpoint list \<Rightarrow> ('w, 'z, play) pio" where
  "answer_all z [] = io_return Go"
| "answer_all z (p # ps) =
     io_bind (answer_popup_checkpoint z p) (\<lambda>r. if r = Go then answer_all z ps else io_return r)"

section \<open>The token and the report\<close>

definition type_name :: "pyval \<Rightarrow> string" where
  "type_name v = (case v of PNone \<Rightarrow> ''NoneType'' | PBool _ \<Rightarrow> ''bool'' | PInt _ \<Rightarrow> ''int'' | PFloat _ \<Rightarrow> ''float''
     | PStr _ \<Rightarrow> ''str'' | PList _ \<Rightarrow> ''list'' | PDict _ \<Rightarrow> ''dict'')"

definition apostrophe :: string where "apostrophe = [char_of (39 :: nat)]"

text \<open>\<open>v.get\<close>: \<open>AttributeError\<close> where \<open>v\<close> is no dictionary\<close>

definition with_get :: "pyval \<Rightarrow> http_exc + pydict" where
  "with_get v =
     (case v of
        PDict d \<Rightarrow> Inr d
      | _ \<Rightarrow> Inl (Other_exc (apostrophe @ type_name v @ apostrophe @ '' object has no attribute '' @ apostrophe @ ''get'' @ apostrophe)))"

definition copy_unless_none :: "pydict \<Rightarrow> string \<times> string \<Rightarrow> pydict \<Rightarrow> pydict" where
  "copy_unless_none source keys target =
     (let v = dget source (fst keys) in if v \<noteq> PNone then dset (snd keys) v target else target)"

definition STUDIED_KEYS :: "(string \<times> string) list" where
  "STUDIED_KEYS =
     [(''learnTimeSec'', ''learn_time_sec''), (''studyTotalTime'', ''study_total_time''), (''watchState'', ''watch_state'')]"

definition set_video :: "pydict \<Rightarrow> ('w, 'z, unit) pio" where
  "set_video video n = (Inr (), n\<lparr>pl_video := video\<rparr>)"

definition prelearning_payload :: "pydict \<Rightarrow> pydict" where
  "prelearning_payload video =
     small_lesson_field video
       [(''ccCourseId'', dget video ''course_id''), (''chapterId'', dget video ''chapter_id''), (''isApply'', PInt 1),
        (''lessonId'', dget video ''lesson_id''), (''recruitId'', dget video ''recruit_id''), (''videoId'', dget video ''video_id'')]"

text \<open>\<open>_learning_token_id(video)\<close>\<close>

definition learning_token_id :: "'w zhs \<Rightarrow> ('w, 'z, string) pio" where
  "learning_token_id z =
     io_bind (io_get pl_video) (\<lambda>video.
     io_bind (signed_data z PRELEARNING_NOTE_URL (prelearning_payload video) VIDEO_KEY None) (\<lambda>note.
     io_bind (io_of (with_get (or_else (dget note ''studiedLessonDto'') (PDict [])))) (\<lambda>studied.
     (let token = dget studied ''id''
      in if token = PNone \<or> token = PStr [] then io_raise (upstream_error ''prelearningNote returned no learningTokenId'')
         else io_bind (set_video (fold (copy_unless_none studied) STUDIED_KEYS video)) (\<lambda>_.
              io_return (base64_encode (utf8 (py_str token))))))))"

definition video_int :: "'w zhs \<Rightarrow> pydict \<Rightarrow> string \<Rightarrow> ('w, 'z, int) io" where
  "video_int z video key = int_value z (or_else (dget video key) (PInt 0))"

text \<open>\<open>_save_progress\<close>: the \<open>code\<close> of the answer, \<open>None\<close> where there is none\<close>

definition report_fields :: "'w zhs \<Rightarrow> pydict \<Rightarrow> rat \<Rightarrow> rat \<Rightarrow> int \<Rightarrow> int \<Rightarrow> pyval list" where
  "report_fields z video played last_submit video_sec study_total =
     [dget video ''recruit_id'', dget video ''lesson_id'', dget video ''small_lesson_id'', dget video ''video_id'',
      dget video ''chapter_id'', PStr ''0'', PInt (trunc (played - last_submit)),
      PInt (study_total + trunc (played - last_submit)), PStr (hms (min video_sec (trunc played))),
      PStr (z_uuid z @ ''zhs'')]"

definition save_progress :: "'w zhs \<Rightarrow> rat \<Rightarrow> rat \<Rightarrow> string \<Rightarrow> string \<Rightarrow> ('w, 'z, pyval) pio" where
  "save_progress z played last_submit wp token_id =
     io_bind (io_get pl_video) (\<lambda>video.
     io_bind (video_int z video ''video_sec'') (\<lambda>video_sec.
     io_bind (video_int z video ''study_total_time'') (\<lambda>study_total.
     io_bind (signed_post z SAVE_DB_V2_URL
        [(''ewssw'', PStr wp), (''sdsew'', PStr (get_ev (report_fields z video played last_submit video_sec study_total) EV_KEY)),
         (''zwsds'', PStr token_id), (''courseId'', dget video ''course_id'')] VIDEO_KEY) (\<lambda>resp.
     if rs_status resp \<noteq> 200 then io_return PNone
     else io_bind (io_of (response_json z resp)) (\<lambda>payload. io_return (dget (the_dict payload) ''code''))))))"

text \<open>A report that was answered is recorded\<close>

definition report :: "'w zhs \<Rightarrow> rat \<Rightarrow> rat \<Rightarrow> string \<Rightarrow> string \<Rightarrow> ('w, 'z, pyval) pio" where
  "report z played last_submit wp token_id =
     io_bind (save_progress z played last_submit wp token_id) (\<lambda>code n.
       (Inr code, n\<lparr>pl_saves := pl_saves n @ [(played, last_submit, code)]\<rparr>))"

section \<open>Playing\<close>

record playback =
  pb_played :: rat
  pb_last :: rat
  pb_elapsed :: nat
  pb_points :: "checkpoint list"
  pb_wp :: watch_point

datatype turn = Again playback | Over play

definition eff_speed :: "rat \<Rightarrow> rat" where
  "eff_speed speed = min (max speed (1/2)) 2"

definition next_position :: "rat \<Rightarrow> rat \<Rightarrow> playback \<Rightarrow> rat" where
  "next_position video_sec speed pb =
     (let next_point = (case pb_points pb of [] \<Rightarrow> video_sec | p # _ \<Rightarrow> cp_time p)
      in min (min (pb_played pb + eff_speed speed) video_sec) next_point)"

definition advance_totals :: "'w zhs \<Rightarrow> rat \<Rightarrow> rat \<Rightarrow> ('w, 'z, unit) pio" where
  "advance_totals z played last_submit =
     io_bind (io_get pl_video) (\<lambda>video.
     io_bind (video_int z video ''study_total_time'') (\<lambda>study_total.
     set_video (dset ''learn_time_sec'' (PInt (trunc played))
       (dset ''study_total_time'' (PInt (study_total + trunc (played - last_submit))) video))))"

text \<open>The end of a turn: a report where one is due\<close>

definition turn_report :: "'w zhs \<Rightarrow> rat \<Rightarrow> string \<Rightarrow> bool \<Rightarrow> playback \<Rightarrow> ('w, 'z, turn) pio" where
  "turn_report z video_sec token_id reached_point pb =
     (let played = pb_played pb
      in if pb_elapsed pb mod DB_REPORT_INTERVAL = 0 \<or> video_sec \<le> played \<or> reached_point
         then io_bind (wait_for_playback z) (\<lambda>p.
           if p \<noteq> Go then io_return (Over p)
           else (let wp = wp_add (trunc played) (pb_wp pb)
                 in io_bind (report z played (pb_last pb) (wp_get wp) token_id) (\<lambda>code.
                    if \<not> ok_code code then io_return (Over Halt)
                    else io_bind (advance_totals z played (pb_last pb)) (\<lambda>_.
                         io_return (Again (pb\<lparr>pb_last := played, pb_wp := wp_reset (trunc played)\<rparr>))))))
         else io_return (Again pb))"

definition watch_turn :: "'w zhs \<Rightarrow> rat \<Rightarrow> rat \<Rightarrow> string \<Rightarrow> playback \<Rightarrow> ('w, 'z, turn) pio" where
  "watch_turn z video_sec speed token_id pb =
     io_bind (wait_for_playback z) (\<lambda>p.
     if p \<noteq> Go then io_return (Over p)
     else io_bind (answer_due z (pb_played pb) (pb_points pb)) (\<lambda>(p, points).
     if p \<noteq> Go then io_return (Over p)
     else io_bind (sleep z 1000) (\<lambda>_.
     io_bind (wait_for_playback z) (\<lambda>p.
     if p \<noteq> Go then io_return (Over p)
     else (let played = next_position video_sec speed (pb\<lparr>pb_points := points\<rparr>);
               reached_point = (case points of [] \<Rightarrow> False | q # _ \<Rightarrow> cp_time q \<le> played);
               elapsed = Suc (pb_elapsed pb)
           in io_bind (answer_due z played points) (\<lambda>(p, points').
              if p \<noteq> Go then io_return (Over p)
              else turn_report z video_sec token_id reached_point
                     \<lparr>pb_played = played, pb_last = pb_last pb, pb_elapsed = elapsed, pb_points = points',
                      pb_wp = (if elapsed mod 2 = 0 then wp_add (trunc played) (pb_wp pb) else pb_wp pb)\<rparr>))))))"

text \<open>The turns a playback can still take\<close>

definition turns_left :: "rat \<Rightarrow> playback \<Rightarrow> nat" where
  "turns_left video_sec pb = nat \<lceil>2 * (video_sec - pb_played pb)\<rceil> + length (pb_points pb)"

section \<open>What the parts of a turn keep\<close>

lemma local_parts [simp]: "local_part pl_saves" "local_part pl_video"
  by (simp_all add: local_part_def)

lemma keeps_signed_post [keeps_rules]: "local_part f \<Longrightarrow> preserves f (signed_post z url payload key)"
  unfolding signed_post_def
  by (intro keeps_rules) (simp add: preserves_def http_def local_part_def case_prod_beta Let_def)

lemma keeps_signed_data [keeps_rules]: "local_part f \<Longrightarrow> preserves f (signed_data z url payload key k)"
  unfolding signed_data_def by (intro keeps_rules)

lemma keeps_sleep [keeps_rules]: "local_part f \<Longrightarrow> preserves f (sleep z ms)"
  by (simp add: preserves_def sleep_def local_part_def)

lemma keeps_reading [keeps_rules]: "local_part f \<Longrightarrow> preserves f (zhs_reading g)"
  by (simp add: preserves_def zhs_reading_def local_part_def)

lemma keeps_pause_loop: "local_part f \<Longrightarrow> preserves f (pause_loop z k)"
  by (induction k) (auto intro!: keeps_rules split: if_splits)

lemma keeps_wait [keeps_rules]: "local_part f \<Longrightarrow> preserves f (wait_for_playback z)"
  unfolding wait_for_playback_def by (auto intro!: keeps_rules keeps_pause_loop)

lemma keeps_int_value [keeps_rules]: "preserves f (int_value z v)"
  by (simp add: int_value_def keeps_of)

lemma keeps_load_points [keeps_rules]: "local_part f \<Longrightarrow> preserves f (load_video_pointer_info z video)"
  unfolding load_video_pointer_info_def by (intro keeps_rules)

lemma keeps_get_popup_exam [keeps_rules]: "local_part f \<Longrightarrow> preserves f (get_popup_exam z video ids)"
  unfolding get_popup_exam_def Let_def by (auto intro!: keeps_rules)

lemma keeps_submit [keeps_rules]: "local_part f \<Longrightarrow> preserves f (submit_popup_exam z video q a)"
  unfolding submit_popup_exam_def by (auto intro!: keeps_rules split: pyval.splits)

lemma keeps_save_progress: "local_part f \<Longrightarrow> preserves f (save_progress z p l wp t)"
  unfolding save_progress_def video_int_def by (auto intro!: keeps_rules)

lemma keeps_set_video [keeps_rules]: "preserves pl_saves (set_video v)"
  by (simp add: preserves_def set_video_def)

lemma keeps_note_answered [keeps_rules]: "preserves pl_saves (note_answered q)"
  by (simp add: preserves_def note_answered_def)

lemma keeps_answer_question [keeps_rules]: "preserves pl_saves (answer_question z q)"
  unfolding answer_question_def when_playing_def by (auto intro!: keeps_rules)

lemma keeps_answer_ids: "preserves pl_saves (answer_ids z qs)"
  by (induction qs) (auto intro!: keeps_rules)

lemma keeps_checkpoint [keeps_rules]: "preserves pl_saves (answer_popup_checkpoint z p)"
  unfolding answer_popup_checkpoint_def by (rule keeps_answer_ids)

lemma keeps_answer_due [keeps_rules]: "preserves pl_saves (answer_due z t ps)"
  by (induction ps) (auto intro!: keeps_rules)

lemma keeps_answer_all [keeps_rules]: "preserves pl_saves (answer_all z ps)"
  by (induction ps) (auto intro!: keeps_rules)

lemma keeps_learning_token [keeps_rules]: "preserves pl_saves (learning_token_id z)"
  unfolding learning_token_id_def Let_def by (auto intro!: keeps_rules)

lemma keeps_advance [keeps_rules]: "preserves pl_saves (advance_totals z p l)"
  unfolding advance_totals_def video_int_def by (intro keeps_rules)

section \<open>The loop\<close>

text \<open>The questions of a checkpoint are answered, and stay so\<close>

definition all_answered :: "checkpoint list \<Rightarrow> pydict \<Rightarrow> bool" where
  "all_answered ps video \<longleftrightarrow> (\<forall>p \<in> set ps. \<forall>q \<in> set (split_on (CHR '','') (cp_ids p)). PStr q \<in> set (answered video))"

lemma all_answered_simps [simp]:
  "all_answered [] video"
  "all_answered (ps @ qs) video \<longleftrightarrow> all_answered ps video \<and> all_answered qs video"
  by (auto simp: all_answered_def)

lemma all_answered_mono: "all_answered ps v \<Longrightarrow> set (answered v) \<subseteq> set (answered w) \<Longrightarrow> all_answered ps w"
  unfolding all_answered_def by blast

lemma when_playing_video:
  assumes "when_playing z m n = (Inr p, n')"
  obtains "p \<noteq> Go" and "pl_video n' = pl_video n"
  | n1 where "pl_video n1 = pl_video n" and "m n1 = (Inr p, n')"
proof -
  obtain q n1 where w: "wait_for_playback z n = (Inr q, n1)" and more: "(if q = Go then m else io_return q) n1 = (Inr p, n')"
    using assms by (auto simp: when_playing_def io_bind_Inr)
  have "pl_video n1 = pl_video n" using keepsD [OF keeps_wait [of pl_video] w] by simp
  then show thesis using more that by (cases "q = Go") auto
qed

lemma answer_question_answers:
  assumes "answer_question z q n = (Inr p, n')"
  shows "set (answered (pl_video n)) \<subseteq> set (answered (pl_video n')) \<and> (p = Go \<longrightarrow> PStr q \<in> set (answered (pl_video n')))"
  using assms unfolding answer_question_def
proof (cases rule: when_playing_video)
  case (2 n1)
  show ?thesis
  proof (cases "PStr q \<in> set (answered (pl_video n1))")
    case True
    with 2 show ?thesis by (auto simp: io_bind_Inr)
  next
    case False
    with 2(2) obtain questions n2 answer where exam: "get_popup_exam z (pl_video n1) q n1 = (Inr questions, n2)"
      and more: "when_playing z (io_bind (submit_popup_exam z (pl_video n1) q answer)
                    (\<lambda>_. io_bind (note_answered q) (\<lambda>_. io_return Go))) n2 = (Inr p, n')"
      by (auto simp: io_bind_Inr)
    have v2: "pl_video n2 = pl_video n" using keepsD [OF keeps_get_popup_exam [of pl_video] exam] 2(1) by simp
    from more show ?thesis
    proof (cases rule: when_playing_video)
      case 1
      with v2 show ?thesis by simp
    next
      case submitted: (2 n3)
      then obtain n4 where submit: "submit_popup_exam z (pl_video n1) q answer n3 = (Inr (), n4)"
        and noted: "note_answered q n4 = (Inr (), n')" and "p = Go"
        by (auto simp: io_bind_Inr)
      have "pl_video n4 = pl_video n" using keepsD [OF keeps_submit [of pl_video] submit] submitted(1) v2 by simp
      then show ?thesis using noted by (auto simp: note_answered_def answered_def)
    qed
  qed
qed simp

lemma answer_ids_answers:
  "answer_ids z qs n = (Inr p, n') \<Longrightarrow> set (answered (pl_video n)) \<subseteq> set (answered (pl_video n'))
     \<and> (p = Go \<longrightarrow> (\<forall>q \<in> set qs. PStr q \<in> set (answered (pl_video n'))))"
proof (induction qs arbitrary: n)
  case (Cons q qs)
  then obtain p1 n1 where q: "answer_question z q n = (Inr p1, n1)"
    and more: "if p1 = Go then answer_ids z qs n1 = (Inr p, n') else p1 = p \<and> n1 = n'"
    by (auto simp: io_bind_Inr split: if_splits)
  show ?case
  proof (cases "p1 = Go")
    case True
    with more Cons.IH [of n1] answer_question_answers [OF q] show ?thesis by (simp add: subset_iff)
  next
    case False
    with more answer_question_answers [OF q] show ?thesis by simp
  qed
qed simp

lemma checkpoint_answers:
  assumes "answer_popup_checkpoint z c n = (Inr p, n')"
  shows "set (answered (pl_video n)) \<subseteq> set (answered (pl_video n'))" and "p = Go \<Longrightarrow> all_answered [c] (pl_video n')"
  using answer_ids_answers [OF assms [unfolded answer_popup_checkpoint_def]] by (auto simp: all_answered_def)

lemma answer_due_Go:
  "answer_due z played ps n = (Inr (Go, ps'), n') \<Longrightarrow> ps' = dropWhile (\<lambda>p. cp_time p \<le> played) ps
     \<and> pl_saves n' = pl_saves n \<and> set (answered (pl_video n)) \<subseteq> set (answered (pl_video n'))
     \<and> all_answered (takeWhile (\<lambda>p. cp_time p \<le> played) ps) (pl_video n')"
proof (induction ps arbitrary: n)
  case (Cons c ps)
  show ?case
  proof (cases "cp_time c \<le> played")
    case True
    with Cons.prems obtain n1 where c: "answer_popup_checkpoint z c n = (Inr Go, n1)"
      and more: "answer_due z played ps n1 = (Inr (Go, ps'), n')"
      by (auto simp: io_bind_Inr split: if_splits)
    have "all_answered [c] (pl_video n')"
      using checkpoint_answers(2) [OF c refl] Cons.IH [OF more] all_answered_mono by blast
    then show ?thesis
      using True Cons.IH [OF more] checkpoint_answers(1) [OF c] keepsD [OF keeps_checkpoint c]
      by (auto simp: all_answered_def)
  qed (use Cons.prems in auto)
qed simp

lemma advance_totals_answers: "advance_totals z p l n = (Inr u, n') \<Longrightarrow> answered (pl_video n') = answered (pl_video n)"
  by (auto simp: advance_totals_def video_int_def int_value_def io_bind_Inr set_video_def answered_def)

lemma report_video: "report z p l wp t n = (Inr code, n') \<Longrightarrow> pl_video n' = pl_video n"
  by (auto simp: report_def io_bind_Inr dest!: keepsD [OF keeps_save_progress [of pl_video], simplified])

lemma turn_report_answers:
  assumes "turn_report z v t r pb n = (Inr (Again pb'), n')"
  shows "answered (pl_video n') = answered (pl_video n)"
  using assms
  by (auto simp: turn_report_def io_bind_Inr Let_def split: if_splits
      dest!: report_video advance_totals_answers keepsD [OF keeps_wait [of pl_video], simplified])

lemma turn_report_keeps:
  assumes "turn_report z v t r pb n = (Inr (Again pb'), n')"
  shows "pb_played pb' = pb_played pb" and "pb_points pb' = pb_points pb" and "pb_elapsed pb' = pb_elapsed pb"
  using assms by (auto simp: turn_report_def io_bind_Inr Let_def split: if_splits)

lemma ceiling_step:
  fixes a b :: rat
  assumes "a + 1 / 2 \<le> b" and "a < v"
  shows "nat \<lceil>2 * (v - b)\<rceil> < nat \<lceil>2 * (v - a)\<rceil>"
proof -
  have "2 * (v - b) \<le> 2 * (v - a) - 1" using assms(1) by (simp add: field_simps)
  then have "\<lceil>2 * (v - b)\<rceil> \<le> \<lceil>2 * (v - a) - 1\<rceil>" by (rule ceiling_mono)
  moreover have "0 < \<lceil>2 * (v - a)\<rceil>" using assms(2) by simp
  ultimately show ?thesis by simp
qed

lemma watch_turn_Again:
  assumes "watch_turn z v s t pb n = (Inr (Again pb'), n')"
  obtains points wp r n1 where "points = dropWhile (\<lambda>p. cp_time p \<le> pb_played pb) (pb_points pb)"
    and "turn_report z v t r
           \<lparr>pb_played = next_position v s (pb\<lparr>pb_points := points\<rparr>), pb_last = pb_last pb,
            pb_elapsed = Suc (pb_elapsed pb),
            pb_points = dropWhile (\<lambda>p. cp_time p \<le> next_position v s (pb\<lparr>pb_points := points\<rparr>)) points,
            pb_wp = wp\<rparr> n1 = (Inr (Again pb'), n')"
    and "pl_saves n1 = pl_saves n" and "set (answered (pl_video n)) \<subseteq> set (answered (pl_video n1))"
    and "all_answered (takeWhile (\<lambda>p. cp_time p \<le> pb_played pb) (pb_points pb)) (pl_video n1)"
    and "all_answered (takeWhile (\<lambda>p. cp_time p \<le> next_position v s (pb\<lparr>pb_points := points\<rparr>)) points) (pl_video n1)"
proof -
  obtain m1 m2 m3 m4 points points2 n1 where m1: "wait_for_playback z n = (Inr Go, m1)"
    and m2: "answer_due z (pb_played pb) (pb_points pb) m1 = (Inr (Go, points), m2)"
    and m3: "sleep z 1000 m2 = (Inr (), m3)" and m4: "wait_for_playback z m3 = (Inr Go, m4)"
    and n1: "answer_due z (next_position v s (pb\<lparr>pb_points := points\<rparr>)) points m4 = (Inr (Go, points2), n1)"
    and r: "\<exists>r wp. turn_report z v t r
              \<lparr>pb_played = next_position v s (pb\<lparr>pb_points := points\<rparr>), pb_last = pb_last pb,
               pb_elapsed = Suc (pb_elapsed pb), pb_points = points2, pb_wp = wp\<rparr> n1 = (Inr (Again pb'), n')"
    using assms by (auto simp: watch_turn_def io_bind_Inr Let_def split: if_splits) blast+
  note due = answer_due_Go [OF m2] answer_due_Go [OF n1]
  have same: "pl_saves m1 = pl_saves n" "pl_saves m4 = pl_saves m2" "pl_video m1 = pl_video n" "pl_video m4 = pl_video m2"
    using keepsD [OF keeps_wait [of pl_saves]] keepsD [OF keeps_wait [of pl_video]]
      keepsD [OF keeps_sleep [of pl_saves]] keepsD [OF keeps_sleep [of pl_video]] m1 m3 m4
    by (metis local_parts)+
  have "all_answered (takeWhile (\<lambda>p. cp_time p \<le> pb_played pb) (pb_points pb)) (pl_video n1)"
    using due same all_answered_mono by metis
  then show thesis using that [of points] r due same by auto
qed

lemma watch_turn_progress:
  assumes "watch_turn z v s t pb n = (Inr (Again pb'), n')" and "pb_played pb < v"
  shows "turns_left v pb' < turns_left v pb"
proof -
  obtain points wp r n1 where points: "points = dropWhile (\<lambda>p. cp_time p \<le> pb_played pb) (pb_points pb)"
    and r: "turn_report z v t r
           \<lparr>pb_played = next_position v s (pb\<lparr>pb_points := points\<rparr>), pb_last = pb_last pb,
            pb_elapsed = Suc (pb_elapsed pb),
            pb_points = dropWhile (\<lambda>p. cp_time p \<le> next_position v s (pb\<lparr>pb_points := points\<rparr>)) points,
            pb_wp = wp\<rparr> n1 = (Inr (Again pb'), n')"
    using assms(1) by (rule watch_turn_Again)
  define q where "q = next_position v s (pb\<lparr>pb_points := points\<rparr>)"
  have pb': "pb_played pb' = q" "pb_points pb' = dropWhile (\<lambda>p. cp_time p \<le> q) points"
    using turn_report_keeps [OF r] by (simp_all add: q_def)
  have len: "length points \<le> length (pb_points pb)" unfolding points by (rule length_dropWhile_le)
  have len': "length (pb_points pb') \<le> length points" unfolding pb' by (rule length_dropWhile_le)
  have eff: "1 / 2 \<le> eff_speed s" by (simp add: eff_speed_def)
  have eff_step: "nat \<lceil>2 * (v - (pb_played pb + eff_speed s))\<rceil> < nat \<lceil>2 * (v - pb_played pb)\<rceil>"
    by (rule ceiling_step) (use eff assms(2) in simp_all)
  have end_step: "nat \<lceil>2 * (v - v)\<rceil> < nat \<lceil>2 * (v - pb_played pb)\<rceil>" using assms(2) by simp
  show ?thesis
  proof (cases points)
    case Nil
    then have "q = min (pb_played pb + eff_speed s) v" by (simp add: q_def next_position_def)
    then consider "q = pb_played pb + eff_speed s" | "q = v" by (metis min_def)
    then have "nat \<lceil>2 * (v - q)\<rceil> < nat \<lceil>2 * (v - pb_played pb)\<rceil>"
      by cases (simp_all only: eff_step end_step)
    then show ?thesis using len len' unfolding turns_left_def pb' by linarith
  next
    case (Cons p ps)
    have gt: "pb_played pb < cp_time p"
      using Cons [unfolded points] by (simp add: dropWhile_eq_Cons_conv not_le)
    have "q = min (min (pb_played pb + eff_speed s) v) (cp_time p)"
      by (simp add: q_def next_position_def Cons)
    then consider "q = pb_played pb + eff_speed s" | "q = v" | "q = cp_time p" by (metis min_def)
    then show ?thesis
    proof cases
      case 3
      then have "length (pb_points pb') \<le> length ps" using Cons by (simp add: pb' length_dropWhile_le)
      moreover have "2 * (v - q) \<le> 2 * (v - pb_played pb)" using gt 3 by simp
      then have "nat \<lceil>2 * (v - q)\<rceil> \<le> nat \<lceil>2 * (v - pb_played pb)\<rceil>" by (intro nat_mono ceiling_mono)
      ultimately show ?thesis using len Cons by (simp add: turns_left_def pb')
    next
      case 1
      then have "nat \<lceil>2 * (v - q)\<rceil> < nat \<lceil>2 * (v - pb_played pb)\<rceil>"
        by (simp only: eff_step)
      then show ?thesis using len len' unfolding turns_left_def pb' by linarith
    next
      case 2
      then have "nat \<lceil>2 * (v - q)\<rceil> < nat \<lceil>2 * (v - pb_played pb)\<rceil>" by (simp only: end_step)
      then show ?thesis using len len' unfolding turns_left_def pb' by linarith
    qed
  qed
qed

function watch_loop :: "'w zhs \<Rightarrow> rat \<Rightarrow> rat \<Rightarrow> string \<Rightarrow> playback \<Rightarrow> ('w, 'z, play) pio" where
  "watch_loop z video_sec speed token_id pb n =
     (if pb_played pb < video_sec
      then (case watch_turn z video_sec speed token_id pb n of
              (Inl e, n1) \<Rightarrow> (Inl e, n1)
            | (Inr (Over p), n1) \<Rightarrow> (Inr p, n1)
            | (Inr (Again pb1), n1) \<Rightarrow> watch_loop z video_sec speed token_id pb1 n1)
      else (Inr Go, n))"
  by pat_completeness auto
termination
  by (relation "measure (\<lambda>(z, v, s, t, pb, n). turns_left v pb)") (auto dest!: sym [of "(Inr (Again _), _)"] watch_turn_progress)

declare watch_loop.simps [simp del]

section \<open>Watching a video\<close>

text \<open>The positions the platform knows (\<open>learn_time_sec\<close>, \<open>study_total_time\<close>), or an exception\<close>

definition study_times :: "'w zhs \<Rightarrow> int \<Rightarrow> pydict \<Rightarrow> http_exc + (int \<times> rat)" where
  "study_times z video_sec video =
     (case (py_int z (or_else (dget video ''study_total_time'') (PInt 0)), py_int z (or_else (dget video ''learn_time_sec'') (PInt 0))) of
        (Inr studied, Inr learned) \<Rightarrow> Inr (max studied 0, of_int (max 0 (min learned video_sec)))
      | _ \<Rightarrow> Inl (upstream_error ''prelearningNote returned invalid study times''))"

definition usable_duration :: "'w zhs \<Rightarrow> pydict \<Rightarrow> int" where
  "usable_duration z video =
     (case py_int z (or_else (or_else (dget video ''video_sec'') (dget video ''duration'')) (PInt 0)) of
        Inl _ \<Rightarrow> 0
      | Inr i \<Rightarrow> i)"

text \<open>The video is at its end: answer what is left and ask for an acknowledgement\<close>

definition finish_video :: "'w zhs \<Rightarrow> rat \<Rightarrow> string \<Rightarrow> checkpoint list \<Rightarrow> ('w, 'z, play) pio" where
  "finish_video z played token_id points =
     io_bind (answer_all z points) (\<lambda>p.
     if p \<noteq> Go then io_return p
     else when_playing z
       (io_bind (report z played played (wp_get (wp_reset (trunc played))) token_id) (\<lambda>code.
        io_return (if ok_code code then Go else Halt))))"

definition play_from :: "'w zhs \<Rightarrow> int \<Rightarrow> rat \<Rightarrow> string \<Rightarrow> rat \<Rightarrow> checkpoint list \<Rightarrow> ('w, 'z, play) pio" where
  "play_from z video_sec speed token_id played points =
     (if of_int video_sec \<le> played then finish_video z played token_id points
      else io_try (\<lambda>_. True)
             (watch_loop z (of_int video_sec) speed token_id
                \<lparr>pb_played = played, pb_last = played, pb_elapsed = 0, pb_points = points, pb_wp = wp_reset (trunc played)\<rparr>)
             (\<lambda>e. io_raise (Other_exc (''Failed to watch video: '' @ exc_str e))))"

definition points_to_answer :: "'w zhs \<Rightarrow> bool \<Rightarrow> pydict \<Rightarrow> ('w, 'z, checkpoint list) io" where
  "points_to_answer z auto_answer video = (if auto_answer then load_video_pointer_info z video else io_return [])"

text \<open>The part of \<open>watch_video\<close> that plays, after the checks of the dictionary\<close>

definition start_playing :: "'w zhs \<Rightarrow> int \<Rightarrow> rat \<Rightarrow> bool \<Rightarrow> ('w, 'z, play) pio" where
  "start_playing z video_sec speed auto_answer =
     when_playing z
       (io_bind (learning_token_id z) (\<lambda>token_id.
        if token_id = [] then io_raise (upstream_error ''prelearningNote returned no learningTokenId'')
        else io_bind (io_get pl_video) (\<lambda>video.
        io_bind (io_of (study_times z video_sec video)) (\<lambda>(study_total, played).
        io_bind (set_video (dset ''study_total_time'' (PInt study_total) video)) (\<lambda>_.
        when_playing z
          (io_bind (io_get pl_video) (\<lambda>video.
           io_bind (points_to_answer z auto_answer video) (\<lambda>points.
           if list_ex (\<lambda>p. of_int video_sec < cp_time p) points
           then io_raise (upstream_error ''popup checkpoint exceeds video duration'')
           else play_from z video_sec speed token_id played (filter (\<lambda>p. played \<le> cp_time p) points)))))))))"

definition duration_error :: "pydict \<Rightarrow> int \<Rightarrow> http_exc" where
  "duration_error video video_sec =
     Other_exc (''video '' @ py_str (or_else (dget video ''video_id'') (dget video ''id'')) @ '' has no usable duration ('' @
       int_str video_sec @ '')'')"

definition watch_video :: "'w zhs \<Rightarrow> rat \<Rightarrow> bool \<Rightarrow> ('w, 'z, play) pio" where
  "watch_video z speed auto_answer =
     io_bind (io_get pl_video) (\<lambda>video.
     (let video_sec = usable_duration z video
      in if video_sec \<le> 0 then io_raise (duration_error video video_sec)
         else io_bind (video_int z video ''watch_state'') (\<lambda>state.
           if state = 1 then io_return Go else start_playing z video_sec speed auto_answer)))"

section \<open>A whole course\<close>

text \<open>The items a \<open>for\<close> loop reads from a value\<close>

definition items_of :: "pyval \<Rightarrow> http_exc + pyval list" where
  "items_of v =
     (case v of
        PList xs \<Rightarrow> Inr xs
      | PDict d \<Rightarrow> Inr (map (PStr \<circ> fst) d)
      | PStr s \<Rightarrow> Inr (map (\<lambda>c. PStr [c]) s)
      | _ \<Rightarrow> Inl (Other_exc (apostrophe @ type_name v @ apostrophe @ '' object is not iterable'')))"

text \<open>\<open>lesson.get("videoSmallLessons") or [...]\<close>: the small lessons, and whether the lesson stands for itself\<close>

definition small_lessons :: "pydict \<Rightarrow> http_exc + (pyval \<times> bool) list" where
  "small_lessons lesson =
     (if truthy (dget lesson ''videoSmallLessons'')
      then map_sum id (map (\<lambda>s. (s, False))) (items_of (dget lesson ''videoSmallLessons''))
      else Inr (if truthy (dget lesson ''videoId'') then [(PDict lesson, True)] else []))"

definition course_video :: "string \<Rightarrow> pydict \<Rightarrow> pyval \<Rightarrow> pydict \<Rightarrow> pydict \<times> bool \<Rightarrow> pydict" where
  "course_video rac_id data chapter_id lesson s =
     (case s of (small, is_lesson) \<Rightarrow>
       [(''recruit_and_course_id'', PStr rac_id), (''recruit_id'', dget data ''recruitId''), (''course_id'', dget data ''courseId''),
        (''chapter_id'', chapter_id), (''lesson_id'', dget lesson ''id''),
        (''small_lesson_id'', if is_lesson then PInt 0 else dget small ''id''), (''video_id'', dget small ''videoId''),
        (''video_sec'', or_else (dget small ''videoSec'') (PInt 0))])"

text \<open>Nobody pauses or cancels here\<close>

definition uncontrolled :: "'w zhs \<Rightarrow> 'w zhs" where
  "uncontrolled z = z\<lparr>z_cancelled := (\<lambda>w. (False, w)), z_paused := (\<lambda>w. (False, w)), z_patience := 1\<rparr>"

definition complete_video :: "'w zhs \<Rightarrow> pydict \<Rightarrow> nat \<times> nat \<Rightarrow> ('w, 'z, nat \<times> nat) pio" where
  "complete_video z video counts =
     (case counts of (completed, failed) \<Rightarrow>
       io_bind (set_video video) (\<lambda>_.
       io_try (\<lambda>_. True)
         (io_bind (watch_video (uncontrolled z) 1 False) (\<lambda>p.
            io_return (if p = Go then (Suc completed, failed) else (completed, Suc failed))))
         (\<lambda>_. io_return (completed, Suc failed))))"

definition complete_course :: "'w zhs \<Rightarrow> string \<Rightarrow> ('w, 'z, nat \<times> nat \<times> nat) pio" where
  "complete_course z rac_id =
     io_bind (get_video_list z rac_id) (\<lambda>data.
     io_bind (io_for (\<lambda>ch counts.
         io_bind (io_of (with_get ch)) (\<lambda>chapter.
         io_bind (io_of (items_of (or_else (dget chapter ''videoLessons'') (PList [])))) (\<lambda>lessons.
         io_for (\<lambda>le counts.
             io_bind (io_of (with_get le)) (\<lambda>lesson.
             io_bind (io_of (small_lessons lesson)) (\<lambda>smalls.
             io_for (\<lambda>s counts.
                 io_bind (io_of (with_get (fst s))) (\<lambda>small.
                 complete_video z (course_video rac_id data (or_else (dget chapter ''id'') (dget chapter ''chapterId'')) lesson
                   (small, snd s)) counts)) smalls counts)))
           lessons counts)))
       (the_list (dget data ''videoChapterDtos'')) (0, 0)) (\<lambda>(completed, failed).
     io_return (completed, failed, completed + failed)))"

section \<open>The reports of a video\<close>

text \<open>
  \<open>covers a v rs\<close>: the reports \<open>rs\<close> were all acknowledged, each begins where the one before ended,
  the first at \<open>a\<close>, and the last ends at \<open>v\<close>.
\<close>

fun covers :: "rat \<Rightarrow> rat \<Rightarrow> (rat \<times> rat \<times> pyval) list \<Rightarrow> bool" where
  "covers a v [] = (a = v)"
| "covers a v ((p, l, code) # rs) = (l = a \<and> l \<le> p \<and> ok_code code \<and> covers p v rs)"

definition in_play :: "rat \<Rightarrow> playback \<Rightarrow> bool" where
  "in_play v pb \<longleftrightarrow> pb_last pb \<le> pb_played pb \<and> pb_played pb \<le> v \<and> (pb_played pb = v \<longrightarrow> pb_last pb = v)"

lemma report_saves:
  assumes "report z p l wp t n = (Inr code, n')"
  shows "pl_saves n' = pl_saves n @ [(p, l, code)]"
  using assms by (auto simp: report_def io_bind_Inr dest!: keepsD [OF keeps_save_progress [of pl_saves], simplified])

lemma turn_report_saves:
  assumes "turn_report z v t r pb n = (Inr (Again pb'), n')"
  shows "(pl_saves n' = pl_saves n \<and> pb_played pb < v \<and> pb_last pb' = pb_last pb)
    \<or> (\<exists>code. pl_saves n' = pl_saves n @ [(pb_played pb, pb_last pb, code)] \<and> ok_code code \<and> pb_last pb' = pb_played pb)"
  using assms
  by (auto simp: turn_report_def io_bind_Inr Let_def not_le split: if_splits
      dest!: report_saves keepsD [OF keeps_wait [of pl_saves], simplified] keepsD [OF keeps_advance])

lemma next_position_forward:
  assumes "pb_played pb \<le> v" and "points = dropWhile (\<lambda>p. cp_time p \<le> pb_played pb) (pb_points pb)"
  shows "pb_played pb \<le> next_position v s (pb\<lparr>pb_points := points\<rparr>)"
    and "next_position v s (pb\<lparr>pb_points := points\<rparr>) \<le> v"
proof -
  have "0 \<le> eff_speed s" by (simp add: eff_speed_def)
  moreover have "pb_played pb < cp_time p" if "points = p # ps" for p ps
    using that assms(2) by (simp add: dropWhile_eq_Cons_conv not_le)
  ultimately show "pb_played pb \<le> next_position v s (pb\<lparr>pb_points := points\<rparr>)"
    using assms(1) by (auto simp: next_position_def less_imp_le split: list.splits)
  show "next_position v s (pb\<lparr>pb_points := points\<rparr>) \<le> v"
    by (simp add: next_position_def min.coboundedI1)
qed

lemma watch_turn_saves:
  assumes "watch_turn z v s t pb n = (Inr (Again pb'), n')" and "in_play v pb"
  shows "in_play v pb' \<and> ((pl_saves n' = pl_saves n \<and> pb_last pb' = pb_last pb) \<or>
    (\<exists>code. pl_saves n' = pl_saves n @ [(pb_last pb', pb_last pb, code)] \<and> ok_code code \<and> pb_last pb \<le> pb_last pb'))"
proof -
  obtain points wp r n1 where points: "points = dropWhile (\<lambda>p. cp_time p \<le> pb_played pb) (pb_points pb)"
    and r: "turn_report z v t r
           \<lparr>pb_played = next_position v s (pb\<lparr>pb_points := points\<rparr>), pb_last = pb_last pb,
            pb_elapsed = Suc (pb_elapsed pb),
            pb_points = dropWhile (\<lambda>p. cp_time p \<le> next_position v s (pb\<lparr>pb_points := points\<rparr>)) points,
            pb_wp = wp\<rparr> n1 = (Inr (Again pb'), n')"
    and n1: "pl_saves n1 = pl_saves n"
    using assms(1) by (rule watch_turn_Again)
  note ahead = next_position_forward [OF _ points, of v s]
  have le: "pb_last pb \<le> pb_played pb" "pb_played pb \<le> v" using assms(2) by (simp_all add: in_play_def)
  show ?thesis
    using turn_report_saves [OF r] turn_report_keeps(1) [OF r] ahead [OF le(2)] le n1
    by (auto simp: in_play_def)
qed

lemma watch_turn_Over:
  assumes "watch_turn z v s t pb n = (Inr (Over p), n')"
  shows "p \<noteq> Go"
proof -
  have "turn_report z v t r pb2 n1 = (Inr (Over p), n') \<Longrightarrow> p \<noteq> Go" for r pb2 n1
    by (auto simp: turn_report_def io_bind_Inr Let_def split: if_splits)
  then show ?thesis using assms by (auto simp: watch_turn_def io_bind_Inr Let_def split: if_splits)
qed

lemma watch_loop_Go:
  assumes "watch_loop z v s t pb n = (Inr Go, n')"
  obtains "\<not> pb_played pb < v" and "n' = n"
  | pb1 n1 where "pb_played pb < v" and "watch_turn z v s t pb n = (Inr (Again pb1), n1)"
      and "watch_loop z v s t pb1 n1 = (Inr Go, n')"
proof (cases "pb_played pb < v")
  case False
  then show ?thesis using assms that(1) by (simp add: watch_loop.simps [of z v s t pb n])
next
  case True
  obtain r n1 where turn: "watch_turn z v s t pb n = (r, n1)" by (metis surj_pair)
  consider e where "r = Inl e" | p where "r = Inr (Over p)" | pb1 where "r = Inr (Again pb1)"
    by (metis sum.exhaust turn.exhaust)
  then show ?thesis
    by cases (use assms True turn that(2) watch_turn_Over [of z v s t pb n] in
        \<open>auto simp: watch_loop.simps [of z v s t pb n]\<close>)
qed

lemma watch_loop_saves:
  assumes "watch_loop z v s t pb n = (Inr Go, n')" and "in_play v pb"
  shows "\<exists>rs. pl_saves n' = pl_saves n @ rs \<and> covers (pb_last pb) v rs"
  using assms
proof (induction "turns_left v pb" arbitrary: pb n rule: less_induct)
  case less
  from less.prems(1) show ?case
  proof (cases rule: watch_loop_Go)
    case 1
    then have "pb_last pb = v" using less.prems(2) by (auto simp: in_play_def)
    then show ?thesis using 1 by auto
  next
    case (2 pb1 n1)
    note t = watch_turn_saves [OF 2(2) less.prems(2)]
    obtain rs where "pl_saves n' = pl_saves n1 @ rs" "covers (pb_last pb1) v rs"
      using less.hyps [OF watch_turn_progress [OF 2(2,1)] 2(3)] t by auto
    then show ?thesis using t by auto
  qed
qed

lemma watch_turn_answers:
  assumes "watch_turn z v s t pb n = (Inr (Again pb'), n')" and "\<forall>p \<in> set (pb_points pb). cp_time p \<le> v"
  obtains past where "pb_points pb = past @ pb_points pb'" and "all_answered past (pl_video n')"
    and "set (answered (pl_video n)) \<subseteq> set (answered (pl_video n'))"
    and "v \<le> pb_played pb' \<Longrightarrow> pb_points pb' = []"
proof -
  obtain points wp r n1 where points: "points = dropWhile (\<lambda>p. cp_time p \<le> pb_played pb) (pb_points pb)"
    and r: "turn_report z v t r
           \<lparr>pb_played = next_position v s (pb\<lparr>pb_points := points\<rparr>), pb_last = pb_last pb,
            pb_elapsed = Suc (pb_elapsed pb),
            pb_points = dropWhile (\<lambda>p. cp_time p \<le> next_position v s (pb\<lparr>pb_points := points\<rparr>)) points,
            pb_wp = wp\<rparr> n1 = (Inr (Again pb'), n')"
    and grow: "set (answered (pl_video n)) \<subseteq> set (answered (pl_video n1))"
    and first: "all_answered (takeWhile (\<lambda>p. cp_time p \<le> pb_played pb) (pb_points pb)) (pl_video n1)"
    and second: "all_answered (takeWhile (\<lambda>p. cp_time p \<le> next_position v s (pb\<lparr>pb_points := points\<rparr>)) points) (pl_video n1)"
    using assms(1) by (rule watch_turn_Again)
  let ?q = "next_position v s (pb\<lparr>pb_points := points\<rparr>)"
  let ?past = "takeWhile (\<lambda>p. cp_time p \<le> pb_played pb) (pb_points pb) @ takeWhile (\<lambda>p. cp_time p \<le> ?q) points"
  have pb': "pb_played pb' = ?q" "pb_points pb' = dropWhile (\<lambda>p. cp_time p \<le> ?q) points"
    using turn_report_keeps [OF r] by simp_all
  have "pb_points pb = ?past @ pb_points pb'" using points by (simp add: pb')
  moreover have "all_answered ?past (pl_video n')"
    using first second turn_report_answers [OF r] by (auto simp: all_answered_def)
  moreover have "pb_points pb' = []" if "v \<le> pb_played pb'"
  proof -
    have "cp_time p \<le> ?q" if "p \<in> set points" for p
      using that assms(2) \<open>v \<le> pb_played pb'\<close> set_dropWhileD [of p] unfolding points pb' by (meson order_trans)
    then show ?thesis by (simp add: pb' dropWhile_eq_Nil_conv)
  qed
  ultimately show thesis using that grow turn_report_answers [OF r] by metis
qed

lemma watch_loop_answers:
  assumes "watch_loop z v s t pb n = (Inr Go, n')" and "\<forall>p \<in> set (pb_points pb). cp_time p \<le> v"
    and "v \<le> pb_played pb \<Longrightarrow> pb_points pb = []"
  shows "set (answered (pl_video n)) \<subseteq> set (answered (pl_video n')) \<and> all_answered (pb_points pb) (pl_video n')"
  using assms
proof (induction "turns_left v pb" arbitrary: pb n rule: less_induct)
  case less
  from less.prems(1) show ?case
  proof (cases rule: watch_loop_Go)
    case 1
    then show ?thesis using less.prems(3) by simp
  next
    case (2 pb1 n1)
    obtain past where past: "pb_points pb = past @ pb_points pb1" "all_answered past (pl_video n1)"
      and grow: "set (answered (pl_video n)) \<subseteq> set (answered (pl_video n1))"
      and at_end: "v \<le> pb_played pb1 \<Longrightarrow> pb_points pb1 = []"
      using watch_turn_answers [OF 2(2) less.prems(2)] by metis
    have "\<forall>p \<in> set (pb_points pb1). cp_time p \<le> v" using less.prems(2) past(1) by simp
    note more = less.hyps [OF watch_turn_progress [OF 2(2,1)] 2(3) this at_end]
    then show ?thesis using past grow all_answered_mono [OF past(2)] by auto
  qed
qed

lemma answer_all_answers:
  "answer_all z ps n = (Inr Go, n') \<Longrightarrow> set (answered (pl_video n)) \<subseteq> set (answered (pl_video n')) \<and> all_answered ps (pl_video n')"
proof (induction ps arbitrary: n)
  case (Cons c ps)
  then obtain n1 where c: "answer_popup_checkpoint z c n = (Inr Go, n1)" and more: "answer_all z ps n1 = (Inr Go, n')"
    by (auto simp: io_bind_Inr split: if_splits)
  have "all_answered [c] (pl_video n')"
    using checkpoint_answers(2) [OF c refl] Cons.IH [OF more] all_answered_mono by blast
  then show ?case using Cons.IH [OF more] checkpoint_answers(1) [OF c] by (auto simp: all_answered_def)
qed simp

lemma finish_video_Go:
  assumes "finish_video z played t points n = (Inr Go, n')"
  shows "\<exists>code. pl_saves n' = pl_saves n @ [(played, played, code)] \<and> ok_code code \<and> all_answered points (pl_video n')"
proof -
  obtain n1 where a: "answer_all z points n = (Inr Go, n1)"
    and w: "when_playing z (io_bind (report z played played (wp_get (wp_reset (trunc played))) t)
              (\<lambda>code. io_return (if ok_code code then Go else Halt))) n1 = (Inr Go, n')"
    using assms by (auto simp: finish_video_def io_bind_Inr split: if_splits)
  obtain n2 where n2: "wait_for_playback z n1 = (Inr Go, n2)"
    and "\<exists>code. report z played played (wp_get (wp_reset (trunc played))) t n2 = (Inr code, n') \<and> ok_code code"
    using w by (auto simp: when_playing_def io_bind_Inr split: if_splits)
  then obtain code where r: "report z played played (wp_get (wp_reset (trunc played))) t n2 = (Inr code, n')" "ok_code code"
    by blast
  have "pl_saves n2 = pl_saves n" "pl_video n2 = pl_video n1"
    using keepsD [OF keeps_wait [of pl_saves] n2] keepsD [OF keeps_wait [of pl_video] n2] keepsD [OF keeps_answer_all a]
    by simp_all
  then show ?thesis using report_saves [OF r(1)] report_video [OF r(1)] r(2) answer_all_answers [OF a] by auto
qed

lemma play_from_Go:
  assumes "play_from z video_sec speed token played points n = (Inr Go, n')"
    and "played \<le> of_int video_sec" and "\<forall>p \<in> set points. cp_time p \<le> of_int video_sec"
  shows "\<exists>rs. pl_saves n' = pl_saves n @ rs \<and> rs \<noteq> [] \<and> covers played (of_int video_sec) rs
           \<and> all_answered points (pl_video n')"
proof (cases "of_int video_sec \<le> played")
  case True
  then have "played = of_int video_sec" using assms(2) by simp
  then show ?thesis using finish_video_Go [of z played token points n n'] assms(1) by (auto simp: play_from_def)
next
  case False
  let ?pb = "\<lparr>pb_played = played, pb_last = played, pb_elapsed = 0, pb_points = points, pb_wp = wp_reset (trunc played)\<rparr>"
  have run: "watch_loop z (of_int video_sec) speed token ?pb n = (Inr Go, n')"
    using assms(1) False by (auto simp: play_from_def io_try_Inr)
  obtain rs where "pl_saves n' = pl_saves n @ rs" "covers played (of_int video_sec) rs"
    using watch_loop_saves [OF run] assms(2) by (auto simp: in_play_def)
  moreover from this have "rs \<noteq> []" using False by auto
  ultimately show ?thesis using watch_loop_answers [OF run] assms(3) False by auto
qed

lemma study_times_range: "study_times z d video = Inr (s, played) \<Longrightarrow> 0 \<le> d \<Longrightarrow> 0 \<le> played \<and> played \<le> of_int d"
  by (auto simp: study_times_def of_int_max of_int_min split: sum.splits)

lemma start_playing_Go:
  assumes "start_playing z d speed auto_answer n = (Inr Go, n')"
  obtains m token studied played points where
    "play_from z d speed token played (filter (\<lambda>p. played \<le> cp_time p) points) m = (Inr Go, n')"
    and "pl_saves m = pl_saves n" and "\<exists>video. study_times z d video = Inr (studied, played)"
    and "\<forall>p \<in> set points. cp_time p \<le> of_int d"
proof -
  obtain n1 n2 n3 n4 n5 token studied played points where n1: "wait_for_playback z n = (Inr Go, n1)"
    and n2: "learning_token_id z n1 = (Inr token, n2)"
    and st: "study_times z d (pl_video n2) = Inr (studied, played)"
    and n3: "set_video (dset ''study_total_time'' (PInt studied) (pl_video n2)) n2 = (Inr (), n3)"
    and n4: "wait_for_playback z n3 = (Inr Go, n4)"
    and n5: "points_to_answer z auto_answer (pl_video n4) n4 = (Inr points, n5)"
    and ok: "\<not> list_ex (\<lambda>p. of_int d < cp_time p) points"
    and go: "play_from z d speed token played (filter (\<lambda>p. played \<le> cp_time p) points) n5 = (Inr Go, n')"
    using assms by (auto simp: start_playing_def when_playing_def io_bind_Inr split: if_splits)
  have "preserves pl_saves (points_to_answer z auto_answer (pl_video n4))"
    unfolding points_to_answer_def by (auto intro!: keeps_rules)
  from keepsD [OF this n5] have "pl_saves n5 = pl_saves n"
    using keepsD [OF keeps_wait [of pl_saves] n1] keepsD [OF keeps_wait [of pl_saves] n4] keepsD [OF keeps_set_video n3]
      keepsD [OF keeps_learning_token n2] by simp
  moreover have "\<forall>p \<in> set points. cp_time p \<le> of_int d" using ok by (auto simp: list_ex_iff not_less)
  ultimately show thesis using that go st by blast
qed

text \<open>
  C27: Watching a video succeeds only where the platform already counts it as watched, or has
  acknowledged every report of a playback without a gap up to the full length of the video.
\<close>

theorem watched_means_acknowledged:
  assumes "watch_video z speed auto_answer n = (Inr Go, n')"
  shows "py_int z (or_else (dget (pl_video n) ''watch_state'') (PInt 0)) = Inr 1 \<or>
    (\<exists>start rs. pl_saves n' = pl_saves n @ rs \<and> rs \<noteq> [] \<and> covers start (of_int (usable_duration z (pl_video n))) rs)"
proof (cases "py_int z (or_else (dget (pl_video n) ''watch_state'') (PInt 0)) = Inr 1")
  case False
  define d where "d = usable_duration z (pl_video n)"
  have start: "start_playing z d speed auto_answer n = (Inr Go, n')"
    using assms False
    by (auto simp: watch_video_def io_bind_Inr Let_def d_def video_int_def int_value_def split: if_splits sum.splits)
  obtain m token studied played points where
      go: "play_from z d speed token played (filter (\<lambda>p. played \<le> cp_time p) points) m = (Inr Go, n')"
    and m: "pl_saves m = pl_saves n" and st: "\<exists>video. study_times z d video = Inr (studied, played)"
    and le: "\<forall>p \<in> set points. cp_time p \<le> of_int d"
    using start_playing_Go [OF start] by metis
  have "0 \<le> d" using assms by (auto simp: watch_video_def io_bind_Inr Let_def d_def split: if_splits)
  then have "played \<le> of_int d" using st study_times_range by blast
  then have "\<exists>rs. pl_saves n' = pl_saves n @ rs \<and> rs \<noteq> [] \<and> covers played (of_int d) rs"
    using play_from_Go [OF go] le m by auto
  then show ?thesis unfolding d_def by blast
qed simp


lemma digits_no_comma: "py_isdigit s \<Longrightarrow> CHR '','' \<notin> set s"
  by (auto simp: py_isdigit_def list_all_iff is_digit_def Let_def)

text \<open>
  C29: The answer handed in at a checkpoint names exactly the options that the platform marks as
  correct, by their ids.
\<close>

theorem checkpoint_answer_names_correct_options:
  assumes "checkpoint_answer question_id questions = Inr answer"
  shows "\<exists>question options. questions = [hd questions] \<and> dget (the_dict (hd questions)) ''testQuestion'' = PDict question
    \<and> dget question ''questionOptions'' = PList options
    \<and> split_on (CHR '','') answer = map option_id (filter (\<lambda>opt. option_result opt = ''1'') options)
    \<and> split_on (CHR '','') answer \<noteq> []"
proof -
  obtain question options where q: "length questions = 1" "dget (the_dict (hd questions)) ''testQuestion'' = PDict question"
    "dget question ''questionOptions'' = PList options"
    and d: "map option_id (filter (\<lambda>opt. option_result opt = ''1'') options) \<noteq> []"
      "list_all py_isdigit (map option_id (filter (\<lambda>opt. option_result opt = ''1'') options))"
    and a: "answer = join_with '','' (map option_id (filter (\<lambda>opt. option_result opt = ''1'') options))"
    using assms by (auto simp: checkpoint_answer_def Let_def split: pyval.splits if_splits option.splits)
  have "list_all (\<lambda>w. CHR '','' \<notin> set w) (map option_id (filter (\<lambda>opt. option_result opt = ''1'') options))"
    using d(2) digits_no_comma by (auto simp: list_all_iff)
  from split_on_join [OF this d(1)] q a show ?thesis by (cases questions) auto
qed

section \<open>A platform\<close>

text \<open>A platform that acknowledges everything\<close>

definition demo_body :: pydict where
  "demo_body = [(''studiedLessonDto'', PDict [(''id'', PInt 7)]),
     (''lessonTestQuestionUseInterfaceDtos'', PList [PDict [(''testQuestion'', PDict [(''questionOptions'',
        PList [PDict [(''id'', PInt 3), (''result'', PStr ''0'')], PDict [(''id'', PInt 4), (''result'', PStr ''1'')]])])]])]"

definition demo_answer :: response where
  "demo_answer = \<lparr>rs_status = 200, rs_url = [], rs_location = [], rs_text = [],
     rs_json = Some (PDict [(''code'', PInt 0), (''data'', PDict demo_body)])\<rparr>"

definition demo_zhs :: "unit zhs" where
  "demo_zhs = \<lparr>z_web = \<lparr>web_send = (\<lambda>_ _ w. (Inr demo_answer, w)), web_cookie = (\<lambda>_ _ _. None), web_ms = (\<lambda>_. 0), web_iso = (\<lambda>_. [])\<rparr>,
     z_session = 0, z_aes = (\<lambda>_ _ b. b), z_uuid = [], z_cancelled = (\<lambda>w. (False, w)), z_paused = (\<lambda>w. (False, w)),
     z_sleep = (\<lambda>_ w. w), z_patience = 1, z_int = (\<lambda>_. Inr 5), z_float = (\<lambda>_. Inl []), z_json_error = (\<lambda>_. Other_exc [])\<rparr>"

definition demo_player :: "unit player" where
  "demo_player = \<lparr>sent = [], sessions = 1, world = (), pl_video = [(''video_sec'', PInt 2)], pl_saves = []\<rparr>"

lemma demo_post:
  "signed_post demo_zhs url payload key n =
     (Inr demo_answer, n\<lparr>sent := sent n @ [(0, signed_request (\<lambda>_ _ b. b) 0 url payload key)]\<rparr>)"
  by (simp add: signed_post_def io_bind_def io_get_def http_def demo_zhs_def Let_def)

lemma demo_wait: "wait_for_playback demo_zhs n = (Inr Go, n)"
  by (simp add: wait_for_playback_def zhs_reading_def io_bind_def io_return_def demo_zhs_def)

lemma demo_sleep: "sleep demo_zhs ms n = (Inr (), n)"
  by (simp add: sleep_def demo_zhs_def)

lemma demo_data: "response_data demo_zhs None demo_answer = Inr demo_body"
  by (simp add: response_data_def response_json_def demo_answer_def dget_def ok_code_def data_keys_def is_dict_def
      extract_data_def fill_required_def Let_def)

lemma demo_studied: "dget demo_body ''studiedLessonDto'' = PDict [(''id'', PInt 7)]"
  by (simp add: demo_body_def dget_def)

lemma demo_json:
  "response_json demo_zhs demo_answer = Inr (PDict [(''code'', PInt 0), (''data'', PDict demo_body)])"
  "rs_status demo_answer = 200"
  by (simp_all add: response_json_def demo_answer_def)

lemmas demo_simps = io_bind_def io_get_def io_return_def io_of_def io_try_def 
  Let_def video_int_def int_value_def py_int_def or_else_def set_video_def demo_wait demo_sleep demo_post demo_json

lemma demo_token: "base64_encode (utf8 (py_str (PInt 7))) = ''Nw==''"
  by code_simp

lemma demo_position: "next_position 2 2 \<lparr>pb_played = 0, pb_last = 0, pb_elapsed = 0, pb_points = [], pb_wp = wp\<rparr> = 2"
  by (simp add: next_position_def eff_speed_def)

lemma demo_watched: "fst (watch_video demo_zhs 2 False demo_player) = Inr Go"
  by (simp add: watch_video_def demo_player_def usable_duration_def demo_simps dget_def [of "[_]"] dget_def [of "[_, _]"] demo_studied start_playing_def when_playing_def
      learning_token_id_def signed_data_def demo_data with_get_def STUDIED_KEYS_def copy_unless_none_def
      study_times_def points_to_answer_def play_from_def watch_loop.simps watch_turn_def
      demo_token demo_position turn_report_def report_def save_progress_def ok_code_def advance_totals_def)

theorem watched_means_acknowledged_witness:
  "\<exists>start rs. pl_saves (snd (watch_video demo_zhs 2 False demo_player)) = rs \<and> rs \<noteq> [] \<and> covers start 2 rs"
proof -
  obtain n' where n': "watch_video demo_zhs 2 False demo_player = (Inr Go, n')"
    using demo_watched by (metis prod.collapse)
  have "pl_saves demo_player = []" and "usable_duration demo_zhs (pl_video demo_player) = 2"
    and "py_int demo_zhs (or_else (dget (pl_video demo_player) ''watch_state'') (PInt 0)) \<noteq> Inr 1"
    by (simp_all add: demo_player_def usable_duration_def py_int_def or_else_def dget_def)
  with watched_means_acknowledged [OF n'] n' show ?thesis by simp
qed

definition demo_video :: pydict where
  "demo_video = [(''lesson_id'', PInt 1), (''course_id'', PInt 1), (''recruit_id'', PInt 1), (''video_sec'', PInt 2)]"

definition demo_quiz_player :: "unit player" where
  "demo_quiz_player = demo_player\<lparr>pl_video := demo_video\<rparr>"

definition demo_point :: checkpoint where "demo_point = \<lparr>cp_time = 1, cp_ids = ''5''\<rparr>"

lemma demo_exam:
  "response_data demo_zhs (Some ''lessonTestQuestionUseInterfaceDtos'') demo_answer = Inr demo_body"
  by (simp add: response_data_def response_json_def demo_answer_def dget_def ok_code_def data_keys_def is_dict_def is_list_def
      extract_data_def fill_required_def Let_def demo_body_def)

lemma demo_questions:
  "the_list (dget demo_body ''lessonTestQuestionUseInterfaceDtos'') =
     [PDict [(''testQuestion'', PDict [(''questionOptions'',
        PList [PDict [(''id'', PInt 3), (''result'', PStr ''0'')], PDict [(''id'', PInt 4), (''result'', PStr ''1'')]])])]]"
  by (simp add: demo_body_def dget_def)

lemma demo_four: "py_str (PInt 4) = ''4''"
  by code_simp

lemma demo_digit: "py_isdigit ''4''"
  by (simp add: py_isdigit_def is_digit_def Let_def)

lemma demo_choice:
  "checkpoint_answer ''5'' (the_list (dget demo_body ''lessonTestQuestionUseInterfaceDtos'')) = Inr ''4''"
  unfolding demo_questions
  by (simp add: checkpoint_answer_def dget_def is_dict_def option_result_def option_id_def Let_def demo_four demo_digit)

theorem checkpoint_answer_names_correct_options_witness:
  "split_on (CHR '','') ''4'' = map option_id (filter (\<lambda>opt. option_result opt = ''1'')
     [PDict [(''id'', PInt 3), (''result'', PStr ''0'')], PDict [(''id'', PInt 4), (''result'', PStr ''1'')]])"
  using checkpoint_answer_names_correct_options [OF demo_choice [unfolded demo_questions]] by (simp add: dget_def)

lemma demo_context:
  "popup_context demo_video = Inr [(''lessonId'', PInt 1)]" "get_key demo_video ''course_id'' = Inr (PInt 1)"
  "get_key demo_video ''recruit_id'' = Inr (PInt 1)" "answered demo_video = []"
  by (simp_all add: demo_video_def popup_context_def get_key_def small_lesson_field_def no_small_lesson_def dget_def answered_def)

lemma demo_code:
  "dget [(''code'', PInt 0), (''data'', PDict demo_body)] ''code'' = PInt 0"
  "dget [(''code'', PInt 0), (''data'', PDict demo_body)] ''data'' = PDict demo_body" "z_int demo_zhs v = Inr 5"
  by (simp_all add: dget_def demo_zhs_def)

lemma demo_question:
  assumes "pl_video n = demo_video"
  shows "\<exists>n'. answer_question demo_zhs ''5'' n = (Inr Go, n')
    \<and> pl_video n' = dset ''answered_popup_questions'' (PList [PStr ''5'']) demo_video"
  using assms
  by (simp add: answer_question_def when_playing_def demo_simps demo_context get_popup_exam_def signed_data_def demo_exam
      demo_choice [unfolded demo_questions] demo_questions is_dict_def upstream_def submit_popup_exam_def ok_code_def
      demo_code note_answered_def)

lemma demo_report:
  assumes "dget (pl_video n) ''video_sec'' = PInt 2" and "r \<or> 2 \<le> pb_played pb"
  shows "\<exists>n' pb'. turn_report demo_zhs 2 t r pb n = (Inr (Again pb'), n') \<and> pb_played pb' = pb_played pb
     \<and> pb_points pb' = pb_points pb \<and> dget (pl_video n') ''video_sec'' = PInt 2"
  using assms
  by (cases "py_int demo_zhs (or_else (dget (pl_video n) ''study_total_time'') (PInt 0))")
    (auto simp: turn_report_def report_def save_progress_def advance_totals_def io_bind_def io_get_def io_return_def io_of_def
      Let_def video_int_def int_value_def set_video_def demo_wait demo_post demo_json demo_code ok_code_def py_int_def demo_code(3)
      or_else_def split: if_splits pyval.splits)

lemma demo_played: "fst (play_from demo_zhs 2 2 t 0 [demo_point] demo_quiz_player) = Inr Go"
proof -
  let ?pb = "\<lparr>pb_played = 0, pb_last = 0, pb_elapsed = 0, pb_points = [demo_point], pb_wp = wp_reset 0\<rparr>"
  have v: "pl_video demo_quiz_player = demo_video" by (simp add: demo_quiz_player_def)
  obtain n1 where n1: "answer_question demo_zhs ''5'' demo_quiz_player = (Inr Go, n1)"
    and v1: "pl_video n1 = dset ''answered_popup_questions'' (PList [PStr ''5'']) demo_video"
    using demo_question [OF v] by blast
  have s1: "dget (pl_video n1) ''video_sec'' = PInt 2" by (simp add: v1 demo_video_def dget_def)
  let ?pb1 = "\<lparr>pb_played = 1, pb_last = 0, pb_elapsed = Suc 0, pb_points = [], pb_wp = wp_reset 0\<rparr>"
  obtain n2 pb2 where r1: "turn_report demo_zhs 2 t True ?pb1 n1 = (Inr (Again pb2), n2)"
    and pb2: "pb_played pb2 = 1" "pb_points pb2 = []" and s2: "dget (pl_video n2) ''video_sec'' = PInt 2"
    using demo_report [OF s1, of True ?pb1 t] by auto
  have due: "answer_popup_checkpoint demo_zhs demo_point demo_quiz_player = (Inr Go, n1)"
    by (simp add: answer_popup_checkpoint_def demo_point_def n1 io_bind_def io_return_def)
  have turn1: "watch_turn demo_zhs 2 2 t ?pb demo_quiz_player = (Inr (Again pb2), n2)"
    using r1 due
    by (simp add: watch_turn_def io_bind_def io_return_def demo_wait demo_sleep demo_point_def next_position_def
        eff_speed_def Let_def)
  have "\<exists>n3 pb3. watch_turn demo_zhs 2 2 t pb2 n2 = (Inr (Again pb3), n3) \<and> pb_played pb3 = 2"
  proof -
    let ?pb3 = "\<lparr>pb_played = 2, pb_last = pb_last pb2, pb_elapsed = Suc (pb_elapsed pb2), pb_points = [],
      pb_wp = (if Suc (pb_elapsed pb2) mod 2 = 0 then wp_add (trunc 2) (pb_wp pb2) else pb_wp pb2)\<rparr>"
    obtain n3 pb3 where "turn_report demo_zhs 2 t False ?pb3 n2 = (Inr (Again pb3), n3)" "pb_played pb3 = 2"
      using demo_report [OF s2, of False ?pb3 t] by auto
    then show ?thesis
      using pb2 by (auto simp: watch_turn_def io_bind_def io_return_def demo_wait demo_sleep next_position_def
          eff_speed_def Let_def)
  qed
  then obtain n3 pb3 where turn2: "watch_turn demo_zhs 2 2 t pb2 n2 = (Inr (Again pb3), n3)" "pb_played pb3 = 2"
    by blast
  have "watch_loop demo_zhs 2 2 t pb3 n3 = (Inr Go, n3)" by (simp add: watch_loop.simps [of _ _ _ _ pb3] turn2)
  then have "watch_loop demo_zhs 2 2 t pb2 n2 = (Inr Go, n3)" by (simp add: watch_loop.simps [of _ _ _ _ pb2] turn2 pb2)
  then have "watch_loop demo_zhs 2 2 t ?pb demo_quiz_player = (Inr Go, n3)"
    by (simp add: watch_loop.simps [of _ _ _ _ ?pb] turn1)
  then show ?thesis by (simp add: play_from_def io_try_def trunc_def)
qed


end
