(* ===== verification/Zhs_Adapter.thy ===== *)
theory Zhs_Adapter
  imports Zhs_Watch
begin

text \<open>
  The adapter that keeps a user's Zhihuishu tasks (\<open>zhihuishu/adapter.py\<close>): courses and videos read
  from the platform's answers, the tasks with their controls, and the worker that watches the videos
  of a task one after the other.

  \<open>_task_state\<close> is one of the dictionaries in \<open>_tasks\<close>, shared, so it is the id of a task here. The
  list of videos a start has loaded is its own. The clock is an argument; texts in Chinese are
  replaced; \<open>round(completed / total * 100, 2)\<close> is kept as the pair it is computed from.
\<close>

section \<open>Courses\<close>

definition course_ids :: "pydict \<Rightarrow> string list" where
  "course_ids course =
     map py_str (filter (\<lambda>v. v \<noteq> PNone)
       [dget course ''recruitAndCourseId'', dget course ''secret'', dget course ''courseId'', dget course ''id''])"

definition group_key :: "pydict \<Rightarrow> string" where
  "group_key course =
     py_str (or_else (or_else (or_else (dget course ''semesterName'') (dget course ''termName'')) (dget course ''courseTypeName''))
       (PStr ''default''))"

definition grouped_courses :: "pydict list \<Rightarrow> (string \<times> pydict list) list" where
  "grouped_courses courses =
     fold (\<lambda>course g. let k = group_key course
                      in dset k ((case map_of g k of None \<Rightarrow> [] | Some cs \<Rightarrow> cs) @ [course]) g) courses []"

text \<open>\<open>get_grouped_courses\<close>: group, count and courses\<close>

definition get_grouped_courses :: "pydict list \<Rightarrow> (string \<times> nat \<times> pydict list) list" where
  "get_grouped_courses courses = map (\<lambda>(name, items). (name, length items, items)) (grouped_courses courses)"

text \<open>\<open>get_course_detail\<close>: \<open>None\<close> is the exception \<open>Course not found\<close>\<close>

definition get_course_detail :: "string \<Rightarrow> pydict list \<Rightarrow> pydict option" where
  "get_course_detail course_id courses = find (\<lambda>c. course_id \<in> set (course_ids c)) courses"

definition resolve_rac_id :: "string \<Rightarrow> pydict list \<Rightarrow> string" where
  "resolve_rac_id course_id courses =
     (case find (\<lambda>c. course_id \<in> set (course_ids c)) courses of
        Some c \<Rightarrow> py_str (or_else (or_else (dget c ''recruitAndCourseId'') (dget c ''secret'')) (PStr course_id))
      | None \<Rightarrow> course_id)"

section \<open>Videos\<close>

text \<open>\<open>_extract_questions\<close>\<close>

definition QUESTION_KEYS :: "string list" where
  "QUESTION_KEYS = [''questionList'', ''questions'', ''quizList'', ''workList'']"

definition extract_questions :: "pydict \<Rightarrow> pyval list" where
  "extract_questions item =
     (case filter (\<lambda>v. is_list v \<and> truthy v) (map (dget item) QUESTION_KEYS) of
        [] \<Rightarrow> []
      | v # _ \<Rightarrow> filter is_dict (the_list v))"

text \<open>A value or the exception of a list of computations, one after the other, with a state\<close>

fun sum_fold :: "('a \<Rightarrow> 's \<Rightarrow> 'e + 's) \<Rightarrow> 'a list \<Rightarrow> 's \<Rightarrow> 'e + 's" where
  "sum_fold f [] s = Inr s"
| "sum_fold f (x # xs) s = (case f x s of Inl e \<Rightarrow> Inl e | Inr s' \<Rightarrow> sum_fold f xs s')"

definition sum_bind :: "'e + 'a \<Rightarrow> ('a \<Rightarrow> 'e + 'b) \<Rightarrow> 'e + 'b" where
  "sum_bind r f = (case r of Inl e \<Rightarrow> Inl e | Inr x \<Rightarrow> f x)"

fun zhs_first_truthy :: "pyval list \<Rightarrow> pyval" where
  "zhs_first_truthy [] = PNone"
| "zhs_first_truthy [v] = v"
| "zhs_first_truthy (v # vs) = (if truthy v then v else zhs_first_truthy vs)"

text \<open>One entry of \<open>_flatten_videos\<close>; \<open>index\<close> is one more than the videos before it\<close>

definition flat_video ::
  "string option \<Rightarrow> pyval \<Rightarrow> pyval \<Rightarrow> pydict \<Rightarrow> pydict \<Rightarrow> pydict \<times> bool \<Rightarrow> pydict list \<Rightarrow> pydict list" where
  "flat_video rac_id recruit_id course_id chapter lesson s videos =
     (case s of (small, is_single) \<Rightarrow>
       (let index = length videos + 1;
            video_id = zhs_first_truthy [dget small ''videoId'', dget small ''id''];
            title = zhs_first_truthy [dget small ''name'', dget small ''videoName'', dget lesson ''name'', dget lesson ''videoName'',
                      dget lesson ''lessonVideoName'', PStr (''Video '' @ nat_str index)];
            video_sec = zhs_first_truthy [dget small ''videoSec'', dget small ''duration'', PInt 0];
            own = extract_questions small;
            questions = (if own = [] \<and> \<not> is_single then extract_questions lesson else own)
        in videos @
          [[(''id'', PStr (py_str (zhs_first_truthy [video_id, PInt (int index)]))), (''title'', title), (''duration'', video_sec),
            (''status'', PStr ''pending''), (''progress'', PInt 0), (''questions'', PList questions),
            (''recruit_and_course_id'', case rac_id of None \<Rightarrow> PNone | Some r \<Rightarrow> PStr r), (''recruit_id'', recruit_id),
            (''course_id'', course_id), (''chapter_id'', zhs_first_truthy [dget chapter ''id'', dget chapter ''chapterId'']),
            (''chapter_title'', PStr (py_str (zhs_first_truthy [dget chapter ''name'', dget chapter ''chapterName'',
               dget chapter ''title'', PStr []]))),
            (''lesson_id'', zhs_first_truthy [dget lesson ''id'', dget lesson ''lessonId'']),
            (''small_lesson_id'', if is_single then PInt 0 else dget small ''id''), (''video_id'', video_id),
            (''video_sec'', video_sec)]]))"

definition flat_smalls :: "pydict \<Rightarrow> http_exc + (pyval \<times> bool) list" where
  "flat_smalls lesson =
     (if truthy (dget lesson ''videoSmallLessons'')
      then map_sum id (map (\<lambda>s. (s, False))) (items_of (dget lesson ''videoSmallLessons''))
      else Inr [(PDict lesson, True)])"

definition flat_lesson ::
  "string option \<Rightarrow> pyval \<Rightarrow> pyval \<Rightarrow> pydict \<Rightarrow> pyval \<Rightarrow> pydict list \<Rightarrow> http_exc + pydict list" where
  "flat_lesson rac_id recruit_id course_id chapter le videos =
     sum_bind (with_get le) (\<lambda>lesson. sum_bind (flat_smalls lesson) (\<lambda>smalls.
       sum_fold (\<lambda>s vs. sum_bind (with_get (fst s)) (\<lambda>small.
           Inr (flat_video rac_id recruit_id course_id chapter lesson (small, snd s) vs))) smalls videos))"

definition flat_chapter ::
  "string option \<Rightarrow> pyval \<Rightarrow> pyval \<Rightarrow> pyval \<Rightarrow> pydict list \<Rightarrow> http_exc + pydict list" where
  "flat_chapter rac_id recruit_id course_id ch videos =
     sum_bind (with_get ch) (\<lambda>chapter.
     sum_bind (items_of (zhs_first_truthy [dget chapter ''videoLessons'', dget chapter ''videoLearningDtos'',
         dget chapter ''videoDtos'', PList []])) (\<lambda>lessons.
       sum_fold (flat_lesson rac_id recruit_id course_id chapter) lessons videos))"

definition flatten_videos :: "pyval \<Rightarrow> string option \<Rightarrow> http_exc + pydict list" where
  "flatten_videos data rac_id =
     (case data of
        PDict d \<Rightarrow>
          sum_bind (items_of (zhs_first_truthy [dget d ''videoChapterDtos'', PList []])) (\<lambda>chapters.
            sum_fold (flat_chapter rac_id (dget d ''recruitId'') (dget d ''courseId'')) chapters [])
      | _ \<Rightarrow>
          sum_bind (items_of (zhs_first_truthy [data, PList []])) (\<lambda>chapters.
            sum_fold (flat_chapter rac_id PNone PNone) chapters []))"

text \<open>\<open>_annotate_watch_state\<close>: what it asks the platform for, and what it does with the answer\<close>

definition study_ids :: "string \<Rightarrow> pydict list \<Rightarrow> pyval list" where
  "study_ids key videos = sort_key py_str (remdups (filter truthy (map (\<lambda>v. dget v key) videos)))"

definition watch_state_of :: "pydict \<Rightarrow> pydict \<Rightarrow> pydict \<Rightarrow> http_exc + pydict" where
  "watch_state_of lv lesson v =
     (let small_id = dget v ''small_lesson_id'';
          state = (if no_small_lesson small_id then dget lesson (py_str (dget v ''lesson_id'')) else dget lv (py_str small_id))
      in with_get (or_else state (PDict [])))"

definition annotate_video :: "(pyval \<Rightarrow> string + int) \<Rightarrow> pydict \<Rightarrow> pydict \<Rightarrow> pydict \<Rightarrow> http_exc + pydict" where
  "annotate_video to_i lv lesson v =
     sum_bind (watch_state_of lv lesson v) (\<lambda>state.
       (let v' = dupdate v [(''study_total_time'', or_else (dget state ''studyTotalTime'') (PInt 0)),
              (''learn_time_sec'', or_else (dget state ''learnTimeSec'') (PInt 0)),
              (''watch_state'', or_else (dget state ''watchState'') (PInt 0))]
        in Inr (if to_i (dget v' ''watch_state'') = Inr 1 then dset ''status'' (PStr ''completed'') v' else v')))"

fun sum_map :: "('a \<Rightarrow> 'e + 'b) \<Rightarrow> 'a list \<Rightarrow> 'e + 'b list" where
  "sum_map f [] = Inr []"
| "sum_map f (x # xs) = sum_bind (f x) (\<lambda>y. sum_bind (sum_map f xs) (\<lambda>ys. Inr (y # ys)))"

text \<open>\<open>info\<close> is what \<open>query_study_info\<close> returns, \<open>None\<close> where it raises\<close>

definition annotate_watch_state ::
  "(pyval \<Rightarrow> string + int) \<Rightarrow> pydict option \<Rightarrow> pydict list \<Rightarrow> http_exc + pydict list" where
  "annotate_watch_state to_i info videos =
     (if videos = [] then Inr []
      else case info of
        None \<Rightarrow> Inr videos
      | Some d \<Rightarrow>
          sum_bind (with_get (or_else (dget d ''lv'') (PDict []))) (\<lambda>lv.
          sum_bind (with_get (or_else (dget d ''lesson'') (PDict []))) (\<lambda>lesson. sum_map (annotate_video to_i lv lesson) videos)))"

text \<open>\<open>_videos_up_to_chapter\<close>: \<open>None\<close> is \<open>ZhihuishuChapterNotFoundError\<close>\<close>

definition in_chapter :: "string \<Rightarrow> pydict \<Rightarrow> bool" where
  "in_chapter target video = (str_or_empty (dget video ''chapter_id'') = target)"

definition videos_up_to_chapter :: "pydict list \<Rightarrow> string \<Rightarrow> pydict list option" where
  "videos_up_to_chapter videos end_chapter_id =
     (let target = py_strip end_chapter_id;
          last_index = fold (\<lambda>i found. if in_chapter target (videos ! i) then Some i else found) [0..<length videos] None
      in case last_index of None \<Rightarrow> None | Some i \<Rightarrow> Some (take (i + 1) videos))"

text \<open>\<open>get_videos\<close> where no task of the course is running\<close>

definition load_videos :: "'w zhs \<Rightarrow> string \<Rightarrow> ('w, 'z, pydict list) io" where
  "load_videos z course_id =
     io_bind (get_course_list z) (\<lambda>courses.
     io_bind (get_video_list z (resolve_rac_id course_id courses)) (\<lambda>data.
     io_bind (io_of (flatten_videos (PDict data) (Some (resolve_rac_id course_id courses)))) (\<lambda>videos.
     io_bind (if videos = [] then io_return None
              else io_try (\<lambda>_. True)
                (io_bind (query_study_info z (study_ids ''lesson_id'' videos) (study_ids ''small_lesson_id'' videos)
                    (dget data ''recruitId'')) (\<lambda>info. io_return (Some info)))
                (\<lambda>_. io_return None)) (\<lambda>info.
     io_of (annotate_watch_state (py_int z) info videos)))))"

end
