(* ===== verification/Zhs_Tasks.thy ===== *)
theory Zhs_Tasks
  imports Zhs_Adapter
begin

text \<open>
  The tasks of a Zhihuishu adapter: its operations, one per critical section, the worker of a task as
  a program counter that moves from one critical section to the next, and the two together as a
  transition system in which every interleaving is a run.
\<close>

section \<open>The adapter\<close>

record ztask =
  zt_id :: string
  zt_course :: string
  zt_status :: string
  zt_message :: string
  zt_created :: int
  zt_updated :: int
  zt_videos :: "pydict list"
  zt_total :: nat
  zt_completed :: nat
  zt_failed :: nat
  zt_percent :: "nat \<times> nat"
  zt_current :: pyval
  zt_paused :: bool
  zt_cancelled :: bool
  zt_speed :: rat
  zt_auto :: bool
  zt_type :: string
  zt_end :: "string option"

record answerer =
  an_enabled :: pyval
  an_zhidao :: bool
  an_stream :: bool

record adapter =
  ad_logged_in :: bool
  ad_current :: "string option"
  ad_tasks :: "(string \<times> ztask) list"
  ad_speed :: rat
  ad_auto :: bool
  ad_ai :: pydict
  ad_proxies :: pydict
  ad_answer :: "answerer option"

definition new_adapter :: "pydict \<Rightarrow> pydict \<Rightarrow> adapter" where
  "new_adapter ai proxies =
     \<lparr>ad_logged_in = False, ad_current = None, ad_tasks = [], ad_speed = 1, ad_auto = True,
      ad_ai = (if ai = [] then [(''enabled'', PBool False)] else ai), ad_proxies = proxies, ad_answer = None\<rparr>"

text \<open>\<open>d.get(k, default)\<close>\<close>

definition dget_default :: "pydict \<Rightarrow> string \<Rightarrow> pyval \<Rightarrow> pyval" where
  "dget_default d k v = (case map_of d k of None \<Rightarrow> v | Some w \<Rightarrow> w)"

text \<open>\<open>_init_services\<close>, and what \<open>ZhihuishuAnswer.__init__\<close> reads\<close>

definition init_services :: "adapter \<Rightarrow> adapter" where
  "init_services ad = ad\<lparr>ad_logged_in := True,
     ad_answer := Some \<lparr>an_enabled = dget_default (ad_ai ad) ''enabled'' (PBool False),
       an_zhidao = truthy (dget_default (ad_ai ad) ''use_zhidao_ai'' (PBool True)),
       an_stream = truthy (dget_default (ad_ai ad) ''use_stream'' (PBool True))\<rparr>\<rparr>"

definition ZHS_ACTIVE_STATUSES :: "string list" where
  "ZHS_ACTIVE_STATUSES = [''pending'', ''running'', ''paused'', ''cancelling'', ''stopping'']"

definition is_active :: "ztask \<Rightarrow> bool" where
  "is_active t = (py_lower (py_strip (zt_status t)) \<in> set ZHS_ACTIVE_STATUSES)"

text \<open>\<open>self._task_state\<close>\<close>

definition current_task :: "adapter \<Rightarrow> ztask option" where
  "current_task ad = (case ad_current ad of None \<Rightarrow> None | Some tid \<Rightarrow> map_of (ad_tasks ad) tid)"

definition zhs_put_task :: "ztask \<Rightarrow> adapter \<Rightarrow> adapter" where
  "zhs_put_task t ad = ad\<lparr>ad_tasks := dset (zt_id t) t (ad_tasks ad)\<rparr>"

section \<open>Starting a task\<close>

datatype zhs_start_error = Not_logged_in | Conflict | Chapter_missing | Thread_failed | Load_failed http_exc

definition busy :: "adapter \<Rightarrow> bool" where
  "busy ad = (case current_task ad of None \<Rightarrow> False | Some t \<Rightarrow> is_active t)"

definition zhs_new_task ::
  "string \<Rightarrow> int \<Rightarrow> string \<Rightarrow> rat \<Rightarrow> bool \<Rightarrow> string option \<Rightarrow> pydict list \<Rightarrow> ztask" where
  "zhs_new_task tid now course_id speed auto_answer end_chapter videos =
     \<lparr>zt_id = tid, zt_course = course_id, zt_status = (if videos = [] then ''completed'' else ''running''),
      zt_message = (if videos = [] then ''No videos found'' else ''Task started''), zt_created = now, zt_updated = now,
      zt_videos = videos, zt_total = length videos, zt_completed = 0, zt_failed = 0, zt_percent = (0, 0),
      zt_current = PNone, zt_paused = False, zt_cancelled = False, zt_speed = (if 0 < speed then speed else 1),
      zt_auto = auto_answer, zt_type = ''course'',
      zt_end = (case end_chapter of None \<Rightarrow> None | Some c \<Rightarrow> if c = [] then None else Some c)\<rparr>"

text \<open>The second critical section of \<open>start_course\<close>: \<open>None\<close> is the conflict\<close>

definition zhs_admit_task :: "ztask \<Rightarrow> adapter \<Rightarrow> adapter option" where
  "zhs_admit_task t ad =
     (if busy ad then None
      else Some (zhs_put_task t ad\<lparr>ad_current := Some (zt_id t), ad_speed := zt_speed t, ad_auto := zt_auto t\<rparr>))"

definition end_given :: "string option \<Rightarrow> bool" where
  "end_given c = (c \<noteq> None \<and> c \<noteq> Some [])"

definition chosen_videos :: "string option \<Rightarrow> pydict list \<Rightarrow> pydict list option" where
  "chosen_videos end_chapter videos =
     (if end_given end_chapter then videos_up_to_chapter videos (the end_chapter) else Some videos)"

definition thread_failure :: string where
  "thread_failure = ''Server cannot start a new background thread. Stop existing tasks and retry, '' @
     ''or restart the service if the problem persists.''"

definition mark_task_error :: "string \<Rightarrow> string \<Rightarrow> int \<Rightarrow> adapter \<Rightarrow> adapter" where
  "mark_task_error tid message now ad =
     (case map_of (ad_tasks ad) tid of
        None \<Rightarrow> ad
      | Some t \<Rightarrow> zhs_put_task (t\<lparr>zt_status := ''error'', zt_message := message, zt_updated := now\<rparr>) ad)"

text \<open>
  \<open>start_course\<close> with nobody in between: \<open>loaded\<close> is what loading the videos ends in, \<open>started\<close>
  whether the thread starts. The result is the new task, or an error.
\<close>

definition start_course ::
  "string \<Rightarrow> int \<Rightarrow> http_exc + pydict list \<Rightarrow> bool \<Rightarrow> string \<Rightarrow> rat \<Rightarrow> bool \<Rightarrow> string option \<Rightarrow> adapter
     \<Rightarrow> (zhs_start_error + ztask) \<times> adapter" where
  "start_course tid now loaded started course_id speed auto_answer end_chapter ad =
     (if \<not> ad_logged_in ad then (Inl Not_logged_in, ad)
      else if busy ad then (Inl Conflict, ad)
      else case loaded of
        Inl e \<Rightarrow> (Inl (Load_failed e), ad)
      | Inr all_videos \<Rightarrow>
          (case chosen_videos end_chapter all_videos of
             None \<Rightarrow> (Inl Chapter_missing, ad)
           | Some videos \<Rightarrow>
               (let t = zhs_new_task tid now course_id speed auto_answer end_chapter videos
                in case zhs_admit_task t ad of
                     None \<Rightarrow> (Inl Conflict, ad)
                   | Some ad' \<Rightarrow>
                       (if videos \<noteq> [] \<and> \<not> started
                        then (Inl Thread_failed, mark_task_error tid thread_failure now ad')
                        else (Inr t, ad')))))"

definition set_task_type :: "string \<Rightarrow> string \<Rightarrow> bool \<Rightarrow> int \<Rightarrow> adapter \<Rightarrow> adapter" where
  "set_task_type tid task_type auto_answer now ad =
     (case map_of (ad_tasks ad) tid of
        None \<Rightarrow> ad
      | Some t \<Rightarrow> zhs_put_task (t\<lparr>zt_type := task_type, zt_auto := auto_answer, zt_updated := now\<rparr>) ad)"

definition start_course_task ::
  "string \<Rightarrow> int \<Rightarrow> http_exc + pydict list \<Rightarrow> bool \<Rightarrow> string \<Rightarrow> rat \<Rightarrow> bool \<Rightarrow> string \<Rightarrow> string option \<Rightarrow> adapter
     \<Rightarrow> (zhs_start_error + ztask) \<times> adapter" where
  "start_course_task tid now loaded started course_id speed auto_answer task_type end_chapter ad =
     (case start_course tid now loaded started course_id speed auto_answer end_chapter ad of
        (Inl e, ad') \<Rightarrow> (Inl e, ad')
      | (Inr t, ad') \<Rightarrow> (Inr t, set_task_type tid task_type auto_answer now ad'))"

definition set_ai :: "pyval \<Rightarrow> pyval option \<Rightarrow> adapter \<Rightarrow> adapter" where
  "set_ai enabled answer_enabled ad =
     ad\<lparr>ad_ai := dset ''enabled'' enabled (ad_ai ad),
        ad_answer := (case (ad_answer ad, answer_enabled) of
                        (Some a, Some v) \<Rightarrow> Some (a\<lparr>an_enabled := v\<rparr>)
                      | (a, _) \<Rightarrow> a)\<rparr>"

text \<open>\<open>start_ai_course_task\<close>: AI answering is switched on first, and back off after two of the errors\<close>

definition start_ai_course_task ::
  "string \<Rightarrow> int \<Rightarrow> http_exc + pydict list \<Rightarrow> bool \<Rightarrow> string \<Rightarrow> rat \<Rightarrow> string option \<Rightarrow> adapter
     \<Rightarrow> (zhs_start_error + ztask) \<times> adapter" where
  "start_ai_course_task tid now loaded started course_id speed end_chapter ad =
     (let previous = dget (ad_ai ad) ''enabled''; previous_answer = map_option an_enabled (ad_answer ad)
      in case start_course_task tid now loaded started course_id speed True ''ai-course'' end_chapter
                (set_ai (PBool True) (Some (PBool True)) ad) of
           (Inl e, ad') \<Rightarrow>
             (Inl e, if e = Chapter_missing \<or> e = Conflict then set_ai previous previous_answer ad' else ad')
         | (Inr t, ad') \<Rightarrow> (Inr t, ad'))"

section \<open>Controls\<close>

type_synonym answer_pair = "string \<times> string"

definition no_task :: answer_pair where "no_task = (''idle'', ''No running task'')"

definition zhs_pause_task :: "int \<Rightarrow> adapter \<Rightarrow> answer_pair \<times> adapter" where
  "zhs_pause_task now ad =
     (case current_task ad of
        None \<Rightarrow> (no_task, ad)
      | Some t \<Rightarrow>
          (if zt_status t \<in> {''completed'', ''cancelled''} then ((zt_status t, ''Task already finished''), ad)
           else ((''paused'', ''Task paused''),
                 zhs_put_task (t\<lparr>zt_paused := True, zt_status := ''paused'', zt_message := ''Task paused'', zt_updated := now\<rparr>) ad)))"

definition zhs_resume_task :: "int \<Rightarrow> adapter \<Rightarrow> answer_pair \<times> adapter" where
  "zhs_resume_task now ad =
     (case current_task ad of
        None \<Rightarrow> (no_task, ad)
      | Some t \<Rightarrow>
          (if zt_status t = ''cancelled'' then ((''cancelled'', ''Task already cancelled''), ad)
           else if zt_status t = ''completed'' then ((''completed'', ''Task already completed''), ad)
           else ((''running'', ''Task resumed''),
                 zhs_put_task (t\<lparr>zt_paused := False, zt_status := ''running'', zt_message := ''Task resumed'', zt_updated := now\<rparr>) ad)))"

definition cancelled_task :: "string \<Rightarrow> int \<Rightarrow> ztask \<Rightarrow> ztask" where
  "cancelled_task message now t =
     t\<lparr>zt_cancelled := True, zt_paused := False, zt_status := ''cancelled'', zt_message := message, zt_updated := now\<rparr>"

definition zhs_cancel_task :: "int \<Rightarrow> adapter \<Rightarrow> answer_pair \<times> adapter" where
  "zhs_cancel_task now ad =
     (case current_task ad of
        None \<Rightarrow> (no_task, ad)
      | Some t \<Rightarrow> ((''cancelled'', ''Task cancelled''), zhs_put_task (cancelled_task ''Task cancelled'' now t) ad))"

definition cancel_task_by_id :: "string \<Rightarrow> int \<Rightarrow> adapter \<Rightarrow> answer_pair \<times> adapter" where
  "cancel_task_by_id tid now ad =
     (case map_of (ad_tasks ad) tid of
        None \<Rightarrow> ((''idle'', ''Task not found''), ad)
      | Some t \<Rightarrow> ((''cancelled'', ''Task cancelled''), zhs_put_task (cancelled_task ''Task cancelled'' now t) ad))"

definition logout :: "int \<Rightarrow> adapter \<Rightarrow> answer_pair \<times> adapter" where
  "logout now ad =
     ((''success'', ''Logout successful''),
      (case current_task ad of
         None \<Rightarrow> ad
       | Some t \<Rightarrow> zhs_put_task (cancelled_task ''Task cancelled by logout'' now t) ad)\<lparr>ad_logged_in := False, ad_answer := None\<rparr>)"

section \<open>Views\<close>

definition opt_str :: "string option \<Rightarrow> pyval" where
  "opt_str s = (case s of None \<Rightarrow> PNone | Some t \<Rightarrow> PStr t)"

text \<open>\<open>get_progress\<close>: the remaining seconds are \<open>int(remaining * 6 / max(speed, 0.1))\<close>\<close>

record progress =
  pg_id :: "string option"
  pg_course :: string
  pg_status :: string
  pg_message :: string
  pg_total :: nat
  pg_completed :: nat
  pg_failed :: nat
  pg_percent :: "nat \<times> nat"
  pg_current :: pyval
  pg_eta :: "string option"
  pg_paused :: bool

definition get_progress :: "string \<Rightarrow> adapter \<Rightarrow> progress" where
  "get_progress course_id ad =
     (case current_task ad of
        Some t \<Rightarrow>
          (if zt_course t \<noteq> course_id
           then \<lparr>pg_id = None, pg_course = course_id, pg_status = ''idle'', pg_message = ''No running task'', pg_total = 0,
                 pg_completed = 0, pg_failed = 0, pg_percent = (0, 0), pg_current = PNone, pg_eta = None, pg_paused = False\<rparr>
           else (let remaining = zt_total t - zt_completed t;
                     eta = trunc (of_nat (remaining * 6) / max (zt_speed t) (1/10))
                 in \<lparr>pg_id = Some (zt_id t), pg_course = zt_course t, pg_status = zt_status t, pg_message = zt_message t,
                     pg_total = zt_total t, pg_completed = zt_completed t, pg_failed = zt_failed t, pg_percent = zt_percent t,
                     pg_current = zt_current t, pg_eta = (if zt_status t = ''running'' then Some (int_str eta @ ''s'') else None),
                     pg_paused = zt_paused t\<rparr>))
      | None \<Rightarrow> \<lparr>pg_id = None, pg_course = course_id, pg_status = ''idle'', pg_message = ''No running task'', pg_total = 0,
                 pg_completed = 0, pg_failed = 0, pg_percent = (0, 0), pg_current = PNone, pg_eta = None, pg_paused = False\<rparr>)"

definition zhs_list_tasks :: "string option \<Rightarrow> string option \<Rightarrow> adapter \<Rightarrow> ztask list" where
  "zhs_list_tasks task_type course_id ad =
     sort_key (\<lambda>t. - zt_updated t)
       (filter (\<lambda>t. (end_given course_id \<longrightarrow> Some (zt_course t) = course_id))
         (filter (\<lambda>t. (end_given task_type \<longrightarrow> Some (zt_type t) = task_type)) (map snd (ad_tasks ad))))"

definition zhs_get_task :: "string \<Rightarrow> adapter \<Rightarrow> ztask option" where
  "zhs_get_task tid ad = map_of (ad_tasks ad) tid"

text \<open>\<open>get_status\<close>: logged in, the current task, its progress\<close>

definition zhs_get_status :: "adapter \<Rightarrow> bool \<times> ztask option \<times> progress option" where
  "zhs_get_status ad =
     (ad_logged_in ad, current_task ad, map_option (\<lambda>t. get_progress (zt_course t) ad) (current_task ad))"

text \<open>\<open>update_config\<close>: \<open>None\<close> is the exception of \<open>float\<close>\<close>

definition update_config :: "(pyval \<Rightarrow> rat option) \<Rightarrow> pydict \<Rightarrow> adapter \<Rightarrow> adapter option" where
  "update_config to_f update ad =
     (let speed = dget update ''speed''
      in case (if speed = PNone then Some (ad_speed ad) else map_option (\<lambda>f. if 0 < f then f else 1) (to_f speed)) of
           None \<Rightarrow> None
         | Some new_speed \<Rightarrow>
             (let auto_value = dget update ''auto_answer'';
                  payload = (if dget update ''ai_config'' = PNone \<and> is_dict (dget update ''ai'') then dget update ''ai''
                             else dget update ''ai_config'');
                  ai = dupdate (ad_ai ad) (the_dict payload)
              in Some (ad\<lparr>ad_speed := new_speed,
                          ad_auto := (if auto_value = PNone then ad_auto ad else truthy auto_value),
                          ad_proxies := (case dget update ''proxies'' of PDict p \<Rightarrow> p | _ \<Rightarrow> ad_proxies ad),
                          ad_ai := ai,
                          ad_answer := map_option (\<lambda>a. a\<lparr>an_enabled := PBool (truthy (dget_default ai ''enabled'' (PBool False))),
                             an_zhidao := truthy (dget_default ai ''use_zhidao_ai'' (PBool True)),
                             an_stream := truthy (dget_default ai ''use_stream'' (PBool True))\<rparr>) (ad_answer ad)\<rparr>)))"

text \<open>What the client asks while it plays\<close>

definition is_task_cancelled :: "string \<Rightarrow> adapter \<Rightarrow> bool" where
  "is_task_cancelled tid ad = (case current_task ad of None \<Rightarrow> False | Some t \<Rightarrow> zt_id t = tid \<and> zt_cancelled t)"

definition is_task_paused :: "string \<Rightarrow> adapter \<Rightarrow> bool" where
  "is_task_paused tid ad = (case current_task ad of None \<Rightarrow> False | Some t \<Rightarrow> zt_id t = tid \<and> zt_paused t)"

section \<open>The worker\<close>

text \<open>Phase 1 of a turn at the video \<open>i\<close>, under the lock\<close>

datatype phase1 = Leave | Wait_for_resume | Watch_video pydict rat bool

definition recompute_percentage :: "ztask \<Rightarrow> ztask" where
  "recompute_percentage t = t\<lparr>zt_percent := (zt_completed t, zt_total t)\<rparr>"

definition finish_message :: "ztask \<Rightarrow> string" where
  "finish_message t =
     (if zt_failed t = 0 then ''Task completed''
      else case filter truthy (map (\<lambda>v. dget v ''error'') (zt_videos t)) of
             [] \<Rightarrow> ''Task finished with failed videos''
           | e # _ \<Rightarrow> ''Task finished with failed videos: '' @ py_str e)"

definition finished_task :: "int \<Rightarrow> ztask \<Rightarrow> ztask" where
  "finished_task now t =
     recompute_percentage (t\<lparr>zt_status := (if zt_failed t = 0 then ''completed'' else ''error''),
       zt_message := finish_message t, zt_current := PNone, zt_updated := now\<rparr>)"

definition stop_cancelled :: "int \<Rightarrow> ztask \<Rightarrow> ztask" where
  "stop_cancelled now t = t\<lparr>zt_status := ''cancelled'', zt_message := ''Task cancelled'', zt_updated := now\<rparr>"

definition begin_video :: "nat \<Rightarrow> ztask \<Rightarrow> ztask" where
  "begin_video i t =
     (let v = dset ''progress'' (PInt 0) (dset ''status'' (PStr ''learning'') (zt_videos t ! i))
      in t\<lparr>zt_videos := (zt_videos t)[i := v], zt_current := dget v ''title'', zt_status := ''running'',
           zt_message := ''Task is running''\<rparr>)"

definition is_current :: "string \<Rightarrow> adapter \<Rightarrow> bool" where
  "is_current tid ad = (case current_task ad of None \<Rightarrow> False | Some t \<Rightarrow> zt_id t = tid)"

definition decide :: "string \<Rightarrow> nat \<Rightarrow> int \<Rightarrow> adapter \<Rightarrow> phase1 \<times> adapter" where
  "decide tid i now ad =
     (if \<not> is_current tid ad then (Leave, ad)
      else (let t = the (current_task ad)
            in if zt_cancelled t then (Leave, zhs_put_task (stop_cancelled now t) ad)
               else if length (zt_videos t) \<le> i then (Leave, zhs_put_task (finished_task now t) ad)
               else if zt_paused t then (Wait_for_resume, zhs_put_task (t\<lparr>zt_status := ''paused'', zt_updated := now\<rparr>) ad)
               else (let t' = begin_video i t
                     in (Watch_video (zt_videos t' ! i) (zt_speed t) (zt_auto t), zhs_put_task t' ad))))"

text \<open>After the video: does the worker go on?\<close>

definition still_wanted :: "string \<Rightarrow> int \<Rightarrow> adapter \<Rightarrow> bool \<times> adapter" where
  "still_wanted tid now ad =
     (if \<not> is_current tid ad then (False, ad)
      else (let t = the (current_task ad)
            in if zt_cancelled t then (False, zhs_put_task (stop_cancelled now t) ad) else (True, ad)))"

text \<open>What happened to a video: was it watched, and the text of the exception otherwise\<close>

type_synonym watch_result = "bool \<times> string option"

definition video_after :: "watch_result \<Rightarrow> pydict \<Rightarrow> pydict" where
  "video_after r v =
     (if fst r then dset ''progress'' (PInt 100) (dset ''status'' (PStr ''completed'') v)
      else (let w = dset ''status'' (PStr ''failed'') v
            in case snd r of None \<Rightarrow> w | Some e \<Rightarrow> if e = [] then w else dset ''error'' (PStr e) w))"

definition result_recorded :: "nat \<Rightarrow> watch_result \<Rightarrow> int \<Rightarrow> ztask \<Rightarrow> ztask" where
  "result_recorded i r now t =
     recompute_percentage (t\<lparr>
       zt_videos := (if i < length (zt_videos t) then (zt_videos t)[i := video_after r (zt_videos t ! i)] else zt_videos t),
       zt_completed := (if fst r then Suc (zt_completed t) else zt_completed t),
       zt_failed := (if fst r then zt_failed t else Suc (zt_failed t)), zt_updated := now\<rparr>)"

definition record_result :: "string \<Rightarrow> nat \<Rightarrow> watch_result \<Rightarrow> int \<Rightarrow> adapter \<Rightarrow> bool \<times> adapter" where
  "record_result tid i r now ad =
     (case still_wanted tid now ad of
        (False, ad') \<Rightarrow> (False, ad')
      | (True, ad') \<Rightarrow> (True, zhs_put_task (result_recorded i r now (the (current_task ad'))) ad'))"

text \<open>What the client does to the dictionary of the video it watches\<close>

definition store_video :: "string \<Rightarrow> nat \<Rightarrow> pydict \<Rightarrow> adapter \<Rightarrow> adapter" where
  "store_video tid i v ad =
     (case map_of (ad_tasks ad) tid of
        None \<Rightarrow> ad
      | Some t \<Rightarrow> zhs_put_task (t\<lparr>zt_videos := (zt_videos t)[i := v]\<rparr>) ad)"

end
