(* ===== verification/Zhs_System.thy ===== *)
theory Zhs_System
  imports Zhs_Tasks
begin

text \<open>
  The adapter and its workers as a transition system. A state is the adapter with the place each
  worker has reached; a step is one critical section of an operation or of a worker, or the return
  of a thread start or of the client. Whoever makes the next step is free, so the reachable states
  are those of every interleaving.
\<close>

section \<open>Steps\<close>

text \<open>Where a worker is: its thread is being started, it is about to decide, it plays, it is back\<close>

datatype worker_place = Starting | At_top nat | Playing nat | Back nat watch_result | Recording nat watch_result

record zsys =
  zs_ad :: adapter
  zs_workers :: "string \<Rightarrow> worker_place option"

definition zs_init :: "pydict \<Rightarrow> pydict \<Rightarrow> zsys" where
  "zs_init ai proxies = \<lparr>zs_ad = new_adapter ai proxies, zs_workers = (\<lambda>_. None)\<rparr>"

definition WATCH_KEYS :: "string list" where
  "WATCH_KEYS = [''learn_time_sec'', ''study_total_time'', ''watch_state'', ''answered_popup_questions'']"

text \<open>The client changes nothing else of a video\<close>

definition only_watched :: "pydict \<Rightarrow> pydict \<Rightarrow> bool" where
  "only_watched v v' \<longleftrightarrow> (\<forall>k. k \<notin> set WATCH_KEYS \<longrightarrow> dget v' k = dget v k)"

inductive zstep :: "zsys \<Rightarrow> zsys \<Rightarrow> bool" where
  login: "zstep s (s\<lparr>zs_ad := init_services (zs_ad s)\<rparr>)"
| admit: "zhs_admit_task (zhs_new_task tid now course speed auto_answer end_chapter videos) (zs_ad s) = Some ad
    \<Longrightarrow> tid \<notin> fst ` set (ad_tasks (zs_ad s)) \<Longrightarrow> zs_workers s tid = None
    \<Longrightarrow> zstep s \<lparr>zs_ad = ad, zs_workers = (if videos = [] then zs_workers s else (zs_workers s)(tid \<mapsto> Starting))\<rparr>"
| thread_ok: "zs_workers s tid = Some Starting \<Longrightarrow> zstep s (s\<lparr>zs_workers := (zs_workers s)(tid \<mapsto> At_top 0)\<rparr>)"
| thread_error: "zs_workers s tid = Some Starting
    \<Longrightarrow> zstep s \<lparr>zs_ad = mark_task_error tid thread_failure now (zs_ad s), zs_workers = (zs_workers s)(tid := None)\<rparr>"
| task_type: "zstep s (s\<lparr>zs_ad := set_task_type tid kind auto_answer now (zs_ad s)\<rparr>)"
| set_ai: "zstep s (s\<lparr>zs_ad := set_ai v w (zs_ad s)\<rparr>)"
| configure: "update_config to_f update (zs_ad s) = Some ad \<Longrightarrow> zstep s (s\<lparr>zs_ad := ad\<rparr>)"
| pause: "zstep s (s\<lparr>zs_ad := snd (zhs_pause_task now (zs_ad s))\<rparr>)"
| resume: "zstep s (s\<lparr>zs_ad := snd (zhs_resume_task now (zs_ad s))\<rparr>)"
| cancel: "zstep s (s\<lparr>zs_ad := snd (zhs_cancel_task now (zs_ad s))\<rparr>)"
| cancel_id: "zstep s (s\<lparr>zs_ad := snd (cancel_task_by_id tid now (zs_ad s))\<rparr>)"
| log_out: "zstep s (s\<lparr>zs_ad := snd (logout now (zs_ad s))\<rparr>)"
| decide: "zs_workers s tid = Some (At_top i) \<Longrightarrow> decide tid i now (zs_ad s) = (d, ad)
    \<Longrightarrow> zstep s \<lparr>zs_ad = ad, zs_workers = (zs_workers s)(tid := (case d of Leave \<Rightarrow> None
           | Wait_for_resume \<Rightarrow> Some (At_top i) | Watch_video v speed auto_answer \<Rightarrow> Some (Playing i)))\<rparr>"
| played: "zs_workers s tid = Some (Playing i) \<Longrightarrow> map_of (ad_tasks (zs_ad s)) tid = Some t
    \<Longrightarrow> only_watched (zt_videos t ! i) v \<Longrightarrow> (fst r \<longrightarrow> snd r = None)
    \<Longrightarrow> zstep s \<lparr>zs_ad = store_video tid i v (zs_ad s), zs_workers = (zs_workers s)(tid \<mapsto> Back i r)\<rparr>"
| return: "zs_workers s tid = Some (Back i r) \<Longrightarrow> still_wanted tid now (zs_ad s) = (wanted, ad)
    \<Longrightarrow> zstep s \<lparr>zs_ad = ad, zs_workers = (zs_workers s)(tid := (if wanted then Some (Recording i r) else None))\<rparr>"
| record_video: "zs_workers s tid = Some (Recording i r) \<Longrightarrow> record_result tid i r now (zs_ad s) = (wanted, ad)
    \<Longrightarrow> zstep s \<lparr>zs_ad = ad, zs_workers = (zs_workers s)(tid := (if wanted then Some (At_top (Suc i)) else None))\<rparr>"
| crash: "zs_workers s tid = Some p \<Longrightarrow> p \<noteq> Starting
    \<Longrightarrow> zstep s \<lparr>zs_ad = mark_task_error tid message now (zs_ad s), zs_workers = (zs_workers s)(tid := None)\<rparr>"

inductive zreach :: "zsys \<Rightarrow> bool" where
  init: "zreach (zs_init ai proxies)"
| step: "zreach s \<Longrightarrow> zstep s s' \<Longrightarrow> zreach s'"

section \<open>What holds of a task\<close>

definition video_done :: "pydict \<Rightarrow> bool" where
  "video_done v \<longleftrightarrow> dget v ''status'' = PStr ''completed''"

text \<open>The videos a worker has behind it\<close>

fun videos_behind :: "worker_place \<Rightarrow> nat" where
  "videos_behind Starting = 0"
| "videos_behind (At_top i) = i"
| "videos_behind (Playing i) = i"
| "videos_behind (Back i r) = i"
| "videos_behind (Recording i r) = i"

fun on_video :: "worker_place \<Rightarrow> bool" where
  "on_video (Playing i) = True"
| "on_video (Back i r) = True"
| "on_video (Recording i r) = True"
| "on_video _ = False"

definition behind_ok :: "nat \<Rightarrow> ztask \<Rightarrow> bool" where
  "behind_ok i t \<longleftrightarrow> i \<le> length (zt_videos t) \<and> zt_completed t + zt_failed t = i
     \<and> (zt_failed t = 0 \<longrightarrow> (\<forall>j < i. video_done (zt_videos t ! j)))"

definition worker_ok :: "worker_place option \<Rightarrow> ztask \<Rightarrow> bool" where
  "worker_ok w t = (case w of
     None \<Rightarrow> True
   | Some p \<Rightarrow> behind_ok (videos_behind p) t \<and> (on_video p \<longrightarrow> videos_behind p < length (zt_videos t))
       \<and> (\<not> zt_cancelled t \<longrightarrow> zt_status t \<in> {''running'', ''paused''}))"

definition completed_ok :: "ztask \<Rightarrow> bool" where
  "completed_ok t \<longleftrightarrow> (zt_status t = ''completed'' \<longrightarrow> \<not> zt_cancelled t \<and> zt_failed t = 0
     \<and> zt_completed t = length (zt_videos t) \<and> list_all video_done (zt_videos t))"

text \<open>
  The invariant: tasks are stored under their ids, a worker works on a stored task whose counters
  are those of the videos behind it, and the worker of a task that was replaced finds it cancelled.
\<close>

definition task_inv :: "worker_place option \<Rightarrow> bool \<Rightarrow> string \<Rightarrow> ztask \<Rightarrow> bool" where
  "task_inv w is_cur tid t \<longleftrightarrow> zt_id t = tid \<and> zt_total t = length (zt_videos t) \<and> worker_ok w t
     \<and> completed_ok t \<and> (w \<noteq> None \<and> \<not> is_cur \<longrightarrow> zt_cancelled t)"

definition task_of :: "adapter \<Rightarrow> string \<Rightarrow> ztask option" where
  "task_of ad tid = map_of (ad_tasks ad) tid"

definition zinv :: "zsys \<Rightarrow> bool" where
  "zinv s \<longleftrightarrow>
     (\<forall>tid t. task_of (zs_ad s) tid = Some t \<longrightarrow> task_inv (zs_workers s tid) (ad_current (zs_ad s) = Some tid) tid t)
     \<and> (\<forall>tid. zs_workers s tid \<noteq> None \<longrightarrow> task_of (zs_ad s) tid \<noteq> None)
     \<and> (\<forall>tid. ad_current (zs_ad s) = Some tid \<longrightarrow> task_of (zs_ad s) tid \<noteq> None)"

lemma task_of_put [simp]: "task_of (zhs_put_task t ad) = (task_of ad)(zt_id t \<mapsto> t)"
  by (auto simp: task_of_def zhs_put_task_def fun_eq_iff)

lemma current_put [simp]: "ad_current (zhs_put_task t ad) = ad_current ad"
  by (simp add: zhs_put_task_def)

lemma task_of_flags [simp]: "task_of (ad\<lparr>ad_logged_in := x, ad_answer := y\<rparr>) = task_of ad"
  by (simp add: task_of_def fun_eq_iff)

lemma zinv_init: "zinv (zs_init ai proxies)"
  by (simp add: zinv_def zs_init_def new_adapter_def task_of_def)

lemma task_of_cong: "ad_tasks a = ad_tasks b \<Longrightarrow> task_of a = task_of b"
  by (simp add: task_of_def fun_eq_iff)

lemma zinv_same:
  assumes "zinv s" and "ad_tasks ad = ad_tasks (zs_ad s)" and "ad_current ad = ad_current (zs_ad s)"
  shows "zinv (s\<lparr>zs_ad := ad\<rparr>)"
  using assms task_of_cong [OF assms(2)] by (simp add: zinv_def)

lemma zinv_worker:
  assumes "zinv s" and "\<And>t. task_of (zs_ad s) tid = Some t \<Longrightarrow> task_inv p (ad_current (zs_ad s) = Some tid) tid t"
    and "zs_workers s tid \<noteq> None"
  shows "zinv \<lparr>zs_ad = zs_ad s, zs_workers = (zs_workers s)(tid := p)\<rparr>"
  using assms unfolding zinv_def by auto

lemma zinv_put:
  assumes "zinv s" and "task_of (zs_ad s) tid \<noteq> None" and "task_inv p (ad_current (zs_ad s) = Some tid) tid t'"
  shows "zinv \<lparr>zs_ad = zhs_put_task t' (zs_ad s), zs_workers = (zs_workers s)(tid := p)\<rparr>"
proof -
  have "zt_id t' = tid" using assms(3) by (simp add: task_inv_def)
  then show ?thesis using assms unfolding zinv_def by auto
qed

lemma zinv_task:
  "zinv s \<Longrightarrow> task_of (zs_ad s) tid = Some t \<Longrightarrow> task_inv (zs_workers s tid) (ad_current (zs_ad s) = Some tid) tid t"
  by (simp add: zinv_def)

lemma zinv_current:
  assumes "zinv s" and "current_task (zs_ad s) = Some t"
  shows "ad_current (zs_ad s) = Some (zt_id t)" and "task_of (zs_ad s) (zt_id t) = Some t"
proof -
  obtain tid where "ad_current (zs_ad s) = Some tid" "task_of (zs_ad s) tid = Some t"
    using assms(2) by (auto simp: current_task_def task_of_def split: option.splits)
  moreover from zinv_task [OF assms(1) this(2)] have "zt_id t = tid" by (simp add: task_inv_def)
  ultimately show "ad_current (zs_ad s) = Some (zt_id t)" and "task_of (zs_ad s) (zt_id t) = Some t" by simp_all
qed

text \<open>A change of a task that keeps what the invariant reads of it\<close>

lemma zinv_change:
  assumes "zinv s" and "task_of (zs_ad s) tid = Some t" and "\<And>w c. task_inv w c tid t \<Longrightarrow> task_inv w c tid t'"
  shows "zinv (s\<lparr>zs_ad := zhs_put_task t' (zs_ad s)\<rparr>)"
proof -
  have "zinv \<lparr>zs_ad = zhs_put_task t' (zs_ad s), zs_workers = (zs_workers s)(tid := zs_workers s tid)\<rparr>"
    by (rule zinv_put [OF assms(1)]) (simp_all add: assms(2) assms(3) [OF zinv_task [OF assms(1,2)]])
  moreover have "s\<lparr>zs_ad := zhs_put_task t' (zs_ad s)\<rparr> = \<lparr>zs_ad = zhs_put_task t' (zs_ad s), zs_workers = zs_workers s\<rparr>"
    by (cases s) simp
  ultimately show ?thesis by (simp only: fun_upd_triv)
qed

lemmas task_inv_defs = task_inv_def worker_ok_def behind_ok_def completed_ok_def

lemma zinv_pause: "zinv s \<Longrightarrow> zinv (s\<lparr>zs_ad := snd (zhs_pause_task now (zs_ad s))\<rparr>)"
proof (cases "current_task (zs_ad s)")
  case (Some t)
  assume inv: "zinv s"
  have "zinv (s\<lparr>zs_ad := zhs_put_task (t\<lparr>zt_paused := True, zt_status := ''paused'', zt_message := ''Task paused'',
      zt_updated := now\<rparr>) (zs_ad s)\<rparr>)"
    by (rule zinv_change [OF inv zinv_current(2) [OF inv Some]]) (auto simp: task_inv_defs split: option.splits)
  then show ?thesis using Some inv by (auto simp: zhs_pause_task_def)
qed (simp add: zhs_pause_task_def)

lemma zinv_resume: "zinv s \<Longrightarrow> zinv (s\<lparr>zs_ad := snd (zhs_resume_task now (zs_ad s))\<rparr>)"
proof (cases "current_task (zs_ad s)")
  case (Some t)
  assume inv: "zinv s"
  have "zinv (s\<lparr>zs_ad := zhs_put_task (t\<lparr>zt_paused := False, zt_status := ''running'', zt_message := ''Task resumed'',
      zt_updated := now\<rparr>) (zs_ad s)\<rparr>)"
    by (rule zinv_change [OF inv zinv_current(2) [OF inv Some]]) (auto simp: task_inv_defs split: option.splits)
  then show ?thesis using Some inv by (auto simp: zhs_resume_task_def)
qed (simp add: zhs_resume_task_def)

lemma task_inv_cancelled: "task_inv w c tid t \<Longrightarrow> task_inv w c tid (cancelled_task m now t)"
  by (auto simp: cancelled_task_def task_inv_defs split: option.splits)

lemma zinv_cancel: "zinv s \<Longrightarrow> zinv (s\<lparr>zs_ad := snd (zhs_cancel_task now (zs_ad s))\<rparr>)"
  by (auto simp: zhs_cancel_task_def split: option.splits
      intro: zinv_change task_inv_cancelled dest: zinv_current(2))

lemma zinv_cancel_id: "zinv s \<Longrightarrow> zinv (s\<lparr>zs_ad := snd (cancel_task_by_id tid now (zs_ad s))\<rparr>)"
  by (auto simp: cancel_task_by_id_def split: option.splits
      intro!: zinv_change [of s tid] task_inv_cancelled simp: task_of_def)

lemma zinv_logout: "zinv s \<Longrightarrow> zinv (s\<lparr>zs_ad := snd (logout now (zs_ad s))\<rparr>)"
proof -
  assume inv: "zinv s"
  let ?ad = "case current_task (zs_ad s) of None \<Rightarrow> zs_ad s
    | Some t \<Rightarrow> zhs_put_task (cancelled_task ''Task cancelled by logout'' now t) (zs_ad s)"
  have "zinv (s\<lparr>zs_ad := ?ad\<rparr>)"
    using inv by (auto split: option.splits intro: zinv_change task_inv_cancelled dest: zinv_current(2))
  from zinv_same [OF this, of "snd (logout now (zs_ad s))"] show ?thesis
    by (simp add: logout_def)
qed

lemma zinv_set_type: "zinv s \<Longrightarrow> zinv (s\<lparr>zs_ad := set_task_type tid kind auto_answer now (zs_ad s)\<rparr>)"
  by (auto simp: set_task_type_def task_inv_defs split: option.splits intro!: zinv_change [of s tid] simp: task_of_def)

lemma task_inv_worker_gone: "task_inv w c tid t \<Longrightarrow> task_inv None c tid t"
  by (simp add: task_inv_def worker_ok_def)

lemma zinv_no_worker: "zinv s \<Longrightarrow> zinv \<lparr>zs_ad = zs_ad s, zs_workers = (zs_workers s)(tid := None)\<rparr>"
  unfolding zinv_def by (auto intro: task_inv_worker_gone)

lemma zinv_error:
  assumes "zinv s"
  shows "zinv \<lparr>zs_ad = mark_task_error tid message now (zs_ad s), zs_workers = (zs_workers s)(tid := None)\<rparr>"
proof (cases "task_of (zs_ad s) tid")
  case None
  then show ?thesis using zinv_no_worker [OF assms] by (simp add: mark_task_error_def task_of_def)
next
  case (Some t)
  have "task_inv None (ad_current (zs_ad s) = Some tid) tid (t\<lparr>zt_status := ''error'', zt_message := message, zt_updated := now\<rparr>)"
    using zinv_task [OF assms Some] by (simp add: task_inv_defs)
  from zinv_put [OF assms _ this] Some show ?thesis by (simp add: mark_task_error_def task_of_def)
qed

lemma not_busy_cancelled:
  assumes "zinv s" and "\<not> busy (zs_ad s)" and "zs_workers s tid \<noteq> None" and "task_of (zs_ad s) tid = Some t"
  shows "zt_cancelled t"
proof (rule ccontr)
  assume n: "\<not> zt_cancelled t"
  have inv: "task_inv (zs_workers s tid) (ad_current (zs_ad s) = Some tid) tid t" by (rule zinv_task [OF assms(1,4)])
  then have "ad_current (zs_ad s) = Some tid" using n assms(3) by (auto simp: task_inv_def)
  then have cur: "current_task (zs_ad s) = Some t" using assms(4) by (simp add: current_task_def task_of_def)
  have "zt_status t \<in> {''running'', ''paused''}" using inv n assms(3) by (auto simp: task_inv_def worker_ok_def)
  moreover have "py_lower (py_strip ''running'') = ''running''" "py_lower (py_strip ''paused'') = ''paused''" by code_simp+
  ultimately have "is_active t" by (auto simp: is_active_def ZHS_ACTIVE_STATUSES_def)
  then show False using assms(2) cur by (simp add: busy_def)
qed

lemma zinv_admit:
  assumes inv: "zinv s" and admit: "zhs_admit_task (zhs_new_task tid now course speed auto_answer end_chapter videos) (zs_ad s) = Some ad"
    and fresh: "tid \<notin> fst ` set (ad_tasks (zs_ad s))" and idle: "zs_workers s tid = None"
  shows "zinv \<lparr>zs_ad = ad, zs_workers = (if videos = [] then zs_workers s else (zs_workers s)(tid \<mapsto> Starting))\<rparr>"
proof -
  let ?t = "zhs_new_task tid now course speed auto_answer end_chapter videos"
  have nb: "\<not> busy (zs_ad s)" and tasks: "task_of ad = (task_of (zs_ad s))(tid \<mapsto> ?t)" and cur: "ad_current ad = Some tid"
    using admit by (auto simp: zhs_admit_task_def task_of_def zhs_put_task_def zhs_new_task_def fun_eq_iff split: if_splits)
  have none: "task_of (zs_ad s) tid = None" using fresh by (simp add: task_of_def map_of_eq_None_iff)
  have new: "task_inv (if videos = [] then None else Some Starting) True tid ?t"
    by (auto simp: zhs_new_task_def task_inv_defs)
  have old: "task_inv (zs_workers s tid') False tid' t" if "task_of (zs_ad s) tid' = Some t" for tid' t
    using zinv_task [OF inv that] not_busy_cancelled [OF inv nb _ that] by (auto simp: task_inv_def)
  show ?thesis
    using inv new old none idle unfolding zinv_def by (auto simp: tasks cur)
qed

lemma current_task_same: "is_current tid (zs_ad s) \<Longrightarrow> zinv s \<Longrightarrow>
    \<exists>t. current_task (zs_ad s) = Some t \<and> task_of (zs_ad s) tid = Some t \<and> zt_id t = tid \<and> ad_current (zs_ad s) = Some tid"
  using zinv_current [of s] by (fastforce simp: is_current_def split: option.splits)

lemma zinv_decide:
  assumes inv: "zinv s" and w: "zs_workers s tid = Some (At_top i)" and d: "decide tid i now (zs_ad s) = (d, ad)"
  shows "zinv \<lparr>zs_ad = ad, zs_workers = (zs_workers s)(tid := (case d of Leave \<Rightarrow> None
           | Wait_for_resume \<Rightarrow> Some (At_top i) | Watch_video v speed auto_answer \<Rightarrow> Some (Playing i)))\<rparr>"
proof (cases "is_current tid (zs_ad s)")
  case False
  then show ?thesis using d zinv_no_worker [OF inv] by (auto simp: decide_def)
next
  case True
  then obtain t where cur: "current_task (zs_ad s) = Some t" and t: "task_of (zs_ad s) tid = Some t"
    and c: "ad_current (zs_ad s) = Some tid" using current_task_same [OF True inv] by blast
  have ti: "task_inv (Some (At_top i)) True tid t" using zinv_task [OF inv t] w c by simp
  have put: "zinv \<lparr>zs_ad = zhs_put_task t' (zs_ad s), zs_workers = (zs_workers s)(tid := p)\<rparr>"
    if "task_inv p True tid t'" for t' p
    using zinv_put [OF inv, of tid p t'] t c that by simp
  consider "zt_cancelled t" | "\<not> zt_cancelled t" "length (zt_videos t) \<le> i"
    | "\<not> zt_cancelled t" "i < length (zt_videos t)" "zt_paused t"
    | "\<not> zt_cancelled t" "i < length (zt_videos t)" "\<not> zt_paused t" by linarith
  then show ?thesis
  proof cases
    case 1
    then have "d = Leave" "ad = zhs_put_task (stop_cancelled now t) (zs_ad s)" using d True cur by (simp_all add: decide_def Let_def)
    moreover have "task_inv None True tid (stop_cancelled now t)" using ti by (simp add: stop_cancelled_def task_inv_defs)
    ultimately show ?thesis using put by simp
  next
    case 2
    then have "d = Leave" "ad = zhs_put_task (finished_task now t) (zs_ad s)" using d True cur by (simp_all add: decide_def Let_def)
    moreover have "task_inv None True tid (finished_task now t)"
      using ti 2 by (auto simp: finished_task_def recompute_percentage_def task_inv_defs list_all_length)
    ultimately show ?thesis using put by simp
  next
    case 3
    then have "d = Wait_for_resume" "ad = zhs_put_task (t\<lparr>zt_status := ''paused'', zt_updated := now\<rparr>) (zs_ad s)"
      using d True cur by (simp_all add: decide_def Let_def)
    moreover have "task_inv (Some (At_top i)) True tid (t\<lparr>zt_status := ''paused'', zt_updated := now\<rparr>)"
      using ti by (simp add: task_inv_defs)
    ultimately show ?thesis using put by simp
  next
    case 4
    then obtain v sp au where "d = Watch_video v sp au" "ad = zhs_put_task (begin_video i t) (zs_ad s)"
      using d True cur by (auto simp: decide_def Let_def)
    moreover have "task_inv (Some (Playing i)) True tid (begin_video i t)"
      using ti 4 by (auto simp: begin_video_def task_inv_defs Let_def)
    ultimately show ?thesis using put by simp
  qed
qed

lemma zinv_played:
  assumes inv: "zinv s" and w: "zs_workers s tid = Some (Playing i)" and m: "map_of (ad_tasks (zs_ad s)) tid = Some t"
  shows "zinv \<lparr>zs_ad = store_video tid i v (zs_ad s), zs_workers = (zs_workers s)(tid \<mapsto> Back i r)\<rparr>"
proof -
  have t: "task_of (zs_ad s) tid = Some t" using m by (simp add: task_of_def)
  have "task_inv (Some (Back i r)) (ad_current (zs_ad s) = Some tid) tid (t\<lparr>zt_videos := (zt_videos t)[i := v]\<rparr>)"
    using zinv_task [OF inv t] w by (auto simp: task_inv_defs)
  from zinv_put [OF inv _ this] t m show ?thesis by (simp add: store_video_def)
qed

lemma still_wanted_cases:
  assumes inv: "zinv s" and w: "still_wanted tid now (zs_ad s) = (wanted, ad)"
  obtains "\<not> wanted" "ad = zs_ad s"
  | t where "\<not> wanted" "zt_cancelled t" "ad = zhs_put_task (stop_cancelled now t) (zs_ad s)" "task_of (zs_ad s) tid = Some t"
  | t where "wanted" "\<not> zt_cancelled t" "ad = zs_ad s" "task_of (zs_ad s) tid = Some t" "current_task (zs_ad s) = Some t"
      "ad_current (zs_ad s) = Some tid"
proof (cases "is_current tid (zs_ad s)")
  case False
  then show ?thesis using w that(1) by (simp add: still_wanted_def)
next
  case True
  then obtain t where "current_task (zs_ad s) = Some t" "task_of (zs_ad s) tid = Some t" "ad_current (zs_ad s) = Some tid"
    using current_task_same [OF True inv] by blast
  then show ?thesis using True w that(2,3) [of t] by (cases "zt_cancelled t") (auto simp: still_wanted_def)
qed

lemma task_inv_stopped: "task_inv w c tid t \<Longrightarrow> zt_cancelled t \<Longrightarrow> task_inv None c tid (stop_cancelled now t)"
  by (simp add: stop_cancelled_def task_inv_defs)

lemma zinv_stopped:
  assumes "zinv s" and "task_of (zs_ad s) tid = Some t" and "zt_cancelled t"
  shows "zinv \<lparr>zs_ad = zhs_put_task (stop_cancelled now t) (zs_ad s), zs_workers = (zs_workers s)(tid := None)\<rparr>"
  using zinv_put [OF assms(1) _ task_inv_stopped [OF zinv_task [OF assms(1,2)] assms(3)]] assms(2) by simp

lemma zinv_return:
  assumes inv: "zinv s" and w: "zs_workers s tid = Some (Back i r)" and st: "still_wanted tid now (zs_ad s) = (wanted, ad)"
  shows "zinv \<lparr>zs_ad = ad, zs_workers = (zs_workers s)(tid := (if wanted then Some (Recording i r) else None))\<rparr>"
  using inv st
proof (cases rule: still_wanted_cases)
  case 1
  then show ?thesis using zinv_no_worker [OF inv] by simp
next
  case (2 t)
  then show ?thesis using zinv_stopped [OF inv] by simp
next
  case (3 t)
  have "task_inv (Some (Recording i r)) (ad_current (zs_ad s) = Some tid) tid t'" if "task_of (zs_ad s) tid = Some t'" for t'
    using zinv_task [OF inv that] w by (simp add: task_inv_defs)
  from zinv_worker [OF inv this] 3 w show ?thesis by simp
qed

lemma video_after_done: "video_done (video_after (True, e) v)"
  by (simp add: video_after_def video_done_def)

lemma zinv_record:
  assumes inv: "zinv s" and w: "zs_workers s tid = Some (Recording i r)" and rec: "record_result tid i r now (zs_ad s) = (wanted, ad)"
  shows "zinv \<lparr>zs_ad = ad, zs_workers = (zs_workers s)(tid := (if wanted then Some (At_top (Suc i)) else None))\<rparr>"
proof -
  obtain wanted1 ad1 where st: "still_wanted tid now (zs_ad s) = (wanted1, ad1)" by (metis surj_pair)
  from inv st show ?thesis
  proof (cases rule: still_wanted_cases)
    case 1
    then show ?thesis using zinv_no_worker [OF inv] rec st by (auto simp: record_result_def)
  next
    case (2 t)
    then show ?thesis using zinv_stopped [OF inv] rec st by (auto simp: record_result_def)
  next
    case (3 t)
    have res: "wanted" "ad = zhs_put_task (result_recorded i r now t) (zs_ad s)"
      using rec st 3 by (simp_all add: record_result_def)
    have "task_inv (Some (Recording i r)) True tid t" using zinv_task [OF inv 3(4)] w 3(6) by simp
    then have "task_inv (Some (At_top (Suc i))) True tid (result_recorded i r now t)"
      using 3(2) video_after_done [of "snd r"]
      by (cases r) (auto simp: result_recorded_def recompute_percentage_def task_inv_defs nth_list_update less_Suc_eq)
    then have "task_inv (Some (At_top (Suc i))) (ad_current (zs_ad s) = Some tid) tid (result_recorded i r now t)"
      using 3(6) by simp
    from zinv_put [OF inv _ this] show ?thesis using res 3 by simp
  qed
qed

lemma zstep_zinv: "zstep s s' \<Longrightarrow> zinv s \<Longrightarrow> zinv s'"
proof (induction rule: zstep.induct)
  case (configure to_f update s ad)
  then show ?case by (auto simp: update_config_def Let_def split: option.splits intro!: zinv_same)
next
  case (thread_ok s tid)
  have "task_inv (Some (At_top 0)) c tid t" if "task_inv (Some Starting) c tid t" for c t
    using that by (auto simp: task_inv_defs)
  with thread_ok have "zinv \<lparr>zs_ad = zs_ad s, zs_workers = (zs_workers s)(tid \<mapsto> At_top 0)\<rparr>"
    by (intro zinv_worker) (auto dest: zinv_task)
  then show ?case by (cases s) simp
next
  case (admit tid now course speed auto_answer end_chapter videos s ad)
  then show ?case by (intro zinv_admit)
next
  case (return s tid i r now wanted ad)
  then show ?case by (intro zinv_return)
next
  case (record_video s tid i r now wanted ad)
  then show ?case by (intro zinv_record)
qed (auto intro: zinv_error zinv_set_type zinv_pause zinv_resume zinv_cancel zinv_cancel_id zinv_logout
      zinv_decide zinv_played zinv_same simp: init_services_def set_ai_def)

lemma zreach_zinv: "zreach s \<Longrightarrow> zinv s"
  by (induction rule: zreach.induct) (auto intro: zinv_init zstep_zinv)

section \<open>Properties\<close>

text \<open>
  C30: At most one task at a time is worked on: of two tasks with a worker, one has been cancelled
  and its worker will stop. This holds however the operations and the workers interleave.
\<close>

theorem one_task_at_a_time:
  assumes "zreach s" and "zs_workers s a \<noteq> None" and "zs_workers s b \<noteq> None" and "a \<noteq> b"
  shows "\<exists>tid t. (tid = a \<or> tid = b) \<and> map_of (ad_tasks (zs_ad s)) tid = Some t \<and> zt_cancelled t"
proof -
  have inv: "zinv s" using assms(1) by (rule zreach_zinv)
  obtain ta tb where t: "task_of (zs_ad s) a = Some ta" "task_of (zs_ad s) b = Some tb"
    using inv assms(2,3) unfolding zinv_def by blast
  have "zt_cancelled ta \<or> zt_cancelled tb"
    using zinv_task [OF inv t(1)] zinv_task [OF inv t(2)] assms(2-4) by (auto simp: task_inv_def)
  then show ?thesis using t unfolding task_of_def by blast
qed

text \<open>
  C31: A task that says it is completed has watched all its videos: none failed, the counter is their
  number, each video is marked as completed, and nobody cancelled the task.
\<close>

theorem completed_task_watched_all:
  assumes "zreach s" and "map_of (ad_tasks (zs_ad s)) tid = Some t" and "zt_status t = ''completed''"
  shows "zt_failed t = 0 \<and> zt_completed t = length (zt_videos t) \<and> list_all video_done (zt_videos t) \<and> \<not> zt_cancelled t"
  using zinv_task [OF zreach_zinv [OF assms(1)], of tid t] assms(2,3)
  by (simp add: task_of_def task_inv_def completed_ok_def)

text \<open>What may happen to a cancelled task\<close>

definition frozen :: "ztask \<Rightarrow> ztask \<Rightarrow> bool" where
  "frozen t t' \<longleftrightarrow> (zt_cancelled t \<longrightarrow> zt_cancelled t' \<and> zt_completed t' = zt_completed t \<and> zt_failed t' = zt_failed t
     \<and> map (\<lambda>v. dget v ''status'') (zt_videos t') = map (\<lambda>v. dget v ''status'') (zt_videos t))"

lemma frozen_refl [simp]: "frozen t t"
  by (simp add: frozen_def)

lemma frozen_put:
  assumes "task_of ad tid = Some t" and "task_of ad (zt_id t') = Some u" and "frozen u t'"
  shows "\<exists>t1. task_of (zhs_put_task t' ad) tid = Some t1 \<and> frozen t t1"
  using assms by auto

lemma frozen_current:
  assumes "zinv s" and "current_task (zs_ad s) = Some u" and "zt_id t' = zt_id u" and "frozen u t'"
    and "task_of (zs_ad s) tid = Some t"
  shows "\<exists>t1. task_of (zhs_put_task t' (zs_ad s)) tid = Some t1 \<and> frozen t t1"
  by (rule frozen_put [OF assms(5)]) (use zinv_current [OF assms(1,2)] assms(3,4) in simp_all)

lemma frozen_task:
  assumes "zinv s" and "task_of (zs_ad s) k = Some u" and "zt_id t' = zt_id u" and "frozen u t'"
    and "task_of (zs_ad s) tid = Some t"
  shows "\<exists>t1. task_of (zhs_put_task t' (zs_ad s)) tid = Some t1 \<and> frozen t t1"
proof (rule frozen_put [OF assms(5)])
  have "zt_id u = k" using zinv_task [OF assms(1,2)] by (simp add: task_inv_def)
  then show "task_of (zs_ad s) (zt_id t') = Some u" using assms(2,3) by simp
qed (rule assms(4))

lemma frozen_uncancelled: "\<not> zt_cancelled u \<Longrightarrow> frozen u t'"
  by (simp add: frozen_def)

lemma frozen_decide:
  assumes "zinv s" and "decide k i now (zs_ad s) = (d, ad)" and "task_of (zs_ad s) tid = Some t"
  shows "\<exists>t'. task_of ad tid = Some t' \<and> frozen t t'"
proof (cases "is_current k (zs_ad s)")
  case False
  then show ?thesis using assms by (simp add: decide_def)
next
  case True
  then obtain u where u: "current_task (zs_ad s) = Some u" using current_task_same [OF True assms(1)] by blast
  have "\<exists>t'. ad = zhs_put_task t' (zs_ad s) \<and> zt_id t' = zt_id u \<and> frozen u t'"
  proof (cases "zt_cancelled u")
    case True
    then have "ad = zhs_put_task (stop_cancelled now u) (zs_ad s)"
      using assms(2) u \<open>is_current k (zs_ad s)\<close> by (simp add: decide_def Let_def)
    then show ?thesis by (intro exI [of _ "stop_cancelled now u"]) (simp add: frozen_def stop_cancelled_def)
  next
    case False
    then show ?thesis
      using assms(2) u True
      by (auto simp: decide_def Let_def finished_task_def recompute_percentage_def begin_video_def
          intro!: exI frozen_uncancelled split: if_splits)
  qed
  then show ?thesis using frozen_current [OF assms(1) u _ _ assms(3)] by blast
qed

lemma frozen_wanted:
  assumes "zinv s" and "still_wanted k now (zs_ad s) = (wanted, ad)" and "task_of (zs_ad s) tid = Some t"
  shows "\<exists>t'. task_of ad tid = Some t' \<and> frozen t t'"
  using assms(1,2)
proof (cases rule: still_wanted_cases)
  case (2 u)
  then show ?thesis
    using frozen_task [OF assms(1) 2(4) _ _ assms(3), of "stop_cancelled now u"]
    by (simp add: frozen_def stop_cancelled_def del: task_of_put)
qed (use assms(3) in auto)

lemma frozen_record:
  assumes "zinv s" and "record_result k i r now (zs_ad s) = (wanted, ad)" and "task_of (zs_ad s) tid = Some t"
  shows "\<exists>t'. task_of ad tid = Some t' \<and> frozen t t'"
proof -
  obtain wanted1 ad1 where st: "still_wanted k now (zs_ad s) = (wanted1, ad1)" by (metis surj_pair)
  from assms(1) st show ?thesis
  proof (cases rule: still_wanted_cases)
    case (3 u)
    have "frozen u (result_recorded i r now u)" using 3 by (simp add: frozen_def)
    moreover have "zt_id (result_recorded i r now u) = zt_id u"
      by (simp add: result_recorded_def recompute_percentage_def)
    ultimately show ?thesis
      using frozen_current [OF assms(1) 3(5) _ _ assms(3), of "result_recorded i r now u"] assms(2) st 3
      by (simp add: record_result_def del: task_of_put)
  qed (use assms(2) st frozen_wanted [OF assms(1) st assms(3)] in \<open>simp_all add: record_result_def\<close>)
qed

lemma frozen_error:
  assumes "zinv s" and "task_of (zs_ad s) tid = Some t"
  shows "\<exists>t'. task_of (mark_task_error k m now (zs_ad s)) tid = Some t' \<and> frozen t t'"
proof (cases "map_of (ad_tasks (zs_ad s)) k")
  case (Some u)
  then show ?thesis
    using frozen_task [OF assms(1) _ _ _ assms(2), of k u "u\<lparr>zt_status := ''error'', zt_message := m, zt_updated := now\<rparr>"]
    by (simp add: mark_task_error_def task_of_def frozen_def)
qed (use assms(2) in \<open>simp add: mark_task_error_def\<close>)

lemma frozen_store:
  assumes "zinv s" and "map_of (ad_tasks (zs_ad s)) k = Some u" and "only_watched (zt_videos u ! i) v"
    and "task_of (zs_ad s) tid = Some t"
  shows "\<exists>t'. task_of (store_video k i v (zs_ad s)) tid = Some t' \<and> frozen t t'"
proof -
  have "dget v ''status'' = dget (zt_videos u ! i) ''status''"
    using assms(3) by (simp add: only_watched_def WATCH_KEYS_def)
  then have "map (\<lambda>v. dget v ''status'') ((zt_videos u)[i := v]) = map (\<lambda>v. dget v ''status'') (zt_videos u)"
    by (cases "i < length (zt_videos u)") (simp_all add: map_update list_update_beyond list_update_same_conv)
  then show ?thesis
    using frozen_task [OF assms(1) _ _ _ assms(4), of k u "u\<lparr>zt_videos := (zt_videos u)[i := v]\<rparr>"] assms(2)
    by (simp add: store_video_def task_of_def frozen_def)
qed

lemma frozen_controls:
  assumes "zinv s" and "task_of (zs_ad s) tid = Some t"
  shows "\<exists>t'. task_of (snd (zhs_pause_task now (zs_ad s))) tid = Some t' \<and> frozen t t'"
    and "\<exists>t'. task_of (snd (zhs_resume_task now (zs_ad s))) tid = Some t' \<and> frozen t t'"
    and "\<exists>t'. task_of (snd (zhs_cancel_task now (zs_ad s))) tid = Some t' \<and> frozen t t'"
  using assms
  by (auto simp: zhs_pause_task_def zhs_resume_task_def zhs_cancel_task_def cancelled_task_def frozen_def split: option.splits if_splits
      intro!: frozen_current [OF assms(1) _ _ _ assms(2), unfolded frozen_def] simp del: task_of_put)

lemma frozen_by_id:
  assumes "zinv s" and "task_of (zs_ad s) tid = Some t"
  shows "\<exists>t'. task_of (snd (cancel_task_by_id k now (zs_ad s))) tid = Some t' \<and> frozen t t'"
    and "\<exists>t'. task_of (set_task_type k kind auto_answer now (zs_ad s)) tid = Some t' \<and> frozen t t'"
proof -
  show "\<exists>t'. task_of (snd (cancel_task_by_id k now (zs_ad s))) tid = Some t' \<and> frozen t t'"
  proof (cases "map_of (ad_tasks (zs_ad s)) k")
    case (Some u)
    then show ?thesis
      using frozen_task [OF assms(1) _ _ _ assms(2), of k u "cancelled_task ''Task cancelled'' now u"]
      by (simp add: cancel_task_by_id_def task_of_def frozen_def cancelled_task_def)
  qed (use assms(2) in \<open>simp add: cancel_task_by_id_def\<close>)
  show "\<exists>t'. task_of (set_task_type k kind auto_answer now (zs_ad s)) tid = Some t' \<and> frozen t t'"
  proof (cases "map_of (ad_tasks (zs_ad s)) k")
    case (Some u)
    then show ?thesis
      using frozen_task [OF assms(1) _ _ _ assms(2), of k u "u\<lparr>zt_type := kind, zt_auto := auto_answer, zt_updated := now\<rparr>"]
      by (simp add: set_task_type_def task_of_def frozen_def)
  qed (use assms(2) in \<open>simp add: set_task_type_def\<close>)
qed

lemma frozen_logout:
  assumes "zinv s" and "task_of (zs_ad s) tid = Some t"
  shows "\<exists>t'. task_of (snd (logout now (zs_ad s))) tid = Some t' \<and> frozen t t'"
proof (cases "current_task (zs_ad s)")
  case (Some u)
  then show ?thesis
    using frozen_current [OF assms(1) Some _ _ assms(2), of "cancelled_task ''Task cancelled by logout'' now u"]
    by (simp add: logout_def frozen_def cancelled_task_def)
qed (use assms(2) in \<open>simp add: logout_def\<close>)

lemma zstep_frozen:
  assumes "zstep s s'" and "zinv s" and "task_of (zs_ad s) tid = Some t"
  shows "\<exists>t'. task_of (zs_ad s') tid = Some t' \<and> frozen t t'"
  using assms
proof (induction rule: zstep.induct)
  case (admit k now course speed auto_answer end_chapter videos s ad)
  have "task_of (zs_ad s) k = None" using admit.hyps(2) by (simp add: task_of_def map_of_eq_None_iff)
  then have "k \<noteq> tid" using admit.prems(2) by auto
  then show ?case using admit
    by (auto simp: zhs_admit_task_def task_of_def zhs_put_task_def zhs_new_task_def split: if_splits)
next
  case (configure to_f update s ad)
  then show ?case by (auto simp: update_config_def task_of_def Let_def split: option.splits)
next
  case (decide s k i now d ad)
  then show ?case using frozen_decide by simp
next
  case (played s k i u v r)
  then show ?case using frozen_store by simp
next
  case (return s k i r now wanted ad)
  then show ?case using frozen_wanted by simp
next
  case (record_video s k i r now wanted ad)
  then show ?case using frozen_record by simp
qed (auto simp: frozen_controls frozen_by_id frozen_logout frozen_error, auto simp: init_services_def set_ai_def task_of_def)


section \<open>Runs\<close>

definition demo_task :: ztask where
  "demo_task = zhs_new_task ''t'' 0 ''c'' 1 True None [[(''title'', PStr ''v'')]]"

definition demo_ad :: "ztask \<Rightarrow> adapter" where
  "demo_ad t = \<lparr>ad_logged_in = False, ad_current = Some ''t'', ad_tasks = [(''t'', t)], ad_speed = 1, ad_auto = True,
     ad_ai = [(''enabled'', PBool False)], ad_proxies = [], ad_answer = None\<rparr>"

definition demo_sys :: "ztask \<Rightarrow> worker_place option \<Rightarrow> zsys" where
  "demo_sys t p = \<lparr>zs_ad = demo_ad t, zs_workers = (\<lambda>_. None)(''t'' := p)\<rparr>"

lemma put_demo [simp]: "zt_id t' = ''t'' \<Longrightarrow> zhs_put_task t' (demo_ad t) = demo_ad t'"
  by (simp add: zhs_put_task_def demo_ad_def)

lemma current_demo [simp]: "current_task (demo_ad t) = Some t" "map_of (ad_tasks (demo_ad t)) ''t'' = Some t"
  by (simp_all add: current_task_def demo_ad_def)

lemma demo_started: "zreach (demo_sys demo_task (Some Starting))"
proof -
  have "zhs_admit_task (zhs_new_task ''t'' 0 ''c'' 1 True None [[(''title'', PStr ''v'')]]) (zs_ad (zs_init [] [])) = Some (demo_ad demo_task)"
    by (simp add: zhs_admit_task_def busy_def current_task_def zs_init_def new_adapter_def demo_ad_def demo_task_def zhs_put_task_def
        zhs_new_task_def)
  from zstep.admit [OF this] have "zstep (zs_init [] []) (demo_sys demo_task (Some Starting))"
    by (simp add: zs_init_def new_adapter_def demo_sys_def)
  then show ?thesis by (rule zreach.step [OF zreach.init])
qed

lemma demo_id: "zt_id demo_task = ''t''" "zt_cancelled demo_task = False" "zt_status demo_task = ''running''"
  "zt_videos demo_task = [[(''title'', PStr ''v'')]]" "zt_completed demo_task = 0" "zt_failed demo_task = 0"
  "zt_paused demo_task = False"
  by (simp_all add: demo_task_def zhs_new_task_def)

text \<open>
  A task whose thread could not be started has ended in an error. It can be paused all the same, and
  is then active for good, with no worker: every further start is refused.
\<close>

lemma failed_task_paused:
  "\<exists>s. zreach s \<and> (\<forall>tid. zs_workers s tid = None) \<and> busy (zs_ad s)
     \<and> (\<forall>t. zhs_admit_task t (zs_ad s) = None)"
proof -
  let ?e = "demo_task\<lparr>zt_status := ''error'', zt_message := thread_failure, zt_updated := 0\<rparr>"
  let ?p = "?e\<lparr>zt_paused := True, zt_status := ''paused'', zt_message := ''Task paused'', zt_updated := 0\<rparr>"
  have "zstep (demo_sys demo_task (Some Starting)) (demo_sys ?e None)"
    using zstep.thread_error [of "demo_sys demo_task (Some Starting)" "''t''" 0]
    by (simp add: demo_sys_def mark_task_error_def demo_id)
  moreover have "zstep (demo_sys ?e None) (demo_sys ?p None)"
    using zstep.pause [of "demo_sys ?e None" 0] by (simp add: demo_sys_def zhs_pause_task_def demo_id)
  ultimately have r: "zreach (demo_sys ?p None)" using demo_started zreach.step by blast
  have "py_lower (py_strip ''paused'') = ''paused''" by code_simp
  then have b: "busy (zs_ad (demo_sys ?p None))"
    by (simp add: busy_def demo_sys_def is_active_def ZHS_ACTIVE_STATUSES_def)
  have "zs_workers (demo_sys ?p None) tid = None" for tid by (simp add: demo_sys_def)
  then show ?thesis using r b by (intro exI [of _ "demo_sys ?p None"]) (simp add: zhs_admit_task_def)
qed

definition demo_cancelled :: ztask where
  "demo_cancelled = cancelled_task ''Task cancelled'' 0 demo_task"

lemma demo_cancelled_reached: "zreach (demo_sys demo_cancelled (Some Starting))"
proof -
  have "zstep (demo_sys demo_task (Some Starting)) (demo_sys demo_cancelled (Some Starting))"
    using zstep.cancel [of "demo_sys demo_task (Some Starting)" 0]
    by (simp add: demo_sys_def zhs_cancel_task_def demo_cancelled_def cancelled_task_def demo_id)
  then show ?thesis using demo_started zreach.step by blast
qed


theorem one_task_at_a_time_witness:
  "\<exists>(s :: zsys) tid t. zs_workers s ''t'' \<noteq> None \<and> zs_workers s ''u'' \<noteq> None \<and> map_of (ad_tasks (zs_ad s)) tid = Some t \<and> zt_cancelled t"
proof -
  let ?s = "demo_sys demo_cancelled (Some Starting)"
  let ?t = "zhs_new_task ''u'' 0 ''c'' 1 True None [[]]"
  have "py_lower (py_strip ''cancelled'') \<notin> set ZHS_ACTIVE_STATUSES" by code_simp
  then obtain ad where ad: "zhs_admit_task ?t (zs_ad ?s) = Some ad"
    by (simp add: zhs_admit_task_def busy_def demo_sys_def is_active_def demo_cancelled_def cancelled_task_def)
  have st: "zstep ?s \<lparr>zs_ad = ad, zs_workers = (zs_workers ?s)(''u'' \<mapsto> Starting)\<rparr>"
    using zstep.admit [OF ad] by (simp add: demo_sys_def demo_ad_def)
  let ?z = "\<lparr>zs_ad = ad, zs_workers = (zs_workers ?s)(''u'' \<mapsto> Starting)\<rparr>"
  have w: "zs_workers ?z ''t'' \<noteq> None" "zs_workers ?z ''u'' \<noteq> None" by (simp_all add: demo_sys_def)
  have "zreach ?z" by (rule zreach.step [OF demo_cancelled_reached st])
  moreover have "''t'' \<noteq> ''u''" by simp
  ultimately obtain tid t where "map_of (ad_tasks (zs_ad ?z)) tid = Some t" "zt_cancelled t"
    using one_task_at_a_time [OF _ w] by blast
  with w show ?thesis by blast
qed

definition demo_watching :: ztask where "demo_watching = begin_video 0 demo_task"

definition demo_watched_task :: ztask where
  "demo_watched_task = result_recorded 0 (True, None) 0 demo_watching"

lemma demo_ids [simp]: "zt_id demo_watching = ''t''" "zt_id demo_watched_task = ''t''"
  "\<not> zt_cancelled demo_watching" "\<not> zt_cancelled demo_watched_task" "zt_failed demo_watched_task = 0"
  "length (zt_videos demo_watched_task) = 1" "zt_id (finished_task 0 demo_watched_task) = ''t''"
  by (simp_all add: demo_watching_def demo_watched_task_def begin_video_def result_recorded_def recompute_percentage_def
      finished_task_def demo_id Let_def)

lemma is_current_demo [simp]: "zt_id t = ''t'' \<Longrightarrow> is_current ''t'' (demo_ad t)"
  by (simp add: is_current_def)

lemma demo_completed: "zreach (demo_sys (finished_task 0 demo_watched_task) None)"
proof -
  have "zstep (demo_sys demo_task (Some Starting)) (demo_sys demo_task (Some (At_top 0)))"
    using zstep.thread_ok [of "demo_sys demo_task (Some Starting)" "''t''"] by (simp add: demo_sys_def)
  moreover have "\<exists>v sp au. decide ''t'' 0 0 (demo_ad demo_task) = (Watch_video v sp au, demo_ad demo_watching)"
    by (simp add: decide_def demo_id Let_def demo_watching_def [symmetric])
  then have "zstep (demo_sys demo_task (Some (At_top 0))) (demo_sys demo_watching (Some (Playing 0)))"
    using zstep.decide [of "demo_sys demo_task (Some (At_top 0))" "''t''" 0 0] by (auto simp: demo_sys_def)
  moreover have "store_video ''t'' 0 (zt_videos demo_watching ! 0) (demo_ad demo_watching) = demo_ad demo_watching"
    by (simp add: store_video_def)
  then have "zstep (demo_sys demo_watching (Some (Playing 0))) (demo_sys demo_watching (Some (Back 0 (True, None))))"
    using zstep.played [of "demo_sys demo_watching (Some (Playing 0))" "''t''" 0 demo_watching
        "zt_videos demo_watching ! 0" "(True, None)"]
    by (simp add: demo_sys_def only_watched_def)
  moreover have "zstep (demo_sys demo_watching (Some (Back 0 (True, None)))) (demo_sys demo_watching (Some (Recording 0 (True, None))))"
    using zstep.return [of "demo_sys demo_watching (Some (Back 0 (True, None)))" "''t''" 0 "(True, None)" 0 True "demo_ad demo_watching"]
    by (simp add: demo_sys_def still_wanted_def)
  moreover have "zstep (demo_sys demo_watching (Some (Recording 0 (True, None)))) (demo_sys demo_watched_task (Some (At_top 1)))"
    using zstep.record_video [of "demo_sys demo_watching (Some (Recording 0 (True, None)))" "''t''" 0 "(True, None)" 0 True
        "demo_ad demo_watched_task"]
    by (simp add: demo_sys_def record_result_def still_wanted_def demo_watched_task_def [symmetric])
  moreover have "zstep (demo_sys demo_watched_task (Some (At_top 1))) (demo_sys (finished_task 0 demo_watched_task) None)"
    using zstep.decide [of "demo_sys demo_watched_task (Some (At_top 1))" "''t''" 1 0 Leave "demo_ad (finished_task 0 demo_watched_task)"]
    by (simp add: demo_sys_def decide_def Let_def)
  ultimately show ?thesis using demo_started zreach.step by meson
qed

theorem completed_task_watched_all_witness: "list_all video_done (zt_videos (finished_task 0 demo_watched_task))"
proof -
  have "zt_status (finished_task 0 demo_watched_task) = ''completed''"
    by (simp add: finished_task_def recompute_percentage_def)
  with completed_task_watched_all [OF demo_completed, of "''t''" "finished_task 0 demo_watched_task"] show ?thesis
    by (simp add: demo_sys_def)
qed

section \<open>Starting an AI course\<close>

text \<open>
  AI answering is switched off again when no task was created because of a conflict or a missing
  chapter, but stays on when loading the videos failed.
\<close>

lemma set_ai_frame [simp]:
  "ad_tasks (set_ai v w ad) = ad_tasks ad" "ad_current (set_ai v w ad) = ad_current ad"
  "ad_logged_in (set_ai v w ad) = ad_logged_in ad" "busy (set_ai v w ad) = busy ad"
  by (simp_all add: set_ai_def busy_def current_task_def cong: option.case_cong)

lemma ai_stays_on:
  assumes "ad_logged_in ad" and "\<not> busy ad"
  shows "fst (start_ai_course_task tid now (Inl e) started course speed end_chapter ad) = Inl (Load_failed e)
    \<and> dget (ad_ai (snd (start_ai_course_task tid now (Inl e) started course speed end_chapter ad))) ''enabled'' = PBool True"
  using assms
  by (simp add: start_ai_course_task_def start_course_task_def start_course_def) (simp add: set_ai_def)

lemma ai_restored:
  assumes "fst (start_ai_course_task tid now loaded started course speed end_chapter ad) = Inl Conflict"
  shows "dget (ad_ai (snd (start_ai_course_task tid now loaded started course speed end_chapter ad))) ''enabled''
    = dget (ad_ai ad) ''enabled''"
  using assms by (auto simp: start_ai_course_task_def Let_def set_ai_def split: prod.splits sum.splits if_splits)

section \<open>The client as the step it is\<close>

text \<open>
  The \<open>played\<close> step lets the client change the four keys it keeps in a video, and nothing else. This
  is what \<open>watch_video\<close> does.
\<close>

lemma keeps_read_video:
  assumes "\<And>v n. pl_video n = v \<Longrightarrow> f (snd (m v n)) = f n"
  shows "preserves f (io_bind (io_get pl_video) m)"
  using assms by (simp add: preserves_def io_bind_def io_get_def)

lemma local_key [simp]: "local_part (\<lambda>n. dget (pl_video n) k)"
  by (simp add: local_part_def)

lemma copy_key: "k \<notin> set (map snd ks) \<Longrightarrow> dget (fold (copy_unless_none src) ks v) k = dget v k"
  by (induction ks arbitrary: v) (auto simp: copy_unless_none_def Let_def)

lemma key_note: "k \<notin> set WATCH_KEYS \<Longrightarrow> preserves (\<lambda>n. dget (pl_video n) k) (note_answered q)"
  by (simp add: preserves_def note_answered_def WATCH_KEYS_def)

lemma key_question: "k \<notin> set WATCH_KEYS \<Longrightarrow> preserves (\<lambda>n. dget (pl_video n) k) (answer_question z q)"
  unfolding answer_question_def when_playing_def by (auto intro!: keeps_rules key_note)

lemma key_checkpoint: "k \<notin> set WATCH_KEYS \<Longrightarrow> preserves (\<lambda>n. dget (pl_video n) k) (answer_popup_checkpoint z p)"
proof -
  assume k: "k \<notin> set WATCH_KEYS"
  have "preserves (\<lambda>n. dget (pl_video n) k) (answer_ids z qs)" for qs
    by (induction qs) (use k in \<open>auto intro!: keeps_rules key_question\<close>)
  then show ?thesis by (simp add: answer_popup_checkpoint_def)
qed

lemma key_due: "k \<notin> set WATCH_KEYS \<Longrightarrow> preserves (\<lambda>n. dget (pl_video n) k) (answer_due z t ps)"
  by (induction ps) (auto intro!: keeps_rules key_checkpoint)

lemma key_all: "k \<notin> set WATCH_KEYS \<Longrightarrow> preserves (\<lambda>n. dget (pl_video n) k) (answer_all z ps)"
  by (induction ps) (auto intro!: keeps_rules key_checkpoint)

lemma key_token: "k \<notin> set WATCH_KEYS \<Longrightarrow> preserves (\<lambda>n. dget (pl_video n) k) (learning_token_id z)"
  unfolding learning_token_id_def
proof (rule keeps_read_video)
  assume k: "k \<notin> set WATCH_KEYS"
  fix v and n :: "('a, 'b) player_scheme"
  assume v: "pl_video n = v"
  have c: "dget (fold (copy_unless_none src) STUDIED_KEYS v) k = dget v k" for src
    by (rule copy_key) (use k in \<open>simp add: STUDIED_KEYS_def WATCH_KEYS_def\<close>)
  obtain r n1 where d: "signed_data z PRELEARNING_NOTE_URL (prelearning_payload v) VIDEO_KEY None n = (r, n1)"
    by (metis surj_pair)
  have "pl_video n1 = v" using keepsD [OF keeps_signed_data [of pl_video] d] v by simp
  then show "dget (pl_video (snd (io_bind (signed_data z PRELEARNING_NOTE_URL (prelearning_payload v) VIDEO_KEY None)
      (\<lambda>note. io_bind (io_of (with_get (or_else (dget note ''studiedLessonDto'') (PDict [])))) (\<lambda>studied.
       let token = dget studied ''id''
       in if token = PNone \<or> token = PStr [] then io_raise (upstream_error ''prelearningNote returned no learningTokenId'')
          else io_bind (set_video (fold (copy_unless_none studied) STUDIED_KEYS v))
                 (\<lambda>_. io_return (base64_encode (utf8 (py_str token)))))) n))) k = dget (pl_video n) k"
    using v d c
    by (auto simp: io_bind_def io_of_def io_raise_def io_return_def Let_def set_video_def split: sum.splits)
qed

lemma key_advance: "k \<notin> set WATCH_KEYS \<Longrightarrow> preserves (\<lambda>n. dget (pl_video n) k) (advance_totals z p l)"
  unfolding advance_totals_def video_int_def int_value_def
  by (rule keeps_read_video)
    (auto simp: io_bind_def io_of_def set_video_def WATCH_KEYS_def split: sum.splits)

lemma key_report: "k \<notin> set WATCH_KEYS \<Longrightarrow> preserves (\<lambda>n. dget (pl_video n) k) (report z p l wp t)"
  unfolding report_def by (intro keeps_bind keeps_save_progress) (simp_all add: preserves_def)

lemma key_turn: "k \<notin> set WATCH_KEYS \<Longrightarrow> preserves (\<lambda>n. dget (pl_video n) k) (watch_turn z v s t pb)"
  unfolding watch_turn_def turn_report_def Let_def
  by (auto intro!: keeps_rules key_due key_report key_advance split: prod.splits)

lemma key_loop: "k \<notin> set WATCH_KEYS \<Longrightarrow> dget (pl_video (snd (watch_loop z v s t pb n))) k = dget (pl_video n) k"
proof (induction z v s t pb n rule: watch_loop.induct)
  case (1 z v s t pb n)
  show ?case
  proof (cases "pb_played pb < v")
    case True
    obtain r n1 where turn: "watch_turn z v s t pb n = (r, n1)" by (metis surj_pair)
    have n1: "dget (pl_video n1) k = dget (pl_video n) k" using keepsD [OF key_turn [OF 1(2)] turn] .
    consider e where "r = Inl e" | p where "r = Inr (Over p)" | pb1 where "r = Inr (Again pb1)"
      by (metis sum.exhaust turn.exhaust)
    then show ?thesis
      by cases (use 1(1) [OF True turn [symmetric]] 1(2) True turn n1 in \<open>simp_all add: watch_loop.simps [of z v s t pb n]\<close>)
  qed (simp add: watch_loop.simps [of z v s t pb n])
qed

lemma key_play: "k \<notin> set WATCH_KEYS \<Longrightarrow> preserves (\<lambda>n. dget (pl_video n) k) (play_from z d s t p ps)"
  unfolding play_from_def finish_video_def when_playing_def
  by (auto intro!: keeps_rules key_all key_report simp: preserves_def [of _ "watch_loop _ _ _ _ _"] key_loop)

lemma key_set:
  fixes m :: "rat \<Rightarrow> ('w, 'z, play) pio"
  assumes k: "k \<notin> set WATCH_KEYS" and m: "\<And>played. preserves (\<lambda>n. dget (pl_video n) k) (m played)"
  shows "preserves (\<lambda>n. dget (pl_video n) k) (io_bind (io_get pl_video) (\<lambda>video. io_bind (io_of (r video))
    (\<lambda>(studied, played). io_bind (set_video (dset ''study_total_time'' (PInt studied) video)) (\<lambda>_. m played))))"
proof (rule keeps_read_video)
  fix v and n :: "('w, 'z) player_scheme"
  assume "pl_video n = v"
  moreover have "dget (pl_video (snd (m p n1))) k = dget (pl_video n1) k" for p n1
    using m [of p] by (simp add: preserves_def)
  ultimately show "dget (pl_video (snd (io_bind (io_of (r v)) (\<lambda>(studied, played).
      io_bind (set_video (dset ''study_total_time'' (PInt studied) v)) (\<lambda>_. m played)) n))) k = dget (pl_video n) k"
    using k by (auto simp: io_bind_def io_of_def set_video_def WATCH_KEYS_def split: sum.splits)
qed

lemma key_start: "k \<notin> set WATCH_KEYS \<Longrightarrow> preserves (\<lambda>n. dget (pl_video n) k) (start_playing z d speed auto_answer)"
  unfolding start_playing_def when_playing_def
  apply (rule keeps_bind [OF keeps_wait [OF local_key]])
  apply (split if_split, intro conjI impI keeps_return)
  apply (rule keeps_bind [OF key_token], assumption)
  apply (split if_split, intro conjI impI keeps_raise)
  apply (rule key_set, assumption)
  apply (auto simp: points_to_answer_def intro!: keeps_rules key_play)
  done

lemma watch_video_only_watched: "only_watched (pl_video n) (pl_video (snd (watch_video z speed auto_answer n)))"
proof -
  have "preserves (\<lambda>n. dget (pl_video n) k) (watch_video z speed auto_answer)" if "k \<notin> set WATCH_KEYS" for k
    unfolding watch_video_def video_int_def Let_def using that by (auto intro!: keeps_rules key_start)
  then show ?thesis unfolding only_watched_def preserves_def by blast
qed

end
