(* ===== verification/Video_Study.thy ===== *)
theory Video_Study
  imports Service_Prelude Chapter_Job
begin

text \<open>
  Watching one Chaoxing video or recording (\<open>video_service.py\<close>, with the call limiter of
  \<open>rate_limiter.py\<close>, \<open>Chaoxing.get_uid\<close> and \<open>get_fid\<close>): the progress report, the recovery after a
  403 answer, and the loop that plays and reports until the platform says \<open>isPassed\<close>.
  A float is a rational number; the headers and the timeouts of a request, the log and the progress
  bar are left out.
\<close>

section \<open>The environment\<close>

text \<open>
  What the site answers and the cookies (\<open>web\<close>), the clock, \<open>time.sleep\<close>, \<open>random.uniform\<close>, the
  two callbacks of the caller (a progress callback that raises is ignored by the code, so it is
  only what it does to the world), \<open>md5\<close> in hexadecimal, and how numbers are read from texts.
\<close>

record 'w media =
  v_web :: "'w web"
  v_session :: nat
  v_now :: "'w \<Rightarrow> rat"
  v_sleep :: "rat \<Rightarrow> 'w \<Rightarrow> 'w"
  v_uniform :: "rat \<Rightarrow> rat \<Rightarrow> 'w \<Rightarrow> rat \<times> 'w"
  v_stop :: "'w \<Rightarrow> bool \<times> 'w"
  v_progress :: "rat \<Rightarrow> rat \<Rightarrow> 'w \<Rightarrow> 'w"
  v_md5 :: "string \<Rightarrow> string"
  v_float :: "string \<Rightarrow> rat"
  v_int :: "string \<Rightarrow> int option"

text \<open>
  The two limiters' last calls, and what is recorded of the run: the reports with the playing time,
  the duration, whether \<open>isPassed\<close> was true and the status code, and the positions the playback
  was set to (at the start and by a refresh).
\<close>

record media_report =
  mr_pos :: int
  mr_duration :: int
  mr_passed :: bool
  mr_status :: int

record 'w mnet = "'w net" +
  mn_log_call :: rat
  mn_rate_call :: rat
  mn_reports :: "media_report list"
  mn_bases :: "rat list"

type_synonym ('w, 'z, 'a) mio = "('w, \<lparr>mn_log_call :: rat, mn_rate_call :: rat, mn_reports :: media_report list,
  mn_bases :: rat list, \<dots> :: 'z\<rparr>, 'a) io"

definition type_error :: http_exc where "type_error = Other_exc ''TypeError''"
definition value_error :: http_exc where "value_error = Other_exc ''ValueError''"

definition media_clock :: "'w media \<Rightarrow> ('w, 'z, rat) mio" where
  "media_clock v = io_get (\<lambda>n. v_now v (world n))"

definition media_pause :: "'w media \<Rightarrow> rat \<Rightarrow> ('w, 'z, unit) mio" where
  "media_pause v s n = (Inr (), n\<lparr>world := v_sleep v s (world n)\<rparr>)"

definition media_uniform :: "'w media \<Rightarrow> rat \<Rightarrow> rat \<Rightarrow> ('w, 'z, rat) mio" where
  "media_uniform v a b n = (let (x, w) = v_uniform v a b (world n) in (Inr x, n\<lparr>world := w\<rparr>))"

definition stop_requested :: "'w media \<Rightarrow> ('w, 'z, bool) mio" where
  "stop_requested v n = (let (b, w) = v_stop v (world n) in (Inr b, n\<lparr>world := w\<rparr>))"

definition call_progress :: "'w media \<Rightarrow> rat \<Rightarrow> int \<Rightarrow> ('w, 'z, unit) mio" where
  "call_progress v pos duration n = (Inr (), n\<lparr>world := v_progress v pos (of_int duration) (world n)\<rparr>)"

text \<open>\<open>int(x)\<close> and the number an arithmetic operation reads\<close>

definition media_int :: "'w media \<Rightarrow> pyval \<Rightarrow> http_exc + int" where
  "media_int v x =
     (case x of
        PInt i \<Rightarrow> Inr i
      | PBool b \<Rightarrow> Inr (if b then 1 else 0)
      | PFloat t \<Rightarrow> Inr (trunc (v_float v t))
      | PStr s \<Rightarrow> (case v_int v s of None \<Rightarrow> Inl value_error | Some i \<Rightarrow> Inr i)
      | _ \<Rightarrow> Inl type_error)"

definition media_num :: "'w media \<Rightarrow> pyval \<Rightarrow> rat option" where
  "media_num v x =
     (case x of
        PInt i \<Rightarrow> Some (of_int i)
      | PBool b \<Rightarrow> Some (if b then 1 else 0)
      | PFloat t \<Rightarrow> Some (v_float v t)
      | _ \<Rightarrow> None)"

section \<open>The limiter\<close>

text \<open>
  \<open>RateLimiter.limit_rate\<close>: the time of the last call is read and written by the two functions
  \<open>last\<close> and \<open>set_last\<close>, as each service has two limiters.
\<close>

definition limit_rate ::
  "'w media \<Rightarrow> rat \<Rightarrow> (('w, 'z) mnet_scheme \<Rightarrow> rat) \<Rightarrow> (rat \<Rightarrow> ('w, 'z) mnet_scheme \<Rightarrow> ('w, 'z) mnet_scheme)
     \<Rightarrow> rat \<Rightarrow> ('w, 'z, unit) mio" where
  "limit_rate v interval last_call set_last random_max =
     io_bind (media_uniform v 0 random_max) (\<lambda>wait_time.
     io_bind (media_pause v wait_time) (\<lambda>_.
     io_bind (media_clock v) (\<lambda>now.
     io_bind (io_get last_call) (\<lambda>before.
     if now - before \<le> interval
     then io_bind (media_pause v (interval - (now - before))) (\<lambda>_.
          io_bind (media_clock v) (\<lambda>later n. (Inr (), set_last later n)))
     else (\<lambda>n. (Inr (), set_last now n))))))"

definition DEFAULT_RATE_LIMIT :: rat where "DEFAULT_RATE_LIMIT = 1 / 2"
definition VIDEO_LOG_RATE_LIMIT :: rat where "VIDEO_LOG_RATE_LIMIT = 2"
definition VIDEO_WAIT_TIME_MIN :: rat where "VIDEO_WAIT_TIME_MIN = 30"
definition VIDEO_WAIT_TIME_MAX :: rat where "VIDEO_WAIT_TIME_MAX = 90"
definition VIDEO_SLEEP_THRESHOLD :: rat where "VIDEO_SLEEP_THRESHOLD = 1"
definition MAX_FORBIDDEN_RETRY :: nat where "MAX_FORBIDDEN_RETRY = 2"
definition MAX_REPORTS_WHILE_SATURATED :: nat where "MAX_REPORTS_WHILE_SATURATED = 10"

definition limit_log :: "'w media \<Rightarrow> ('w, 'z, unit) mio" where
  "limit_log v = limit_rate v VIDEO_LOG_RATE_LIMIT mn_log_call (\<lambda>t n. n\<lparr>mn_log_call := t\<rparr>) VIDEO_LOG_RATE_LIMIT"

definition limit_refresh :: "'w media \<Rightarrow> ('w, 'z, unit) mio" where
  "limit_refresh v = limit_rate v DEFAULT_RATE_LIMIT mn_rate_call (\<lambda>t n. n\<lparr>mn_rate_call := t\<rparr>) (1 / 5)"

section \<open>The progress report\<close>

text \<open>\<open>get_uid\<close> and \<open>get_fid\<close>\<close>

definition get_uid :: "'w media \<Rightarrow> ('w, 'z, string) mio" where
  "get_uid v =
     io_bind (io_get (\<lambda>n. (web_cookie (v_web v) (v_session v) ''_uid'' (world n),
                           web_cookie (v_web v) (v_session v) ''UID'' (world n)))) (\<lambda>(uid, old).
     io_of (case uid of
              Some s \<Rightarrow> Inr s
            | None \<Rightarrow> (case old of Some s \<Rightarrow> Inr s | None \<Rightarrow> Inl (Other_exc ''Cannot get uid !''))))"

definition get_fid :: "'w media \<Rightarrow> ('w, 'z, string) mio" where
  "get_fid v = io_get (\<lambda>n. case web_cookie (v_web v) (v_session v) ''fid'' (world n) of None \<Rightarrow> ''None'' | Some s \<Rightarrow> s)"

definition bracketed :: "string \<Rightarrow> string" where
  "bracketed s = ''['' @ s @ '']''"

definition get_enc :: "'w media \<Rightarrow> pyval \<Rightarrow> pyval \<Rightarrow> pyval \<Rightarrow> int \<Rightarrow> int \<Rightarrow> string \<Rightarrow> string" where
  "get_enc v clazz_id jobid object_id playing duration userid =
     v_md5 v (utf8 (bracketed (py_str clazz_id) @ bracketed userid @ bracketed (py_str jobid) @ bracketed (py_str object_id)
        @ bracketed (int_str (playing * 1000)) @ ''[d_yHJ!$pdA~5]'' @ bracketed (int_str (duration * 1000))
        @ bracketed (''0_'' @ int_str duration)))"

text \<open>\<open>re.search(r"-rt_([1d])", s)\<close>: the character of its group\<close>

fun rt_search :: "string \<Rightarrow> char option" where
  "rt_search [] = None"
| "rt_search (c # s) =
     (if starts_with (c # s) ''-rt_1'' then Some (CHR ''1'')
      else if starts_with (c # s) ''-rt_d'' then Some (CHR ''d'')
      else rt_search s)"

definition job_rt :: "pyval \<Rightarrow> pyval \<Rightarrow> http_exc + pyval" where
  "job_rt rt otherinfo =
     (if truthy rt then Inr rt
      else case otherinfo of
        PStr s \<Rightarrow> Inr (case rt_search s of None \<Rightarrow> rt | Some c \<Rightarrow> PStr (if c = CHR ''d'' then ''0.9'' else ''1''))
      | _ \<Rightarrow> Inl type_error)"

text \<open>\<open>"courseId" in x\<close>\<close>

definition names_course :: "pyval \<Rightarrow> http_exc + bool" where
  "names_course x =
     (case x of
        PStr s \<Rightarrow> Inr (contains s ''courseId'')
      | PList xs \<Rightarrow> Inr (PStr ''courseId'' \<in> set xs)
      | PDict d \<Rightarrow> Inr (''courseId'' \<in> fst ` set d)
      | _ \<Rightarrow> Inl type_error)"

definition log_params ::
  "'w media \<Rightarrow> pyval \<Rightarrow> pyval \<Rightarrow> pyval \<Rightarrow> pyval \<Rightarrow> pyval \<Rightarrow> string \<Rightarrow> int \<Rightarrow> int \<Rightarrow> string \<Rightarrow> pydict" where
  "log_params v clazz_id course_id jobid object_id otherinfo uid duration playing dtype =
     [(''clazzId'', clazz_id), (''playingTime'', PInt playing), (''duration'', PInt duration),
      (''clipTime'', PStr (''0_'' @ int_str duration)), (''objectId'', object_id),
      (''otherInfo'', otherinfo), (''courseId'', course_id), (''jobid'', jobid),
      (''userid'', PStr uid), (''isdrag'', PStr ''3''), (''view'', PStr ''pc''),
      (''enc'', PStr (get_enc v clazz_id jobid object_id playing duration uid)), (''dtype'', PStr dtype)]"

definition add_truthy :: "string \<Rightarrow> pyval \<Rightarrow> pydict \<Rightarrow> pydict" where
  "add_truthy k x d = (if truthy x then dset k x d else d)"

definition send_log :: "'w media \<Rightarrow> string \<Rightarrow> pydict \<Rightarrow> pyval \<Rightarrow> ('w, 'z, response) mio" where
  "send_log v url params rt =
     io_bind (io_get (\<lambda>n. web_ms (v_web v) (world n))) (\<lambda>ms.
     http (v_web v) (v_session v) (get_request url (dupdate params [(''rt'', rt), (''_t'', PStr (int_str ms))])))"

text \<open>\<open>resp.json()["isPassed"]\<close>, as a truth value\<close>

definition is_passed :: "response \<Rightarrow> http_exc + bool" where
  "is_passed resp =
     (case rs_json resp of
        None \<Rightarrow> Inl value_error
      | Some (PDict d) \<Rightarrow> map_sum id truthy (get_key d ''isPassed'')
      | Some _ \<Rightarrow> Inl type_error)"

text \<open>The values of \<open>rt\<close> tried where the job has none: the next one only after a 403\<close>

fun try_rts :: "'w media \<Rightarrow> string \<Rightarrow> pydict \<Rightarrow> pyval \<Rightarrow> pyval list \<Rightarrow> ('w, 'z, response) mio" where
  "try_rts v url params rt [] = send_log v url params rt"
| "try_rts v url params rt (next_rt # rts) =
     io_bind (send_log v url params rt) (\<lambda>resp.
       if rs_status resp = 403 then try_rts v url params next_rt rts else io_return resp)"

definition log_verdict :: "response \<Rightarrow> http_exc + bool \<times> int" where
  "log_verdict resp =
     (if rs_status resp = 200 then map_sum id (\<lambda>p. (p, 200)) (is_passed resp) else Inr (False, rs_status resp))"

definition record_report :: "int \<Rightarrow> int \<Rightarrow> bool \<times> int \<Rightarrow> ('w, 'z, bool \<times> int) mio" where
  "record_report playing duration r n =
     (Inr r, n\<lparr>mn_reports := mn_reports n @
        [\<lparr>mr_pos = playing, mr_duration = duration, mr_passed = fst r, mr_status = snd r\<rparr>]\<rparr>)"

definition log_url :: "pyval \<Rightarrow> pyval \<Rightarrow> string" where
  "log_url cpi dtoken = ''https://mooc1.chaoxing.com/mooc-ans/multimedia/log/a/'' @ py_str cpi @ ''/'' @ py_str dtoken"

definition video_progress_log ::
  "'w media \<Rightarrow> pydict \<Rightarrow> pydict \<Rightarrow> pyval \<Rightarrow> int \<Rightarrow> int \<Rightarrow> string \<Rightarrow> ('w, 'z, bool \<times> int) mio" where
  "video_progress_log v course job dtoken duration playing dtype =
     io_bind (limit_log v) (\<lambda>_.
     io_bind (io_of (get_key job ''otherinfo'')) (\<lambda>otherinfo.
     io_bind (io_of (names_course otherinfo)) (\<lambda>named.
     if named then io_raise (Other_exc ''this is not possible'')
     else
       io_bind (io_of (get_key course ''clazzId'')) (\<lambda>clazz_id.
       io_bind (io_of (get_key job ''jobid'')) (\<lambda>jobid.
       io_bind (io_of (get_key job ''objectid'')) (\<lambda>object_id.
       io_bind (get_uid v) (\<lambda>uid.
       io_bind (io_of (get_key course ''courseId'')) (\<lambda>course_id.
       io_bind (io_of (get_key course ''cpi'')) (\<lambda>cpi.
       io_bind (io_of (get_key job ''videoFaceCaptureEnc'')) (\<lambda>face.
       io_bind (io_of (get_key job ''attDuration'')) (\<lambda>att.
       io_bind (io_of (get_key job ''attDurationEnc'')) (\<lambda>att_enc.
       io_bind (io_of (get_key job ''rt'')) (\<lambda>rt0.
       io_bind (io_of (job_rt rt0 otherinfo)) (\<lambda>rt.
       (let params' = add_truthy ''attDurationEnc'' att_enc (add_truthy ''attDuration'' att
                        (add_truthy ''videoFaceCaptureEnc'' face
                          (log_params v clazz_id course_id jobid object_id otherinfo uid duration playing dtype)));
            url = log_url cpi dtoken
        in io_bind (if truthy rt then send_log v url params' rt
                    else try_rts v url params' (PFloat ''0.9'') [PInt 1]) (\<lambda>resp.
           io_bind (io_of (log_verdict resp)) (record_report playing duration)))))))))))))))))"

section \<open>Recovery\<close>

definition status_url :: "pyval \<Rightarrow> string \<Rightarrow> string" where
  "status_url object_id fid =
     ''https://mooc1.chaoxing.com/ananas/status/'' @ py_str object_id @ ''?k='' @ fid @ ''&flag=normal''"

text \<open>\<open>data.get("status") == "success"\<close>\<close>

definition refreshed_meta :: "pyval \<Rightarrow> http_exc + pydict option" where
  "refreshed_meta data =
     (case data of
        PDict d \<Rightarrow> Inr (if dget d ''status'' = PStr ''success'' then Some d else None)
      | _ \<Rightarrow> Inl (Other_exc ''AttributeError''))"

definition refresh_video_status :: "'w media \<Rightarrow> pydict \<Rightarrow> ('w, 'z, pydict option) mio" where
  "refresh_video_status v job =
     io_bind (limit_refresh v) (\<lambda>_.
     io_bind (io_of (get_key job ''objectid'')) (\<lambda>object_id.
     io_bind (get_fid v) (\<lambda>fid.
     io_bind (io_try is_request_exc
                (io_bind (http (v_web v) (v_session v) (get_request (status_url object_id fid) []))
                   (\<lambda>resp. io_return (Some resp)))
                (\<lambda>_. io_return None)) (\<lambda>answer.
     case answer of
       None \<Rightarrow> io_return None
     | Some resp \<Rightarrow>
         (if rs_status resp \<noteq> 200 then io_return None
          else case rs_json resp of
                 None \<Rightarrow> io_return None
               | Some data \<Rightarrow> io_of (refreshed_meta data))))))"

text \<open>
  \<open>_recover_after_forbidden\<close>: the call of \<open>SessionManager.update_cookies\<close> has no argument, for which
  it does nothing.
\<close>

definition recover_after_forbidden :: "'w media \<Rightarrow> pydict \<Rightarrow> ('w, 'z, pydict option) mio" where
  "recover_after_forbidden v job = refresh_video_status v job"

section \<open>The loop\<close>

text \<open>The variables of the loop. \<open>vp_pos\<close> is \<open>None\<close> where a refresh has set \<open>play_time\<close> to what is no number.\<close>

record vplay =
  vp_pos :: "rat option"
  vp_last_log :: rat
  vp_last_iter :: rat
  vp_wait :: int
  vp_duration :: int
  vp_token :: pyval
  vp_forbidden :: nat
  vp_saturated :: nat

text \<open>How long to play before the next report\<close>

definition draw_wait :: "'w media \<Rightarrow> int \<Rightarrow> ('w, 'z, int) mio" where
  "draw_wait v duration =
     io_bind (if duration < 180 then media_uniform v 20 40
              else if duration < 600 then media_uniform v 30 60
              else media_uniform v VIDEO_WAIT_TIME_MIN VIDEO_WAIT_TIME_MAX)
       (\<lambda>x. io_return (trunc x))"

definition report_is_due :: "vplay \<Rightarrow> rat \<Rightarrow> bool" where
  "report_is_due vp pos = (of_int (vp_wait vp) \<le> pos - vp_last_log vp \<or> pos = of_int (vp_duration vp))"

definition note_base :: "'w media \<Rightarrow> pyval \<Rightarrow> ('w, 'z, unit) mio" where
  "note_base v x n =
     (Inr (), n\<lparr>mn_bases := mn_bases n @ (case media_num v x of None \<Rightarrow> [] | Some b \<Rightarrow> [b])\<rparr>)"

text \<open>What a refresh changes\<close>

definition apply_refresh :: "'w media \<Rightarrow> pydict \<Rightarrow> vplay \<Rightarrow> vplay" where
  "apply_refresh v meta vp =
     vp\<lparr>vp_token := (case map_of meta ''dtoken'' of None \<Rightarrow> vp_token vp | Some t \<Rightarrow> t),
        vp_duration := (case map_of meta ''duration'' of
                          None \<Rightarrow> vp_duration vp
                        | Some d \<Rightarrow> (case media_int v d of Inl _ \<Rightarrow> vp_duration vp | Inr i \<Rightarrow> i)),
        vp_pos := (case map_of meta ''playTime'' of None \<Rightarrow> vp_pos vp | Some t \<Rightarrow> media_num v t),
        vp_saturated := 0\<rparr>"

text \<open>
  How the reporting part of a turn ends: the turn goes on (with \<open>passed\<close>), the loop starts its next
  turn (\<open>continue\<close>), or \<open>study_video\<close> returns.
\<close>

datatype log_end = Go_on bool vplay | Next_turn vplay | Return study_result

definition after_report :: "'w media \<Rightarrow> vplay \<Rightarrow> rat \<Rightarrow> bool \<Rightarrow> int \<Rightarrow> ('w, 'z, log_end) mio" where
  "after_report v vp pos passed state =
     (let full = \<not> passed \<and> state = 200 \<and> of_int (vp_duration vp) \<le> pos;
          saturated = (if full then Suc (vp_saturated vp) else vp_saturated vp)
      in if full \<and> MAX_REPORTS_WHILE_SATURATED \<le> saturated then io_return (Return SR_TIMEOUT)
         else io_bind (draw_wait v (vp_duration vp)) (\<lambda>w.
              io_return (Go_on passed (vp\<lparr>vp_saturated := saturated, vp_wait := w, vp_last_log := pos\<rparr>))))"

definition after_forbidden :: "'w media \<Rightarrow> pydict \<Rightarrow> vplay \<Rightarrow> rat \<Rightarrow> bool \<Rightarrow> ('w, 'z, log_end) mio" where
  "after_forbidden v job vp pos passed =
     (if MAX_FORBIDDEN_RETRY \<le> vp_forbidden vp then io_return (Return SR_FORBIDDEN)
      else (let vp' = vp\<lparr>vp_forbidden := Suc (vp_forbidden vp)\<rparr>
            in io_bind (media_uniform v 2 4) (\<lambda>s.
               io_bind (media_pause v s) (\<lambda>_.
               io_bind (recover_after_forbidden v job) (\<lambda>meta.
               case meta of
                 None \<Rightarrow> after_report v vp' pos passed 403
               | Some d \<Rightarrow> io_bind (note_base v (dget d ''playTime'')) (\<lambda>_.
                           io_return (Next_turn (apply_refresh v d vp'))))))))"

definition turn_log :: "'w media \<Rightarrow> pydict \<Rightarrow> pydict \<Rightarrow> string \<Rightarrow> vplay \<Rightarrow> rat \<Rightarrow> ('w, 'z, log_end) mio" where
  "turn_log v course job dtype vp pos =
     (if report_is_due vp pos
      then io_bind (video_progress_log v course job (vp_token vp) (vp_duration vp) (trunc pos) dtype) (\<lambda>(passed, state).
           if state = 403 then after_forbidden v job vp pos passed
           else if \<not> passed \<and> state \<noteq> 200 then io_return (Return SR_ERROR)
           else after_report v vp pos passed state)
      else io_return (Go_on False vp))"

datatype vturn = Another vplay | Finished study_result

definition turn_advance :: "'w media \<Rightarrow> rat \<Rightarrow> bool \<Rightarrow> vplay \<Rightarrow> rat \<Rightarrow> ('w, 'z, vturn) mio" where
  "turn_advance v speed passed vp pos =
     io_bind (media_clock v) (\<lambda>now.
     (let pos' = min (of_int (vp_duration vp)) (pos + (now - vp_last_iter vp) * speed)
      in io_bind (media_clock v) (\<lambda>now'.
         io_bind (call_progress v pos' (vp_duration vp)) (\<lambda>_.
         io_bind (media_pause v VIDEO_SLEEP_THRESHOLD) (\<lambda>_.
         io_return (if passed then Finished SR_SUCCESS
                    else Another (vp\<lparr>vp_pos := Some pos', vp_last_iter := now'\<rparr>)))))))"

text \<open>One turn of \<open>while not passed\<close>\<close>

definition video_turn :: "'w media \<Rightarrow> pydict \<Rightarrow> pydict \<Rightarrow> rat \<Rightarrow> string \<Rightarrow> vplay \<Rightarrow> ('w, 'z, vturn) mio" where
  "video_turn v course job speed dtype vp =
     io_bind (stop_requested v) (\<lambda>stop.
     if stop then io_return (Finished SR_CANCELLED)
     else case vp_pos vp of
            None \<Rightarrow> io_raise type_error
          | Some pos \<Rightarrow>
              io_bind (turn_log v course job dtype vp pos) (\<lambda>e.
              case e of
                Return r \<Rightarrow> io_return (Finished r)
              | Next_turn vp' \<Rightarrow> io_return (Another vp')
              | Go_on passed vp' \<Rightarrow> turn_advance v speed passed vp' pos))"

partial_function (option) video_loop ::
  "'w media \<Rightarrow> pydict \<Rightarrow> pydict \<Rightarrow> rat \<Rightarrow> string \<Rightarrow> vplay \<Rightarrow> ('w, 'z) mnet_scheme
     \<Rightarrow> ((http_exc + study_result) \<times> ('w, 'z) mnet_scheme) option" where
  "video_loop v course job speed dtype vp n =
     (case video_turn v course job speed dtype vp n of
        (Inl e, n1) \<Rightarrow> Some (Inl e, n1)
      | (Inr (Finished r), n1) \<Rightarrow> Some (Inr r, n1)
      | (Inr (Another vp'), n1) \<Rightarrow> video_loop v course job speed dtype vp' n1)"

text \<open>What comes before the loop: \<open>Inl\<close> a result, or the variables it starts with\<close>

definition set_base :: "rat \<Rightarrow> ('w, 'z, unit) mio" where
  "set_base b n = (Inr (), n\<lparr>mn_bases := mn_bases n @ [b]\<rparr>)"

definition play_video_from :: "'w media \<Rightarrow> pydict \<Rightarrow> pydict \<Rightarrow> string \<Rightarrow> pyval \<Rightarrow> int \<Rightarrow> int \<Rightarrow> ('w, 'z, study_result + vplay) mio" where
  "play_video_from v course job dtype dtoken duration start =
     io_bind (set_base (of_int start)) (\<lambda>_.
     io_bind (media_clock v) (\<lambda>last_iter.
     io_bind (draw_wait v duration) (\<lambda>wait.
     io_bind (io_of (get_key job ''name'')) (\<lambda>_.
     io_bind (call_progress v (of_int start) duration) (\<lambda>_.
     io_bind (video_progress_log v course job dtoken duration start dtype) (\<lambda>(passed, state).
     if passed then io_return (Inl SR_SUCCESS)
     else io_return (Inr \<lparr>vp_pos = Some (of_int start), vp_last_log = 0, vp_last_iter = last_iter, vp_wait = wait,
                          vp_duration = duration, vp_token = dtoken, vp_forbidden = 0, vp_saturated = 0\<rparr>)))))))"

definition video_info :: "'w media \<Rightarrow> pydict \<Rightarrow> ('w, 'z, pyval option) mio" where
  "video_info v job =
     io_bind (io_of (get_key job ''objectid'')) (\<lambda>object_id.
     io_bind (get_fid v) (\<lambda>fid.
     io_try is_request_exc
       (io_bind (http (v_web v) (v_session v) (get_request (status_url object_id fid) [])) (\<lambda>resp. io_return (rs_json resp)))
       (\<lambda>_. io_return None)))"

definition study_start :: "'w media \<Rightarrow> pydict \<Rightarrow> pydict \<Rightarrow> string \<Rightarrow> ('w, 'z, study_result + vplay) mio" where
  "study_start v course job dtype =
     io_bind (video_info v job) (\<lambda>info.
     case info of
       None \<Rightarrow> io_return (Inl SR_ERROR)
     | Some (PDict d) \<Rightarrow>
         io_bind (io_of (get_key d ''status'')) (\<lambda>status.
         if status \<noteq> PStr ''success'' then io_return (Inl SR_ERROR)
         else
           io_bind (io_of (get_key d ''dtoken'')) (\<lambda>dtoken.
           io_bind (io_of (get_key d ''crc'')) (\<lambda>_.
           io_bind (io_of (get_key d ''key'')) (\<lambda>_.
           io_bind (io_of (get_key d ''duration'')) (\<lambda>raw.
           io_bind (io_of (media_int v raw)) (\<lambda>duration.
           io_bind (io_of (get_key job ''playTime'')) (\<lambda>raw_time.
           io_bind (io_of (media_int v raw_time)) (\<lambda>play_time.
           play_video_from v course job dtype dtoken duration (play_time div 1000)))))))))
     | Some _ \<Rightarrow> io_raise type_error)"

definition study_video ::
  "'w media \<Rightarrow> pydict \<Rightarrow> pydict \<Rightarrow> rat \<Rightarrow> string \<Rightarrow> ('w, 'z) mnet_scheme
     \<Rightarrow> ((http_exc + study_result) \<times> ('w, 'z) mnet_scheme) option" where
  "study_video v course job speed dtype n =
     (case study_start v course job dtype n of
        (Inl e, n1) \<Rightarrow> Some (Inl e, n1)
      | (Inr (Inl r), n1) \<Rightarrow> Some (Inr r, n1)
      | (Inr (Inr vp), n1) \<Rightarrow> video_loop v course job speed dtype vp n1)"

end
