(* ===== verification/Video_Sound.thy ===== *)
theory Video_Sound
  imports Video_Study
begin

text \<open>
  What holds of a run of \<open>study_video\<close>: it ends if the clock moves, its result is what the platform
  answered to its reports, and no report claims more than was there to watch.
\<close>

section \<open>What the parts keep\<close>

lemma local_parts_media [simp]:
  "local_part (mn_reports :: ('w, 'z) mnet_scheme \<Rightarrow> media_report list)"
  "local_part (mn_bases :: ('w, 'z) mnet_scheme \<Rightarrow> rat list)"
  by (simp_all add: local_part_def)

lemma keeps_http [keeps_rules]: "local_part f \<Longrightarrow> preserves f (http web sid rq)"
  by (simp add: preserves_def http_def local_part_def case_prod_beta Let_def)

lemma keeps_world [keeps_rules]:
  assumes "local_part f"
  shows "preserves f (media_pause v s)" "preserves f (media_uniform v a b)" "preserves f (stop_requested v)"
    "preserves f (call_progress v p d)" "preserves f (media_clock v)"
  using assms
  by (simp_all add: preserves_def media_pause_def media_uniform_def stop_requested_def call_progress_def media_clock_def
      local_part_def case_prod_beta Let_def io_get_def)

lemma keeps_limits [keeps_rules]:
  "preserves mn_reports (limit_log v)" "preserves mn_reports (limit_refresh v)"
  "preserves mn_bases (limit_log v)" "preserves mn_bases (limit_refresh v)"
  unfolding limit_log_def limit_refresh_def limit_rate_def
  by (auto intro!: keeps_rules simp: preserves_def [of _ "\<lambda>n. (Inr (), _ n)"])

lemma keeps_ids [keeps_rules]: "preserves f (get_uid v)" "preserves f (get_fid v)"
  unfolding get_uid_def get_fid_def by (auto intro!: keeps_rules)

lemma keeps_draw [keeps_rules]: "local_part f \<Longrightarrow> preserves f (draw_wait v d)"
  unfolding draw_wait_def by (auto intro!: keeps_rules)

lemma keeps_send_log [keeps_rules]: "local_part f \<Longrightarrow> preserves f (send_log v url params rt)"
  unfolding send_log_def by (auto intro!: keeps_rules)

lemma keeps_try_rts [keeps_rules]: "local_part f \<Longrightarrow> preserves f (try_rts v url params rt rts)"
  by (induction rts arbitrary: rt) (auto intro!: keeps_rules)

lemma keeps_recover [keeps_rules]:
  "preserves mn_reports (recover_after_forbidden v job)" "preserves mn_bases (recover_after_forbidden v job)"
  unfolding recover_after_forbidden_def refresh_video_status_def
  by (auto intro!: keeps_rules split: option.splits)

lemma keeps_info [keeps_rules]: "local_part f \<Longrightarrow> preserves f (video_info v job)"
  unfolding video_info_def by (auto intro!: keeps_rules)

lemma keeps_after_report [keeps_rules]: "local_part f \<Longrightarrow> preserves f (after_report v vp pos passed state)"
  unfolding after_report_def Let_def by (auto intro!: keeps_rules)

lemma keeps_turn_advance [keeps_rules]: "local_part f \<Longrightarrow> preserves f (turn_advance v speed passed vp pos)"
  unfolding turn_advance_def Let_def by (auto intro!: keeps_rules)

text \<open>The report: one entry is recorded, and it passed only with the status 200\<close>

lemma log_verdict_passed: "log_verdict resp = Inr (passed, state) \<Longrightarrow> passed \<Longrightarrow> state = 200"
  by (auto simp: log_verdict_def map_sum_def split: if_splits sum.splits)

definition log_effect :: "int \<Rightarrow> int \<Rightarrow> ('w, 'z) mnet_scheme \<Rightarrow> bool \<times> int \<Rightarrow> ('w, 'z) mnet_scheme \<Rightarrow> bool" where
  "log_effect playing duration n r n' \<longleftrightarrow> mn_bases n' = mn_bases n \<and> (fst r \<longrightarrow> snd r = 200)
     \<and> mn_reports n' = mn_reports n @ [\<lparr>mr_pos = playing, mr_duration = duration, mr_passed = fst r, mr_status = snd r\<rparr>]"

lemma record_report_effect:
  assumes "io_bind (io_of (log_verdict resp)) (record_report p d) n = (Inr r, n')"
  shows "log_effect p d n r n'"
  using assms log_verdict_passed [of resp "fst r" "snd r"]
  by (auto simp: io_bind_Inr record_report_def log_effect_def)

text \<open>A run that keeps what it reads of the state, and ends in one that records a report\<close>

definition reports_once :: "int \<Rightarrow> int \<Rightarrow> ('w, 'z, bool \<times> int) mio \<Rightarrow> bool" where
  "reports_once p d m \<longleftrightarrow> (\<forall>n r n'. m n = (Inr r, n') \<longrightarrow> log_effect p d n r n')"

lemma reports_once_bind:
  assumes "preserves mn_reports m" and "preserves mn_bases m" and "\<And>x. reports_once p d (f x)"
  shows "reports_once p d (io_bind m f)"
  unfolding reports_once_def
proof (intro allI impI)
  fix n r n' assume "io_bind m f n = (Inr r, n')"
  then obtain x n1 where m: "m n = (Inr x, n1)" and f: "f x n1 = (Inr r, n')" by (auto simp: io_bind_Inr)
  have "mn_reports n1 = mn_reports n" "mn_bases n1 = mn_bases n"
    using keepsD [OF assms(1) m] keepsD [OF assms(2) m] .
  moreover have "log_effect p d n1 r n'" using assms(3) [of x] f unfolding reports_once_def by blast
  ultimately show "log_effect p d n r n'" by (simp add: log_effect_def)
qed

lemma reports_once_parts:
  "reports_once p d (io_raise e)"
  "reports_once p d (io_bind (io_of (log_verdict resp)) (record_report p d))"
  "reports_once p d m \<Longrightarrow> reports_once p d m' \<Longrightarrow> reports_once p d (if c then m else m')"
  by (simp_all add: reports_once_def record_report_effect)

lemma preserves_if: "preserves f m \<Longrightarrow> preserves f m' \<Longrightarrow> preserves f (if c then m else m')"
  by simp

lemma reports_once_log: "reports_once playing duration (video_progress_log v course job dtoken duration playing dtype)"
  unfolding video_progress_log_def Let_def
  by (rule reports_once_parts | (rule reports_once_bind, (intro keeps_rules preserves_if; simp)+))+

lemmas log_recorded = reports_once_log [unfolded reports_once_def, rule_format]

section \<open>The clock\<close>

text \<open>
  Time passes: \<open>time.sleep(s)\<close> takes at least \<open>s\<close> seconds, nothing turns the clock back, and
  \<open>random.uniform(a, b)\<close> lies between its bounds.
\<close>

definition clock_moves :: "'w media \<Rightarrow> bool" where
  "clock_moves v \<longleftrightarrow>
     (\<forall>s w. 0 \<le> s \<longrightarrow> v_now v w + s \<le> v_now v (v_sleep v s w))
     \<and> (\<forall>sid rq w. v_now v w \<le> v_now v (snd (web_send (v_web v) sid rq w)))
     \<and> (\<forall>a b w. a \<le> b \<longrightarrow> a \<le> fst (v_uniform v a b w) \<and> fst (v_uniform v a b w) \<le> b
                   \<and> v_now v w \<le> v_now v (snd (v_uniform v a b w)))
     \<and> (\<forall>w. v_now v w \<le> v_now v (snd (v_stop v w)))
     \<and> (\<forall>p d w. v_now v w \<le> v_now v (v_progress v p d w))"

definition media_now :: "'w media \<Rightarrow> ('w, 'z) net_scheme \<Rightarrow> rat" where
  "media_now v n = v_now v (world n)"

text \<open>\<open>lasts v s m\<close>: \<open>m\<close> takes at least \<open>s\<close> seconds\<close>

definition lasts :: "'w media \<Rightarrow> rat \<Rightarrow> ('w, 'z, 'a) io \<Rightarrow> bool" where
  "lasts v s m \<longleftrightarrow> (\<forall>n. media_now v n + s \<le> media_now v (snd (m n)))"

abbreviation forward :: "'w media \<Rightarrow> ('w, 'z, 'a) io \<Rightarrow> bool" where
  "forward v \<equiv> lasts v 0"

named_theorems forward_rules \<open>an operation does not turn the clock back if its parts do not\<close>

lemma lastsD: "lasts v s m \<Longrightarrow> m n = (r, n') \<Longrightarrow> media_now v n + s \<le> media_now v n'"
  unfolding lasts_def by (metis snd_conv)

lemma forwardD: "forward v m \<Longrightarrow> m n = (r, n') \<Longrightarrow> media_now v n \<le> media_now v n'"
  using lastsD [of v 0 m] by simp

lemma forward_bind [forward_rules]:
  assumes "forward v m" and "\<And>x. forward v (f x)"
  shows "forward v (io_bind m f)"
  unfolding lasts_def
proof
  fix n
  obtain r n1 where m: "m n = (r, n1)" by (metis surj_pair)
  have step: "media_now v n1 \<le> media_now v (snd (f x n1))" for x using assms(2) by (simp add: lasts_def)
  show "media_now v n + 0 \<le> media_now v (snd (io_bind m f n))"
    using forwardD [OF assms(1) m] order_trans [OF forwardD [OF assms(1) m] step]
    by (cases r) (simp_all add: io_bind_def m)
qed

lemma forward_try [forward_rules]:
  assumes "forward v m" and "\<And>e. forward v (h e)"
  shows "forward v (io_try C m h)"
  unfolding lasts_def
proof
  fix n
  obtain r n1 where m: "m n = (r, n1)" by (metis surj_pair)
  have step: "media_now v n1 \<le> media_now v (snd (h e n1))" for e using assms(2) by (simp add: lasts_def)
  show "media_now v n + 0 \<le> media_now v (snd (io_try C m h n))"
    using forwardD [OF assms(1) m] order_trans [OF forwardD [OF assms(1) m] step]
    by (cases r) (simp_all add: io_try_def m)
qed

lemma forward_pure [forward_rules]:
  "forward v (io_return x)" "forward v (io_raise e)" "forward v (io_get g)" "forward v (io_of r)" "forward v (media_clock v)"
  "forward v (record_report p d r')" "forward v (note_base v y)" "forward v (set_base b)"
  by (simp_all add: lasts_def media_now_def io_return_def io_raise_def io_get_def io_of_def media_clock_def record_report_def
      note_base_def set_base_def)

lemma forward_if [forward_rules]: "(c \<Longrightarrow> forward v m) \<Longrightarrow> (\<not> c \<Longrightarrow> forward v m') \<Longrightarrow> forward v (if c then m else m')"
  by simp

lemma forward_world [forward_rules]:
  assumes "clock_moves v"
  shows "forward v (http (v_web v) sid rq)" "a \<le> b \<Longrightarrow> forward v (media_uniform v a b)" "forward v (stop_requested v)"
    "forward v (call_progress v p d)" "0 \<le> s \<Longrightarrow> lasts v s (media_pause v s)"
  using assms
  by (simp_all add: clock_moves_def lasts_def media_now_def http_def media_uniform_def stop_requested_def call_progress_def
      media_pause_def case_prod_beta Let_def)

lemma forward_pause:
  assumes "clock_moves v" and "0 \<le> s"
  shows "forward v (media_pause v s)"
  unfolding lasts_def
proof
  fix n
  show "media_now v n + 0 \<le> media_now v (snd (media_pause v s n))"
    using forward_world(5) [OF assms] assms(2) unfolding lasts_def by (metis add_0_right add_left_mono order_trans)
qed

lemma uniform_bounds:
  "clock_moves v \<Longrightarrow> a \<le> b \<Longrightarrow> media_uniform v a b n = (Inr x, n') \<Longrightarrow> a \<le> x \<and> x \<le> b \<and> media_now v n \<le> media_now v n'"
  by (auto simp: media_uniform_def case_prod_beta Let_def clock_moves_def media_now_def)

text \<open>A random time, and a pause that long\<close>

lemma lasts_uniform_pause:
  assumes "clock_moves v" and "0 \<le> a" and "a \<le> b" and "\<And>x. forward v (f x)"
  shows "lasts v a (io_bind (media_uniform v a b) (\<lambda>x. io_bind (media_pause v x) (\<lambda>_. f x)))"
  unfolding lasts_def
proof
  fix n :: "('a, 'b) mnet_scheme"
  obtain x n1 where u: "media_uniform v a b n = (Inr x, n1)" by (simp add: media_uniform_def case_prod_beta Let_def)
  obtain n2 where p: "media_pause v x n1 = (Inr (), n2)" by (simp add: media_pause_def)
  have "a \<le> x" "media_now v n \<le> media_now v n1" using uniform_bounds [OF assms(1,3) u] by simp_all
  moreover have "media_now v n1 + x \<le> media_now v n2"
    by (rule lastsD [OF forward_world(5) p]) (use assms(1,2) \<open>a \<le> x\<close> in simp_all)
  moreover have "media_now v n2 \<le> media_now v (snd (f x n2))" using assms(4) by (simp add: lasts_def)
  ultimately show "media_now v n + a \<le> media_now v (snd (io_bind (media_uniform v a b) (\<lambda>x. io_bind (media_pause v x) (\<lambda>_. f x)) n))"
    by (simp add: io_bind_def u p)
qed

lemma forward_limit_rate:
  assumes "clock_moves v" and "0 \<le> m" and "\<And>t n. world (set_last t n) = world n"
  shows "forward v (limit_rate v interval last_call set_last m)"
proof -
  have set: "forward v (\<lambda>n. (Inr (), set_last t n))" for t using assms(3) by (simp add: lasts_def media_now_def)
  show ?thesis unfolding limit_rate_def
    by (intro lasts_uniform_pause assms order_refl forward_bind forward_pure forward_if forward_pause set)
       (auto intro!: forward_bind forward_pure forward_pause set assms)
qed

lemma forward_limits [forward_rules]:
  "clock_moves v \<Longrightarrow> forward v (limit_log v)" "clock_moves v \<Longrightarrow> forward v (limit_refresh v)"
  unfolding limit_log_def limit_refresh_def by (rule forward_limit_rate; simp add: VIDEO_LOG_RATE_LIMIT_def)+

lemma forward_get_ids [forward_rules]: "forward v (get_uid v)" "forward v (get_fid v)"
  unfolding get_uid_def get_fid_def by (auto intro!: forward_rules simp: case_prod_beta)

lemma forward_send_log [forward_rules]: "clock_moves v \<Longrightarrow> forward v (send_log v url params rt)"
  unfolding send_log_def by (intro forward_rules)

lemma forward_try_rts [forward_rules]: "clock_moves v \<Longrightarrow> forward v (try_rts v url params rt rts)"
  by (induction rts arbitrary: rt) (auto intro!: forward_rules)

lemma forward_log [forward_rules]: "clock_moves v \<Longrightarrow> forward v (video_progress_log v course job t d p dtype)"
  unfolding video_progress_log_def Let_def by (intro forward_rules)

lemma forward_draw [forward_rules]: "clock_moves v \<Longrightarrow> forward v (draw_wait v d)"
  unfolding draw_wait_def VIDEO_WAIT_TIME_MIN_def VIDEO_WAIT_TIME_MAX_def by (intro forward_rules) simp_all

lemma forward_recover [forward_rules]: "clock_moves v \<Longrightarrow> forward v (recover_after_forbidden v job)"
  unfolding recover_after_forbidden_def refresh_video_status_def
  by (auto intro!: forward_rules split: option.splits)

lemma forward_info [forward_rules]: "clock_moves v \<Longrightarrow> forward v (video_info v job)"
  unfolding video_info_def by (intro forward_rules)

lemma forward_after_report [forward_rules]: "clock_moves v \<Longrightarrow> forward v (after_report v vp pos passed state)"
  unfolding after_report_def Let_def by (intro forward_rules)

lemma forward_play_video_from: "clock_moves v \<Longrightarrow> forward v (play_video_from v course job dtype t d s)"
  unfolding play_video_from_def by (auto intro!: forward_rules)

section \<open>One turn\<close>

text \<open>How the reporting part of a turn can end\<close>

definition reported :: "vplay \<Rightarrow> rat \<Rightarrow> bool \<Rightarrow> int \<Rightarrow> media_report" where
  "reported vp pos passed state =
     \<lparr>mr_pos = trunc pos, mr_duration = vp_duration vp, mr_passed = passed, mr_status = state\<rparr>"

definition full_report :: "media_report \<Rightarrow> bool" where
  "full_report r = (\<not> mr_passed r \<and> mr_status r = 200 \<and> mr_duration r \<le> mr_pos r)"

lemma full_reported:
  "\<not> passed \<Longrightarrow> state = 200 \<Longrightarrow> of_int (vp_duration vp) \<le> pos \<Longrightarrow> full_report (reported vp pos passed state)"
  by (simp add: full_report_def reported_def trunc_ge)

definition is_full :: "vplay \<Rightarrow> rat \<Rightarrow> bool \<Rightarrow> int \<Rightarrow> bool" where
  "is_full vp pos passed state = (\<not> passed \<and> state = 200 \<and> of_int (vp_duration vp) \<le> pos)"

definition counted :: "vplay \<Rightarrow> rat \<Rightarrow> bool \<Rightarrow> int \<Rightarrow> nat" where
  "counted vp pos passed state = (if is_full vp pos passed state then Suc (vp_saturated vp) else vp_saturated vp)"

lemma after_report_cases:
  assumes "after_report v vp pos passed state n = (Inr e, n')"
  obtains "e = Return SR_TIMEOUT" and "is_full vp pos passed state" and "10 \<le> counted vp pos passed state" and "n' = n"
  | w where "e = Go_on passed (vp\<lparr>vp_saturated := counted vp pos passed state, vp_wait := w, vp_last_log := pos\<rparr>)"
      and "is_full vp pos passed state \<Longrightarrow> counted vp pos passed state < 10"
  using assms
  by (auto simp: after_report_def Let_def is_full_def counted_def MAX_REPORTS_WHILE_SATURATED_def io_bind_Inr not_le
      split: if_splits)

lemma after_forbidden_cases:
  assumes "after_forbidden v job vp pos passed n = (Inr e, n')"
  obtains "e = Return SR_FORBIDDEN" and "2 \<le> vp_forbidden vp" and "n' = n"
  | n1 where "vp_forbidden vp < 2" and "after_report v (vp\<lparr>vp_forbidden := Suc (vp_forbidden vp)\<rparr>) pos passed 403 n1 = (Inr e, n')"
      and "mn_reports n1 = mn_reports n" and "mn_bases n1 = mn_bases n"
      and "clock_moves v \<Longrightarrow> media_now v n + 2 \<le> media_now v n1"
  | d where "vp_forbidden vp < 2" and "e = Next_turn (apply_refresh v d (vp\<lparr>vp_forbidden := Suc (vp_forbidden vp)\<rparr>))"
      and "mn_reports n' = mn_reports n"
      and "mn_bases n' = mn_bases n @ (case media_num v (dget d ''playTime'') of None \<Rightarrow> [] | Some b \<Rightarrow> [b])"
      and "clock_moves v \<Longrightarrow> media_now v n + 2 \<le> media_now v n'"
proof (cases "2 \<le> vp_forbidden vp")
  case True
  with assms that(1) show thesis by (simp add: after_forbidden_def MAX_FORBIDDEN_RETRY_def)
next
  case False
  define vp' where "vp' = vp\<lparr>vp_forbidden := Suc (vp_forbidden vp)\<rparr>"
  obtain s n1 n2 meta n3 where u: "media_uniform v 2 4 n = (Inr s, n1)" and p: "media_pause v s n1 = (Inr (), n2)"
    and rec: "recover_after_forbidden v job n2 = (Inr meta, n3)"
    and more: "(case meta of None \<Rightarrow> after_report v vp' pos passed 403
       | Some d \<Rightarrow> io_bind (note_base v (dget d ''playTime'')) (\<lambda>_. io_return (Next_turn (apply_refresh v d vp')))) n3 = (Inr e, n')"
    using assms False
    by (auto simp: after_forbidden_def MAX_FORBIDDEN_RETRY_def Let_def io_bind_Inr simp flip: vp'_def)
  have same: "mn_reports n3 = mn_reports n" "mn_bases n3 = mn_bases n"
    using keepsD [OF keeps_world(2) u, of mn_reports] keepsD [OF keeps_world(1) p, of mn_reports]
      keepsD [OF keeps_world(2) u, of mn_bases] keepsD [OF keeps_world(1) p, of mn_bases]
      keepsD [OF keeps_recover(1) rec] keepsD [OF keeps_recover(2) rec] by simp_all
  have late: "media_now v n + 2 \<le> media_now v n3" if "clock_moves v"
  proof -
    have s: "2 \<le> s" "media_now v n \<le> media_now v n1" using uniform_bounds [OF that _ u] by simp_all
    moreover have "media_now v n1 + s \<le> media_now v n2" by (rule lastsD [OF forward_world(5) p]) (use that s in simp_all)
    moreover have "media_now v n2 \<le> media_now v n3" by (rule forwardD [OF forward_recover rec]) (rule that)
    ultimately show ?thesis by linarith
  qed
  show thesis
  proof (cases meta)
    case None
    then show thesis using that(2) [of n3] False more same late by (simp add: vp'_def)
  next
    case (Some d)
    then have "e = Next_turn (apply_refresh v d vp')" "mn_reports n' = mn_reports n3" "world n' = world n3"
      "mn_bases n' = mn_bases n3 @ (case media_num v (dget d ''playTime'') of None \<Rightarrow> [] | Some b \<Rightarrow> [b])"
      using more by (auto simp: io_bind_Inr note_base_def)
    then show thesis using that(3) [of d] False same late by (simp add: vp'_def media_now_def)
  qed
qed

lemma turn_log_cases:
  assumes "turn_log v course job dtype vp pos n = (Inr e, n')"
  obtains (idle) "\<not> report_is_due vp pos" and "e = Go_on False vp" and "n' = n"
  | (report) passed state n1 where "report_is_due vp pos" and "passed \<Longrightarrow> state = 200"
      and "mn_reports n1 = mn_reports n @ [reported vp pos passed state]" and "mn_bases n1 = mn_bases n"
      and "clock_moves v \<Longrightarrow> media_now v n \<le> media_now v n1"
      and "state = 403 \<Longrightarrow> after_forbidden v job vp pos passed n1 = (Inr e, n')"
      and "state \<noteq> 403 \<Longrightarrow> \<not> passed \<Longrightarrow> state \<noteq> 200 \<Longrightarrow> e = Return SR_ERROR \<and> n' = n1"
      and "passed \<or> state = 200 \<Longrightarrow> after_report v vp pos passed state n1 = (Inr e, n')"
proof (cases "report_is_due vp pos")
  case False
  then show thesis using assms idle by (simp add: turn_log_def)
next
  case True
  then obtain passed state n1
    where log: "video_progress_log v course job (vp_token vp) (vp_duration vp) (trunc pos) dtype n = (Inr (passed, state), n1)"
      and more: "(if state = 403 then after_forbidden v job vp pos passed
           else if \<not> passed \<and> state \<noteq> 200 then io_return (Return SR_ERROR)
           else after_report v vp pos passed state) n1 = (Inr e, n')"
    using assms by (auto simp: turn_log_def io_bind_Inr)
  have "log_effect (trunc pos) (vp_duration vp) n (passed, state) n1" by (rule log_recorded [OF log])
  moreover have "clock_moves v \<Longrightarrow> media_now v n \<le> media_now v n1" using forwardD [OF forward_log log] .
  ultimately show thesis
    using True more by (intro report [of passed state n1]) (auto simp: log_effect_def reported_def split: if_splits)
qed

lemma turn_advance_result:
  assumes "turn_advance v speed passed vp pos n = (Inr t, n')"
  obtains "passed" and "t = Finished SR_SUCCESS"
  | p where "\<not> passed" and "p = min (of_int (vp_duration vp)) (pos + (media_now v n - vp_last_iter vp) * speed)"
      and "t = Another (vp\<lparr>vp_pos := Some p, vp_last_iter := media_now v n\<rparr>)"
      and "clock_moves v \<Longrightarrow> media_now v n + 1 \<le> media_now v n'"
proof -
  define p where "p = min (of_int (vp_duration vp)) (pos + (media_now v n - vp_last_iter vp) * speed)"
  obtain n1 where n1: "call_progress v p (vp_duration vp) n = (Inr (), n1)" by (simp add: call_progress_def)
  have media_pause: "media_pause v 1 n1 = (Inr (), n')"
    and t: "t = (if passed then Finished SR_SUCCESS else Another (vp\<lparr>vp_pos := Some p, vp_last_iter := media_now v n\<rparr>))"
    using assms n1
    by (auto simp: turn_advance_def Let_def io_bind_Inr media_clock_def VIDEO_SLEEP_THRESHOLD_def media_pause_def p_def media_now_def)
  have "media_now v n + 1 \<le> media_now v n'" if "clock_moves v"
    using forwardD [OF forward_world(4) [OF that] n1] lastsD [OF forward_world(5) [OF that] media_pause] by simp
  then show thesis using t that p_def by (cases passed) simp_all
qed

section \<open>The verdict\<close>

text \<open>What a result of \<open>study_video\<close> rests on: the reports of the run, in order\<close>

definition none_passed :: "media_report list \<Rightarrow> bool" where
  "none_passed rs = list_all (\<lambda>r. \<not> mr_passed r) rs"

definition refusals :: "media_report list \<Rightarrow> nat" where
  "refusals rs = length (filter (\<lambda>r. mr_status r = 403) rs)"

definition full_reports :: "media_report list \<Rightarrow> nat" where
  "full_reports rs = length (filter full_report rs)"

definition verdict_earned :: "study_result \<Rightarrow> media_report list \<Rightarrow> bool" where
  "verdict_earned r rs =
     (case r of
        SR_SUCCESS \<Rightarrow> rs \<noteq> [] \<and> mr_passed (last rs) \<and> mr_status (last rs) = 200 \<and> none_passed (butlast rs)
      | SR_FORBIDDEN \<Rightarrow> 3 \<le> refusals rs \<and> mr_status (last rs) = 403 \<and> none_passed rs
      | SR_TIMEOUT \<Rightarrow> 10 \<le> full_reports rs \<and> none_passed rs
      | SR_ERROR \<Rightarrow> rs = [] \<or> mr_status (last rs) \<notin> {200, 403} \<and> none_passed rs
      | SR_CANCELLED \<Rightarrow> none_passed rs)"

lemma counts_simps [simp]:
  "none_passed []" "none_passed (rs @ [r]) \<longleftrightarrow> none_passed rs \<and> \<not> mr_passed r"
  "refusals (rs @ [r]) = refusals rs + (if mr_status r = 403 then 1 else 0)"
  "full_reports (rs @ [r]) = full_reports rs + (if full_report r then 1 else 0)"
  by (simp_all add: none_passed_def refusals_def full_reports_def)

lemma reported_simps [simp]:
  "mr_passed (reported vp pos passed state) = passed" "mr_status (reported vp pos passed state) = state"
  by (simp_all add: reported_def)

definition run_inv :: "vplay \<Rightarrow> media_report list \<Rightarrow> bool" where
  "run_inv vp rs \<longleftrightarrow> vp_forbidden vp \<le> refusals rs \<and> vp_saturated vp \<le> full_reports rs \<and> none_passed rs"

lemma counted_full: "run_inv vp rs \<Longrightarrow> \<not> passed \<Longrightarrow> counted vp pos passed state \<le> full_reports (rs @ [reported vp pos passed state])"
  by (auto simp: counted_def is_full_def run_inv_def full_reported)

definition log_end_ok :: "log_end \<Rightarrow> media_report list \<Rightarrow> bool" where
  "log_end_ok e rs =
     (case e of Return r \<Rightarrow> verdict_earned r rs | Next_turn vp' \<Rightarrow> run_inv vp' rs
      | Go_on passed vp' \<Rightarrow> if passed then verdict_earned SR_SUCCESS rs else run_inv vp' rs)"

lemma after_report_verdict:
  assumes "after_report v vp pos passed 200 n = (Inr e, n')" and inv: "run_inv vp rs"
  shows "mn_reports n' = mn_reports n \<and> log_end_ok e (rs @ [reported vp pos passed 200])"
proof
  show "mn_reports n' = mn_reports n" using keepsD [OF keeps_after_report assms(1), of mn_reports] by simp
  have np: "none_passed rs" using inv by (simp add: run_inv_def)
  show "log_end_ok e (rs @ [reported vp pos passed 200])"
    using assms(1)
  proof (cases rule: after_report_cases)
    case 1
    then have "\<not> passed" by (simp add: is_full_def)
    then show ?thesis
      using counted_full [OF inv, of passed pos 200] 1 np by (simp add: verdict_earned_def log_end_ok_def)
  next
    case (2 w)
    then show ?thesis
      using inv counted_full [OF inv, of passed pos 200] np by (simp add: log_end_ok_def run_inv_def verdict_earned_def)
  qed
qed

lemma after_forbidden_verdict:
  assumes "after_forbidden v job vp pos False n = (Inr e, n')" and inv: "run_inv vp rs"
  shows "mn_reports n' = mn_reports n \<and> log_end_ok e (rs @ [reported vp pos False 403])"
  using assms(1)
proof (cases rule: after_forbidden_cases)
  case 1
  then show ?thesis using inv by (simp add: verdict_earned_def run_inv_def log_end_ok_def)
next
  case (2 n2)
  define vp1 where "vp1 = vp\<lparr>vp_forbidden := Suc (vp_forbidden vp)\<rparr>"
  have "mn_reports n' = mn_reports n"
    using keepsD [OF keeps_after_report 2(2), of mn_reports] 2(3) by simp
  moreover obtain w where "e = Go_on False (vp1\<lparr>vp_saturated := counted vp1 pos False 403, vp_wait := w, vp_last_log := pos\<rparr>)"
    using 2(2) unfolding vp1_def [symmetric] by (cases rule: after_report_cases) (auto simp: is_full_def)
  ultimately show ?thesis using inv by (simp add: log_end_ok_def run_inv_def vp1_def counted_def is_full_def)
next
  case (3 d)
  then show ?thesis using inv by (simp add: log_end_ok_def run_inv_def apply_refresh_def)
qed

lemma turn_log_verdict:
  assumes "turn_log v course job dtype vp pos n = (Inr e, n')" and "mn_reports n = base @ rs" and inv: "run_inv vp rs"
  shows "\<exists>rs'. mn_reports n' = base @ rs' \<and> log_end_ok e rs'"
  using assms(1)
proof (cases rule: turn_log_cases)
  case idle
  then show ?thesis using assms(2) inv by (auto simp: log_end_ok_def)
next
  case (report passed state n1)
  have rs1: "mn_reports n1 = base @ (rs @ [reported vp pos passed state])" using report(3) assms(2) by simp
  consider "state = 403" "\<not> passed" | "state = 200" | "state \<notin> {200, 403}" "\<not> passed" using report(2) by auto
  then show ?thesis
  proof cases
    case 1
    then show ?thesis using after_forbidden_verdict [OF _ inv] report(6) rs1 by (metis (full_types))
  next
    case 2
    then show ?thesis using after_report_verdict [OF _ inv] report(8) rs1 by metis
  next
    case 3
    then have "e = Return SR_ERROR" "n' = n1" using report(7) by simp_all
    then show ?thesis using rs1 3 inv
      by (intro exI [of _ "rs @ [reported vp pos passed state]"]) (simp add: log_end_ok_def verdict_earned_def run_inv_def)
  qed
qed

lemma turn_verdict:
  assumes "video_turn v course job speed dtype vp n = (Inr t, n')" and "mn_reports n = base @ rs" and inv: "run_inv vp rs"
  shows "\<exists>rs'. mn_reports n' = base @ rs' \<and>
    (case t of Finished r \<Rightarrow> verdict_earned r rs' | Another vp' \<Rightarrow> run_inv vp' rs')"
proof -
  obtain stop n1 where stop: "stop_requested v n = (Inr stop, n1)" by (simp add: stop_requested_def case_prod_beta Let_def)
  have r1: "mn_reports n1 = base @ rs" using keepsD [OF keeps_world(3) stop, of mn_reports] assms(2) by simp
  show ?thesis
  proof (cases stop)
    case True
    then have "t = Finished SR_CANCELLED" "n' = n1" using assms(1) stop by (simp_all add: video_turn_def io_bind_def io_return_def)
    then show ?thesis using r1 inv by (auto simp: verdict_earned_def run_inv_def)
  next
    case False
    then obtain pos e n2 where log: "turn_log v course job dtype vp pos n1 = (Inr e, n2)"
      and more: "(case e of Return r \<Rightarrow> io_return (Finished r) | Next_turn vp' \<Rightarrow> io_return (Another vp')
                  | Go_on passed vp' \<Rightarrow> turn_advance v speed passed vp' pos) n2 = (Inr t, n')"
      using assms(1) stop by (auto simp: video_turn_def io_bind_Inr split: option.splits)
    obtain rs' where rs': "mn_reports n2 = base @ rs'" "log_end_ok e rs'" using turn_log_verdict [OF log r1 inv] by blast
    show ?thesis
    proof (cases e)
      case (Go_on passed vp')
      then have adv: "turn_advance v speed passed vp' pos n2 = (Inr t, n')" using more by simp
      have "mn_reports n' = base @ rs'" using keepsD [OF keeps_turn_advance adv, of mn_reports] rs' by simp
      moreover from adv have "case t of Finished r \<Rightarrow> verdict_earned r rs' | Another vp' \<Rightarrow> run_inv vp' rs'"
        by (cases rule: turn_advance_result) (use rs'(2) Go_on in \<open>simp_all add: log_end_ok_def run_inv_def\<close>)
      ultimately show ?thesis by blast
    qed (use more rs' in \<open>auto simp: log_end_ok_def\<close>)
  qed
qed

lemma loop_verdict:
  assumes "video_loop v course job speed dtype vp n = Some y"
  shows "\<forall>r rs. fst y = Inr r \<longrightarrow> mn_reports n = base @ rs \<longrightarrow> run_inv vp rs \<longrightarrow>
          (\<exists>rs'. mn_reports (snd y) = base @ rs' \<and> verdict_earned r rs')"
proof (rule video_loop.raw_induct [OF _ assms, where P = "\<lambda>v course job speed dtype vp n y.
    \<forall>r rs. fst y = Inr r \<longrightarrow> mn_reports n = base @ rs \<longrightarrow> run_inv vp rs \<longrightarrow>
      (\<exists>rs'. mn_reports (snd y) = base @ rs' \<and> verdict_earned r rs')"], intro allI impI)
  fix f v course job speed dtype vp n y r rs
  assume IH: "\<And>v course job speed dtype vp n y. f v course job speed dtype vp n = Some y \<Longrightarrow>
      \<forall>r rs. fst y = Inr r \<longrightarrow> mn_reports n = base @ rs \<longrightarrow> run_inv vp rs \<longrightarrow>
        (\<exists>rs'. mn_reports (snd y) = base @ rs' \<and> verdict_earned r rs')"
    and step: "(case video_turn v course job speed dtype vp n of
        (Inl e, n1) \<Rightarrow> Some (Inl e, n1)
      | (Inr (Finished r), n1) \<Rightarrow> Some (Inr r, n1)
      | (Inr (Another vp'), n1) \<Rightarrow> f v course job speed dtype vp' n1) = Some y"
    and y: "fst y = Inr r" and rs: "mn_reports n = base @ rs" and inv: "run_inv vp rs"
  obtain t n1 where t: "video_turn v course job speed dtype vp n = (Inr t, n1)"
    using step y by (auto split: prod.splits sum.splits vturn.splits)
  obtain rs1 where rs1: "mn_reports n1 = base @ rs1"
    "case t of Finished r \<Rightarrow> verdict_earned r rs1 | Another vp' \<Rightarrow> run_inv vp' rs1"
    using turn_verdict [OF t rs inv] by blast
  show "\<exists>rs'. mn_reports (snd y) = base @ rs' \<and> verdict_earned r rs'"
  proof (cases t)
    case (Another vp')
    then have "f v course job speed dtype vp' n1 = Some y" using step t by simp
    from IH [OF this] show ?thesis using y rs1 Another by simp
  next
    case (Finished r')
    then show ?thesis using step t y rs1 by auto
  qed
qed

text \<open>What comes before the loop\<close>

definition first_report :: "int \<Rightarrow> int \<Rightarrow> bool \<Rightarrow> int \<Rightarrow> media_report" where
  "first_report start duration passed state =
     \<lparr>mr_pos = start, mr_duration = duration, mr_passed = passed, mr_status = state\<rparr>"

lemma play_video_from_result:
  assumes "play_video_from v course job dtype dtoken duration start n = (Inr x, n')"
  obtains passed state wait t where "mn_bases n' = mn_bases n @ [of_int start]" and "passed \<Longrightarrow> state = 200"
    and "mn_reports n' = mn_reports n @ [first_report start duration passed state]"
    and "clock_moves v \<Longrightarrow> media_now v n \<le> t \<and> t \<le> media_now v n'"
    and "x = (if passed then Inl SR_SUCCESS else
            Inr \<lparr>vp_pos = Some (of_int start), vp_last_log = 0, vp_last_iter = t, vp_wait = wait,
                 vp_duration = duration, vp_token = dtoken, vp_forbidden = 0, vp_saturated = 0\<rparr>)"
proof -
  define n1 where "n1 = n\<lparr>mn_bases := mn_bases n @ [of_int start]\<rparr>"
  obtain wait n2 n3 passed state where draw: "draw_wait v duration n1 = (Inr wait, n2)"
    and prog: "call_progress v (of_int start) duration n2 = (Inr (), n3)"
    and log: "video_progress_log v course job dtoken duration start dtype n3 = (Inr (passed, state), n')"
    and x: "x = (if passed then Inl SR_SUCCESS else
            Inr \<lparr>vp_pos = Some (of_int start), vp_last_log = 0, vp_last_iter = media_now v n, vp_wait = wait,
                 vp_duration = duration, vp_token = dtoken, vp_forbidden = 0, vp_saturated = 0\<rparr>)"
    using assms
    by (auto simp: play_video_from_def io_bind_Inr set_base_def media_clock_def media_now_def n1_def split: if_splits)
  note eff = log_recorded [OF log, unfolded log_effect_def]
  have "mn_bases n2 = mn_bases n1" "mn_reports n2 = mn_reports n1" "mn_bases n3 = mn_bases n2" "mn_reports n3 = mn_reports n2"
    using keepsD [OF keeps_draw draw, of mn_bases] keepsD [OF keeps_draw draw, of mn_reports]
      keepsD [OF keeps_world(4) prog, of mn_bases] keepsD [OF keeps_world(4) prog, of mn_reports] by simp_all
  moreover have "media_now v n \<le> media_now v n'" if "clock_moves v"
    using forwardD [OF forward_draw [OF that] draw] forwardD [OF forward_world(4) [OF that] prog]
      forwardD [OF forward_log [OF that] log] by (simp add: n1_def media_now_def)
  ultimately show thesis using eff x that [of passed state "media_now v n" wait] by (auto simp: n1_def first_report_def)
qed

lemma study_start_result:
  assumes "study_start v course job dtype n = (Inr x, n')"
  obtains "x = Inl SR_ERROR" and "mn_reports n' = mn_reports n" and "mn_bases n' = mn_bases n"
    and "clock_moves v \<Longrightarrow> media_now v n \<le> media_now v n'"
  | dtoken duration start n1 where "play_video_from v course job dtype dtoken duration start n1 = (Inr x, n')"
    and "mn_reports n1 = mn_reports n" and "mn_bases n1 = mn_bases n" and "clock_moves v \<Longrightarrow> media_now v n \<le> media_now v n1"
proof -
  obtain info n1 where info: "video_info v job n = (Inr info, n1)"
    using assms by (auto simp: study_start_def io_bind_Inr)
  have same: "mn_reports n1 = mn_reports n" "mn_bases n1 = mn_bases n"
    using keepsD [OF keeps_info info, of mn_reports] keepsD [OF keeps_info info, of mn_bases] by simp_all
  have later: "clock_moves v \<Longrightarrow> media_now v n \<le> media_now v n1" using forwardD [OF forward_info info] .
  show thesis
  proof (cases info)
    case None
    then show thesis using assms info same later that(1) by (simp add: study_start_def io_bind_def io_return_def)
  next
    case (Some data)
    then obtain d where d: "data = PDict d" using assms info
      by (cases data) (auto simp: study_start_def io_bind_Inr)
    show thesis
    proof (cases "get_key d ''status'' = Inr (PStr ''success'')")
      case True
      then show thesis using assms info Some d same later that(2) [of _ _ _ n1]
        by (auto simp: study_start_def io_bind_Inr)
    next
      case False
      then have "x = Inl SR_ERROR" "n' = n1" using assms info Some d
        by (auto simp: study_start_def io_bind_Inr split: if_splits)
      then show thesis using same later that(1) by simp
    qed
  qed
qed

lemma study_video_verdict:
  assumes "study_video v course job speed dtype n = Some (Inr r, n')"
  shows "\<exists>rs. mn_reports n' = mn_reports n @ rs \<and> verdict_earned r rs"
proof -
  obtain x n1 where start: "study_start v course job dtype n = (Inr x, n1)"
    and more: "case x of Inl r' \<Rightarrow> r' = r \<and> n1 = n' | Inr vp \<Rightarrow> video_loop v course job speed dtype vp n1 = Some (Inr r, n')"
    using assms by (auto simp: study_video_def split: prod.splits sum.splits)
  from start show ?thesis
  proof (cases rule: study_start_result)
    case 1
    then show ?thesis using more by (auto simp: verdict_earned_def)
  next
    case (2 dtoken duration start n2)
    from 2(1) show ?thesis
    proof (cases rule: play_video_from_result)
      case (1 passed state wait t)
      define rep where "rep = first_report start duration passed state"
      have reps: "mn_reports n1 = mn_reports n @ [rep]" using 1(3) 2(2) by (simp add: rep_def)
      show ?thesis
      proof (cases passed)
        case True
        then show ?thesis using 1 more reps
          by (auto intro!: exI [of _ "[rep]"] simp: verdict_earned_def rep_def first_report_def none_passed_def)
      next
        case False
        then obtain vp where x: "x = Inr vp" and "vp_forbidden vp = 0" "vp_saturated vp = 0" using 1(5) by simp
        then have "run_inv vp [rep]" using False by (simp add: run_inv_def none_passed_def rep_def first_report_def)
        then show ?thesis using loop_verdict [of v course job speed dtype vp n1 _ "mn_reports n"] more x reps by fastforce
      qed
    qed
  qed
qed

text \<open>
  C33: the result of \<open>study_video\<close> is what the platform answered to the progress reports it was sent:
  \<open>SUCCESS\<close> only where the last report was answered 200 with \<open>isPassed\<close> (and no earlier one was),
  \<open>FORBIDDEN\<close> only after three reports answered 403, the last among them, \<open>TIMEOUT\<close> only after ten
  reports of the whole duration that were answered 200 without \<open>isPassed\<close>, \<open>ERROR\<close> only where no
  report was made or the last one was answered with another status, and \<open>CANCELLED\<close> only with no
  report passed.
\<close>

theorem video_verdict_earned:
  assumes "study_video v course job speed dtype n = Some (Inr r, n')"
  shows "\<exists>rs. mn_reports n' = mn_reports n @ rs \<and> verdict_earned r rs"
  using assms by (rule study_video_verdict)

section \<open>A task point that is a video\<close>

text \<open>
  \<open>process_job\<close> with the two runs it makes of a video, as video and, where that fails, as audio; what
  they answer are the observations of \<open>process_job\<close>.
\<close>

definition media_result :: "http_exc + study_result \<Rightarrow> py_exc + study_result" where
  "media_result r = (case r of Inl e \<Rightarrow> Inl (Exc ''Exception'' (exc_str e)) | Inr x \<Rightarrow> Inr x)"

definition media_fails :: "http_exc + study_result \<Rightarrow> bool" where
  "media_fails r = (case r of Inl _ \<Rightarrow> False | Inr x \<Rightarrow> is_failure x)"

definition study_video_job ::
  "'w media \<Rightarrow> pydict \<Rightarrow> pydict \<Rightarrow> rat \<Rightarrow> job_obs \<Rightarrow> ('w, 'z) mnet_scheme
     \<Rightarrow> ((py_exc + study_result) \<times> ('w, 'z) mnet_scheme) option" where
  "study_video_job v course job speed ob n =
     (if jo_stop ob then Some (process_job course job ob, n)
      else case study_video v course job speed ''Video'' n of
             None \<Rightarrow> None
           | Some (as_video, n1) \<Rightarrow>
               (if media_fails as_video
                then (case study_video v course job speed ''Audio'' n1 of
                        None \<Rightarrow> None
                      | Some (as_audio, n2) \<Rightarrow>
                          Some (process_job course job (ob\<lparr>jo_video := media_result as_video, jo_audio := media_result as_audio\<rparr>), n2))
                else Some (process_job course job (ob\<lparr>jo_video := media_result as_video\<rparr>), n1)))"

lemma process_video_success:
  assumes "process_job course job ob = Inr SR_SUCCESS" and "dget job ''type'' = PStr ''video''"
  shows "jo_video ob = Inr SR_SUCCESS \<or> jo_audio ob = Inr SR_SUCCESS \<and> (\<exists>r. jo_video ob = Inr r \<and> is_failure r)"
  using assms
  by (auto simp: process_job_def reading_def study_media_def is_failure_def split: if_splits option.splits sum.splits)

text \<open>A video task point counts as done only where the platform marked it as passed\<close>

lemma done_video_was_passed:
  assumes run: "study_video_job v course job speed ob n = Some (Inr SR_SUCCESS, n')" and video: "dget job ''type'' = PStr ''video''"
  shows "\<exists>rs. mn_reports n' = mn_reports n @ rs \<and> rs \<noteq> [] \<and> mr_passed (last rs) \<and> mr_status (last rs) = 200"
proof -
  have stop: "\<not> jo_stop ob" using run by (auto simp: study_video_job_def process_job_def split: if_splits)
  then obtain r1 n1 where v1: "study_video v course job speed ''Video'' n = Some (r1, n1)"
    using run by (auto simp: study_video_job_def split: option.splits prod.splits)
  show ?thesis
  proof (cases "media_fails r1")
    case False
    then have "process_job course job (ob\<lparr>jo_video := media_result r1\<rparr>) = Inr SR_SUCCESS" "n' = n1"
      using run stop v1 by (simp_all add: study_video_job_def)
    from process_video_success [OF this(1) video] have "r1 = Inr SR_SUCCESS"
      using False by (cases r1) (auto simp: media_result_def media_fails_def)
    with study_video_verdict [of v course job speed "''Video''" n SR_SUCCESS n1] v1 \<open>n' = n1\<close> show ?thesis
      by (simp add: verdict_earned_def) blast
  next
    case True
    then obtain x1 where r1: "r1 = Inr x1" "is_failure x1" by (auto simp: media_fails_def split: sum.splits)
    obtain r2 where v2: "study_video v course job speed ''Audio'' n1 = Some (r2, n')"
      and job: "process_job course job (ob\<lparr>jo_video := media_result r1, jo_audio := media_result r2\<rparr>) = Inr SR_SUCCESS"
      using run stop v1 True by (auto simp: study_video_job_def split: option.splits prod.splits)
    from process_video_success [OF job video] have r2: "r2 = Inr SR_SUCCESS"
      using r1(2) by (cases r2) (auto simp: media_result_def r1(1) is_failure_def)
    obtain rs1 where "mn_reports n1 = mn_reports n @ rs1"
      using study_video_verdict [OF v1 [unfolded r1(1)]] by blast
    moreover obtain rs2 where "mn_reports n' = mn_reports n1 @ rs2" "verdict_earned SR_SUCCESS rs2"
      using study_video_verdict [OF v2 [unfolded r2]] by blast
    ultimately show ?thesis by (intro exI [of _ "rs1 @ rs2"]) (simp add: verdict_earned_def)
  qed
qed

section \<open>The loop ends\<close>

text \<open>
  What a turn that is not the last one does: the position moves on with the clock, or (after a 403
  answer) a refresh has set it; a report at the end of the video counts.
\<close>

definition advanced :: "rat \<Rightarrow> vplay \<Rightarrow> rat \<Rightarrow> rat \<Rightarrow> vplay \<Rightarrow> bool" where
  "advanced speed vp pos t vp' \<longleftrightarrow>
     vp_duration vp' = vp_duration vp \<and> vp_last_iter vp' = t
     \<and> vp_pos vp' = Some (min (of_int (vp_duration vp)) (pos + (t - vp_last_iter vp) * speed))
     \<and> (vp_forbidden vp < 2 \<and> vp_forbidden vp' = Suc (vp_forbidden vp)
        \<or> vp_forbidden vp' = vp_forbidden vp
          \<and> (pos = of_int (vp_duration vp) \<longrightarrow> vp_saturated vp' = Suc (vp_saturated vp) \<and> vp_saturated vp' < 10))"

definition refreshed :: "vplay \<Rightarrow> vplay \<Rightarrow> bool" where
  "refreshed vp vp' \<longleftrightarrow>
     vp_forbidden vp < 2 \<and> vp_forbidden vp' = Suc (vp_forbidden vp) \<and> vp_last_iter vp' = vp_last_iter vp"

text \<open>The reporting part of such a turn\<close>

definition log_kept :: "vplay \<Rightarrow> rat \<Rightarrow> vplay \<Rightarrow> bool" where
  "log_kept vp pos vp' \<longleftrightarrow> vp_duration vp' = vp_duration vp \<and> vp_last_iter vp' = vp_last_iter vp
     \<and> (vp_forbidden vp < 2 \<and> vp_forbidden vp' = Suc (vp_forbidden vp)
        \<or> vp_forbidden vp' = vp_forbidden vp
          \<and> (pos = of_int (vp_duration vp) \<longrightarrow> vp_saturated vp' = Suc (vp_saturated vp) \<and> vp_saturated vp' < 10))"

lemma turn_log_goes_on:
  assumes "turn_log v course job dtype vp pos n = (Inr (Go_on False vp'), n')" and "clock_moves v"
  shows "log_kept vp pos vp' \<and> media_now v n \<le> media_now v n'"
  using assms(1)
proof (cases rule: turn_log_cases)
  case idle
  then show ?thesis by (auto simp: log_kept_def report_is_due_def)
next
  case (report passed state n1)
  show ?thesis
  proof (cases "state = 403")
    case True
    from report(6) [OF True] show ?thesis
    proof (cases rule: after_forbidden_cases)
      case (2 n2)
      define vp1 where "vp1 = vp\<lparr>vp_forbidden := Suc (vp_forbidden vp)\<rparr>"
      have "media_now v n2 \<le> media_now v n'" by (rule forwardD [OF forward_after_report [OF assms(2)] 2(2)])
      moreover from 2(2) have "log_kept vp pos vp'"
        by (cases rule: after_report_cases) (use 2(1) in \<open>auto simp: log_kept_def\<close>)
      ultimately show ?thesis using report(5) 2(5) assms(2) by simp
    qed simp_all
  next
    case False
    show ?thesis
    proof (cases "passed \<or> state = 200")
      case True
      have "media_now v n1 \<le> media_now v n'" by (rule forwardD [OF forward_after_report [OF assms(2)] report(8) [OF True]])
      moreover from report(8) [OF True] have "log_kept vp pos vp'"
        by (cases rule: after_report_cases) (use True in \<open>auto simp: log_kept_def counted_def is_full_def split: if_splits\<close>)
      ultimately show ?thesis using report(5) assms(2) by simp
    qed (use report(7) False in simp)
  qed
qed

lemma turn_log_next:
  assumes "turn_log v course job dtype vp pos n = (Inr (Next_turn vp'), n')"
  shows "refreshed vp vp' \<and> (clock_moves v \<longrightarrow> media_now v n + 2 \<le> media_now v n')
    \<and> (\<exists>d. vp_pos vp' = (case map_of d ''playTime'' of None \<Rightarrow> vp_pos vp | Some t \<Rightarrow> media_num v t)
         \<and> mn_bases n' = mn_bases n @ (case media_num v (dget d ''playTime'') of None \<Rightarrow> [] | Some b \<Rightarrow> [b]))"
  using assms
proof (cases rule: turn_log_cases)
  case (report passed state n1)
  have "state = 403"
  proof (rule ccontr)
    assume "state \<noteq> 403"
    then have "after_report v vp pos passed state n1 = (Inr (Next_turn vp'), n')" using report(7,8) by auto
    then show False by (cases rule: after_report_cases) simp_all
  qed
  from report(6) [OF this] show ?thesis
  proof (cases rule: after_forbidden_cases)
    case (2 n2)
    from 2(2) show ?thesis by (cases rule: after_report_cases) simp_all
  next
    case (3 d)
    then show ?thesis using report(4,5) by (auto simp: refreshed_def apply_refresh_def intro!: exI [of _ d] cong: option.case_cong)
  qed simp
qed simp

lemma video_turn_another:
  assumes "video_turn v course job speed dtype vp n = (Inr (Another vp'), n')" and "clock_moves v"
  obtains (advance) pos t where "vp_pos vp = Some pos" and "media_now v n \<le> t" and "t + 1 \<le> media_now v n'"
      and "advanced speed vp pos t vp'"
  | (refresh) "refreshed vp vp'" and "media_now v n + 2 \<le> media_now v n'"
proof -
  obtain n1 pos e n2 where stop: "stop_requested v n = (Inr False, n1)" and pos: "vp_pos vp = Some pos"
    and log: "turn_log v course job dtype vp pos n1 = (Inr e, n2)"
    and more: "(case e of Return r \<Rightarrow> io_return (Finished r) | Next_turn vp' \<Rightarrow> io_return (Another vp')
                | Go_on passed vp' \<Rightarrow> turn_advance v speed passed vp' pos) n2 = (Inr (Another vp'), n')"
    using assms(1) by (auto simp: video_turn_def io_bind_Inr split: option.splits if_splits)
  have n1: "media_now v n \<le> media_now v n1" by (rule forwardD [OF forward_world(3) [OF assms(2)] stop])
  show thesis
  proof (cases e)
    case (Go_on passed vp1)
    then have "turn_advance v speed passed vp1 pos n2 = (Inr (Another vp'), n')" using more by simp
    then show thesis
    proof (cases rule: turn_advance_result)
      case (2 p)
      then have log': "turn_log v course job dtype vp pos n1 = (Inr (Go_on False vp1), n2)" using log Go_on by simp
      note kept = turn_log_goes_on [OF log' assms(2)]
      show thesis
        by (rule advance [of pos "media_now v n2"]) (use pos 2 kept n1 assms(2) in \<open>auto simp: advanced_def log_kept_def\<close>)
    qed simp
  next
    case (Next_turn vp1)
    then have "vp1 = vp'" "n2 = n'" using more by simp_all
    then show thesis using refresh turn_log_next [of v course job dtype vp pos n1 vp' n'] log Next_turn n1 assms(2) by auto
  qed (use more in simp)
qed

text \<open>The measure: the 403 answers left, the seconds left at the speed, the full reports left\<close>

definition seconds_left :: "rat \<Rightarrow> vplay \<Rightarrow> nat" where
  "seconds_left speed vp =
     (case vp_pos vp of
        None \<Rightarrow> 0
      | Some p \<Rightarrow> (if p = of_int (vp_duration vp) then 0
                  else if of_int (vp_duration vp) < p then 1 else nat \<lceil>(of_int (vp_duration vp) - p) / speed\<rceil>))"

definition turn_order :: "rat \<Rightarrow> (vplay \<times> vplay) set" where
  "turn_order speed = inv_image (less_than <*lex*> less_than <*lex*> less_than)
     (\<lambda>vp. (2 - vp_forbidden vp, seconds_left speed vp, 10 - vp_saturated vp))"

lemma wf_turn_order: "wf (turn_order speed)"
  by (simp add: turn_order_def wf_lex_prod)

lemma seconds_left_step:
  assumes "0 < speed" and "vp_pos vp = Some p" and "vp_duration vp' = vp_duration vp" and "1 \<le> s"
    and "vp_pos vp' = Some (min (of_int (vp_duration vp)) (p + s * speed))" and "p \<noteq> of_int (vp_duration vp)"
  shows "seconds_left speed vp' < seconds_left speed vp"
proof -
  define d :: rat where "d = of_int (vp_duration vp)"
  have step: "speed \<le> s * speed" using assms(1,4) by simp
  show ?thesis
  proof (cases "p + s * speed < d")
    case True
    then have p: "p < d" using step assms(1) by linarith
    have "(d - (p + s * speed)) / speed = (d - p) / speed - s" using assms(1) by (simp add: field_simps)
    then have "(d - (p + s * speed)) / speed \<le> (d - p) / speed - 1" using assms(4) by simp
    then have "\<lceil>(d - (p + s * speed)) / speed\<rceil> \<le> \<lceil>(d - p) / speed - 1\<rceil>" by (rule ceiling_mono)
    moreover have "0 < \<lceil>(d - p) / speed\<rceil>" using p assms(1) by simp
    ultimately have "nat \<lceil>(d - (p + s * speed)) / speed\<rceil> < nat \<lceil>(d - p) / speed\<rceil>" by simp
    then show ?thesis using True p assms(2,3,5) by (simp add: seconds_left_def d_def min_def)
  next
    case False
    then have "seconds_left speed vp' = 0" using assms(3,5) by (simp add: seconds_left_def d_def min_def)
    moreover have "0 < \<lceil>(d - p) / speed\<rceil>" if "p < d" using that assms(1) by simp
    then have "0 < seconds_left speed vp" using assms(2,6) by (auto simp: seconds_left_def d_def)
    ultimately show ?thesis by simp
  qed
qed

lemma turn_order_step:
  assumes "video_turn v course job speed dtype vp n = (Inr (Another vp'), n')" and "clock_moves v" and "0 < speed"
  shows "vp_last_iter vp \<le> media_now v n \<Longrightarrow> vp_last_iter vp' + 1 \<le> media_now v n'"
    and "vp_last_iter vp + 1 \<le> media_now v n \<Longrightarrow> (vp', vp) \<in> turn_order speed"
proof -
  show "vp_last_iter vp' + 1 \<le> media_now v n'" if "vp_last_iter vp \<le> media_now v n"
    using assms(1,2) by (cases rule: video_turn_another) (use that in \<open>auto simp: advanced_def refreshed_def\<close>)
  show "(vp', vp) \<in> turn_order speed" if *: "vp_last_iter vp + 1 \<le> media_now v n"
    using assms(1,2)
  proof (cases rule: video_turn_another)
    case (advance pos t)
    show ?thesis
    proof (cases "vp_forbidden vp' = vp_forbidden vp")
      case False
      then show ?thesis using advance(4) by (auto simp: advanced_def turn_order_def)
    next
      case same: True
      show ?thesis
      proof (cases "pos = of_int (vp_duration vp)")
        case True
        have "0 \<le> (t - vp_last_iter vp) * speed" using advance(2) * assms(3) by simp
        then have "seconds_left speed vp' = 0" "seconds_left speed vp = 0"
          using advance(1,4) True by (simp_all add: advanced_def seconds_left_def min_def)
        then show ?thesis using advance(4) True same by (auto simp: advanced_def turn_order_def)
      next
        case False
        have "seconds_left speed vp' < seconds_left speed vp"
          by (rule seconds_left_step [where s = "t - vp_last_iter vp" and p = pos])
             (use advance * assms(3) False in \<open>auto simp: advanced_def\<close>)
        then show ?thesis using same by (simp add: turn_order_def)
      qed
    qed
  next
    case refresh
    then show ?thesis by (auto simp: refreshed_def turn_order_def)
  qed
qed

lemma loop_returns:
  assumes "clock_moves v" and "0 < speed"
  shows "vp_last_iter vp + 1 \<le> media_now v n \<Longrightarrow> \<exists>y. video_loop v course job speed dtype vp n = Some y"
  using wf_turn_order [of speed]
proof (induction vp arbitrary: n rule: wf_induct_rule)
  case (less vp)
  obtain r n1 where turn: "video_turn v course job speed dtype vp n = (r, n1)" by (metis surj_pair)
  show ?case
  proof (cases "\<exists>vp'. r = Inr (Another vp')")
    case True
    then obtain vp' where r: "r = Inr (Another vp')" by blast
    have "(vp', vp) \<in> turn_order speed" "vp_last_iter vp' + 1 \<le> media_now v n1"
      using turn_order_step [OF turn [unfolded r] assms] less(2) by simp_all
    then show ?thesis using less(1) turn r by (subst video_loop.simps) simp
  next
    case False
    then show ?thesis using turn
      by (subst video_loop.simps) (auto split: sum.splits vturn.splits)
  qed
qed

lemma loop_returns_first:
  assumes "clock_moves v" and "0 < speed" and "vp_last_iter vp \<le> media_now v n"
  shows "\<exists>y. video_loop v course job speed dtype vp n = Some y"
proof -
  obtain r n1 where turn: "video_turn v course job speed dtype vp n = (r, n1)" by (metis surj_pair)
  show ?thesis
  proof (cases "\<exists>vp'. r = Inr (Another vp')")
    case True
    then obtain vp' where r: "r = Inr (Another vp')" by blast
    show ?thesis
      using loop_returns [OF assms(1,2) turn_order_step(1) [OF turn [unfolded r] assms]] turn r
      by (subst video_loop.simps) simp
  next
    case False
    then show ?thesis using turn by (subst video_loop.simps) (auto split: sum.splits vturn.splits)
  qed
qed

text \<open>
  C34: \<open>study_video\<close> returns or raises, whatever the platform answers, as long as time passes: a video
  the platform never marks as passed does not hold its worker for ever.
\<close>

theorem video_study_ends:
  assumes "clock_moves v" and "0 < speed"
  shows "\<exists>y. study_video v course job speed dtype n = Some y"
proof -
  obtain r n1 where start: "study_start v course job dtype n = (r, n1)" by (metis surj_pair)
  show ?thesis
  proof (cases "\<exists>vp. r = Inr (Inr vp)")
    case True
    then obtain vp where r: "r = Inr (Inr vp)" by blast
    have "vp_last_iter vp \<le> media_now v n1"
      using start [unfolded r]
    proof (cases rule: study_start_result)
      case (2 dtoken duration start n2)
      from 2(1) show ?thesis
        by (cases rule: play_video_from_result) (use assms(1) in \<open>auto split: if_splits\<close>)
    qed simp
    then show ?thesis using loop_returns_first [OF assms] start r by (simp add: study_video_def)
  next
    case False
    then show ?thesis using start by (auto simp: study_video_def split: sum.splits)
  qed
qed

section \<open>The claims\<close>

text \<open>
  \<open>watchable v speed t0 bs n p\<close>: the position \<open>p\<close> is one of the positions \<open>bs\<close> the playback was set to,
  and what could be watched since \<open>t0\<close> at the speed
\<close>

definition watchable :: "rat \<Rightarrow> rat \<Rightarrow> rat list \<Rightarrow> rat \<Rightarrow> rat \<Rightarrow> bool" where
  "watchable speed t0 bs t p \<longleftrightarrow> (\<exists>b \<in> set bs. p \<le> max 0 b + speed * (t - t0))"

lemma watchable_mono:
  assumes "watchable speed t0 bs t p" and "t \<le> t'" and "0 < speed" and "q \<le> p"
  shows "watchable speed t0 (bs @ bs') t' q"
proof -
  obtain b where b: "b \<in> set bs" "p \<le> max 0 b + speed * (t - t0)" using assms(1) by (auto simp: watchable_def)
  have "speed * (t - t0) \<le> speed * (t' - t0)" using assms(2,3) by simp
  then show ?thesis using b assms(4) unfolding watchable_def by (intro bexI [of _ b]) auto
qed

lemma watchable_base: "b \<in> set bs \<Longrightarrow> t0 \<le> t \<Longrightarrow> 0 < speed \<Longrightarrow> q \<le> max 0 b \<Longrightarrow> watchable speed t0 bs t q"
  unfolding watchable_def by (intro bexI [of _ b]) (auto intro: order_trans add_increasing2)

definition claims_watchable :: "rat \<Rightarrow> rat \<Rightarrow> rat list \<Rightarrow> rat \<Rightarrow> media_report list \<Rightarrow> bool" where
  "claims_watchable speed t0 bs t rs \<longleftrightarrow> (\<forall>r \<in> set rs. watchable speed t0 bs t (of_int (mr_pos r)))"

text \<open>The state of the loop at the time \<open>t\<close>\<close>

definition honest :: "rat \<Rightarrow> rat \<Rightarrow> rat list \<Rightarrow> rat \<Rightarrow> media_report list \<Rightarrow> vplay \<Rightarrow> bool" where
  "honest speed t0 bs t rs vp \<longleftrightarrow> claims_watchable speed t0 bs t rs \<and> t0 \<le> vp_last_iter vp \<and> vp_last_iter vp \<le> t
     \<and> (\<forall>p. vp_pos vp = Some p \<longrightarrow> watchable speed t0 bs (vp_last_iter vp) p)"

lemma claims_mono:
  "claims_watchable speed t0 bs t rs \<Longrightarrow> t \<le> t' \<Longrightarrow> 0 < speed \<Longrightarrow> claims_watchable speed t0 (bs @ bs') t' rs"
  unfolding claims_watchable_def using watchable_mono [of speed t0 bs t _ t'] by blast

lemma watchable_report:
  assumes "watchable speed t0 bs t p" and "t0 \<le> t" and "0 < speed"
  shows "watchable speed t0 bs t (of_int (trunc p))"
proof -
  obtain b where b: "b \<in> set bs" "p \<le> max 0 b + speed * (t - t0)" using assms(1) by (auto simp: watchable_def)
  have "0 \<le> max 0 b + speed * (t - t0)" using assms(2,3) by simp
  then have "of_int (trunc p) \<le> max 0 b + speed * (t - t0)" using b(2) trunc_le [of p] by linarith
  then show ?thesis using b(1) by (auto simp: watchable_def)
qed

text \<open>A reporting part makes at most one report, at the position of the turn\<close>

lemma after_forbidden_effect:
  assumes "after_forbidden v job vp pos passed n = (Inr e, n')" and "clock_moves v"
  shows "mn_reports n' = mn_reports n \<and> (\<exists>bs. mn_bases n' = mn_bases n @ bs \<and> length bs \<le> 1) \<and> media_now v n \<le> media_now v n'"
  using assms(1)
proof (cases rule: after_forbidden_cases)
  case (2 n1)
  have "media_now v n1 \<le> media_now v n'" by (rule forwardD [OF forward_after_report [OF assms(2)] 2(2)])
  then show ?thesis
    using 2(3-5) keepsD [OF keeps_after_report 2(2), of mn_reports] keepsD [OF keeps_after_report 2(2), of mn_bases] assms(2)
    by simp
next
  case (3 d)
  then show ?thesis using assms(2) by (auto split: option.splits)
qed simp

lemma turn_log_effect:
  assumes "turn_log v course job dtype vp pos n = (Inr e, n')" and "clock_moves v"
  obtains rs bs where "mn_reports n' = mn_reports n @ rs" and "mn_bases n' = mn_bases n @ bs" and "media_now v n \<le> media_now v n'"
    and "\<And>r. r \<in> set rs \<Longrightarrow> mr_pos r = trunc pos" and "length bs \<le> refusals rs"
  using assms(1)
proof (cases rule: turn_log_cases)
  case idle
  with that [of "[]" "[]"] show thesis by (simp add: refusals_def)
next
  case (report passed state n1)
  have "mn_reports n' = mn_reports n1
    \<and> (\<exists>bs. mn_bases n' = mn_bases n1 @ bs \<and> length bs \<le> refusals [reported vp pos passed state]) \<and> media_now v n1 \<le> media_now v n'"
  proof (cases "state = 403")
    case True
    then show ?thesis using after_forbidden_effect [OF report(6) assms(2)] by (simp add: refusals_def)
  next
    case False
    show ?thesis
    proof (cases "passed \<or> state = 200")
      case True
      show ?thesis
        using keepsD [OF keeps_after_report report(8) [OF True], of mn_reports]
          keepsD [OF keeps_after_report report(8) [OF True], of mn_bases]
          forwardD [OF forward_after_report [OF assms(2)] report(8) [OF True]] by simp
    qed (use report(7) False in simp)
  qed
  then obtain bs where "mn_reports n' = mn_reports n1" "mn_bases n' = mn_bases n1 @ bs" "media_now v n1 \<le> media_now v n'"
    "length bs \<le> refusals [reported vp pos passed state]" by blast
  then show thesis
    using that [of "[reported vp pos passed state]" bs] report(3-5) assms(2) by (simp add: reported_def)
qed

text \<open>
  A run from a state has made the reports \<open>rs\<close> and set the positions \<open>bs\<close>: at the start, and at most
  one after each report that was answered 403
\<close>

definition grew :: "('w, 'z) mnet_scheme \<Rightarrow> media_report list \<Rightarrow> rat list \<Rightarrow> ('w, 'z) mnet_scheme \<Rightarrow> bool" where
  "grew n rs bs n' \<longleftrightarrow> mn_reports n' = mn_reports n @ rs \<and> mn_bases n' = mn_bases n @ bs
     \<and> length bs \<le> Suc (refusals rs)"

lemma refusals_append: "refusals (xs @ ys) = refusals xs + refusals ys"
  by (simp add: refusals_def)

lemma grew_keeps:
  assumes "grew n0 rs bs n" and "preserves mn_reports m" and "preserves mn_bases m" and "m n = (r, n')"
  shows "grew n0 rs bs n'"
  using assms(1) keepsD [OF assms(2,4)] keepsD [OF assms(3,4)] by (simp add: grew_def)

lemma next_turn_honest:
  assumes log: "turn_log v course job dtype vp pos n = (Inr (Next_turn vp'), n')" and "clock_moves v" and "0 < speed"
    and "honest speed t0 bs (media_now v n) rs vp" and "vp_pos vp = Some pos"
    and "mn_bases n' = mn_bases n @ bs1" and claims: "claims_watchable speed t0 (bs @ bs1) (media_now v n') rs'"
  shows "honest speed t0 (bs @ bs1) (media_now v n') rs' vp'"
proof -
  obtain d where pos: "vp_pos vp' = (case map_of d ''playTime'' of None \<Rightarrow> vp_pos vp | Some t \<Rightarrow> media_num v t)"
    and bs1: "bs1 = (case media_num v (dget d ''playTime'') of None \<Rightarrow> [] | Some b \<Rightarrow> [b])"
    and iter: "vp_last_iter vp' = vp_last_iter vp" and later: "media_now v n + 2 \<le> media_now v n'"
    using turn_log_next [OF log] assms(2,6) by (auto simp: refreshed_def)
  have t: "t0 \<le> vp_last_iter vp" "vp_last_iter vp \<le> media_now v n" using assms(4) by (simp_all add: honest_def)
  have "watchable speed t0 (bs @ bs1) (vp_last_iter vp') p" if p: "vp_pos vp' = Some p" for p
  proof (cases "map_of d ''playTime''")
    case None
    then have "watchable speed t0 bs (vp_last_iter vp) p" using p pos assms(4) by (simp add: honest_def)
    from watchable_mono [OF this order_refl assms(3) order_refl] show ?thesis by (simp add: iter)
  next
    case (Some x)
    then have "bs1 = [p]" using p pos bs1 by (simp add: dget_def)
    then show ?thesis using t(1) assms(3) by (intro watchable_base [of p]) (simp_all add: iter)
  qed
  then show ?thesis using claims t later iter by (simp add: honest_def)
qed

lemma forward_advance: "clock_moves v \<Longrightarrow> forward v (turn_advance v speed passed vp pos)"
  unfolding turn_advance_def Let_def VIDEO_SLEEP_THRESHOLD_def
  by (intro forward_bind forward_pure forward_world forward_pause) simp_all

lemma advance_honest:
  assumes adv: "turn_advance v speed passed vp pos n = (Inr t, n')" and clock: "clock_moves v" and speed: "0 < speed"
    and claims: "claims_watchable speed t0 bs (media_now v n) rs"
    and pos: "\<not> passed \<Longrightarrow> watchable speed t0 bs (vp_last_iter vp) pos"
    and t0: "\<not> passed \<Longrightarrow> t0 \<le> vp_last_iter vp" and iter: "\<not> passed \<Longrightarrow> vp_last_iter vp \<le> media_now v n"
  shows "case t of Finished r \<Rightarrow> claims_watchable speed t0 bs (media_now v n') rs | Another vp' \<Rightarrow> honest speed t0 bs (media_now v n') rs vp'"
proof -
  have claims': "claims_watchable speed t0 bs (media_now v n') rs"
    using claims_mono [OF claims forwardD [OF forward_advance [OF clock] adv] speed, of "[]"] by simp
  from adv show ?thesis
  proof (cases rule: turn_advance_result)
    case 1
    then show ?thesis using claims' by simp
  next
    case (2 p)
    obtain b where b: "b \<in> set bs" "pos \<le> max 0 b + speed * (vp_last_iter vp - t0)"
      using pos [OF 2(1)] by (auto simp: watchable_def)
    have "p \<le> pos + (media_now v n - vp_last_iter vp) * speed" using 2(2) by simp
    also have "\<dots> \<le> max 0 b + speed * (media_now v n - t0)" using b(2) by (simp add: algebra_simps)
    finally have "watchable speed t0 bs (media_now v n) p" using b(1) by (auto simp: watchable_def)
    moreover have "t0 \<le> media_now v n" using t0 iter 2(1) by (metis order_trans)
    ultimately show ?thesis using 2 claims' clock by (simp add: honest_def)
  qed
qed

lemma turn_honest:
  assumes turn: "video_turn v course job speed dtype vp n = (Inr t, n')" and clock: "clock_moves v" and speed: "0 < speed"
    and grew: "grew n0 rs bs n" and honest: "honest speed t0 bs (media_now v n) rs vp"
  shows "\<exists>rs' bs'. grew n0 rs' bs' n' \<and>
    (case t of Finished r \<Rightarrow> claims_watchable speed t0 bs' (media_now v n') rs' | Another vp' \<Rightarrow> honest speed t0 bs' (media_now v n') rs' vp')"
proof -
  obtain stop n1 where stop: "stop_requested v n = (Inr stop, n1)" by (simp add: stop_requested_def case_prod_beta Let_def)
  have grew1: "grew n0 rs bs n1" by (rule grew_keeps [where m = "stop_requested v", OF grew _ _ stop]) (intro keeps_rules; simp)+
  have n1: "media_now v n \<le> media_now v n1" by (rule forwardD [OF forward_world(3) [OF clock] stop])
  have honest1: "honest speed t0 bs (media_now v n1) rs vp"
    using honest n1 claims_mono [of speed t0 bs "media_now v n" rs "media_now v n1" "[]"] speed by (auto simp: honest_def)
  show ?thesis
  proof (cases stop)
    case True
    then have "t = Finished SR_CANCELLED" "n' = n1" using turn stop by (simp_all add: video_turn_def io_bind_def io_return_def)
    then show ?thesis using grew1 honest1 by (auto simp: honest_def)
  next
    case False
    then obtain pos e n2 where pos: "vp_pos vp = Some pos" and log: "turn_log v course job dtype vp pos n1 = (Inr e, n2)"
      and more: "(case e of Return r \<Rightarrow> io_return (Finished r) | Next_turn vp' \<Rightarrow> io_return (Another vp')
                  | Go_on passed vp' \<Rightarrow> turn_advance v speed passed vp' pos) n2 = (Inr t, n')"
      using turn stop by (auto simp: video_turn_def io_bind_Inr split: option.splits)
    obtain rs1 bs1 where eff: "mn_reports n2 = mn_reports n1 @ rs1" "mn_bases n2 = mn_bases n1 @ bs1"
      "media_now v n1 \<le> media_now v n2" "\<And>r. r \<in> set rs1 \<Longrightarrow> mr_pos r = trunc pos" "length bs1 \<le> refusals rs1"
      using turn_log_effect [OF log clock] by metis
    have grew2: "grew n0 (rs @ rs1) (bs @ bs1) n2" using grew1 eff(1,2,5) by (simp add: grew_def refusals_append)
    have at: "watchable speed t0 bs (vp_last_iter vp) pos" using honest1 pos by (simp add: honest_def)
    have iter: "t0 \<le> vp_last_iter vp" "vp_last_iter vp \<le> media_now v n1" using honest1 by (simp_all add: honest_def)
    have "watchable speed t0 (bs @ bs1) (media_now v n2) (of_int (trunc pos))"
      by (rule watchable_mono [OF watchable_report [OF at iter(1) speed]]) (use iter eff(3) speed in simp_all)
    then have claims: "claims_watchable speed t0 (bs @ bs1) (media_now v n2) (rs @ rs1)"
      using claims_mono [of speed t0 bs "media_now v n1" rs "media_now v n2" bs1] honest1 eff(3,4) speed
      by (auto simp: claims_watchable_def honest_def)
    show ?thesis
    proof (cases e)
      case (Return r)
      then show ?thesis using more grew2 claims by (auto intro!: exI)
    next
      case (Next_turn vp')
      then have "t = Another vp'" "n' = n2" using more by simp_all
      moreover have "honest speed t0 (bs @ bs1) (media_now v n2) (rs @ rs1) vp'"
        by (rule next_turn_honest [OF log [unfolded Next_turn] clock speed honest1 pos eff(2) claims])
      ultimately show ?thesis using grew2 by auto
    next
      case (Go_on passed vp1)
      then have adv: "turn_advance v speed passed vp1 pos n2 = (Inr t, n')" using more by simp
      have "grew n0 (rs @ rs1) (bs @ bs1) n'"
        by (rule grew_keeps [where m = "turn_advance v speed passed vp1 pos", OF grew2 _ _ adv]) (intro keeps_rules; simp)+
      moreover have "watchable speed t0 (bs @ bs1) (vp_last_iter vp1) pos \<and> vp_last_iter vp1 = vp_last_iter vp" if "\<not> passed"
        using turn_log_goes_on [of v course job dtype vp pos n1 vp1 n2] log Go_on that clock
          watchable_mono [OF at order_refl speed order_refl] by (simp add: log_kept_def)
      moreover have "t0 \<le> vp_last_iter vp1" "vp_last_iter vp1 \<le> media_now v n2" if "\<not> passed"
        using calculation(2) [OF that] iter eff(3) by simp_all
      ultimately show ?thesis using advance_honest [OF adv clock speed claims] by blast
    qed
  qed
qed

lemma loop_honest:
  assumes "video_loop v course job speed dtype vp n = Some y" and "clock_moves v" and "0 < speed"
  shows "\<forall>r rs bs. fst y = Inr r \<longrightarrow> grew n0 rs bs n \<longrightarrow> honest speed t0 bs (media_now v n) rs vp \<longrightarrow>
          (\<exists>rs' bs'. grew n0 rs' bs' (snd y) \<and> claims_watchable speed t0 bs' (media_now v (snd y)) rs')"
proof -
  have "clock_moves v \<longrightarrow> 0 < speed \<longrightarrow> (\<forall>r rs bs. fst y = Inr r \<longrightarrow> grew n0 rs bs n \<longrightarrow> honest speed t0 bs (media_now v n) rs vp \<longrightarrow>
          (\<exists>rs' bs'. grew n0 rs' bs' (snd y) \<and> claims_watchable speed t0 bs' (media_now v (snd y)) rs'))"
  proof (rule video_loop.raw_induct [OF _ assms(1), where P = "\<lambda>v course job speed dtype vp n y. clock_moves v \<longrightarrow> 0 < speed \<longrightarrow>
      (\<forall>r rs bs. fst y = Inr r \<longrightarrow> grew n0 rs bs n \<longrightarrow> honest speed t0 bs (media_now v n) rs vp \<longrightarrow>
          (\<exists>rs' bs'. grew n0 rs' bs' (snd y) \<and> claims_watchable speed t0 bs' (media_now v (snd y)) rs'))"], intro allI impI)
    fix f v course job speed dtype vp n y r rs bs
    assume IH: "\<And>v course job speed dtype vp n y. f v course job speed dtype vp n = Some y \<Longrightarrow> clock_moves v \<longrightarrow> 0 < speed \<longrightarrow>
      (\<forall>r rs bs. fst y = Inr r \<longrightarrow> grew n0 rs bs n \<longrightarrow> honest speed t0 bs (media_now v n) rs vp \<longrightarrow>
          (\<exists>rs' bs'. grew n0 rs' bs' (snd y) \<and> claims_watchable speed t0 bs' (media_now v (snd y)) rs'))"
      and step: "(case video_turn v course job speed dtype vp n of
          (Inl e, n1) \<Rightarrow> Some (Inl e, n1)
        | (Inr (Finished r), n1) \<Rightarrow> Some (Inr r, n1)
        | (Inr (Another vp'), n1) \<Rightarrow> f v course job speed dtype vp' n1) = Some y"
      and hyps: "clock_moves v" "0 < speed" and y: "fst y = Inr r"
      and grew: "grew n0 rs bs n" and honest: "honest speed t0 bs (media_now v n) rs vp"
    obtain t n1 where t: "video_turn v course job speed dtype vp n = (Inr t, n1)"
      using step y by (auto split: prod.splits sum.splits vturn.splits)
    obtain rs1 bs1 where turn: "grew n0 rs1 bs1 n1"
      "case t of Finished r \<Rightarrow> claims_watchable speed t0 bs1 (media_now v n1) rs1 | Another vp' \<Rightarrow> honest speed t0 bs1 (media_now v n1) rs1 vp'"
      using turn_honest [OF t hyps grew honest] by blast
    show "\<exists>rs' bs'. grew n0 rs' bs' (snd y) \<and> claims_watchable speed t0 bs' (media_now v (snd y)) rs'"
    proof (cases t)
      case (Another vp')
      then have "f v course job speed dtype vp' n1 = Some y" using step t by simp
      from IH [OF this] show ?thesis using y turn Another hyps by simp
    next
      case (Finished r')
      then have "y = (Inr r', n1)" using step t by simp
      then show ?thesis using turn Finished by (intro exI [of _ rs1] exI [of _ bs1]) simp
    qed
  qed
  then show ?thesis using assms by blast
qed

text \<open>
  C35: no progress report claims more than could be watched: its playing time is at most a position
  the playback was set to (the one the job starts at, or that of a refresh; one at most for each
  report answered 403), and the time that has passed since the start at the speed.
\<close>

theorem video_claims_watched:
  assumes "study_video v course job speed dtype n = Some (Inr r, n')" and "clock_moves v" and "0 < speed"
  shows "\<exists>rs bs. mn_reports n' = mn_reports n @ rs \<and> mn_bases n' = mn_bases n @ bs \<and> length bs \<le> Suc (refusals rs)
    \<and> (\<forall>rep \<in> set rs. \<exists>b \<in> set bs. of_int (mr_pos rep) \<le> max 0 b + speed * (media_now v n' - media_now v n))"
proof -
  obtain x n1 where start: "study_start v course job dtype n = (Inr x, n1)"
    and more: "case x of Inl r' \<Rightarrow> r' = r \<and> n1 = n' | Inr vp \<Rightarrow> video_loop v course job speed dtype vp n1 = Some (Inr r, n')"
    using assms(1) by (auto simp: study_video_def split: prod.splits sum.splits)
  have "\<exists>rs bs. grew n rs bs n' \<and> claims_watchable speed (media_now v n) bs (media_now v n') rs"
    using start
  proof (cases rule: study_start_result)
    case 1
    then show ?thesis using more by (auto intro!: exI [of _ "[]"] simp: grew_def claims_watchable_def)
  next
    case (2 dtoken duration start n2)
    from 2(1) show ?thesis
    proof (cases rule: play_video_from_result)
      case (1 passed state wait t)
      have t: "media_now v n \<le> t" "t \<le> media_now v n1" using 1(4) 2(4) assms(2) by auto
      have grew: "grew n [first_report start duration passed state] [of_int start] n1"
        using 1(1,3) 2(2,3) by (simp add: grew_def)
      have base: "watchable speed (media_now v n) [of_int start] t' (of_int start)" if "media_now v n \<le> t'" for t'
        by (rule watchable_base [of "of_int start"]) (use that assms(3) in simp_all)
      then have claims: "claims_watchable speed (media_now v n) [of_int start] (media_now v n1) [first_report start duration passed state]"
        using t by (simp add: claims_watchable_def first_report_def)
      show ?thesis
      proof (cases x)
        case (Inl r')
        then show ?thesis using more grew claims by auto
      next
        case (Inr vp)
        then have "vp_pos vp = Some (of_int start)" "vp_last_iter vp = t" using 1(5) by (auto split: if_splits)
        then have "honest speed (media_now v n) [of_int start] (media_now v n1) [first_report start duration passed state] vp"
          using claims t base by (simp add: honest_def)
        moreover have "video_loop v course job speed dtype vp n1 = Some (Inr r, n')" using more Inr by simp
        ultimately show ?thesis using loop_honest [OF _ assms(2,3)] grew by fastforce
      qed
    qed
  qed
  then show ?thesis by (auto simp: grew_def claims_watchable_def watchable_def)
qed

section \<open>A platform\<close>

text \<open>
  A platform with a video of 30 seconds that lets the second report pass; its world is the clock and
  the number of requests it has answered.
\<close>

definition media_answer :: "nat \<Rightarrow> pyval" where
  "media_answer k =
     PDict (if k = 0 then [(''status'', PStr ''success''), (''dtoken'', PStr ''tok''), (''crc'', PStr ''c''),
                           (''key'', PStr ''k''), (''duration'', PInt 30)]
            else [(''isPassed'', PBool (k = 2))])"

definition demo_media :: "(rat \<times> nat) media" where
  "demo_media =
     \<lparr>v_web = \<lparr>web_send = (\<lambda>_ _ (t, k). (Inr \<lparr>rs_status = 200, rs_url = [], rs_location = [], rs_text = [],
                                              rs_json = Some (media_answer k)\<rparr>, (t, Suc k))),
               web_cookie = (\<lambda>_ name _. if name = ''_uid'' then Some ''7'' else None), web_ms = (\<lambda>_. 0), web_iso = (\<lambda>_. [])\<rparr>,
      v_session = 0, v_now = fst, v_sleep = (\<lambda>s (t, k). (t + s, k)), v_uniform = (\<lambda>a b w. (a, w)),
      v_stop = (\<lambda>w. (False, w)), v_progress = (\<lambda>_ _ w. w), v_md5 = (\<lambda>_. []), v_float = (\<lambda>_. 0), v_int = (\<lambda>_. None)\<rparr>"

definition demo_course :: pydict where
  "demo_course = [(''clazzId'', PStr ''1''), (''courseId'', PStr ''2''), (''cpi'', PStr ''3'')]"

definition demo_job :: pydict where
  "demo_job = [(''name'', PStr ''v''), (''objectid'', PStr ''o''), (''jobid'', PStr ''j''), (''otherinfo'', PStr ''x-rt_d''),
     (''playTime'', PInt 4000), (''rt'', PStr []), (''videoFaceCaptureEnc'', PStr []), (''attDuration'', PStr []),
     (''attDurationEnc'', PStr [])]"

definition demo_net :: "(rat \<times> nat) mnet" where
  "demo_net = \<lparr>sent = [], sessions = 1, world = (0, 0), mn_log_call = 0, mn_rate_call = 0, mn_reports = [], mn_bases = []\<rparr>"

text \<open>A run at the speed 20: the report at the start, one turn, and the report that passes\<close>

lemma demo_clock_moves: "clock_moves demo_media"
  by (simp add: clock_moves_def demo_media_def case_prod_beta)

lemmas demo_defs = demo_media_def demo_course_def demo_job_def media_answer_def
lemmas step_defs = http_def media_uniform_def media_pause_def media_clock_def io_bind_def io_of_def io_get_def io_return_def get_key_def
  stop_requested_def call_progress_def set_base_def

text \<open>A report at the time \<open>t\<close>, at most two seconds after the last one at \<open>c\<close>\<close>

lemma demo_log:
  assumes "world n = (t, k)" and "0 < k" and "mn_log_call n = c" and "t - c \<le> 2"
  shows "\<exists>n'. video_progress_log demo_media demo_course demo_job (PStr ''tok'') d p ''Video'' n = (Inr (k = 2, 200), n')
    \<and> world n' = (c + 2, Suc k) \<and> mn_log_call n' = c + 2
    \<and> mn_reports n' = mn_reports n @ [\<lparr>mr_pos = p, mr_duration = d, mr_passed = (k = 2), mr_status = 200\<rparr>]"
  using assms
  by (simp add: video_progress_log_def demo_defs step_defs Let_def names_course_def job_rt_def log_verdict_def
      is_passed_def map_sum_def record_report_def send_log_def get_uid_def limit_log_def limit_rate_def add_truthy_def
      VIDEO_LOG_RATE_LIMIT_def)

lemma demo_start:
  "\<exists>n. study_start demo_media demo_course demo_job ''Video'' demo_net =
     (Inr (Inr \<lparr>vp_pos = Some 4, vp_last_log = 0, vp_last_iter = 0, vp_wait = 20, vp_duration = 30, vp_token = PStr ''tok'',
                vp_forbidden = 0, vp_saturated = 0\<rparr>), n)
     \<and> world n = (2, 2) \<and> mn_log_call n = 2
     \<and> mn_reports n = [\<lparr>mr_pos = 4, mr_duration = 30, mr_passed = False, mr_status = 200\<rparr>]"
proof -
  obtain n1 where n1: "video_info demo_media demo_job demo_net = (Inr (Some (media_answer 0)), n1)"
    and w1: "world n1 = (0, 1)" "mn_log_call n1 = 0" "mn_reports n1 = []"
    by (simp add: video_info_def demo_net_def get_fid_def demo_defs step_defs io_try_def case_prod_beta)
  define n2 where "n2 = n1\<lparr>mn_bases := mn_bases n1 @ [4]\<rparr>"
  have w2: "world n2 = (0, 1)" "mn_log_call n2 = 0" "mn_reports n2 = []" using w1 by (simp_all add: n2_def)
  obtain n3 where n3: "video_progress_log demo_media demo_course demo_job (PStr ''tok'') 30 4 ''Video'' n2 = (Inr (False, 200), n3)"
    and w3: "world n3 = (2, 2)" "mn_log_call n3 = 2"
      "mn_reports n3 = [\<lparr>mr_pos = 4, mr_duration = 30, mr_passed = False, mr_status = 200\<rparr>]"
    using demo_log [OF w2(1) _ w2(2), of 30 4] w2(3) by auto
  have draw: "draw_wait demo_media 30 n2 = (Inr 20, n2)" "call_progress demo_media 4 30 n2 = (Inr (), n2)" "v_now demo_media (world n2) = 0"
    using w1 w2 by (simp_all add: draw_wait_def demo_media_def step_defs trunc_def)
  have name: "get_key demo_job ''name'' = Inr (PStr ''v'')" "get_key demo_job ''playTime'' = Inr (PInt 4000)"
    by (simp_all add: demo_job_def get_key_def)
  have "study_start demo_media demo_course demo_job ''Video'' demo_net =
     (Inr (Inr \<lparr>vp_pos = Some 4, vp_last_log = 0, vp_last_iter = 0, vp_wait = 20, vp_duration = 30, vp_token = PStr ''tok'',
                vp_forbidden = 0, vp_saturated = 0\<rparr>), n3)"
    using n1 n3 draw name
    by (simp add: study_start_def play_video_from_def media_answer_def io_bind_def io_of_def get_key_def [of "_ # _"] media_int_def
        set_base_def media_clock_def io_get_def io_return_def flip: n2_def)
  then show ?thesis using w3 by blast
qed

lemma demo_first_turn:
  assumes "world n = (2, 2)"
  shows "\<exists>n'. video_turn demo_media demo_course demo_job 20 ''Video''
      \<lparr>vp_pos = Some 4, vp_last_log = 0, vp_last_iter = 0, vp_wait = 20, vp_duration = 30, vp_token = PStr ''tok'',
       vp_forbidden = 0, vp_saturated = 0\<rparr> n =
     (Inr (Another \<lparr>vp_pos = Some 30, vp_last_log = 0, vp_last_iter = 2, vp_wait = 20, vp_duration = 30,
                    vp_token = PStr ''tok'', vp_forbidden = 0, vp_saturated = 0\<rparr>), n')
     \<and> world n' = (3, 2) \<and> mn_log_call n' = mn_log_call n \<and> mn_reports n' = mn_reports n"
  using assms
  by (simp add: video_turn_def turn_log_def report_is_due_def turn_advance_def Let_def demo_media_def step_defs
      VIDEO_SLEEP_THRESHOLD_def)

lemma demo_last_turn:
  assumes "world n = (3, 2)" and "mn_log_call n = 2"
  shows "\<exists>n'. video_turn demo_media demo_course demo_job 20 ''Video''
      \<lparr>vp_pos = Some 30, vp_last_log = 0, vp_last_iter = 2, vp_wait = 20, vp_duration = 30, vp_token = PStr ''tok'',
       vp_forbidden = 0, vp_saturated = 0\<rparr> n = (Inr (Finished SR_SUCCESS), n') \<and> world n' = (5, 3)
     \<and> mn_reports n' = mn_reports n @ [\<lparr>mr_pos = 30, mr_duration = 30, mr_passed = True, mr_status = 200\<rparr>]"
proof -
  have stop: "stop_requested demo_media n = (Inr False, n)" using assms by (simp add: step_defs demo_media_def)
  have t: "trunc (30 :: rat) = 30" using trunc_of_int [of 30] by simp
  obtain n1 where log: "video_progress_log demo_media demo_course demo_job (PStr ''tok'') 30 30 ''Video'' n = (Inr (True, 200), n1)"
    and n1: "world n1 = (4, 3)" "mn_reports n1 = mn_reports n @ [\<lparr>mr_pos = 30, mr_duration = 30, mr_passed = True, mr_status = 200\<rparr>]"
    using demo_log [OF assms(1) _ assms(2), of 30 30] by auto
  have draw: "draw_wait demo_media 30 n1 = (Inr 20, n1)"
    using n1 by (simp add: draw_wait_def demo_media_def step_defs trunc_def)
  show ?thesis
    using stop log n1 draw
    by (simp add: video_turn_def turn_log_def report_is_due_def after_report_def t io_bind_def io_return_def)
       (simp add: turn_advance_def Let_def demo_media_def step_defs VIDEO_SLEEP_THRESHOLD_def)
qed

lemma demo_run:
  "\<exists>n'. study_video demo_media demo_course demo_job 20 ''Video'' demo_net = Some (Inr SR_SUCCESS, n')
     \<and> media_now demo_media n' = 5 \<and> map (\<lambda>r. (mr_pos r, mr_passed r)) (mn_reports n') = [(4, False), (30, True)]"
proof -
  obtain n1 where n1: "study_start demo_media demo_course demo_job ''Video'' demo_net =
     (Inr (Inr \<lparr>vp_pos = Some 4, vp_last_log = 0, vp_last_iter = 0, vp_wait = 20, vp_duration = 30, vp_token = PStr ''tok'',
                vp_forbidden = 0, vp_saturated = 0\<rparr>), n1)"
    and w1: "world n1 = (2, 2)" "mn_log_call n1 = 2"
     "mn_reports n1 = [\<lparr>mr_pos = 4, mr_duration = 30, mr_passed = False, mr_status = 200\<rparr>]"
    using demo_start by blast
  obtain n2 where n2: "video_turn demo_media demo_course demo_job 20 ''Video''
      \<lparr>vp_pos = Some 4, vp_last_log = 0, vp_last_iter = 0, vp_wait = 20, vp_duration = 30, vp_token = PStr ''tok'',
       vp_forbidden = 0, vp_saturated = 0\<rparr> n1 =
     (Inr (Another \<lparr>vp_pos = Some 30, vp_last_log = 0, vp_last_iter = 2, vp_wait = 20, vp_duration = 30,
                    vp_token = PStr ''tok'', vp_forbidden = 0, vp_saturated = 0\<rparr>), n2)"
    and w2: "world n2 = (3, 2)" "mn_log_call n2 = 2" "mn_reports n2 = mn_reports n1"
    using demo_first_turn [OF w1(1)] w1(2) by auto
  obtain n3 where n3: "video_turn demo_media demo_course demo_job 20 ''Video''
      \<lparr>vp_pos = Some 30, vp_last_log = 0, vp_last_iter = 2, vp_wait = 20, vp_duration = 30, vp_token = PStr ''tok'',
       vp_forbidden = 0, vp_saturated = 0\<rparr> n2 = (Inr (Finished SR_SUCCESS), n3)" and w3: "world n3 = (5, 3)"
     "mn_reports n3 = mn_reports n2 @ [\<lparr>mr_pos = 30, mr_duration = 30, mr_passed = True, mr_status = 200\<rparr>]"
    using demo_last_turn [OF w2(1,2)] by blast
  have "study_video demo_media demo_course demo_job 20 ''Video'' demo_net = Some (Inr SR_SUCCESS, n3)"
    by (simp add: study_video_def n1 video_loop.simps n2 n3)
  then show ?thesis using w1(3) w2(3) w3 by (simp add: media_now_def demo_media_def)
qed

lemma video_verdict_earned_witness:
  "\<exists>n'. study_video demo_media demo_course demo_job 20 ''Video'' demo_net = Some (Inr SR_SUCCESS, n')
     \<and> (\<exists>rs. mn_reports n' = mn_reports demo_net @ rs \<and> verdict_earned SR_SUCCESS rs)"
  using demo_run video_verdict_earned [of demo_media demo_course demo_job 20 "''Video''" demo_net SR_SUCCESS] by blast

lemma video_study_ends_witness:
  "\<exists>y. study_video demo_media demo_course demo_job 1 ''Video'' demo_net = Some y"
  by (rule video_study_ends [OF demo_clock_moves]) simp

lemma video_claims_watched_witness:
  "\<exists>n'. study_video demo_media demo_course demo_job 20 ''Video'' demo_net = Some (Inr SR_SUCCESS, n')
     \<and> (\<exists>rs bs. mn_reports n' = mn_reports demo_net @ rs \<and> mn_bases n' = mn_bases demo_net @ bs \<and> length bs \<le> Suc (refusals rs)
         \<and> (\<forall>rep \<in> set rs. \<exists>b \<in> set bs. of_int (mr_pos rep) \<le> max 0 b + 20 * (media_now demo_media n' - media_now demo_media demo_net)))"
proof -
  obtain n' where "study_video demo_media demo_course demo_job 20 ''Video'' demo_net = Some (Inr SR_SUCCESS, n')"
    using demo_run by blast
  with video_claims_watched [OF this demo_clock_moves] show ?thesis by simp
qed

text \<open>
  The position a refresh sets is taken as seconds, that of the job as milliseconds: after a refresh
  whose \<open>playTime\<close> is the job's, the playback of a video stands past its end.
\<close>

lemma refresh_reads_seconds:
  "vp_pos (apply_refresh demo_media [(''playTime'', dget demo_job ''playTime'')]
     \<lparr>vp_pos = Some 4, vp_last_log = 0, vp_last_iter = 0, vp_wait = 20, vp_duration = 30, vp_token = PStr ''tok'',
      vp_forbidden = 1, vp_saturated = 0\<rparr>) = Some 4000"
  by (simp add: apply_refresh_def media_num_def demo_job_def dget_def)

end
