(* ===== verification/Spec2Isabelle.thy ===== *)
theory Spec2Isabelle
  imports Learning_Worker Persist_Sequencer Job_Processor Storage_Postgres Rate_Limiter
    Notification Auth_Service Signin_Service Auth_Api Quiz Zhs_System Video_Sound
begin

text \<open>
  A verification library for the backend of university-helper (\<open>backend/app\<close>), a service that
  studies online courses for its users in background tasks.

  The program. A user's request starts a \<^emph>\<open>learning task\<close>: the learning manager
  (\<open>services/course/chaoxing/learning_manager.py\<close>) admits it into its registry, persists it and
  starts a worker thread. The worker logs in, selects courses and chapters and hands each course to
  a job processor (\<open>learning.py\<close>), which runs the chapters on worker threads with a retry
  pipeline. Every change of a task is written as a snapshot, in order, through the task store facade
  (\<open>services/course/task_store.py\<close>), which encrypts credentials (\<open>core/credential_crypto.py\<close>),
  into a storage adapter (\<open>storage/sqlite.py\<close> on the desktop, \<open>storage/postgres.py\<close> on a server).
  On a restart the registry is rebuilt from the store. Registries are bounded and cleaned by
  \<open>task_admission.py\<close>. Around this stand the accounts (\<open>services/auth_service.py\<close>, one tenant
  database per user), the pooled sessions they and the Postgres adapter use (\<open>db/session.py\<close>), the
  request limiter (\<open>middleware/rate_limiter.py\<close>), the stack of middlewares in front of every route
  (\<open>main.py\<close>, \<open>middleware/\<close>), the account routes, and the guards in front of outbound requests to
  addresses users configure (\<open>endpoint_security.py\<close>, \<open>services/notification/providers.py\<close>). The
  quizzes of a chapter are answered from a bank of answers with a shared cache
  (\<open>answer_base.py\<close>, \<open>answer_cache.py\<close>, \<open>quiz_service.py\<close>). A second platform, Zhihuishu, has a client
  and an adapter of its own (\<open>services/course/zhihuishu\<close>), with one task at a time for each user.

  The theories.
  \<^item> \<open>Py_Prelude\<close>: Python values, truthiness, \<open>str\<close> and \<open>repr\<close>, dictionaries as association lists,
    string operations, and the lemmas the others share.
  \<^item> \<open>Py_Datetime\<close>: instants in microseconds with an optional offset; parsing and rendering texts
    are parameters (\<open>dt_text\<close>).
  \<^item> \<open>Task_Admission\<close> (\<open>task_admission.py\<close>): statuses, record times, the listing order, and the
    retention policy, whose contract is the locale \<open>retention\<close>.
  \<^item> \<open>Storage_Base\<close>, \<open>Storage_Sqlite\<close> (\<open>storage/base.py\<close>, \<open>storage/sqlite.py\<close>): tables as lists of
    rows, refined to maps; the interface \<open>task_store_protocol\<close> as a locale and the SQLite adapter as
    its interpretation, with the poisoning of the connection as a state machine.
  \<^item> \<open>Credential_Crypto\<close>, \<open>Task_Store\<close>: encryption of fields and the facade. The Fernet library is
    a parameter; \<open>fernet_ok\<close> states that it decrypts what it encrypted, to ASCII tokens.
  \<^item> \<open>Learning_State\<close>, \<open>Learning_Manager\<close>: the registry and every operation of the manager, the
    public part of a task as a dictionary and its private keys as fields. Time, fresh ids and the
    success of a thread start are arguments.
  \<^item> \<open>Status_Store\<close>, \<open>Task_Registry\<close>: what a manager needs of its store (locale \<open>status_store\<close>, proved
    of the facade over any adapter with the protocol), and what the registries of the two managers
    share: active tasks, owners, admission between two cleanings.
  \<^item> \<open>Learning_Invariant\<close>, \<open>Learning_System\<close>, \<open>Learning_Service\<close>: what the manager needs of its
    store (locale \<open>learning_store\<close>, proved of the facade over any store with the protocol and
    interpreted on SQLite), the service as a transition system with one step per critical section,
    and the operations as runs of it.
  \<^item> \<open>Py_Regex\<close>, \<open>Web_Session\<close>: a backtracking matcher for the patterns the clients use, and code that
    talks to a remote site as functions of a network state that return or raise. What the network
    answers is a parameter; the requests made are recorded.
  \<^item> \<open>Signin_Client\<close>, \<open>Signin_Sound\<close> (\<open>services/course/chaoxing/signin.py\<close>): the sign-in client with its
    login, courses, activities, sign types and submissions, and which requests each operation makes.
  \<^item> \<open>Signin_Manager\<close>, \<open>Signin_Worker\<close>, \<open>Signin_Run\<close>: the sign-in manager, its worker as an operation
    that leaves a list of acts on the manager behind, and what every run of the worker does.
  \<^item> \<open>Signin_Registry\<close>, \<open>Signin_Service\<close>: the sign-in service as a transition system, on a store with
    the laws of the locale \<open>signin_store\<close>, interpreted on the facade over SQLite.
  \<^item> \<open>Persist_Sequencer\<close>: the ordering of snapshot writes among threads.
  \<^item> \<open>Task_Input\<close> (also \<open>payload_mapper.py\<close>), \<open>Learning_Worker\<close>: the request, course selection,
    chapter limits, and the worker as the list of acts it performs on the manager, computed from
    what it observes of the outside world.
  \<^item> \<open>Chapter_Job\<close>, \<open>Job_Processor\<close> (\<open>learning.py\<close>): one task point, one chapter, and the threads
    that process the chapters of a course: queues, counters, retries, the controller.
  \<^item> \<open>Db_Session\<close> (\<open>db/session.py\<close>): tenant names, the map of connection pools as a transition
    system of threads with one step per critical section, and the session context manager, whose
    outcome is a \<open>db_fate\<close> for the theories that use the database.
  \<^item> \<open>Storage_Postgres\<close> (\<open>storage/postgres.py\<close>, \<open>factory.py\<close>): the second storage adapter over the
    tables of \<open>Storage_Base\<close>, and the simulation between the two adapters.
  \<^item> \<open>Auth_Service\<close> (\<open>services/auth_service.py\<close>, \<open>core/security.py\<close>, \<open>schemas/auth.py\<close>):
    registration with its compensation, the loop that creates a tenant database, login, tokens.
  \<^item> \<open>Py_Ipaddress\<close>, \<open>Py_Urlsplit\<close>: the parts of Python's \<open>ipaddress\<close> and \<open>urllib.parse\<close> the next
    three rest on; addresses are words.
  \<^item> \<open>Rate_Limiter\<close>: client identity behind proxies, the counters table, the in-memory fallback.
  \<^item> \<open>Endpoint_Guard\<close>, \<open>Notification\<close>: the two URL guards and the notification services.
  \<^item> \<open>Http_Gate\<close> (\<open>main.py\<close>, \<open>middleware/\<close>, \<open>dependencies.py\<close>): the middlewares as functions from a request
    and the handler behind them to a response, composed in the order of \<open>main.py\<close>: the host check,
    the redirect to HTTPS, the tenant gate with its public paths, metrics, headers.
  \<^item> \<open>Update_Check\<close> (\<open>services/update_check.py\<close>): the versions as an instance of \<open>linorder\<close>, the cached
    release and its refresh.
  \<^item> \<open>Auth_Api\<close> (\<open>api/v1/auth.py\<close>, \<open>services/admin.py\<close>): the account routes over the limiter, the accounts
    and the gate, and the composition of the three.
  \<^item> \<open>Answer_Bank\<close>, \<open>Quiz\<close>: kinds of answers, the cache, a bank's query and the chain of banks;
    matching an answer to the options, the form of a quiz and one whole quiz.
  \<^item> \<open>Zhs_Protocol\<close>, \<open>Zhs_Learning\<close>, \<open>Zhs_Watch\<close> (\<open>zhihuishu/crypto.py\<close>, \<open>learning.py\<close>): JSON, base64,
    padding and the obfuscated progress fields with their inverses; the platform's answers; the
    playback of a video, whose state holds the dictionary of the video and the reports it made.
  \<^item> \<open>Zhs_Adapter\<close>, \<open>Zhs_Tasks\<close>, \<open>Zhs_System\<close> (\<open>zhihuishu/adapter.py\<close>): courses and videos; the tasks,
    their controls and the worker, one definition per critical section; both as a transition system.

  What is shown. The store finds what was stored, isolates users and bounds histories; credentials
  are transparent to the program and protected at rest. In every reachable state of the learning
  service the active tasks are those with a worker, one per user and at most 64; a final status is
  final; a worker that returns settles its task once; "completed" means every course completed.
  The same registry invariant holds of the sign-in service; its worker always returns and settles
  its task, submits only active sign-ins the request selects, and reports completion only when it
  submitted all of them.
  Snapshots are written in the order of the changes. Chapters processed by threads end as they
  would one after the other, within five attempts each. The two storage adapters answer alike.
  Registration is all or nothing, who registered can log in, and no pool is closed in use. The
  limiter bounds what gets through, whatever happens to the database, and no client chooses the
  identity it is counted by. Outbound requests reach no internal address. A request to a path that is
  not public reaches its handler only with a token the program issued; who registered passes with the
  token the login returned, and a failed login tells nothing about the account. A quiz is handed in
  with an answer to each of its questions, whichever way the bank was asked. A Zhihuishu video counts
  as watched when the platform acknowledged reports of its full length, and the questions on the way
  are answered with the options it marks as correct; its tasks are worked on one at a time, a
  cancelled one makes no progress, and a completed one has watched every video. Some theorems state where the code does not
  do what it means to: the controller of the job processor can leave while a chapter awaits its
  retry, a secret that looks like a token is stored in clear, a control with a padded id is not
  persisted, a selector of underscores raises, a user name may end in a line feed, an account whose
  insert is applied but not acknowledged stays without a database.

  Bounds and termination. Loops over data are structural recursions. The attempts of a chapter
  recurse with the measure \<open>MAX_TRIES - tries\<close>; the threads of the job processor lower a rank with
  each step. The loop that creates a tenant database uses up one of four delays or its one repair
  with each turn, so six attempts suffice. Each turn of a playback gains half a second or passes a
  checkpoint. A pause of the Zhihuishu client is followed for \<open>z_patience\<close> readings, as many as one
  likes, and then \<open>Still_waiting\<close>. A loop that waits for an event takes the readings it makes as an argument and has no
  result (\<open>None\<close>, or \<open>Waiting\<close>) where they end before the event.

  What is not modelled: the HTTP clients of Chaoxing other than sign-in and of the answer providers
  (their answers are arguments), the Zhihuishu logins, page decoding, chat sign-in, the routes of the course
  services, the session store, configuration and logging. Texts outside Latin-1 are
  parameters or replaced, because a \<open>char\<close> here is one byte. A database call is atomic; what it
  does is the effect of its statement, and psycopg2, bcrypt, Fernet, the JWT encoder, name
  resolution and \<open>requests\<close> are parameters or choices of the environment.
\<close>

end
